(* ===== verification/Prelude.thy ===== *)
theory Prelude
  imports Complex_Main "HOL-Library.AList"
begin

text \<open>
  What every component of the model shares: JSON values and the tests the code makes on them,
  results of code that may throw, decimal printing, the insertion-ordered maps of JavaScript and
  the SQL statements the durable stores use.

  Strings are byte strings: a \<open>string\<close> is the UTF-8 form of the JavaScript string.  Times are
  whole milliseconds.  A JSON number is a rational, which every finite JavaScript number is.
\<close>

named_theorems json_simps "evaluation of tests on JSON values"
named_theorems result_simps "evaluation of code that may throw"
named_theorems sql_simps "evaluation of statements on tables"

type_synonym millis = int

section \<open>Values parsed from JSON\<close>

text \<open>An object keeps its members in insertion order; its keys are distinct in what
  \<open>JSON.parse\<close> returns.\<close>

datatype json =
    JNull
  | JBool bool
  | JNum rat
  | JStr string
  | JArr "json list"
  | JObj "(string \<times> json) list"

text \<open>The guard \<open>isRecord\<close>, which six source files declare with the same body: an object that
  is neither null nor an array.\<close>

fun is_record :: "json \<Rightarrow> bool" where
  "is_record (JObj fs) = True"
| "is_record v = False"

text \<open>Property access \<open>value.key\<close>; the result None is \<open>undefined\<close>.\<close>

fun jfield :: "json \<Rightarrow> string \<Rightarrow> json option" where
  "jfield (JObj fs) k = map_of fs k"
| "jfield v k = None"

fun jstr :: "json option \<Rightarrow> string option" where
  "jstr (Some (JStr s)) = Some s"
| "jstr v = None"

fun jnum :: "json option \<Rightarrow> rat option" where
  "jnum (Some (JNum q)) = Some q"
| "jnum v = None"

fun jarr :: "json option \<Rightarrow> json list option" where
  "jarr (Some (JArr vs)) = Some vs"
| "jarr v = None"

fun jrec :: "json option \<Rightarrow> json option" where
  "jrec (Some (JObj fs)) = Some (JObj fs)"
| "jrec v = None"

definition has_field :: "json \<Rightarrow> string \<Rightarrow> bool" where
  "has_field v k = (jfield v k \<noteq> None)"

text \<open>What counts as true in a condition.\<close>

fun js_truthy :: "json option \<Rightarrow> bool" where
  "js_truthy None = False"
| "js_truthy (Some JNull) = False"
| "js_truthy (Some (JBool b)) = b"
| "js_truthy (Some (JNum q)) = (q \<noteq> 0)"
| "js_truthy (Some (JStr s)) = (s \<noteq> [])"
| "js_truthy (Some (JArr vs)) = True"
| "js_truthy (Some (JObj fs)) = True"

text \<open>\<open>typeof v === "object" && v !== null\<close>: arrays count.\<close>

fun js_object :: "json option \<Rightarrow> json option" where
  "js_object (Some (JArr vs)) = Some (JArr vs)"
| "js_object (Some (JObj fs)) = Some (JObj fs)"
| "js_object _ = None"

text \<open>\<open>s.includes(p)\<close>.\<close>

fun js_includes :: "string \<Rightarrow> string \<Rightarrow> bool" where
  "js_includes [] p = (p = [])"
| "js_includes (x # xs) p = (take (length p) (x # xs) = p \<or> js_includes xs p)"

definition max_safe_integer :: int where
  "max_safe_integer = 9007199254740991"

definition safe_integer :: "rat \<Rightarrow> bool" where
  "safe_integer q = (q = of_int \<lfloor>q\<rfloor> \<and> \<bar>\<lfloor>q\<rfloor>\<bar> \<le> max_safe_integer)"

definition jopt :: "string option \<Rightarrow> json" where
  "jopt s = (case s of None \<Rightarrow> JNull | Some t \<Rightarrow> JStr t)"

lemma jstr_eq_Some [json_simps]: "jstr v = Some s \<longleftrightarrow> v = Some (JStr s)"
  by (cases v rule: jstr.cases) auto

lemma jnum_eq_Some [json_simps]: "jnum v = Some q \<longleftrightarrow> v = Some (JNum q)"
  by (cases v rule: jnum.cases) auto

lemma jarr_eq_Some [json_simps]: "jarr v = Some vs \<longleftrightarrow> v = Some (JArr vs)"
  by (cases v rule: jarr.cases) auto

lemma jrec_eq_Some [json_simps]: "jrec v = Some r \<longleftrightarrow> v = Some r \<and> is_record r"
  by (cases v rule: jrec.cases) auto

lemma is_record_iff: "is_record v \<longleftrightarrow> (\<exists>fs. v = JObj fs)"
  by (cases v) auto

lemma safe_integer_of_int [json_simps]:
  "safe_integer (of_int n) \<longleftrightarrow> \<bar>n\<bar> \<le> max_safe_integer"
  by (simp add: safe_integer_def)

section \<open>Code that may throw\<close>

text \<open>\<open>Inl e\<close> is the exception e, \<open>Inr a\<close> the value a.\<close>

definition sbind :: "'e + 'a \<Rightarrow> ('a \<Rightarrow> 'e + 'b) \<Rightarrow> 'e + 'b" where
  "sbind r f = (case r of Inl e \<Rightarrow> Inl e | Inr a \<Rightarrow> f a)"

definition require :: "bool \<Rightarrow> 'e \<Rightarrow> 'e + unit" where
  "require c e = (if c then Inr () else Inl e)"

text \<open>\<open>xs.map(f)\<close> where f may throw: the first exception wins.\<close>

fun smap :: "('a \<Rightarrow> 'e + 'b) \<Rightarrow> 'a list \<Rightarrow> 'e + 'b list" where
  "smap f [] = Inr []"
| "smap f (x # xs) = sbind (f x) (\<lambda>y. sbind (smap f xs) (\<lambda>ys. Inr (y # ys)))"

lemma sbind_simps [simp, result_simps]:
  "sbind (Inl e) f = Inl e"
  "sbind (Inr a) f = f a"
  by (simp_all add: sbind_def)

lemma sbind_eq_Inr [result_simps]:
  "sbind r f = Inr b \<longleftrightarrow> (\<exists>a. r = Inr a \<and> f a = Inr b)"
  by (cases r) auto

lemma sbind_eq_Inl [result_simps]:
  "sbind r f = Inl e \<longleftrightarrow> r = Inl e \<or> (\<exists>a. r = Inr a \<and> f a = Inl e)"
  by (cases r) auto

lemma sbind_InlE:
  assumes "sbind r f = Inl e"
  obtains "r = Inl e" | a where "r = Inr a" "f a = Inl e"
  using assms by (cases r) auto

lemma sbind_InrE:
  assumes "sbind r f = Inr b"
  obtains a where "r = Inr a" "f a = Inr b"
  using assms by (cases r) auto

lemma require_simps [simp, result_simps]:
  "require True e = Inr ()"
  "require False e = Inl e"
  by (simp_all add: require_def)

lemma require_eq_Inr [result_simps]: "require c e = Inr u \<longleftrightarrow> c"
  by (simp add: require_def)

lemma require_eq_Inl [result_simps]: "require c e = Inl e' \<longleftrightarrow> \<not> c \<and> e' = e"
  by (auto simp: require_def)

lemma smap_Inr_length: "smap f xs = Inr ys \<Longrightarrow> length ys = length xs"
  by (induction xs arbitrary: ys) (auto simp: result_simps)

lemma smap_Inr_nth:
  "smap f xs = Inr ys \<Longrightarrow> i < length xs \<Longrightarrow> f (xs ! i) = Inr (ys ! i)"
  by (induction xs arbitrary: ys i) (auto simp: result_simps nth_Cons split: nat.splits)

lemma smap_Inl:
  "smap f xs = Inl e \<Longrightarrow> \<exists>x\<in>set xs. f x = Inl e"
  by (induction xs) (auto simp: result_simps)

section \<open>Decimal numerals\<close>

fun nat_digits :: "nat \<Rightarrow> string" where
  "nat_digits n = (if n < 10 then [char_of (48 + n)]
                   else nat_digits (n div 10) @ [char_of (48 + n mod 10)])"

declare nat_digits.simps [simp del]

text \<open>An integer as a template literal prints it.\<close>

definition js_int :: "int \<Rightarrow> string" where
  "js_int i = (if i < 0 then CHR ''-'' # nat_digits (nat (- i)) else nat_digits (nat i))"

section \<open>Blank strings\<close>

text \<open>\<open>!s.trim()\<close>: every character is white space of JavaScript; the bytes are UTF-8.\<close>

definition unicode_space :: "nat \<Rightarrow> nat \<Rightarrow> nat \<Rightarrow> bool" where
  "unicode_space a b c =
     ((a = 0xE1 \<and> b = 0x9A \<and> c = 0x80) \<or>
      (a = 0xE2 \<and> b = 0x80 \<and> (0x80 \<le> c \<and> c \<le> 0x8A \<or> c = 0xA8 \<or> c = 0xA9 \<or> c = 0xAF)) \<or>
      (a = 0xE2 \<and> b = 0x81 \<and> c = 0x9F) \<or>
      (a = 0xE3 \<and> b = 0x80 \<and> c = 0x80) \<or>
      (a = 0xEF \<and> b = 0xBB \<and> c = 0xBF))"

fun blank_bytes :: "nat list \<Rightarrow> bool" where
  "blank_bytes [] = True"
| "blank_bytes (a # r) =
     (if a \<in> {9, 10, 11, 12, 13, 32} then blank_bytes r
      else case r of
        [] \<Rightarrow> False
      | b # r' \<Rightarrow>
          if a = 0xC2 \<and> b = 0xA0 then blank_bytes r'
          else (case r' of [] \<Rightarrow> False | c # r'' \<Rightarrow> unicode_space a b c \<and> blank_bytes r''))"

definition js_blank :: "string \<Rightarrow> bool" where
  "js_blank s = blank_bytes (map of_char s)"

section \<open>Maps that keep insertion order\<close>

text \<open>
  A JavaScript \<open>Map\<close> iterates in insertion order, and setting a present key keeps its place:
  \<open>AList.update\<close> on association lists.  \<open>get\<close> is \<open>map_of\<close>, \<open>delete\<close> is \<open>AList.delete\<close>.
\<close>

lemma AList_update_keys_distinct [simp]:
  "distinct (map fst m) \<Longrightarrow> distinct (map fst (AList.update k v m))"
  by (rule distinct_update)

lemma AList_delete_keys_distinct [simp]:
  "distinct (map fst m) \<Longrightarrow> distinct (map fst (AList.delete k m))"
  by (rule distinct_delete)

lemma map_of_update [simp]: "map_of (AList.update k v m) = (map_of m)(k \<mapsto> v)"
  by (rule update_conv')

lemma map_of_delete [simp]: "map_of (AList.delete k m) = (map_of m)(k := None)"
  by (rule delete_conv')

lemma map_of_map_value: "map_of (map (\<lambda>(j, v). (j, f j v)) xs) i = map_option (f i) (map_of xs i)"
  by (induction xs) auto

section \<open>Sets that keep insertion order\<close>

text \<open>\<open>[...new Set(xs)]\<close>: the first occurrence of each element stays.\<close>

definition js_unique :: "'a list \<Rightarrow> 'a list" where
  "js_unique xs = rev (remdups (rev xs))"

lemma js_unique_simps [simp]:
  "distinct (js_unique xs)" "set (js_unique xs) = set xs" "js_unique [] = []"
  by (simp_all add: js_unique_def)

lemma count_removeAll: "count_list (removeAll j xs) i = (if i = j then 0 else count_list xs i)"
  by (induction xs) auto

section \<open>Tables\<close>

text \<open>
  A table is the list of its rows in rowid order.  \<open>UPDATE ... WHERE p\<close> rewrites the rows that
  satisfy p in place, \<open>INSERT\<close> appends, and \<open>ORDER BY k\<close> is a stable sort (the engine leaves
  the order of equal keys open; no property below depends on it).
\<close>

definition sql_update :: "('r \<Rightarrow> bool) \<Rightarrow> ('r \<Rightarrow> 'r) \<Rightarrow> 'r list \<Rightarrow> 'r list" where
  "sql_update p f rows = map (\<lambda>r. if p r then f r else r) rows"

definition sql_get :: "('r \<Rightarrow> bool) \<Rightarrow> 'r list \<Rightarrow> 'r option" where
  "sql_get p rows = List.find p rows"

definition sql_count :: "('r \<Rightarrow> bool) \<Rightarrow> 'r list \<Rightarrow> nat" where
  "sql_count p rows = length (filter p rows)"

lemma sql_update_Nil [simp]: "sql_update p f [] = []"
  by (simp add: sql_update_def)

lemma sql_update_Cons [simp]:
  "sql_update p f (r # rs) = (if p r then f r else r) # sql_update p f rs"
  by (simp add: sql_update_def)

lemma length_sql_update [simp, sql_simps]: "length (sql_update p f rows) = length rows"
  by (simp add: sql_update_def)

lemma sql_update_append [simp]:
  "sql_update p f (xs @ ys) = sql_update p f xs @ sql_update p f ys"
  by (simp add: sql_update_def)

lemma map_sql_update_same [sql_simps]:
  "(\<And>r. p r \<Longrightarrow> k (f r) = k r) \<Longrightarrow> map k (sql_update p f rows) = map k rows"
  by (simp add: sql_update_def)

lemma set_sql_update [sql_simps]:
  "set (sql_update p f rows) = (\<lambda>r. if p r then f r else r) ` set rows"
  by (simp add: sql_update_def)

lemma sql_update_none [sql_simps]: "(\<And>r. r \<in> set rows \<Longrightarrow> \<not> p r) \<Longrightarrow> sql_update p f rows = rows"
  by (simp add: sql_update_def map_idI)

lemma sql_get_Nil [simp]: "sql_get p [] = None"
  by (simp add: sql_get_def)

lemma sql_get_Cons [simp]: "sql_get p (r # rs) = (if p r then Some r else sql_get p rs)"
  by (simp add: sql_get_def)

lemma sql_get_SomeD: "sql_get p rows = Some r \<Longrightarrow> r \<in> set rows \<and> p r"
  by (auto simp: sql_get_def find_Some_iff)

lemma sql_get_None_iff [sql_simps]: "sql_get p rows = None \<longleftrightarrow> (\<forall>r\<in>set rows. \<not> p r)"
  by (auto simp: sql_get_def find_None_iff)

lemma sql_get_append [sql_simps]:
  "sql_get p (xs @ ys) = (case sql_get p xs of Some r \<Rightarrow> Some r | None \<Rightarrow> sql_get p ys)"
  by (induction xs) auto

text \<open>Lookup by a key, with the key left alone by the update.\<close>

lemma sql_get_update_key [sql_simps]:
  assumes "\<And>r. key (f r) = key r"
  shows "sql_get (\<lambda>r. key r = k) (sql_update (\<lambda>r. key r = k') f rows) =
    (if k = k' then map_option f (sql_get (\<lambda>r. key r = k) rows)
     else sql_get (\<lambda>r. key r = k) rows)"
  using assms by (induction rows) auto

lemma distinct_map_eq:
  "distinct (map f xs) \<Longrightarrow> x \<in> set xs \<Longrightarrow> y \<in> set xs \<Longrightarrow> f x = f y \<Longrightarrow> x = y"
  by (auto simp: distinct_map inj_on_def)

lemma sql_get_key_unique:
  assumes "distinct (map key rows)" "r \<in> set rows" "key r = k"
  shows "sql_get (\<lambda>r. key r = k) rows = Some r"
  using assms by (induction rows) (auto simp: image_iff)

lemma sql_count_Nil [simp]: "sql_count p [] = 0"
  by (simp add: sql_count_def)

lemma sql_count_Cons [simp]: "sql_count p (r # rs) = (if p r then Suc (sql_count p rs) else sql_count p rs)"
  by (simp add: sql_count_def)

lemma sql_count_append [simp]: "sql_count p (xs @ ys) = sql_count p xs + sql_count p ys"
  by (simp add: sql_count_def)

lemma sql_count_le: "sql_count p rows \<le> length rows"
  by (simp add: sql_count_def)

end
