(* ===== verification/Errors.thy ===== *)
theory Errors
  imports Prelude
begin

text \<open>
  The constants of \<open>src/constants.ts\<close> and the error classes of the program.  A \<open>catch\<close> clause
  sees a value of type \<open>exn\<close>: one constructor per class that some clause tells apart with
  \<open>instanceof\<close>, and \<open>PlainError\<close> for every other \<open>Error\<close>.
\<close>

section \<open>Constants\<close>

definition LOCAL_CHANNEL_PROTOCOL_VERSION :: string where
  "LOCAL_CHANNEL_PROTOCOL_VERSION = ''0.1''"

definition MAX_FRAME_BYTES :: nat where
  "MAX_FRAME_BYTES = 10 * 1024 * 1024"

definition MAX_ATTACHMENT_BYTES :: nat where
  "MAX_ATTACHMENT_BYTES = 100 * 1024 * 1024"

definition MAX_ATTACHMENTS_PER_EVENT :: nat where
  "MAX_ATTACHMENTS_PER_EVENT = 32"

definition MAX_ATTACHMENT_TOTAL_BYTES :: nat where
  "MAX_ATTACHMENT_TOTAL_BYTES = 256 * 1024 * 1024"

definition DEFAULT_SUPPORTED_CAPABILITIES :: "string list" where
  "DEFAULT_SUPPORTED_CAPABILITIES = [''message.receive'', ''message.send'']"

datatype channel_error_kind =
    NOT_REGISTERED
  | PROTOCOL_UNSUPPORTED
  | CAPABILITY_UNSUPPORTED
  | ATTACHMENT_INVALID
  | DURABILITY_FAILED
  | BACKPRESSURE
  | PROVIDER_FAILED

fun CHANNEL_ERROR_CODES :: "channel_error_kind \<Rightarrow> int" where
  "CHANNEL_ERROR_CODES NOT_REGISTERED = -32050"
| "CHANNEL_ERROR_CODES PROTOCOL_UNSUPPORTED = -32051"
| "CHANNEL_ERROR_CODES CAPABILITY_UNSUPPORTED = -32052"
| "CHANNEL_ERROR_CODES ATTACHMENT_INVALID = -32053"
| "CHANNEL_ERROR_CODES DURABILITY_FAILED = -32054"
| "CHANNEL_ERROR_CODES BACKPRESSURE = -32055"
| "CHANNEL_ERROR_CODES PROVIDER_FAILED = -32056"

section \<open>Error classes\<close>

record channel_rpc_error =
  ce_rpc_code :: int
  ce_data_code :: string
  ce_message :: string
  ce_retryable :: bool
  ce_retry_after_ms :: "rat option"
  ce_close_connection :: bool

text \<open>The constructor's defaults: not retryable, no delay, the connection stays open.\<close>

definition channel_rpc_error_of :: "int \<Rightarrow> string \<Rightarrow> string \<Rightarrow> channel_rpc_error" where
  "channel_rpc_error_of code data msg =
     \<lparr>ce_rpc_code = code, ce_data_code = data, ce_message = msg, ce_retryable = False,
      ce_retry_after_ms = None, ce_close_connection = False\<rparr>"

datatype frame_error =
    FrameTooLargeError nat nat
  | InvalidFrameError string

record driver_rpc_error =
  de_code :: rat
  de_message :: string
  de_data :: "json option"

record hub_rpc_error =
  he_code :: int
  he_message :: string
  he_data :: "json option"

record audit_http_error =
  ah_status :: int
  ah_permanent :: bool
  ah_retry_after_ms :: "rat option"

datatype identity_conflict = IDENTITY_EXISTS | IDENTITY_DELETED

datatype exn =
    ChannelRpcError channel_rpc_error
  | FrameError frame_error
  | AttachmentValidationError string
  | OutboxCapacityError string
  | DriverRpcError driver_rpc_error
  | HubRpcError hub_rpc_error
  | AuditHttpError audit_http_error
  | AgentIdentityConflictError string identity_conflict string
  | ConfigValidationError string
  | RuntimeAdapterError string string
  | PlainError string

text \<open>\<open>error.message\<close>.\<close>

fun exn_message :: "exn \<Rightarrow> string" where
  "exn_message (ChannelRpcError e) = ce_message e"
| "exn_message (FrameError (FrameTooLargeError n m)) =
     ''NDJSON frame is '' @ nat_digits n @ '' bytes; maximum is '' @ nat_digits m"
| "exn_message (FrameError (InvalidFrameError m)) = m"
| "exn_message (AttachmentValidationError m) = m"
| "exn_message (OutboxCapacityError m) = m"
| "exn_message (DriverRpcError e) = de_message e"
| "exn_message (HubRpcError e) = he_message e"
| "exn_message (AuditHttpError e) = ''Blob upload failed with HTTP '' @ js_int (ah_status e)"
| "exn_message (AgentIdentityConflictError i c m) = m"
| "exn_message (ConfigValidationError m) = m"
| "exn_message (RuntimeAdapterError c m) = m"
| "exn_message (PlainError m) = m"

definition throw_rpc :: "int \<Rightarrow> string \<Rightarrow> string \<Rightarrow> exn" where
  "throw_rpc code data msg = ChannelRpcError (channel_rpc_error_of code data msg)"

definition throw_rpc_close :: "int \<Rightarrow> string \<Rightarrow> string \<Rightarrow> exn" where
  "throw_rpc_close code data msg =
     ChannelRpcError ((channel_rpc_error_of code data msg)\<lparr>ce_close_connection := True\<rparr>)"

definition throw_driver :: "channel_error_kind \<Rightarrow> string \<Rightarrow> exn" where
  "throw_driver k msg =
     DriverRpcError \<lparr>de_code = of_int (CHANNEL_ERROR_CODES k), de_message = msg, de_data = None\<rparr>"

section \<open>Faults of the file system\<close>

text \<open>At which call a file that is published through a temporary one stops; a failed write leaves a
  prefix.\<close>

datatype save_fault = Fault_mkdir | Fault_open | Fault_write nat | Fault_rename | Fault_finish

lemma CHANNEL_ERROR_CODES_range: "-32099 \<le> CHANNEL_ERROR_CODES k \<and> CHANNEL_ERROR_CODES k \<le> -32050"
  by (cases k) simp_all

lemma CHANNEL_ERROR_CODES_inj: "inj CHANNEL_ERROR_CODES"
proof (rule injI)
  fix j k
  assume "CHANNEL_ERROR_CODES j = CHANNEL_ERROR_CODES k"
  then show "j = k" by (cases j; cases k) simp_all
qed

end
