(* ===== verification/Framing.thy ===== *)
theory Framing
  imports Prelude
begin

text \<open>
  Reading frames off a growing byte buffer: what the NDJSON decoder
  (\<open>src/channel-rpc/ndjson.ts\<close>) and the WebSocket reader (\<open>src/runtime/ws-unix-client.ts\<close>)
  share.  Each has one loop body that looks at the buffer (\<open>nxt\<close>) and a \<open>while (true)\<close> around
  it (\<open>pump\<close>).  The locale names what the loop needs of its body for the chunking of the input
  to be invisible, and proves that it is.
\<close>

datatype ('b, 'f, 'e) frame_step =
    NeedMore
  | Got 'f "'b list"
  | Bad 'e "'b list"

datatype 'e pump_end = Waiting | Stopped | Failed 'e

text \<open>The loop: take frames until the buffer holds no whole one, a frame asks to stop, or a frame
  is bad.  The result is the frames taken, the buffer left and how the loop ended.  A body that
  does not shorten the buffer would spin in the code; the guard keeps the function total and is
  never false for a body that satisfies the locale.\<close>

function pump ::
  "('b list \<Rightarrow> ('b, 'f, 'e) frame_step) \<Rightarrow> ('f \<Rightarrow> bool) \<Rightarrow> 'b list \<Rightarrow> 'f list \<times> 'b list \<times> 'e pump_end"
where
  "pump nxt stop b =
     (case nxt b of
        NeedMore \<Rightarrow> ([], b, Waiting)
      | Bad e r \<Rightarrow> ([], r, Failed e)
      | Got f r \<Rightarrow>
          if stop f then ([f], r, Stopped)
          else if length r < length b
          then (let (fs, r', en) = pump nxt stop r in (f # fs, r', en))
          else ([f], r, Waiting))"
  by pat_completeness auto
termination
  by (relation "measure (\<lambda>(nxt, stop, b). length b)") auto

declare pump.simps [simp del]

lemma pump_NeedMore: "nxt b = NeedMore \<Longrightarrow> pump nxt stop b = ([], b, Waiting)"
  by (subst pump.simps) simp

lemma pump_Bad: "nxt b = Bad e r \<Longrightarrow> pump nxt stop b = ([], r, Failed e)"
  by (subst pump.simps) simp

lemma pump_Stop: "nxt b = Got f r \<Longrightarrow> stop f \<Longrightarrow> pump nxt stop b = ([f], r, Stopped)"
  by (subst pump.simps) simp

lemma pump_Got:
  "nxt b = Got f r \<Longrightarrow> \<not> stop f \<Longrightarrow> length r < length b \<Longrightarrow>
   pump nxt stop b = (f # fst (pump nxt stop r), snd (pump nxt stop r))"
  by (subst pump.simps) (simp add: split_beta)

lemmas pump_steps = pump_NeedMore pump_Bad pump_Stop pump_Got

text \<open>One read per chunk: the buffer left by a chunk is where the next one is appended.  A chunk
  after a bad or a final frame is not looked at.\<close>

fun pump_chunks ::
  "('b list \<Rightarrow> ('b, 'f, 'e) frame_step) \<Rightarrow> ('f \<Rightarrow> bool) \<Rightarrow> 'b list \<Rightarrow> 'b list list \<Rightarrow>
   'f list \<times> 'b list \<times> 'e pump_end"
where
  "pump_chunks nxt stop b [] = ([], b, Waiting)"
| "pump_chunks nxt stop b (c # cs) =
     (case pump nxt stop (b @ c) of
        (fs, r, Waiting) \<Rightarrow>
          (let (fs', r', en) = pump_chunks nxt stop r cs in (fs @ fs', r', en))
      | (fs, r, en) \<Rightarrow> (fs, r, en))"

locale frame_decoder =
  fixes nxt :: "'b list \<Rightarrow> ('b, 'f, 'e) frame_step"
  assumes got_mono: "nxt b = Got f r \<Longrightarrow> nxt (b @ c) = Got f (r @ c)"
    and got_shorter: "nxt b = Got f r \<Longrightarrow> length r < length b"
    and bad_mono: "nxt b = Bad e r \<Longrightarrow> \<exists>e' r'. nxt (b @ c) = Bad e' r'"
    and nil_waits: "nxt [] = NeedMore"
begin

lemma pump_append_waiting:
  "pump nxt stop b = (fs, r, Waiting) \<Longrightarrow>
   pump nxt stop (b @ c) = (fs @ fst (pump nxt stop (r @ c)), snd (pump nxt stop (r @ c)))"
proof (induction "length b" arbitrary: b fs rule: less_induct)
  case less
  show ?case
  proof (cases "nxt b")
    case NeedMore
    with less.prems show ?thesis by (simp add: pump_NeedMore)
  next
    case (Bad e r')
    with less.prems show ?thesis by (simp add: pump_Bad)
  next
    case (Got f r')
    note shorter = got_shorter [OF Got]
    show ?thesis
    proof (cases "stop f")
      case True
      with Got less.prems show ?thesis by (simp add: pump_Stop)
    next
      case False
      with Got shorter less.prems obtain fs' where fs': "fs = f # fs'"
        and rest: "pump nxt stop r' = (fs', r, Waiting)"
        by (cases "pump nxt stop r'") (auto simp: pump_Got)
      have "pump nxt stop (r' @ c) = (fs' @ fst (pump nxt stop (r @ c)), snd (pump nxt stop (r @ c)))"
        using less.hyps [OF shorter rest] .
      with False shorter fs' got_mono [OF Got, of c] show ?thesis
        by (simp add: pump_Got)
    qed
  qed
qed

lemma pump_append_stopped:
  "pump nxt stop b = (fs, r, Stopped) \<Longrightarrow> pump nxt stop (b @ c) = (fs, r @ c, Stopped)"
proof (induction "length b" arbitrary: b fs rule: less_induct)
  case less
  show ?case
  proof (cases "nxt b")
    case NeedMore
    with less.prems show ?thesis by (simp add: pump_NeedMore)
  next
    case (Bad e r')
    with less.prems show ?thesis by (simp add: pump_Bad)
  next
    case (Got f r')
    note shorter = got_shorter [OF Got]
    show ?thesis
    proof (cases "stop f")
      case True
      with Got less.prems got_mono [OF Got, of c] show ?thesis by (simp add: pump_Stop)
    next
      case False
      with Got shorter less.prems obtain fs' where fs': "fs = f # fs'"
        and rest: "pump nxt stop r' = (fs', r, Stopped)"
        by (cases "pump nxt stop r'") (auto simp: pump_Got)
      with less.hyps [OF shorter rest] False shorter got_mono [OF Got, of c] show ?thesis
        by (simp add: pump_Got)
    qed
  qed
qed

lemma pump_failed_mono:
  "pump nxt stop b = (fs, r, Failed e) \<Longrightarrow>
   \<exists>r' e'. pump nxt stop (b @ c) = (fs, r', Failed e')"
proof (induction "length b" arbitrary: b fs rule: less_induct)
  case less
  show ?case
  proof (cases "nxt b")
    case NeedMore
    with less.prems show ?thesis by (simp add: pump_NeedMore)
  next
    case (Bad e' r')
    from bad_mono [OF this, of c] Bad less.prems show ?thesis by (auto simp: pump_Bad)
  next
    case (Got f r')
    note shorter = got_shorter [OF Got]
    show ?thesis
    proof (cases "stop f")
      case True
      with Got less.prems show ?thesis by (simp add: pump_Stop)
    next
      case False
      with Got shorter less.prems obtain fs' where fs': "fs = f # fs'"
        and rest: "pump nxt stop r' = (fs', r, Failed e)"
        by (cases "pump nxt stop r'") (auto simp: pump_Got)
      with less.hyps [OF shorter rest] False shorter got_mono [OF Got, of c] show ?thesis
        by (auto simp: pump_Got)
    qed
  qed
qed

lemma pump_residue_waits:
  "pump nxt stop b = (fs, r, Waiting) \<Longrightarrow> nxt r = NeedMore"
proof (induction "length b" arbitrary: b fs rule: less_induct)
  case less
  show ?case
  proof (cases "nxt b")
    case (Got f r')
    note shorter = got_shorter [OF Got]
    with Got less.prems show ?thesis
      by (cases "stop f"; cases "pump nxt stop r'")
        (auto simp: pump_Got pump_Stop intro: less.hyps [OF shorter])
  qed (use less.prems in \<open>auto simp: pump_NeedMore pump_Bad\<close>)
qed

text \<open>However the input is cut, the frames are those of the whole input, and the loop ends the
  same way: waiting with the same buffer, stopped, or failed.\<close>

theorem chunking_invisible:
  assumes "nxt b = NeedMore"
  shows "fst (pump_chunks nxt stop b cs) = fst (pump nxt stop (b @ concat cs))"
    and "pump_chunks nxt stop b cs = (fs, r, Waiting) \<longleftrightarrow>
         pump nxt stop (b @ concat cs) = (fs, r, Waiting)"
proof -
  have "fst (pump_chunks nxt stop b cs) = fst (pump nxt stop (b @ concat cs)) \<and>
    (\<forall>fs r. pump_chunks nxt stop b cs = (fs, r, Waiting) \<longleftrightarrow>
       pump nxt stop (b @ concat cs) = (fs, r, Waiting))"
    using assms
  proof (induction cs arbitrary: b)
    case Nil
    then show ?case by (auto simp: pump_NeedMore)
  next
    case (Cons c cs)
    obtain fs1 r1 en1 where p: "pump nxt stop (b @ c) = (fs1, r1, en1)"
      by (cases "pump nxt stop (b @ c)") auto
    show ?case
    proof (cases en1)
      case Waiting
      with p have w: "pump nxt stop (b @ c) = (fs1, r1, Waiting)" by simp
      obtain fs2 r2 en2 where q: "pump_chunks nxt stop r1 cs = (fs2, r2, en2)"
        by (cases "pump_chunks nxt stop r1 cs") auto
      obtain fs3 r3 en3 where q': "pump nxt stop (r1 @ concat cs) = (fs3, r3, en3)"
        by (cases "pump nxt stop (r1 @ concat cs)") auto
      note ih = Cons.IH [OF pump_residue_waits [OF w]]
      have same: "fs2 = fs3" using ih by (simp add: q q')
      have ends: "r2 = r \<and> en2 = Waiting \<longleftrightarrow> r3 = r \<and> en3 = Waiting" for r
        using conjunct2 [OF ih, THEN spec, THEN spec, of fs3 r] same by (simp add: q q')
      have "pump nxt stop (b @ c @ concat cs) = (fs1 @ fs3, r3, en3)"
        using pump_append_waiting [OF w, of "concat cs"] by (simp add: q')
      moreover have "pump_chunks nxt stop b (c # cs) = (fs1 @ fs2, r2, en2)"
        by (simp add: w q)
      ultimately show ?thesis using same ends by simp
    next
      case Stopped
      with p pump_append_stopped [of stop "b @ c" fs1 r1 "concat cs"] show ?thesis by simp
    next
      case (Failed e)
      with p pump_failed_mono [of stop "b @ c" fs1 r1 e "concat cs"] show ?thesis by auto
    qed
  qed
  then show "fst (pump_chunks nxt stop b cs) = fst (pump nxt stop (b @ concat cs))"
    and "pump_chunks nxt stop b cs = (fs, r, Waiting) \<longleftrightarrow>
         pump nxt stop (b @ concat cs) = (fs, r, Waiting)"
    by auto
qed

end

end
