(* ===== verification/Ndjson.thy ===== *)
theory Ndjson
  imports Errors Framing
begin

text \<open>
  \<open>src/channel-rpc/ndjson.ts\<close>: newline-delimited JSON over a byte stream.  The bytes of the
  buffer are the characters of a string.  \<open>TextDecoder\<close>, \<open>JSON.parse\<close> and \<open>JSON.stringify\<close> are
  the fields of a \<open>json_codec\<close>, an argument of the definitions; what the round trip relies on of
  them is \<open>codec_law\<close>.
\<close>

record json_codec =
  jc_text :: "string \<Rightarrow> string option"
  jc_parse :: "string \<Rightarrow> json option"
  jc_print :: "json \<Rightarrow> string"

definition LF :: char where
  "LF = CHR 0x0A"

text \<open>A printed value is valid UTF-8, parses back, is not empty and holds no raw newline: a
  newline inside a JSON string is printed as an escape.\<close>

definition codec_law :: "json_codec \<Rightarrow> json \<Rightarrow> bool" where
  "codec_law c v =
     (jc_text c (jc_print c v) = Some (jc_print c v) \<and>
      jc_parse c (jc_print c v) = Some v \<and>
      jc_print c v \<noteq> [] \<and> LF \<notin> set (jc_print c v))"

section \<open>Definitions\<close>

text \<open>One turn of the loop of \<open>NdjsonDecoder.push\<close>.\<close>

definition ndjson_next :: "json_codec \<Rightarrow> nat \<Rightarrow> string \<Rightarrow> (char, json, frame_error) frame_step" where
  "ndjson_next c mx b =
     (let frame = takeWhile (\<lambda>x. x \<noteq> LF) b in
      if length frame = length b
      then (if length b > mx then Bad (FrameTooLargeError (length b) mx) b else NeedMore)
      else
        (let rest = drop (Suc (length frame)) b in
         if length frame > mx then Bad (FrameTooLargeError (length frame) mx) rest
         else if frame = [] then Bad (InvalidFrameError ''Empty NDJSON frame'') rest
         else case jc_text c frame of
           None \<Rightarrow> Bad (InvalidFrameError ''NDJSON frame is not valid UTF-8'') rest
         | Some t \<Rightarrow>
             (case jc_parse c t of
                None \<Rightarrow> Bad (InvalidFrameError ''NDJSON frame is not valid JSON'') rest
              | Some v \<Rightarrow> Got v rest)))"

text \<open>\<open>NdjsonDecoder.push\<close>: the values of the chunk or the exception, and the buffer left.  An
  exception drops the values that the same call had already decoded.\<close>

definition ndjson_push ::
  "json_codec \<Rightarrow> nat \<Rightarrow> string \<Rightarrow> string \<Rightarrow> (frame_error + json list) \<times> string"
where
  "ndjson_push c mx buf chunk =
     (if chunk = [] then (Inr [], buf)
      else case pump (ndjson_next c mx) (\<lambda>_. False) (buf @ chunk) of
        (vs, r, Failed e) \<Rightarrow> (Inl e, r)
      | (vs, r, _) \<Rightarrow> (Inr vs, r))"

text \<open>The \<open>data\<close> events of a connection, one push each, up to the first exception.\<close>

fun ndjson_pushes ::
  "json_codec \<Rightarrow> nat \<Rightarrow> string \<Rightarrow> string list \<Rightarrow> (frame_error + json list) \<times> string"
where
  "ndjson_pushes c mx buf [] = (Inr [], buf)"
| "ndjson_pushes c mx buf (ch # chs) =
     (case ndjson_push c mx buf ch of
        (Inl e, r) \<Rightarrow> (Inl e, r)
      | (Inr vs, r) \<Rightarrow>
          (case ndjson_pushes c mx r chs of
             (Inl e, r') \<Rightarrow> (Inl e, r')
           | (Inr ws, r') \<Rightarrow> (Inr (vs @ ws), r')))"

definition encodeFrame :: "json_codec \<Rightarrow> nat \<Rightarrow> json \<Rightarrow> frame_error + string" where
  "encodeFrame c mx v =
     (let document = jc_print c v in
      if length document > mx then Inl (FrameTooLargeError (length document) mx)
      else Inr (document @ [LF]))"

section \<open>The decoder satisfies the framing interface\<close>

lemma takeWhile_LF_append:
  "length (takeWhile (\<lambda>x. x \<noteq> LF) b) \<noteq> length b \<Longrightarrow>
   takeWhile (\<lambda>x. x \<noteq> LF) (b @ d) = takeWhile (\<lambda>x. x \<noteq> LF) b"
  by (metis takeWhile_eq_all_conv takeWhile_append1)

lemma takeWhile_LF_shorter:
  "length (takeWhile (\<lambda>x. x \<noteq> LF) b) \<noteq> length b \<Longrightarrow> length (takeWhile (\<lambda>x. x \<noteq> LF) b) < length b"
  by (metis length_takeWhile_le le_neq_implies_less)

lemma ndjson_next_append:
  assumes "length (takeWhile (\<lambda>x. x \<noteq> LF) b) \<noteq> length b"
  shows "ndjson_next c mx (b @ d) =
    (case ndjson_next c mx b of NeedMore \<Rightarrow> NeedMore | Got v r \<Rightarrow> Got v (r @ d) | Bad e r \<Rightarrow> Bad e (r @ d))"
proof -
  note less = takeWhile_LF_shorter [OF assms]
  with assms show ?thesis
    by (simp add: ndjson_next_def takeWhile_LF_append Let_def split: option.split)
qed

lemma ndjson_next_no_LF:
  "length (takeWhile (\<lambda>x. x \<noteq> LF) b) = length b \<Longrightarrow>
   ndjson_next c mx b = (if length b > mx then Bad (FrameTooLargeError (length b) mx) b else NeedMore)"
  by (simp add: ndjson_next_def)

lemma ndjson_next_Got_LF:
  "ndjson_next c mx b = Got v r \<Longrightarrow> length (takeWhile (\<lambda>x. x \<noteq> LF) b) \<noteq> length b"
  by (auto simp: ndjson_next_def split: if_splits)

lemma ndjson_next_too_large:
  assumes "length (takeWhile (\<lambda>x. x \<noteq> LF) b) = length b" "length b > mx"
  shows "\<exists>e r. ndjson_next c mx (b @ d) = Bad e r"
proof -
  from assms(1) have "takeWhile (\<lambda>x. x \<noteq> LF) (b @ d) = b @ takeWhile (\<lambda>x. x \<noteq> LF) d"
    by (metis takeWhile_append2 takeWhile_eq_all_conv takeWhile_eq_take take_all_iff nle_le)
  with assms(2) show ?thesis by (auto simp: ndjson_next_def Let_def)
qed

interpretation nd: frame_decoder "ndjson_next c mx" for c mx
proof unfold_locales
  fix b d and v :: json and r
  assume g: "ndjson_next c mx b = Got v r"
  from ndjson_next_append [OF ndjson_next_Got_LF [OF g], of c mx d] g
  show "ndjson_next c mx (b @ d) = Got v (r @ d)" by simp
next
  fix b and v :: json and r
  assume g: "ndjson_next c mx b = Got v r"
  from takeWhile_LF_shorter [OF ndjson_next_Got_LF [OF g]] g show "length r < length b"
    by (auto simp: ndjson_next_def Let_def split: if_splits option.splits)
next
  fix b d :: string and e r
  assume g: "ndjson_next c mx b = Bad e r"
  show "\<exists>e' r'. ndjson_next c mx (b @ d) = Bad e' r'"
  proof (cases "length (takeWhile (\<lambda>x. x \<noteq> LF) b) = length b")
    case True
    with g have "length b > mx" by (auto simp: ndjson_next_no_LF split: if_splits)
    with True show ?thesis by (rule ndjson_next_too_large)
  next
    case False
    with g show ?thesis by (simp add: ndjson_next_append)
  qed
next
  show "ndjson_next c mx [] = NeedMore" by (simp add: ndjson_next_def)
qed

section \<open>Lemmas\<close>

lemma pump_never_stops: "pump nxt (\<lambda>_. False) b \<noteq> (fs, r, Stopped)"
proof (induction "length b" arbitrary: b fs rule: less_induct)
  case less
  show ?case
    by (subst pump.simps) (auto split: frame_step.splits prod.splits dest: less.hyps)
qed

lemma ndjson_push_Inr:
  assumes "ndjson_next c mx buf = NeedMore"
  shows "ndjson_push c mx buf ch = (Inr vs, r) \<longleftrightarrow>
    pump (ndjson_next c mx) (\<lambda>_. False) (buf @ ch) = (vs, r, Waiting)"
proof (cases "ch = []")
  case True
  with assms show ?thesis by (auto simp: ndjson_push_def pump_NeedMore)
next
  case False
  then show ?thesis
    using pump_never_stops [of "ndjson_next c mx" "buf @ ch"]
    by (auto simp: ndjson_push_def split: prod.splits pump_end.splits)
qed

lemma ndjson_pushes_Inr:
  assumes "ndjson_next c mx buf = NeedMore"
  shows "ndjson_pushes c mx buf chs = (Inr vs, r) \<longleftrightarrow>
    pump_chunks (ndjson_next c mx) (\<lambda>_. False) buf chs = (vs, r, Waiting)"
  using assms
proof (induction chs arbitrary: buf vs)
  case Nil
  then show ?case by auto
next
  case (Cons ch chs)
  obtain vs1 r1 en1 where p: "pump (ndjson_next c mx) (\<lambda>_. False) (buf @ ch) = (vs1, r1, en1)"
    by (cases "pump (ndjson_next c mx) (\<lambda>_. False) (buf @ ch)") auto
  note push = ndjson_push_Inr [OF Cons.prems, of ch]
  show ?case
  proof (cases en1)
    case Waiting
    with push p have one: "ndjson_push c mx buf ch = (Inr vs1, r1)" by simp
    have "ndjson_next c mx r1 = NeedMore"
      using nd.pump_residue_waits p Waiting by blast
    note ih = Cons.IH [OF this]
    have "ndjson_pushes c mx buf (ch # chs) = (Inr vs, r) \<longleftrightarrow>
        (\<exists>ws. vs = vs1 @ ws \<and> ndjson_pushes c mx r1 chs = (Inr ws, r))"
      using one by (auto split: prod.splits sum.splits)
    moreover have "pump_chunks (ndjson_next c mx) (\<lambda>_. False) buf (ch # chs) = (vs, r, Waiting) \<longleftrightarrow>
        (\<exists>ws. vs = vs1 @ ws \<and> pump_chunks (ndjson_next c mx) (\<lambda>_. False) r1 chs = (ws, r, Waiting))"
      using p Waiting by (auto split: prod.splits)
    ultimately show ?thesis by (simp add: ih)
  next
    case Stopped
    with p show ?thesis using pump_never_stops by blast
  next
    case (Failed e)
    then have "\<nexists>vs' r'. ndjson_push c mx buf ch = (Inr vs', r')" using push p by simp
    then show ?thesis using p Failed
      by (auto split: prod.splits sum.splits)
  qed
qed

lemma ndjson_next_empty [simp]: "ndjson_next c mx [] = NeedMore"
  by (rule nd.nil_waits)

lemma ndjson_next_printed:
  assumes "codec_law c v" "length (jc_print c v) \<le> mx"
  shows "ndjson_next c mx (jc_print c v @ LF # rest) = Got v rest"
proof -
  from assms(1) have "takeWhile (\<lambda>x. x \<noteq> LF) (jc_print c v @ LF # rest) = jc_print c v"
    by (auto simp: codec_law_def takeWhile_tail)
  with assms show ?thesis by (auto simp: ndjson_next_def codec_law_def)
qed

lemma pump_printed:
  assumes "\<forall>v\<in>set vs. codec_law c v \<and> length (jc_print c v) \<le> mx"
  shows "pump (ndjson_next c mx) (\<lambda>_. False) (concat (map (\<lambda>v. jc_print c v @ [LF]) vs)) = (vs, [], Waiting)"
  using assms
proof (induction vs)
  case Nil
  then show ?case by (simp add: pump_NeedMore)
next
  case (Cons v vs)
  then have "ndjson_next c mx (jc_print c v @ LF # concat (map (\<lambda>v. jc_print c v @ [LF]) vs)) =
      Got v (concat (map (\<lambda>v. jc_print c v @ [LF]) vs))"
    by (intro ndjson_next_printed) auto
  with Cons show ?case by (simp add: pump_Got)
qed

lemma smap_encodeFrame:
  "smap (encodeFrame c mx) vs = Inr frames \<longleftrightarrow>
   (\<forall>v\<in>set vs. length (jc_print c v) \<le> mx) \<and> frames = map (\<lambda>v. jc_print c v @ [LF]) vs"
  by (induction vs arbitrary: frames) (auto simp: result_simps encodeFrame_def Let_def split: if_splits)

section \<open>Properties\<close>


text \<open>What \<open>encodeFrame\<close> writes for a list of messages, cut into chunks in any way, is read
  back by the decoder as the same messages, with nothing left in the buffer.\<close>

theorem ndjson_roundtrip:
  assumes "\<forall>v\<in>set vs. codec_law c v"
    and "smap (encodeFrame c mx) vs = Inr frames"
    and "concat chs = concat frames"
  shows "ndjson_pushes c mx [] chs = (Inr vs, [])"
proof -
  from assms have "pump (ndjson_next c mx) (\<lambda>_. False) (concat chs) = (vs, [], Waiting)"
    by (simp add: smap_encodeFrame pump_printed)
  then have "ndjson_push c mx [] (concat chs) = (Inr vs, [])"
    by (simp add: ndjson_push_Inr)
  then show ?thesis
    using nd.chunking_invisible(2) [of c mx "[]" "\<lambda>_. False" chs vs "[]"]
    by (simp add: ndjson_pushes_Inr ndjson_push_Inr)
qed

theorem ndjson_roundtrip_witness:
  "ndjson_pushes \<lparr>jc_text = Some, jc_parse = (\<lambda>t. if t = ''null'' then Some JNull else None),
       jc_print = (\<lambda>v. ''null'')\<rparr> 16 [] [''nu'', ''ll'' @ [LF, CHR ''n''], ''ull'' @ [LF]] = (Inr [JNull, JNull], [])"
  by (rule ndjson_roundtrip [where frames = "[''null'' @ [LF], ''null'' @ [LF]]"])
    (simp_all add: codec_law_def LF_def encodeFrame_def)

text \<open>After a stream was decoded without exception, the buffer holds at most the frame limit
  and no complete frame, so a peer cannot make the decoder hold more than one frame.\<close>

theorem ndjson_buffer_bounded:
  assumes "ndjson_pushes c mx [] chs = (Inr vs, r)"
  shows "length r \<le> mx \<and> LF \<notin> set r"
proof -
  have "ndjson_push c mx [] (concat chs) = (Inr vs, r)"
    using assms nd.chunking_invisible(2) [of c mx "[]" "\<lambda>_. False" chs vs r]
    by (simp add: ndjson_pushes_Inr ndjson_push_Inr)
  then have need: "ndjson_next c mx r = NeedMore"
    using nd.pump_residue_waits by (simp add: ndjson_push_Inr)
  then have no: "length (takeWhile (\<lambda>x. x \<noteq> LF) r) = length r"
    by (auto simp: ndjson_next_def Let_def split: if_splits option.splits)
  with need have "length r \<le> mx"
    by (auto simp: ndjson_next_no_LF split: if_splits)
  moreover from no have "takeWhile (\<lambda>x. x \<noteq> LF) r = r"
    by (metis takeWhile_eq_take take_all_iff order_refl)
  then have "LF \<notin> set r" by (metis (mono_tags) takeWhile_eq_all_conv)
  ultimately show ?thesis ..
qed

theorem ndjson_buffer_bounded_witness:
  "length ''nu'' \<le> 16 \<and> LF \<notin> set ''nu''"
  by (rule ndjson_buffer_bounded [where chs = "[''n'', ''u'']" and vs = "[]" and
        c = "\<lparr>jc_text = Some, jc_parse = (\<lambda>t. None), jc_print = (\<lambda>v. ''null'')\<rparr>"])
    (simp add: ndjson_push_def pump_NeedMore ndjson_next_def LF_def)

text \<open>An exception loses the good frames that came in the same chunk.  A valid frame followed
  by an empty line in one chunk yields only the exception; in two chunks the frame is delivered
  first.\<close>

theorem ndjson_exception_drops_frames:
  assumes "codec_law c v" "length (jc_print c v) \<le> mx"
  shows "fst (ndjson_push c mx [] (jc_print c v @ [LF, LF])) = Inl (InvalidFrameError ''Empty NDJSON frame'') \<and>
    ndjson_push c mx [] (jc_print c v @ [LF]) = (Inr [v], [])"
proof
  have "ndjson_next c mx [LF] = Bad (InvalidFrameError ''Empty NDJSON frame'') []"
    by (simp add: ndjson_next_def)
  then have "pump (ndjson_next c mx) (\<lambda>_. False) [LF] =
      ([], [], Failed (InvalidFrameError ''Empty NDJSON frame''))"
    by (rule pump_Bad)
  then have "pump (ndjson_next c mx) (\<lambda>_. False) (jc_print c v @ [LF, LF]) =
      ([v], [], Failed (InvalidFrameError ''Empty NDJSON frame''))"
    using ndjson_next_printed [OF assms, of "[LF]"] by (simp add: pump_Got)
  then show "fst (ndjson_push c mx [] (jc_print c v @ [LF, LF])) =
      Inl (InvalidFrameError ''Empty NDJSON frame'')"
    by (simp add: ndjson_push_def)
  show "ndjson_push c mx [] (jc_print c v @ [LF]) = (Inr [v], [])"
    using ndjson_next_printed [OF assms, of "[]"]
    by (simp add: ndjson_push_Inr pump_Got pump_NeedMore)
qed

definition null_codec :: json_codec where
  "null_codec = \<lparr>jc_text = Some, jc_parse = (\<lambda>t. if t = ''null'' then Some JNull else None),
     jc_print = (\<lambda>v. ''null'')\<rparr>"

theorem ndjson_exception_drops_frames_witness:
  "fst (ndjson_push null_codec 16 [] (''null'' @ [LF, LF])) =
     Inl (InvalidFrameError ''Empty NDJSON frame'')"
  using ndjson_exception_drops_frames [of null_codec JNull 16]
  by (simp add: codec_law_def null_codec_def LF_def)

end
