(* ===== verification/Ws_Frame.thy ===== *)
theory Ws_Frame
  imports Framing Bytes
begin

unbundle bit_operations_syntax

text \<open>
  \<open>src/runtime/ws-unix-client.ts\<close>: the hand-written WebSocket client that carries the Codex
  app-server's JSON-RPC.  \<open>ws_encodeFrame\<close> and \<open>ws_decodeFrame\<close> work on bytes as the code does;
  the four random mask bytes are an argument.  \<open>ws_handle\<close> is one turn of \<open>pump\<close> after a frame was
  decoded, \<open>ws_data\<close> the \<open>data\<close> event and \<open>ws_finish\<close> the idempotent close.
\<close>

record ws_frame =
  wf_opcode :: u8
  wf_payload :: "u8 list"
  wf_fin :: bool

section \<open>Definitions\<close>

definition ws_max_length :: nat where
  "ws_max_length = 9007199254740991"

text \<open>The masking loop: byte i is combined with mask byte i mod 4.\<close>

definition ws_mask :: "u8 list \<Rightarrow> u8 list \<Rightarrow> u8 list" where
  "ws_mask key payload = map (\<lambda>i. (payload ! i) XOR (key ! (i mod 4))) [0..<length payload]"

definition ws_header :: "u8 \<Rightarrow> nat \<Rightarrow> u8 list" where
  "ws_header opcode len =
     (if len < 126 then [0x80 OR opcode, 0x80 OR word_of_nat len]
      else if len < 65536 then [0x80 OR opcode, 0x80 OR 126] @ be_bytes 2 len
      else [0x80 OR opcode, 0x80 OR 127] @ be_bytes 8 len)"

definition ws_encodeFrame :: "u8 list \<Rightarrow> u8 \<Rightarrow> u8 list \<Rightarrow> u8 list" where
  "ws_encodeFrame key opcode payload =
     ws_header opcode (length payload) @ key @ ws_mask key payload"

text \<open>The length field: None when its bytes are not all there, else the length and the offset
  after it, or the exception for a length no JavaScript number holds.\<close>

definition ws_length :: "u8 list \<Rightarrow> nat \<Rightarrow> (string + nat \<times> nat) option" where
  "ws_length b len =
     (if len = 126
      then (if length b < 4 then None else Some (Inr (be_value (take 2 (drop 2 b)), 4)))
      else if len = 127
      then (if length b < 10 then None
            else (let big = be_value (take 8 (drop 2 b)) in
                  if big > ws_max_length then Some (Inl ''WebSocket frame is too large'')
                  else Some (Inr (big, 10))))
      else Some (Inr (len, 2)))"

definition ws_decodeFrame :: "u8 list \<Rightarrow> (u8, ws_frame, string) frame_step" where
  "ws_decodeFrame b =
     (if length b < 2 then NeedMore
      else case ws_length b (unat ((b ! 1) AND 0x7F)) of
        None \<Rightarrow> NeedMore
      | Some (Inl e) \<Rightarrow> Bad e b
      | Some (Inr (len, off)) \<Rightarrow>
          (let masked = ((b ! 1) AND 0x80 \<noteq> 0);
               start = (if masked then off + 4 else off) in
           if length b < start + len then NeedMore
           else
             (let raw = take len (drop start b);
                  payload = (if masked then ws_mask (take 4 (drop off b)) raw else raw) in
              Got \<lparr>wf_opcode = (b ! 0) AND 0x0F, wf_payload = payload, wf_fin = ((b ! 0) AND 0x80 \<noteq> 0)\<rparr>
                  (drop (start + len) b))))"

section \<open>The reader\<close>

text \<open>What the reader does to the outside: hand a message to \<open>onMessage\<close>, write a frame, half-close
  or destroy the socket, call \<open>onClose\<close>.\<close>

datatype ws_out =
    WsMessage "u8 list"
  | WsWrite u8 "u8 list"
  | WsEnd
  | WsDestroy
  | WsClose string

record ws_state =
  ws_buffer :: "u8 list"
  ws_assembling :: "u8 list list"
  ws_finished :: bool

definition ws_is_close :: "ws_frame \<Rightarrow> bool" where
  "ws_is_close f = (wf_opcode f = 0x8)"

definition ws_finish :: "string \<Rightarrow> ws_state \<Rightarrow> ws_state \<times> ws_out list" where
  "ws_finish reason st =
     (if ws_finished st then (st, []) else (st\<lparr>ws_finished := True\<rparr>, [WsClose reason]))"

definition ws_handle :: "ws_frame \<Rightarrow> ws_state \<Rightarrow> ws_state \<times> ws_out list" where
  "ws_handle f st =
     (if wf_opcode f = 0x8 then
        (let (st', outs) = ws_finish ''app-server closed the connection'' st in
         (st', [WsWrite 0x8 [], WsEnd] @ outs))
      else if wf_opcode f = 0x9 then (st, [WsWrite 0xA (wf_payload f)])
      else if wf_opcode f = 0xA then (st, [])
      else
        (let parts = ws_assembling st @ [wf_payload f] in
         if \<not> wf_fin f then (st\<lparr>ws_assembling := parts\<rparr>, [])
         else (st\<lparr>ws_assembling := []\<rparr>, [WsMessage (concat parts)])))"

fun ws_handle_all :: "ws_frame list \<Rightarrow> ws_state \<Rightarrow> ws_state \<times> ws_out list" where
  "ws_handle_all [] st = (st, [])"
| "ws_handle_all (f # fs) st =
     (let (st', o1) = ws_handle f st; (st'', o2) = ws_handle_all fs st' in (st'', o1 @ o2))"

definition ws_data :: "u8 list \<Rightarrow> ws_state \<Rightarrow> ws_state \<times> ws_out list" where
  "ws_data chunk st =
     (let (fs, rest, en) = pump ws_decodeFrame ws_is_close (ws_buffer st @ chunk);
          (st', outs) = ws_handle_all fs st;
          st2 = st'\<lparr>ws_buffer := rest\<rparr> in
      (case en of
         Failed e \<Rightarrow> (let (st3, o3) = ws_finish e st2 in (st3, outs @ [WsDestroy] @ o3))
       | _ \<Rightarrow> (st2, outs)))"

text \<open>The \<open>data\<close> events of a connection, one after the other.\<close>

fun ws_datas :: "u8 list list \<Rightarrow> ws_state \<Rightarrow> ws_state \<times> ws_out list" where
  "ws_datas [] st = (st, [])"
| "ws_datas (ch # chs) st =
     (let (st', o1) = ws_data ch st; (st'', o2) = ws_datas chs st' in (st'', o1 @ o2))"

text \<open>What \<open>loadedThreadIds\<close> makes of a message: None for the messages it skips, else the string
  entries of \<open>result.data\<close>, none when that is no array.\<close>

definition loaded_thread_ids :: "json \<Rightarrow> string list option" where
  "loaded_thread_ids msg =
     (if jfield msg ''id'' \<noteq> Some (JStr ''loaded'') then None
      else Some (case jarr (Option.bind (jfield msg ''result'') (\<lambda>r. jfield r ''data'')) of
          None \<Rightarrow> []
        | Some ids \<Rightarrow> List.map_filter (\<lambda>i. jstr (Some i)) ids))"

section \<open>Masks and header bits\<close>

lemma length_ws_mask [simp]: "length (ws_mask m p) = length p"
  by (simp add: ws_mask_def)

lemma ws_mask_involution: "ws_mask m (ws_mask m p) = p"
  by (intro nth_equalityI) (simp_all add: ws_mask_def xor.assoc)

lemma and_low_mask: "(w :: u8) AND 0x0F = take_bit 4 w" "(w :: u8) AND 0x7F = take_bit 7 w"
  by (simp_all add: take_bit_eq_mask mask_eq_exp_minus_1)

lemma opcode_bits:
  assumes "unat (opc :: u8) < 16"
  shows "(0x80 OR opc) AND 0x0F = opc" "(0x80 OR opc) AND 0x80 \<noteq> 0"
proof -
  have "(0x80 OR opc) AND 0x0F = opc AND 0x0F"
    by (simp add: bit.conj_disj_distrib2)
  also have "\<dots> = take_bit 4 opc" by (rule and_low_mask)
  also have "\<dots> = opc"
    using assms by (simp add: word_unat_eq_iff unsigned_take_bit_eq take_bit_nat_eq_self)
  finally show "(0x80 OR opc) AND 0x0F = opc" .
  have "bit ((0x80 OR opc) AND 0x80) 7" by (simp add: bit_simps)
  then show "(0x80 OR opc) AND 0x80 \<noteq> 0" by auto
qed

lemma length_bits:
  assumes "n < 128"
  shows "unat ((0x80 OR word_of_nat n :: u8) AND 0x7F) = n" "(0x80 OR word_of_nat n :: u8) AND 0x80 \<noteq> 0"
proof -
  have "(0x80 OR word_of_nat n :: u8) AND 0x7F = word_of_nat n AND 0x7F"
    by (simp add: bit.conj_disj_distrib2)
  also have "\<dots> = take_bit 7 (word_of_nat n)" by (rule and_low_mask)
  also have "\<dots> = word_of_nat n"
    using assms by (simp add: word_unat_eq_iff unsigned_take_bit_eq take_bit_nat_eq_self unat_of_nat)
  finally show "unat ((0x80 OR word_of_nat n :: u8) AND 0x7F) = n"
    using assms by (simp add: unat_of_nat)
  have "bit ((0x80 OR word_of_nat n :: u8) AND 0x80) 7" by (simp add: bit_simps)
  then show "(0x80 OR word_of_nat n :: u8) AND 0x80 \<noteq> 0" by auto
qed

section \<open>The decoder satisfies the framing interface\<close>

lemma ws_length_append:
  "ws_length b n = Some x \<Longrightarrow> ws_length (b @ c) n = Some x"
  by (auto simp: ws_length_def Let_def split: if_splits)

lemma ws_length_bounds:
  "ws_length b n = Some (Inr (len, off)) \<Longrightarrow> 2 \<le> length b \<Longrightarrow> 2 \<le> off \<and> off \<le> length b"
  by (auto simp: ws_length_def Let_def split: if_splits)

lemma ws_decodeFrame_GotD:
  assumes "ws_decodeFrame b = Got f r"
  obtains len off where "2 \<le> length b" "ws_length b (unat ((b ! 1) AND 0x7F)) = Some (Inr (len, off))"
    "2 \<le> off" "(if (b ! 1) AND 0x80 \<noteq> 0 then off + 4 else off) + len \<le> length b"
    "r = drop ((if (b ! 1) AND 0x80 \<noteq> 0 then off + 4 else off) + len) b"
  using assms ws_length_bounds
  by (fastforce simp: ws_decodeFrame_def Let_def split: if_splits option.splits sum.splits)

lemma ws_decodeFrame_append:
  assumes "2 \<le> length b" "ws_length b (unat ((b ! 1) AND 0x7F)) = Some (Inr (len, off))"
    "(if (b ! 1) AND 0x80 \<noteq> 0 then off + 4 else off) + len \<le> length b"
    "ws_decodeFrame b = Got f r"
  shows "ws_decodeFrame (b @ c) = Got f (r @ c)"
proof -
  have nth: "(b @ c) ! 0 = b ! 0" "(b @ c) ! Suc 0 = b ! Suc 0" using assms(1) by (auto simp: nth_append)
  show ?thesis
    using assms ws_length_append [OF assms(2), of c]
    by (auto simp: ws_decodeFrame_def nth Let_def split: if_splits)
qed

interpretation ws: frame_decoder ws_decodeFrame
proof unfold_locales
  fix b c and f :: ws_frame and r
  assume g: "ws_decodeFrame b = Got f r"
  then obtain len off where "2 \<le> length b"
    "ws_length b (unat ((b ! 1) AND 0x7F)) = Some (Inr (len, off))"
    "(if (b ! 1) AND 0x80 \<noteq> 0 then off + 4 else off) + len \<le> length b"
    by (rule ws_decodeFrame_GotD)
  then show "ws_decodeFrame (b @ c) = Got f (r @ c)" using g by (rule ws_decodeFrame_append)
next
  fix b and f :: ws_frame and r
  assume "ws_decodeFrame b = Got f r"
  then obtain len off where "2 \<le> length b" "2 \<le> off"
    "r = drop ((if (b ! 1) AND 0x80 \<noteq> 0 then off + 4 else off) + len) b"
    by (rule ws_decodeFrame_GotD)
  then show "length r < length b" by (auto split: if_splits)
next
  fix b c :: "u8 list" and e r
  assume bad: "ws_decodeFrame b = Bad e r"
  then have two: "2 \<le> length b"
    and l: "ws_length b (unat ((b ! 1) AND 0x7F)) = Some (Inl e)"
    by (auto simp: ws_decodeFrame_def Let_def split: if_splits option.splits sum.splits)
  have "(b @ c) ! 1 = b ! 1" using two by (simp add: nth_append)
  with two ws_length_append [OF l, of c] show "\<exists>e' r'. ws_decodeFrame (b @ c) = Bad e' r'"
    by (simp add: ws_decodeFrame_def)
next
  show "ws_decodeFrame [] = NeedMore" by (simp add: ws_decodeFrame_def)
qed

section \<open>Encoding and decoding\<close>

lemma ws_decode_parts:
  assumes hd: "length h = off" "2 \<le> off" "h ! 0 = 0x80 OR opc" "(h ! 1) AND 0x80 \<noteq> 0"
    and len: "ws_length (h @ key @ m @ rest) (unat ((h ! 1) AND 0x7F)) = Some (Inr (length m, off))"
    and "length key = 4" "unat opc < 16"
  shows "ws_decodeFrame (h @ key @ m @ rest) =
    Got \<lparr>wf_opcode = opc, wf_payload = ws_mask key m, wf_fin = True\<rparr> rest"
proof -
  have "(h @ key @ m @ rest) ! 0 = h ! 0" "(h @ key @ m @ rest) ! 1 = h ! 1"
    using hd(1,2) by (auto simp: nth_append)
  with assms show ?thesis by (simp add: ws_decodeFrame_def opcode_bits)
qed

lemma ws_decode_encode:
  assumes "length key = 4" "unat opc < 16" "length payload \<le> ws_max_length"
  shows "ws_decodeFrame (ws_encodeFrame key opc payload @ rest) =
    Got \<lparr>wf_opcode = opc, wf_payload = payload, wf_fin = True\<rparr> rest"
proof -
  let ?h = "ws_header opc (length payload)" and ?m = "ws_mask key payload"
  have small: "(0x80 OR 126 :: u8) AND 0x7F = 126" "(0x80 OR 127 :: u8) AND 0x7F = 127"
    "(0x80 OR 126 :: u8) AND 0x80 \<noteq> 0" "(0x80 OR 127 :: u8) AND 0x80 \<noteq> 0" by simp_all
  define off :: nat where
    "off = (if length payload < 126 then 2 else if length payload < 65536 then 4 else 10)"
  have h: "length ?h = off" "2 \<le> off" "?h ! 0 = 0x80 OR opc" "(?h ! 1) AND 0x80 \<noteq> 0"
    using length_bits(2) [of "length payload"] small by (auto simp: ws_header_def off_def)
  have "ws_length (?h @ key @ ?m @ rest) (unat ((?h ! 1) AND 0x7F)) = Some (Inr (length ?m, off))"
  proof -
    consider "length payload < 126" | "126 \<le> length payload" "length payload < 65536"
      | "65536 \<le> length payload" by linarith
    then show ?thesis
    proof cases
      case 1
      then show ?thesis
        using length_bits(1) [of "length payload"] by (simp add: ws_header_def ws_length_def off_def)
    next
      case 2
      then show ?thesis
        using be_value_be_bytes [of "length payload" 2]
        by (simp add: ws_header_def ws_length_def off_def small)
    next
      case 3
      then have "length payload < 256 ^ 8" using assms(3) by (simp add: ws_max_length_def)
      with 3 assms(3) show ?thesis
        using be_value_be_bytes [of "length payload" 8]
        by (simp add: ws_header_def ws_length_def off_def small)
    qed
  qed
  from ws_decode_parts [OF h this assms(1,2)] show ?thesis
    by (simp add: ws_encodeFrame_def ws_mask_involution)
qed

section \<open>The reader over a stream\<close>

lemma ws_handle_all_append:
  "ws_handle_all (fs @ gs) st =
     (let (st1, o1) = ws_handle_all fs st; (st2, o2) = ws_handle_all gs st1 in (st2, o1 @ o2))"
  by (induction fs arbitrary: st) (simp_all add: Let_def split: prod.splits)

lemma ws_finish_buffer: "ws_finish r (st\<lparr>ws_buffer := b\<rparr>) = (let (s, os) = ws_finish r st in (s\<lparr>ws_buffer := b\<rparr>, os))"
  by (simp add: ws_finish_def)

lemma ws_handle_buffer:
  "ws_handle f (st\<lparr>ws_buffer := b\<rparr>) = (let (s, os) = ws_handle f st in (s\<lparr>ws_buffer := b\<rparr>, os))"
  by (simp add: ws_handle_def ws_finish_def Let_def)

lemma ws_handle_all_buffer:
  "ws_handle_all fs (st\<lparr>ws_buffer := b\<rparr>) =
     (let (s, os) = ws_handle_all fs st in (s\<lparr>ws_buffer := b\<rparr>, os))"
  by (induction fs arbitrary: st) (auto simp: ws_handle_buffer Let_def split: prod.splits)

lemma ws_datas_pump:
  assumes "pump_chunks ws_decodeFrame ws_is_close (ws_buffer st) chs = (fs, r, Waiting)"
  shows "ws_datas chs st = (let (st', outs) = ws_handle_all fs st in (st'\<lparr>ws_buffer := r\<rparr>, outs))"
  using assms
proof (induction chs arbitrary: st fs)
  case Nil
  then show ?case by simp
next
  case (Cons ch chs)
  obtain f1 r1 en where p: "pump ws_decodeFrame ws_is_close (ws_buffer st @ ch) = (f1, r1, en)"
    by (cases "pump ws_decodeFrame ws_is_close (ws_buffer st @ ch)") auto
  with Cons.prems have w: "en = Waiting" by (cases en) auto
  with Cons.prems p obtain f2 where f2: "fs = f1 @ f2"
    and rest: "pump_chunks ws_decodeFrame ws_is_close r1 chs = (f2, r, Waiting)"
    by (auto split: prod.splits)
  obtain s1 o1 where h1: "ws_handle_all f1 st = (s1, o1)" by (cases "ws_handle_all f1 st")
  have "ws_datas chs (s1\<lparr>ws_buffer := r1\<rparr>) =
      (let (st', outs) = ws_handle_all f2 (s1\<lparr>ws_buffer := r1\<rparr>) in (st'\<lparr>ws_buffer := r\<rparr>, outs))"
    by (rule Cons.IH) (simp add: rest)
  then show ?case
    using p w h1 f2
    by (simp add: ws_data_def ws_handle_all_append ws_handle_all_buffer Let_def split: prod.splits)
qed

lemma ws_handle_all_data:
  assumes "\<forall>f\<in>set fs. wf_opcode f \<notin> {0x8, 0x9, 0xA} \<and> \<not> wf_fin f \<or> wf_opcode f \<in> {0x9, 0xA}"
  shows "ws_handle_all fs st =
    (st\<lparr>ws_assembling := ws_assembling st @ map wf_payload (filter (\<lambda>f. wf_opcode f \<notin> {0x9, 0xA}) fs)\<rparr>,
     map (\<lambda>f. WsWrite 0xA (wf_payload f)) (filter (\<lambda>f. wf_opcode f = 0x9) fs))"
  using assms by (induction fs arbitrary: st) (auto simp: ws_handle_def)

lemma pump_ws_encoded:
  assumes "\<forall>(key, opc, payload)\<in>set ms. length key = 4 \<and> unat opc < 16 \<and> opc \<noteq> 0x8 \<and>
      length payload \<le> ws_max_length"
  shows "pump ws_decodeFrame ws_is_close (concat (map (\<lambda>(key, opc, payload). ws_encodeFrame key opc payload) ms)) =
    (map (\<lambda>(key, opc, payload). \<lparr>wf_opcode = opc, wf_payload = payload, wf_fin = True\<rparr>) ms, [], Waiting)"
  using assms
proof (induction ms)
  case Nil
  then show ?case by (simp add: pump_NeedMore ws_decodeFrame_def)
next
  case (Cons m ms)
  obtain key opc payload where m: "m = (key, opc, payload)" by (cases m)
  let ?rest = "concat (map (\<lambda>(key, opc, payload). ws_encodeFrame key opc payload) ms)"
  have g: "ws_decodeFrame (ws_encodeFrame key opc payload @ ?rest) =
      Got \<lparr>wf_opcode = opc, wf_payload = payload, wf_fin = True\<rparr> ?rest"
    using Cons.prems m by (intro ws_decode_encode) auto
  have "length ?rest < length (ws_encodeFrame key opc payload @ ?rest)"
    using ws.got_shorter [OF g] .
  with g Cons m show ?case by (simp add: pump_Got ws_is_close_def)
qed

section \<open>Properties\<close>

text \<open>The WebSocket reader sees the frames that were written, however the socket cuts the bytes.
  Client frames with any masks and any opcode but close, up to the length a JavaScript number
  holds and so through all three length encodings, reach the handler as written, in order, and
  leave nothing in the buffer.\<close>

theorem ws_stream_roundtrip:
  assumes "\<forall>(key, opc, payload)\<in>set ms. length key = 4 \<and> unat opc < 16 \<and> opc \<noteq> 0x8 \<and>
      length payload \<le> ws_max_length"
    and "concat chs = concat (map (\<lambda>(key, opc, payload). ws_encodeFrame key opc payload) ms)"
    and "ws_buffer st = []"
  shows "ws_datas chs st =
    ws_handle_all (map (\<lambda>(key, opc, payload). \<lparr>wf_opcode = opc, wf_payload = payload, wf_fin = True\<rparr>) ms) st"
proof -
  let ?fs = "map (\<lambda>(key, opc, payload). \<lparr>wf_opcode = opc, wf_payload = payload, wf_fin = True\<rparr>) ms"
  have "pump_chunks ws_decodeFrame ws_is_close (ws_buffer st) chs = (?fs, [], Waiting)"
    using pump_ws_encoded [OF assms(1)] assms(2,3) ws.chunking_invisible(2) [OF ws.nil_waits]
    by simp
  from ws_datas_pump [OF this]
  have "ws_datas chs st = (let (st', outs) = ws_handle_all ?fs st in (st'\<lparr>ws_buffer := []\<rparr>, outs))" .
  moreover have "st = st\<lparr>ws_buffer := []\<rparr>" using assms(3) by (cases st) simp
  then have "ws_handle_all ?fs st =
      (let (st', outs) = ws_handle_all ?fs st in (st'\<lparr>ws_buffer := []\<rparr>, outs))"
    by (metis ws_handle_all_buffer)
  ultimately show ?thesis by simp
qed

theorem ws_stream_roundtrip_witness:
  "snd (ws_datas [ws_encodeFrame [1, 2, 3, 4] 0x1 [72], ws_encodeFrame [5, 6, 7, 8] 0x9 [7]]
     \<lparr>ws_buffer = [], ws_assembling = [], ws_finished = False\<rparr>) = [WsMessage [72], WsWrite 0xA [7]]"
  using ws_stream_roundtrip [of "[([1, 2, 3, 4], 0x1, [72]), ([5, 6, 7, 8], 0x9, [7])]"
      "[ws_encodeFrame [1, 2, 3, 4] 0x1 [72], ws_encodeFrame [5, 6, 7, 8] 0x9 [7]]"
      "\<lparr>ws_buffer = [], ws_assembling = [], ws_finished = False\<rparr>"]
  by (simp add: ws_max_length_def ws_handle_def)

text \<open>A fragmented message is delivered once, whole and in order, whatever pings and pongs come
  between its fragments, and each ping is answered by a pong with its payload.\<close>

theorem ws_reassembly:
  assumes "\<forall>f\<in>set fs. wf_opcode f \<notin> {0x8, 0x9, 0xA} \<and> \<not> wf_fin f \<or> wf_opcode f \<in> {0x9, 0xA}"
    and "wf_opcode final \<notin> {0x8, 0x9, 0xA}" "wf_fin final" "ws_assembling st = []"
  shows "ws_handle_all (fs @ [final]) st =
    (st, map (\<lambda>f. WsWrite 0xA (wf_payload f)) (filter (\<lambda>f. wf_opcode f = 0x9) fs) @
       [WsMessage (concat (map wf_payload (filter (\<lambda>f. wf_opcode f \<notin> {0x9, 0xA}) fs)) @ wf_payload final)])"
  using assms
  by (simp add: ws_handle_all_append ws_handle_all_data ws_handle_def)

theorem ws_reassembly_witness:
  "snd (ws_handle_all ([\<lparr>wf_opcode = 0x1, wf_payload = [72], wf_fin = False\<rparr>,
      \<lparr>wf_opcode = 0x9, wf_payload = [7], wf_fin = True\<rparr>] @
      [\<lparr>wf_opcode = 0x0, wf_payload = [73], wf_fin = True\<rparr>])
     \<lparr>ws_buffer = [], ws_assembling = [], ws_finished = False\<rparr>) = [WsWrite 0xA [7], WsMessage [72, 73]]"
  by (subst ws_reassembly) simp_all

end
