(* ===== verification/Interfaces.thy ===== *)
theory Interfaces
  imports Prelude
begin

text \<open>
  The contracts between components, as locales: what a client relies on of a store, proved once
  from the provider's laws.
\<close>

section \<open>Stores where the first write of a key wins\<close>

text \<open>The deduplication of the program: a message is enqueued once, an event is recorded once, an
  action is reserved once, whatever is written under its key later.\<close>

fun puts :: "('k \<Rightarrow> 'x \<Rightarrow> 's \<Rightarrow> 's) \<Rightarrow> ('k \<times> 'x) list \<Rightarrow> 's \<Rightarrow> 's" where
  "puts put [] s = s"
| "puts put ((k, x) # ps) s = puts put ps (put k x s)"

lemma puts_append: "puts put (ps @ qs) s = puts put qs (puts put ps s)"
  by (induction put ps s rule: puts.induct) auto

locale first_write_store =
  fixes get :: "'k \<Rightarrow> 's \<Rightarrow> 'v option" and put :: "'k \<Rightarrow> 'x \<Rightarrow> 's \<Rightarrow> 's"
  assumes put_present: "get k s = Some v \<Longrightarrow> get k (put k x s) = Some v"
    and put_other: "k \<noteq> k' \<Longrightarrow> get k' (put k x s) = get k' s"
begin

lemma put_keeps: "get k s = Some v \<Longrightarrow> get k (put k' x s) = Some v"
  by (cases "k' = k") (auto simp: put_present put_other)

lemma puts_keep: "get k s = Some v \<Longrightarrow> get k (puts put ps s) = Some v"
  by (induction ps arbitrary: s) (auto simp: put_keeps)

lemma puts_other: "k \<notin> fst ` set ps \<Longrightarrow> get k (puts put ps s) = get k s"
  by (induction ps arbitrary: s) (auto simp: put_other)

lemma first_put_wins:
  assumes "k \<notin> fst ` set ps" "get k (put k x (puts put ps s)) = Some v"
  shows "get k (puts put (ps @ (k, x) # qs) s) = Some v"
  using assms by (simp add: puts_append puts_keep)

end

section \<open>Stores where a write of a key is read back\<close>

text \<open>A write that always takes: what was stored under a key is what is read, until the next write
  of that key.\<close>

locale update_store = first_write_store +
  assumes put_absent: "get k s = None \<Longrightarrow> get k (put k x s) \<noteq> None"
begin

lemma put_idem: "get k (put k y (put k x s)) = get k (put k x s)"
proof -
  obtain v where "get k (put k x s) = Some v"
    using put_absent put_present by (cases "get k s") blast+
  then show ?thesis by (simp add: put_present)
qed

lemma puts_has_key: "k \<in> fst ` set ps \<Longrightarrow> get k (puts put ps s) \<noteq> None"
proof (induction ps arbitrary: s)
  case (Cons p ps)
  obtain k' x where p: "p = (k', x)" by (cases p)
  show ?case
  proof (cases "k' = k")
    case True
    obtain v where "get k (put k x s) = Some v"
      using put_absent put_present by (cases "get k s") blast+
    with p True show ?thesis using puts_keep by simp
  next
    case False
    with Cons p show ?thesis by auto
  qed
qed simp

end

section \<open>Tables of states updated by key\<close>

text \<open>A row that moves through states by updates of its key: an update changes the state of that key
  alone, to the state the update names, and creates no row.\<close>

locale keyed_states =
  fixes st :: "'q \<Rightarrow> 'i \<Rightarrow> 's option" and tr :: "'i \<Rightarrow> 'x \<Rightarrow> 'q \<Rightarrow> 'q" and tgt :: "'x \<Rightarrow> 's"
  assumes st_tr: "st (tr i x q) j = (if j = i then map_option (\<lambda>_. tgt x) (st q i) else st q j)"
begin

lemma fold_other: "j \<noteq> i \<Longrightarrow> st (fold (tr i) xs q) j = st q j"
  by (induction xs arbitrary: q) (simp_all add: st_tr)

lemma fold_None: "st (fold (tr i) xs q) j = None \<longleftrightarrow> st q j = None"
  by (induction xs arbitrary: q) (simp_all add: st_tr)

lemma fold_last:
  assumes "st q i = Some s"
  shows "st (fold (tr i) (xs @ [x]) q) i = Some (tgt x)"
proof -
  have "st (fold (tr i) xs q) i \<noteq> None" using assms by (simp add: fold_None)
  then show ?thesis by (auto simp: st_tr)
qed

end

section \<open>Callers whose requests settle\<close>

text \<open>A caller keeps a table of requests that wait for an answer: an event of its machine may ask for
  requests, and settles or keeps the ones it holds.  From the balance of one step follows that of
  every interleaving: a request that was asked for once has settled once or waits still.\<close>

fun runs :: "('e \<Rightarrow> 's \<Rightarrow> 's \<times> 'o list) \<Rightarrow> 'e list \<Rightarrow> 's \<Rightarrow> 's \<times> 'o list" where
  "runs step [] s = (s, [])"
| "runs step (e # es) s =
     (let (s', o1) = step e s; (s'', o2) = runs step es s' in (s'', o1 @ o2))"

lemma count_list_distinct: "distinct xs \<Longrightarrow> count_list xs i = (if i \<in> set xs then 1 else 0)"
  by (induction xs) auto

locale settling =
  fixes step :: "'e \<Rightarrow> 's \<Rightarrow> 's \<times> 'o list" and inv :: "'s \<Rightarrow> bool"
    and waiting :: "'i \<Rightarrow> 's \<Rightarrow> nat" and settled :: "'i \<Rightarrow> 'o list \<Rightarrow> nat" and asked :: "'e \<Rightarrow> 'i list"
  assumes inv_step: "inv s \<Longrightarrow> inv (fst (step e s))"
    and settled_Nil: "settled i [] = 0"
    and settled_append: "settled i (xs @ ys) = settled i xs + settled i ys"
    and balance: "inv s \<Longrightarrow> (\<And>j. waiting j s \<le> 1) \<Longrightarrow> step e s = (s', outs) \<Longrightarrow>
      settled i outs + waiting i s' = waiting i s + count_list (asked e) i"
begin

lemma inv_runs: "inv s \<Longrightarrow> inv (fst (runs step es s))"
proof (induction es arbitrary: s)
  case (Cons e es)
  from Cons.IH [OF inv_step [OF Cons.prems, of e]] show ?case by (simp add: split_beta Let_def)
qed simp

lemma balance_runs:
  assumes "inv s" "\<And>j. waiting j s + count_list (concat (map asked es)) j \<le> 1" "runs step es s = (s', outs)"
  shows "settled i outs + waiting i s' = waiting i s + count_list (concat (map asked es)) i"
  using assms
proof (induction es arbitrary: s s' outs)
  case Nil
  then show ?case by (simp add: settled_Nil)
next
  case (Cons e es)
  obtain s1 o1 where one: "step e s = (s1, o1)" by (cases "step e s")
  obtain s2 o2 where rest: "runs step es s1 = (s2, o2)" by (cases "runs step es s1")
  have small: "waiting j s \<le> 1" for j using Cons.prems(2) [of j] by simp
  note bal = balance [OF Cons.prems(1) small one]
  have "waiting j s1 + count_list (concat (map asked es)) j \<le> 1" for j
    using bal [of j] Cons.prems(2) [of j] by simp
  moreover have "inv s1" using inv_step [OF Cons.prems(1), of e] one by simp
  ultimately have "settled i o2 + waiting i s2 = waiting i s1 + count_list (concat (map asked es)) i"
    using Cons.IH rest by blast
  with bal [of i] one rest Cons.prems(3) show ?case by (auto simp: settled_append)
qed

lemma settles_once:
  assumes "inv s" "\<And>j. waiting j s = 0" "distinct (concat (map asked es))" "runs step es s = (s', outs)"
  shows "settled i outs + waiting i s' = (if i \<in> set (concat (map asked es)) then 1 else 0)"
proof -
  have "waiting j s + count_list (concat (map asked es)) j \<le> 1" for j
    using assms(2) count_list_distinct [OF assms(3), of j] by simp
  from balance_runs [OF assms(1) this assms(4), of i] show ?thesis
    using assms(2) count_list_distinct [OF assms(3), of i] by simp
qed

end

end
