(* ===== verification/Ws_Upgrade.thy ===== *)
theory Ws_Upgrade
  imports Ws_Frame Errors Interfaces
begin

text \<open>
  The opening of a connection in \<open>connectWsUnix\<close> of \<open>src/runtime/ws-unix-client.ts\<close>: the request, the
  head of the answer as it arrives in pieces, and \<open>attach\<close>, which hands the bytes after the head to the
  reader of \<open>Ws_Frame\<close>, and what its users send.  The base64 texts of the key and of the digest expected back are arguments.
\<close>

section \<open>The head\<close>

definition crlf :: string where
  "crlf = [CHR 0x0D, CHR 0x0A]"

definition upgrade_request :: "string \<Rightarrow> string \<Rightarrow> string" where
  "upgrade_request path key =
     ''GET '' @ path @ '' HTTP/1.1'' @ crlf @ ''Host: localhost'' @ crlf @ ''Connection: Upgrade'' @ crlf @
     ''Upgrade: websocket'' @ crlf @ ''Sec-WebSocket-Version: 13'' @ crlf @ ''Sec-WebSocket-Key: '' @ key @ crlf @ crlf"

text \<open>\<open>toString("latin1")\<close>, and the letters for which the patterns ignore case.\<close>

definition latin1 :: "u8 list \<Rightarrow> string" where
  "latin1 bs = map (\<lambda>b. char_of (unat b)) bs"

definition latin_lower :: "char \<Rightarrow> char" where
  "latin_lower c = (if 65 \<le> (of_char c :: nat) \<and> (of_char c :: nat) \<le> 90 then char_of ((of_char c :: nat) + 32) else c)"

definition latin_space :: "char \<Rightarrow> bool" where
  "latin_space c = ((9 \<le> (of_char c :: nat) \<and> (of_char c :: nat) \<le> 13) \<or> (of_char c :: nat) = 32 \<or> (of_char c :: nat) = 160)"

text \<open>Where the head ends.\<close>

fun find_break :: "u8 list \<Rightarrow> nat option" where
  "find_break [] = None"
| "find_break (b # bs) = (if take 4 (b # bs) = [13, 10, 13, 10] then Some 0 else map_option Suc (find_break bs))"

definition switching :: "string \<Rightarrow> bool" where
  "switching head = (map latin_lower (take 12 head) = ''http/1.1 101'')"

text \<open>The first match of the pattern for the accept header: its value is what is no space after any
  spaces, and must not be empty.\<close>

definition accept_at :: "string \<Rightarrow> string option" where
  "accept_at s =
     (if map latin_lower (take 21 s) \<noteq> ''sec-websocket-accept:'' then None
      else (case takeWhile (\<lambda>c. \<not> latin_space c) (dropWhile latin_space (drop 21 s)) of [] \<Rightarrow> None | v \<Rightarrow> Some v))"

fun accept_of :: "string \<Rightarrow> string option" where
  "accept_of [] = None"
| "accept_of (c # cs) = (case accept_at (c # cs) of Some v \<Rightarrow> Some v | None \<Rightarrow> accept_of cs)"

fun first_line :: "string \<Rightarrow> string" where
  "first_line [] = []"
| "first_line (c # cs) = (if take 2 (c # cs) = crlf then [] else c # first_line cs)"

section \<open>The connection\<close>

text \<open>Waiting for the head with what has come, open, refused, or ended by an exception that nothing
  catches.\<close>

datatype upgrade =
    Up_reading "u8 list"
  | Up_open ws_state
  | Up_rejected exn
  | Up_uncaught

datatype upgrade_event = Ue_data "u8 list" | Ue_error exn | Ue_close

definition ws_fresh :: "u8 list \<Rightarrow> ws_state" where
  "ws_fresh b = \<lparr>ws_buffer = b, ws_assembling = [], ws_finished = False\<rparr>"

text \<open>\<open>attach\<close> pumps what came with the head outside of the \<open>try\<close> block that later chunks have.\<close>

definition ws_attach :: "u8 list \<Rightarrow> upgrade \<times> ws_out list" where
  "ws_attach initial =
     (let (fs, rest, en) = pump ws_decodeFrame ws_is_close initial;
          (st, outs) = ws_handle_all fs (ws_fresh []) in
      (case en of Failed e \<Rightarrow> (Up_uncaught, outs) | _ \<Rightarrow> (Up_open (st\<lparr>ws_buffer := rest\<rparr>), outs)))"

definition upgrade_head :: "string \<Rightarrow> u8 list \<Rightarrow> nat \<Rightarrow> upgrade \<times> ws_out list" where
  "upgrade_head expected b n =
     (let head = latin1 (take n b) in
      if \<not> switching head
      then (Up_rejected (PlainError (''app-server refused the WebSocket upgrade: '' @ first_line head)), [WsDestroy])
      else if accept_of head \<noteq> Some expected
      then (Up_rejected (PlainError ''app-server returned a mismatched Sec-WebSocket-Accept''), [WsDestroy])
      else ws_attach (drop (n + 4) b))"

definition upgrade_data :: "string \<Rightarrow> u8 list \<Rightarrow> upgrade \<Rightarrow> upgrade \<times> ws_out list" where
  "upgrade_data expected chunk u =
     (case u of
        Up_reading b \<Rightarrow>
          (case find_break (b @ chunk) of
             None \<Rightarrow> (Up_reading (b @ chunk), [])
           | Some n \<Rightarrow> upgrade_head expected (b @ chunk) n)
      | Up_open st \<Rightarrow> (let (st', outs) = ws_data chunk st in (Up_open st', outs))
      | _ \<Rightarrow> (u, []))"

text \<open>Nothing listens to the close of the socket before the connection is open.\<close>

fun upgrade_step :: "string \<Rightarrow> upgrade_event \<Rightarrow> upgrade \<Rightarrow> upgrade \<times> ws_out list" where
  "upgrade_step expected (Ue_data chunk) u = upgrade_data expected chunk u"
| "upgrade_step expected (Ue_error e) u =
     (case u of
        Up_reading b \<Rightarrow> (Up_rejected e, [])
      | Up_open st \<Rightarrow> (let (st', outs) = ws_finish (exn_message e) st in (Up_open st', outs))
      | _ \<Rightarrow> (u, []))"
| "upgrade_step expected Ue_close u =
     (case u of
        Up_open st \<Rightarrow> (let (st', outs) = ws_finish ''app-server socket closed'' st in (Up_open st', outs))
      | _ \<Rightarrow> (u, []))"

section \<open>The use of a connection\<close>

definition ws_send :: "u8 list \<Rightarrow> ws_out list" where
  "ws_send payload = [WsWrite 0x1 payload]"

definition ws_close :: "bool \<Rightarrow> ws_out list" where
  "ws_close destroyed = (if destroyed then [] else [WsWrite 0x8 [], WsEnd])"

section \<open>Lemmas\<close>

lemma find_break_append: "find_break b = Some n \<Longrightarrow> find_break (b @ c) = Some n \<and> n + 4 \<le> length b"
proof (induction b arbitrary: n)
  case (Cons x b)
  show ?case
  proof (cases "take 4 (x # b) = [13, 10, 13, 10]")
    case True
    then have "length (take 4 (x # b)) = 4" by simp
    then have "4 \<le> length (x # b)" by simp
    with True Cons.prems show ?thesis by simp
  next
    case False
    with Cons.prems obtain m where m: "find_break b = Some m" "n = Suc m" by auto
    from Cons.IH [OF m(1)] have "find_break (b @ c) = Some m" "m + 4 \<le> length b" by auto
    moreover have "take 4 (x # b @ c) \<noteq> [13, 10, 13, 10]" using False \<open>m + 4 \<le> length b\<close> by simp
    ultimately show ?thesis using m(2) by simp
  qed
qed simp

lemma upgrade_datas_reading:
  "find_break (b @ concat chs) = None \<Longrightarrow>
    runs (upgrade_step expected) (map Ue_data chs) (Up_reading b) = (Up_reading (b @ concat chs), [])"
proof (induction chs arbitrary: b)
  case (Cons ch chs)
  then have "find_break (b @ ch) = None"
    using find_break_append [of "b @ ch" _ "concat chs"] by (cases "find_break (b @ ch)") auto
  with Cons.prems Cons.IH [of "b @ ch"] show ?case by (simp add: upgrade_data_def)
qed simp

lemma upgrade_datas_open:
  "runs (upgrade_step expected) (map Ue_data chs) (Up_open st) = (let (st', outs) = ws_datas chs st in (Up_open st', outs))"
  by (induction chs arbitrary: st) (auto simp: upgrade_data_def Let_def split: prod.split)

lemma upgrade_datas_rejected: "runs (upgrade_step expected) (map Ue_data chs) (Up_rejected e) = (Up_rejected e, [])"
  by (induction chs) (simp_all add: upgrade_data_def)

text \<open>The chunk that ends the head splits a run.\<close>

lemma upgrade_datas_head:
  assumes "find_break (b @ concat chs) = Some n" "find_break b = None"
  obtains pre ch post where "chs = pre @ ch # post" "find_break (b @ concat pre @ ch) = Some n"
    "runs (upgrade_step expected) (map Ue_data chs) (Up_reading b) =
       (let (u, o1) = upgrade_head expected (b @ concat pre @ ch) n; (u', o2) = runs (upgrade_step expected) (map Ue_data post) u in (u', o1 @ o2))"
  using assms
proof (induction chs arbitrary: b thesis)
  case (Cons ch chs)
  show ?case
  proof (cases "find_break (b @ ch)")
    case None
    from Cons.prems have "find_break ((b @ ch) @ concat chs) = Some n" by simp
    from Cons.IH [OF _ this None] obtain pre c post where c: "chs = pre @ c # post" "find_break ((b @ ch) @ concat pre @ c) = Some n"
      "runs (upgrade_step expected) (map Ue_data chs) (Up_reading (b @ ch)) =
         (let (u, o1) = upgrade_head expected ((b @ ch) @ concat pre @ c) n; (u', o2) = runs (upgrade_step expected) (map Ue_data post) u
          in (u', o1 @ o2))" by blast
    show ?thesis
      by (rule Cons.prems(1) [of "ch # pre" c post]) (use c None in \<open>simp_all add: upgrade_data_def Let_def split: prod.split\<close>)
  next
    case (Some m)
    then have "m = n" using find_break_append [OF Some, of "concat chs"] Cons.prems(2) by simp
    show ?thesis
      by (rule Cons.prems(1) [of "[]" ch chs]) (use Some \<open>m = n\<close> in \<open>simp_all add: upgrade_data_def Let_def\<close>)
  qed
qed simp

lemma upgrade_head_refused:
  "\<not> (switching (latin1 (take n b)) \<and> accept_of (latin1 (take n b)) = Some expected) \<Longrightarrow>
    \<exists>e. upgrade_head expected b n = (Up_rejected e, [WsDestroy])"
  unfolding upgrade_head_def Let_def by (cases "switching (latin1 (take n b))") simp_all

lemma ws_attach_data:
  assumes "pump ws_decodeFrame ws_is_close c = (fs, r, Waiting)"
  shows "ws_attach c = (let (st, outs) = ws_data c (ws_fresh []) in (Up_open st, outs))"
  using assms by (simp add: ws_attach_def ws_data_def ws_fresh_def Let_def split: prod.split)

section \<open>Properties\<close>


text \<open>A server that closes before its answer is complete is waited for without end.  Whatever part of a
  head has come, the close of the socket settles nothing: the connection is neither open nor refused.\<close>

theorem closed_before_head_waits:
  assumes "find_break (concat chs) = None"
  shows "runs (upgrade_step expected) (map Ue_data chs @ [Ue_close]) (Up_reading []) = (Up_reading (concat chs), [])"
proof -
  have app: "runs step (es @ fs) s = (let (s1, o1) = runs step es s; (s2, o2) = runs step fs s1 in (s2, o1 @ o2))"
    for step :: "upgrade_event \<Rightarrow> upgrade \<Rightarrow> upgrade \<times> ws_out list" and es fs s
    by (induction es arbitrary: s) (simp_all add: Let_def split: prod.split)
  show ?thesis using upgrade_datas_reading [of "[]" chs expected] assms by (simp add: app)
qed

section \<open>An upgrade\<close>

definition sample_head :: "u8 list" where
  "sample_head = map (\<lambda>c. word_of_nat (of_char c)) (''HTTP/1.1 101 X'' @ crlf @ ''Sec-WebSocket-Accept: k'')"

lemma sample_head_read: "latin1 sample_head = ''HTTP/1.1 101 X'' @ crlf @ ''Sec-WebSocket-Accept: k''"
  by code_simp

lemma sample_breaks:
  "find_break (sample_head @ [13, 10, 13, 10, 0x81, 1, 72]) = Some (length sample_head)" "find_break (sample_head @ [13, 10]) = None"
  by (simp_all add: sample_head_def crlf_def)


theorem closed_before_head_waits_witness:
  "runs (upgrade_step ''k'') [Ue_data sample_head, Ue_data [13, 10], Ue_close] (Up_reading []) = (Up_reading (sample_head @ [13, 10]), [])"
  using closed_before_head_waits [of "[sample_head, [13, 10]]" "''k''"] sample_breaks(2) by simp

end
