(* ===== verification/Ids.thy ===== *)
theory Ids
  imports Bytes
begin

unbundle bit_operations_syntax

text \<open>
  \<open>src/util/ids.ts\<close>: the time-ordered identifiers of events, inbound messages, actions and blobs.
  The module's two variables are a state that \<open>uuidV7\<close> takes and returns; the random bytes it draws
  are arguments.
\<close>

record uuid_state =
  us_lastTimestamp :: nat
  us_sequence :: nat

text \<open>The sequence: counted up modulo 4096 within a millisecond, drawn afresh in a new one.\<close>

definition uuid_sequence :: "nat \<Rightarrow> nat \<Rightarrow> uuid_state \<Rightarrow> uuid_state" where
  "uuid_sequence now rand st =
     (if now = us_lastTimestamp st then st\<lparr>us_sequence := (us_sequence st + 1) AND 0x0FFF\<rparr>
      else \<lparr>us_lastTimestamp = now, us_sequence = rand AND 0x0FFF\<rparr>)"

definition uuid_bytes :: "nat \<Rightarrow> nat \<Rightarrow> u8 list \<Rightarrow> u8 list" where
  "uuid_bytes now sq random =
     be_bytes 6 now @
     [word_of_nat (0x70 OR ((drop_bit 8 sq) AND 0x0F)), word_of_nat (sq AND 0xFF),
      0x80 OR ((random ! 8) AND 0x3F)] @ drop 9 random"

definition uuid_text :: "u8 list \<Rightarrow> string" where
  "uuid_text bs = (let hex = hex_bytes bs in
     take 8 hex @ ''-'' @ take 4 (drop 8 hex) @ ''-'' @ take 4 (drop 12 hex) @ ''-'' @
     take 4 (drop 16 hex) @ ''-'' @ drop 20 hex)"

definition uuidV7 :: "nat \<Rightarrow> nat \<Rightarrow> u8 list \<Rightarrow> uuid_state \<Rightarrow> string \<times> uuid_state" where
  "uuidV7 now rand random st =
     (let st' = uuid_sequence now rand st in
      (uuid_text (uuid_bytes now (us_sequence st') random), st'))"

definition prefixedId :: "string \<Rightarrow> nat \<Rightarrow> nat \<Rightarrow> u8 list \<Rightarrow> uuid_state \<Rightarrow> string \<times> uuid_state" where
  "prefixedId prefix now rand random st =
     (let (u, st') = uuidV7 now rand random st in (prefix @ ''_'' @ u, st'))"

section \<open>Lemmas\<close>

lemma and_0xFFF: "(n :: nat) AND 0x0FFF = n mod 4096"
  using take_bit_eq_mask [of 12 n] by (simp add: mask_eq_exp_minus_1 take_bit_eq_mod)

lemma and_0xFF: "(n :: nat) AND 0xFF = n mod 256"
  using take_bit_eq_mask [of 8 n] by (simp add: mask_eq_exp_minus_1 take_bit_eq_mod)

lemma and_0x0F: "(n :: nat) AND 0x0F = n mod 16"
  using take_bit_eq_mask [of 4 n] by (simp add: mask_eq_exp_minus_1 take_bit_eq_mod)

lemma or_0x70: "n < 16 \<Longrightarrow> (0x70 :: nat) OR n = 112 + n"
proof -
  have "\<forall>n\<in>set [0..<16]. (0x70 :: nat) OR n = 112 + n" by code_simp
  then show "n < 16 \<Longrightarrow> (0x70 :: nat) OR n = 112 + n" by simp
qed

lemma uuid_sequence_less [simp]: "us_sequence st < 4096 \<Longrightarrow> us_sequence (uuid_sequence now rand st) < 4096"
  by (simp add: uuid_sequence_def and_0xFFF)

lemma length_uuid_bytes: "length random = 16 \<Longrightarrow> length (uuid_bytes now sq random) = 16"
  by (simp add: uuid_bytes_def)

lemma uuid_text_inj:
  assumes "length xs = 16" "length ys = 16"
  shows "uuid_text xs = uuid_text ys \<longleftrightarrow> xs = ys"
proof
  assume eq: "uuid_text xs = uuid_text ys"
  have split: "h = take 8 h @ take 4 (drop 8 h) @ take 4 (drop 12 h) @ take 4 (drop 16 h) @ drop 20 h"
    for h :: string
    using take_add [of 8 4 h] take_add [of 12 4 h] take_add [of 16 4 h] append_take_drop_id [of 20 h]
    by simp
  have "take 8 (hex_bytes xs) = take 8 (hex_bytes ys)" "take 4 (drop 8 (hex_bytes xs)) = take 4 (drop 8 (hex_bytes ys))"
    "take 4 (drop 12 (hex_bytes xs)) = take 4 (drop 12 (hex_bytes ys))"
    "take 4 (drop 16 (hex_bytes xs)) = take 4 (drop 16 (hex_bytes ys))"
    "drop 20 (hex_bytes xs) = drop 20 (hex_bytes ys)"
    using eq assms by (simp_all add: uuid_text_def Let_def)
  then have "hex_bytes xs = hex_bytes ys" by (metis split)
  then show "xs = ys" by (simp add: hex_bytes_inj)
qed simp

lemma uuid_head:
  assumes "sq < 4096"
  shows "be_value (take 8 (uuid_bytes now sq random)) = (now mod 2 ^ 48) * 65536 + 28672 + sq"
proof -
  have hi: "sq div 256 < 16" using assms by simp
  then have "unat (word_of_nat (0x70 OR ((drop_bit 8 sq) AND 0x0F)) :: u8) = 112 + sq div 256"
    by (simp add: and_0x0F drop_bit_eq_div or_0x70 unat_of_nat del: of_nat_add)
  moreover have "unat (word_of_nat (sq AND 0xFF) :: u8) = sq mod 256"
    by (simp add: and_0xFF unat_of_nat)
  moreover have "(112 + sq div 256) * 256 + sq mod 256 = 28672 + sq" by simp
  ultimately have "be_value [word_of_nat (0x70 OR ((drop_bit 8 sq) AND 0x0F)), word_of_nat (sq AND 0xFF)] =
      28672 + sq"
    by (simp add: be_value_def)
  moreover have "take 8 (uuid_bytes now sq random) =
      be_bytes 6 now @ [word_of_nat (0x70 OR ((drop_bit 8 sq) AND 0x0F)), word_of_nat (sq AND 0xFF)]"
    by (simp add: uuid_bytes_def)
  ultimately show ?thesis by (simp add: be_value_append be_value_be_bytes_mod)
qed

section \<open>Properties\<close>

text \<open>An identifier made later is new and sorts later, whatever the random bytes are.  While the
  clock does not run back and the sequence does not wrap, two calls in a row give different texts,
  and the leading 64 bits, which the text begins with, grow strictly.\<close>

theorem uuidV7_time_ordered:
  assumes "uuidV7 now rand random st = (u, st1)" "uuidV7 now' rand' random' st1 = (u', st2)"
    and "now \<le> now'" "now' < 2 ^ 48" "us_sequence st < 4096" "us_sequence st1 < 4095"
    and "length random = 16" "length random' = 16"
  shows "u \<noteq> u' \<and> be_value (take 8 (uuid_bytes now (us_sequence st1) random)) <
    be_value (take 8 (uuid_bytes now' (us_sequence st2) random'))"
proof -
  from assms(1) have st1: "us_lastTimestamp st1 = now" "u = uuid_text (uuid_bytes now (us_sequence st1) random)"
    by (auto simp: uuidV7_def uuid_sequence_def Let_def split: if_splits)
  from assms(2) have st2: "st2 = uuid_sequence now' rand' st1"
    "u' = uuid_text (uuid_bytes now' (us_sequence st2) random')"
    by (auto simp: uuidV7_def Let_def)
  have small: "us_sequence st2 < 4096" using st2(1) assms(6) by simp
  have less: "be_value (take 8 (uuid_bytes now (us_sequence st1) random)) <
      be_value (take 8 (uuid_bytes now' (us_sequence st2) random'))"
  proof (cases "now = now'")
    case True
    with st1 st2 assms(6) have "us_sequence st2 = us_sequence st1 + 1"
      by (simp add: uuid_sequence_def and_0xFFF)
    with True assms(6) show ?thesis by (simp add: uuid_head)
  next
    case False
    with assms(3,4) have "now mod 2 ^ 48 < now' mod 2 ^ 48" by simp
    with small assms(6) show ?thesis by (simp add: uuid_head)
  qed
  then have "uuid_bytes now (us_sequence st1) random \<noteq> uuid_bytes now' (us_sequence st2) random'"
    by auto
  with st1 st2 less assms(7,8) show ?thesis by (simp add: uuid_text_inj length_uuid_bytes)
qed

theorem uuidV7_time_ordered_witness:
  "fst (uuidV7 1000 7 (replicate 16 0) \<lparr>us_lastTimestamp = 0, us_sequence = 0\<rparr>) \<noteq>
   fst (uuidV7 1000 9 (replicate 16 0) \<lparr>us_lastTimestamp = 1000, us_sequence = 7\<rparr>)"
  by (rule conjunct1 [OF uuidV7_time_ordered [where now = 1000 and now' = 1000 and rand = 7 and rand' = 9 and
        random = "replicate 16 0" and random' = "replicate 16 0" and
        st = "\<lparr>us_lastTimestamp = 0, us_sequence = 0\<rparr>" and
        ?st1.0 = "\<lparr>us_lastTimestamp = 1000, us_sequence = 7\<rparr>" and
        ?st2.0 = "\<lparr>us_lastTimestamp = 1000, us_sequence = 8\<rparr>"]])
    (simp_all add: uuidV7_def uuid_sequence_def Let_def and_0xFFF)

end
