(* ===== verification/Registration.thy ===== *)
theory Registration
  imports Errors
begin

text \<open>
  \<open>src/channel-rpc/registration.ts\<close>: the handshake of a channel driver with its lane socket.
\<close>

record channel_registration =
  cr_protocolVersion :: string
  cr_laneId :: string
  cr_driverInstanceId :: string
  cr_provider :: string
  cr_accountRef :: string
  cr_stagingRoot :: string
  cr_capabilities :: "string list"

record channel_registration_result =
  rr_protocol_version :: string
  rr_max_frame_bytes :: nat
  rr_max_attachment_bytes :: nat
  rr_max_attachments_per_event :: nat
  rr_max_attachment_total_bytes :: nat
  rr_capabilities :: "string list"

definition requireString :: "json \<Rightarrow> string \<Rightarrow> exn + string" where
  "requireString params key =
     (case jstr (jfield params key) of
        None \<Rightarrow> Inl (throw_rpc_close (-32602) ''INVALID_PARAMS'' (''channel.register requires '' @ key))
      | Some s \<Rightarrow>
          if s = [] then Inl (throw_rpc_close (-32602) ''INVALID_PARAMS'' (''channel.register requires '' @ key))
          else Inr s)"

text \<open>\<open>isAbsolute\<close> of POSIX paths.\<close>

fun isAbsolute :: "string \<Rightarrow> bool" where
  "isAbsolute [] = False"
| "isAbsolute (c # cs) = (c = CHR ''/'')"

text \<open>The capability array: every entry a non-empty string, none twice.\<close>

definition capability_list :: "json \<Rightarrow> string list option" where
  "capability_list params =
     (case jarr (jfield params ''capabilities'') of
        None \<Rightarrow> None
      | Some vs \<Rightarrow>
          if (\<forall>v\<in>set vs. case jstr (Some v) of Some s \<Rightarrow> s \<noteq> [] | None \<Rightarrow> False)
             \<and> length (remdups (List.map_filter (\<lambda>v. jstr (Some v)) vs)) = length vs
          then Some (List.map_filter (\<lambda>v. jstr (Some v)) vs) else None)"

definition parseRegistration ::
  "json \<Rightarrow> string \<Rightarrow> string list \<Rightarrow> exn + channel_registration \<times> channel_registration_result"
where
  "parseRegistration params expectedLaneId supportedCapabilities =
     sbind (require (is_record params)
       (throw_rpc_close (-32602) ''INVALID_PARAMS'' ''channel.register params must be an object'')) (\<lambda>_.
     sbind (requireString params ''protocol_version'') (\<lambda>protocolVersion.
     sbind (require (protocolVersion = LOCAL_CHANNEL_PROTOCOL_VERSION)
       (throw_rpc_close (CHANNEL_ERROR_CODES PROTOCOL_UNSUPPORTED) ''CHANNEL_PROTOCOL_UNSUPPORTED''
         (''Unsupported channel protocol version: '' @ protocolVersion))) (\<lambda>_.
     sbind (requireString params ''lane_id'') (\<lambda>laneId.
     sbind (require (laneId = expectedLaneId)
       (throw_rpc_close (-32602) ''LANE_MISMATCH'' ''Registered lane does not match socket lane'')) (\<lambda>_.
     sbind (requireString params ''staging_root'') (\<lambda>stagingRoot.
     sbind (require (isAbsolute stagingRoot)
       (throw_rpc_close (-32602) ''INVALID_PARAMS'' ''staging_root must be an absolute path'')) (\<lambda>_.
     (case capability_list params of
        None \<Rightarrow> Inl (throw_rpc_close (-32602) ''INVALID_PARAMS''
                  ''capabilities must be a unique array of non-empty strings'')
      | Some requested \<Rightarrow>
          (let capabilities = filter (\<lambda>c. c \<in> set supportedCapabilities) requested in
           sbind (requireString params ''driver_instance_id'') (\<lambda>driverInstanceId.
           sbind (requireString params ''provider'') (\<lambda>provider.
           sbind (requireString params ''account_ref'') (\<lambda>accountRef.
           Inr (\<lparr>cr_protocolVersion = LOCAL_CHANNEL_PROTOCOL_VERSION, cr_laneId = laneId,
                 cr_driverInstanceId = driverInstanceId, cr_provider = provider,
                 cr_accountRef = accountRef, cr_stagingRoot = stagingRoot,
                 cr_capabilities = capabilities\<rparr>,
                \<lparr>rr_protocol_version = LOCAL_CHANNEL_PROTOCOL_VERSION,
                 rr_max_frame_bytes = MAX_FRAME_BYTES,
                 rr_max_attachment_bytes = MAX_ATTACHMENT_BYTES,
                 rr_max_attachments_per_event = MAX_ATTACHMENTS_PER_EVENT,
                 rr_max_attachment_total_bytes = MAX_ATTACHMENT_TOTAL_BYTES,
                 rr_capabilities = capabilities\<rparr>)))))))))))))"

section \<open>Lemmas\<close>

lemma requireString_InrD: "requireString p k = Inr s \<Longrightarrow> jfield p k = Some (JStr s) \<and> s \<noteq> []"
  by (auto simp: requireString_def json_simps split: option.splits if_splits)

lemma requireString_Inl:
  "requireString p k = Inl e \<Longrightarrow>
   e = throw_rpc_close (-32602) ''INVALID_PARAMS'' (''channel.register requires '' @ k)"
  by (auto simp: requireString_def split: option.splits if_splits)

lemma capability_list_distinct:
  assumes "capability_list p = Some cs"
  shows "distinct cs \<and> [] \<notin> set cs"
proof -
  from assms obtain vs where vs: "jarr (jfield p ''capabilities'') = Some vs"
    by (cases "jarr (jfield p ''capabilities'')") (auto simp: capability_list_def)
  with assms have strings: "\<forall>v\<in>set vs. case jstr (Some v) of Some s \<Rightarrow> s \<noteq> [] | None \<Rightarrow> False"
    and len: "length (remdups cs) = length vs" and cs: "cs = List.map_filter (\<lambda>v. jstr (Some v)) vs"
    by (auto simp: capability_list_def split: if_splits)
  have "length cs \<le> length vs" unfolding cs map_filter_def by simp
  with len have "length (remdups cs) = length cs" by (metis length_remdups_leq order_antisym)
  then have "distinct cs" by (metis length_remdups_eq distinct_remdups)
  moreover have "[] \<notin> set cs"
    using strings by (auto simp: cs map_filter_def split: option.splits)
  ultimately show ?thesis ..
qed

lemmas registration_defs =
  parseRegistration_def result_simps Let_def

lemma parseRegistration_InrD:
  assumes "parseRegistration p lane supported = Inr (reg, res)"
  shows "cr_laneId reg = lane" "jfield p ''lane_id'' = Some (JStr lane)"
    "jfield p ''protocol_version'' = Some (JStr LOCAL_CHANNEL_PROTOCOL_VERSION)"
    "isAbsolute (cr_stagingRoot reg)" "rr_capabilities res = cr_capabilities reg"
    "\<exists>requested. capability_list p = Some requested \<and>
       cr_capabilities reg = filter (\<lambda>c. c \<in> set supported) requested"
    "cr_driverInstanceId reg \<noteq> []"
  using assms
  by (auto simp: registration_defs dest!: requireString_InrD split: option.splits)

text \<open>Every way the handshake fails is an RPC error that closes the connection.\<close>

definition closes_connection :: "exn \<Rightarrow> bool" where
  "closes_connection e =
     (case e of ChannelRpcError r \<Rightarrow> ce_close_connection r \<and> \<not> ce_retryable r | _ \<Rightarrow> False)"

lemma closes_throw [simp]: "closes_connection (throw_rpc_close c d m)"
  by (simp add: closes_connection_def throw_rpc_close_def channel_rpc_error_of_def)

lemma closes_requireString: "requireString p k = Inl e \<Longrightarrow> closes_connection e"
  by (auto dest: requireString_Inl)

lemma parseRegistration_InlD:
  assumes "parseRegistration p lane supported = Inl e"
  shows "closes_connection e"
  using assms unfolding parseRegistration_def
  by (elim sbind_InlE) (auto simp: require_eq_Inl Let_def elim!: sbind_InlE split: option.splits
      intro: closes_requireString)

section \<open>Properties\<close>

text \<open>The handshake is decided by its fields.  A registration is accepted only for the lane
  the socket serves, in the supported protocol version, with an absolute staging root; the
  capabilities granted are distinct and are those asked for that the server supports; and a
  refusal is always an RPC error that closes the connection.\<close>

theorem parseRegistration_correct:
  "case parseRegistration p lane supported of
     Inr (reg, res) \<Rightarrow>
       cr_laneId reg = lane \<and> jfield p ''lane_id'' = Some (JStr lane) \<and>
       jfield p ''protocol_version'' = Some (JStr LOCAL_CHANNEL_PROTOCOL_VERSION) \<and>
       isAbsolute (cr_stagingRoot reg) \<and> cr_driverInstanceId reg \<noteq> [] \<and>
       rr_capabilities res = cr_capabilities reg \<and>
       distinct (cr_capabilities reg) \<and> set (cr_capabilities reg) \<subseteq> set supported \<and>
       set (cr_capabilities reg) = {c \<in> set (the (capability_list p)). c \<in> set supported}
   | Inl e \<Rightarrow> closes_connection e"
proof (cases "parseRegistration p lane supported")
  case (Inl e)
  then show ?thesis using parseRegistration_InlD [OF Inl] by simp
next
  case (Inr x)
  obtain reg res where x: "x = (reg, res)" by (cases x)
  note d = parseRegistration_InrD [OF Inr [unfolded x]]
  from d(6) obtain requested where rq: "capability_list p = Some requested"
    "cr_capabilities reg = filter (\<lambda>c. c \<in> set supported) requested" by blast
  from capability_list_distinct [OF rq(1)] d rq Inr x show ?thesis by auto
qed

end
