(* ===== verification/Blob_Spool.thy ===== *)
theory Blob_Spool
  imports Errors Registration
begin

text \<open>
  \<open>src/outbox/types.ts\<close> and \<open>src/outbox/blob-spool.ts\<close>: the staged attachments of an event, the
  checks on them and the content-addressed spool they are copied into.

  A path that \<open>realpath\<close> returned is the list of its segments.  What the file system answers during
  one \<open>ingest\<close> is a \<open>source_view\<close>, one field per call in the order the code makes them, each of
  which may be an exception.  The spool maps blob keys to file contents; the shard directory is a
  function of the key.  SHA-256 and \<open>normalizeExtension\<close> of the contracts package are arguments.
\<close>

record staged_attachment =
  sa_attachment_id :: string
  sa_filename :: string
  sa_media_type :: string
  sa_size :: rat
  sa_sha256 :: string
  sa_local_path :: string

record stored_blob =
  bl_blobKey :: string
  bl_sha256 :: string
  bl_normalizedExtension :: string
  bl_size :: rat
  bl_spoolPath :: "string list"
  bl_localRefCount :: int
  bl_hubConfirmed :: bool
  bl_hubBlobKey :: "string option"

section \<open>Checks on the attachments of an event\<close>

definition lower_hex :: "char \<Rightarrow> bool" where
  "lower_hex c = (c \<in> set ''0123456789abcdef'')"

definition sha256_shape :: "string \<Rightarrow> bool" where
  "sha256_shape s = (length s = 64 \<and> list_all lower_hex s)"

definition check_attachment :: "staged_attachment \<Rightarrow> exn + unit" where
  "check_attachment a =
     sbind (require (safe_integer (sa_size a) \<and> \<not> sa_size a < 0)
       (AttachmentValidationError ''Attachment size must be a non-negative integer'')) (\<lambda>_.
     sbind (require (\<not> sa_size a > of_nat MAX_ATTACHMENT_BYTES)
       (AttachmentValidationError (''Attachment exceeds '' @ js_int (int MAX_ATTACHMENT_BYTES) @
          '' bytes: '' @ sa_filename a))) (\<lambda>_.
     require (sha256_shape (sa_sha256 a))
       (AttachmentValidationError ''Attachment sha256 must be lowercase hex'')))"

fun check_attachments :: "staged_attachment list \<Rightarrow> rat \<Rightarrow> exn + rat" where
  "check_attachments [] acc = Inr acc"
| "check_attachments (a # as) acc =
     sbind (check_attachment a) (\<lambda>_. check_attachments as (acc + sa_size a))"

definition validateAttachmentSet :: "staged_attachment list \<Rightarrow> exn + unit" where
  "validateAttachmentSet attachments =
     sbind (require (\<not> length attachments > MAX_ATTACHMENTS_PER_EVENT)
       (AttachmentValidationError (''Attachment count exceeds '' @ js_int (int MAX_ATTACHMENTS_PER_EVENT)))) (\<lambda>_.
     sbind (check_attachments attachments 0) (\<lambda>sz.
     require (\<not> sz > of_nat MAX_ATTACHMENT_TOTAL_BYTES)
       (AttachmentValidationError (''Attachment total exceeds '' @
          js_int (int MAX_ATTACHMENT_TOTAL_BYTES) @ '' bytes''))))"

section \<open>Staying inside the staging root\<close>

type_synonym path = "string list"

definition path_ok :: "path \<Rightarrow> bool" where
  "path_ok p = (\<forall>seg\<in>set p. seg \<noteq> [] \<and> CHR ''/'' \<notin> set seg \<and> seg \<noteq> ''.'' \<and> seg \<noteq> ''..'')"

fun strip_common :: "path \<Rightarrow> path \<Rightarrow> path \<times> path" where
  "strip_common (r # rs) (c # cs) = (if r = c then strip_common rs cs else (r # rs, c # cs))"
| "strip_common rs cs = (rs, cs)"

fun join_path :: "path \<Rightarrow> string" where
  "join_path [] = []"
| "join_path [s] = s"
| "join_path (s # ss) = s @ ''/'' @ join_path ss"

text \<open>\<open>path.relative\<close> on normalised absolute paths.\<close>

definition relative_path :: "path \<Rightarrow> path \<Rightarrow> string" where
  "relative_path base candidate =
     (let (up, down) = strip_common base candidate in join_path (map (\<lambda>_. ''..'') up @ down))"

definition starts_dotdot :: "string \<Rightarrow> bool" where
  "starts_dotdot s = (take 2 s = ''..'')"

definition assertWithinRoot :: "path \<Rightarrow> path \<Rightarrow> exn + unit" where
  "assertWithinRoot base candidate =
     (let pathFromRoot = relative_path base candidate in
      if pathFromRoot = [] \<or> (\<not> starts_dotdot pathFromRoot \<and> \<not> isAbsolute pathFromRoot)
      then Inr ()
      else Inl (AttachmentValidationError ''Attachment path escapes registered staging_root''))"

section \<open>Ingest\<close>

record source_view =
  sv_root :: "exn + path"
  sv_requestedLstat :: "exn + bool"
  sv_source :: "exn + path"
  sv_sourceLstat :: "exn + bool \<times> bool"
  sv_open :: "exn + unit"
  sv_openTemporary :: "exn + unit"
  sv_openedStat :: "exn + bool"
  sv_reads :: "(exn + string) list"
  sv_syncTemporary :: "exn + unit"
  sv_mkdirShard :: "exn + unit"
  sv_linkFault :: "exn + unit"
  sv_existingStat :: "exn + bool"
  sv_syncShard :: "exn + unit"
  sv_unlinkTemporary :: "exn + unit"
  sv_syncDirectory :: "exn + unit"

record blob_spool =
  sp_blobs :: "(string \<times> string) list"
  sp_tmp :: "string list"

record digest_ops =
  dg_sha256 :: "string \<Rightarrow> string"
  dg_normalizeExtension :: "string \<Rightarrow> string"

text \<open>The copy loop: a read of no bytes is the end of the file.\<close>

fun copy_loop :: "(exn + string) list \<Rightarrow> string \<Rightarrow> exn + string" where
  "copy_loop [] acc = Inr acc"
| "copy_loop (Inl e # rs) acc = Inl e"
| "copy_loop (Inr chunk # rs) acc =
     (if chunk = [] then Inr acc
      else if length (acc @ chunk) > MAX_ATTACHMENT_BYTES
      then Inl (AttachmentValidationError ''Attachment grew beyond the 100 MiB limit'')
      else copy_loop rs (acc @ chunk))"

text \<open>Up to and with the copy into the temporary file, which is removed when the copy fails.\<close>

definition ingest_open :: "source_view \<Rightarrow> exn + unit" where
  "ingest_open v =
     sbind (sv_root v) (\<lambda>base.
     sbind (sv_requestedLstat v) (\<lambda>link.
     sbind (require (\<not> link) (AttachmentValidationError ''Attachment must not be a symlink'')) (\<lambda>_.
     sbind (sv_source v) (\<lambda>source.
     sbind (assertWithinRoot base source) (\<lambda>_.
     sbind (sv_sourceLstat v) (\<lambda>(isFile, isLink).
     sbind (require (isFile \<and> \<not> isLink)
       (AttachmentValidationError ''Attachment must be a non-symlink regular file'')) (\<lambda>_.
     sbind (sv_open v) (\<lambda>_.
     sv_openTemporary v))))))))"

definition ingest_copy :: "source_view \<Rightarrow> exn + string" where
  "ingest_copy v =
     sbind (sv_openedStat v) (\<lambda>isFile.
     sbind (require isFile (AttachmentValidationError ''Opened attachment is not a regular file'')) (\<lambda>_.
     sbind (copy_loop (sv_reads v) []) (\<lambda>bytes.
     sbind (sv_syncTemporary v) (\<lambda>_. Inr bytes))))"

definition blob_path :: "string \<Rightarrow> string \<Rightarrow> path" where
  "blob_path digest blobKey = [''blobs'', take 2 digest, blobKey]"

text \<open>Publishing the copy under its content key.  \<open>link\<close> never replaces: an existing file is
  kept and only its size compared.  \<open>rm\<close> is the removal of the temporary file.\<close>

definition ingest_publish ::
  "source_view \<Rightarrow> string \<Rightarrow> string \<Rightarrow> string \<Rightarrow> blob_spool \<Rightarrow> (exn + unit) \<times> blob_spool"
where
  "ingest_publish v tmp blobKey bytes sp =
     (let rm = (\<lambda>s. s\<lparr>sp_tmp := removeAll tmp (sp_tmp s)\<rparr>) in
      case sv_mkdirShard v of
        Inl e \<Rightarrow> (Inl e, sp)
      | Inr _ \<Rightarrow>
          (case sv_linkFault v of
             Inl e \<Rightarrow> (Inl e, rm sp)
           | Inr _ \<Rightarrow>
               (case map_of (sp_blobs sp) blobKey of
                  Some existing \<Rightarrow>
                    (case sv_existingStat v of
                       Inl e \<Rightarrow> (Inl e, sp)
                     | Inr isFile \<Rightarrow>
                         if \<not> isFile \<or> length existing \<noteq> length bytes
                         then (Inl (AttachmentValidationError ''Existing Blob conflicts with content key''), rm sp)
                         else (Inr (), sp))
                | None \<Rightarrow>
                    (let linked = sp\<lparr>sp_blobs := (blobKey, bytes) # sp_blobs sp\<rparr> in
                     case sv_syncShard v of
                       Inl e \<Rightarrow> (Inl e, rm linked)
                     | Inr _ \<Rightarrow> (Inr (), linked)))))"

definition ingest ::
  "digest_ops \<Rightarrow> source_view \<Rightarrow> string \<Rightarrow> staged_attachment \<Rightarrow> blob_spool \<Rightarrow>
   (exn + stored_blob) \<times> blob_spool"
where
  "ingest dg v tmp attachment sp =
     (case ingest_open v of
        Inl e \<Rightarrow> (Inl e, sp)
      | Inr _ \<Rightarrow>
          (case ingest_copy v of
             Inl e \<Rightarrow> (Inl e, sp)
           | Inr bytes \<Rightarrow>
               (let sp1 = sp\<lparr>sp_tmp := tmp # sp_tmp sp\<rparr>;
                    digest = dg_sha256 dg bytes;
                    rm = (\<lambda>s. s\<lparr>sp_tmp := removeAll tmp (sp_tmp s)\<rparr>) in
                if of_nat (length bytes) \<noteq> sa_size attachment \<or> digest \<noteq> sa_sha256 attachment
                then (Inl (AttachmentValidationError ''Attachment size or sha256 changed during ingest''), rm sp1)
                else
                  (let ext = dg_normalizeExtension dg (sa_filename attachment);
                       blobKey = digest @ ext in
                   case ingest_publish v tmp blobKey bytes sp1 of
                     (Inl e, sp2) \<Rightarrow> (Inl e, sp2)
                   | (Inr _, sp2) \<Rightarrow>
                       (case sv_unlinkTemporary v of
                          Inl e \<Rightarrow> (Inl e, sp2)
                        | Inr _ \<Rightarrow>
                            (case sv_syncDirectory v of
                               Inl e \<Rightarrow> (Inl e, rm sp2)
                             | Inr _ \<Rightarrow>
                                 (Inr \<lparr>bl_blobKey = blobKey, bl_sha256 = digest,
                                       bl_normalizedExtension = ext, bl_size = of_nat (length bytes),
                                       bl_spoolPath = blob_path digest blobKey, bl_localRefCount = 0,
                                       bl_hubConfirmed = False, bl_hubBlobKey = None\<rparr>, rm sp2)))))))"

section \<open>Lemmas on the checks\<close>

lemma check_attachment_Inr:
  "check_attachment a = Inr u \<longleftrightarrow>
     safe_integer (sa_size a) \<and> 0 \<le> sa_size a \<and> sa_size a \<le> of_nat MAX_ATTACHMENT_BYTES \<and>
     sha256_shape (sa_sha256 a)"
  by (auto simp: check_attachment_def result_simps)

lemma check_attachments_Inr:
  "check_attachments as t = Inr t' \<longleftrightarrow>
     (\<forall>a\<in>set as. check_attachment a = Inr ()) \<and> t' = t + sum_list (map sa_size as)"
  by (induction as arbitrary: t) (auto simp: result_simps algebra_simps)

lemma validateAttachmentSet_Inr:
  "validateAttachmentSet as = Inr u \<longleftrightarrow>
     length as \<le> MAX_ATTACHMENTS_PER_EVENT \<and> (\<forall>a\<in>set as. check_attachment a = Inr ()) \<and>
     sum_list (map sa_size as) \<le> of_nat MAX_ATTACHMENT_TOTAL_BYTES"
  by (auto simp: validateAttachmentSet_def result_simps check_attachments_Inr)

lemma check_attachment_error: "check_attachment a = Inl e \<Longrightarrow> \<exists>m. e = AttachmentValidationError m"
  by (auto simp: check_attachment_def result_simps)

lemma check_attachments_error: "check_attachments as t = Inl e \<Longrightarrow> \<exists>m. e = AttachmentValidationError m"
  by (induction as arbitrary: t) (auto simp: result_simps dest: check_attachment_error)

lemma validateAttachmentSet_error:
  "validateAttachmentSet as = Inl e \<Longrightarrow> \<exists>m. e = AttachmentValidationError m"
  by (auto simp: validateAttachmentSet_def result_simps dest: check_attachments_error)

section \<open>Lemmas on paths\<close>

lemma strip_common_append: "strip_common base (base @ extra) = ([], extra)"
  by (induction base) auto

lemma strip_common_prefix: "strip_common r c = (up, down) \<Longrightarrow> \<exists>pre. r = pre @ up \<and> c = pre @ down"
  by (induction r c arbitrary: up down rule: strip_common.induct) (auto split: if_splits intro: exI [of _ "_ # _"])

lemma starts_dotdot_join:
  assumes "s \<noteq> []" "CHR ''/'' \<notin> set s"
  shows "starts_dotdot (join_path (s # ss)) \<longleftrightarrow> starts_dotdot s"
  using assms
  by (cases s; cases "tl s"; cases ss) (auto simp: starts_dotdot_def)

lemma join_path_Nil: "\<forall>s\<in>set p. s \<noteq> [] \<Longrightarrow> join_path p = [] \<longleftrightarrow> p = []"
  by (cases p rule: join_path.cases) auto

lemma join_path_relative: "\<forall>s\<in>set p. s \<noteq> [] \<and> CHR ''/'' \<notin> set s \<Longrightarrow> \<not> isAbsolute (join_path p)"
proof (cases p rule: join_path.cases)
  case (2 s)
  then show "\<forall>s\<in>set p. s \<noteq> [] \<and> CHR ''/'' \<notin> set s \<Longrightarrow> ?thesis" by (cases s) auto
next
  case (3 s t ts)
  then show "\<forall>s\<in>set p. s \<noteq> [] \<and> CHR ''/'' \<notin> set s \<Longrightarrow> ?thesis" by (cases s) auto
qed simp

lemma assertWithinRoot_Inr:
  assumes "path_ok candidate"
  shows "assertWithinRoot base candidate = Inr () \<longleftrightarrow>
    (\<exists>extra. candidate = base @ extra \<and> (extra = [] \<or> \<not> starts_dotdot (hd extra)))"
proof -
  obtain up down where sc: "strip_common base candidate = (up, down)"
    by (cases "strip_common base candidate")
  then obtain pre where pre: "base = pre @ up" "candidate = pre @ down"
    using strip_common_prefix by blast
  from assms pre(2) have segs: "\<forall>s\<in>set down. s \<noteq> [] \<and> CHR ''/'' \<notin> set s"
    by (auto simp: path_ok_def)
  show ?thesis
  proof (cases up)
    case Nil
    with pre have cand: "candidate = base @ down" by simp
    have rel: "relative_path base candidate = join_path down" using sc Nil by (simp add: relative_path_def)
    have "join_path down = [] \<longleftrightarrow> down = []" using segs by (intro join_path_Nil) auto
    moreover have "down \<noteq> [] \<Longrightarrow> starts_dotdot (join_path down) \<longleftrightarrow> starts_dotdot (hd down)"
      using segs by (cases down) (auto simp: starts_dotdot_join)
    moreover have "assertWithinRoot base candidate = Inr () \<longleftrightarrow>
        join_path down = [] \<or> \<not> starts_dotdot (join_path down)"
      using join_path_relative [OF segs] by (simp add: assertWithinRoot_def Let_def rel)
    ultimately show ?thesis using cand by auto
  next
    case (Cons u us)
    have no: "candidate \<noteq> base @ extra" for extra
    proof
      assume "candidate = base @ extra"
      with sc strip_common_append [of base extra] Cons show False by simp
    qed
    have "relative_path base candidate = join_path (''..'' # map (\<lambda>_. ''..'') us @ down)"
      using sc Cons by (simp add: relative_path_def)
    moreover have "starts_dotdot (join_path (''..'' # map (\<lambda>_. ''..'') us @ down))"
      by (subst starts_dotdot_join) (auto simp: starts_dotdot_def)
    moreover from this have "join_path (''..'' # map (\<lambda>_. ''..'') us @ down) \<noteq> []"
      by (auto simp: starts_dotdot_def)
    ultimately show ?thesis using no by (simp add: assertWithinRoot_def)
  qed
qed

section \<open>The spool invariant\<close>

text \<open>Every file of the spool is named by the digest of its bytes and an extension, and no name
  occurs twice.\<close>

definition spool_ok :: "digest_ops \<Rightarrow> blob_spool \<Rightarrow> bool" where
  "spool_ok dg sp =
     (distinct (map fst (sp_blobs sp)) \<and>
      (\<forall>(key, bytes)\<in>set (sp_blobs sp). \<exists>ext. key = dg_sha256 dg bytes @ ext))"

lemma spool_ok_insert:
  "spool_ok dg sp \<Longrightarrow> map_of (sp_blobs sp) (dg_sha256 dg bytes @ ext) = None \<Longrightarrow>
   spool_ok dg (sp\<lparr>sp_blobs := (dg_sha256 dg bytes @ ext, bytes) # sp_blobs sp\<rparr>)"
  by (auto simp: spool_ok_def map_of_eq_None_iff)

lemma spool_ok_tmp [simp]: "spool_ok dg (sp\<lparr>sp_tmp := t\<rparr>) = spool_ok dg sp"
  by (simp add: spool_ok_def)

lemma ingest_publish_blobs:
  assumes "ingest_publish v tmp key bytes sp = (r, sp')"
  shows "sp_blobs sp' = sp_blobs sp \<or>
    map_of (sp_blobs sp) key = None \<and> sp_blobs sp' = (key, bytes) # sp_blobs sp"
  using assms by (auto simp: ingest_publish_def Let_def split: sum.splits option.splits if_splits)

lemma ingest_publish_Inr:
  assumes "ingest_publish v tmp key bytes sp = (Inr u, sp')"
  shows "\<exists>stored. map_of (sp_blobs sp') key = Some stored \<and> length stored = length bytes"
  using assms by (auto simp: ingest_publish_def Let_def split: sum.splits option.splits if_splits)

text \<open>The shape of \<open>ingest\<close>: either the spool's files are as before, or the copy was published under
  its key.\<close>

lemma ingest_blobs:
  assumes "ingest dg v tmp a sp = (r, sp')"
  shows "sp_blobs sp' = sp_blobs sp \<or>
    (\<exists>bytes ext. map_of (sp_blobs sp) (dg_sha256 dg bytes @ ext) = None \<and>
       sp_blobs sp' = (dg_sha256 dg bytes @ ext, bytes) # sp_blobs sp)"
proof (cases "ingest_open v")
  case (Inl e)
  with assms show ?thesis by (simp add: ingest_def)
next
  case op: (Inr u)
  show ?thesis
  proof (cases "ingest_copy v")
    case (Inl e)
    with op assms show ?thesis by (simp add: ingest_def)
  next
    case (Inr bytes)
    let ?key = "dg_sha256 dg bytes @ dg_normalizeExtension dg (sa_filename a)"
    obtain q s where pub: "ingest_publish v tmp ?key bytes (sp\<lparr>sp_tmp := tmp # sp_tmp sp\<rparr>) = (q, s)"
      by (cases "ingest_publish v tmp ?key bytes (sp\<lparr>sp_tmp := tmp # sp_tmp sp\<rparr>)")
    have "sp_blobs sp' = sp_blobs sp \<or> sp_blobs sp' = sp_blobs s"
      using assms op Inr pub by (auto simp: ingest_def Let_def split: sum.splits if_splits)
    with ingest_publish_blobs [OF pub] show ?thesis by auto
  qed
qed

lemma spool_ok_ingest:
  assumes "spool_ok dg sp" "ingest dg v tmp a sp = (r, sp')"
  shows "spool_ok dg sp'"
  using ingest_blobs [OF assms(2)] assms(1)
  by (auto simp: spool_ok_def map_of_eq_None_iff)

lemma ingest_keeps:
  assumes "ingest dg v tmp a sp = (r, sp')" "map_of (sp_blobs sp) k = Some bytes"
  shows "map_of (sp_blobs sp') k = Some bytes"
  using ingest_blobs [OF assms(1)] assms(2) by auto

lemma ingest_InrD:
  assumes "ingest dg v tmp a sp = (Inr b, sp')"
  shows "bl_sha256 b = sa_sha256 a" "bl_size b = sa_size a"
    "bl_blobKey b = sa_sha256 a @ dg_normalizeExtension dg (sa_filename a)"
    "\<exists>stored. map_of (sp_blobs sp') (bl_blobKey b) = Some stored \<and> of_nat (length stored) = sa_size a"
    "\<exists>base source. sv_root v = Inr base \<and> sv_source v = Inr source \<and> assertWithinRoot base source = Inr ()"
    "bl_localRefCount b = 0" "\<not> bl_hubConfirmed b" "bl_hubBlobKey b = None"
proof -
  from assms obtain bytes where op: "ingest_open v = Inr ()" and cp: "ingest_copy v = Inr bytes"
    by (auto simp: ingest_def split: sum.splits)
  let ?key = "sa_sha256 a @ dg_normalizeExtension dg (sa_filename a)"
  have eqs: "of_nat (length bytes) = sa_size a" "dg_sha256 dg bytes = sa_sha256 a"
    using assms op cp by (auto simp: ingest_def Let_def split: if_splits)
  obtain q s where pub0: "ingest_publish v tmp ?key bytes (sp\<lparr>sp_tmp := tmp # sp_tmp sp\<rparr>) = (q, s)"
    by (cases "ingest_publish v tmp ?key bytes (sp\<lparr>sp_tmp := tmp # sp_tmp sp\<rparr>)")
  have q: "q = Inr ()" and s: "sp_blobs sp' = sp_blobs s"
    and b: "b = \<lparr>bl_blobKey = ?key, bl_sha256 = sa_sha256 a,
       bl_normalizedExtension = dg_normalizeExtension dg (sa_filename a), bl_size = sa_size a,
       bl_spoolPath = blob_path (sa_sha256 a) ?key,
       bl_localRefCount = 0, bl_hubConfirmed = False, bl_hubBlobKey = None\<rparr>"
    using assms op cp pub0 eqs by (auto simp: ingest_def Let_def split: sum.splits)
  note pub = pub0 [unfolded q]
  from b show "bl_sha256 b = sa_sha256 a" "bl_size b = sa_size a"
    "bl_blobKey b = sa_sha256 a @ dg_normalizeExtension dg (sa_filename a)"
    "bl_localRefCount b = 0" "\<not> bl_hubConfirmed b" "bl_hubBlobKey b = None" by simp_all
  from ingest_publish_Inr [OF pub] b s eqs
  show "\<exists>stored. map_of (sp_blobs sp') (bl_blobKey b) = Some stored \<and> of_nat (length stored) = sa_size a"
    by auto
  from op show "\<exists>base source. sv_root v = Inr base \<and> sv_source v = Inr source \<and> assertWithinRoot base source = Inr ()"
    by (auto simp: ingest_open_def result_simps)
qed

section \<open>Properties\<close>

text \<open>An attachment set is accepted exactly when it respects every limit: at most 32 attachments,
  each a whole number of bytes up to 100 MiB with a lowercase SHA-256, and 256 MiB in total; a
  refusal is always an \<open>AttachmentValidationError\<close>.\<close>

theorem validateAttachmentSet_limits:
  "(validateAttachmentSet as = Inr () \<longleftrightarrow>
      length as \<le> 32 \<and>
      (\<forall>a\<in>set as. safe_integer (sa_size a) \<and> 0 \<le> sa_size a \<and> sa_size a \<le> 104857600 \<and>
         sha256_shape (sa_sha256 a)) \<and>
      sum_list (map sa_size as) \<le> 268435456) \<and>
   (\<forall>e. validateAttachmentSet as = Inl e \<longrightarrow> (\<exists>m. e = AttachmentValidationError m))"
  by (auto simp: validateAttachmentSet_Inr check_attachment_Inr MAX_ATTACHMENTS_PER_EVENT_def
      MAX_ATTACHMENT_BYTES_def MAX_ATTACHMENT_TOTAL_BYTES_def dest: validateAttachmentSet_error)

theorem validateAttachmentSet_limits_witness:
  "\<exists>m. Inl (AttachmentValidationError m) = validateAttachmentSet
     [\<lparr>sa_attachment_id = ''a'', sa_filename = ''f'', sa_media_type = ''t'', sa_size = - 1,
       sa_sha256 = [], sa_local_path = ''/f''\<rparr>]"
  using conjunct2 [OF validateAttachmentSet_limits [of
     "[\<lparr>sa_attachment_id = ''a'', sa_filename = ''f'', sa_media_type = ''t'', sa_size = - 1,
       sa_sha256 = [], sa_local_path = ''/f''\<rparr>]"]]
  by (simp add: validateAttachmentSet_def check_attachment_def MAX_ATTACHMENTS_PER_EVENT_def)

text \<open>The staging root is a jail, a little smaller than meant.  What the check accepts lies in the
  root; and it accepts everything in the root but the files and directories directly under it
  whose name begins with two dots, such as \<open>..notes.txt\<close>, which are inside and refused.\<close>

theorem assertWithinRoot_jail:
  assumes "path_ok candidate"
  shows "assertWithinRoot base candidate = Inr () \<longleftrightarrow>
    (\<exists>extra. candidate = base @ extra \<and> (extra = [] \<or> \<not> starts_dotdot (hd extra)))"
  by (rule assertWithinRoot_Inr [OF assms])

theorem assertWithinRoot_jail_witness:
  "assertWithinRoot [''srv'', ''staging''] [''srv'', ''staging'', ''..notes.txt''] \<noteq> Inr () \<and>
   path_ok [''srv'', ''staging'', ''..notes.txt'']"
  using assertWithinRoot_jail [of "[''srv'', ''staging'', ''..notes.txt'']" "[''srv'', ''staging'']"]
  by (simp add: path_ok_def starts_dotdot_def)

text \<open>C33: the spool is content-addressed and stays so.  Whatever the file system answers, \<open>ingest\<close>
  keeps every file that was there and the naming of files by the digest of their bytes; and a
  blob it returns has the size and digest the driver announced, comes from inside the staging
  root, and lies in the spool under its key.\<close>

theorem ingest_content_addressed:
  assumes "spool_ok dg sp" "ingest dg v tmp a sp = (r, sp')"
  shows "spool_ok dg sp' \<and>
    (\<forall>k bytes. map_of (sp_blobs sp) k = Some bytes \<longrightarrow> map_of (sp_blobs sp') k = Some bytes) \<and>
    (case r of Inl e \<Rightarrow> True
     | Inr b \<Rightarrow> bl_sha256 b = sa_sha256 a \<and> bl_size b = sa_size a \<and>
         (\<exists>stored. map_of (sp_blobs sp') (bl_blobKey b) = Some stored \<and> of_nat (length stored) = sa_size a) \<and>
         (\<exists>base source. sv_root v = Inr base \<and> sv_source v = Inr source \<and> assertWithinRoot base source = Inr ()))"
proof (cases r)
  case (Inl e)
  then show ?thesis using spool_ok_ingest [OF assms] ingest_keeps [OF assms(2)] by simp
next
  case (Inr b)
  from spool_ok_ingest [OF assms] ingest_keeps [OF assms(2)] ingest_InrD [OF assms(2) [unfolded Inr]] Inr
  show ?thesis by simp
qed

definition good_view :: "path \<Rightarrow> path \<Rightarrow> string list \<Rightarrow> source_view" where
  "good_view base source chunks =
     \<lparr>sv_root = Inr base, sv_requestedLstat = Inr False, sv_source = Inr source,
      sv_sourceLstat = Inr (True, False), sv_open = Inr (), sv_openTemporary = Inr (),
      sv_openedStat = Inr True, sv_reads = map Inr chunks, sv_syncTemporary = Inr (),
      sv_mkdirShard = Inr (), sv_linkFault = Inr (), sv_existingStat = Inr True,
      sv_syncShard = Inr (), sv_unlinkTemporary = Inr (), sv_syncDirectory = Inr ()\<rparr>"

theorem ingest_content_addressed_witness:
  "let sp' = snd (ingest \<lparr>dg_sha256 = (\<lambda>b. ''d'' @ b), dg_normalizeExtension = (\<lambda>f. ''.txt'')\<rparr>
       (good_view [''s''] [''s'', ''f''] [''ab'', ''c'']) ''t''
       \<lparr>sa_attachment_id = ''a'', sa_filename = ''f'', sa_media_type = ''t'', sa_size = 3,
        sa_sha256 = ''dabc'', sa_local_path = ''/s/f''\<rparr> \<lparr>sp_blobs = [], sp_tmp = []\<rparr>) in
   spool_ok \<lparr>dg_sha256 = (\<lambda>b. ''d'' @ b), dg_normalizeExtension = (\<lambda>f. ''.txt'')\<rparr> sp' \<and>
   sp_blobs sp' = [(''dabc.txt'', ''abc'')] \<and> sp_tmp sp' = []"
proof -
  let ?dg = "\<lparr>dg_sha256 = (\<lambda>b. ''d'' @ b), dg_normalizeExtension = (\<lambda>f. ''.txt'')\<rparr>"
  let ?a = "\<lparr>sa_attachment_id = ''a'', sa_filename = ''f'', sa_media_type = ''t'', sa_size = 3,
        sa_sha256 = ''dabc'', sa_local_path = ''/s/f''\<rparr>"
  let ?run = "ingest ?dg (good_view [''s''] [''s'', ''f''] [''ab'', ''c'']) ''t'' ?a \<lparr>sp_blobs = [], sp_tmp = []\<rparr>"
  have ok: "spool_ok ?dg \<lparr>sp_blobs = [], sp_tmp = []\<rparr>" by (simp add: spool_ok_def)
  have "spool_ok ?dg (snd ?run)"
    using ingest_content_addressed [OF ok, where r = "fst ?run" and sp' = "snd ?run"] by simp
  moreover have "sp_blobs (snd ?run) = [(''dabc.txt'', ''abc'')] \<and> sp_tmp (snd ?run) = []"
    by (simp add: ingest_def ingest_open_def ingest_copy_def ingest_publish_def good_view_def
        assertWithinRoot_def relative_path_def starts_dotdot_def MAX_ATTACHMENT_BYTES_def Let_def)
  ultimately show ?thesis by (simp add: Let_def)
qed

end
