(* ===== verification/Outbox.thy ===== *)
theory Outbox
  imports Blob_Spool
begin

text \<open>
  \<open>src/outbox/lane-outbox.ts\<close>: the durable audit outbox of a lane, four SQLite tables and the blob
  spool.  A row is a record, a table the list of its rows in rowid order, a JSON column its decoded
  value.  \<open>StoredAuditEvent\<close> is the row without its deduplication key, \<open>StoredBlob\<close> the row without
  its two times, as \<open>mapEvent\<close> and \<open>mapBlob\<close> read them.  The clock, the fresh identifiers, the free
  space and the answers of the file system are arguments.  The operations are those of an
  initialized outbox.
\<close>

section \<open>Rows\<close>

datatype audit_direction = Inbound | Outbound
datatype audit_source_kind = Source_channel | Source_mesh
datatype audit_event_state = PENDING_BLOBS | PENDING_APPEND | RETRY_WAIT | ACKED | DEAD_LETTER

record audit_event_input =
  ai_direction :: audit_direction
  ai_sourceKind :: audit_source_kind
  ai_driverInstanceId :: "string option"
  ai_rawParams :: json
  ai_attachments :: "staged_attachment list"
  ai_stagingRoot :: "string option"
  ai_correlation :: json
  ai_dedupKey :: "string option"

record stored_audit_event =
  ev_eventId :: string
  ev_inboundId :: "string option"
  ev_laneId :: string
  ev_direction :: audit_direction
  ev_sourceKind :: audit_source_kind
  ev_driverInstanceId :: "string option"
  ev_schemaVersion :: nat
  ev_rawParams :: string
  ev_rawParamsSha256 :: string
  ev_attachmentBlobKeys :: "string list"
  ev_correlation :: json
  ev_state :: audit_event_state
  ev_resumeState :: audit_event_state
  ev_attemptCount :: nat
  ev_nextAttemptAt :: rat
  ev_lastErrorCode :: "string option"
  ev_createdAt :: millis
  ev_updatedAt :: millis
  ev_ackedAt :: "millis option"

record event_row = stored_audit_event +
  ev_dedupKey :: "string option"

definition mapEvent :: "event_row \<Rightarrow> stored_audit_event" where
  "mapEvent row = stored_audit_event.truncate row"

record blob_row = stored_blob +
  br_createdAt :: millis
  br_lastVerifiedAt :: millis

definition mapBlob :: "blob_row \<Rightarrow> stored_blob" where
  "mapBlob row = stored_blob.truncate row"

datatype outcome_state = OUT_PENDING | OUT_SUCCEEDED | OUT_FAILED

record outcome_row =
  oc_actionId :: string
  oc_driverInstanceId :: string
  oc_request :: json
  oc_result :: "json option"
  oc_state :: outcome_state
  oc_createdAt :: millis
  oc_updatedAt :: millis

record outbox =
  ob_laneId :: string
  ob_quotaBytes :: nat
  ob_events :: "event_row list"
  ob_blobs :: "blob_row list"
  ob_event_blobs :: "(string \<times> string) list"
  ob_outcomes :: "outcome_row list"
  ob_spool :: blob_spool

text \<open>The tables \<open>initialize\<close> creates in a fresh state directory.\<close>

definition outbox_initialize :: "string \<Rightarrow> nat \<Rightarrow> outbox" where
  "outbox_initialize lane quota =
     \<lparr>ob_laneId = lane, ob_quotaBytes = quota, ob_events = [], ob_blobs = [], ob_event_blobs = [],
      ob_outcomes = [], ob_spool = \<lparr>sp_blobs = [], sp_tmp = []\<rparr>\<rparr>"

section \<open>Capacity\<close>

definition DEFAULT_QUOTA_BYTES :: nat where
  "DEFAULT_QUOTA_BYTES = 20 * 1024 * 1024 * 1024"

definition WARNING_RATIO :: rat where
  "WARNING_RATIO = 8 / 10"

definition FAIL_CLOSED_RATIO :: rat where
  "FAIL_CLOSED_RATIO = 95 / 100"

definition MIN_FREE_BYTES :: nat where
  "MIN_FREE_BYTES = 5 * 1024 * 1024 * 1024"

record outbox_summary =
  su_pending :: nat
  su_retry :: nat
  su_deadLetter :: nat
  su_acked :: nat
  su_blobBytes :: rat
  su_usageRatio :: rat
  su_warning :: bool
  su_failClosed :: bool

definition summary :: "nat \<Rightarrow> outbox \<Rightarrow> outbox_summary" where
  "summary freeBytes ob =
     (let blobBytes = sum_list (map bl_size (ob_blobs ob));
          usageRatio = blobBytes / of_nat (ob_quotaBytes ob) in
      \<lparr>su_pending = sql_count (\<lambda>r. ev_state r \<in> {PENDING_BLOBS, PENDING_APPEND}) (ob_events ob),
       su_retry = sql_count (\<lambda>r. ev_state r = RETRY_WAIT) (ob_events ob),
       su_deadLetter = sql_count (\<lambda>r. ev_state r = DEAD_LETTER) (ob_events ob),
       su_acked = sql_count (\<lambda>r. ev_state r = ACKED) (ob_events ob),
       su_blobBytes = blobBytes, su_usageRatio = usageRatio,
       su_warning = (usageRatio \<ge> WARNING_RATIO),
       su_failClosed = (usageRatio \<ge> FAIL_CLOSED_RATIO \<or> freeBytes < MIN_FREE_BYTES)\<rparr>)"

section \<open>Recording\<close>

text \<open>What one call of \<open>record\<close> draws from outside.\<close>

record record_env =
  re_freeBytes :: nat
  re_views :: "nat \<Rightarrow> source_view"
  re_tmp :: "nat \<Rightarrow> string"
  re_digest :: digest_ops
  re_print :: "json \<Rightarrow> string"
  re_eventId :: string
  re_inboundId :: string
  re_now :: millis

fun ingest_all ::
  "record_env \<Rightarrow> nat \<Rightarrow> staged_attachment list \<Rightarrow> blob_spool \<Rightarrow> (exn + stored_blob list) \<times> blob_spool"
where
  "ingest_all env i [] sp = (Inr [], sp)"
| "ingest_all env i (a # as) sp =
     (case ingest (re_digest env) (re_views env i) (re_tmp env i) a sp of
        (Inl e, sp') \<Rightarrow> (Inl e, sp')
      | (Inr b, sp') \<Rightarrow>
          (case ingest_all env (Suc i) as sp' of
             (Inl e, sp'') \<Rightarrow> (Inl e, sp'')
           | (Inr bs, sp'') \<Rightarrow> (Inr (b # bs), sp'')))"

text \<open>\<open>INSERT INTO blobs ... ON CONFLICT(blob_key) DO UPDATE SET last_verified_at\<close>.\<close>

definition upsert_blob :: "millis \<Rightarrow> stored_blob \<Rightarrow> blob_row list \<Rightarrow> blob_row list" where
  "upsert_blob now b rows =
     (if \<exists>r\<in>set rows. bl_blobKey r = bl_blobKey b
      then sql_update (\<lambda>r. bl_blobKey r = bl_blobKey b) (\<lambda>r. r\<lparr>br_lastVerifiedAt := now\<rparr>) rows
      else rows @ [\<lparr>bl_blobKey = bl_blobKey b, bl_sha256 = bl_sha256 b,
                    bl_normalizedExtension = bl_normalizedExtension b, bl_size = bl_size b,
                    bl_spoolPath = bl_spoolPath b, bl_localRefCount = 0, bl_hubConfirmed = False,
                    bl_hubBlobKey = None, br_createdAt = now, br_lastVerifiedAt = now\<rparr>])"

definition reference_blob :: "string \<Rightarrow> blob_row list \<Rightarrow> blob_row list" where
  "reference_blob key rows =
     sql_update (\<lambda>r. bl_blobKey r = key) (\<lambda>r. r\<lparr>bl_localRefCount := bl_localRefCount r + 1\<rparr>) rows"

definition new_event :: "record_env \<Rightarrow> string \<Rightarrow> audit_event_input \<Rightarrow> string list \<Rightarrow> event_row" where
  "new_event env lane input keys =
     \<lparr>ev_eventId = re_eventId env,
      ev_inboundId = (if ai_direction input = Inbound then Some (re_inboundId env) else None),
      ev_laneId = lane, ev_direction = ai_direction input, ev_sourceKind = ai_sourceKind input,
      ev_driverInstanceId = ai_driverInstanceId input, ev_schemaVersion = 1,
      ev_rawParams = re_print env (ai_rawParams input),
      ev_rawParamsSha256 = dg_sha256 (re_digest env) (re_print env (ai_rawParams input)),
      ev_attachmentBlobKeys = keys, ev_correlation = ai_correlation input,
      ev_state = PENDING_BLOBS, ev_resumeState = PENDING_BLOBS, ev_attemptCount = 0,
      ev_nextAttemptAt = 0, ev_lastErrorCode = None, ev_createdAt = re_now env,
      ev_updatedAt = re_now env, ev_ackedAt = None, ev_dedupKey = ai_dedupKey input\<rparr>"

text \<open>The transaction.  Its only constraints that can fail are the primary key of the event and the
  unique deduplication key; then it is rolled back.\<close>

definition record_commit ::
  "record_env \<Rightarrow> audit_event_input \<Rightarrow> stored_blob list \<Rightarrow> outbox \<Rightarrow> (exn + stored_audit_event) \<times> outbox"
where
  "record_commit env input blobs ob =
     (let keys = js_unique (map bl_blobKey blobs);
          row = new_event env (ob_laneId ob) input keys in
      if \<exists>r\<in>set (ob_events ob). ev_eventId r = re_eventId env
      then (Inl (PlainError ''UNIQUE constraint failed: events.event_id''), ob)
      else if ai_dedupKey input \<noteq> None \<and> (\<exists>r\<in>set (ob_events ob). ev_dedupKey r = ai_dedupKey input)
      then (Inl (PlainError ''UNIQUE constraint failed: events.dedup_key''), ob)
      else (Inr (mapEvent row),
            ob\<lparr>ob_blobs := fold reference_blob keys (fold (upsert_blob (re_now env)) blobs (ob_blobs ob)),
               ob_events := ob_events ob @ [row],
               ob_event_blobs := ob_event_blobs ob @ map (\<lambda>k. (re_eventId env, k)) keys\<rparr>))"

definition findByDedupKey :: "string \<Rightarrow> outbox \<Rightarrow> stored_audit_event option" where
  "findByDedupKey k ob = map_option mapEvent (sql_get (\<lambda>r. ev_dedupKey r = Some k) (ob_events ob))"

text \<open>\<open>if (input.dedupKey)\<close> and \<open>!input.stagingRoot\<close>: the empty string counts as absent.\<close>

fun truthy :: "string option \<Rightarrow> bool" where
  "truthy None = False"
| "truthy (Some s) = (s \<noteq> [])"

definition outbox_record ::
  "record_env \<Rightarrow> audit_event_input \<Rightarrow> outbox \<Rightarrow> (exn + stored_audit_event) \<times> outbox"
where
  "outbox_record env input ob =
     (if su_failClosed (summary (re_freeBytes env) ob)
      then (Inl (OutboxCapacityError ''Lane outbox capacity safety threshold reached''), ob)
      else case validateAttachmentSet (ai_attachments input) of
        Inl e \<Rightarrow> (Inl e, ob)
      | Inr _ \<Rightarrow>
          if ai_attachments input \<noteq> [] \<and> \<not> truthy (ai_stagingRoot input)
          then (Inl (PlainError ''stagingRoot is required when attachments are present''), ob)
          else
            (case (if truthy (ai_dedupKey input) then findByDedupKey (the (ai_dedupKey input)) ob else None) of
               Some duplicate \<Rightarrow> (Inr duplicate, ob)
             | None \<Rightarrow>
                 (case ingest_all env 0 (ai_attachments input) (ob_spool ob) of
                    (Inl e, sp) \<Rightarrow> (Inl e, ob\<lparr>ob_spool := sp\<rparr>)
                  | (Inr blobs, sp) \<Rightarrow> record_commit env input blobs (ob\<lparr>ob_spool := sp\<rparr>))))"

section \<open>Reading and the life of an event\<close>

definition find_event :: "string \<Rightarrow> outbox \<Rightarrow> event_row option" where
  "find_event i ob = sql_get (\<lambda>r. ev_eventId r = i) (ob_events ob)"

definition event_due :: "millis \<Rightarrow> event_row \<Rightarrow> bool" where
  "event_due now r =
     (ev_state r \<in> {PENDING_BLOBS, PENDING_APPEND} \<or>
      (ev_state r = RETRY_WAIT \<and> ev_nextAttemptAt r \<le> of_int now))"

definition listDue :: "millis \<Rightarrow> nat \<Rightarrow> outbox \<Rightarrow> stored_audit_event list" where
  "listDue now lmt ob =
     map mapEvent (take lmt (sort_key ev_createdAt (filter (event_due now) (ob_events ob))))"

definition getBlob :: "string \<Rightarrow> outbox \<Rightarrow> stored_blob option" where
  "getBlob k ob = map_option mapBlob (sql_get (\<lambda>r. bl_blobKey r = k) (ob_blobs ob))"

definition markBlobConfirmed :: "millis \<Rightarrow> string \<Rightarrow> string \<Rightarrow> outbox \<Rightarrow> outbox" where
  "markBlobConfirmed now k hubKey ob =
     ob\<lparr>ob_blobs := sql_update (\<lambda>r. bl_blobKey r = k)
       (\<lambda>r. r\<lparr>bl_hubConfirmed := True, bl_hubBlobKey := Some hubKey, br_lastVerifiedAt := now\<rparr>) (ob_blobs ob)\<rparr>"

definition markBlobUnconfirmed :: "string \<Rightarrow> outbox \<Rightarrow> outbox" where
  "markBlobUnconfirmed k ob =
     ob\<lparr>ob_blobs := sql_update (\<lambda>r. bl_blobKey r = k)
       (\<lambda>r. r\<lparr>bl_hubConfirmed := False, bl_hubBlobKey := None\<rparr>) (ob_blobs ob)\<rparr>"

definition blobsConfirmed :: "stored_audit_event \<Rightarrow> outbox \<Rightarrow> bool" where
  "blobsConfirmed e ob =
     list_all (\<lambda>k. case getBlob k ob of None \<Rightarrow> False | Some b \<Rightarrow> bl_hubConfirmed b)
       (ev_attachmentBlobKeys e)"

definition update_event :: "string \<Rightarrow> (event_row \<Rightarrow> event_row) \<Rightarrow> outbox \<Rightarrow> outbox" where
  "update_event i f ob = ob\<lparr>ob_events := sql_update (\<lambda>r. ev_eventId r = i) f (ob_events ob)\<rparr>"

definition transition ::
  "millis \<Rightarrow> string \<Rightarrow> audit_event_state \<Rightarrow> audit_event_state \<Rightarrow> rat \<Rightarrow> string option \<Rightarrow> bool \<Rightarrow> outbox \<Rightarrow> outbox"
where
  "transition now i st resume nextAt err incrementAttempt ob =
     update_event i (\<lambda>r. r\<lparr>ev_state := st, ev_resumeState := resume, ev_nextAttemptAt := nextAt,
       ev_lastErrorCode := err, ev_updatedAt := now,
       ev_attemptCount := ev_attemptCount r + (if incrementAttempt then 1 else 0)\<rparr>) ob"

definition markPendingAppend :: "millis \<Rightarrow> string \<Rightarrow> outbox \<Rightarrow> outbox" where
  "markPendingAppend now i = transition now i PENDING_APPEND PENDING_APPEND 0 None False"

definition markAcked :: "millis \<Rightarrow> string \<Rightarrow> outbox \<Rightarrow> outbox" where
  "markAcked now i = update_event i
     (\<lambda>r. r\<lparr>ev_state := ACKED, ev_ackedAt := Some now, ev_updatedAt := now, ev_lastErrorCode := None\<rparr>)"

definition markRetry :: "millis \<Rightarrow> string \<Rightarrow> audit_event_state \<Rightarrow> string \<Rightarrow> rat \<Rightarrow> outbox \<Rightarrow> outbox" where
  "markRetry now i resume err nextAt = transition now i RETRY_WAIT resume nextAt (Some err) True"

definition markDeadLetter :: "millis \<Rightarrow> string \<Rightarrow> string \<Rightarrow> outbox \<Rightarrow> outbox" where
  "markDeadLetter now i err = transition now i DEAD_LETTER PENDING_APPEND 0 (Some err) True"

definition listDeadLetters :: "nat \<Rightarrow> outbox \<Rightarrow> stored_audit_event list" where
  "listDeadLetters lmt ob =
     map mapEvent (take lmt (sort_key ev_updatedAt (filter (\<lambda>r. ev_state r = DEAD_LETTER) (ob_events ob))))"

section \<open>Replay of dead letters\<close>

definition replay_one :: "millis \<Rightarrow> string \<Rightarrow> outbox \<Rightarrow> outbox \<times> bool" where
  "replay_one now i ob =
     (case find_event i ob of
        None \<Rightarrow> (ob, False)
      | Some r \<Rightarrow>
          if ev_state r \<noteq> DEAD_LETTER then (ob, False)
          else
            (let resume = (if blobsConfirmed (mapEvent r) ob then PENDING_APPEND else PENDING_BLOBS) in
             (ob\<lparr>ob_events := sql_update (\<lambda>r. ev_eventId r = i \<and> ev_state r = DEAD_LETTER)
                (\<lambda>r. r\<lparr>ev_state := resume, ev_resumeState := resume, ev_nextAttemptAt := 0,
                       ev_updatedAt := now\<rparr>) (ob_events ob)\<rparr>, True)))"

fun replay_loop :: "millis \<Rightarrow> string list \<Rightarrow> outbox \<Rightarrow> (string list \<times> string list) \<times> outbox" where
  "replay_loop now [] ob = (([], []), ob)"
| "replay_loop now (i # is) ob =
     (let (ob', ok) = replay_one now i ob; ((rep, skp), ob'') = replay_loop now is ob' in
      (if ok then (i # rep, skp) else (rep, i # skp), ob''))"

definition replayDeadLetters ::
  "millis \<Rightarrow> string list option \<Rightarrow> outbox \<Rightarrow> (string list \<times> string list) \<times> outbox"
where
  "replayDeadLetters now eventIds ob =
     replay_loop now
       (case eventIds of None \<Rightarrow> map ev_eventId (listDeadLetters (nat max_safe_integer) ob) | Some is \<Rightarrow> is) ob"

section \<open>Delivery outcomes\<close>

definition find_outcome :: "string \<Rightarrow> outbox \<Rightarrow> outcome_row option" where
  "find_outcome i ob = sql_get (\<lambda>r. oc_actionId r = i) (ob_outcomes ob)"

definition reserveAction ::
  "millis \<Rightarrow> string \<Rightarrow> string \<Rightarrow> json \<Rightarrow> outbox \<Rightarrow> (bool \<times> json) \<times> outbox"
where
  "reserveAction now i driver request ob =
     (case find_outcome i ob of
        Some existing \<Rightarrow> ((True, case oc_result existing of None \<Rightarrow> JNull | Some r \<Rightarrow> r), ob)
      | None \<Rightarrow>
          ((False, JNull),
           ob\<lparr>ob_outcomes := ob_outcomes ob @
             [\<lparr>oc_actionId = i, oc_driverInstanceId = driver, oc_request = request, oc_result = None,
               oc_state = OUT_PENDING, oc_createdAt = now, oc_updatedAt = now\<rparr>]\<rparr>))"

definition completeAction :: "millis \<Rightarrow> string \<Rightarrow> json \<Rightarrow> outbox \<Rightarrow> outbox" where
  "completeAction now i result ob =
     ob\<lparr>ob_outcomes := sql_update (\<lambda>r. oc_actionId r = i)
       (\<lambda>r. r\<lparr>oc_state := OUT_SUCCEEDED, oc_result := Some result, oc_updatedAt := now\<rparr>) (ob_outcomes ob)\<rparr>"

definition listPendingActions :: "millis \<Rightarrow> nat \<Rightarrow> outbox \<Rightarrow> outcome_row list" where
  "listPendingActions olderThan lmt ob =
     take lmt (sort_key oc_createdAt
       (filter (\<lambda>r. oc_state r = OUT_PENDING \<and> oc_updatedAt r \<le> olderThan) (ob_outcomes ob)))"

end
