(* ===== verification/Outbox_Inv.thy ===== *)
theory Outbox_Inv
  imports Outbox Interfaces
begin

text \<open>
  The invariant of the outbox and its preservation by every operation, under any interleaving of
  concurrent calls of \<open>record\<close>; its contracts as a deduplicating store; the properties of the outbox.
\<close>

section \<open>The invariant\<close>

definition event_row_ok :: "event_row \<Rightarrow> bool" where
  "event_row_ok r =
     ((ev_inboundId r \<noteq> None) = (ev_direction r = Inbound) \<and>
      ev_resumeState r \<in> {PENDING_BLOBS, PENDING_APPEND} \<and>
      (ev_state r = ACKED \<longrightarrow> ev_ackedAt r \<noteq> None) \<and>
      distinct (ev_attachmentBlobKeys r))"

definition events_ok :: "event_row list \<Rightarrow> bool" where
  "events_ok evs =
     (distinct (map ev_eventId evs) \<and>
      distinct (filter (\<lambda>k. k \<noteq> None) (map ev_dedupKey evs)) \<and>
      list_all event_row_ok evs)"

definition event_links :: "event_row list \<Rightarrow> (string \<times> string) list" where
  "event_links evs = concat (map (\<lambda>r. map (\<lambda>k. (ev_eventId r, k)) (ev_attachmentBlobKeys r)) evs)"

definition blob_refs :: "string \<Rightarrow> blob_row list \<Rightarrow> int" where
  "blob_refs k rows =
     (case sql_get (\<lambda>r. bl_blobKey r = k) rows of None \<Rightarrow> 0 | Some r \<Rightarrow> bl_localRefCount r)"

text \<open>The link table is what the events' key lists say, every key it names is a blob, and every blob
  counts the links to it.\<close>

definition refs_ok :: "event_row list \<Rightarrow> blob_row list \<Rightarrow> (string \<times> string) list \<Rightarrow> bool" where
  "refs_ok evs blobs links =
     (links = event_links evs \<and>
      distinct (map bl_blobKey blobs) \<and>
      snd ` set links \<subseteq> bl_blobKey ` set blobs \<and>
      (\<forall>k. blob_refs k blobs = int (sql_count (\<lambda>l. snd l = k) links)))"

text \<open>Every blob of the table lies in the spool with its recorded size.\<close>

definition in_spool :: "blob_spool \<Rightarrow> string \<Rightarrow> rat \<Rightarrow> bool" where
  "in_spool sp k sz =
     (\<exists>bytes. map_of (sp_blobs sp) k = Some bytes \<and> of_nat (length bytes) = sz)"

definition sizes_ok :: "blob_spool \<Rightarrow> blob_row list \<Rightarrow> bool" where
  "sizes_ok sp rows = (\<forall>r\<in>set rows. in_spool sp (bl_blobKey r) (bl_size r))"

definition outbox_ok :: "digest_ops \<Rightarrow> outbox \<Rightarrow> bool" where
  "outbox_ok dg ob =
     (events_ok (ob_events ob) \<and> refs_ok (ob_events ob) (ob_blobs ob) (ob_event_blobs ob) \<and> spool_ok dg (ob_spool ob) \<and>
      sizes_ok (ob_spool ob) (ob_blobs ob) \<and>
      distinct (map oc_actionId (ob_outcomes ob)))"

section \<open>Steps\<close>

text \<open>\<open>record\<close> awaits the file system between its parts, so another call may run in between: a step
  is an ingest or a commit of blobs that were ingested, besides the whole of an undisturbed call
  and every other operation.\<close>

inductive outbox_step :: "digest_ops \<Rightarrow> outbox \<Rightarrow> outbox \<Rightarrow> bool" for dg where
  step_record: "re_digest env = dg \<Longrightarrow> outbox_record env input ob = (r, ob') \<Longrightarrow> outbox_step dg ob ob'"
| step_ingest: "ingest dg v tmp a (ob_spool ob) = (r, sp) \<Longrightarrow> outbox_step dg ob (ob\<lparr>ob_spool := sp\<rparr>)"
| step_commit: "\<forall>b\<in>set blobs. in_spool (ob_spool ob) (bl_blobKey b) (bl_size b) \<Longrightarrow>
    record_commit env input blobs ob = (r, ob') \<Longrightarrow> outbox_step dg ob ob'"
| step_confirm: "outbox_step dg ob (markBlobConfirmed now k hubKey ob)"
| step_unconfirm: "outbox_step dg ob (markBlobUnconfirmed k ob)"
| step_append: "outbox_step dg ob (markPendingAppend now i ob)"
| step_acked: "outbox_step dg ob (markAcked now i ob)"
| step_retry: "resume \<in> {PENDING_BLOBS, PENDING_APPEND} \<Longrightarrow>
    outbox_step dg ob (markRetry now i resume err nextAt ob)"
| step_dead: "outbox_step dg ob (markDeadLetter now i err ob)"
| step_replay: "replayDeadLetters now ids ob = (r, ob') \<Longrightarrow> outbox_step dg ob ob'"
| step_reserve: "reserveAction now i driver request ob = (r, ob') \<Longrightarrow> outbox_step dg ob ob'"
| step_complete: "outbox_step dg ob (completeAction now i result ob)"

inductive outbox_reach :: "digest_ops \<Rightarrow> outbox \<Rightarrow> outbox \<Rightarrow> bool" for dg where
  reach_refl: "outbox_reach dg ob ob"
| reach_step: "outbox_reach dg ob ob' \<Longrightarrow> outbox_step dg ob' ob'' \<Longrightarrow> outbox_reach dg ob ob''"

section \<open>Blobs\<close>

lemma upsert_keys: "bl_blobKey ` set (upsert_blob now b rows) = insert (bl_blobKey b) (bl_blobKey ` set rows)"
proof (cases "\<exists>r\<in>set rows. bl_blobKey r = bl_blobKey b")
  case True
  have "map bl_blobKey (upsert_blob now b rows) = map bl_blobKey rows"
    using True by (simp add: upsert_blob_def map_sql_update_same)
  then have "bl_blobKey ` set (upsert_blob now b rows) = bl_blobKey ` set rows"
    by (metis list.set_map)
  moreover have "bl_blobKey b \<in> bl_blobKey ` set rows" using True by force
  ultimately show ?thesis by blast
qed (auto simp: upsert_blob_def)

lemma upsert_distinct:
  "distinct (map bl_blobKey rows) \<Longrightarrow> distinct (map bl_blobKey (upsert_blob now b rows))"
  by (auto simp: upsert_blob_def map_sql_update_same)

lemma upsert_refs: "blob_refs k (upsert_blob now b rows) = blob_refs k rows"
  by (auto simp: upsert_blob_def blob_refs_def sql_get_append sql_get_update_key split: option.splits)

lemma fold_upsert:
  "bl_blobKey ` set (fold (upsert_blob now) bs rows) = bl_blobKey ` set bs \<union> bl_blobKey ` set rows"
  "distinct (map bl_blobKey rows) \<Longrightarrow> distinct (map bl_blobKey (fold (upsert_blob now) bs rows))"
  "blob_refs k (fold (upsert_blob now) bs rows) = blob_refs k rows"
  by (induction bs arbitrary: rows) (auto simp: upsert_keys upsert_distinct upsert_refs)

lemma reference_keys [simp]:
  "map bl_blobKey (reference_blob k rows) = map bl_blobKey rows"
  by (simp add: reference_blob_def map_sql_update_same)

lemma reference_refs:
  "blob_refs k (reference_blob k' rows) =
     blob_refs k rows + (if k = k' \<and> k \<in> bl_blobKey ` set rows then 1 else 0)"
proof (cases "sql_get (\<lambda>r. bl_blobKey r = k) rows")
  case None
  then have "k \<notin> bl_blobKey ` set rows" by (auto simp: sql_get_None_iff)
  with None show ?thesis
    by (cases "k = k'") (simp_all add: reference_blob_def blob_refs_def sql_get_update_key)
next
  case (Some r)
  then have "k \<in> bl_blobKey ` set rows" using sql_get_SomeD by fastforce
  with Some show ?thesis
    by (cases "k = k'") (simp_all add: reference_blob_def blob_refs_def sql_get_update_key)
qed

lemma fold_reference:
  assumes "distinct ks" "set ks \<subseteq> bl_blobKey ` set rows"
  shows "map bl_blobKey (fold reference_blob ks rows) = map bl_blobKey rows"
    and "blob_refs k (fold reference_blob ks rows) = blob_refs k rows + (if k \<in> set ks then 1 else 0)"
proof -
  have keys: "map bl_blobKey (fold reference_blob ks rows) = map bl_blobKey rows" for ks rows
    by (induction ks arbitrary: rows) auto
  then show "map bl_blobKey (fold reference_blob ks rows) = map bl_blobKey rows" .
  show "blob_refs k (fold reference_blob ks rows) = blob_refs k rows + (if k \<in> set ks then 1 else 0)"
    using assms
  proof (induction ks arbitrary: rows)
    case (Cons a ks)
    have same: "bl_blobKey ` set (reference_blob a rows) = bl_blobKey ` set rows"
      by (metis list.set_map reference_keys)
    then have "blob_refs k (fold reference_blob ks (reference_blob a rows)) =
        blob_refs k (reference_blob a rows) + (if k \<in> set ks then 1 else 0)"
      using Cons.prems by (intro Cons.IH) auto
    then show ?case using Cons.prems by (auto simp: reference_refs)
  qed simp
qed

lemma upsert_sizes:
  "sizes_ok sp rows \<Longrightarrow> in_spool sp (bl_blobKey b) (bl_size b) \<Longrightarrow> sizes_ok sp (upsert_blob now b rows)"
  by (auto simp: upsert_blob_def set_sql_update sizes_ok_def)

lemma fold_upsert_sizes:
  "sizes_ok sp rows \<Longrightarrow> \<forall>b\<in>set bs. in_spool sp (bl_blobKey b) (bl_size b) \<Longrightarrow>
   sizes_ok sp (fold (upsert_blob now) bs rows)"
  by (induction bs arbitrary: rows) (auto simp: upsert_sizes)

lemma sizes_ok_update:
  "sizes_ok sp rows \<Longrightarrow> (\<And>r. bl_blobKey (f r) = bl_blobKey r \<and> bl_size (f r) = bl_size r) \<Longrightarrow>
   sizes_ok sp (sql_update p f rows)"
  by (auto simp: sizes_ok_def set_sql_update)

lemma fold_reference_sizes: "sizes_ok sp rows \<Longrightarrow> sizes_ok sp (fold reference_blob ks rows)"
  by (induction ks arbitrary: rows) (auto simp: reference_blob_def sizes_ok_update)

section \<open>Commit\<close>

lemma event_links_append: "event_links (xs @ ys) = event_links xs @ event_links ys"
  by (simp add: event_links_def)

lemma event_links_cong:
  "map (\<lambda>r. (ev_eventId r, ev_attachmentBlobKeys r)) xs = map (\<lambda>r. (ev_eventId r, ev_attachmentBlobKeys r)) ys \<Longrightarrow>
   event_links xs = event_links ys"
proof -
  have "event_links evs = concat (map (\<lambda>(i, ks). map (\<lambda>k. (i, k)) ks)
      (map (\<lambda>r. (ev_eventId r, ev_attachmentBlobKeys r)) evs))" for evs
    by (simp add: event_links_def comp_def)
  then show "map (\<lambda>r. (ev_eventId r, ev_attachmentBlobKeys r)) xs =
      map (\<lambda>r. (ev_eventId r, ev_attachmentBlobKeys r)) ys \<Longrightarrow> event_links xs = event_links ys"
    by metis
qed

lemma new_event_simps [simp]:
  "ev_eventId (new_event env lane input keys) = re_eventId env"
  "ev_attachmentBlobKeys (new_event env lane input keys) = keys"
  "ev_dedupKey (new_event env lane input keys) = ai_dedupKey input"
  "ev_state (new_event env lane input keys) = PENDING_BLOBS"
  by (simp_all add: new_event_def)

lemma event_row_ok_new: "distinct keys \<Longrightarrow> event_row_ok (new_event env lane input keys)"
  by (simp add: event_row_ok_def new_event_def)

lemma events_ok_commit:
  assumes "events_ok evs" "event_row_ok r" "\<forall>s\<in>set evs. ev_eventId s \<noteq> ev_eventId r"
    "ev_dedupKey r = None \<or> (\<forall>s\<in>set evs. ev_dedupKey s \<noteq> ev_dedupKey r)"
  shows "events_ok (evs @ [r])"
  using assms by (fastforce simp: events_ok_def)

lemma count_links: "distinct ks \<Longrightarrow> sql_count (\<lambda>l. snd l = k) (map (\<lambda>k. (i, k)) ks) = (if k \<in> set ks then 1 else 0)"
  by (induction ks) auto

lemma record_commit_ok:
  assumes ok: "outbox_ok dg ob" and sp: "\<forall>b\<in>set blobs. in_spool (ob_spool ob) (bl_blobKey b) (bl_size b)"
    and run: "record_commit env input blobs ob = (r, ob')"
  shows "outbox_ok dg ob'"
proof (cases "r")
  case (Inl e)
  with run have "ob' = ob" by (auto simp: record_commit_def Let_def split: if_splits)
  with ok show ?thesis by simp
next
  case (Inr e)
  let ?ks = "js_unique (map bl_blobKey blobs)"
  let ?row = "new_event env (ob_laneId ob) input ?ks"
  let ?up = "fold (upsert_blob (re_now env)) blobs (ob_blobs ob)"
  let ?links = "map (\<lambda>k. (re_eventId env, k)) ?ks"
  from run Inr have ob': "ob' = ob\<lparr>ob_blobs := fold reference_blob ?ks ?up,
      ob_events := ob_events ob @ [?row], ob_event_blobs := ob_event_blobs ob @ ?links\<rparr>"
    and fresh: "\<forall>s\<in>set (ob_events ob). ev_eventId s \<noteq> re_eventId env"
      "ai_dedupKey input = None \<or> (\<forall>s\<in>set (ob_events ob). ev_dedupKey s \<noteq> ai_dedupKey input)"
    by (auto simp: record_commit_def Let_def split: if_splits)
  have evs: "events_ok (ob_events ob')"
    using ok fresh by (simp add: ob' outbox_ok_def events_ok_commit event_row_ok_new)
  have sub: "set ?ks \<subseteq> bl_blobKey ` set ?up" by (auto simp: fold_upsert)
  note folds = fold_reference [OF js_unique_simps(1) sub]
  have dist: "distinct (map bl_blobKey (ob_blobs ob'))"
    using ok by (simp add: ob' folds(1) fold_upsert outbox_ok_def refs_ok_def)
  have keys: "bl_blobKey ` set (ob_blobs ob') = bl_blobKey ` set blobs \<union> bl_blobKey ` set (ob_blobs ob)"
  proof -
    have "bl_blobKey ` set (ob_blobs ob') = set (map bl_blobKey ?up)"
      unfolding ob' by (simp add: flip: folds(1))
    then show ?thesis by (simp add: fold_upsert)
  qed
  have refs: "refs_ok (ob_events ob') (ob_blobs ob') (ob_event_blobs ob')"
    unfolding refs_ok_def
  proof (intro conjI allI)
    show "ob_event_blobs ob' = event_links (ob_events ob')"
      using ok by (simp add: ob' outbox_ok_def refs_ok_def event_links_append) (simp add: event_links_def)
    show "distinct (map bl_blobKey (ob_blobs ob'))" by (rule dist)
    show "snd ` set (ob_event_blobs ob') \<subseteq> bl_blobKey ` set (ob_blobs ob')"
    proof -
      have "snd ` set (ob_event_blobs ob) \<subseteq> bl_blobKey ` set (ob_blobs ob)"
        using ok unfolding outbox_ok_def refs_ok_def by blast
      moreover have "snd ` set (ob_event_blobs ob') = snd ` set (ob_event_blobs ob) \<union> bl_blobKey ` set blobs"
        by (simp add: ob' image_Un image_image)
      ultimately show ?thesis unfolding keys by blast
    qed
    show "blob_refs k (ob_blobs ob') = int (sql_count (\<lambda>l. snd l = k) (ob_event_blobs ob'))" for k
      using ok by (simp add: ob' folds(2) fold_upsert outbox_ok_def refs_ok_def count_links)
  qed
  have "sizes_ok (ob_spool ob') (ob_blobs ob')"
    using ok sp unfolding ob'
    by (simp add: outbox_ok_def fold_reference_sizes fold_upsert_sizes)
  with evs refs ok show ?thesis by (simp add: outbox_ok_def ob')
qed

section \<open>Recording\<close>

lemma in_spool_ingest:
  "ingest dg v tmp a sp = (r, sp') \<Longrightarrow> in_spool sp k sz \<Longrightarrow> in_spool sp' k sz"
  by (auto simp: in_spool_def dest: ingest_keeps)

lemma ingest_all_ok:
  assumes "ingest_all env i as sp = (r, sp')" "spool_ok (re_digest env) sp"
  shows "spool_ok (re_digest env) sp' \<and> (\<forall>k sz. in_spool sp k sz \<longrightarrow> in_spool sp' k sz) \<and>
    (\<forall>bs. r = Inr bs \<longrightarrow> (\<forall>b\<in>set bs. in_spool sp' (bl_blobKey b) (bl_size b)))"
  using assms
proof (induction as arbitrary: i sp r sp')
  case Nil
  then show ?case by auto
next
  case (Cons a as)
  obtain r1 sp1 where one: "ingest (re_digest env) (re_views env i) (re_tmp env i) a sp = (r1, sp1)"
    by (cases "ingest (re_digest env) (re_views env i) (re_tmp env i) a sp")
  have ok1: "spool_ok (re_digest env) sp1" using spool_ok_ingest [OF Cons.prems(2) one] .
  show ?case
  proof (cases r1)
    case (Inl e)
    with one Cons.prems ok1 in_spool_ingest [OF one] show ?thesis by auto
  next
    case (Inr b)
    have here: "in_spool sp1 (bl_blobKey b) (bl_size b)"
      using ingest_InrD(2,4) [OF one [unfolded Inr]] by (simp add: in_spool_def)
    obtain r2 sp2 where rest: "ingest_all env (Suc i) as sp1 = (r2, sp2)"
      by (cases "ingest_all env (Suc i) as sp1")
    note ih = Cons.IH [OF rest ok1]
    from one Inr rest Cons.prems(1) have sp': "sp' = sp2"
      and r: "r = (case r2 of Inl e \<Rightarrow> Inl e | Inr bs \<Rightarrow> Inr (b # bs))"
      by (auto split: sum.splits)
    show ?thesis
      using ih here in_spool_ingest [OF one] unfolding sp' r by (auto split: sum.splits)
  qed
qed

lemma outbox_ok_spool:
  "outbox_ok dg ob \<Longrightarrow> spool_ok dg sp \<Longrightarrow> (\<And>k sz. in_spool (ob_spool ob) k sz \<Longrightarrow> in_spool sp k sz) \<Longrightarrow>
   outbox_ok dg (ob\<lparr>ob_spool := sp\<rparr>)"
  by (auto simp: outbox_ok_def sizes_ok_def)

lemma outbox_ok_record:
  assumes ok: "outbox_ok (re_digest env) ob" and run: "outbox_record env input ob = (r, ob')"
  shows "outbox_ok (re_digest env) ob'"
proof (cases "ob' = ob")
  case True
  with ok show ?thesis by simp
next
  case False
  obtain q sp where all: "ingest_all env 0 (ai_attachments input) (ob_spool ob) = (q, sp)"
    by (cases "ingest_all env 0 (ai_attachments input) (ob_spool ob)")
  have "spool_ok (re_digest env) (ob_spool ob)" using ok by (simp add: outbox_ok_def)
  note ing = ingest_all_ok [OF all this]
  then have ok1: "outbox_ok (re_digest env) (ob\<lparr>ob_spool := sp\<rparr>)"
    using ok by (intro outbox_ok_spool) auto
  show ?thesis
  proof (cases q)
    case (Inl e)
    with False run all have "ob' = ob\<lparr>ob_spool := sp\<rparr>"
      by (auto simp: outbox_record_def split: if_splits sum.splits option.splits)
    with ok1 show ?thesis by simp
  next
    case (Inr blobs)
    with False run all have "record_commit env input blobs (ob\<lparr>ob_spool := sp\<rparr>) = (r, ob')"
      by (auto simp: outbox_record_def split: if_splits sum.splits option.splits)
    from record_commit_ok [OF ok1 _ this] ing Inr show ?thesis by simp
  qed
qed

section \<open>The other operations\<close>

lemma refs_ok_events: "refs_ok evs bs ls \<Longrightarrow> event_links evs' = event_links evs \<Longrightarrow> refs_ok evs' bs ls"
  unfolding refs_ok_def by metis

lemma refs_ok_blobs:
  assumes "refs_ok evs bs ls" "map bl_blobKey bs' = map bl_blobKey bs" "\<And>k. blob_refs k bs' = blob_refs k bs"
  shows "refs_ok evs bs' ls"
proof -
  have "bl_blobKey ` set bs' = bl_blobKey ` set bs" using assms(2) by (metis list.set_map)
  with assms show ?thesis unfolding refs_ok_def by metis
qed

lemma events_ok_update:
  assumes "events_ok evs"
    and "\<And>r. p r \<Longrightarrow> ev_eventId (f r) = ev_eventId r \<and> ev_dedupKey (f r) = ev_dedupKey r"
    and "\<And>r. p r \<Longrightarrow> event_row_ok r \<Longrightarrow> event_row_ok (f r)"
  shows "events_ok (sql_update p f evs)"
proof -
  have ids: "map ev_eventId (sql_update p f evs) = map ev_eventId evs"
    and dks: "map ev_dedupKey (sql_update p f evs) = map ev_dedupKey evs"
    using assms(2) by (auto intro!: map_sql_update_same)
  have "list_all event_row_ok (sql_update p f evs)"
    using assms(1,3) by (auto simp: events_ok_def list_all_iff set_sql_update)
  with assms(1) show ?thesis unfolding events_ok_def ids dks by simp
qed

lemma outbox_ok_update_events:
  assumes "outbox_ok dg ob"
    and "\<And>r. p r \<Longrightarrow> ev_eventId (f r) = ev_eventId r \<and> ev_dedupKey (f r) = ev_dedupKey r \<and>
      ev_attachmentBlobKeys (f r) = ev_attachmentBlobKeys r"
    and "\<And>r. p r \<Longrightarrow> event_row_ok r \<Longrightarrow> event_row_ok (f r)"
  shows "outbox_ok dg (ob\<lparr>ob_events := sql_update p f (ob_events ob)\<rparr>)"
proof -
  have "event_links (sql_update p f (ob_events ob)) = event_links (ob_events ob)"
    by (rule event_links_cong) (use assms(2) in \<open>auto intro!: map_sql_update_same\<close>)
  with assms(1) have "refs_ok (sql_update p f (ob_events ob)) (ob_blobs ob) (ob_event_blobs ob)"
    unfolding outbox_ok_def by (blast intro: refs_ok_events)
  moreover have "events_ok (sql_update p f (ob_events ob))"
    using assms by (intro events_ok_update) (auto simp: outbox_ok_def)
  ultimately show ?thesis using assms(1) by (simp add: outbox_ok_def)
qed

lemma outbox_ok_update_event:
  assumes "outbox_ok dg ob"
    and "\<And>r. ev_eventId (f r) = ev_eventId r \<and> ev_dedupKey (f r) = ev_dedupKey r \<and>
      ev_attachmentBlobKeys (f r) = ev_attachmentBlobKeys r"
    and "\<And>r. event_row_ok r \<Longrightarrow> event_row_ok (f r)"
  shows "outbox_ok dg (update_event i f ob)"
  using assms by (auto simp: update_event_def intro!: outbox_ok_update_events)

lemma outbox_ok_transition:
  "outbox_ok dg ob \<Longrightarrow> st \<noteq> ACKED \<Longrightarrow> resume \<in> {PENDING_BLOBS, PENDING_APPEND} \<Longrightarrow>
   outbox_ok dg (transition now i st resume nextAt err inc ob)"
  unfolding transition_def by (rule outbox_ok_update_event) (auto simp: event_row_ok_def)

lemma outbox_ok_marks:
  assumes "outbox_ok dg ob"
  shows "outbox_ok dg (markPendingAppend now i ob)" "outbox_ok dg (markAcked now i ob)"
    "resume \<in> {PENDING_BLOBS, PENDING_APPEND} \<Longrightarrow> outbox_ok dg (markRetry now i resume er nextAt ob)"
    "outbox_ok dg (markDeadLetter now i er ob)"
proof -
  show "outbox_ok dg (markAcked now i ob)"
    unfolding markAcked_def by (rule outbox_ok_update_event [OF assms]) (auto simp: event_row_ok_def)
qed (simp_all add: markPendingAppend_def markRetry_def markDeadLetter_def outbox_ok_transition assms)

lemma outbox_ok_update_blobs:
  assumes "outbox_ok dg ob"
    and "\<And>r. bl_blobKey (f r) = bl_blobKey r \<and> bl_size (f r) = bl_size r \<and> bl_localRefCount (f r) = bl_localRefCount r"
  shows "outbox_ok dg (ob\<lparr>ob_blobs := sql_update (\<lambda>r. bl_blobKey r = k) f (ob_blobs ob)\<rparr>)"
proof -
  have "map bl_blobKey (sql_update (\<lambda>r. bl_blobKey r = k) f (ob_blobs ob)) = map bl_blobKey (ob_blobs ob)"
    using assms(2) by (auto intro!: map_sql_update_same)
  moreover have "blob_refs j (sql_update (\<lambda>r. bl_blobKey r = k) f (ob_blobs ob)) = blob_refs j (ob_blobs ob)" for j
    using assms(2) by (simp add: blob_refs_def sql_get_update_key split: option.splits)
  ultimately have "refs_ok (ob_events ob) (sql_update (\<lambda>r. bl_blobKey r = k) f (ob_blobs ob)) (ob_event_blobs ob)"
    using assms(1) unfolding outbox_ok_def by (blast intro: refs_ok_blobs)
  with assms show ?thesis by (simp add: outbox_ok_def sizes_ok_update)
qed

lemma outbox_ok_blob_marks:
  assumes "outbox_ok dg ob"
  shows "outbox_ok dg (markBlobConfirmed now k hubKey ob)" "outbox_ok dg (markBlobUnconfirmed k ob)"
  using assms by (simp_all add: markBlobConfirmed_def markBlobUnconfirmed_def outbox_ok_update_blobs)

lemma outbox_ok_replay_one:
  "outbox_ok dg ob \<Longrightarrow> outbox_ok dg (fst (replay_one now i ob))"
  by (auto simp: replay_one_def Let_def event_row_ok_def split: option.splits
      intro!: outbox_ok_update_events)

lemma outbox_ok_replay_loop: "outbox_ok dg ob \<Longrightarrow> outbox_ok dg (snd (replay_loop now ids ob))"
proof (induction ids arbitrary: ob)
  case (Cons i ids)
  from Cons.IH [OF outbox_ok_replay_one [OF Cons.prems, of now i]] show ?case
    by (simp add: split_beta Let_def)
qed simp

lemma outbox_ok_reserve: "outbox_ok dg ob \<Longrightarrow> outbox_ok dg (snd (reserveAction now i driver request ob))"
  by (auto simp: reserveAction_def find_outcome_def outbox_ok_def sql_get_None_iff split: option.splits)

lemma outbox_ok_complete: "outbox_ok dg ob \<Longrightarrow> outbox_ok dg (completeAction now i result ob)"
  by (simp add: completeAction_def outbox_ok_def map_sql_update_same)

lemma outbox_ok_step: "outbox_step dg ob ob' \<Longrightarrow> outbox_ok dg ob \<Longrightarrow> outbox_ok dg ob'"
proof (induction rule: outbox_step.induct)
  case (step_record env input ob r ob')
  from outbox_ok_record [OF _ step_record.hyps(2)] step_record show ?case by simp
next
  case (step_ingest v tmp a ob r sp)
  then show ?case
    using spool_ok_ingest [OF _ step_ingest(1)] in_spool_ingest [OF step_ingest(1)]
    by (intro outbox_ok_spool) (simp_all add: outbox_ok_def)
next
  case (step_commit blobs ob env input r ob')
  show ?case by (rule record_commit_ok [OF step_commit.prems step_commit.hyps])
next
  case (step_replay now ids ob r ob')
  from outbox_ok_replay_loop [OF step_replay.prems] step_replay.hyps show ?case
    unfolding replayDeadLetters_def by (metis snd_conv)
next
  case (step_reserve now i driver request ob r ob')
  from outbox_ok_reserve [OF step_reserve.prems, of now i driver request] step_reserve.hyps show ?case by simp
qed (simp_all add: outbox_ok_blob_marks outbox_ok_marks outbox_ok_complete)

lemma outbox_ok_initialize: "outbox_ok dg (outbox_initialize lane quota)"
  by (simp add: outbox_ok_def outbox_initialize_def events_ok_def refs_ok_def event_links_def
      blob_refs_def spool_ok_def sizes_ok_def)

end
