(* ===== verification/Outbox_Props.thy ===== *)
theory Outbox_Props
  imports Outbox_Inv "HOL-Library.Sublist"
begin

text \<open>
  What the outbox promises its callers: it stays consistent, it loses and changes nothing that was
  recorded, it records and reserves once, and it replays exactly the dead letters.
\<close>

section \<open>Nothing recorded is lost\<close>

definition event_core :: "event_row \<Rightarrow> event_row" where
  "event_core r = r\<lparr>ev_state := ACKED, ev_resumeState := PENDING_BLOBS, ev_attemptCount := 0,
     ev_nextAttemptAt := 0, ev_lastErrorCode := None, ev_updatedAt := 0, ev_ackedAt := None\<rparr>"

definition outcome_core :: "outcome_row \<Rightarrow> outcome_row" where
  "outcome_core r = r\<lparr>oc_state := OUT_PENDING, oc_result := None, oc_updatedAt := 0\<rparr>"

definition keeps :: "outbox \<Rightarrow> outbox \<Rightarrow> bool" where
  "keeps ob ob' =
     (prefix (map event_core (ob_events ob)) (map event_core (ob_events ob')) \<and>
      prefix (map outcome_core (ob_outcomes ob)) (map outcome_core (ob_outcomes ob')) \<and>
      (\<forall>k bytes. map_of (sp_blobs (ob_spool ob)) k = Some bytes \<longrightarrow>
         map_of (sp_blobs (ob_spool ob')) k = Some bytes))"

lemma keeps_refl [simp]: "keeps ob ob"
  by (simp add: keeps_def)

lemma keeps_trans: "keeps a b \<Longrightarrow> keeps b c \<Longrightarrow> keeps a c"
  by (auto simp: keeps_def dest: prefix_order.trans)

lemma keeps_update_events:
  assumes "\<And>r. p r \<Longrightarrow> event_core (f r) = event_core r"
  shows "keeps ob (ob\<lparr>ob_events := sql_update p f (ob_events ob)\<rparr>)"
proof -
  have "map event_core (sql_update p f (ob_events ob)) = map event_core (ob_events ob)"
    by (rule map_sql_update_same) (rule assms)
  then show ?thesis by (simp add: keeps_def)
qed

lemma keeps_marks:
  "keeps ob (transition now i st resume nextAt err inc ob)"
  "keeps ob (markAcked now i ob)"
  unfolding transition_def markAcked_def update_event_def
  by (rule keeps_update_events, simp add: event_core_def)+

lemma keeps_blob_marks:
  "keeps ob (markBlobConfirmed now k hubKey ob)" "keeps ob (markBlobUnconfirmed k ob)"
  by (simp_all add: keeps_def markBlobConfirmed_def markBlobUnconfirmed_def)

lemma keeps_replay: "keeps ob (snd (replay_loop now ids ob))"
proof (induction ids arbitrary: ob)
  case (Cons i ids)
  have "keeps ob (fst (replay_one now i ob))"
    by (auto simp: replay_one_def Let_def event_core_def split: option.splits intro!: keeps_update_events)
  with Cons.IH [of "fst (replay_one now i ob)"] show ?case
    by (auto simp: split_beta Let_def intro: keeps_trans)
qed simp

lemma keeps_commit: "record_commit env input blobs ob = (r, ob') \<Longrightarrow> keeps ob ob'"
  by (auto simp: record_commit_def Let_def keeps_def split: if_splits)

lemma ingest_all_keeps:
  "ingest_all env i as sp = (r, sp') \<Longrightarrow> map_of (sp_blobs sp) k = Some bytes \<Longrightarrow>
   map_of (sp_blobs sp') k = Some bytes"
proof (induction as arbitrary: i sp r)
  case (Cons a as)
  obtain q sp1 where one: "ingest (re_digest env) (re_views env i) (re_tmp env i) a sp = (q, sp1)"
    by (cases "ingest (re_digest env) (re_views env i) (re_tmp env i) a sp")
  from ingest_keeps [OF one Cons.prems(2)] one Cons show ?case
    by (auto split: sum.splits prod.splits)
qed simp

lemma keeps_spool:
  "(\<And>k bytes. map_of (sp_blobs (ob_spool ob)) k = Some bytes \<Longrightarrow> map_of (sp_blobs sp) k = Some bytes) \<Longrightarrow>
   keeps ob (ob\<lparr>ob_spool := sp\<rparr>)"
  by (simp add: keeps_def)

lemma outbox_record_cases:
  assumes "outbox_record env input ob = (r, ob')"
  obtains (same) "ob' = ob"
  | (failed) e sp where "ingest_all env 0 (ai_attachments input) (ob_spool ob) = (Inl e, sp)"
      "r = Inl e" "ob' = ob\<lparr>ob_spool := sp\<rparr>"
  | (committed) blobs sp where
      "ingest_all env 0 (ai_attachments input) (ob_spool ob) = (Inr blobs, sp)"
      "record_commit env input blobs (ob\<lparr>ob_spool := sp\<rparr>) = (r, ob')"
  using assms unfolding outbox_record_def
  by (cases "ob' = ob") (auto split: if_splits sum.splits option.splits prod.splits)

lemma keeps_record: "outbox_record env input ob = (r, ob') \<Longrightarrow> keeps ob ob'"
proof (erule outbox_record_cases)
  fix e sp
  assume "ingest_all env 0 (ai_attachments input) (ob_spool ob) = (Inl e, sp)" "ob' = ob\<lparr>ob_spool := sp\<rparr>"
  then show "keeps ob ob'" by (auto intro: keeps_spool ingest_all_keeps)
next
  fix blobs sp
  assume a: "ingest_all env 0 (ai_attachments input) (ob_spool ob) = (Inr blobs, sp)"
    "record_commit env input blobs (ob\<lparr>ob_spool := sp\<rparr>) = (r, ob')"
  have "keeps ob (ob\<lparr>ob_spool := sp\<rparr>)" using a(1) by (auto intro: keeps_spool ingest_all_keeps)
  with keeps_commit [OF a(2)] show "keeps ob ob'" by (rule keeps_trans [rotated])
qed simp

lemma keeps_reserve: "keeps ob (snd (reserveAction now i driver request ob))"
  by (auto simp: reserveAction_def keeps_def split: option.splits)

lemma keeps_complete: "keeps ob (completeAction now i result ob)"
proof -
  have "map outcome_core (ob_outcomes (completeAction now i result ob)) = map outcome_core (ob_outcomes ob)"
    unfolding completeAction_def by (simp add: map_sql_update_same outcome_core_def)
  then show ?thesis by (simp add: keeps_def) (simp add: completeAction_def)
qed

lemma keeps_step: "outbox_step dg ob ob' \<Longrightarrow> keeps ob ob'"
proof (induction rule: outbox_step.induct)
  case (step_ingest v tmp a ob r sp)
  then show ?case by (auto intro: keeps_spool ingest_keeps)
next
  case (step_replay now ids ob r ob')
  then show ?case using keeps_replay unfolding replayDeadLetters_def by (metis snd_conv)
next
  case (step_reserve now i driver request ob r ob')
  then show ?case using keeps_reserve [of ob now i driver request] by simp
qed (simp_all add: keeps_record keeps_commit keeps_blob_marks keeps_marks keeps_complete
    markPendingAppend_def markRetry_def markDeadLetter_def)

lemma keeps_reach: "outbox_reach dg ob ob' \<Longrightarrow> keeps ob ob'"
  by (induction rule: outbox_reach.induct) (auto intro: keeps_trans keeps_step)

text \<open>Lookups along \<open>keeps\<close>.\<close>

lemma sql_get_core:
  assumes "\<And>r. key (core r) = key r" "prefix (map core xs) (map core ys)"
    "sql_get (\<lambda>r. key r = k) xs = Some r"
  shows "\<exists>r'. sql_get (\<lambda>r. key r = k) ys = Some r' \<and> core r' = core r"
  using assms(2,3)
proof (induction xs arbitrary: ys)
  case (Cons x xs)
  then obtain y ys' where ys: "ys = y # ys'" "core y = core x" by (cases ys) auto
  then have "key y = key x" by (metis assms(1))
  with Cons ys show ?case by (auto split: if_splits)
qed simp

lemma event_core_simps [simp]:
  "ev_eventId (event_core r) = ev_eventId r" "ev_dedupKey (event_core r) = ev_dedupKey r"
  "ev_inboundId (event_core r) = ev_inboundId r" "ev_rawParams (event_core r) = ev_rawParams r"
  by (simp_all add: event_core_def)

lemma outcome_core_simps [simp]:
  "oc_actionId (outcome_core r) = oc_actionId r" "oc_request (outcome_core r) = oc_request r"
  "oc_driverInstanceId (outcome_core r) = oc_driverInstanceId r"
  by (simp_all add: outcome_core_def)

lemma keeps_event: "keeps ob ob' \<Longrightarrow> find_event i ob = Some r \<Longrightarrow>
  \<exists>r'. find_event i ob' = Some r' \<and> event_core r' = event_core r"
  unfolding keeps_def find_event_def by (rule sql_get_core [of ev_eventId event_core]) auto

lemma keeps_dedup: "keeps ob ob' \<Longrightarrow> sql_get (\<lambda>r. ev_dedupKey r = Some k) (ob_events ob) = Some r \<Longrightarrow>
  \<exists>r'. sql_get (\<lambda>r. ev_dedupKey r = Some k) (ob_events ob') = Some r' \<and> event_core r' = event_core r"
  unfolding keeps_def by (rule sql_get_core [of ev_dedupKey event_core]) auto

lemma keeps_outcome: "keeps ob ob' \<Longrightarrow> find_outcome i ob = Some r \<Longrightarrow>
  \<exists>r'. find_outcome i ob' = Some r' \<and> outcome_core r' = outcome_core r"
  unfolding keeps_def find_outcome_def by (rule sql_get_core [of oc_actionId outcome_core]) auto

section \<open>Contracts\<close>

definition dedup_put :: "string \<Rightarrow> record_env \<times> audit_event_input \<Rightarrow> outbox \<Rightarrow> outbox" where
  "dedup_put k x ob = snd (outbox_record (fst x) ((snd x)\<lparr>ai_dedupKey := Some k\<rparr>) ob)"

definition dedup_get :: "string \<Rightarrow> outbox \<Rightarrow> event_row option" where
  "dedup_get k ob = map_option event_core (sql_get (\<lambda>r. ev_dedupKey r = Some k) (ob_events ob))"

lemma dedup_get_keeps: "keeps ob ob' \<Longrightarrow> dedup_get k ob = Some v \<Longrightarrow> dedup_get k ob' = Some v"
  using keeps_dedup by (fastforce simp: dedup_get_def)

lemma record_events:
  assumes "outbox_record env input ob = (r, ob')"
  shows "ob_events ob' = ob_events ob \<or> (\<exists>row. ob_events ob' = ob_events ob @ [row] \<and> ev_dedupKey row = ai_dedupKey input)"
  using assms
  by (elim outbox_record_cases) (auto simp: record_commit_def Let_def split: if_splits)

interpretation recorded: first_write_store dedup_get dedup_put
proof unfold_locales
  fix k ob v and x :: "record_env \<times> audit_event_input"
  assume "dedup_get k ob = Some v"
  moreover have "keeps ob (dedup_put k x ob)"
    unfolding dedup_put_def by (metis keeps_record prod.collapse)
  ultimately show "dedup_get k (dedup_put k x ob) = Some v" by (rule dedup_get_keeps [rotated])
next
  fix k k' :: string and ob and x :: "record_env \<times> audit_event_input"
  assume ne: "k \<noteq> k'"
  obtain r ob' where run: "outbox_record (fst x) ((snd x)\<lparr>ai_dedupKey := Some k\<rparr>) ob = (r, ob')"
    by (cases "outbox_record (fst x) ((snd x)\<lparr>ai_dedupKey := Some k\<rparr>) ob")
  from record_events [OF run] ne show "dedup_get k' (dedup_put k x ob) = dedup_get k' ob"
    by (auto simp: dedup_put_def dedup_get_def run sql_get_append split: option.splits)
qed

definition reserve_put :: "string \<Rightarrow> millis \<times> string \<times> json \<Rightarrow> outbox \<Rightarrow> outbox" where
  "reserve_put i x ob = (case x of (now, driver, request) \<Rightarrow> snd (reserveAction now i driver request ob))"

definition reserve_get :: "string \<Rightarrow> outbox \<Rightarrow> (string \<times> json) option" where
  "reserve_get i ob = map_option (\<lambda>r. (oc_driverInstanceId r, oc_request r)) (find_outcome i ob)"

interpretation reserved: update_store reserve_get reserve_put
  by unfold_locales
    (auto simp: reserve_get_def reserve_put_def reserveAction_def find_outcome_def sql_get_append
      split: option.splits prod.splits)

section \<open>Recording\<close>

lemma outbox_ok_reach: "outbox_reach dg ob ob' \<Longrightarrow> outbox_ok dg ob \<Longrightarrow> outbox_ok dg ob'"
  by (induction rule: outbox_reach.induct) (auto intro: outbox_ok_step)

lemma record_commit_Inr:
  assumes "record_commit env input blobs ob = (Inr e, ob')"
  shows "ev_eventId e = re_eventId env" "ev_state e = PENDING_BLOBS"
    "\<exists>row. ob_events ob' = ob_events ob @ [row] \<and> mapEvent row = e \<and> ev_dedupKey row = ai_dedupKey input"
    "ob_outcomes ob' = ob_outcomes ob"
  using assms
  by (auto simp: record_commit_def Let_def mapEvent_def stored_audit_event.truncate_def new_event_def split: if_splits)

lemma record_commit_Inl: "record_commit env input blobs ob = (Inl e, ob') \<Longrightarrow> ob' = ob"
  by (auto simp: record_commit_def Let_def split: if_splits)

lemma outbox_record_error:
  assumes "outbox_record env input ob = (Inl e, ob')"
  shows "\<exists>sp. ob' = ob\<lparr>ob_spool := sp\<rparr>"
  using assms
proof (cases rule: outbox_record_cases)
  case same
  then show ?thesis by (intro exI [of _ "ob_spool ob"]) simp
qed (auto dest: record_commit_Inl)

lemma outbox_record_fresh:
  assumes "outbox_record env input ob = (Inr e, ob')" "ob' \<noteq> ob"
  shows "\<exists>row. ob_events ob' = ob_events ob @ [row] \<and> mapEvent row = e \<and> ev_dedupKey row = ai_dedupKey input \<and>
    ev_eventId row = re_eventId env \<and> ev_state row = PENDING_BLOBS"
  using assms(1)
proof (cases rule: outbox_record_cases)
  case (committed blobs sp)
  then show ?thesis
    by (auto simp: record_commit_def Let_def split: if_splits)
qed (use assms(2) in auto)

lemma outbox_record_duplicate:
  assumes "k \<noteq> []" "sql_get (\<lambda>r. ev_dedupKey r = Some k) (ob_events ob) = Some row"
    and "outbox_record env (input\<lparr>ai_dedupKey := Some k\<rparr>) ob = (Inr e, ob')"
  shows "e = mapEvent row \<and> ob' = ob"
  using assms
  by (auto simp: outbox_record_def findByDedupKey_def split: if_splits sum.splits prod.splits)

lemma record_Inr_stored:
  assumes "k \<noteq> []" "outbox_record env (input\<lparr>ai_dedupKey := Some k\<rparr>) ob = (Inr e, ob')"
  shows "\<exists>row. sql_get (\<lambda>r. ev_dedupKey r = Some k) (ob_events ob') = Some row \<and> mapEvent row = e"
proof (cases "sql_get (\<lambda>r. ev_dedupKey r = Some k) (ob_events ob)")
  case None
  have "ob' \<noteq> ob"
  proof
    assume "ob' = ob"
    with assms None show False
      by (auto simp: outbox_record_def findByDedupKey_def record_commit_def Let_def
          split: if_splits sum.splits prod.splits dest!: arg_cong [where f = ob_events])
  qed
  from outbox_record_fresh [OF assms(2) this] None show ?thesis
    by (auto simp: sql_get_append)
next
  case (Some row)
  from outbox_record_duplicate [OF assms(1) Some assms(2)] Some show ?thesis by auto
qed

section \<open>Properties\<close>

text \<open>C2: the outbox is consistent in every reachable state, whatever operations ran and however
  concurrent calls of \<open>record\<close> interleaved at their awaits: no event, deduplication key, blob or
  action occurs twice, the reference count of each blob is the number of events that hold it, every
  key an event holds is a blob of the table, and every blob of the table lies in the spool with its
  recorded size under a name that begins with the digest of its bytes.\<close>

theorem outbox_consistent:
  assumes "outbox_reach dg (outbox_initialize lane quota) ob"
  shows "outbox_ok dg ob"
  using outbox_ok_reach [OF assms outbox_ok_initialize] .

theorem outbox_consistent_witness:
  "outbox_ok \<lparr>dg_sha256 = id, dg_normalizeExtension = (\<lambda>f. [])\<rparr>
     (markAcked 5 ''e'' (snd (reserveAction 1 ''a'' ''d'' JNull (outbox_initialize ''l'' 2))))"
  by (rule outbox_consistent [of _ "''l''" 2])
    (metis reach_refl reach_step step_acked step_reserve prod.collapse)

text \<open>C1: nothing recorded is lost or altered.  From any state to any later one, the events and the
  actions stay in their order with everything but their delivery progress unchanged, new ones are
  only appended, and every file of the spool stays as it is.\<close>

theorem outbox_durable:
  assumes "outbox_reach dg ob ob'"
  shows "prefix (map event_core (ob_events ob)) (map event_core (ob_events ob')) \<and>
    prefix (map outcome_core (ob_outcomes ob)) (map outcome_core (ob_outcomes ob')) \<and>
    (\<forall>k bytes. map_of (sp_blobs (ob_spool ob)) k = Some bytes \<longrightarrow>
       map_of (sp_blobs (ob_spool ob')) k = Some bytes)"
  using keeps_reach [OF assms] by (simp add: keeps_def)

theorem outbox_durable_witness:
  "prefix (map outcome_core (ob_outcomes (outbox_initialize ''l'' 2)))
     (map outcome_core (ob_outcomes (snd (reserveAction 1 ''a'' ''d'' JNull (outbox_initialize ''l'' 2)))))"
  using outbox_durable [of undefined "outbox_initialize ''l'' 2"
      "snd (reserveAction 1 ''a'' ''d'' JNull (outbox_initialize ''l'' 2))"]
  by (metis reach_refl reach_step step_reserve prod.collapse)

text \<open>An event is recorded once per deduplication key.  After a recording under the key k
  succeeded, every later recording under k that succeeds, with whatever input and after whatever
  other operations, returns the same event and changes nothing.\<close>

theorem record_once:
  assumes "k \<noteq> []"
    and "outbox_record env (input\<lparr>ai_dedupKey := Some k\<rparr>) ob = (Inr e, ob1)"
    and "outbox_reach dg ob1 ob2"
    and "outbox_record env' (input'\<lparr>ai_dedupKey := Some k\<rparr>) ob2 = (Inr e', ob3)"
  shows "ev_eventId e' = ev_eventId e \<and> ev_rawParams e' = ev_rawParams e \<and> ob3 = ob2"
proof -
  obtain row where row: "sql_get (\<lambda>r. ev_dedupKey r = Some k) (ob_events ob1) = Some row" "mapEvent row = e"
    using record_Inr_stored [OF assms(1,2)] by blast
  obtain row' where row': "sql_get (\<lambda>r. ev_dedupKey r = Some k) (ob_events ob2) = Some row'"
    "event_core row' = event_core row"
    using keeps_dedup [OF keeps_reach [OF assms(3)] row(1)] by blast
  have "ev_eventId row' = ev_eventId row" "ev_rawParams row' = ev_rawParams row"
    using row'(2) by (metis event_core_simps)+
  with outbox_record_duplicate [OF assms(1) row'(1) assms(4)] row(2) show ?thesis
    by (auto simp: mapEvent_def stored_audit_event.truncate_def)
qed

definition sample_env :: "string \<Rightarrow> record_env" where
  "sample_env i =
     \<lparr>re_freeBytes = MIN_FREE_BYTES, re_views = (\<lambda>_. good_view [] [] []), re_tmp = (\<lambda>_. ''t''),
      re_digest = \<lparr>dg_sha256 = id, dg_normalizeExtension = (\<lambda>f. [])\<rparr>, re_print = (\<lambda>v. ''null''),
      re_eventId = i, re_inboundId = ''in'', re_now = 3\<rparr>"

definition sample_input :: audit_event_input where
  "sample_input =
     \<lparr>ai_direction = Inbound, ai_sourceKind = Source_channel, ai_driverInstanceId = None,
      ai_rawParams = JNull, ai_attachments = [], ai_stagingRoot = None, ai_correlation = JNull,
      ai_dedupKey = None\<rparr>"

lemma sample_record:
  "outbox_record (sample_env i) (sample_input\<lparr>ai_dedupKey := Some ''k''\<rparr>) (outbox_initialize ''l'' 2) =
     (Inr (mapEvent (new_event (sample_env i) ''l'' (sample_input\<lparr>ai_dedupKey := Some ''k''\<rparr>) [])),
      (outbox_initialize ''l'' 2)\<lparr>ob_events := [new_event (sample_env i) ''l'' (sample_input\<lparr>ai_dedupKey := Some ''k''\<rparr>) []]\<rparr>)"
  by (simp add: outbox_record_def summary_def sample_env_def sample_input_def outbox_initialize_def
      validateAttachmentSet_def findByDedupKey_def record_commit_def FAIL_CLOSED_RATIO_def Let_def)

theorem record_once_witness:
  "ev_eventId (projr (fst (outbox_record (sample_env ''e2'') (sample_input\<lparr>ai_dedupKey := Some ''k''\<rparr>)
     (snd (outbox_record (sample_env ''e1'') (sample_input\<lparr>ai_dedupKey := Some ''k''\<rparr>) (outbox_initialize ''l'' 2)))))) = ''e1''"
proof -
  let ?ob1 = "snd (outbox_record (sample_env ''e1'') (sample_input\<lparr>ai_dedupKey := Some ''k''\<rparr>) (outbox_initialize ''l'' 2))"
  have again: "outbox_record (sample_env ''e2'') (sample_input\<lparr>ai_dedupKey := Some ''k''\<rparr>) ?ob1 =
      (Inr (mapEvent (new_event (sample_env ''e1'') ''l'' (sample_input\<lparr>ai_dedupKey := Some ''k''\<rparr>) [])), ?ob1)"
    unfolding sample_record
    by (simp add: outbox_record_def summary_def sample_env_def sample_input_def outbox_initialize_def
      validateAttachmentSet_def findByDedupKey_def FAIL_CLOSED_RATIO_def Let_def)
  have "ev_eventId (projr (fst (outbox_record (sample_env ''e2'') (sample_input\<lparr>ai_dedupKey := Some ''k''\<rparr>) ?ob1))) =
      ev_eventId (mapEvent (new_event (sample_env ''e1'') ''l'' (sample_input\<lparr>ai_dedupKey := Some ''k''\<rparr>) []))"
    unfolding again fst_conv sum.sel
    by (rule conjunct1 [OF record_once [OF _ sample_record _ again, of undefined]])
      (simp_all add: sample_record reach_refl)
  then show ?thesis by (simp add: mapEvent_def stored_audit_event.truncate_def sample_env_def)
qed

text \<open>Recording is all or nothing.  When it fails, for lack of capacity, an invalid attachment or
  any answer of the file system, no table has changed; when it succeeds and was no duplicate,
  exactly one event was added, in state PENDING_BLOBS.\<close>

theorem record_all_or_nothing:
  "case outbox_record env input ob of
     (Inl e, ob') \<Rightarrow> ob_events ob' = ob_events ob \<and> ob_blobs ob' = ob_blobs ob \<and>
       ob_event_blobs ob' = ob_event_blobs ob \<and> ob_outcomes ob' = ob_outcomes ob
   | (Inr e, ob') \<Rightarrow> ob' = ob \<or>
       (\<exists>row. ob_events ob' = ob_events ob @ [row] \<and> mapEvent row = e \<and>
          ev_eventId row = re_eventId env \<and> ev_state row = PENDING_BLOBS \<and> ev_dedupKey row = ai_dedupKey input)"
proof -
  obtain r ob' where run: "outbox_record env input ob = (r, ob')" by (cases "outbox_record env input ob")
  show ?thesis
  proof (cases r)
    case (Inl e)
    with run outbox_record_error [of env input ob e ob'] show ?thesis by auto
  next
    case (Inr e)
    with run outbox_record_fresh [of env input ob e ob'] show ?thesis by auto
  qed
qed

text \<open>An action is reserved once.  After a reservation of an action succeeded, every later one of
  the same action, after whatever operations in between, is answered as a duplicate and leaves the
  first request in place.\<close>

theorem action_reserved_once:
  assumes "reserveAction now i driver request ob = ((False, x), ob1)" "outbox_reach dg ob1 ob2"
  shows "fst (fst (reserveAction now' i driver' request' ob2)) \<and>
    snd (reserveAction now' i driver' request' ob2) = ob2 \<and>
    (\<exists>r. find_outcome i ob2 = Some r \<and> oc_request r = request \<and> oc_driverInstanceId r = driver)"
proof -
  from assms(1) obtain row where row: "find_outcome i ob1 = Some row" "oc_request row = request"
    "oc_driverInstanceId row = driver"
    by (auto simp: reserveAction_def find_outcome_def sql_get_append split: option.splits)
  from keeps_outcome [OF keeps_reach [OF assms(2)] row(1)] obtain row' where
    row': "find_outcome i ob2 = Some row'" "outcome_core row' = outcome_core row" by blast
  then have "oc_request row' = request" "oc_driverInstanceId row' = driver"
    using row by (metis outcome_core_simps)+
  with row'(1) show ?thesis by (simp add: reserveAction_def)
qed

theorem action_reserved_once_witness:
  "fst (fst (reserveAction 9 ''a'' ''other'' JNull
      (completeAction 5 ''a'' (JBool True) (snd (reserveAction 1 ''a'' ''d'' JNull (outbox_initialize ''l'' 2))))))"
proof -
  let ?ob = "outbox_initialize ''l'' 2"
  have r: "reserveAction 1 ''a'' ''d'' JNull ?ob = ((False, JNull), snd (reserveAction 1 ''a'' ''d'' JNull ?ob))"
    by (simp add: reserveAction_def find_outcome_def outbox_initialize_def)
  show ?thesis
    by (rule conjunct1 [OF action_reserved_once [OF r, of undefined]])
      (rule reach_step [OF reach_refl step_complete])
qed

section \<open>Replay\<close>

lemma replay_one_spec:
  assumes "distinct (map ev_eventId (ob_events ob))"
  shows "ob_events (fst (replay_one now i ob)) =
      map (\<lambda>r. if ev_eventId r = i \<and> ev_state r = DEAD_LETTER
           then (let resume = (if blobsConfirmed (mapEvent r) ob then PENDING_APPEND else PENDING_BLOBS) in
             r\<lparr>ev_state := resume, ev_resumeState := resume, ev_nextAttemptAt := 0, ev_updatedAt := now\<rparr>)
           else r) (ob_events ob)"
    and "snd (replay_one now i ob) \<longleftrightarrow> (\<exists>r\<in>set (ob_events ob). ev_eventId r = i \<and> ev_state r = DEAD_LETTER)"
proof -
  have uniq: "r = r'" if "r \<in> set (ob_events ob)" "r' \<in> set (ob_events ob)" "ev_eventId r = ev_eventId r'" for r r'
    using distinct_map_eq [OF assms] that by simp
  show "ob_events (fst (replay_one now i ob)) =
      map (\<lambda>r. if ev_eventId r = i \<and> ev_state r = DEAD_LETTER
           then (let resume = (if blobsConfirmed (mapEvent r) ob then PENDING_APPEND else PENDING_BLOBS) in
             r\<lparr>ev_state := resume, ev_resumeState := resume, ev_nextAttemptAt := 0, ev_updatedAt := now\<rparr>)
           else r) (ob_events ob)" (is "_ = map ?f _")
  proof (cases "find_event i ob")
    case None
    then have no: "r \<in> set (ob_events ob) \<Longrightarrow> ev_eventId r \<noteq> i" for r
      by (auto simp: find_event_def sql_get_None_iff)
    have "map ?f (ob_events ob) = ob_events ob" by (rule map_idI) (simp add: no)
    with None show ?thesis by (simp add: replay_one_def)
  next
    case (Some r)
    then have r: "r \<in> set (ob_events ob)" "ev_eventId r = i"
      using sql_get_SomeD unfolding find_event_def by fastforce+
    have eq: "\<And>s. s \<in> set (ob_events ob) \<Longrightarrow> ev_eventId s = i \<Longrightarrow> s = r" using uniq r by blast
    show ?thesis
    proof (cases "ev_state r = DEAD_LETTER")
      case True
      with Some show ?thesis
        by (auto simp: replay_one_def sql_update_def Let_def dest!: eq)
    next
      case False
      then have "map ?f (ob_events ob) = ob_events ob" using eq by (intro map_idI) auto
      with Some False show ?thesis by (simp add: replay_one_def)
    qed
  qed
  show "snd (replay_one now i ob) \<longleftrightarrow> (\<exists>r\<in>set (ob_events ob). ev_eventId r = i \<and> ev_state r = DEAD_LETTER)"
  proof (cases "find_event i ob")
    case None
    then have "\<forall>r\<in>set (ob_events ob). ev_eventId r \<noteq> i" by (simp add: find_event_def sql_get_None_iff)
    with None show ?thesis by (auto simp: replay_one_def)
  next
    case (Some r)
    then have r: "r \<in> set (ob_events ob)" "ev_eventId r = i"
      using sql_get_SomeD unfolding find_event_def by fastforce+
    with Some uniq show ?thesis by (auto simp: replay_one_def Let_def)
  qed
qed

definition replayed_row :: "outbox \<Rightarrow> millis \<Rightarrow> event_row \<Rightarrow> event_row" where
  "replayed_row ob now r =
     (let resume = (if blobsConfirmed (mapEvent r) ob then PENDING_APPEND else PENDING_BLOBS) in
      r\<lparr>ev_state := resume, ev_resumeState := resume, ev_nextAttemptAt := 0, ev_updatedAt := now\<rparr>)"

lemma blobsConfirmed_blobs: "ob_blobs ob' = ob_blobs ob \<Longrightarrow> blobsConfirmed e ob' = blobsConfirmed e ob"
  by (simp add: blobsConfirmed_def getBlob_def)

lemma replay_one_blobs: "ob_blobs (fst (replay_one now i ob)) = ob_blobs ob"
  by (simp add: replay_one_def Let_def split: option.splits)

lemma replayed_row_simps [simp]:
  "ev_eventId (replayed_row ob now r) = ev_eventId r"
  "ev_state (replayed_row ob now r) \<noteq> DEAD_LETTER"
  by (simp_all add: replayed_row_def Let_def)

lemma replay_loop_spec:
  assumes "distinct (map ev_eventId (ob_events ob))"
  shows "ob_events (snd (replay_loop now ids ob)) =
      map (\<lambda>r. if ev_eventId r \<in> set ids \<and> ev_state r = DEAD_LETTER then replayed_row ob now r else r) (ob_events ob)
    \<and> set (fst (fst (replay_loop now ids ob))) =
        {i \<in> set ids. \<exists>r\<in>set (ob_events ob). ev_eventId r = i \<and> ev_state r = DEAD_LETTER}
    \<and> distinct (fst (fst (replay_loop now ids ob)))
    \<and> length (fst (fst (replay_loop now ids ob))) + length (snd (fst (replay_loop now ids ob))) = length ids"
  using assms
proof (induction ids arbitrary: ob)
  case Nil
  then show ?case by simp
next
  case (Cons i ids)
  let ?ob1 = "fst (replay_one now i ob)" and ?ok = "snd (replay_one now i ob)"
  let ?f = "\<lambda>r. if ev_eventId r = i \<and> ev_state r = DEAD_LETTER then replayed_row ob now r else r"
  note spec = replay_one_spec [OF Cons.prems, of now i]
  have evs1: "ob_events ?ob1 = map ?f (ob_events ob)"
    by (simp add: spec(1) replayed_row_def)
  have row: "replayed_row ?ob1 now r = replayed_row ob now r" for r
    by (simp add: replayed_row_def blobsConfirmed_blobs [OF replay_one_blobs])
  have dist: "distinct (map ev_eventId (ob_events ?ob1))"
  proof -
    have "map ev_eventId (ob_events ?ob1) = map ev_eventId (ob_events ob)" by (simp add: evs1)
    then show ?thesis using Cons.prems by simp
  qed
  note ih = Cons.IH [OF dist]
  have step: "replay_loop now (i # ids) ob =
      ((if ?ok then (i # fst (fst (replay_loop now ids ?ob1)), snd (fst (replay_loop now ids ?ob1)))
        else (fst (fst (replay_loop now ids ?ob1)), i # snd (fst (replay_loop now ids ?ob1)))),
       snd (replay_loop now ids ?ob1))"
    by (simp add: split_beta Let_def)
  have dead: "(\<exists>r\<in>set (ob_events ?ob1). ev_eventId r = j \<and> ev_state r = DEAD_LETTER) \<longleftrightarrow>
      j \<noteq> i \<and> (\<exists>r\<in>set (ob_events ob). ev_eventId r = j \<and> ev_state r = DEAD_LETTER)" for j
    by (auto simp: evs1)
  have "ob_events (snd (replay_loop now (i # ids) ob)) =
      map (\<lambda>r. if ev_eventId r \<in> set (i # ids) \<and> ev_state r = DEAD_LETTER then replayed_row ob now r else r) (ob_events ob)"
    unfolding step snd_conv conjunct1 [OF ih] evs1 by (auto simp: row)
  moreover have "set (fst (fst (replay_loop now (i # ids) ob))) =
      {j \<in> set (i # ids). \<exists>r\<in>set (ob_events ob). ev_eventId r = j \<and> ev_state r = DEAD_LETTER}"
    unfolding step using ih spec(2) by (auto simp: dead)
  moreover have "distinct (fst (fst (replay_loop now (i # ids) ob)))"
    unfolding step using ih by (auto simp: dead)
  moreover have "length (fst (fst (replay_loop now (i # ids) ob))) +
      length (snd (fst (replay_loop now (i # ids) ob))) = length (i # ids)"
    unfolding step using ih by simp
  ultimately show ?case by blast
qed

text \<open>A replay moves exactly the dead letters it names and reports exactly those.  Each goes back
  to the blob phase unless all its blobs are confirmed, keeping its attempt count and last error;
  no other event changes, so an event the Hub acknowledged is never sent again; and every name
  given is reported once, as replayed or as skipped.\<close>

theorem replay_exact:
  assumes "outbox_reach dg (outbox_initialize lane quota) ob"
  shows "ob_events (snd (replayDeadLetters now (Some ids) ob)) =
      map (\<lambda>r. if ev_eventId r \<in> set ids \<and> ev_state r = DEAD_LETTER then replayed_row ob now r else r) (ob_events ob)
    \<and> set (fst (fst (replayDeadLetters now (Some ids) ob))) =
        {i \<in> set ids. \<exists>r\<in>set (ob_events ob). ev_eventId r = i \<and> ev_state r = DEAD_LETTER}
    \<and> distinct (fst (fst (replayDeadLetters now (Some ids) ob)))
    \<and> length (fst (fst (replayDeadLetters now (Some ids) ob))) +
        length (snd (fst (replayDeadLetters now (Some ids) ob))) = length ids"
proof -
  have "distinct (map ev_eventId (ob_events ob))"
    using outbox_ok_reach [OF assms outbox_ok_initialize] by (simp add: outbox_ok_def events_ok_def)
  from replay_loop_spec [OF this] show ?thesis by (simp add: replayDeadLetters_def)
qed

theorem replay_exact_witness:
  "fst (replayDeadLetters 9 (Some [''e1'', ''zz'', ''e1'']) (markDeadLetter 5 ''e1'' ''BAD''
      (snd (outbox_record (sample_env ''e1'') (sample_input\<lparr>ai_dedupKey := Some ''k''\<rparr>) (outbox_initialize ''l'' 2))))) =
   ([''e1''], [''zz'', ''e1'']) \<and>
   set (fst (fst (replayDeadLetters 9 (Some [''e1'', ''zz'']) (markDeadLetter 5 ''e1'' ''BAD''
      (snd (outbox_record (sample_env ''e1'') (sample_input\<lparr>ai_dedupKey := Some ''k''\<rparr>) (outbox_initialize ''l'' 2))))))) = {''e1''}"
proof
  let ?ob = "markDeadLetter 5 ''e1'' ''BAD''
      (snd (outbox_record (sample_env ''e1'') (sample_input\<lparr>ai_dedupKey := Some ''k''\<rparr>) (outbox_initialize ''l'' 2)))"
  have evs: "ob_events ?ob = [(new_event (sample_env ''e1'') ''l'' (sample_input\<lparr>ai_dedupKey := Some ''k''\<rparr>) [])
      \<lparr>ev_state := DEAD_LETTER, ev_resumeState := PENDING_APPEND, ev_nextAttemptAt := 0,
       ev_lastErrorCode := Some ''BAD'', ev_updatedAt := 5, ev_attemptCount := 1\<rparr>]"
    unfolding sample_record snd_conv
    by (simp add: markDeadLetter_def transition_def update_event_def new_event_def sample_env_def)
  have "outbox_reach (re_digest (sample_env ''e1'')) (outbox_initialize ''l'' 2) ?ob"
    by (rule reach_step [OF reach_step [OF reach_refl] step_dead])
      (rule step_record [OF refl, where r = "fst _" and ob' = "snd _", OF prod.collapse [symmetric]])
  note ex = replay_exact [OF this, of 9 "[''e1'', ''zz'']"]
  show "set (fst (fst (replayDeadLetters 9 (Some [''e1'', ''zz'']) ?ob))) = {''e1''}"
    using conjunct1 [OF conjunct2 [OF ex]] unfolding evs by (auto simp: sample_env_def)
  show "fst (replayDeadLetters 9 (Some [''e1'', ''zz'', ''e1'']) ?ob) = ([''e1''], [''zz'', ''e1''])"
    using evs by (simp add: replayDeadLetters_def replay_one_def find_event_def Let_def sample_env_def)
qed

end
