(* ===== verification/Inbox.thy ===== *)
theory Inbox
  imports Outbox Interfaces
begin

text \<open>
  \<open>src/runtime/inbox.ts\<close>: the durable queue of turns of a lane and its conversations.  A row is a
  record and a table the list of its rows in rowid order; \<open>mapTurn\<close> and \<open>mapConversation\<close> only rename
  columns, so a row stands for both.  Fresh identifiers and the clock are arguments.
\<close>

section \<open>Rows\<close>

datatype runtime_turn_state = PENDING | OBSERVED | RUNNING | COMPLETED | FAILED | CANCELLED

record runtime_turn =
  tn_turnId :: string
  tn_sourceKind :: audit_source_kind
  tn_sourceMessageId :: string
  tn_content :: string
  tn_correlation :: json
  tn_state :: runtime_turn_state
  tn_response :: "string option"
  tn_conversationId :: "string option"
  tn_errorCode :: "string option"
  tn_createdAt :: millis
  tn_updatedAt :: millis

record runtime_conversation =
  cv_contextKey :: string
  cv_conversationId :: string
  cv_workspace :: string
  cv_runtimeKind :: string
  cv_model :: "string option"
  cv_successfulTurns :: nat
  cv_createdAt :: millis
  cv_lastUsedAt :: millis

record inbox =
  ib_turns :: "runtime_turn list"
  ib_conversations :: "runtime_conversation list"

text \<open>A message of the mesh, as the contracts package declares it.\<close>

record mesh_message =
  mm_id :: string
  mm_content :: string
  mm_from :: json
  mm_sent_by :: json
  mm_to :: json
  mm_reply_to :: "string option"

section \<open>Turns\<close>

definition inbox_initialize :: "millis \<Rightarrow> inbox \<Rightarrow> inbox" where
  "inbox_initialize now ib =
     ib\<lparr>ib_turns := sql_update (\<lambda>t. tn_state t = RUNNING)
       (\<lambda>t. t\<lparr>tn_state := PENDING, tn_updatedAt := now\<rparr>) (ib_turns ib)\<rparr>"

definition empty_inbox :: inbox where
  "empty_inbox = \<lparr>ib_turns = [], ib_conversations = []\<rparr>"

record enqueue_input =
  qi_sourceKind :: audit_source_kind
  qi_sourceMessageId :: string
  qi_content :: string
  qi_correlation :: json
  qi_initialState :: runtime_turn_state

definition find_source :: "string \<Rightarrow> inbox \<Rightarrow> runtime_turn option" where
  "find_source s ib = sql_get (\<lambda>t. tn_sourceMessageId t = s) (ib_turns ib)"

definition get_turn :: "string \<Rightarrow> inbox \<Rightarrow> runtime_turn option" where
  "get_turn i ib = sql_get (\<lambda>t. tn_turnId t = i) (ib_turns ib)"

definition enqueue :: "string \<Rightarrow> millis \<Rightarrow> enqueue_input \<Rightarrow> inbox \<Rightarrow> runtime_turn \<times> inbox" where
  "enqueue turnId now input ib =
     (case find_source (qi_sourceMessageId input) ib of
        Some existing \<Rightarrow> (existing, ib)
      | None \<Rightarrow>
          (let t = \<lparr>tn_turnId = turnId, tn_sourceKind = qi_sourceKind input,
                    tn_sourceMessageId = qi_sourceMessageId input, tn_content = qi_content input,
                    tn_correlation = qi_correlation input, tn_state = qi_initialState input,
                    tn_response = None, tn_conversationId = None, tn_errorCode = None,
                    tn_createdAt = now, tn_updatedAt = now\<rparr> in
           (t, ib\<lparr>ib_turns := ib_turns ib @ [t]\<rparr>)))"

definition mesh_input :: "mesh_message \<Rightarrow> enqueue_input" where
  "mesh_input m =
     \<lparr>qi_sourceKind = Source_mesh, qi_sourceMessageId = mm_id m, qi_content = mm_content m,
      qi_correlation = JObj [(''source_kind'', JStr ''mesh''), (''from'', mm_from m),
        (''sent_by'', mm_sent_by m), (''to'', mm_to m), (''reply_to'', JStr (mm_id m)),
        (''inbound_reply_to'', jopt (mm_reply_to m))],
      qi_initialState = (if mm_reply_to m = None then PENDING else OBSERVED)\<rparr>"

definition enqueueMesh :: "string \<Rightarrow> millis \<Rightarrow> mesh_message \<Rightarrow> inbox \<Rightarrow> runtime_turn \<times> inbox" where
  "enqueueMesh turnId now m = enqueue turnId now (mesh_input m)"

text \<open>\<open>raw\<close> is what \<open>JSON.parse\<close> gives for the event's parameters.\<close>

definition channel_input :: "stored_audit_event \<Rightarrow> json \<Rightarrow> enqueue_input" where
  "channel_input e raw =
     \<lparr>qi_sourceKind = Source_channel,
      qi_sourceMessageId =
        (case jstr (jfield raw ''provider_message_id'') of
           Some m \<Rightarrow> (case ev_driverInstanceId e of Some d \<Rightarrow> d | None \<Rightarrow> ''channel'') @ '':'' @ m
         | None \<Rightarrow> ev_eventId e),
      qi_content = (case jstr (jfield raw ''text'') of Some t \<Rightarrow> t | None \<Rightarrow> []),
      qi_correlation = ev_correlation e, qi_initialState = PENDING\<rparr>"

definition enqueueChannel ::
  "(string \<Rightarrow> json option) \<Rightarrow> string \<Rightarrow> millis \<Rightarrow> stored_audit_event \<Rightarrow> inbox \<Rightarrow> (exn + runtime_turn) \<times> inbox"
where
  "enqueueChannel parse turnId now e ib =
     (case parse (ev_rawParams e) of
        None \<Rightarrow> (Inl (PlainError ''JSON Parse error''), ib)
      | Some raw \<Rightarrow> (let (t, ib') = enqueue turnId now (channel_input e raw) ib in (Inr t, ib')))"

definition pending_turns :: "inbox \<Rightarrow> runtime_turn list" where
  "pending_turns ib = sort_key tn_createdAt (filter (\<lambda>t. tn_state t = PENDING) (ib_turns ib))"

definition next_turn :: "inbox \<Rightarrow> runtime_turn option" where
  "next_turn ib = (case pending_turns ib of [] \<Rightarrow> None | t # ts \<Rightarrow> Some t)"

definition claimNext :: "millis \<Rightarrow> inbox \<Rightarrow> runtime_turn option \<times> inbox" where
  "claimNext now ib =
     (case next_turn ib of
        None \<Rightarrow> (None, ib)
      | Some row \<Rightarrow>
          (let ib' = ib\<lparr>ib_turns := sql_update (\<lambda>t. tn_turnId t = tn_turnId row \<and> tn_state t = PENDING)
                 (\<lambda>t. t\<lparr>tn_state := RUNNING, tn_updatedAt := now\<rparr>) (ib_turns ib)\<rparr> in
           (get_turn (tn_turnId row) ib', ib')))"

definition setState ::
  "millis \<Rightarrow> string \<Rightarrow> runtime_turn_state \<Rightarrow> string option \<Rightarrow> string option \<Rightarrow> string option \<Rightarrow> inbox \<Rightarrow> inbox"
where
  "setState now i st resp conv err ib =
     ib\<lparr>ib_turns := sql_update (\<lambda>t. tn_turnId t = i)
       (\<lambda>t. t\<lparr>tn_state := st, tn_response := resp, tn_conversationId := conv, tn_errorCode := err,
              tn_updatedAt := now\<rparr>) (ib_turns ib)\<rparr>"

definition markRunning :: "millis \<Rightarrow> string \<Rightarrow> inbox \<Rightarrow> inbox" where
  "markRunning now i = setState now i RUNNING None None None"

definition complete_turn :: "millis \<Rightarrow> string \<Rightarrow> string \<Rightarrow> string option \<Rightarrow> inbox \<Rightarrow> inbox" where
  "complete_turn now i response conversationId = setState now i COMPLETED (Some response) conversationId None"

definition fail_turn :: "millis \<Rightarrow> string \<Rightarrow> string \<Rightarrow> inbox \<Rightarrow> inbox" where
  "fail_turn now i errorCode = setState now i FAILED None None (Some errorCode)"

text \<open>\<open>ORDER BY updated_at DESC LIMIT 1\<close> over the turns with a conversation.\<close>

definition latestConversationId :: "inbox \<Rightarrow> string option" where
  "latestConversationId ib =
     (case sort_key (\<lambda>t. - tn_updatedAt t) (filter (\<lambda>t. tn_conversationId t \<noteq> None) (ib_turns ib)) of
        [] \<Rightarrow> None | t # ts \<Rightarrow> tn_conversationId t)"

definition countsByState :: "inbox \<Rightarrow> runtime_turn_state \<Rightarrow> nat" where
  "countsByState ib st = sql_count (\<lambda>t. tn_state t = st) (ib_turns ib)"

definition list_turns :: "nat \<Rightarrow> inbox \<Rightarrow> runtime_turn list" where
  "list_turns lmt ib = take lmt (sort_key (\<lambda>t. - tn_createdAt t) (ib_turns ib))"

section \<open>Conversations\<close>

definition getConversation :: "string \<Rightarrow> inbox \<Rightarrow> runtime_conversation option" where
  "getConversation k ib = sql_get (\<lambda>c. cv_contextKey c = k) (ib_conversations ib)"

definition saveConversation ::
  "millis \<Rightarrow> string \<Rightarrow> string \<Rightarrow> string \<Rightarrow> string \<Rightarrow> string option \<Rightarrow> inbox \<Rightarrow> inbox"
where
  "saveConversation now key conv workspace kind model ib =
     (if getConversation key ib = None
      then ib\<lparr>ib_conversations := ib_conversations ib @
        [\<lparr>cv_contextKey = key, cv_conversationId = conv, cv_workspace = workspace,
          cv_runtimeKind = kind, cv_model = model, cv_successfulTurns = 1, cv_createdAt = now,
          cv_lastUsedAt = now\<rparr>]\<rparr>
      else ib\<lparr>ib_conversations := sql_update (\<lambda>c. cv_contextKey c = key)
        (\<lambda>c. c\<lparr>cv_conversationId := conv, cv_workspace := workspace, cv_runtimeKind := kind,
               cv_model := model, cv_successfulTurns := cv_successfulTurns c + 1, cv_lastUsedAt := now\<rparr>)
        (ib_conversations ib)\<rparr>)"

definition resetConversation :: "string \<Rightarrow> inbox \<Rightarrow> bool \<times> inbox" where
  "resetConversation key ib =
     (getConversation key ib \<noteq> None,
      ib\<lparr>ib_conversations := filter (\<lambda>c. cv_contextKey c \<noteq> key) (ib_conversations ib)\<rparr>)"

definition listConversations :: "inbox \<Rightarrow> runtime_conversation list" where
  "listConversations ib = sort_key (\<lambda>c. - cv_lastUsedAt c) (ib_conversations ib)"

section \<open>The invariant\<close>

definition inbox_ok :: "inbox \<Rightarrow> bool" where
  "inbox_ok ib =
     (distinct (map tn_turnId (ib_turns ib)) \<and>
      distinct (map tn_sourceMessageId (ib_turns ib)) \<and>
      distinct (map cv_contextKey (ib_conversations ib)))"

text \<open>An identity of a turn that no operation changes.\<close>

definition turn_core :: "runtime_turn \<Rightarrow> runtime_turn" where
  "turn_core t = t\<lparr>tn_state := PENDING, tn_response := None, tn_conversationId := None,
     tn_errorCode := None, tn_updatedAt := 0\<rparr>"

lemma turn_core_simps [simp]:
  "tn_turnId (turn_core t) = tn_turnId t" "tn_sourceMessageId (turn_core t) = tn_sourceMessageId t"
  "tn_content (turn_core t) = tn_content t" "tn_correlation (turn_core t) = tn_correlation t"
  "tn_createdAt (turn_core t) = tn_createdAt t"
  by (simp_all add: turn_core_def)

lemma inbox_ok_update:
  assumes "inbox_ok ib" "\<And>t. p t \<Longrightarrow> turn_core (f t) = turn_core t"
  shows "inbox_ok (ib\<lparr>ib_turns := sql_update p f (ib_turns ib)\<rparr>)"
proof -
  have "map tn_turnId (sql_update p f (ib_turns ib)) = map tn_turnId (ib_turns ib)"
    "map tn_sourceMessageId (sql_update p f (ib_turns ib)) = map tn_sourceMessageId (ib_turns ib)"
    using assms(2) by (auto intro!: map_sql_update_same) (metis turn_core_simps)+
  with assms(1) show ?thesis by (simp add: inbox_ok_def)
qed

lemma inbox_ok_setState: "inbox_ok ib \<Longrightarrow> inbox_ok (setState now i st resp conv err ib)"
  unfolding setState_def by (rule inbox_ok_update) (auto simp: turn_core_def)

lemma inbox_ok_initialize: "inbox_ok ib \<Longrightarrow> inbox_ok (inbox_initialize now ib)"
  unfolding inbox_initialize_def by (rule inbox_ok_update) (auto simp: turn_core_def)

lemma inbox_ok_claim: "inbox_ok ib \<Longrightarrow> inbox_ok (snd (claimNext now ib))"
  by (auto simp: claimNext_def Let_def turn_core_def split: option.splits intro!: inbox_ok_update)

lemma inbox_ok_enqueue:
  "inbox_ok ib \<Longrightarrow> turnId \<notin> tn_turnId ` set (ib_turns ib) \<Longrightarrow> inbox_ok (snd (enqueue turnId now input ib))"
  by (auto simp: enqueue_def find_source_def inbox_ok_def Let_def sql_get_None_iff split: option.splits)

lemma inbox_ok_save: "inbox_ok ib \<Longrightarrow> inbox_ok (saveConversation now k c w kd m ib)"
  by (auto simp: saveConversation_def getConversation_def inbox_ok_def sql_get_None_iff map_sql_update_same)

lemma inbox_ok_reset: "inbox_ok ib \<Longrightarrow> inbox_ok (snd (resetConversation k ib))"
  by (auto simp: resetConversation_def inbox_ok_def distinct_map_filter)

section \<open>Contracts\<close>

definition source_put :: "string \<Rightarrow> string \<times> millis \<times> enqueue_input \<Rightarrow> inbox \<Rightarrow> inbox" where
  "source_put s x ib =
     (case x of (turnId, now, input) \<Rightarrow> snd (enqueue turnId now (input\<lparr>qi_sourceMessageId := s\<rparr>) ib))"

definition source_get :: "string \<Rightarrow> inbox \<Rightarrow> runtime_turn option" where
  "source_get s ib = map_option turn_core (find_source s ib)"

interpretation enqueued: update_store source_get source_put
  by unfold_locales
    (auto simp: source_get_def source_put_def enqueue_def find_source_def sql_get_append Let_def
      split: option.splits prod.splits)

section \<open>The queue\<close>

lemma pending_turns_set: "set (pending_turns ib) = {t \<in> set (ib_turns ib). tn_state t = PENDING}"
  by (auto simp: pending_turns_def)

lemma next_turn_None: "next_turn ib = None \<longleftrightarrow> (\<forall>t\<in>set (ib_turns ib). tn_state t \<noteq> PENDING)"
proof -
  have "next_turn ib = None \<longleftrightarrow> set (pending_turns ib) = {}"
    by (simp add: next_turn_def split: list.split)
  then show ?thesis by (auto simp: pending_turns_set)
qed

lemma next_turn_Some:
  assumes "next_turn ib = Some t"
  shows "t \<in> set (ib_turns ib)" "tn_state t = PENDING"
    "\<forall>u\<in>set (ib_turns ib). tn_state u = PENDING \<longrightarrow> tn_createdAt t \<le> tn_createdAt u"
proof -
  from assms obtain ts where ts: "pending_turns ib = t # ts"
    by (auto simp: next_turn_def split: list.splits)
  then have t: "t \<in> set (pending_turns ib)" by simp
  then show "t \<in> set (ib_turns ib)" "tn_state t = PENDING" by (auto simp: pending_turns_set)
  have "sorted (map tn_createdAt (pending_turns ib))" by (simp add: pending_turns_def)
  with ts have "\<forall>u\<in>set (pending_turns ib). tn_createdAt t \<le> tn_createdAt u" by auto
  then show "\<forall>u\<in>set (ib_turns ib). tn_state u = PENDING \<longrightarrow> tn_createdAt t \<le> tn_createdAt u"
    by (simp add: pending_turns_set)
qed

lemma claimNext_Some:
  assumes "inbox_ok ib" "claimNext now ib = (Some t, ib')"
  shows "\<exists>t0. next_turn ib = Some t0 \<and> t = t0\<lparr>tn_state := RUNNING, tn_updatedAt := now\<rparr> \<and>
    ib' = ib\<lparr>ib_turns := map (\<lambda>u. if u = t0 then t else u) (ib_turns ib)\<rparr>"
proof -
  from assms(2) obtain t0 where n: "next_turn ib = Some t0"
    by (cases "next_turn ib") (simp_all add: claimNext_def)
  define ib1 where "ib1 = ib\<lparr>ib_turns := sql_update (\<lambda>u. tn_turnId u = tn_turnId t0 \<and> tn_state u = PENDING)
        (\<lambda>u. u\<lparr>tn_state := RUNNING, tn_updatedAt := now\<rparr>) (ib_turns ib)\<rparr>"
  have "claimNext now ib = (get_turn (tn_turnId t0) ib1, ib1)"
    using n by (simp add: claimNext_def Let_def ib1_def)
  with assms(2) have ib1: "ib' = ib1" and g: "get_turn (tn_turnId t0) ib' = Some t" by auto
  note ib' = ib1 [unfolded ib1_def]
  note t0 = next_turn_Some [OF n]
  have dist: "distinct (map tn_turnId (ib_turns ib))" using assms(1) by (simp add: inbox_ok_def)
  have uniq: "u \<in> set (ib_turns ib) \<Longrightarrow> tn_turnId u = tn_turnId t0 \<Longrightarrow> u = t0" for u
    using distinct_map_eq [OF dist _ t0(1)] by simp
  let ?t = "t0\<lparr>tn_state := RUNNING, tn_updatedAt := now\<rparr>"
  have turns: "ib_turns ib' = map (\<lambda>u. if u = t0 then ?t else u) (ib_turns ib)"
    unfolding ib' sql_update_def using uniq t0(2) by auto
  have "map tn_turnId (ib_turns ib') = map tn_turnId (ib_turns ib)" by (simp add: turns)
  with dist have "distinct (map tn_turnId (ib_turns ib'))" by simp
  moreover have "?t \<in> set (ib_turns ib')" using t0(1) by (auto simp: turns)
  ultimately have "get_turn (tn_turnId t0) ib' = Some ?t"
    unfolding get_turn_def by (rule sql_get_key_unique) simp
  with g have "t = ?t" by simp
  moreover have "ib' = ib\<lparr>ib_turns := map (\<lambda>u. if u = t0 then ?t else u) (ib_turns ib)\<rparr>"
    using turns unfolding ib' by simp
  ultimately show ?thesis using n by blast
qed

section \<open>Properties\<close>



text \<open>A restart loses no turn and repeats no finished one.  The turns that were running when the
  process died are pending again, so a claim can reach them; every other turn is as it was.\<close>

theorem inbox_restart:
  "map turn_core (ib_turns (inbox_initialize now ib)) = map turn_core (ib_turns ib) \<and>
   countsByState (inbox_initialize now ib) RUNNING = 0 \<and>
   countsByState (inbox_initialize now ib) PENDING = countsByState ib PENDING + countsByState ib RUNNING \<and>
   filter (\<lambda>t. tn_state t \<notin> {PENDING, RUNNING}) (ib_turns (inbox_initialize now ib)) =
     filter (\<lambda>t. tn_state t \<notin> {PENDING, RUNNING}) (ib_turns ib)"
proof -
  have "map turn_core (sql_update (\<lambda>t. tn_state t = RUNNING) (\<lambda>t. t\<lparr>tn_state := PENDING, tn_updatedAt := now\<rparr>) ts) =
      map turn_core ts" for ts :: "runtime_turn list"
    by (induction ts) (auto simp: turn_core_def)
  moreover have "sql_count (\<lambda>t. tn_state t = RUNNING)
      (sql_update (\<lambda>t. tn_state t = RUNNING) (\<lambda>t. t\<lparr>tn_state := PENDING, tn_updatedAt := now\<rparr>) ts) = 0" for ts :: "runtime_turn list"
    by (induction ts) auto
  moreover have "sql_count (\<lambda>t. tn_state t = PENDING)
      (sql_update (\<lambda>t. tn_state t = RUNNING) (\<lambda>t. t\<lparr>tn_state := PENDING, tn_updatedAt := now\<rparr>) ts) =
      sql_count (\<lambda>t. tn_state t = PENDING) ts + sql_count (\<lambda>t. tn_state t = RUNNING) ts" for ts :: "runtime_turn list"
    by (induction ts) auto
  moreover have "filter (\<lambda>t. tn_state t \<notin> {PENDING, RUNNING})
      (sql_update (\<lambda>t. tn_state t = RUNNING) (\<lambda>t. t\<lparr>tn_state := PENDING, tn_updatedAt := now\<rparr>) ts) =
      filter (\<lambda>t. tn_state t \<notin> {PENDING, RUNNING}) ts" for ts :: "runtime_turn list"
    by (induction ts) auto
  ultimately show ?thesis by (simp add: inbox_initialize_def countsByState_def)
qed

end
