(* ===== verification/Json_Rpc.thy ===== *)
theory Json_Rpc
  imports Errors
begin

text \<open>
  \<open>src/channel-rpc/json-rpc.ts\<close>: the request parser that the lane sockets and the control
  socket share, and the two response shapes.
\<close>

record json_rpc_request =
  rq_id :: string
  rq_method :: string
  rq_params :: "json option"

definition invalid_request :: exn where
  "invalid_request = throw_rpc_close (-32600) ''INVALID_REQUEST'' ''Invalid JSON-RPC request''"

definition parseJsonRpcRequest :: "json \<Rightarrow> exn + json_rpc_request" where
  "parseJsonRpcRequest v =
     (if \<not> is_record v \<or> jfield v ''jsonrpc'' \<noteq> Some (JStr ''2.0'') then Inl invalid_request
      else case jstr (jfield v ''id'') of
        None \<Rightarrow> Inl invalid_request
      | Some i \<Rightarrow>
          if i = [] then Inl invalid_request
          else (case jstr (jfield v ''method'') of
            None \<Rightarrow> Inl invalid_request
          | Some m \<Rightarrow>
              if m = [] then Inl invalid_request
              else Inr \<lparr>rq_id = i, rq_method = m, rq_params = jfield v ''params''\<rparr>))"

definition success :: "string \<Rightarrow> json \<Rightarrow> json" where
  "success i result =
     JObj [(''jsonrpc'', JStr ''2.0''), (''id'', JStr i), (''result'', result)]"

definition failure_data :: "channel_rpc_error \<Rightarrow> json" where
  "failure_data e =
     JObj ([(''code'', JStr (ce_data_code e)), (''retryable'', JBool (ce_retryable e))] @
       (case ce_retry_after_ms e of None \<Rightarrow> [] | Some ms \<Rightarrow> [(''retry_after_ms'', JNum ms)]))"

fun failure :: "string option \<Rightarrow> exn \<Rightarrow> json" where
  "failure i (ChannelRpcError e) =
     JObj [(''jsonrpc'', JStr ''2.0''), (''id'', jopt i),
           (''error'', JObj [(''code'', JNum (of_int (ce_rpc_code e))),
                             (''message'', JStr (ce_message e)),
                             (''data'', failure_data e)])]"
| "failure i _ =
     JObj [(''jsonrpc'', JStr ''2.0''), (''id'', jopt i),
           (''error'', JObj [(''code'', JNum (-32603)),
                             (''message'', JStr ''Internal error''),
                             (''data'', JObj [(''code'', JStr ''INTERNAL_ERROR''),
                                              (''retryable'', JBool False)])])]"

text \<open>The request a client writes for a method: the converse of the parser.\<close>

definition request_json :: "json_rpc_request \<Rightarrow> json" where
  "request_json r =
     JObj ([(''jsonrpc'', JStr ''2.0''), (''id'', JStr (rq_id r)), (''method'', JStr (rq_method r))] @
       (case rq_params r of None \<Rightarrow> [] | Some p \<Rightarrow> [(''params'', p)]))"

lemma parseJsonRpcRequest_InrD:
  assumes "parseJsonRpcRequest v = Inr r"
  shows "is_record v" "jfield v ''jsonrpc'' = Some (JStr ''2.0'')"
    "jfield v ''id'' = Some (JStr (rq_id r))" "rq_id r \<noteq> []"
    "jfield v ''method'' = Some (JStr (rq_method r))" "rq_method r \<noteq> []"
    "rq_params r = jfield v ''params''"
  using assms
  by (auto simp: parseJsonRpcRequest_def json_simps split: if_splits option.splits)

lemma parseJsonRpcRequest_request_json:
  "rq_id r \<noteq> [] \<Longrightarrow> rq_method r \<noteq> [] \<Longrightarrow> parseJsonRpcRequest (request_json r) = Inr r"
  by (cases r) (auto simp: parseJsonRpcRequest_def request_json_def split: option.splits)

lemma parseJsonRpcRequest_Inl: "parseJsonRpcRequest v = Inl e \<Longrightarrow> e = invalid_request"
  by (auto simp: parseJsonRpcRequest_def split: if_splits option.splits)

lemma failure_not_rpc:
  "(\<And>r. e \<noteq> ChannelRpcError r) \<Longrightarrow> failure i e = failure i (PlainError [])"
  by (cases e) auto

end
