(* ===== verification/Channel_Handler.thy ===== *)
theory Channel_Handler
  imports Outbox_Props Inbox Json_Rpc
begin

text \<open>
  \<open>src/lane/channel-handler.ts\<close> and \<open>src/lane/lane-controller.ts\<close>: what a lane does with a message a
  channel driver delivers.  The handler records it in the outbox and then runs the controller's
  \<open>onAccepted\<close>, which enqueues the turn and calls the daemon.  A lane's state is its outbox and its
  inbox.  Whether the insert of the turn and the daemon's \<open>onInbound\<close> throw are arguments.
\<close>

section \<open>Parameters of the request\<close>

definition invalid_params :: "string \<Rightarrow> exn" where
  "invalid_params msg = throw_rpc (-32602) ''INVALID_PARAMS'' msg"

definition requiredString :: "json \<Rightarrow> string \<Rightarrow> exn + string" where
  "requiredString r key =
     (case jstr (jfield r key) of
        None \<Rightarrow> Inl (invalid_params (''channel.message.received requires '' @ key))
      | Some s \<Rightarrow> if s = [] then Inl (invalid_params (''channel.message.received requires '' @ key)) else Inr s)"

definition parse_attachment :: "json \<Rightarrow> exn + staged_attachment" where
  "parse_attachment item =
     sbind (require (is_record item) (invalid_params ''attachment metadata must be an object'')) (\<lambda>_.
     (case jnum (jfield item ''size'') of
        None \<Rightarrow> Inl (invalid_params ''attachment size must be an integer'')
      | Some sz \<Rightarrow>
          sbind (require (safe_integer sz) (invalid_params ''attachment size must be an integer'')) (\<lambda>_.
          sbind (requiredString item ''attachment_id'') (\<lambda>attachment_id.
          sbind (requiredString item ''filename'') (\<lambda>filename.
          sbind (requiredString item ''media_type'') (\<lambda>media_type.
          sbind (requiredString item ''sha256'') (\<lambda>sha256.
          sbind (requiredString item ''local_path'') (\<lambda>local_path.
          Inr \<lparr>sa_attachment_id = attachment_id, sa_filename = filename, sa_media_type = media_type,
               sa_size = sz, sa_sha256 = sha256, sa_local_path = local_path\<rparr>))))))))"

definition parseAttachments :: "json option \<Rightarrow> exn + staged_attachment list" where
  "parseAttachments v =
     (case jarr v of
        None \<Rightarrow> Inl (invalid_params ''attachments must be an array'')
      | Some items \<Rightarrow> smap parse_attachment items)"

section \<open>The controller\<close>

record lane =
  ln_outbox :: outbox
  ln_inbox :: inbox

record handler_env =
  hv_record :: record_env
  hv_parse :: "string \<Rightarrow> json option"
  hv_turnId :: string
  hv_turnNow :: millis
  hv_enqueue :: "exn + unit"
  hv_onInbound :: "exn + unit"

definition onAccepted :: "handler_env \<Rightarrow> stored_audit_event \<Rightarrow> lane \<Rightarrow> (exn + unit) \<times> lane" where
  "onAccepted env e lan =
     (case hv_enqueue env of
        Inl er \<Rightarrow> (Inl er, lan)
      | Inr _ \<Rightarrow>
          (case enqueueChannel (hv_parse env) (hv_turnId env) (hv_turnNow env) e (ln_inbox lan) of
             (Inl er, ib) \<Rightarrow> (Inl er, lan\<lparr>ln_inbox := ib\<rparr>)
           | (Inr t, ib) \<Rightarrow> (hv_onInbound env, lan\<lparr>ln_inbox := ib\<rparr>)))"

definition lane_initialize :: "millis \<Rightarrow> lane \<Rightarrow> lane" where
  "lane_initialize now lan = lan\<lparr>ln_inbox := inbox_initialize now (ln_inbox lan)\<rparr>"

section \<open>The handler\<close>

definition channel_dedupKey :: "string \<Rightarrow> string \<Rightarrow> string \<Rightarrow> string" where
  "channel_dedupKey driver account event = driver @ [CHR 0x00] @ account @ [CHR 0x00] @ event"

text \<open>The \<open>catch\<close> clause: which RPC error the driver sees.\<close>

fun handler_error :: "exn \<Rightarrow> exn" where
  "handler_error (AttachmentValidationError m) =
     throw_rpc (CHANNEL_ERROR_CODES ATTACHMENT_INVALID) ''CHANNEL_ATTACHMENT_INVALID'' m"
| "handler_error (OutboxCapacityError m) =
     ChannelRpcError ((channel_rpc_error_of (CHANNEL_ERROR_CODES BACKPRESSURE) ''CHANNEL_BACKPRESSURE'' m)
       \<lparr>ce_retryable := True, ce_retry_after_ms := Some 60000\<rparr>)"
| "handler_error (ChannelRpcError e) = ChannelRpcError e"
| "handler_error _ =
     ChannelRpcError ((channel_rpc_error_of (CHANNEL_ERROR_CODES DURABILITY_FAILED) ''CHANNEL_DURABILITY_FAILED''
       ''Failed to commit channel message to durable storage'')\<lparr>ce_retryable := True\<rparr>)"

definition accepted_json :: "stored_audit_event \<Rightarrow> bool \<Rightarrow> json" where
  "accepted_json e duplicate =
     JObj [(''accepted'', JBool True), (''inbound_id'', jopt (ev_inboundId e)),
           (''audit_event_id'', JStr (ev_eventId e)), (''duplicate'', JBool duplicate)]"

record channel_message =
  cm_params :: json
  cm_accountRef :: string
  cm_conversationRef :: string
  cm_threadRef :: "string option"
  cm_providerMessageId :: string
  cm_dedupKey :: string

definition parse_channel_message :: "channel_registration \<Rightarrow> json_rpc_request \<Rightarrow> exn + channel_message" where
  "parse_channel_message reg request =
     sbind (require (rq_method request = ''channel.message.received'')
       (throw_rpc (-32601) ''METHOD_NOT_SUPPORTED'' (''Unsupported channel method: '' @ rq_method request))) (\<lambda>_.
     (case jrec (rq_params request) of
        None \<Rightarrow> Inl (invalid_params ''channel.message.received params must be an object'')
      | Some params \<Rightarrow>
          sbind (requiredString params ''provider_event_id'') (\<lambda>providerEventId.
          sbind (requiredString params ''provider_message_id'') (\<lambda>providerMessageId.
          (case jrec (jfield params ''conversation'') of
             None \<Rightarrow> Inl (invalid_params ''conversation must be an object'')
           | Some conversation \<Rightarrow>
               sbind (requiredString conversation ''account_ref'') (\<lambda>accountRef.
               sbind (requiredString conversation ''conversation_ref'') (\<lambda>conversationRef.
               Inr \<lparr>cm_params = params, cm_accountRef = accountRef, cm_conversationRef = conversationRef,
                    cm_threadRef = jstr (jfield conversation ''thread_ref''),
                    cm_providerMessageId = providerMessageId,
                    cm_dedupKey = channel_dedupKey (cr_driverInstanceId reg) accountRef providerEventId\<rparr>)))))))"

definition channel_event_input ::
  "channel_registration \<Rightarrow> channel_message \<Rightarrow> staged_attachment list \<Rightarrow> audit_event_input"
where
  "channel_event_input reg m attachments =
     \<lparr>ai_direction = Inbound, ai_sourceKind = Source_channel,
      ai_driverInstanceId = Some (cr_driverInstanceId reg), ai_rawParams = cm_params m,
      ai_attachments = attachments, ai_stagingRoot = Some (cr_stagingRoot reg),
      ai_correlation = JObj [(''source_kind'', JStr ''channel''), (''provider'', JStr (cr_provider reg)),
        (''driver_instance_id'', JStr (cr_driverInstanceId reg)), (''account_ref'', JStr (cm_accountRef m)),
        (''conversation_ref'', JStr (cm_conversationRef m)), (''thread_ref'', jopt (cm_threadRef m)),
        (''reply_to_provider_message_id'', JStr (cm_providerMessageId m))],
      ai_dedupKey = Some (cm_dedupKey m)\<rparr>"

text \<open>The body of the \<open>try\<close>.\<close>

definition record_message ::
  "handler_env \<Rightarrow> channel_registration \<Rightarrow> channel_message \<Rightarrow> lane \<Rightarrow> (exn + json) \<times> lane"
where
  "record_message env reg m lan =
     (case parseAttachments (jfield (cm_params m) ''attachments'') of
        Inl e \<Rightarrow> (Inl e, lan)
      | Inr attachments \<Rightarrow>
          (case outbox_record (hv_record env) (channel_event_input reg m attachments) (ln_outbox lan) of
             (Inl e, ob) \<Rightarrow> (Inl e, lan\<lparr>ln_outbox := ob\<rparr>)
           | (Inr event, ob) \<Rightarrow>
               (case onAccepted env event (lan\<lparr>ln_outbox := ob\<rparr>) of
                  (Inl e, lan') \<Rightarrow> (Inl e, lan')
                | (Inr _, lan') \<Rightarrow> (Inr (accepted_json event False), lan'))))"

definition channel_handle ::
  "handler_env \<Rightarrow> channel_registration \<Rightarrow> json_rpc_request \<Rightarrow> lane \<Rightarrow> (exn + json) \<times> lane"
where
  "channel_handle env reg request lan =
     (case parse_channel_message reg request of
        Inl e \<Rightarrow> (Inl e, lan)
      | Inr m \<Rightarrow>
          (case findByDedupKey (cm_dedupKey m) (ln_outbox lan) of
             Some existing \<Rightarrow> (Inr (accepted_json existing True), lan)
           | None \<Rightarrow>
               (case record_message env reg m lan of
                  (Inl e, lan') \<Rightarrow> (Inl (handler_error e), lan')
                | (Inr r, lan') \<Rightarrow> (Inr r, lan'))))"

section \<open>Lemmas\<close>

definition rpc_exn :: "exn \<Rightarrow> bool" where
  "rpc_exn e = (case e of ChannelRpcError r \<Rightarrow> True | _ \<Rightarrow> False)"

lemma rpc_exn_throw [simp]: "rpc_exn (throw_rpc c d m)" "rpc_exn (invalid_params m)"
  by (simp_all add: rpc_exn_def throw_rpc_def invalid_params_def)

lemma rpc_exn_handler_error [simp]: "rpc_exn (handler_error e)"
  by (cases e) (simp_all add: rpc_exn_def throw_rpc_def)

lemma rpc_exn_requiredString: "requiredString r k = Inl e \<Longrightarrow> rpc_exn e"
  by (auto simp: requiredString_def split: option.splits if_splits)

lemma parse_channel_message_Inl: "parse_channel_message reg rq = Inl e \<Longrightarrow> rpc_exn e"
  unfolding parse_channel_message_def
  by (auto simp: require_eq_Inl elim!: sbind_InlE split: option.splits intro: rpc_exn_requiredString)

lemma dedupKey_nonempty: "parse_channel_message reg rq = Inr m \<Longrightarrow> cm_dedupKey m \<noteq> []"
  by (auto simp: parse_channel_message_def channel_dedupKey_def result_simps split: option.splits)

lemma channel_event_dedup [simp]:
  "(channel_event_input reg m as)\<lparr>ai_dedupKey := Some (cm_dedupKey m)\<rparr> = channel_event_input reg m as"
  by (simp add: channel_event_input_def)

lemma onAccepted_outbox: "onAccepted env e lan = (r, lan') \<Longrightarrow> ln_outbox lan' = ln_outbox lan"
  by (auto simp: onAccepted_def split: sum.splits prod.splits)

lemma findByDedupKey_row:
  "findByDedupKey k ob = Some e \<longleftrightarrow>
   (\<exists>row. sql_get (\<lambda>r. ev_dedupKey r = Some k) (ob_events ob) = Some row \<and> e = mapEvent row)"
  by (auto simp: findByDedupKey_def)

lemma find_after_record:
  assumes "parse_channel_message reg rq = Inr m"
    and "outbox_record env (channel_event_input reg m as) ob = (Inr e, ob')"
  shows "findByDedupKey (cm_dedupKey m) ob' = Some e"
proof -
  have "outbox_record env ((channel_event_input reg m as)\<lparr>ai_dedupKey := Some (cm_dedupKey m)\<rparr>) ob = (Inr e, ob')"
    using assms(2) by simp
  from record_Inr_stored [OF dedupKey_nonempty [OF assms(1)] this] show ?thesis
    by (auto simp: findByDedupKey_row)
qed

lemma find_keeps:
  assumes "keeps ob ob'" "findByDedupKey k ob = Some e"
  shows "\<exists>e'. findByDedupKey k ob' = Some e' \<and> ev_eventId e' = ev_eventId e \<and> ev_inboundId e' = ev_inboundId e"
proof -
  from assms(2) obtain row where row: "sql_get (\<lambda>r. ev_dedupKey r = Some k) (ob_events ob) = Some row" "e = mapEvent row"
    by (auto simp: findByDedupKey_row)
  obtain row' where row': "sql_get (\<lambda>r. ev_dedupKey r = Some k) (ob_events ob') = Some row'"
    "event_core row' = event_core row"
    using keeps_dedup [OF assms(1) row(1)] by blast
  have "ev_eventId row' = ev_eventId row" "ev_inboundId row' = ev_inboundId row"
    using row'(2) by (metis event_core_simps)+
  with row row' show ?thesis
    by (auto simp: findByDedupKey_row mapEvent_def stored_audit_event.truncate_def)
qed

lemma accepted_json_cong:
  "ev_eventId e = ev_eventId e' \<Longrightarrow> ev_inboundId e = ev_inboundId e' \<Longrightarrow> accepted_json e d = accepted_json e' d"
  by (simp add: accepted_json_def)

lemma enqueue_find: "enqueue i now q ib = (t, ib') \<Longrightarrow> find_source (qi_sourceMessageId q) ib' = Some t"
  by (auto simp: enqueue_def find_source_def sql_get_append Let_def split: option.splits)

lemma onAccepted_Inr:
  assumes "onAccepted env e lan = (Inr u, lan')"
  shows "\<exists>raw t. hv_parse env (ev_rawParams e) = Some raw \<and>
    find_source (qi_sourceMessageId (channel_input e raw)) (ln_inbox lan') = Some t"
  using assms enqueue_find
  by (fastforce simp: onAccepted_def enqueueChannel_def Let_def split: sum.splits prod.splits option.splits)

text \<open>The three ways a request is answered positively or fails after parsing.\<close>

lemma channel_handle_new:
  assumes "channel_handle env reg rq lan = (Inr r, lan')"
  obtains (duplicate) m e where "parse_channel_message reg rq = Inr m"
      "findByDedupKey (cm_dedupKey m) (ln_outbox lan) = Some e" "r = accepted_json e True" "lan' = lan"
  | (fresh) m as e ob where "parse_channel_message reg rq = Inr m"
      "findByDedupKey (cm_dedupKey m) (ln_outbox lan) = None"
      "outbox_record (hv_record env) (channel_event_input reg m as) (ln_outbox lan) = (Inr e, ob)"
      "onAccepted env e (lan\<lparr>ln_outbox := ob\<rparr>) = (Inr (), lan')" "r = accepted_json e False"
proof (cases "parse_channel_message reg rq")
  case (Inl e)
  with assms show ?thesis by (simp add: channel_handle_def)
next
  case m: (Inr m)
  show ?thesis
  proof (cases "findByDedupKey (cm_dedupKey m) (ln_outbox lan)")
    case (Some e)
    with m assms have "r = accepted_json e True" "lan' = lan" by (simp_all add: channel_handle_def)
    with m Some show ?thesis by (rule duplicate)
  next
    case None
    with m assms have "record_message env reg m lan = (Inr r, lan')"
      by (simp add: channel_handle_def split: prod.splits sum.splits)
    then obtain as e ob where
      "outbox_record (hv_record env) (channel_event_input reg m as) (ln_outbox lan) = (Inr e, ob)"
      "onAccepted env e (lan\<lparr>ln_outbox := ob\<rparr>) = (Inr (), lan')" "r = accepted_json e False"
      by (auto simp: record_message_def split: prod.splits sum.splits)
    with m None show ?thesis by (rule fresh)
  qed
qed

lemma channel_handle_durable:
  assumes "channel_handle env reg rq lan = (Inr r, lan')"
  shows "\<exists>m e dup. parse_channel_message reg rq = Inr m \<and> r = accepted_json e dup \<and>
    findByDedupKey (cm_dedupKey m) (ln_outbox lan') = Some e \<and>
    (if dup then lan' = lan
     else \<exists>raw t. hv_parse env (ev_rawParams e) = Some raw \<and>
       find_source (qi_sourceMessageId (channel_input e raw)) (ln_inbox lan') = Some t)"
  using assms
proof (cases rule: channel_handle_new)
  case (duplicate m e)
  then show ?thesis by (intro exI [of _ m] exI [of _ e] exI [of _ True]) simp
next
  case (fresh m as e ob)
  have "ln_outbox lan' = ob" using onAccepted_outbox [OF fresh(4)] by simp
  with find_after_record [OF fresh(1,3)] onAccepted_Inr [OF fresh(4)] fresh show ?thesis
    by (intro exI [of _ m] exI [of _ e] exI [of _ False]) simp
qed

section \<open>Properties\<close>


text \<open>C16: a redelivered message is recognised.  After an accepted delivery, the same message delivered
  again, after whatever operations of the outbox and whatever became of the inbox, is answered as a
  duplicate with the identifiers of the first answer, and nothing is recorded or enqueued.\<close>

theorem channel_redelivery:
  assumes "channel_handle env reg rq lan = (Inr (accepted_json e dup), ln1)"
    and "outbox_reach dg (ln_outbox ln1) (ln_outbox ln2)"
  shows "channel_handle env' reg rq ln2 = (Inr (accepted_json e True), ln2)"
proof -
  from channel_handle_durable [OF assms(1)] obtain m f d where m: "parse_channel_message reg rq = Inr m"
    and r: "accepted_json e dup = accepted_json f d"
    and f: "findByDedupKey (cm_dedupKey m) (ln_outbox ln1) = Some f" by blast
  from find_keeps [OF keeps_reach [OF assms(2)] f] obtain g where
    g: "findByDedupKey (cm_dedupKey m) (ln_outbox ln2) = Some g"
      "ev_eventId g = ev_eventId f" "ev_inboundId g = ev_inboundId f" by blast
  from r have "ev_eventId e = ev_eventId f" "ev_inboundId e = ev_inboundId f"
    by (auto simp: accepted_json_def jopt_def split: option.splits)
  with g have "accepted_json g True = accepted_json e True" by (intro accepted_json_cong) simp_all
  with m g(1) show ?thesis by (simp add: channel_handle_def)
qed

text \<open>A failure after the commit loses the turn.  When the event was recorded and the insert of its
  turn throws, the driver is told that durable storage failed and that it may retry; but the retry
  finds the recorded event and is answered as an accepted duplicate, whatever the environment of
  the retry, and no turn is ever enqueued for the message.\<close>

theorem channel_failed_enqueue_never_retried:
  assumes "parse_channel_message reg rq = Inr m"
    and "findByDedupKey (cm_dedupKey m) (ln_outbox lan) = None"
    and "parseAttachments (jfield (cm_params m) ''attachments'') = Inr as"
    and "outbox_record (hv_record env) (channel_event_input reg m as) (ln_outbox lan) = (Inr e, ob)"
    and "hv_enqueue env = Inl (PlainError msg)"
  shows "channel_handle env reg rq lan = (Inl (handler_error (PlainError msg)), lan\<lparr>ln_outbox := ob\<rparr>) \<and>
    channel_handle env' reg rq (lan\<lparr>ln_outbox := ob\<rparr>) = (Inr (accepted_json e True), lan\<lparr>ln_outbox := ob\<rparr>)"
proof
  show "channel_handle env reg rq lan = (Inl (handler_error (PlainError msg)), lan\<lparr>ln_outbox := ob\<rparr>)"
    using assms by (simp add: channel_handle_def record_message_def onAccepted_def)
  show "channel_handle env' reg rq (lan\<lparr>ln_outbox := ob\<rparr>) = (Inr (accepted_json e True), lan\<lparr>ln_outbox := ob\<rparr>)"
    using assms(1) find_after_record [OF assms(1,4)] by (simp add: channel_handle_def)
qed

text \<open>Whatever goes wrong, the driver gets an RPC error that keeps the connection's protocol: every
  exception that leaves the handler is a \<open>ChannelRpcError\<close>.\<close>

theorem channel_handle_rpc_errors:
  assumes "channel_handle env reg rq lan = (Inl e, lan')"
  shows "rpc_exn e"
  using assms parse_channel_message_Inl
  by (auto simp: channel_handle_def split: sum.splits option.splits prod.splits)

section \<open>Witnesses\<close>

definition sample_registration :: channel_registration where
  "sample_registration =
     \<lparr>cr_protocolVersion = ''0.1'', cr_laneId = ''l'', cr_driverInstanceId = ''d'', cr_provider = ''p'',
      cr_accountRef = ''a'', cr_stagingRoot = ''/s'', cr_capabilities = []\<rparr>"

definition sample_params :: json where
  "sample_params =
     JObj [(''provider_event_id'', JStr ''e1''), (''provider_message_id'', JStr ''m1''),
       (''conversation'', JObj [(''account_ref'', JStr ''a''), (''conversation_ref'', JStr ''c'')]),
       (''attachments'', JArr [])]"

definition sample_request :: json_rpc_request where
  "sample_request =
     \<lparr>rq_id = ''1'', rq_method = ''channel.message.received'', rq_params = Some sample_params\<rparr>"

definition sample_message :: channel_message where
  "sample_message =
     \<lparr>cm_params = sample_params, cm_accountRef = ''a'', cm_conversationRef = ''c'', cm_threadRef = None,
      cm_providerMessageId = ''m1'', cm_dedupKey = channel_dedupKey ''d'' ''a'' ''e1''\<rparr>"

definition sample_handler_env :: "exn + unit \<Rightarrow> handler_env" where
  "sample_handler_env enq =
     \<lparr>hv_record = sample_env ''ev'', hv_parse = (\<lambda>t. Some sample_params), hv_turnId = ''t'', hv_turnNow = 4,
      hv_enqueue = enq, hv_onInbound = Inr ()\<rparr>"

definition sample_lane :: lane where
  "sample_lane = \<lparr>ln_outbox = outbox_initialize ''l'' 2, ln_inbox = empty_inbox\<rparr>"

lemma sample_parse: "parse_channel_message sample_registration sample_request = Inr sample_message"
  by (simp add: parse_channel_message_def sample_registration_def sample_request_def sample_params_def
      sample_message_def requiredString_def)

definition sample_row :: event_row where
  "sample_row = new_event (sample_env ''ev'') ''l'' (channel_event_input sample_registration sample_message []) []"

lemma sample_recorded:
  "outbox_record (sample_env ''ev'') (channel_event_input sample_registration sample_message []) (outbox_initialize ''l'' 2) =
     (Inr (mapEvent sample_row), (outbox_initialize ''l'' 2)\<lparr>ob_events := [sample_row]\<rparr>)"
  by (simp add: outbox_record_def summary_def sample_env_def outbox_initialize_def channel_event_input_def
      validateAttachmentSet_def findByDedupKey_def record_commit_def FAIL_CLOSED_RATIO_def sample_row_def Let_def)

lemma sample_handled:
  "\<exists>lan'. channel_handle (sample_handler_env (Inr ())) sample_registration sample_request sample_lane =
     (Inr (accepted_json (mapEvent sample_row) False), lan') \<and>
   ln_outbox lan' = (outbox_initialize ''l'' 2)\<lparr>ob_events := [sample_row]\<rparr>"
proof -
  have "findByDedupKey (cm_dedupKey sample_message) (outbox_initialize ''l'' 2) = None"
    by (simp add: findByDedupKey_def outbox_initialize_def)
  moreover have "parseAttachments (jfield (cm_params sample_message) ''attachments'') = Inr []"
    by (simp add: parseAttachments_def sample_message_def sample_params_def)
  ultimately show ?thesis
    by (simp add: channel_handle_def sample_parse record_message_def sample_lane_def sample_recorded
        sample_handler_env_def onAccepted_def enqueueChannel_def split_beta)
qed


theorem channel_redelivery_witness:
  "\<exists>ln1. channel_handle (sample_handler_env (Inr ())) sample_registration sample_request ln1 =
     (Inr (accepted_json (mapEvent sample_row) True), ln1)"
proof -
  obtain lan' where h: "channel_handle (sample_handler_env (Inr ())) sample_registration sample_request sample_lane =
     (Inr (accepted_json (mapEvent sample_row) False), lan')" using sample_handled by blast
  from channel_redelivery [OF h reach_refl] show ?thesis by blast
qed

theorem channel_failed_enqueue_never_retried_witness:
  "ib_turns (ln_inbox (snd (channel_handle (sample_handler_env (Inl (PlainError ''disk full'')))
     sample_registration sample_request sample_lane))) = []"
proof -
  let ?ob = "(outbox_initialize ''l'' 2)\<lparr>ob_events := [sample_row]\<rparr>"
  have "channel_handle (sample_handler_env (Inl (PlainError ''disk full''))) sample_registration sample_request sample_lane =
      (Inl (handler_error (PlainError ''disk full'')), sample_lane\<lparr>ln_outbox := ?ob\<rparr>)"
    by (rule conjunct1 [OF channel_failed_enqueue_never_retried [OF sample_parse, where as = "[]" and e = "mapEvent sample_row"]])
      (simp_all add: sample_lane_def sample_handler_env_def sample_recorded findByDedupKey_def outbox_initialize_def
        parseAttachments_def sample_message_def sample_params_def sample_recorded [unfolded outbox_initialize_def sample_message_def sample_params_def])
  then show ?thesis by (simp add: sample_lane_def empty_inbox_def)
qed

theorem channel_handle_rpc_errors_witness:
  "rpc_exn (projl (fst (channel_handle (sample_handler_env (Inr ())) sample_registration
     \<lparr>rq_id = ''1'', rq_method = ''x'', rq_params = None\<rparr> sample_lane)))"
proof -
  have "channel_handle (sample_handler_env (Inr ())) sample_registration
      \<lparr>rq_id = ''1'', rq_method = ''x'', rq_params = None\<rparr> sample_lane =
      (Inl (throw_rpc (-32601) ''METHOD_NOT_SUPPORTED'' ''Unsupported channel method: x''), sample_lane)"
    by (simp add: channel_handle_def parse_channel_message_def)
  from channel_handle_rpc_errors [OF this] this show ?thesis by simp
qed

end
