(* ===== verification/Lane_Server.thy ===== *)
theory Lane_Server
  imports Registration Json_Rpc
begin

text \<open>
  \<open>src/channel-rpc/lane-server.ts\<close>: the socket server of a lane.  A step is one event of a socket or
  one call of the daemon; a connection is a number.  The frames of one connection are processed one
  after the other, as its promise chain does.  The request handler is an argument over a state of
  its own; writes to a socket are outputs and succeed, and the settlement of the promise that
  \<open>requestDriver\<close> returned is an output too.
\<close>

section \<open>Checks on a request\<close>

definition to_lower :: "char \<Rightarrow> char" where
  "to_lower c = (if 65 \<le> (of_char c :: nat) \<and> of_char c \<le> (90 :: nat) then char_of (of_char c + (32 :: nat)) else c)"

definition INLINE_ATTACHMENT_KEYS :: "string list" where
  "INLINE_ATTACHMENT_KEYS = [''base64'', ''bytes'', ''content_base64'', ''data'']"

fun containsInlineAttachmentData :: "json \<Rightarrow> bool" where
  "containsInlineAttachmentData (JArr vs) = list_ex containsInlineAttachmentData vs"
| "containsInlineAttachmentData (JObj fs) =
     list_ex (\<lambda>(k, child). map to_lower k \<in> set INLINE_ATTACHMENT_KEYS \<or> containsInlineAttachmentData child) fs"
| "containsInlineAttachmentData v = False"

text \<open>The table is an object literal, so the members of \<open>Object.prototype\<close> are found in it too: they
  are functions or objects, no strings, and no capability list includes them.\<close>

datatype capability_lookup = Capability string | Inherited string | No_capability

definition object_prototype_members :: "string list" where
  "object_prototype_members =
     [''constructor'', ''__defineGetter__'', ''__defineSetter__'', ''hasOwnProperty'',
      ''__lookupGetter__'', ''__lookupSetter__'', ''isPrototypeOf'', ''propertyIsEnumerable'',
      ''toString'', ''valueOf'', ''__proto__'', ''toLocaleString'']"

definition method_capability :: "string \<Rightarrow> capability_lookup" where
  "method_capability m =
     (if m = ''channel.message.received'' then Capability ''message.receive''
      else if m = ''channel.reaction.received'' then Capability ''reaction.receive''
      else if m = ''channel.message.updated'' then Capability ''message.update''
      else if m = ''channel.message.deleted'' then Capability ''message.delete''
      else if m \<in> set object_prototype_members then Inherited m
      else No_capability)"

definition capability_missing :: "string \<Rightarrow> exn" where
  "capability_missing name =
     throw_rpc (CHANNEL_ERROR_CODES CAPABILITY_UNSUPPORTED) ''CHANNEL_CAPABILITY_UNSUPPORTED''
       (''Channel capability was not negotiated: '' @ name)"

text \<open>\<open>show_member\<close> is the text JavaScript prints for an inherited member.\<close>

definition assertRegisteredRequest ::
  "(string \<Rightarrow> string) \<Rightarrow> channel_registration \<Rightarrow> json_rpc_request \<Rightarrow> exn + unit"
where
  "assertRegisteredRequest show_member reg request =
     (case jrec (rq_params request) of
        None \<Rightarrow> Inl (throw_rpc (-32602) ''INVALID_PARAMS'' ''Channel request params must be an object'')
      | Some params \<Rightarrow>
          sbind (require (jfield params ''driver_instance_id'' = Some (JStr (cr_driverInstanceId reg)))
            (throw_rpc (-32602) ''DRIVER_INSTANCE_MISMATCH''
              ''driver_instance_id is required and must match the registered connection'')) (\<lambda>_.
          sbind (case method_capability (rq_method request) of
                   No_capability \<Rightarrow> Inr ()
                 | Capability c \<Rightarrow> require (c \<in> set (cr_capabilities reg)) (capability_missing c)
                 | Inherited m \<Rightarrow> Inl (capability_missing (show_member m))) (\<lambda>_.
          require (\<not> (case jfield params ''attachments'' of None \<Rightarrow> False | Some a \<Rightarrow> containsInlineAttachmentData a))
            (throw_rpc (CHANNEL_ERROR_CODES ATTACHMENT_INVALID) ''CHANNEL_ATTACHMENT_INVALID''
              ''Attachment bytes or base64 are forbidden in Channel RPC''))))"

text \<open>The handler of a lane without durable storage.\<close>

definition failClosedHandler :: "json_rpc_request \<Rightarrow> exn" where
  "failClosedHandler request =
     (if rq_method request = ''channel.message.received''
      then ChannelRpcError ((channel_rpc_error_of (CHANNEL_ERROR_CODES DURABILITY_FAILED)
        ''CHANNEL_DURABILITY_FAILED'' ''Durable inbound storage is unavailable'')\<lparr>ce_retryable := True\<rparr>)
      else throw_rpc (-32601) ''METHOD_NOT_SUPPORTED'' (''Unsupported channel method: '' @ rq_method request))"

section \<open>The server's state\<close>

record driver_connection =
  dc_registration :: "channel_registration option"
  dc_pending :: "string list"
  dc_destroyed :: bool

record lane_server =
  ls_laneId :: string
  ls_supported :: "string list"
  ls_drivers :: "(string \<times> nat) list"
  ls_conns :: "(nat \<times> driver_connection) list"

datatype ls_out =
    WriteFrame nat json
  | EndSocket nat
  | DestroySocket nat
  | Settle string "exn + json"

definition lane_server_new :: "string \<Rightarrow> string list \<Rightarrow> lane_server" where
  "lane_server_new lane supported =
     \<lparr>ls_laneId = lane, ls_supported = supported, ls_drivers = [], ls_conns = []\<rparr>"

definition conn_of :: "lane_server \<Rightarrow> nat \<Rightarrow> driver_connection option" where
  "conn_of sv c = map_of (ls_conns sv) c"

definition set_conn :: "nat \<Rightarrow> driver_connection \<Rightarrow> lane_server \<Rightarrow> lane_server" where
  "set_conn c d sv = sv\<lparr>ls_conns := AList.update c d (ls_conns sv)\<rparr>"

definition getDriver :: "string \<Rightarrow> lane_server \<Rightarrow> channel_registration option" where
  "getDriver i sv =
     Option.bind (map_of (ls_drivers sv) i) (\<lambda>c. Option.bind (conn_of sv c) dc_registration)"

definition listDrivers :: "lane_server \<Rightarrow> channel_registration list" where
  "listDrivers sv = List.map_filter (\<lambda>(i, c). Option.bind (conn_of sv c) dc_registration) (ls_drivers sv)"

section \<open>Calls to a driver\<close>

definition provider_failed :: "string \<Rightarrow> exn" where
  "provider_failed msg = throw_driver PROVIDER_FAILED msg"

text \<open>\<open>requestDriver\<close> up to the write of the frame; \<open>i\<close> is the fresh request id.\<close>

definition requestDriver ::
  "string \<Rightarrow> string \<Rightarrow> string \<Rightarrow> json \<Rightarrow> lane_server \<Rightarrow> lane_server \<times> ls_out list"
where
  "requestDriver i driver meth params sv =
     (case map_of (ls_drivers sv) driver of
        None \<Rightarrow> (sv, [Settle i (Inl (provider_failed (''Channel driver is not connected: '' @ driver)))])
      | Some c \<Rightarrow>
          (case conn_of sv c of
             None \<Rightarrow> (sv, [Settle i (Inl (provider_failed (''Channel driver is not connected: '' @ driver)))])
           | Some d \<Rightarrow>
               (case dc_registration d of
                  None \<Rightarrow> (sv, [Settle i (Inl (provider_failed (''Channel driver is not connected: '' @ driver)))])
                | Some reg \<Rightarrow>
                    if dc_destroyed d
                    then (sv, [Settle i (Inl (provider_failed (''Channel driver is not connected: '' @ driver)))])
                    else if meth = ''channel.message.send'' \<and> ''message.send'' \<notin> set (cr_capabilities reg)
                    then (sv, [Settle i (Inl (throw_driver CAPABILITY_UNSUPPORTED
                                ''Channel driver did not negotiate message.send''))])
                    else (set_conn c (d\<lparr>dc_pending := dc_pending d @ [i]\<rparr>) sv,
                          [WriteFrame c (JObj [(''jsonrpc'', JStr ''2.0''), (''id'', JStr i),
                             (''method'', JStr meth), (''params'', params)])]))))"

text \<open>The three ways a pending request ends other than by its answer: the timer, a failed write and
  the close of the socket.\<close>

definition request_failed :: "nat \<Rightarrow> string \<Rightarrow> exn \<Rightarrow> lane_server \<Rightarrow> lane_server \<times> ls_out list" where
  "request_failed c i e sv =
     (case conn_of sv c of
        None \<Rightarrow> (sv, [])
      | Some d \<Rightarrow>
          if i \<in> set (dc_pending d)
          then (set_conn c (d\<lparr>dc_pending := removeAll i (dc_pending d)\<rparr>) sv, [Settle i (Inl e)])
          else (sv, []))"

definition socket_closed :: "nat \<Rightarrow> lane_server \<Rightarrow> lane_server \<times> ls_out list" where
  "socket_closed c sv =
     (case conn_of sv c of
        None \<Rightarrow> (sv, [])
      | Some d \<Rightarrow>
          (let sv' = set_conn c (d\<lparr>dc_pending := [], dc_destroyed := True\<rparr>) sv;
               drivers = (case dc_registration d of
                   None \<Rightarrow> ls_drivers sv
                 | Some reg \<Rightarrow>
                     if map_of (ls_drivers sv) (cr_driverInstanceId reg) = Some c
                     then AList.delete (cr_driverInstanceId reg) (ls_drivers sv) else ls_drivers sv) in
           (sv'\<lparr>ls_drivers := drivers\<rparr>,
            map (\<lambda>i. Settle i (Inl (provider_failed ''Channel driver disconnected''))) (dc_pending d))))"

section \<open>Frames from a driver\<close>

definition is_response :: "json \<Rightarrow> bool" where
  "is_response frame = (is_record frame \<and> jstr (jfield frame ''id'') \<noteq> None \<and> \<not> has_field frame ''method'')"

text \<open>The value a pending request settles with.\<close>

definition response_value :: "json \<Rightarrow> exn + json" where
  "response_value frame =
     (case jrec (jfield frame ''error'') of
        Some err \<Rightarrow>
          Inl (DriverRpcError
            \<lparr>de_code = (case jnum (jfield err ''code'') of Some q \<Rightarrow> q | None \<Rightarrow> of_int (CHANNEL_ERROR_CODES PROVIDER_FAILED)),
             de_message = (case jstr (jfield err ''message'') of Some m \<Rightarrow> m | None \<Rightarrow> ''Channel driver request failed''),
             de_data = jfield err ''data''\<rparr>)
      | None \<Rightarrow> Inr (case jfield frame ''result'' of Some r \<Rightarrow> r | None \<Rightarrow> JNull))"

definition process_response :: "nat \<Rightarrow> driver_connection \<Rightarrow> json \<Rightarrow> lane_server \<Rightarrow> lane_server \<times> ls_out list" where
  "process_response c d frame sv =
     (case jstr (jfield frame ''id'') of
        None \<Rightarrow> (sv, [])
      | Some i \<Rightarrow>
          if i \<in> set (dc_pending d)
          then (set_conn c (d\<lparr>dc_pending := removeAll i (dc_pending d)\<rparr>) sv, [Settle i (response_value frame)])
          else (sv, []))"

definition closes :: "exn \<Rightarrow> bool" where
  "closes e = (case e of ChannelRpcError r \<Rightarrow> ce_close_connection r | _ \<Rightarrow> False)"

text \<open>The answer of the \<open>catch\<close> clause.\<close>

definition error_outs :: "nat \<Rightarrow> string \<Rightarrow> exn \<Rightarrow> ls_out list" where
  "error_outs c i e = WriteFrame c (failure (Some i) e) # (if closes e then [EndSocket c] else [])"

definition register_driver ::
  "nat \<Rightarrow> driver_connection \<Rightarrow> json_rpc_request \<Rightarrow> lane_server \<Rightarrow> lane_server \<times> ls_out list"
where
  "register_driver c d request sv =
     (case parseRegistration (case rq_params request of Some p \<Rightarrow> p | None \<Rightarrow> JNull) (ls_laneId sv) (ls_supported sv) of
        Inl e \<Rightarrow> (sv, error_outs c (rq_id request) e)
      | Inr (reg, result) \<Rightarrow>
          (let previous = map_of (ls_drivers sv) (cr_driverInstanceId reg);
               sv' = (set_conn c (d\<lparr>dc_registration := Some reg\<rparr>) sv)
                 \<lparr>ls_drivers := AList.update (cr_driverInstanceId reg) c (ls_drivers sv)\<rparr> in
           (sv', (case previous of None \<Rightarrow> [] | Some p \<Rightarrow> if p \<noteq> c then [EndSocket p] else []) @
             [WriteFrame c (success (rq_id request)
                (JObj [(''protocol_version'', JStr (rr_protocol_version result)),
                       (''max_frame_bytes'', JNum (of_nat (rr_max_frame_bytes result))),
                       (''max_attachment_bytes'', JNum (of_nat (rr_max_attachment_bytes result))),
                       (''max_attachments_per_event'', JNum (of_nat (rr_max_attachments_per_event result))),
                       (''max_attachment_total_bytes'', JNum (of_nat (rr_max_attachment_total_bytes result))),
                       (''capabilities'', JArr (map JStr (rr_capabilities result)))]))])))"

definition process_frame ::
  "(string \<Rightarrow> string) \<Rightarrow> (channel_registration \<Rightarrow> json_rpc_request \<Rightarrow> 's \<Rightarrow> (exn + json) \<times> 's) \<Rightarrow>
   nat \<Rightarrow> json \<Rightarrow> lane_server \<times> 's \<Rightarrow> (lane_server \<times> 's) \<times> ls_out list"
where
  "process_frame show_member handle c frame st =
     (let sv = fst st; s = snd st in
      case conn_of sv c of
        None \<Rightarrow> (st, [])
      | Some d \<Rightarrow>
          if is_response frame
          then (let (sv', outs) = process_response c d frame sv in ((sv', s), outs))
          else (case parseJsonRpcRequest frame of
            Inl e \<Rightarrow> (st, [WriteFrame c (failure None e), EndSocket c])
          | Inr request \<Rightarrow>
              (case dc_registration d of
                 None \<Rightarrow>
                   if rq_method request \<noteq> ''channel.register''
                   then (st, error_outs c (rq_id request)
                     (throw_rpc_close (CHANNEL_ERROR_CODES NOT_REGISTERED) ''CHANNEL_NOT_REGISTERED''
                       ''First channel request must be channel.register''))
                   else (let (sv', outs) = register_driver c d request sv in ((sv', s), outs))
               | Some reg \<Rightarrow>
                   if rq_method request = ''channel.register''
                   then (st, error_outs c (rq_id request)
                     (throw_rpc_close (-32600) ''ALREADY_REGISTERED'' ''Connection is already registered''))
                   else (case assertRegisteredRequest show_member reg request of
                     Inl e \<Rightarrow> (st, error_outs c (rq_id request) e)
                   | Inr _ \<Rightarrow>
                       (case handle reg request s of
                          (Inl e, s') \<Rightarrow> ((sv, s'), error_outs c (rq_id request) e)
                        | (Inr result, s') \<Rightarrow> ((sv, s'), [WriteFrame c (success (rq_id request) result)]))))))"

section \<open>Steps\<close>

datatype ls_event =
    Ev_accept nat
  | Ev_frame nat json
  | Ev_request string string string json
  | Ev_timeout nat string string
  | Ev_write_failed nat string exn
  | Ev_closed nat

definition accept_socket :: "nat \<Rightarrow> lane_server \<Rightarrow> lane_server" where
  "accept_socket c sv = set_conn c \<lparr>dc_registration = None, dc_pending = [], dc_destroyed = False\<rparr> sv"

fun ls_step ::
  "(string \<Rightarrow> string) \<Rightarrow> (channel_registration \<Rightarrow> json_rpc_request \<Rightarrow> 's \<Rightarrow> (exn + json) \<times> 's) \<Rightarrow>
   ls_event \<Rightarrow> lane_server \<times> 's \<Rightarrow> (lane_server \<times> 's) \<times> ls_out list"
where
  "ls_step sm h (Ev_accept c) (sv, s) =
     (if conn_of sv c = None then ((accept_socket c sv, s), []) else ((sv, s), []))"
| "ls_step sm h (Ev_frame c frame) st = process_frame sm h c frame st"
| "ls_step sm h (Ev_request i driver meth params) (sv, s) =
     (let (sv', outs) = requestDriver i driver meth params sv in ((sv', s), outs))"
| "ls_step sm h (Ev_timeout c i meth) (sv, s) =
     (let (sv', outs) = request_failed c i (provider_failed (''Channel driver request timed out: '' @ meth)) sv in
      ((sv', s), outs))"
| "ls_step sm h (Ev_write_failed c i e) (sv, s) =
     (let (sv', outs) = request_failed c i e sv in ((sv', s), outs))"
| "ls_step sm h (Ev_closed c) (sv, s) =
     (let (sv', outs) = socket_closed c sv in ((sv', s), outs))"

fun ls_run ::
  "(string \<Rightarrow> string) \<Rightarrow> (channel_registration \<Rightarrow> json_rpc_request \<Rightarrow> 's \<Rightarrow> (exn + json) \<times> 's) \<Rightarrow>
   ls_event list \<Rightarrow> lane_server \<times> 's \<Rightarrow> (lane_server \<times> 's) \<times> ls_out list"
where
  "ls_run sm h [] st = (st, [])"
| "ls_run sm h (e # es) st =
     (let (st', o1) = ls_step sm h e st; (st'', o2) = ls_run sm h es st' in (st'', o1 @ o2))"

section \<open>Pending requests\<close>

definition pend_in :: "string \<Rightarrow> (nat \<times> driver_connection) list \<Rightarrow> nat" where
  "pend_in i conns = sum_list (map (\<lambda>(c, d). count_list (dc_pending d) i) conns)"

definition pend :: "string \<Rightarrow> lane_server \<Rightarrow> nat" where
  "pend i sv = pend_in i (ls_conns sv)"

definition settles :: "string \<Rightarrow> ls_out list \<Rightarrow> nat" where
  "settles i outs = length (filter (\<lambda>x. case x of Settle j r \<Rightarrow> j = i | _ \<Rightarrow> False) outs)"

fun requested :: "ls_event list \<Rightarrow> string list" where
  "requested [] = []"
| "requested (Ev_request i driver meth params # es) = i # requested es"
| "requested (e # es) = requested es"

lemma settles_simps [simp]:
  "settles i [] = 0" "settles i (xs @ ys) = settles i xs + settles i ys"
  "settles i (WriteFrame c fr # xs) = settles i xs" "settles i (EndSocket c # xs) = settles i xs"
  "settles i (DestroySocket c # xs) = settles i xs"
  "settles i (Settle j r # xs) = (if j = i then 1 else 0) + settles i xs"
  by (simp_all add: settles_def)

lemma pend_in_update:
  assumes "distinct (map fst conns)"
  shows "pend_in i (AList.update c d' conns) + (case map_of conns c of None \<Rightarrow> 0 | Some d \<Rightarrow> count_list (dc_pending d) i) =
    pend_in i conns + count_list (dc_pending d') i"
  using assms
proof (induction conns)
  case Nil
  then show ?case by (simp add: pend_in_def)
next
  case (Cons p conns)
  then show ?case
    by (cases p) (auto simp: pend_in_def map_of_eq_None_iff image_iff split: option.splits dest: map_of_SomeD)
qed

lemma pend_set_conn:
  assumes "distinct (map fst (ls_conns sv))" "conn_of sv c = Some d"
  shows "pend i (set_conn c d' sv) + count_list (dc_pending d) i = pend i sv + count_list (dc_pending d') i"
  using pend_in_update [OF assms(1), of i c d'] assms(2) by (simp add: pend_def set_conn_def conn_of_def)

lemma pend_ge:
  assumes "conn_of sv c = Some d"
  shows "count_list (dc_pending d) i \<le> pend i sv"
proof -
  have "(c, d) \<in> set (ls_conns sv)" using assms by (auto simp: conn_of_def dest: map_of_SomeD)
  then show ?thesis
    unfolding pend_def pend_in_def
    by (intro member_le_sum_list) (auto simp: image_iff intro!: bexI [of _ "(c, d)"])
qed

lemma settles_map: "settles i (map (\<lambda>j. Settle j r) xs) = count_list xs i"
  by (induction xs) auto

lemma settles_error_outs [simp]: "settles i (error_outs c j e) = 0"
  by (simp add: error_outs_def)

section \<open>The server's invariant\<close>

definition conn_ok :: "lane_server \<Rightarrow> driver_connection \<Rightarrow> bool" where
  "conn_ok sv d =
     ((dc_destroyed d \<longrightarrow> dc_pending d = []) \<and>
      (\<forall>reg. dc_registration d = Some reg \<longrightarrow>
         cr_laneId reg = ls_laneId sv \<and> set (cr_capabilities reg) \<subseteq> set (ls_supported sv)))"

definition registered_as :: "lane_server \<Rightarrow> nat \<Rightarrow> string \<Rightarrow> bool" where
  "registered_as sv c i =
     (\<exists>d reg. conn_of sv c = Some d \<and> dc_registration d = Some reg \<and> cr_driverInstanceId reg = i)"

definition server_ok :: "lane_server \<Rightarrow> bool" where
  "server_ok sv =
     (distinct (map fst (ls_drivers sv)) \<and> distinct (map fst (ls_conns sv)) \<and>
      (\<forall>i c. map_of (ls_drivers sv) i = Some c \<longrightarrow> registered_as sv c i) \<and>
      (\<forall>c d. conn_of sv c = Some d \<longrightarrow> conn_ok sv d))"

lemma set_conn_simps [simp]:
  "conn_of (set_conn c d sv) c' = (if c' = c then Some d else conn_of sv c')"
  "ls_drivers (set_conn c d sv) = ls_drivers sv"
  "ls_laneId (set_conn c d sv) = ls_laneId sv" "ls_supported (set_conn c d sv) = ls_supported sv"
  by (simp_all add: conn_of_def set_conn_def)

lemma set_conn_distinct: "distinct (map fst (ls_conns sv)) \<Longrightarrow> distinct (map fst (ls_conns (set_conn c d sv)))"
  by (simp add: set_conn_def)

lemma conn_ok_set_conn [simp]: "conn_ok (set_conn c d sv) = conn_ok sv"
  by (simp add: conn_ok_def fun_eq_iff)

lemma server_ok_set_conn:
  assumes "server_ok sv" "conn_ok sv d'"
    "\<And>d. conn_of sv c = Some d \<Longrightarrow> dc_registration d' = dc_registration d"
  shows "server_ok (set_conn c d' sv)"
  unfolding server_ok_def
proof (intro conjI allI impI)
  show "distinct (map fst (ls_drivers (set_conn c d' sv)))" "distinct (map fst (ls_conns (set_conn c d' sv)))"
    using assms(1) by (simp_all add: server_ok_def set_conn_distinct)
next
  fix i c'
  assume "map_of (ls_drivers (set_conn c d' sv)) i = Some c'"
  then have "registered_as sv c' i" using assms(1) by (simp add: server_ok_def)
  then show "registered_as (set_conn c d' sv) c' i" using assms(3) by (auto simp: registered_as_def)
next
  fix c' e
  assume "conn_of (set_conn c d' sv) c' = Some e"
  then show "conn_ok (set_conn c d' sv) e" using assms(1,2) by (auto simp: server_ok_def split: if_splits)
qed

lemma server_ok_set_pending:
  assumes "server_ok sv" "conn_of sv c = Some d" "dc_destroyed d \<longrightarrow> p = []"
  shows "server_ok (set_conn c (d\<lparr>dc_pending := p\<rparr>) sv)"
proof (rule server_ok_set_conn [OF assms(1)])
  have "conn_ok sv d" using assms(1,2) by (simp add: server_ok_def)
  then show "conn_ok sv (d\<lparr>dc_pending := p\<rparr>)" using assms(3) by (simp add: conn_ok_def)
qed (use assms(2) in simp)

lemma server_ok_accept: "server_ok sv \<Longrightarrow> conn_of sv c = None \<Longrightarrow> server_ok (accept_socket c sv)"
  unfolding accept_socket_def by (rule server_ok_set_conn) (simp_all add: conn_ok_def)

lemma requestDriver_cases:
  obtains (refused) e where "requestDriver i driver meth params sv = (sv, [Settle i (Inl e)])"
  | (sent) c d fr where "conn_of sv c = Some d" "\<not> dc_destroyed d" "map_of (ls_drivers sv) driver = Some c"
      "requestDriver i driver meth params sv = (set_conn c (d\<lparr>dc_pending := dc_pending d @ [i]\<rparr>) sv, [WriteFrame c fr])"
proof (cases "map_of (ls_drivers sv) driver")
  case None
  with refused show ?thesis by (simp add: requestDriver_def)
next
  case c: (Some c)
  show ?thesis
  proof (cases "conn_of sv c")
    case None
    with c refused show ?thesis by (simp add: requestDriver_def)
  next
    case d: (Some d)
    show ?thesis
    proof (cases "dc_registration d")
      case None
      with c d refused show ?thesis by (simp add: requestDriver_def)
    next
      case (Some reg)
      let ?no = "meth = ''channel.message.send'' \<and> ''message.send'' \<notin> set (cr_capabilities reg)"
      consider "dc_destroyed d" | "\<not> dc_destroyed d" "?no" | "\<not> dc_destroyed d" "\<not> ?no" by blast
      then show ?thesis
      proof cases
        case 1
        with c d Some show ?thesis by (intro refused) (simp add: requestDriver_def)
      next
        case 2
        with c d Some show ?thesis by (intro refused) (simp add: requestDriver_def)
      next
        case 3
        with c d Some show ?thesis by (intro sent [OF d 3(1) c]) (auto simp: requestDriver_def)
      qed
    qed
  qed
qed

lemma server_ok_request:
  assumes "server_ok sv"
  shows "server_ok (fst (requestDriver i driver meth params sv))"
proof (cases rule: requestDriver_cases [of i driver meth params sv])
  case (refused e)
  with assms show ?thesis by simp
next
  case (sent c d fr)
  with server_ok_set_pending [OF assms sent(1), of "dc_pending d @ [i]"] show ?thesis by simp
qed

lemma server_ok_remove_pending:
  assumes "server_ok sv" "conn_of sv c = Some d"
  shows "server_ok (set_conn c (d\<lparr>dc_pending := removeAll i (dc_pending d)\<rparr>) sv)"
proof (rule server_ok_set_pending [OF assms])
  have "conn_ok sv d" using assms by (simp add: server_ok_def)
  then show "dc_destroyed d \<longrightarrow> removeAll i (dc_pending d) = []" by (simp add: conn_ok_def)
qed

lemma server_ok_failed: "server_ok sv \<Longrightarrow> server_ok (fst (request_failed c i e sv))"
  by (auto simp: request_failed_def intro!: server_ok_remove_pending split: option.splits)

lemma server_ok_response:
  "server_ok sv \<Longrightarrow> conn_of sv c = Some d \<Longrightarrow> server_ok (fst (process_response c d frame sv))"
  by (auto simp: process_response_def intro!: server_ok_remove_pending split: option.splits)

lemma server_ok_unregister:
  assumes "server_ok sv"
  shows "server_ok (sv\<lparr>ls_drivers := AList.delete i (ls_drivers sv)\<rparr>)"
proof -
  have "conn_of (sv\<lparr>ls_drivers := AList.delete i (ls_drivers sv)\<rparr>) = conn_of sv"
    by (simp add: conn_of_def fun_eq_iff)
  moreover have "conn_ok (sv\<lparr>ls_drivers := AList.delete i (ls_drivers sv)\<rparr>) = conn_ok sv"
    by (simp add: conn_ok_def fun_eq_iff)
  ultimately show ?thesis using assms
    by (simp add: server_ok_def registered_as_def)
qed

lemma server_ok_destroy:
  assumes "server_ok sv" "conn_of sv c = Some d"
  shows "server_ok (set_conn c (d\<lparr>dc_pending := [], dc_destroyed := True\<rparr>) sv)"
proof (rule server_ok_set_conn [OF assms(1)])
  have "conn_ok sv d" using assms by (simp add: server_ok_def)
  then show "conn_ok sv (d\<lparr>dc_pending := [], dc_destroyed := True\<rparr>)" by (simp add: conn_ok_def)
qed (use assms(2) in simp)

lemma socket_closed_Some:
  assumes "conn_of sv c = Some d"
  shows "\<exists>sv'. fst (socket_closed c sv) = sv' \<and>
    (let sv1 = set_conn c (d\<lparr>dc_pending := [], dc_destroyed := True\<rparr>) sv in
     sv' = sv1 \<or> (\<exists>i. sv' = sv1\<lparr>ls_drivers := AList.delete i (ls_drivers sv1)\<rparr>))"
proof -
  have same: "s\<lparr>ls_drivers := ls_drivers s\<rparr> = s" for s :: lane_server by simp
  show ?thesis
    using assms same [of "set_conn c (d\<lparr>dc_pending := [], dc_destroyed := True\<rparr>) sv"]
    by (cases "dc_registration d") (auto simp: socket_closed_def Let_def)
qed

lemma server_ok_closed: "server_ok sv \<Longrightarrow> server_ok (fst (socket_closed c sv))"
proof (cases "conn_of sv c")
  case (Some d)
  assume "server_ok sv"
  note ok = server_ok_destroy [OF this Some]
  from socket_closed_Some [OF Some] ok server_ok_unregister [OF ok] show ?thesis
    by (auto simp: Let_def)
qed (simp add: socket_closed_def)

lemma server_ok_register:
  assumes "server_ok sv" "conn_of sv c = Some d" "dc_registration d = None"
  shows "server_ok (fst (register_driver c d request sv))"
proof (cases "parseRegistration (case rq_params request of Some p \<Rightarrow> p | None \<Rightarrow> JNull) (ls_laneId sv) (ls_supported sv)")
  case (Inl e)
  with assms show ?thesis by (simp add: register_driver_def)
next
  case (Inr x)
  obtain reg res where x: "x = (reg, res)" by (cases x)
  note p = parseRegistration_InrD [OF Inr [unfolded x]]
  have caps: "set (cr_capabilities reg) \<subseteq> set (ls_supported sv)" using p(6) by auto
  let ?sv = "(set_conn c (d\<lparr>dc_registration := Some reg\<rparr>) sv)
    \<lparr>ls_drivers := AList.update (cr_driverInstanceId reg) c (ls_drivers sv)\<rparr>"
  have conn: "conn_of ?sv c' = (if c' = c then Some (d\<lparr>dc_registration := Some reg\<rparr>) else conn_of sv c')" for c'
    by (simp add: conn_of_def set_conn_def)
  have "server_ok ?sv"
    unfolding server_ok_def
  proof (intro conjI allI impI)
    show "distinct (map fst (ls_drivers ?sv))" "distinct (map fst (ls_conns ?sv))"
      using assms(1) by (simp_all add: server_ok_def set_conn_def)
  next
    fix i c'
    assume "map_of (ls_drivers ?sv) i = Some c'"
    then have "i = cr_driverInstanceId reg \<and> c' = c \<or> map_of (ls_drivers sv) i = Some c'"
      by (auto split: if_splits)
    moreover have "map_of (ls_drivers sv) i = Some c' \<Longrightarrow> registered_as sv c' i"
      using assms(1) by (simp add: server_ok_def)
    ultimately show "registered_as ?sv c' i"
      using assms(2,3) by (auto simp: registered_as_def conn)
  next
    fix c' d'
    assume "conn_of ?sv c' = Some d'"
    moreover have "conn_of sv c' = Some d' \<Longrightarrow> conn_ok sv d'" using assms(1) by (simp add: server_ok_def)
    moreover have "conn_ok sv d" using assms(1,2) by (simp add: server_ok_def)
    ultimately show "conn_ok ?sv d'"
      using p(1) caps by (auto simp: conn_ok_def conn split: if_splits)
  qed
  with Inr x show ?thesis by (simp add: register_driver_def Let_def)
qed

lemma server_ok_frame: "server_ok (fst st) \<Longrightarrow> server_ok (fst (fst (process_frame sm h c frame st)))"
  using server_ok_response [of "fst st" c _ frame] server_ok_register [of "fst st" c]
  by (auto simp: process_frame_def Let_def split_beta split: option.splits sum.splits prod.splits)

lemma server_ok_step: "server_ok (fst st) \<Longrightarrow> server_ok (fst (fst (ls_step sm h e st)))"
  by (cases e; cases st)
    (auto simp: split_beta Let_def server_ok_accept server_ok_request server_ok_failed server_ok_closed server_ok_frame)

lemma server_ok_run: "server_ok (fst st) \<Longrightarrow> server_ok (fst (fst (ls_run sm h es st)))"
proof (induction es arbitrary: st)
  case (Cons e es)
  from Cons.IH [OF server_ok_step [OF Cons.prems, of sm h e]] show ?case
    by (simp add: split_beta Let_def)
qed simp

lemma server_ok_new: "server_ok (lane_server_new lane supported)"
  by (simp add: server_ok_def lane_server_new_def conn_of_def)

end
