(* ===== verification/Lane_Server_Props.thy ===== *)
theory Lane_Server_Props
  imports Lane_Server Interfaces
begin

text \<open>
  What the lane server promises: its driver table is consistent, each request to a driver settles
  once, and a request reaches the handler only from the driver that registered for it.
\<close>

section \<open>Every request settles once\<close>

lemma pend_drivers [simp]: "pend i (sv\<lparr>ls_drivers := x\<rparr>) = pend i sv"
  by (simp add: pend_def)

lemma pend_set_None:
  assumes "distinct (map fst (ls_conns sv))" "conn_of sv c = None"
  shows "pend i (set_conn c d' sv) = pend i sv + count_list (dc_pending d') i"
  using pend_in_update [OF assms(1), of i c d'] assms(2) by (simp add: pend_def set_conn_def conn_of_def)

lemma server_distinct: "server_ok sv \<Longrightarrow> distinct (map fst (ls_conns sv))"
  by (simp add: server_ok_def)

lemma count_le_one: "count_list xs i \<le> 1 \<Longrightarrow> i \<in> set xs \<Longrightarrow> count_list xs i = 1"
  by (metis One_nat_def Suc_leI count_list_0_iff le_antisym not_gr_zero)

lemma conserve_remove:
  assumes "server_ok sv" "conn_of sv c = Some d" "\<And>j. pend j sv \<le> 1" "k \<in> set (dc_pending d)"
  shows "(if k = i then 1 else 0) + pend i (set_conn c (d\<lparr>dc_pending := removeAll k (dc_pending d)\<rparr>) sv) = pend i sv"
proof -
  have one: "count_list (dc_pending d) k = 1"
    using pend_ge [OF assms(2), of k] assms(3) [of k] assms(4) by (intro count_le_one) linarith+
  show ?thesis
    using pend_set_conn [OF server_distinct [OF assms(1)] assms(2),
        of i "d\<lparr>dc_pending := removeAll k (dc_pending d)\<rparr>"] one pend_ge [OF assms(2), of i]
    by (auto simp: count_removeAll)
qed

lemma conserve_failed:
  assumes "server_ok sv" "\<And>j. pend j sv \<le> 1" "request_failed c k e sv = (sv', outs)"
  shows "settles i outs + pend i sv' = pend i sv"
  using assms(3) conserve_remove [OF assms(1) _ assms(2), of c _ k i]
  by (auto simp: request_failed_def split: option.splits if_splits)

lemma conserve_response:
  assumes "server_ok sv" "\<And>j. pend j sv \<le> 1" "conn_of sv c = Some d" "process_response c d frame sv = (sv', outs)"
  shows "settles i outs + pend i sv' = pend i sv"
  using assms(4) conserve_remove [OF assms(1,3,2), of _ i]
  by (auto simp: process_response_def split: option.splits if_splits)

lemma conserve_closed:
  assumes "server_ok sv" "socket_closed c sv = (sv', outs)"
  shows "settles i outs + pend i sv' = pend i sv"
proof (cases "conn_of sv c")
  case None
  with assms(2) show ?thesis by (simp add: socket_closed_def)
next
  case (Some d)
  with assms(2) have "outs = map (\<lambda>i. Settle i (Inl (provider_failed ''Channel driver disconnected''))) (dc_pending d)"
    "pend i sv' = pend i (set_conn c (d\<lparr>dc_pending := [], dc_destroyed := True\<rparr>) sv)"
    by (auto simp: socket_closed_def Let_def)
  with pend_set_conn [OF server_distinct [OF assms(1)] Some, of i "d\<lparr>dc_pending := [], dc_destroyed := True\<rparr>"]
  show ?thesis by (simp add: settles_map)
qed

lemma conserve_register:
  assumes "server_ok sv" "conn_of sv c = Some d" "register_driver c d request sv = (sv', outs)"
  shows "settles i outs + pend i sv' = pend i sv"
proof -
  have same: "pend i (set_conn c (d\<lparr>dc_registration := Some reg\<rparr>) sv) = pend i sv" for reg
    using pend_set_conn [OF server_distinct [OF assms(1)] assms(2), of i "d\<lparr>dc_registration := Some reg\<rparr>"]
    by simp
  show ?thesis
    using assms(3) by (auto simp: register_driver_def Let_def same split: sum.splits prod.splits option.splits if_splits)
qed

lemma conserve_frame:
  assumes "server_ok (fst st)" "\<And>j. pend j (fst st) \<le> 1" "process_frame sm h c frame st = (st', outs)"
  shows "settles i outs + pend i (fst st') = pend i (fst st)"
proof (cases "conn_of (fst st) c")
  case None
  with assms(3) show ?thesis by (simp add: process_frame_def)
next
  case d: (Some d)
  show ?thesis
  proof (cases "is_response frame")
    case True
    with assms(3) d conserve_response [OF assms(1,2) d, of frame _ _ i] show ?thesis
      by (auto simp: process_frame_def split: prod.splits)
  next
    case False
    with assms(3) d conserve_register [OF assms(1) d, of _ _ _ i] show ?thesis
      by (auto simp: process_frame_def Let_def split: prod.splits sum.splits option.splits if_splits)
  qed
qed

lemma conserve_request:
  assumes "server_ok sv" "requestDriver k driver meth params sv = (sv', outs)"
  shows "settles i outs + pend i sv' = pend i sv + (if k = i then 1 else 0)"
proof (cases rule: requestDriver_cases [of k driver meth params sv])
  case (refused e)
  with assms(2) show ?thesis by auto
next
  case (sent c d fr)
  with assms(2) pend_set_conn [OF server_distinct [OF assms(1)] sent(1), of i "d\<lparr>dc_pending := dc_pending d @ [k]\<rparr>"]
  show ?thesis by auto
qed

lemma conserve_step:
  assumes "server_ok (fst st)" "\<And>j. pend j (fst st) \<le> 1" "ls_step sm h e st = (st', outs)"
  shows "settles i outs + pend i (fst st') = pend i (fst st) + count_list (requested [e]) i"
proof (cases e)
  case (Ev_accept c)
  with assms pend_set_None [OF server_distinct [OF assms(1)], of c i] show ?thesis
    by (cases st) (auto simp: accept_socket_def split: if_splits)
next
  case (Ev_frame c frame)
  with conserve_frame [OF assms(1,2), of sm h c frame st' outs i] assms(3) show ?thesis by simp
next
  case (Ev_request k driver meth params)
  obtain sv s where st: "st = (sv, s)" by (cases st)
  obtain sv1 o1 where run: "requestDriver k driver meth params sv = (sv1, o1)"
    by (cases "requestDriver k driver meth params sv")
  with conserve_request [OF _ run, of i] assms(1,3) Ev_request st show ?thesis by auto
next
  case (Ev_timeout c k meth)
  obtain sv s where st: "st = (sv, s)" by (cases st)
  let ?e = "provider_failed (''Channel driver request timed out: '' @ meth)"
  obtain sv1 o1 where run: "request_failed c k ?e sv = (sv1, o1)" by (cases "request_failed c k ?e sv")
  with conserve_failed [OF _ _ run, of i] assms Ev_timeout st show ?thesis by auto
next
  case (Ev_write_failed c k x)
  obtain sv s where st: "st = (sv, s)" by (cases st)
  obtain sv1 o1 where run: "request_failed c k x sv = (sv1, o1)" by (cases "request_failed c k x sv")
  with conserve_failed [OF _ _ run, of i] assms Ev_write_failed st show ?thesis by auto
next
  case (Ev_closed c)
  obtain sv s where st: "st = (sv, s)" by (cases st)
  obtain sv1 o1 where run: "socket_closed c sv = (sv1, o1)" by (cases "socket_closed c sv")
  with conserve_closed [OF _ run, of i] assms(1,3) Ev_closed st show ?thesis by auto
qed

lemma requested_concat: "requested es = concat (map (\<lambda>e. requested [e]) es)"
proof (induction es)
  case (Cons e es)
  then show ?case by (cases e) auto
qed simp

lemma ls_run_runs: "ls_run sm h es st = runs (ls_step sm h) es st"
  by (induction es arbitrary: st) (simp_all add: Let_def split: prod.split)

interpretation drivers: settling "ls_step sm h" "\<lambda>st. server_ok (fst st)" "\<lambda>i st. pend i (fst st)" settles
  "\<lambda>e. requested [e]" for sm h
proof (unfold_locales, goal_cases)
  case (4 s e s' outs i)
  then show ?case by (intro conserve_step) auto
qed (simp_all add: server_ok_step)

section \<open>Registration\<close>

lemma parse_request_method:
  "parseJsonRpcRequest frame = Inr rq \<Longrightarrow> \<not> is_response frame"
  using parseJsonRpcRequest_InrD [of frame rq] by (simp add: is_response_def has_field_def)

lemma register_frame:
  assumes "conn_of sv c = Some d" "dc_registration d = None" "parseJsonRpcRequest frame = Inr rq"
    "rq_method rq = ''channel.register''"
    "parseRegistration (case rq_params rq of Some p \<Rightarrow> p | None \<Rightarrow> JNull) (ls_laneId sv) (ls_supported sv) = Inr (reg, res)"
    "process_frame sm h c frame (sv, s) = ((sv', s'), outs)"
  shows "s' = s" "map_of (ls_drivers sv') (cr_driverInstanceId reg) = Some c"
    "getDriver (cr_driverInstanceId reg) sv' = Some reg"
    "\<And>p. map_of (ls_drivers sv) (cr_driverInstanceId reg) = Some p \<Longrightarrow> p \<noteq> c \<Longrightarrow> EndSocket p \<in> set outs"
  using assms parse_request_method [OF assms(3)]
  by (auto simp: process_frame_def register_driver_def Let_def getDriver_def conn_of_def set_conn_def)

lemma handler_called:
  assumes "process_frame sm h c frame (sv, s) = ((sv', s'), outs)" "s' \<noteq> s"
  shows "\<exists>d reg rq. conn_of sv c = Some d \<and> dc_registration d = Some reg \<and> parseJsonRpcRequest frame = Inr rq \<and>
    assertRegisteredRequest sm reg rq = Inr () \<and> s' = snd (h reg rq s)"
  using assms
  by (auto simp: process_frame_def Let_def split: option.splits sum.splits if_splits prod.splits)

lemma assertRegisteredRequest_InrD:
  assumes "assertRegisteredRequest sm reg rq = Inr ()"
  shows "\<exists>params. rq_params rq = Some params \<and> is_record params \<and>
    jfield params ''driver_instance_id'' = Some (JStr (cr_driverInstanceId reg)) \<and>
    (\<forall>c. method_capability (rq_method rq) = Capability c \<longrightarrow> c \<in> set (cr_capabilities reg)) \<and>
    (\<forall>a. jfield params ''attachments'' = Some a \<longrightarrow> \<not> containsInlineAttachmentData a)"
  using assms
  by (auto simp: assertRegisteredRequest_def result_simps json_simps split: option.splits capability_lookup.splits)

section \<open>Properties\<close>

text \<open>C6: each request to a driver settles exactly once.  However accepts, frames, timeouts, failed
  writes and closes interleave, with fresh request ids a request has either settled once and is
  pending nowhere, or is pending once and has not settled; an answer that comes late, twice or from
  another connection settles nothing.\<close>

theorem driver_requests_settle_once:
  assumes "distinct (requested es)"
    and "ls_run sm h es (lane_server_new lane supported, s) = ((sv, s'), outs)"
  shows "settles i outs + pend i sv = (if i \<in> set (requested es) then 1 else 0)"
proof -
  have "pend j (lane_server_new lane supported) = 0" for j
    by (simp add: pend_def pend_in_def lane_server_new_def)
  then show ?thesis
    using drivers.settles_once [of "(lane_server_new lane supported, s)" es sm h "(sv, s')" outs i] assms
    by (simp add: server_ok_new ls_run_runs requested_concat [symmetric])
qed

theorem driver_requests_settle_once_witness:
  "settles ''r1'' (snd (ls_run id (\<lambda>reg rq s. (Inr JNull, s)) [Ev_accept 0, Ev_request ''r1'' ''d'' ''m'' JNull]
     (lane_server_new ''l'' [], ()))) = 1"
  using driver_requests_settle_once [of "[Ev_accept 0, Ev_request ''r1'' ''d'' ''m'' JNull]" id
      "\<lambda>reg rq s. (Inr JNull, s)" "''l''" "[]" "()" _ _ _ "''r1''"]
  by (simp add: lane_server_new_def accept_socket_def conn_of_def set_conn_def requestDriver_def pend_def pend_in_def)

text \<open>The driver table is consistent in every reachable state: an entry names a connection that
  registered under that instance for this lane with capabilities the server supports, an instance
  has one entry, and a closed connection holds no pending request.\<close>

theorem driver_table_consistent:
  assumes "ls_run sm h es (lane_server_new lane supported, s) = ((sv, s'), outs)"
  shows "server_ok sv"
  using server_ok_run [of "(lane_server_new lane supported, s)" sm h es] assms
  by (simp add: server_ok_new)

theorem driver_table_consistent_witness:
  "server_ok (fst (fst (ls_run id (\<lambda>reg rq s. (Inr JNull, s)) [Ev_accept 0, Ev_closed 0] (lane_server_new ''l'' [], ()))))"
proof -
  obtain sv s' outs where run: "ls_run id (\<lambda>reg rq s. (Inr JNull, s)) [Ev_accept 0, Ev_closed 0]
      (lane_server_new ''l'' [], ()) = ((sv, s'), outs)" by (metis surj_pair)
  from driver_table_consistent [OF run] show ?thesis unfolding run by simp
qed

text \<open>Only the registered driver reaches the handler.  When a frame changes the handler's state,
  its connection had registered, the request names the connection's driver instance, the method's
  capability was granted and no attachment carries inline bytes.\<close>

theorem handler_only_for_registered:
  assumes "process_frame sm h c frame (sv, s) = ((sv', s'), outs)" "s' \<noteq> s"
  shows "\<exists>d reg rq params. conn_of sv c = Some d \<and> dc_registration d = Some reg \<and>
    parseJsonRpcRequest frame = Inr rq \<and> rq_params rq = Some params \<and>
    jfield params ''driver_instance_id'' = Some (JStr (cr_driverInstanceId reg)) \<and>
    (\<forall>cap. method_capability (rq_method rq) = Capability cap \<longrightarrow> cap \<in> set (cr_capabilities reg)) \<and>
    (\<forall>a. jfield params ''attachments'' = Some a \<longrightarrow> \<not> containsInlineAttachmentData a)"
proof -
  from handler_called [OF assms] obtain d reg rq where r: "conn_of sv c = Some d" "dc_registration d = Some reg"
    "parseJsonRpcRequest frame = Inr rq" "assertRegisteredRequest sm reg rq = Inr ()" by blast
  from assertRegisteredRequest_InrD [OF r(4)] r(1,2,3) show ?thesis by blast
qed

text \<open>The capability table answers for names it does not hold.  It is an object literal, so a
  request for a method such as \<open>constructor\<close> or \<open>toString\<close> is refused as a capability that was not
  negotiated and never reaches the handler, which would say that the method is unsupported.\<close>

theorem inherited_method_refused:
  assumes "m \<in> set object_prototype_members" "is_record params"
    and "jfield params ''driver_instance_id'' = Some (JStr (cr_driverInstanceId reg))"
  shows "assertRegisteredRequest sm reg \<lparr>rq_id = i, rq_method = m, rq_params = Some params\<rparr> =
    Inl (capability_missing (sm m))"
proof -
  have "\<forall>m\<in>set object_prototype_members. method_capability m = Inherited m"
    by (simp add: object_prototype_members_def method_capability_def)
  then have "method_capability m = Inherited m" using assms(1) by blast
  moreover have "jrec (Some params) = Some params" using assms(2) by (cases params) auto
  ultimately show ?thesis using assms(3) by (simp add: assertRegisteredRequest_def)
qed

text \<open>A fatal error does not stop the frames that came with it.  A request before registration is
  refused and its socket half-closed, but a registration behind it in the same chunk is still
  processed, takes the driver's entry and ends the socket of the healthy connection that held it.\<close>

theorem pipelined_register_displaces:
  assumes "conn_of sv c = Some d" "dc_registration d = None"
    and "parseJsonRpcRequest frame1 = Inr rq1" "rq_method rq1 \<noteq> ''channel.register''"
    and "parseJsonRpcRequest frame2 = Inr rq2" "rq_method rq2 = ''channel.register''"
    and "parseRegistration (case rq_params rq2 of Some p \<Rightarrow> p | None \<Rightarrow> JNull) (ls_laneId sv) (ls_supported sv) = Inr (reg, res)"
    and "map_of (ls_drivers sv) (cr_driverInstanceId reg) = Some p" "p \<noteq> c"
    and "ls_run sm h [Ev_frame c frame1, Ev_frame c frame2] (sv, s) = ((sv', s'), outs)"
  shows "EndSocket c \<in> set outs \<and> EndSocket p \<in> set outs \<and>
    map_of (ls_drivers sv') (cr_driverInstanceId reg) = Some c"
proof -
  have "process_frame sm h c frame1 (sv, s) = ((sv, s), error_outs c (rq_id rq1)
      (throw_rpc_close (CHANNEL_ERROR_CODES NOT_REGISTERED) ''CHANNEL_NOT_REGISTERED''
        ''First channel request must be channel.register''))"
    using assms(1-4) parse_request_method [OF assms(3)] by (simp add: process_frame_def)
  moreover obtain sv2 s2 o2 where two: "process_frame sm h c frame2 (sv, s) = ((sv2, s2), o2)"
    by (cases "process_frame sm h c frame2 (sv, s)") auto
  ultimately have "sv' = sv2" "set o2 \<subseteq> set outs" "EndSocket c \<in> set outs"
    using assms(10) by (auto simp: error_outs_def closes_def throw_rpc_close_def)
  with register_frame [OF assms(1,2,5,6,7) two] assms(8,9) show ?thesis by auto
qed

section \<open>Witnesses\<close>

definition sample_reg :: channel_registration where
  "sample_reg =
     \<lparr>cr_protocolVersion = ''0.1'', cr_laneId = ''l'', cr_driverInstanceId = ''d'', cr_provider = ''p'',
      cr_accountRef = ''a'', cr_stagingRoot = ''/s'', cr_capabilities = [''message.receive'']\<rparr>"

definition sample_server :: lane_server where
  "sample_server =
     \<lparr>ls_laneId = ''l'', ls_supported = [''message.receive''], ls_drivers = [(''d'', 0)],
      ls_conns = [(0, \<lparr>dc_registration = Some sample_reg, dc_pending = [], dc_destroyed = False\<rparr>),
                  (1, \<lparr>dc_registration = None, dc_pending = [], dc_destroyed = False\<rparr>)]\<rparr>"

definition sample_frame :: "string \<Rightarrow> json \<Rightarrow> json" where
  "sample_frame meth params =
     JObj [(''jsonrpc'', JStr ''2.0''), (''id'', JStr ''1''), (''method'', JStr meth), (''params'', params)]"

definition register_params :: json where
  "register_params =
     JObj [(''protocol_version'', JStr ''0.1''), (''lane_id'', JStr ''l''), (''staging_root'', JStr ''/s''),
       (''capabilities'', JArr [JStr ''message.receive'']), (''driver_instance_id'', JStr ''d''),
       (''provider'', JStr ''p''), (''account_ref'', JStr ''a'')]"

lemma sample_frame_parsed:
  "meth \<noteq> [] \<Longrightarrow> parseJsonRpcRequest (sample_frame meth params) =
     Inr \<lparr>rq_id = ''1'', rq_method = meth, rq_params = Some params\<rparr>"
  by (simp add: sample_frame_def parseJsonRpcRequest_def)

theorem handler_only_for_registered_witness:
  "\<exists>d reg. conn_of sample_server 0 = Some d \<and> dc_registration d = Some reg \<and>
     process_frame id (\<lambda>reg rq s. (Inr JNull, Suc s)) 0
       (sample_frame ''channel.message.received'' (JObj [(''driver_instance_id'', JStr ''d'')])) (sample_server, 0) =
     ((sample_server, 1), [WriteFrame 0 (success ''1'' JNull)])"
proof -
  let ?f = "sample_frame ''channel.message.received'' (JObj [(''driver_instance_id'', JStr ''d'')])"
  have "\<not> is_response ?f" by (simp add: is_response_def sample_frame_def has_field_def)
  then have run: "process_frame id (\<lambda>reg rq s. (Inr JNull, Suc s)) 0 ?f (sample_server, 0) =
      ((sample_server, 1), [WriteFrame 0 (success ''1'' JNull)])"
    by (simp add: process_frame_def sample_frame_parsed conn_of_def sample_server_def sample_reg_def
        assertRegisteredRequest_def method_capability_def)
  from handler_only_for_registered [OF run] run show ?thesis by auto
qed

theorem inherited_method_refused_witness:
  "assertRegisteredRequest (\<lambda>m. ''function '' @ m) sample_reg
     \<lparr>rq_id = ''1'', rq_method = ''constructor'', rq_params = Some (JObj [(''driver_instance_id'', JStr ''d'')])\<rparr> =
   Inl (capability_missing ''function constructor'')"
  by (subst inherited_method_refused) (simp_all add: object_prototype_members_def sample_reg_def)

theorem pipelined_register_displaces_witness:
  "EndSocket 0 \<in> set (snd (ls_run id (\<lambda>reg rq s. (Inr JNull, s))
     [Ev_frame 1 (sample_frame ''x'' JNull), Ev_frame 1 (sample_frame ''channel.register'' register_params)]
     (sample_server, ())))"
proof -
  let ?es = "[Ev_frame 1 (sample_frame ''x'' JNull), Ev_frame 1 (sample_frame ''channel.register'' register_params)]"
  obtain sv s' outs where run: "ls_run id (\<lambda>reg rq s. (Inr JNull, s)) ?es (sample_server, ()) = ((sv, s'), outs)"
    by (metis surj_pair)
  obtain res where "parseRegistration register_params ''l'' [''message.receive''] = Inr (sample_reg, res)"
    by (simp add: parseRegistration_def register_params_def requireString_def capability_list_def sample_reg_def
        LOCAL_CHANNEL_PROTOCOL_VERSION_def map_filter_def Let_def)
  then have reg: "parseRegistration (case rq_params \<lparr>rq_id = ''1'', rq_method = ''channel.register'', rq_params = Some register_params\<rparr>
      of Some p \<Rightarrow> p | None \<Rightarrow> JNull) (ls_laneId sample_server) (ls_supported sample_server) = Inr (sample_reg, res)"
    by (simp add: sample_server_def)
  have "EndSocket 0 \<in> set outs"
    using pipelined_register_displaces [OF _ _ sample_frame_parsed _ sample_frame_parsed _ reg _ _ run, of _ 0]
    by (simp add: sample_server_def conn_of_def sample_reg_def)
  then show ?thesis unfolding run by simp
qed

end
