(* ===== verification/Effects.thy ===== *)
theory Effects
  imports Errors
begin

text \<open>
  Code that reads and changes a state and may throw: what the commands of the program are.  A state
  that was changed before an exception stays changed, as it does in the code.
\<close>

named_theorems eff_simps "evaluation of code with effects"

type_synonym ('s, 'a) eff = "'s \<Rightarrow> (exn + 'a) \<times> 's"

definition eret :: "'a \<Rightarrow> ('s, 'a) eff" where
  "eret a s = (Inr a, s)"

definition elift :: "exn + 'a \<Rightarrow> ('s, 'a) eff" where
  "elift r s = (r, s)"

definition ethrow :: "string \<Rightarrow> ('s, 'a) eff" where
  "ethrow msg s = (Inl (PlainError msg), s)"

definition ebind :: "('s, 'a) eff \<Rightarrow> ('a \<Rightarrow> ('s, 'b) eff) \<Rightarrow> ('s, 'b) eff" where
  "ebind m f s = (case m s of (Inl e, s') \<Rightarrow> (Inl e, s') | (Inr a, s') \<Rightarrow> f a s')"

definition ethen :: "('s, 'a) eff \<Rightarrow> ('s, 'b) eff \<Rightarrow> ('s, 'b) eff" where
  "ethen m k = ebind m (\<lambda>_. k)"

definition erequire :: "bool \<Rightarrow> string \<Rightarrow> ('s, unit) eff" where
  "erequire c msg = (if c then eret () else ethrow msg)"

lemma eret_apply [simp, eff_simps]: "eret a s = (Inr a, s)"
  by (simp add: eret_def)

lemma elift_apply [simp, eff_simps]: "elift r s = (r, s)"
  by (simp add: elift_def)

lemma ethrow_apply [simp, eff_simps]: "ethrow msg s = (Inl (PlainError msg), s)"
  by (simp add: ethrow_def)

lemma ebind_simps [eff_simps]:
  "m s = (Inl e, s') \<Longrightarrow> ebind m f s = (Inl e, s')"
  "m s = (Inr a, s') \<Longrightarrow> ebind m f s = f a s'"
  by (simp_all add: ebind_def)

lemma ebind_eret [simp, eff_simps]: "ebind (eret a) f s = f a s" "ebind (elift (Inr a)) f s = f a s"
  by (simp_all add: ebind_def)

lemma ebind_throw [simp, eff_simps]: "ebind (ethrow msg) f s = (Inl (PlainError msg), s)" "ebind (elift (Inl e)) f s = (Inl e, s)"
  by (simp_all add: ebind_def)

lemma ebind_InrE:
  assumes "ebind m f s = (Inr b, s'')"
  obtains a s' where "m s = (Inr a, s')" "f a s' = (Inr b, s'')"
  using assms by (auto simp: ebind_def split: prod.splits sum.splits)

lemma ebind_InlE:
  assumes "ebind m f s = (Inl e, s'')"
  obtains "m s = (Inl e, s'')" | a s' where "m s = (Inr a, s')" "f a s' = (Inl e, s'')"
  using assms by (auto simp: ebind_def split: prod.splits sum.splits)

lemma ethen_InrE:
  assumes "ethen m k s = (Inr b, s'')"
  obtains a s' where "m s = (Inr a, s')" "k s' = (Inr b, s'')"
  using assms unfolding ethen_def by (rule ebind_InrE)

lemma erequire_simps [simp, eff_simps]:
  "erequire True msg s = (Inr (), s)" "\<not> c \<Longrightarrow> erequire c msg s = (Inl (PlainError msg), s)"
  "c \<Longrightarrow> erequire c msg s = (Inr (), s)"
  by (simp_all add: erequire_def)

lemma ethen_erequire [simp, eff_simps]:
  "ethen (erequire c msg) k s = (if c then k s else (Inl (PlainError msg), s))"
  by (simp add: ethen_def ebind_def erequire_def)

lemma ethen_eret [simp, eff_simps]: "ethen (eret a) k = k"
  by (simp add: ethen_def ebind_def fun_eq_iff)

lemma erequire_Inr: "erequire c msg s = (Inr u, s') \<longleftrightarrow> c \<and> s' = s"
  by (auto simp: erequire_def)

text \<open>What the state keeps through every effect of a program.\<close>

definition keeps :: "('s \<Rightarrow> bool) \<Rightarrow> ('s, 'a) eff \<Rightarrow> bool" where
  "keeps P m = (\<forall>s. P s \<longrightarrow> P (snd (m s)))"

lemma keepsI: "(\<And>s. P s \<Longrightarrow> P (snd (m s))) \<Longrightarrow> keeps P m"
  by (simp add: keeps_def)

lemma keepsD: "keeps P m \<Longrightarrow> P s \<Longrightarrow> m s = (r, s') \<Longrightarrow> P s'"
  unfolding keeps_def by (metis snd_conv)

lemma keeps_pure [simp, intro]: "keeps P (eret a)" "keeps P (elift r)" "keeps P (ethrow msg)" "keeps P (erequire c msg)"
  by (simp_all add: keeps_def erequire_def)

lemma keeps_bind [intro]:
  assumes "keeps P m" "\<And>a. keeps P (f a)"
  shows "keeps P (ebind m f)"
  using assms by (auto simp: keeps_def ebind_def split: prod.split sum.split)

lemma keeps_then [intro]: "keeps P m \<Longrightarrow> keeps P k \<Longrightarrow> keeps P (ethen m k)"
  unfolding ethen_def by blast

end
