(* ===== verification/Lane_Socket.thy ===== *)
theory Lane_Socket
  imports Effects
begin

text \<open>
  The file of a lane's socket in \<open>src/channel-rpc/lane-server.ts\<close>: \<open>removeStaleSocket\<close>, and what \<open>start\<close>
  and \<open>stop\<close> do to it.  The answers of the file system and the network are in \<open>socket_world\<close>; what is at
  the path is the state.
\<close>

section \<open>State\<close>

text \<open>What is at the path: nothing, a symbolic link, something else that is no socket, or a socket, with what
  a connection to it says: someone listens, nobody does, or another error.\<close>

datatype socket_file = Sf_absent | Sf_link | Sf_other | Sf_live | Sf_dead | Sf_error exn

record socket_world =
  sk_directory :: "exn + unit"
  sk_unlink :: "exn + unit"
  sk_listen :: "exn + unit"
  sk_chmod :: "exn + unit"
  sk_close :: "exn + unit"
  sk_close_unlinks :: bool

text \<open>\<open>lk_server\<close> is whether \<open>#server\<close> is set; \<open>lk_listening\<close> whether a server of this lane listens.\<close>

record lane_socket =
  lk_file :: socket_file
  lk_server :: bool
  lk_listening :: bool

section \<open>Operations\<close>

definition socketHasListener :: "socket_file \<Rightarrow> exn + bool" where
  "socketHasListener f = (case f of Sf_live \<Rightarrow> Inr True | Sf_error e \<Rightarrow> Inl e | _ \<Rightarrow> Inr False)"

definition socket_unlink :: "socket_world \<Rightarrow> (lane_socket, unit) eff" where
  "socket_unlink w lk = (case sk_unlink w of Inl e \<Rightarrow> (Inl e, lk) | Inr _ \<Rightarrow> (Inr (), lk\<lparr>lk_file := Sf_absent\<rparr>))"

definition removeStaleSocket :: "socket_world \<Rightarrow> string \<Rightarrow> (lane_socket, unit) eff" where
  "removeStaleSocket w path lk =
     (if lk_file lk = Sf_absent then (Inr (), lk)
      else if lk_file lk = Sf_link \<or> lk_file lk = Sf_other
      then (Inl (PlainError (''Refusing to replace non-socket path: '' @ path)), lk)
      else case socketHasListener (lk_file lk) of
        Inl e \<Rightarrow> (Inl e, lk)
      | Inr True \<Rightarrow> (Inl (PlainError (''Socket already has an active listener: '' @ path)), lk)
      | Inr False \<Rightarrow> socket_unlink w lk)"

definition socket_listen :: "socket_world \<Rightarrow> (lane_socket, unit) eff" where
  "socket_listen w lk = (case sk_listen w of Inl e \<Rightarrow> (Inl e, lk) | Inr _ \<Rightarrow> (Inr (), lk\<lparr>lk_file := Sf_live, lk_listening := True\<rparr>))"

definition lane_socket_start :: "socket_world \<Rightarrow> string \<Rightarrow> string \<Rightarrow> (lane_socket, unit) eff" where
  "lane_socket_start w laneId path lk =
     (if lk_server lk then (Inl (PlainError (''Lane is already started: '' @ laneId)), lk)
      else ethen (elift (sk_directory w))
        (ethen (removeStaleSocket w path)
        (ethen (socket_listen w)
        (ethen (elift (sk_chmod w))
          (\<lambda>lk. (Inr (), lk\<lparr>lk_server := True\<rparr>))))) lk)"

text \<open>Closing a server may remove its file already (\<open>sk_close_unlinks\<close>); a file that is not there is no error.\<close>

definition lane_socket_stop :: "socket_world \<Rightarrow> (lane_socket, unit) eff" where
  "lane_socket_stop w lk =
     (if \<not> lk_server lk then (Inr (), lk)
      else ethen (\<lambda>lk. case sk_close w of
            Inl e \<Rightarrow> (Inl e, lk)
          | Inr _ \<Rightarrow> (Inr (), lk\<lparr>lk_listening := False, lk_file := (if sk_close_unlinks w then Sf_absent else Sf_dead)\<rparr>))
        (\<lambda>lk. if lk_file lk = Sf_absent then (Inr (), lk) else socket_unlink w lk) (lk\<lparr>lk_server := False\<rparr>))"

section \<open>Properties\<close>

lemma removeStale_cases:
  assumes "removeStaleSocket w path lk = (r, lk')"
  shows "(case r of
      Inl e \<Rightarrow> lk' = lk
    | Inr _ \<Rightarrow> lk' = lk\<lparr>lk_file := Sf_absent\<rparr> \<and> (lk_file lk = Sf_absent \<or> lk_file lk = Sf_dead))"
  using assms
  by (auto simp: removeStaleSocket_def socketHasListener_def socket_unlink_def split: if_splits sum.splits socket_file.splits bool.splits)

text \<open>A lane takes only a path that is free.  A start that returns has replaced nothing but a socket that
  nobody listened on, and the lane listens there; in every case a link, a file, or a socket that another
  server listens on is left as it is.\<close>

theorem lane_start_takes_free_path:
  assumes "lane_socket_start w laneId path lk = (r, lk')" "\<not> lk_listening lk"
  shows "(case r of
      Inl e \<Rightarrow> lk_server lk' = lk_server lk \<and>
        (lk_file lk' = lk_file lk \<or> (lk_file lk = Sf_absent \<or> lk_file lk = Sf_dead) \<and> lk_file lk' = (if lk_listening lk' then Sf_live else Sf_absent))
    | Inr _ \<Rightarrow> (lk_file lk = Sf_absent \<or> lk_file lk = Sf_dead) \<and> lk' = \<lparr>lk_file = Sf_live, lk_server = True, lk_listening = True\<rparr>)"
proof (cases "lk_server lk")
  case True
  with assms show ?thesis by (auto simp: lane_socket_start_def)
next
  case False
  show ?thesis
  proof (cases "sk_directory w")
    case (Inl e)
    with assms False have "r = Inl e" "lk' = lk" by (simp_all add: lane_socket_start_def ethen_def ebind_def)
    then show ?thesis by simp
  next
    case (Inr u)
    obtain q lk1 where st: "removeStaleSocket w path lk = (q, lk1)" by (cases "removeStaleSocket w path lk")
    note c = removeStale_cases [OF st]
    have start: "lane_socket_start w laneId path lk =
        (case q of Inl e \<Rightarrow> (Inl e, lk1)
         | Inr _ \<Rightarrow> ethen (socket_listen w) (ethen (elift (sk_chmod w)) (\<lambda>lk. (Inr (), lk\<lparr>lk_server := True\<rparr>))) lk1)"
      using False Inr st by (cases q) (simp_all add: lane_socket_start_def ethen_def ebind_def)
    show ?thesis
    proof (cases q)
      case (Inl e)
      with start c assms show ?thesis by auto
    next
      case (Inr v)
      with c have free: "lk1 = lk\<lparr>lk_file := Sf_absent\<rparr>" "lk_file lk = Sf_absent \<or> lk_file lk = Sf_dead" by simp_all
      have "lane_socket_start w laneId path lk =
          (case sk_listen w of
             Inl e \<Rightarrow> (Inl e, lk1)
           | Inr _ \<Rightarrow> (case sk_chmod w of
               Inl e \<Rightarrow> (Inl e, lk1\<lparr>lk_file := Sf_live, lk_listening := True\<rparr>)
             | Inr _ \<Rightarrow> (Inr (), lk1\<lparr>lk_file := Sf_live, lk_listening := True, lk_server := True\<rparr>)))"
        using start Inr by (simp add: ethen_def ebind_def socket_listen_def split: sum.split)
      with assms False free show ?thesis by (cases lk) (auto split: sum.splits)
    qed
  qed
qed

theorem lane_start_takes_free_path_witness:
  "(let w = \<lparr>sk_directory = Inr (), sk_unlink = Inr (), sk_listen = Inr (), sk_chmod = Inr (), sk_close = Inr (), sk_close_unlinks = True\<rparr>;
      (r, lk) = lane_socket_start w ''a'' ''/s'' \<lparr>lk_file = Sf_dead, lk_server = False, lk_listening = False\<rparr> in
    r = Inr () \<and> lk = \<lparr>lk_file = Sf_live, lk_server = True, lk_listening = True\<rparr>)"
proof -
  let ?w = "\<lparr>sk_directory = Inr (), sk_unlink = Inr (), sk_listen = Inr (), sk_chmod = Inr (), sk_close = Inr (), sk_close_unlinks = True\<rparr>"
  let ?lk = "\<lparr>lk_file = Sf_dead, lk_server = False, lk_listening = False\<rparr>"
  obtain r lk where run: "lane_socket_start ?w ''a'' ''/s'' ?lk = (r, lk)" by (cases "lane_socket_start ?w ''a'' ''/s'' ?lk")
  have "fst (lane_socket_start ?w ''a'' ''/s'' ?lk) = Inr ()"
    by (simp add: lane_socket_start_def removeStaleSocket_def socketHasListener_def socket_unlink_def socket_listen_def ethen_def ebind_def)
  with run lane_start_takes_free_path [OF run] show ?thesis by (simp add: Let_def)
qed

text \<open>A start that fails at its last step leaves a server behind.  When the mode of the socket cannot be set
  the lane is not started but listens: \<open>stop\<close> does nothing about it, and every later start is refused by
  the lane's own socket.\<close>

theorem failed_chmod_keeps_listening:
  assumes "sk_directory w = Inr ()" "sk_listen w = Inr ()" "sk_chmod w = Inl e" "lk_file lk = Sf_absent" "\<not> lk_server lk"
    and "sk_directory w' = Inr ()"
  shows "\<exists>lk1. lane_socket_start w laneId path lk = (Inl e, lk1) \<and> lk_listening lk1 \<and> lane_socket_stop w' lk1 = (Inr (), lk1) \<and>
    lane_socket_start w' laneId path lk1 = (Inl (PlainError (''Socket already has an active listener: '' @ path)), lk1)"
  using assms
  by (simp add: lane_socket_start_def lane_socket_stop_def removeStaleSocket_def socketHasListener_def socket_listen_def
      ethen_def ebind_def elift_def)

theorem failed_chmod_keeps_listening_witness:
  "let w = \<lparr>sk_directory = Inr (), sk_unlink = Inr (), sk_listen = Inr (), sk_chmod = Inl (PlainError ''EPERM''), sk_close = Inr (),
      sk_close_unlinks = True\<rparr> in
    lk_listening (snd (lane_socket_start w ''a'' ''/s'' \<lparr>lk_file = Sf_absent, lk_server = False, lk_listening = False\<rparr>))"
proof -
  let ?w = "\<lparr>sk_directory = Inr (), sk_unlink = Inr (), sk_listen = Inr (), sk_chmod = Inl (PlainError ''EPERM''), sk_close = Inr (),
      sk_close_unlinks = True\<rparr>"
  let ?lk = "\<lparr>lk_file = Sf_absent, lk_server = False, lk_listening = False\<rparr>"
  from failed_chmod_keeps_listening [of ?w "PlainError ''EPERM''" ?lk ?w "''a''" "''/s''"]
  obtain lk1 where "lane_socket_start ?w ''a'' ''/s'' ?lk = (Inl (PlainError ''EPERM''), lk1)" "lk_listening lk1" by auto
  then show ?thesis by (simp add: Let_def)
qed

end
