(* ===== verification/Lane_Wire.thy ===== *)
theory Lane_Wire
  imports Lane_Server Ndjson
begin

text \<open>
  The \<open>data\<close> events of a driver's socket in \<open>#accept\<close> of \<open>src/channel-rpc/lane-server.ts\<close>: bytes are decoded
  to frames, and the frames of a connection are processed one after the other.  Each connection has a
  decoder, whose buffer is part of the state here.
\<close>

section \<open>Definitions\<close>

definition lane_frames ::
  "(string \<Rightarrow> string) \<Rightarrow> (channel_registration \<Rightarrow> json_rpc_request \<Rightarrow> 's \<Rightarrow> (exn + json) \<times> 's) \<Rightarrow>
   nat \<Rightarrow> json list \<Rightarrow> lane_server \<times> 's \<Rightarrow> (lane_server \<times> 's) \<times> ls_out list"
where
  "lane_frames sm h c frames = ls_run sm h (map (Ev_frame c) frames)"

text \<open>A frame that is too long destroys the socket; one that is no JSON is answered and ends it.\<close>

definition lane_data ::
  "json_codec \<Rightarrow> (string \<Rightarrow> string) \<Rightarrow> (channel_registration \<Rightarrow> json_rpc_request \<Rightarrow> 's \<Rightarrow> (exn + json) \<times> 's) \<Rightarrow>
   nat \<Rightarrow> string \<Rightarrow> string \<times> lane_server \<times> 's \<Rightarrow> (string \<times> lane_server \<times> 's) \<times> ls_out list"
where
  "lane_data codec sm h c chunk s =
     (let (buf, st) = s in
      case ndjson_push codec MAX_FRAME_BYTES buf chunk of
        (Inl (FrameTooLargeError n mx), r) \<Rightarrow> ((r, st), [DestroySocket c])
      | (Inl (InvalidFrameError msg), r) \<Rightarrow>
          ((r, st), [WriteFrame c (failure None (throw_rpc_close (-32700) ''PARSE_ERROR'' msg)), EndSocket c])
      | (Inr frames, r) \<Rightarrow> (let (st', outs) = lane_frames sm h c frames st in ((r, st'), outs)))"

fun lane_datas ::
  "json_codec \<Rightarrow> (string \<Rightarrow> string) \<Rightarrow> (channel_registration \<Rightarrow> json_rpc_request \<Rightarrow> 's \<Rightarrow> (exn + json) \<times> 's) \<Rightarrow>
   nat \<Rightarrow> string list \<Rightarrow> string \<times> lane_server \<times> 's \<Rightarrow> (string \<times> lane_server \<times> 's) \<times> ls_out list"
where
  "lane_datas codec sm h c [] s = (s, [])"
| "lane_datas codec sm h c (ch # chs) s =
     (let (s1, o1) = lane_data codec sm h c ch s; (s2, o2) = lane_datas codec sm h c chs s1 in (s2, o1 @ o2))"

section \<open>Lemmas\<close>

lemma lane_frames_append:
  "lane_frames sm h c (fs @ gs) st =
     (let (st1, o1) = lane_frames sm h c fs st; (st2, o2) = lane_frames sm h c gs st1 in (st2, o1 @ o2))"
  unfolding lane_frames_def by (induction fs arbitrary: st) (simp_all add: Let_def split: prod.split)

lemma lane_datas_pushes:
  assumes "ndjson_pushes codec MAX_FRAME_BYTES buf chs = (Inr frames, r)"
  shows "lane_datas codec sm h c chs (buf, st) = (let (st', outs) = lane_frames sm h c frames st in ((r, st'), outs))"
  using assms
proof (induction chs arbitrary: buf frames st)
  case Nil
  then show ?case by (simp add: lane_frames_def)
next
  case (Cons ch chs)
  then obtain fs b gs where push: "ndjson_push codec MAX_FRAME_BYTES buf ch = (Inr fs, b)"
    and rest: "ndjson_pushes codec MAX_FRAME_BYTES b chs = (Inr gs, r)" and frames: "frames = fs @ gs"
    by (auto split: prod.splits sum.splits)
  obtain st1 o1 where p: "lane_frames sm h c fs st = (st1, o1)" by (cases "lane_frames sm h c fs st")
  from Cons.IH [OF rest, of st1] push p show ?case
    by (simp add: lane_data_def frames lane_frames_append Let_def split: prod.split)
qed

lemma lane_datas_written:
  assumes "list_all (codec_law codec) vs" "smap (encodeFrame codec MAX_FRAME_BYTES) vs = Inr frames" "concat chs = concat frames"
  shows "lane_datas codec sm h c chs ([], st) = (let (st', outs) = ls_run sm h (map (Ev_frame c) vs) st in (([], st'), outs))"
proof -
  from assms have "pump (ndjson_next codec MAX_FRAME_BYTES) (\<lambda>_. False) (concat chs) = (vs, [], Waiting)"
    by (simp add: smap_encodeFrame pump_printed list_all_iff)
  then have "ndjson_pushes codec MAX_FRAME_BYTES [] chs = (Inr vs, [])"
    using nd.chunking_invisible(2) [of codec MAX_FRAME_BYTES "[]" "\<lambda>_. False" chs vs "[]"]
    by (simp add: ndjson_pushes_Inr)
  from lane_datas_pushes [OF this] show ?thesis by (simp add: lane_frames_def)
qed

section \<open>Properties\<close>

text \<open>C11: what a driver writes is what its lane processes.  Messages that are encoded as frames and sent in
  chunks of any size are processed as these messages, each once and in order: the lane ends in the state,
  and has written the answers, of processing them one by one.\<close>

theorem lane_processes_what_is_written:
  assumes "list_all (codec_law codec) vs" "smap (encodeFrame codec MAX_FRAME_BYTES) vs = Inr frames" "concat chs = concat frames"
  shows "lane_datas codec sm h c chs ([], st) = (let (st', outs) = ls_run sm h (map (Ev_frame c) vs) st in (([], st'), outs))"
  using assms by (rule lane_datas_written)

theorem lane_processes_what_is_written_witness:
  "snd (lane_datas null_codec (\<lambda>m. m) (\<lambda>reg rq s. (Inr JNull, s)) 7 [''nu'', ''ll'' @ [LF]] ([], accept_socket 7 (lane_server_new ''a'' []), ())) =
    [WriteFrame 7 (failure None invalid_request), EndSocket 7]"
proof -
  have "list_all (codec_law null_codec) [JNull]" "smap (encodeFrame null_codec MAX_FRAME_BYTES) [JNull] = Inr [''null'' @ [LF]]"
    "concat [''nu'', ''ll'' @ [LF]] = concat [''null'' @ [LF]]"
    by (simp_all add: codec_law_def null_codec_def LF_def encodeFrame_def MAX_FRAME_BYTES_def)
  from lane_processes_what_is_written [OF this, where sm = "\<lambda>m. m" and h = "\<lambda>reg rq s. (Inr JNull, s)" and c = 7
      and st = "(accept_socket 7 (lane_server_new ''a'' []), ())"]
  have "snd (lane_datas null_codec (\<lambda>m. m) (\<lambda>reg rq s. (Inr JNull, s)) 7 [''nu'', ''ll'' @ [LF]] ([], accept_socket 7 (lane_server_new ''a'' []), ())) =
      snd (ls_run (\<lambda>m. m) (\<lambda>reg rq s. (Inr JNull, s)) [Ev_frame 7 JNull] (accept_socket 7 (lane_server_new ''a'' []), ()))"
    by (simp split: prod.split)
  also have "\<dots> = [WriteFrame 7 (failure None invalid_request), EndSocket 7]"
    by (simp add: process_frame_def is_response_def parseJsonRpcRequest_def accept_socket_def lane_server_new_def conn_of_def set_conn_def Let_def)
  finally show ?thesis .
qed

end
