(* ===== verification/Audit_Worker.thy ===== *)
theory Audit_Worker
  imports Outbox_Props
begin

text \<open>
  \<open>src/hub/audit-worker.ts\<close>: the loop that delivers the outbox to the Hub.  \<open>audit_process\<close> is one
  event, with the Hub's answers, the clock and the random number as arguments, each of which may be
  an exception.  What the worker uses of the contracts package is a \<open>contracts\<close> record.  The
  operator's status (last acknowledgement, last error) is not part of the model.
\<close>

section \<open>Types\<close>

datatype error_class = Permanent | Transient | Transient_operator | Wait_approval

record contracts =
  ct_errorClassOf :: "int \<Rightarrow> error_class"
  ct_errorDataCode :: "hub_rpc_error \<Rightarrow> string option"
  ct_deriveBlobKey :: "string \<Rightarrow> string \<Rightarrow> string"
  ct_AUDIT_MISSING_BLOBS :: int
  ct_AUDIT_SCHEMA_VERSION :: rat

record audit_capability =
  ac_version :: rat
  ac_sha256 :: bool
  ac_max_attachments_per_event :: nat
  ac_max_blob_bytes :: rat
  ac_max_attachments_bytes_per_event :: rat

record raw_attachment =
  ra_filename :: string
  ra_media_type :: "string option"
  ra_size :: rat
  ra_sha256 :: string

record prepared_blob =
  pp_sha256 :: string
  pp_blob_key :: string
  pp_missing :: bool
  pp_upload :: bool

text \<open>The Hub and the network during one event.\<close>

record hub_answers =
  hw_audit :: "audit_capability option"
  hw_prepare :: "exn + prepared_blob list"
  hw_authorize :: "nat \<Rightarrow> exn + unit"
  hw_put :: "nat \<Rightarrow> exn + int \<times> rat option"
  hw_append :: "exn + unit"
  hw_now :: millis
  hw_random :: rat
  hw_parse :: "string \<Rightarrow> json option"
  hw_iso :: "millis \<Rightarrow> string"

section \<open>Delays and error codes\<close>

definition auditErrorCode :: "contracts \<Rightarrow> hub_rpc_error \<Rightarrow> string" where
  "auditErrorCode ct e = (case ct_errorDataCode ct e of Some c \<Rightarrow> c | None \<Rightarrow> js_int (he_code e))"

definition requestedDelay :: "json option \<Rightarrow> rat option" where
  "requestedDelay source =
     (case source of None \<Rightarrow> None
      | Some s \<Rightarrow>
          (case jnum (jfield s ''retry_after_ms'') of
             Some ms \<Rightarrow> if ms > 0 then Some ms
               else (case jnum (jfield s ''retry_after'') of
                 Some sec \<Rightarrow> if sec > 0 then Some (of_int \<lceil>sec * 1000\<rceil>) else None
               | None \<Rightarrow> None)
           | None \<Rightarrow>
               (case jnum (jfield s ''retry_after'') of
                  Some sec \<Rightarrow> if sec > 0 then Some (of_int \<lceil>sec * 1000\<rceil>) else None
                | None \<Rightarrow> None)))"

definition retryDelay :: "nat \<Rightarrow> bool \<Rightarrow> rat \<Rightarrow> int" where
  "retryDelay attempt operatorRequired random =
     (let base = (if operatorRequired then 10 * 60000 else 1000);
          maximum = (if operatorRequired then 60 * 60000 else 5 * 60000);
          exponential = min maximum (base * 2 ^ min attempt 16) in
      \<lfloor>exponential * (8 / 10 + random * (4 / 10))\<rfloor>)"

section \<open>Attachments\<close>

definition raw_attachment_of :: "json \<Rightarrow> raw_attachment option" where
  "raw_attachment_of item =
     (case (jstr (jfield item ''filename''), jnum (jfield item ''size''), jstr (jfield item ''sha256'')) of
        (Some f, Some n, Some h) \<Rightarrow>
          Some \<lparr>ra_filename = f, ra_media_type = jstr (jfield item ''media_type''), ra_size = n, ra_sha256 = h\<rparr>
      | _ \<Rightarrow> None)"

definition eventAttachments :: "(string \<Rightarrow> json option) \<Rightarrow> stored_audit_event \<Rightarrow> exn + raw_attachment list" where
  "eventAttachments parse e =
     (case parse (ev_rawParams e) of
        None \<Rightarrow> Inl (PlainError ''JSON Parse error'')
      | Some params \<Rightarrow>
          (case jarr (jfield params ''attachments'') of
             None \<Rightarrow> Inr []
           | Some items \<Rightarrow> Inr (List.map_filter raw_attachment_of items)))"

section \<open>Uploading\<close>

definition http_permanent :: "int \<Rightarrow> bool" where
  "http_permanent status = (status \<ge> 400 \<and> status < 500 \<and> status \<noteq> 408 \<and> status \<noteq> 429)"

definition put_error :: "int \<Rightarrow> rat option \<Rightarrow> exn" where
  "put_error status seconds =
     AuditHttpError \<lparr>ah_status = status, ah_permanent = http_permanent status,
       ah_retry_after_ms = (case seconds of
          Some s \<Rightarrow> if s > 0 then Some (of_int \<lceil>s * 1000\<rceil>) else None | None \<Rightarrow> None)\<rparr>"

definition upload_one ::
  "contracts \<Rightarrow> hub_answers \<Rightarrow> nat \<Rightarrow> raw_attachment \<Rightarrow> prepared_blob \<Rightarrow> outbox \<Rightarrow> (exn + unit) \<times> outbox"
where
  "upload_one ct hub i a prepared ob =
     (if ra_sha256 a \<noteq> pp_sha256 prepared
      then (Inl (PlainError ''Hub returned an unmatched Blob preparation result''), ob)
      else
        (let localKey = ct_deriveBlobKey ct (ra_sha256 a) (ra_filename a) in
         case getBlob localKey ob of
           None \<Rightarrow> (Inl (PlainError (''Local Blob is missing: '' @ localKey)), ob)
         | Some blob \<Rightarrow>
             (case (if \<not> pp_missing prepared then Inr ()
                    else if \<not> pp_upload prepared then Inl (PlainError ''Missing Blob has no upload grant'')
                    else sbind (hw_authorize hub i) (\<lambda>_.
                      sbind (hw_put hub i) (\<lambda>(status, retryAfter).
                      require (status = 200 \<or> status = 201) (put_error status retryAfter)))) of
                Inl e \<Rightarrow> (Inl e, ob)
              | Inr _ \<Rightarrow> (Inr (), markBlobConfirmed (hw_now hub) localKey (pp_blob_key prepared) ob))))"

fun upload_loop ::
  "contracts \<Rightarrow> hub_answers \<Rightarrow> nat \<Rightarrow> (raw_attachment \<times> prepared_blob) list \<Rightarrow> outbox \<Rightarrow> (exn + unit) \<times> outbox"
where
  "upload_loop ct hub i [] ob = (Inr (), ob)"
| "upload_loop ct hub i ((a, p) # rest) ob =
     (case upload_one ct hub i a p ob of
        (Inl e, ob') \<Rightarrow> (Inl e, ob')
      | (Inr _, ob') \<Rightarrow> upload_loop ct hub (Suc i) rest ob')"

definition capability_admits :: "audit_capability \<Rightarrow> raw_attachment list \<Rightarrow> bool" where
  "capability_admits c as =
     (ac_sha256 c \<and> length as \<le> ac_max_attachments_per_event c \<and>
      (\<forall>a\<in>set as. ra_size a \<le> ac_max_blob_bytes c) \<and>
      sum_list (map ra_size as) \<le> ac_max_attachments_bytes_per_event c)"

definition uploadBlobs :: "contracts \<Rightarrow> hub_answers \<Rightarrow> stored_audit_event \<Rightarrow> outbox \<Rightarrow> (exn + unit) \<times> outbox" where
  "uploadBlobs ct hub e ob =
     (case eventAttachments (hw_parse hub) e of
        Inl er \<Rightarrow> (Inl er, ob)
      | Inr as \<Rightarrow>
          if as = [] then (Inr (), ob)
          else (case hw_audit hub of
            None \<Rightarrow> (Inl (PlainError ''Hub audit capability version is incompatible''), ob)
          | Some c \<Rightarrow>
              if ac_version c \<noteq> 1 then (Inl (PlainError ''Hub audit capability version is incompatible''), ob)
              else if \<not> capability_admits c as
              then (Inl (AuditHttpError \<lparr>ah_status = 413, ah_permanent = True, ah_retry_after_ms = None\<rparr>), ob)
              else (case hw_prepare hub of
                Inl er \<Rightarrow> (Inl er, ob)
              | Inr blobs \<Rightarrow>
                  if length blobs \<noteq> length as
                  then (Inl (PlainError ''Hub returned an incomplete Blob preparation result''), ob)
                  else upload_loop ct hub 0 (zip as blobs) ob)))"

section \<open>Appending\<close>

definition attachment_ref :: "contracts \<Rightarrow> outbox \<Rightarrow> raw_attachment \<Rightarrow> exn + json" where
  "attachment_ref ct ob a =
     (let localKey = ct_deriveBlobKey ct (ra_sha256 a) (ra_filename a);
          unconfirmed = Inl (PlainError (''Blob was not confirmed: '' @ localKey)) in
      case getBlob localKey ob of
        None \<Rightarrow> unconfirmed
      | Some b \<Rightarrow>
          (case bl_hubBlobKey b of
             None \<Rightarrow> unconfirmed
           | Some k \<Rightarrow>
               if k = [] then unconfirmed
               else Inr (JObj ([(''blob_key'', JStr k), (''sha256'', JStr (ra_sha256 a)), (''name'', JStr (ra_filename a))] @
                 (if truthy (ra_media_type a) then [(''mime'', JStr (the (ra_media_type a)))] else []) @
                 [(''size'', JNum (ra_size a))]))))"

definition direction_text :: "audit_direction \<Rightarrow> string" where
  "direction_text d = (case d of Inbound \<Rightarrow> ''inbound'' | Outbound \<Rightarrow> ''outbound'')"

definition source_kind_text :: "audit_source_kind \<Rightarrow> string" where
  "source_kind_text k = (case k of Source_channel \<Rightarrow> ''channel'' | Source_mesh \<Rightarrow> ''mesh'')"

text \<open>The parameters of \<open>mesh.audit.append\<close>.\<close>

definition append_params :: "contracts \<Rightarrow> hub_answers \<Rightarrow> stored_audit_event \<Rightarrow> outbox \<Rightarrow> exn + json" where
  "append_params ct hub e ob =
     (case hw_parse hub (ev_rawParams e) of
        None \<Rightarrow> Inl (PlainError ''JSON Parse error'')
      | Some raw \<Rightarrow>
          sbind (eventAttachments (hw_parse hub) e) (\<lambda>as.
          sbind (smap (attachment_ref ct ob) as) (\<lambda>refs.
          Inr (JObj [(''schema_version'', JNum (ct_AUDIT_SCHEMA_VERSION ct)), (''event_id'', JStr (ev_eventId e)),
            (''event_type'', JStr (case jstr (jfield (ev_correlation e) ''audit_event_type'') of
                Some t \<Rightarrow> t
              | None \<Rightarrow> if ev_direction e = Inbound then ''channel.inbound.received'' else ''channel.outbound.requested'')),
            (''occurred_at'', JStr (hw_iso hub (ev_createdAt e))),
            (''producer_id'', JStr (case ev_driverInstanceId e of Some d \<Rightarrow> d | None \<Rightarrow> ''lane-controller'')),
            (''direction'', JStr (direction_text (ev_direction e))),
            (''source_kind'', JStr (source_kind_text (ev_sourceKind e))),
            (''correlation'', ev_correlation e), (''payload'', raw), (''attachments'', JArr refs)]))))"

definition append_event :: "contracts \<Rightarrow> hub_answers \<Rightarrow> stored_audit_event \<Rightarrow> outbox \<Rightarrow> exn + unit" where
  "append_event ct hub e ob = sbind (append_params ct hub e ob) (\<lambda>params. hw_append hub)"

section \<open>One event\<close>

fun classify :: "contracts \<Rightarrow> exn \<Rightarrow> error_class" where
  "classify ct (HubRpcError e) = ct_errorClassOf ct (he_code e)"
| "classify ct (AuditHttpError e) = (if ah_permanent e then Permanent else Transient)"
| "classify ct _ = Transient"

fun error_code_text :: "contracts \<Rightarrow> exn \<Rightarrow> string" where
  "error_code_text ct (HubRpcError e) = auditErrorCode ct e"
| "error_code_text ct (AuditHttpError e) = ''HTTP_'' @ js_int (ah_status e)"
| "error_code_text ct _ = ''NETWORK_OR_TIMEOUT''"

fun asked_delay :: "exn \<Rightarrow> rat option" where
  "asked_delay (HubRpcError e) = requestedDelay (he_data e)"
| "asked_delay (AuditHttpError e) = ah_retry_after_ms e"
| "asked_delay _ = None"

fun missing_blobs :: "contracts \<Rightarrow> exn \<Rightarrow> bool" where
  "missing_blobs ct (HubRpcError e) = (he_code e = ct_AUDIT_MISSING_BLOBS ct)"
| "missing_blobs ct _ = False"

definition resume_state :: "stored_audit_event \<Rightarrow> audit_event_state" where
  "resume_state e =
     (if ev_state e = RETRY_WAIT then ev_resumeState e
      else if ev_state e = PENDING_APPEND then PENDING_APPEND else PENDING_BLOBS)"

definition retry_wait :: "contracts \<Rightarrow> hub_answers \<Rightarrow> stored_audit_event \<Rightarrow> exn \<Rightarrow> rat" where
  "retry_wait ct hub e er =
     (case asked_delay er of
        Some ms \<Rightarrow> ms
      | None \<Rightarrow>
          if classify ct er = Wait_approval then 30000
          else of_int (retryDelay (ev_attemptCount e) (classify ct er = Transient_operator) (hw_random hub)))"

text \<open>The \<open>catch\<close> clause.\<close>

definition audit_failed ::
  "contracts \<Rightarrow> hub_answers \<Rightarrow> stored_audit_event \<Rightarrow> exn \<Rightarrow> outbox \<Rightarrow> outbox"
where
  "audit_failed ct hub e er ob =
     (if classify ct er = Permanent then markDeadLetter (hw_now hub) (ev_eventId e) (error_code_text ct er) ob
      else
        (let ob' = (if missing_blobs ct er then fold markBlobUnconfirmed (ev_attachmentBlobKeys e) ob else ob) in
         markRetry (hw_now hub) (ev_eventId e)
           (if missing_blobs ct er then PENDING_BLOBS else resume_state e) (error_code_text ct er)
           (of_int (hw_now hub) + retry_wait ct hub e er) ob'))"

text \<open>The blob phase, and what the body of the \<open>try\<close> ends with.\<close>

definition blob_phase :: "contracts \<Rightarrow> hub_answers \<Rightarrow> stored_audit_event \<Rightarrow> outbox \<Rightarrow> (exn + unit) \<times> outbox" where
  "blob_phase ct hub e ob =
     (if resume_state e = PENDING_BLOBS
      then (case uploadBlobs ct hub e ob of
              (Inl er, ob') \<Rightarrow> (Inl er, ob')
            | (Inr _, ob') \<Rightarrow> (Inr (), markPendingAppend (hw_now hub) (ev_eventId e) ob'))
      else (Inr (), ob))"

definition audit_result :: "contracts \<Rightarrow> hub_answers \<Rightarrow> stored_audit_event \<Rightarrow> outbox \<Rightarrow> exn + unit" where
  "audit_result ct hub e ob =
     (case blob_phase ct hub e ob of
        (Inl er, ob') \<Rightarrow> Inl er
      | (Inr _, ob') \<Rightarrow> append_event ct hub e ob')"

definition audit_process :: "contracts \<Rightarrow> hub_answers \<Rightarrow> stored_audit_event \<Rightarrow> outbox \<Rightarrow> outbox" where
  "audit_process ct hub e ob =
     (let ob1 = snd (blob_phase ct hub e ob) in
      case audit_result ct hub e ob of
        Inl er \<Rightarrow> audit_failed ct hub e er ob1
      | Inr _ \<Rightarrow> markAcked (hw_now hub) (ev_eventId e) ob1)"

text \<open>One pass of the loop over the due events; \<open>aborted\<close> tells after which of them the lane stops.\<close>

fun audit_pass ::
  "contracts \<Rightarrow> (nat \<Rightarrow> hub_answers) \<Rightarrow> (nat \<Rightarrow> bool) \<Rightarrow> nat \<Rightarrow> stored_audit_event list \<Rightarrow> outbox \<Rightarrow> outbox"
where
  "audit_pass ct hub aborted i [] ob = ob"
| "audit_pass ct hub aborted i (e # es) ob =
     (let ob' = audit_process ct (hub i) e ob in
      if aborted i then ob' else audit_pass ct hub aborted (Suc i) es ob')"

definition audit_run_pass ::
  "contracts \<Rightarrow> (nat \<Rightarrow> hub_answers) \<Rightarrow> (nat \<Rightarrow> bool) \<Rightarrow> bool \<Rightarrow> millis \<Rightarrow> outbox \<Rightarrow> outbox"
where
  "audit_run_pass ct hub aborted online now ob =
     (if online then audit_pass ct hub aborted 0 (listDue now 20 ob) ob else ob)"

section \<open>The outbox as a table of states\<close>

datatype event_mark =
    Mark_append
  | Mark_acked
  | Mark_retry audit_event_state string rat
  | Mark_dead string

fun apply_mark :: "string \<Rightarrow> millis \<times> event_mark \<Rightarrow> outbox \<Rightarrow> outbox" where
  "apply_mark i (now, Mark_append) ob = markPendingAppend now i ob"
| "apply_mark i (now, Mark_acked) ob = markAcked now i ob"
| "apply_mark i (now, Mark_retry resume code nextAt) ob = markRetry now i resume code nextAt ob"
| "apply_mark i (now, Mark_dead code) ob = markDeadLetter now i code ob"

fun mark_target :: "millis \<times> event_mark \<Rightarrow> audit_event_state" where
  "mark_target (now, Mark_append) = PENDING_APPEND"
| "mark_target (now, Mark_acked) = ACKED"
| "mark_target (now, Mark_retry resume code nextAt) = RETRY_WAIT"
| "mark_target (now, Mark_dead code) = DEAD_LETTER"

definition event_state :: "outbox \<Rightarrow> string \<Rightarrow> audit_event_state option" where
  "event_state ob i = map_option ev_state (find_event i ob)"

lemmas mark_defs = markPendingAppend_def markAcked_def markRetry_def markDeadLetter_def transition_def update_event_def

interpretation audit_queue: keyed_states event_state apply_mark mark_target
proof
  fix i j ob and x :: "millis \<times> event_mark"
  have upd: "event_state (update_event i f ob) j =
      (if j = i then map_option (\<lambda>_. s) (event_state ob i) else event_state ob j)"
    if "\<And>r. ev_eventId (f r) = ev_eventId r" "\<And>r. ev_state (f r) = s" for f s
    using that
    by (simp add: event_state_def find_event_def update_event_def sql_get_update_key option.map_comp comp_def)
  obtain now m where x: "x = (now, m)" by (cases x)
  show "event_state (apply_mark i x ob) j =
      (if j = i then map_option (\<lambda>_. mark_target x) (event_state ob i) else event_state ob j)"
    unfolding x
    by (cases m) (simp_all add: markPendingAppend_def markAcked_def markRetry_def markDeadLetter_def transition_def upd)
qed

section \<open>Blob operations leave the events alone\<close>

lemma blob_marks_events [simp]:
  "ob_events (markBlobConfirmed now k h ob) = ob_events ob"
  "ob_events (markBlobUnconfirmed k ob) = ob_events ob"
  by (simp_all add: markBlobConfirmed_def markBlobUnconfirmed_def)

lemma fold_unconfirmed_events [simp]: "ob_events (fold markBlobUnconfirmed ks ob) = ob_events ob"
  by (induction ks arbitrary: ob) simp_all

lemma upload_one_events: "ob_events (snd (upload_one ct hub i a p ob)) = ob_events ob"
  by (auto simp: upload_one_def Let_def split: option.splits sum.splits)

lemma upload_loop_events: "ob_events (snd (upload_loop ct hub i aps ob)) = ob_events ob"
proof (induction aps arbitrary: i ob)
  case (Cons ap aps)
  obtain a p where ap: "ap = (a, p)" by (cases ap)
  obtain r ob1 where one: "upload_one ct hub i a p ob = (r, ob1)" by (cases "upload_one ct hub i a p ob")
  with upload_one_events [of ct hub i a p ob] Cons.IH [of "Suc i" ob1] show ?case
    by (cases r) (simp_all add: ap)
qed simp

lemma uploadBlobs_events: "ob_events (snd (uploadBlobs ct hub e ob)) = ob_events ob"
  by (auto simp: uploadBlobs_def upload_loop_events split: sum.splits option.splits)

lemma event_state_events: "ob_events ob = ob_events ob' \<Longrightarrow> event_state ob = event_state ob'"
  by (simp add: event_state_def find_event_def fun_eq_iff)

lemma find_event_events: "ob_events ob = ob_events ob' \<Longrightarrow> find_event i ob = find_event i ob'"
  by (simp add: find_event_def)

lemma apply_mark_events: "ob_events ob = ob_events ob' \<Longrightarrow> ob_events (apply_mark i x ob) = ob_events (apply_mark i x ob')"
  by (cases x; cases "snd x") (auto simp: mark_defs)

text \<open>The events after one event was processed: at most a move to PENDING_APPEND and then one mark that
  the result decides.\<close>

definition final_mark :: "contracts \<Rightarrow> hub_answers \<Rightarrow> stored_audit_event \<Rightarrow> exn + unit \<Rightarrow> event_mark" where
  "final_mark ct hub e r =
     (case r of
        Inr _ \<Rightarrow> Mark_acked
      | Inl er \<Rightarrow>
          if classify ct er = Permanent then Mark_dead (error_code_text ct er)
          else Mark_retry (if missing_blobs ct er then PENDING_BLOBS else resume_state e) (error_code_text ct er)
            (of_int (hw_now hub) + retry_wait ct hub e er))"

lemma blob_phase_events:
  "\<exists>ms. ob_events (snd (blob_phase ct hub e ob)) = ob_events (fold (apply_mark (ev_eventId e)) ms ob)"
proof (cases "resume_state e = PENDING_BLOBS")
  case False
  then show ?thesis by (intro exI [of _ "[]"]) (simp add: blob_phase_def)
next
  case True
  obtain r ob1 where up: "uploadBlobs ct hub e ob = (r, ob1)" by (cases "uploadBlobs ct hub e ob")
  have same: "ob_events ob1 = ob_events ob" using uploadBlobs_events [of ct hub e ob] up by simp
  show ?thesis
  proof (cases r)
    case (Inl er)
    with True up same show ?thesis by (intro exI [of _ "[]"]) (simp add: blob_phase_def)
  next
    case (Inr u)
    with True up apply_mark_events [OF same, of "ev_eventId e" "(hw_now hub, Mark_append)"] show ?thesis
      by (intro exI [of _ "[(hw_now hub, Mark_append)]"]) (simp add: blob_phase_def)
  qed
qed

lemma audit_failed_events:
  "ob_events (audit_failed ct hub e er ob) =
   ob_events (apply_mark (ev_eventId e) (hw_now hub, final_mark ct hub e (Inl er)) ob)"
  by (auto simp: audit_failed_def final_mark_def mark_defs Let_def)

lemma audit_process_events:
  "\<exists>ms. ob_events (audit_process ct hub e ob) =
     ob_events (fold (apply_mark (ev_eventId e)) (ms @ [(hw_now hub, final_mark ct hub e (audit_result ct hub e ob))]) ob)"
proof -
  let ?ob1 = "snd (blob_phase ct hub e ob)" and ?x = "(hw_now hub, final_mark ct hub e (audit_result ct hub e ob))"
  have "ob_events (audit_process ct hub e ob) = ob_events (apply_mark (ev_eventId e) ?x ?ob1)"
    by (cases "audit_result ct hub e ob") (simp_all add: audit_process_def audit_failed_events final_mark_def)
  moreover obtain ms where "ob_events ?ob1 = ob_events (fold (apply_mark (ev_eventId e)) ms ob)"
    using blob_phase_events by blast
  then have "ob_events (apply_mark (ev_eventId e) ?x ?ob1) =
      ob_events (apply_mark (ev_eventId e) ?x (fold (apply_mark (ev_eventId e)) ms ob))"
    by (rule apply_mark_events)
  ultimately have "ob_events (audit_process ct hub e ob) =
      ob_events (fold (apply_mark (ev_eventId e)) (ms @ [?x]) ob)" by simp
  then show ?thesis by blast
qed

section \<open>Delays\<close>

lemma requestedDelay_pos: "requestedDelay d = Some ms \<Longrightarrow> 0 < ms"
  by (auto simp: requestedDelay_def split: option.splits if_splits)

lemma retryDelay_bounds:
  assumes "0 \<le> r" "r < 1"
  shows "800 \<le> retryDelay n op r" "of_int (retryDelay n op r) < (if op then 4320000 else 360000 :: rat)"
proof -
  let ?e = "min (if op then 60 * 60000 else 5 * 60000) ((if op then 10 * 60000 else 1000) * 2 ^ min n 16) :: rat"
  let ?f = "8 / 10 + r * (4 / 10)"
  have delay: "retryDelay n op r = \<lfloor>?e * ?f\<rfloor>" by (simp add: retryDelay_def)
  have pow: "(1 :: rat) \<le> 2 ^ min n 16" by simp
  have big: "(1 :: rat) \<le> 600 * 2 ^ min n 16" by (rule order_trans [OF pow]) simp
  have e: "1000 \<le> ?e" using big by simp
  have f: "8 / 10 \<le> ?f" "?f < 12 / 10" using assms by simp_all
  have "1000 * (8 / 10) \<le> ?e * ?f" by (rule mult_mono) (use e f in auto)
  then show "800 \<le> retryDelay n op r" unfolding delay by (simp add: le_floor_iff)
  have top: "?e \<le> (if op then 3600000 else 300000)" by (simp add: min_def)
  have "?e * ?f < ?e * (12 / 10)" by (rule mult_strict_left_mono) (use e f in auto)
  also have "\<dots> \<le> (if op then 3600000 else 300000) * (12 / 10)" by (rule mult_right_mono [OF top]) simp
  also have "\<dots> = (if op then 4320000 else 360000)" by simp
  finally have "?e * ?f < (if op then 4320000 else 360000 :: rat)" .
  then show "of_int (retryDelay n op r) < (if op then 4320000 else 360000 :: rat)"
    unfolding delay by (rule le_less_trans [OF of_int_floor_le])
qed

lemma asked_delay_cases: "asked_delay er = Some ms \<Longrightarrow>
    (\<exists>r. er = HubRpcError r \<and> requestedDelay (he_data r) = Some ms) \<or>
    (\<exists>h. er = AuditHttpError h \<and> ah_retry_after_ms h = Some ms)"
  by (cases er) auto

section \<open>Where HTTP errors come from\<close>

text \<open>An exception that asks for a delay asks for a positive one.\<close>

definition positive_delay :: "exn \<Rightarrow> bool" where
  "positive_delay er = (\<forall>ms. asked_delay er = Some ms \<longrightarrow> 0 < ms)"

definition plain_hub :: "hub_answers \<Rightarrow> bool" where
  "plain_hub hub =
     ((\<forall>er. hw_prepare hub = Inl er \<longrightarrow> positive_delay er) \<and>
      (\<forall>i er. hw_authorize hub i = Inl er \<longrightarrow> positive_delay er) \<and>
      (\<forall>i er. hw_put hub i = Inl er \<longrightarrow> positive_delay er) \<and>
      (\<forall>er. hw_append hub = Inl er \<longrightarrow> positive_delay er))"

lemma positive_delay_simps [simp]:
  "positive_delay (PlainError m)" "positive_delay (HubRpcError r)" "positive_delay (put_error s t)"
  "positive_delay (AuditHttpError \<lparr>ah_status = 413, ah_permanent = True, ah_retry_after_ms = None\<rparr>)"
  by (auto simp: positive_delay_def put_error_def dest: requestedDelay_pos split: option.splits if_splits)

lemma positive_upload_one: "plain_hub hub \<Longrightarrow> fst (upload_one ct hub i a p ob) = Inl er \<Longrightarrow> positive_delay er"
  by (auto simp: upload_one_def plain_hub_def Let_def result_simps split: option.splits sum.splits if_splits)

lemma positive_upload_loop: "plain_hub hub \<Longrightarrow> fst (upload_loop ct hub i aps ob) = Inl er \<Longrightarrow> positive_delay er"
proof (induction aps arbitrary: i ob)
  case (Cons ap aps)
  obtain a p where ap: "ap = (a, p)" by (cases ap)
  obtain r ob1 where one: "upload_one ct hub i a p ob = (r, ob1)" by (cases "upload_one ct hub i a p ob")
  show ?case
  proof (cases r)
    case (Inl e)
    with positive_upload_one [OF Cons.prems(1), of ct i a p ob] one Cons.prems(2) show ?thesis by (simp add: ap)
  next
    case (Inr u)
    with Cons.IH [of "Suc i" ob1] Cons.prems one show ?thesis by (simp add: ap)
  qed
qed simp

lemma eventAttachments_error: "eventAttachments parse e = Inl er \<Longrightarrow> positive_delay er"
  by (auto simp: eventAttachments_def split: option.splits)

lemma positive_uploadBlobs: "plain_hub hub \<Longrightarrow> fst (uploadBlobs ct hub e ob) = Inl er \<Longrightarrow> positive_delay er"
proof (cases "eventAttachments (hw_parse hub) e")
  case (Inl x)
  then show "plain_hub hub \<Longrightarrow> fst (uploadBlobs ct hub e ob) = Inl er \<Longrightarrow> ?thesis"
    using eventAttachments_error [OF Inl] by (simp add: uploadBlobs_def)
next
  case as: (Inr as)
  assume hub: "plain_hub hub" and er: "fst (uploadBlobs ct hub e ob) = Inl er"
  with as obtain c where c: "as \<noteq> []" "hw_audit hub = Some c \<or> positive_delay er"
    by (cases "hw_audit hub") (auto simp: uploadBlobs_def split: if_splits)
  show ?thesis
  proof (cases "hw_prepare hub")
    case (Inl x)
    with as er c hub show ?thesis
      by (auto simp: uploadBlobs_def plain_hub_def split: if_splits)
  next
    case (Inr blobs)
    with as er c positive_upload_loop [OF hub, of ct 0 "zip as blobs" ob er] show ?thesis
      by (auto simp: uploadBlobs_def split: if_splits)
  qed
qed

lemma attachment_ref_error: "attachment_ref ct ob a = Inl er \<Longrightarrow> positive_delay er"
  by (auto simp: attachment_ref_def Let_def split: option.splits if_splits)

lemma append_params_error: "append_params ct hub e ob = Inl er \<Longrightarrow> positive_delay er"
  using attachment_ref_error eventAttachments_error
  by (auto simp: append_params_def result_simps split: option.splits dest!: smap_Inl)

lemma positive_audit_result:
  assumes "plain_hub hub" "audit_result ct hub e ob = Inl er"
  shows "positive_delay er"
proof -
  obtain r ob1 where ph: "blob_phase ct hub e ob = (r, ob1)" by (cases "blob_phase ct hub e ob")
  show ?thesis
  proof (cases r)
    case (Inl x)
    with ph assms(2) have "fst (uploadBlobs ct hub e ob) = Inl er"
      by (auto simp: audit_result_def blob_phase_def split: if_splits sum.splits prod.splits)
    with positive_uploadBlobs [OF assms(1)] show ?thesis .
  next
    case (Inr u)
    with ph assms show ?thesis
      by (auto simp: audit_result_def append_event_def sbind_eq_Inl plain_hub_def dest: append_params_error)
  qed
qed

lemma final_event:
  assumes "find_event (ev_eventId e) ob = Some row"
  shows "\<exists>row'. find_event (ev_eventId e) (audit_process ct hub e ob) = Some row' \<and>
    (\<forall>resume code nx. final_mark ct hub e (audit_result ct hub e ob) = Mark_retry resume code nx \<longrightarrow>
       ev_state row' = RETRY_WAIT \<and> ev_nextAttemptAt row' = nx \<and> ev_resumeState row' = resume)"
proof -
  let ?m = "final_mark ct hub e (audit_result ct hub e ob)"
  obtain ms where evs: "ob_events (audit_process ct hub e ob) =
      ob_events (apply_mark (ev_eventId e) (hw_now hub, ?m) (fold (apply_mark (ev_eventId e)) ms ob))"
    using audit_process_events [of ct hub e ob] by auto
  have "event_state ob (ev_eventId e) \<noteq> None" using assms by (simp add: event_state_def)
  then have "event_state (fold (apply_mark (ev_eventId e)) ms ob) (ev_eventId e) \<noteq> None"
    by (simp add: audit_queue.fold_None)
  then obtain row1 where "find_event (ev_eventId e) (fold (apply_mark (ev_eventId e)) ms ob) = Some row1"
    by (auto simp: event_state_def)
  then show ?thesis
    unfolding find_event_events [OF evs]
    by (cases ?m) (auto simp: mark_defs find_event_def sql_get_update_key)
qed

section \<open>Properties\<close>

text \<open>C7: an event leaves the worker in the state the Hub's answer decides, and no other event is
  touched.  It is acknowledged exactly when the parameters of the append could be built and the Hub
  accepted them, quarantined exactly when the error is permanent, and waits for a retry otherwise.\<close>

theorem audit_process_outcome:
  assumes "event_state ob (ev_eventId e) = Some s"
  shows "event_state (audit_process ct hub e ob) (ev_eventId e) =
      Some (case audit_result ct hub e ob of
          Inr _ \<Rightarrow> ACKED
        | Inl er \<Rightarrow> if classify ct er = Permanent then DEAD_LETTER else RETRY_WAIT) \<and>
    (\<forall>j. j \<noteq> ev_eventId e \<longrightarrow> event_state (audit_process ct hub e ob) j = event_state ob j) \<and>
    (audit_result ct hub e ob = Inr () \<longrightarrow> hw_append hub = Inr () \<and>
       (\<exists>params. append_params ct hub e (snd (blob_phase ct hub e ob)) = Inr params))"
proof (intro conjI allI impI)
  obtain ms where evs: "ob_events (audit_process ct hub e ob) =
      ob_events (fold (apply_mark (ev_eventId e)) (ms @ [(hw_now hub, final_mark ct hub e (audit_result ct hub e ob))]) ob)"
    using audit_process_events by blast
  show "event_state (audit_process ct hub e ob) (ev_eventId e) =
      Some (case audit_result ct hub e ob of
          Inr _ \<Rightarrow> ACKED
        | Inl er \<Rightarrow> if classify ct er = Permanent then DEAD_LETTER else RETRY_WAIT)"
    unfolding event_state_events [OF evs] audit_queue.fold_last [OF assms]
    by (auto simp: final_mark_def split: sum.splits)
  show "event_state (audit_process ct hub e ob) j = event_state ob j" if "j \<noteq> ev_eventId e" for j
    unfolding event_state_events [OF evs] by (rule audit_queue.fold_other [OF that])
next
  assume "audit_result ct hub e ob = Inr ()"
  then have "append_event ct hub e (snd (blob_phase ct hub e ob)) = Inr ()"
    by (auto simp: audit_result_def split: prod.splits sum.splits)
  then show "hw_append hub = Inr ()"
    "\<exists>params. append_params ct hub e (snd (blob_phase ct hub e ob)) = Inr params"
    by (auto simp: append_event_def sbind_eq_Inr)
qed

text \<open>A retry is never immediate and, unless the Hub asked for a delay, never later than 72
  minutes: the jitter of a fifth goes on top of the one-hour ceiling.  Whatever goes wrong with an
  event, it is not due again in the same millisecond, so the loop cannot spin on it.\<close>

theorem audit_retry_backs_off:
  assumes "find_event (ev_eventId e) ob = Some row" "plain_hub hub"
    and "0 \<le> hw_random hub" "hw_random hub < 1"
  shows "\<exists>row'. find_event (ev_eventId e) (audit_process ct hub e ob) = Some row' \<and>
    (\<forall>er. audit_result ct hub e ob = Inl er \<longrightarrow>
       \<not> event_due (hw_now hub) row' \<and>
       (classify ct er \<noteq> Permanent \<and> asked_delay er = None \<longrightarrow>
          of_int (hw_now hub) + 800 \<le> ev_nextAttemptAt row' \<and>
          ev_nextAttemptAt row' < of_int (hw_now hub) + 4320000))"
proof -
  from assms(1) have st: "event_state ob (ev_eventId e) = Some (ev_state row)" by (simp add: event_state_def)
  obtain ms where evs: "ob_events (audit_process ct hub e ob) =
      ob_events (fold (apply_mark (ev_eventId e)) (ms @ [(hw_now hub, final_mark ct hub e (audit_result ct hub e ob))]) ob)"
    using audit_process_events by blast
  have state: "event_state (audit_process ct hub e ob) (ev_eventId e) =
      Some (mark_target (hw_now hub, final_mark ct hub e (audit_result ct hub e ob)))"
    unfolding event_state_events [OF evs] by (rule audit_queue.fold_last [OF st])
  from final_event [OF assms(1), of ct hub] obtain row' where
    row': "find_event (ev_eventId e) (audit_process ct hub e ob) = Some row'"
    and retry: "\<And>resume code nx. final_mark ct hub e (audit_result ct hub e ob) = Mark_retry resume code nx \<Longrightarrow>
       ev_state row' = RETRY_WAIT \<and> ev_nextAttemptAt row' = nx" by blast
  show ?thesis
  proof (intro exI [of _ row'] conjI allI impI row')
    fix er
    assume er: "audit_result ct hub e ob = Inl er"
    note pos = positive_audit_result [OF assms(2) er]
    note rd = retryDelay_bounds [OF assms(3,4)]
    have wait: "0 < retry_wait ct hub e er"
      using pos rd(1) [of "ev_attemptCount e"]
      by (auto simp: retry_wait_def positive_delay_def split: option.splits)
        (metis of_int_0_less_iff le_less_trans less_le_trans zero_less_numeral)+
    show "\<not> event_due (hw_now hub) row'"
    proof (cases "classify ct er = Permanent")
      case True
      with state row' er show ?thesis by (simp add: event_state_def final_mark_def event_due_def)
    next
      case False
      with retry er wait show ?thesis by (simp add: final_mark_def event_due_def)
    qed
    assume c: "classify ct er \<noteq> Permanent \<and> asked_delay er = None"
    then have next_at: "ev_nextAttemptAt row' = of_int (hw_now hub) + retry_wait ct hub e er"
      using retry er by (simp add: final_mark_def)
    have low: "(800 :: rat) \<le> of_int (retryDelay (ev_attemptCount e) op (hw_random hub))" for op
      using rd(1) [of "ev_attemptCount e" op] by (metis of_int_le_iff of_int_numeral)
    have high: "of_int (retryDelay (ev_attemptCount e) op (hw_random hub)) < (4320000 :: rat)" for op
      using rd(2) [of "ev_attemptCount e" op] by (auto split: if_splits)
    from c have "800 \<le> retry_wait ct hub e er \<and> retry_wait ct hub e er < 4320000"
      using low high by (auto simp: retry_wait_def)
    then show "of_int (hw_now hub) + 800 \<le> ev_nextAttemptAt row'"
      "ev_nextAttemptAt row' < of_int (hw_now hub) + 4320000" by (simp_all add: next_at)
  qed
qed

section \<open>Witnesses\<close>

definition sample_contracts :: contracts where
  "sample_contracts =
     \<lparr>ct_errorClassOf = (\<lambda>c. if c = -32043 then Transient else Permanent), ct_errorDataCode = (\<lambda>e. None),
      ct_deriveBlobKey = (\<lambda>h f. h), ct_AUDIT_MISSING_BLOBS = -32044, ct_AUDIT_SCHEMA_VERSION = 1\<rparr>"

definition sample_hub :: "exn + unit \<Rightarrow> hub_answers" where
  "sample_hub answer =
     \<lparr>hw_audit = None, hw_prepare = Inr [], hw_authorize = (\<lambda>i. Inr ()), hw_put = (\<lambda>i. Inr (200, None)),
      hw_append = answer, hw_now = 9, hw_random = 0, hw_parse = (\<lambda>t. Some (JObj [])), hw_iso = (\<lambda>t. [])\<rparr>"

definition audit_row :: event_row where
  "audit_row = new_event (sample_env ''ev'') ''l'' sample_input []"

definition audit_outbox :: outbox where
  "audit_outbox = (outbox_initialize ''l'' 2)\<lparr>ob_events := [audit_row]\<rparr>"

lemma audit_row_found: "find_event (ev_eventId (mapEvent audit_row)) audit_outbox = Some audit_row"
  by (simp add: find_event_def audit_outbox_def mapEvent_def stored_audit_event.truncate_def)

lemma sample_audit_result: "audit_result sample_contracts (sample_hub r) (mapEvent audit_row) audit_outbox = r"
proof -
  have "resume_state (mapEvent audit_row) = PENDING_BLOBS"
    by (simp add: resume_state_def mapEvent_def stored_audit_event.truncate_def audit_row_def)
  then show ?thesis
    by (simp add: audit_result_def blob_phase_def uploadBlobs_def eventAttachments_def sample_hub_def
        append_event_def append_params_def)
qed

theorem audit_process_outcome_witness:
  "event_state (audit_process sample_contracts (sample_hub (Inr ())) (mapEvent audit_row) audit_outbox)
     (ev_eventId (mapEvent audit_row)) = Some ACKED"
proof -
  have "event_state audit_outbox (ev_eventId (mapEvent audit_row)) = Some (ev_state audit_row)"
    by (simp add: event_state_def audit_row_found)
  from conjunct1 [OF audit_process_outcome [OF this, of sample_contracts "sample_hub (Inr ())"]]
  show ?thesis by (simp add: sample_audit_result)
qed

theorem audit_retry_backs_off_witness:
  "\<exists>row'. find_event (ev_eventId (mapEvent audit_row))
       (audit_process sample_contracts (sample_hub (Inl (PlainError ''socket closed''))) (mapEvent audit_row) audit_outbox) = Some row' \<and>
     \<not> event_due 9 row' \<and> 809 \<le> ev_nextAttemptAt row'"
proof -
  let ?hub = "sample_hub (Inl (PlainError ''socket closed''))"
  have hub: "plain_hub ?hub" by (simp add: plain_hub_def sample_hub_def)
  have "0 \<le> hw_random ?hub" "hw_random ?hub < 1" by (simp_all add: sample_hub_def)
  from audit_retry_backs_off [OF audit_row_found hub this, of sample_contracts] show ?thesis
    by (auto simp: sample_audit_result) (auto simp: sample_hub_def)
qed

end
