(* ===== verification/Delivery.thy ===== *)
theory Delivery
  imports Channel_Handler
begin

text \<open>
  \<open>src/runtime/worker.ts\<close>, \<open>src/runtime/adapter.ts\<close> and the delivery half of
  \<open>src/daemon/agent-mesh-daemon.ts\<close>: a turn is run by the runtime adapter, its response is sent back
  over the mesh or the channel it came from, and pending channel deliveries are retried.  What the
  adapter, the Hub connection and the channel driver answer are arguments.
\<close>

section \<open>Context keys\<close>

definition string_or_empty :: "json option \<Rightarrow> json" where
  "string_or_empty v = (case jstr v of Some s \<Rightarrow> JStr s | None \<Rightarrow> JStr [])"

text \<open>The array whose JSON text is the key of a turn's conversation.\<close>

definition runtimeContextKey :: "string \<Rightarrow> string \<Rightarrow> runtime_turn \<Rightarrow> json" where
  "runtimeContextKey laneId workspace t =
     (let field = jfield (tn_correlation t) in
      JArr ([JStr laneId, JStr workspace] @
        map string_or_empty
          (if tn_sourceKind t = Source_mesh then [Some (JStr ''mesh''), field ''from'']
           else [Some (JStr ''channel''), field ''provider'', field ''driver_instance_id'', field ''account_ref'',
                 field ''conversation_ref'', field ''thread_ref''])))"

section \<open>Sending the response\<close>

record reply_env =
  rp_connected :: bool
  rp_send :: "exn + unit"
  rp_laneServer :: bool
  rp_driver :: "exn + json"
  rp_request_record :: record_env
  rp_success_record :: record_env
  rp_now :: millis

record channel_address =
  ad_driver :: string
  ad_account :: string
  ad_conversation :: string
  ad_thread :: "string option"
  ad_replyTo :: string

definition channel_address_of :: "json \<Rightarrow> channel_address option" where
  "channel_address_of c =
     (case (jstr (jfield c ''driver_instance_id''), jstr (jfield c ''account_ref''),
            jstr (jfield c ''conversation_ref''), jstr (jfield c ''reply_to_provider_message_id'')) of
        (Some d, Some a, Some cv, Some r) \<Rightarrow>
          Some \<lparr>ad_driver = d, ad_account = a, ad_conversation = cv,
                ad_thread = jstr (jfield c ''thread_ref''), ad_replyTo = r\<rparr>
      | _ \<Rightarrow> None)"

definition action_id :: "string \<Rightarrow> string" where
  "action_id turnId = ''act-'' @ turnId"

definition send_params :: "channel_address \<Rightarrow> string \<Rightarrow> string \<Rightarrow> json" where
  "send_params ad turnId response =
     JObj [(''driver_instance_id'', JStr (ad_driver ad)), (''action_id'', JStr (action_id turnId)),
       (''conversation'', JObj [(''account_ref'', JStr (ad_account ad)),
          (''conversation_ref'', JStr (ad_conversation ad)), (''thread_ref'', jopt (ad_thread ad))]),
       (''reply_to_provider_message_id'', JStr (ad_replyTo ad)), (''text'', JStr response),
       (''attachments'', JArr [])]"

definition reply_requested_input :: "channel_address \<Rightarrow> string \<Rightarrow> json \<Rightarrow> audit_event_input" where
  "reply_requested_input ad turnId params =
     \<lparr>ai_direction = Outbound, ai_sourceKind = Source_channel, ai_driverInstanceId = Some (ad_driver ad),
      ai_rawParams = params, ai_attachments = [], ai_stagingRoot = None,
      ai_correlation = JObj [(''audit_event_type'', JStr ''channel.outbound.requested''),
        (''driver_instance_id'', JStr (ad_driver ad)), (''account_ref'', JStr (ad_account ad)),
        (''conversation_ref'', JStr (ad_conversation ad)), (''thread_ref'', jopt (ad_thread ad)),
        (''reply_to_provider_message_id'', JStr (ad_replyTo ad))],
      ai_dedupKey = Some (''runtime-reply:'' @ turnId)\<rparr>"

definition delivery_success_input :: "string \<Rightarrow> json \<Rightarrow> json \<Rightarrow> audit_event_input" where
  "delivery_success_input actionId request result =
     \<lparr>ai_direction = Outbound, ai_sourceKind = Source_channel,
      ai_driverInstanceId = jstr (jfield request ''driver_instance_id''),
      ai_rawParams = JObj [(''request'', request), (''result'', result)], ai_attachments = [],
      ai_stagingRoot = None,
      ai_correlation = JObj [(''audit_event_type'', JStr ''channel.outbound.succeeded''), (''action_id'', JStr actionId)],
      ai_dedupKey = Some (''delivery-success:'' @ actionId)\<rparr>"

definition finish_action_turn :: "millis \<Rightarrow> string \<Rightarrow> json \<Rightarrow> inbox \<Rightarrow> inbox" where
  "finish_action_turn now actionId request ib =
     (if take 9 actionId = ''act-turn_''
      then (let turnId = drop 4 actionId in
            case get_turn turnId ib of
              None \<Rightarrow> ib
            | Some t \<Rightarrow>
                (case jstr (jfield request ''text'') of
                   None \<Rightarrow> ib
                 | Some body \<Rightarrow> if tn_state t \<noteq> COMPLETED then complete_turn now turnId body None ib else ib))
      else ib)"

definition completeChannelAction ::
  "record_env \<Rightarrow> millis \<Rightarrow> string \<Rightarrow> json \<Rightarrow> json \<Rightarrow> lane \<Rightarrow> (exn + unit) \<times> lane"
where
  "completeChannelAction env now actionId request result lan =
     (let ob = completeAction now actionId result (ln_outbox lan) in
      case outbox_record env (delivery_success_input actionId request result) ob of
        (Inl e, ob') \<Rightarrow> (Inl e, lan\<lparr>ln_outbox := ob'\<rparr>)
      | (Inr _, ob') \<Rightarrow>
          (Inr (), lan\<lparr>ln_outbox := ob', ln_inbox := finish_action_turn now actionId request (ln_inbox lan)\<rparr>))"

definition reply_mesh :: "reply_env \<Rightarrow> runtime_turn \<Rightarrow> exn + unit" where
  "reply_mesh env t =
     (case (jstr (jfield (tn_correlation t) ''from''), jstr (jfield (tn_correlation t) ''reply_to'')) of
        (Some to, Some replyTo) \<Rightarrow>
          if rp_connected env then rp_send env else Inl (PlainError ''Hub connection is unavailable'')
      | _ \<Rightarrow> Inl (PlainError ''Mesh turn has invalid immutable correlation''))"

definition deliver_action ::
  "reply_env \<Rightarrow> channel_address \<Rightarrow> string \<Rightarrow> json \<Rightarrow> lane \<Rightarrow> (exn + unit) \<times> lane"
where
  "deliver_action env ad turnId params lan =
     (case reserveAction (rp_now env) (action_id turnId) (ad_driver ad) params (ln_outbox lan) of
        ((duplicate, result), ob) \<Rightarrow>
          (let lan' = lan\<lparr>ln_outbox := ob\<rparr> in
           if duplicate \<and> result \<noteq> JNull
           then completeChannelAction (rp_success_record env) (rp_now env) (action_id turnId) params result lan'
           else if \<not> rp_laneServer env then (Inl (PlainError ''Lane channel server is unavailable''), lan')
           else (case rp_driver env of
             Inl e \<Rightarrow> (Inl e, lan')
           | Inr r \<Rightarrow> completeChannelAction (rp_success_record env) (rp_now env) (action_id turnId) params r lan')))"

definition reply_channel :: "reply_env \<Rightarrow> runtime_turn \<Rightarrow> string \<Rightarrow> lane \<Rightarrow> (exn + unit) \<times> lane" where
  "reply_channel env t response lan =
     (case channel_address_of (tn_correlation t) of
        None \<Rightarrow> (Inl (PlainError ''Channel turn has invalid immutable correlation''), lan)
      | Some ad \<Rightarrow>
          (let params = send_params ad (tn_turnId t) response in
           case outbox_record (rp_request_record env) (reply_requested_input ad (tn_turnId t) params) (ln_outbox lan) of
             (Inl e, ob) \<Rightarrow> (Inl e, lan\<lparr>ln_outbox := ob\<rparr>)
           | (Inr _, ob) \<Rightarrow> deliver_action env ad (tn_turnId t) params (lan\<lparr>ln_outbox := ob\<rparr>)))"

definition reply :: "reply_env \<Rightarrow> runtime_turn \<Rightarrow> string \<Rightarrow> lane \<Rightarrow> (exn + unit) \<times> lane" where
  "reply env t response lan =
     (if tn_sourceKind t = Source_mesh then (reply_mesh env t, lan) else reply_channel env t response lan)"

section \<open>Retrying pending deliveries\<close>

record drain_env =
  dr_driver :: "exn + json"
  dr_record :: record_env
  dr_now :: millis

text \<open>One pending action; \<open>registered\<close> tells whether the driver is connected.\<close>

definition drain_one :: "(string \<Rightarrow> bool) \<Rightarrow> drain_env \<Rightarrow> outcome_row \<Rightarrow> lane \<Rightarrow> lane" where
  "drain_one registered env action lan =
     (if \<not> registered (oc_driverInstanceId action) then lan
      else case dr_driver env of
        Inl e \<Rightarrow> lan
      | Inr r \<Rightarrow> snd (completeChannelAction (dr_record env) (dr_now env) (oc_actionId action) (oc_request action) r lan))"

fun drain_loop :: "(string \<Rightarrow> bool) \<Rightarrow> (nat \<Rightarrow> drain_env) \<Rightarrow> nat \<Rightarrow> outcome_row list \<Rightarrow> lane \<Rightarrow> lane" where
  "drain_loop registered env i [] lan = lan"
| "drain_loop registered env i (a # as) lan = drain_loop registered env (Suc i) as (drain_one registered (env i) a lan)"

definition drainPendingDeliveries ::
  "(string \<Rightarrow> bool) \<Rightarrow> (nat \<Rightarrow> drain_env) \<Rightarrow> millis \<Rightarrow> bool \<Rightarrow> lane \<Rightarrow> lane"
where
  "drainPendingDeliveries registered env now hasServer lan =
     (if hasServer then drain_loop registered env 0 (listPendingActions (now - 5000) 20 (ln_outbox lan)) lan else lan)"

section \<open>The runtime worker\<close>

record turn_env =
  te_laneId :: string
  te_workspace :: string
  te_kind :: string
  te_model :: "string option"
  te_print :: "json \<Rightarrow> string"
  te_run :: "string option \<Rightarrow> exn + string \<times> string"
  te_deadline :: bool
  te_stopped :: bool
  te_reply :: reply_env
  te_error_reply :: reply_env
  te_now :: millis

definition conversation_for :: "turn_env \<Rightarrow> string \<Rightarrow> inbox \<Rightarrow> string option" where
  "conversation_for env key ib =
     (case getConversation key ib of
        None \<Rightarrow> None
      | Some c \<Rightarrow>
          if cv_workspace c = te_workspace env \<and> cv_runtimeKind c = te_kind env \<and> cv_model c = te_model env
          then Some (cv_conversationId c) else None)"

definition failure_code :: "turn_env \<Rightarrow> exn \<Rightarrow> string" where
  "failure_code env e =
     (if te_deadline env \<and> \<not> te_stopped env then ''TURN_TIMEOUT''
      else case e of RuntimeAdapterError code m \<Rightarrow> code | _ \<Rightarrow> ''RUNTIME_FAILED'')"

text \<open>The notice is Korean: ``processing failed in the runtime. error code: ''.\<close>

definition failure_notice :: "string \<Rightarrow> string" where
  "failure_notice code =
     map char_of [0xEB :: nat, 0x9F, 0xB0, 0xED, 0x83, 0x80, 0xEC, 0x9E, 0x84, 0x20,
       0xEC, 0xB2, 0x98, 0xEB, 0xA6, 0xAC, 0xEC, 0x97, 0x90, 0x20,
       0xEC, 0x8B, 0xA4, 0xED, 0x8C, 0xA8, 0xED, 0x96, 0x88, 0xEC, 0x8A, 0xB5, 0xEB, 0x8B, 0x88, 0xEB, 0x8B, 0xA4, 0x2E, 0x20,
       0xEC, 0x98, 0xA4, 0xEB, 0xA5, 0x98, 0x20, 0xEC, 0xBD, 0x94, 0xEB, 0x93, 0x9C, 0x3A, 0x20] @ code"

text \<open>The body of the \<open>try\<close>: the exception it ends with, if any.\<close>

definition turn_body :: "turn_env \<Rightarrow> runtime_turn \<Rightarrow> string \<Rightarrow> lane \<Rightarrow> (exn + unit) \<times> lane" where
  "turn_body env t key lan =
     (case te_run env (conversation_for env key (ln_inbox lan)) of
        Inl e \<Rightarrow> (Inl e, lan)
      | Inr (response, conversationId) \<Rightarrow>
          if js_blank response
          then (Inl (RuntimeAdapterError ''EMPTY_RESPONSE'' ''Runtime returned an empty response''), lan)
          else (case reply (te_reply env) t response lan of
            (Inl e, lan') \<Rightarrow> (Inl e, lan')
          | (Inr _, lan') \<Rightarrow>
              (Inr (), lan'\<lparr>ln_inbox := complete_turn (te_now env) (tn_turnId t) response (Some conversationId)
                 (saveConversation (te_now env) key conversationId (te_workspace env) (te_kind env) (te_model env)
                   (ln_inbox lan'))\<rparr>)))"

definition turn_failed :: "turn_env \<Rightarrow> runtime_turn \<Rightarrow> exn \<Rightarrow> lane \<Rightarrow> lane" where
  "turn_failed env t e lan =
     (let code = failure_code env e;
          lan' = lan\<lparr>ln_inbox := fail_turn (te_now env) (tn_turnId t) code (ln_inbox lan)\<rparr> in
      if te_stopped env then lan' else snd (reply (te_error_reply env) t (failure_notice code) lan'))"

definition runTurn :: "turn_env \<Rightarrow> runtime_turn \<Rightarrow> lane \<Rightarrow> lane" where
  "runTurn env t lan =
     (let lan1 = lan\<lparr>ln_inbox := markRunning (te_now env) (tn_turnId t) (ln_inbox lan)\<rparr>;
          key = te_print env (runtimeContextKey (te_laneId env) (te_workspace env) t) in
      case turn_body env t key lan1 of
        (Inr _, lan2) \<Rightarrow> lan2
      | (Inl e, lan2) \<Rightarrow> turn_failed env t e lan2)"

text \<open>One pass of the loop.\<close>

definition worker_pass :: "turn_env \<Rightarrow> lane \<Rightarrow> lane" where
  "worker_pass env lan =
     (case next_turn (ln_inbox lan) of None \<Rightarrow> lan | Some t \<Rightarrow> runTurn env t lan)"

end
