(* ===== verification/Delivery_Props.thy ===== *)
theory Delivery_Props
  imports Delivery
begin

text \<open>
  What becomes of a turn: it never stays running, it is delivered once, and the two ways the code
  loses the record of a failure.
\<close>

section \<open>The inbox as a table of states\<close>

type_synonym turn_update = "millis \<times> runtime_turn_state \<times> string option \<times> string option \<times> string option"

fun update_turn :: "string \<Rightarrow> turn_update \<Rightarrow> inbox \<Rightarrow> inbox" where
  "update_turn i (now, st, resp, conv, err) ib = setState now i st resp conv err ib"

fun update_target :: "turn_update \<Rightarrow> runtime_turn_state" where
  "update_target (now, st, resp, conv, err) = st"

definition turn_state :: "inbox \<Rightarrow> string \<Rightarrow> runtime_turn_state option" where
  "turn_state ib i = map_option tn_state (get_turn i ib)"

lemma get_turn_setState:
  "get_turn j (setState now i st resp conv err ib) =
     (if j = i then map_option (\<lambda>t. t\<lparr>tn_state := st, tn_response := resp, tn_conversationId := conv,
        tn_errorCode := err, tn_updatedAt := now\<rparr>) (get_turn i ib) else get_turn j ib)"
  by (simp add: get_turn_def setState_def sql_get_update_key)

interpretation turn_table: keyed_states turn_state update_turn update_target
proof
  fix i j ib and x :: turn_update
  obtain now st resp conv err where x: "x = (now, st, resp, conv, err)" by (cases x)
  show "turn_state (update_turn i x ib) j =
      (if j = i then map_option (\<lambda>_. update_target x) (turn_state ib i) else turn_state ib j)"
    by (simp add: x turn_state_def get_turn_setState option.map_comp comp_def)
qed

lemma get_turn_save [simp]: "get_turn i (saveConversation now k c w kd m ib) = get_turn i ib"
  by (simp add: saveConversation_def get_turn_def)

text \<open>What sending an action does to the inbox: nothing, or it completes the action's turn.\<close>

definition at_most_completes :: "string \<Rightarrow> inbox \<Rightarrow> inbox \<Rightarrow> bool" where
  "at_most_completes i ib ib' =
     (\<exists>xs. (\<forall>x\<in>set xs. update_target x = COMPLETED) \<and> ib' = fold (update_turn i) xs ib)"

lemma at_most_completes_refl [simp]: "at_most_completes i ib ib"
  unfolding at_most_completes_def by (rule exI [of _ "[]"]) simp

lemma finish_action_turn_completes: "at_most_completes i ib (finish_action_turn now (action_id i) request ib)"
proof -
  have "at_most_completes i ib (complete_turn now i body None ib)" for body
    unfolding at_most_completes_def complete_turn_def
    by (rule exI [of _ "[(now, COMPLETED, Some body, None, None)]"]) simp
  then show ?thesis
    by (simp add: finish_action_turn_def action_id_def Let_def split: option.splits)
qed

lemma completeChannelAction_inbox:
  "completeChannelAction env now (action_id i) request result lan = (r, lan') \<Longrightarrow>
   at_most_completes i (ln_inbox lan) (ln_inbox lan')"
  using finish_action_turn_completes
  by (auto simp: completeChannelAction_def Let_def split: prod.splits sum.splits)

lemma deliver_action_inbox:
  "deliver_action env ad i params lan = (r, lan') \<Longrightarrow> at_most_completes i (ln_inbox lan) (ln_inbox lan')"
  using completeChannelAction_inbox
  by (fastforce simp: deliver_action_def Let_def split: prod.splits sum.splits if_splits)

lemma reply_inbox:
  assumes "reply env t response lan = (r, lan')"
  shows "at_most_completes (tn_turnId t) (ln_inbox lan) (ln_inbox lan')"
proof (cases "tn_sourceKind t = Source_mesh")
  case True
  with assms show ?thesis by (simp add: reply_def)
next
  case False
  then show ?thesis
    using assms deliver_action_inbox
    by (fastforce simp: reply_def reply_channel_def Let_def split: option.splits prod.splits sum.splits)
qed

lemma at_most_completes_other:
  "at_most_completes i ib ib' \<Longrightarrow> j \<noteq> i \<Longrightarrow> turn_state ib' j = turn_state ib j"
  by (auto simp: at_most_completes_def turn_table.fold_other)

lemma at_most_completes_same:
  assumes "at_most_completes i ib ib'" "turn_state ib i = Some s"
  shows "turn_state ib' i = Some s \<or> turn_state ib' i = Some COMPLETED"
proof -
  from assms(1) obtain xs where xs: "\<forall>x\<in>set xs. update_target x = COMPLETED" "ib' = fold (update_turn i) xs ib"
    by (auto simp: at_most_completes_def)
  show ?thesis
  proof (cases xs rule: rev_cases)
    case Nil
    with xs assms(2) show ?thesis by simp
  next
    case (snoc ys y)
    with turn_table.fold_last [OF assms(2), of ys y] xs show ?thesis by simp
  qed
qed

lemma turn_state_setState:
  "turn_state (setState now i st resp conv err ib) j =
     (if j = i then map_option (\<lambda>_. st) (turn_state ib i) else turn_state ib j)"
  using turn_table.st_tr [of i "(now, st, resp, conv, err)" ib j] by simp

lemma turn_body_inbox:
  assumes "turn_body env t key lan = (r, lan')"
  shows "case r of Inl e \<Rightarrow> at_most_completes (tn_turnId t) (ln_inbox lan) (ln_inbox lan')
    | Inr _ \<Rightarrow> \<exists>ib conv response. at_most_completes (tn_turnId t) (ln_inbox lan) ib \<and>
        turn_state (ln_inbox lan') = turn_state (complete_turn (te_now env) (tn_turnId t) response (Some conv) ib)"
proof (cases "te_run env (conversation_for env key (ln_inbox lan))")
  case (Inl e)
  with assms show ?thesis by (auto simp: turn_body_def)
next
  case (Inr x)
  obtain response conv where x: "x = (response, conv)" by (cases x)
  obtain q lan1 where rep: "reply (te_reply env) t response lan = (q, lan1)"
    by (cases "reply (te_reply env) t response lan")
  note inbox = reply_inbox [OF rep]
  have save: "turn_state (complete_turn now i resp cv (saveConversation now k c w kd m ib)) =
      turn_state (complete_turn now i resp cv ib)" for now i resp cv k c w kd m ib
    by (simp add: fun_eq_iff turn_state_def complete_turn_def get_turn_setState)
  show ?thesis
  proof (cases "js_blank response")
    case True
    with assms Inr x show ?thesis by (auto simp: turn_body_def)
  next
    case False
    show ?thesis
    proof (cases q)
      case (Inl e)
      with assms Inr x rep inbox False show ?thesis by (auto simp: turn_body_def)
    next
      case q: (Inr u)
      with assms Inr x rep False
      have "r = Inr ()" "lan' = lan1\<lparr>ln_inbox := complete_turn (te_now env) (tn_turnId t) response (Some conv)
          (saveConversation (te_now env) key conv (te_workspace env) (te_kind env) (te_model env) (ln_inbox lan1))\<rparr>"
        by (auto simp: turn_body_def)
      with inbox save show ?thesis
        by (simp del: get_turn_save) (metis (no_types))
    qed
  qed
qed

section \<open>Replies\<close>

lemma reserve_again:
  assumes "find_outcome i ob = Some row"
  shows "reserveAction now i driver request ob = ((True, case oc_result row of None \<Rightarrow> JNull | Some r \<Rightarrow> r), ob)"
  using assms by (simp add: reserveAction_def)

lemma deliver_action_driver:
  assumes "find_outcome (action_id i) (ln_outbox lan) = Some row" "oc_result row = Some r" "r \<noteq> JNull"
  shows "deliver_action (env\<lparr>rp_driver := d\<rparr>) ad i params lan = deliver_action (env\<lparr>rp_driver := d'\<rparr>) ad i params lan"
  using assms by (simp add: deliver_action_def reserve_again)

lemma record_outcomes: "outbox_record env input ob = (r, ob') \<Longrightarrow> ob_outcomes ob' = ob_outcomes ob"
  by (elim outbox_record_cases) (auto simp: record_commit_def Let_def split: if_splits)

lemma completed_outcome:
  assumes "find_outcome a (ln_outbox lan) = Some row"
    "completeChannelAction env now a request result lan = (q, lan')"
  shows "\<exists>row'. find_outcome a (ln_outbox lan') = Some row' \<and> oc_result row' = Some result"
proof -
  obtain q' ob' where rec: "outbox_record env (delivery_success_input a request result)
      (completeAction now a result (ln_outbox lan)) = (q', ob')"
    by (cases "outbox_record env (delivery_success_input a request result) (completeAction now a result (ln_outbox lan))")
  have "ln_outbox lan' = ob'"
    using assms(2) rec by (cases q') (auto simp: completeChannelAction_def Let_def)
  with record_outcomes [OF rec] assms(1) show ?thesis
    by (simp add: find_outcome_def completeAction_def sql_get_update_key)
qed

lemma delivered_outcome:
  assumes "deliver_action env ad i params lan = (Inr (), lan')" "rp_driver env = Inr r" "r \<noteq> JNull"
    and "find_outcome (action_id i) (ln_outbox lan) = None"
  shows "\<exists>row. find_outcome (action_id i) (ln_outbox lan') = Some row \<and> oc_result row = Some r"
proof -
  obtain d x ob where res: "reserveAction (rp_now env) (action_id i) (ad_driver ad) params (ln_outbox lan) = ((d, x), ob)"
    by (metis surj_pair)
  with assms(4) have d: "d = False" "\<exists>row. find_outcome (action_id i) ob = Some row"
    by (auto simp: reserveAction_def find_outcome_def sql_get_append split: option.splits)
  then obtain row where "find_outcome (action_id i) (ln_outbox (lan\<lparr>ln_outbox := ob\<rparr>)) = Some row" by auto
  moreover have "completeChannelAction (rp_success_record env) (rp_now env) (action_id i) params r (lan\<lparr>ln_outbox := ob\<rparr>) = (Inr (), lan')"
    using assms(1,2) res d(1) by (simp add: deliver_action_def Let_def split: if_splits)
  ultimately show ?thesis by (rule completed_outcome)
qed

lemma completeChannelAction_Inr:
  "completeChannelAction env now a request result lan = (Inr u, lan') \<Longrightarrow>
   ln_inbox lan' = finish_action_turn now a request (ln_inbox lan)"
  by (auto simp: completeChannelAction_def Let_def split: prod.splits sum.splits)

lemma reply_channel_Inr:
  assumes "reply env t response lan = (Inr u, lan')" "tn_sourceKind t \<noteq> Source_mesh"
  shows "\<exists>ad. ln_inbox lan' = finish_action_turn (rp_now env) (action_id (tn_turnId t))
    (send_params ad (tn_turnId t) response) (ln_inbox lan)"
proof -
  from assms obtain ad ob where del: "deliver_action env ad (tn_turnId t) (send_params ad (tn_turnId t) response)
      (lan\<lparr>ln_outbox := ob\<rparr>) = (Inr u, lan')"
    by (auto simp: reply_def reply_channel_def Let_def split: option.splits prod.splits sum.splits)
  then obtain ob' r where "completeChannelAction (rp_success_record env) (rp_now env) (action_id (tn_turnId t))
      (send_params ad (tn_turnId t) response) r (lan\<lparr>ln_outbox := ob'\<rparr>) = (Inr u, lan')"
    by (auto simp: deliver_action_def Let_def split: prod.splits sum.splits if_splits)
  from completeChannelAction_Inr [OF this] show ?thesis by auto
qed

section \<open>A sample lane\<close>

definition sample_turn :: runtime_turn where
  "sample_turn =
     \<lparr>tn_turnId = ''turn_1'', tn_sourceKind = Source_channel, tn_sourceMessageId = ''m'', tn_content = ''hi'',
      tn_correlation = JObj [(''driver_instance_id'', JStr ''d''), (''account_ref'', JStr ''a''),
        (''conversation_ref'', JStr ''c''), (''reply_to_provider_message_id'', JStr ''p'')],
      tn_state = PENDING, tn_response = None, tn_conversationId = None, tn_errorCode = None,
      tn_createdAt = 2, tn_updatedAt = 2\<rparr>"

definition sample_turn_lane :: lane where
  "sample_turn_lane =
     \<lparr>ln_outbox = outbox_initialize ''l'' 2, ln_inbox = \<lparr>ib_turns = [sample_turn], ib_conversations = []\<rparr>\<rparr>"

definition sample_address :: channel_address where
  "sample_address = \<lparr>ad_driver = ''d'', ad_account = ''a'', ad_conversation = ''c'', ad_thread = None, ad_replyTo = ''p''\<rparr>"

definition sample_reply_env :: reply_env where
  "sample_reply_env =
     \<lparr>rp_connected = True, rp_send = Inr (), rp_laneServer = True, rp_driver = Inr (JBool True),
      rp_request_record = sample_env ''e1'', rp_success_record = sample_env ''e2'', rp_now = 5\<rparr>"

text \<open>An adapter whose run fails, in a lane that is stopping or not.\<close>

definition failing_turn_env :: "bool \<Rightarrow> turn_env" where
  "failing_turn_env stopped =
     \<lparr>te_laneId = ''l'', te_workspace = ''w'', te_kind = ''codex'', te_model = None, te_print = (\<lambda>_. ''k''),
      te_run = (\<lambda>_. Inl (PlainError ''down'')), te_deadline = False, te_stopped = stopped,
      te_reply = sample_reply_env, te_error_reply = sample_reply_env, te_now = 6\<rparr>"

lemma failing_turn_body:
  "turn_body (failing_turn_env b) t key lan = (Inl (PlainError ''down''), lan)"
  by (simp add: turn_body_def failing_turn_env_def)

lemma sample_turn_state: "turn_state (ln_inbox sample_turn_lane) ''turn_1'' = Some PENDING"
  by (simp add: turn_state_def get_turn_def sample_turn_lane_def sample_turn_def)

lemma sample_success_record:
  assumes "ob_laneId ob = ''l''" "ob_quotaBytes ob = 2" "ob_events ob = es" "ob_blobs ob = []"
    and "\<forall>r\<in>set es. ev_eventId r \<noteq> ''e2'' \<and> ev_dedupKey r \<noteq> Some (''delivery-success:'' @ a)"
  shows "\<exists>x ob'. outbox_record (sample_env ''e2'') (delivery_success_input a request result) ob = (Inr x, ob')"
proof -
  have "sql_get (\<lambda>r. ev_dedupKey r = Some (''delivery-success:'' @ a)) es = None"
    using assms(5) by (induction es) auto
  then show ?thesis
    using assms by (simp add: outbox_record_def summary_def sample_env_def delivery_success_input_def
      validateAttachmentSet_def findByDedupKey_def record_commit_def FAIL_CLOSED_RATIO_def Let_def)
qed

lemma sample_delivered:
  assumes "ob_laneId (ln_outbox lan) = ''l''" "ob_quotaBytes (ln_outbox lan) = 2" "ob_events (ln_outbox lan) = es"
    and "ob_blobs (ln_outbox lan) = []" "ob_outcomes (ln_outbox lan) = []"
    and "\<forall>r\<in>set es. ev_eventId r \<noteq> ''e2'' \<and> ev_dedupKey r \<noteq> Some (''delivery-success:'' @ ''act-turn_1'')"
  shows "\<exists>lan'. deliver_action sample_reply_env ad ''turn_1'' params lan = (Inr (), lan')"
proof -
  let ?ob = "completeAction 5 ''act-turn_1'' (JBool True)
    (snd (reserveAction 5 ''act-turn_1'' (ad_driver ad) params (ln_outbox lan)))"
  have "\<exists>x ob'. outbox_record (sample_env ''e2'') (delivery_success_input ''act-turn_1'' params (JBool True)) ?ob = (Inr x, ob')"
    by (rule sample_success_record [where es = es])
      (use assms in \<open>simp_all add: completeAction_def reserveAction_def find_outcome_def\<close>)
  then show ?thesis
    using assms by (auto simp: deliver_action_def completeChannelAction_def reserveAction_def find_outcome_def action_id_def
      sample_reply_env_def Let_def)
qed

lemma sample_reply:
  assumes "ln_outbox lan = outbox_initialize ''l'' 2"
  shows "fst (reply sample_reply_env sample_turn response lan) = Inr ()"
proof -
  define ad where "ad = the (channel_address_of (tn_correlation sample_turn))"
  have ad: "channel_address_of (tn_correlation sample_turn) = Some ad"
    by (simp add: ad_def channel_address_of_def sample_turn_def)
  let ?params = "send_params ad ''turn_1'' response"
  let ?row = "new_event (sample_env ''e1'') ''l'' (reply_requested_input ad ''turn_1'' ?params) []"
  have rec: "outbox_record (sample_env ''e1'') (reply_requested_input ad ''turn_1'' ?params) (ln_outbox lan) =
      (Inr (mapEvent ?row), (outbox_initialize ''l'' 2)\<lparr>ob_events := [?row]\<rparr>)"
    by (simp add: assms outbox_record_def summary_def sample_env_def reply_requested_input_def outbox_initialize_def
      validateAttachmentSet_def findByDedupKey_def record_commit_def FAIL_CLOSED_RATIO_def Let_def)
  have "\<exists>lan'. deliver_action sample_reply_env ad ''turn_1'' ?params
      (lan\<lparr>ln_outbox := (outbox_initialize ''l'' 2)\<lparr>ob_events := [?row]\<rparr>\<rparr>) = (Inr (), lan')"
    by (rule sample_delivered [where es = "[?row]"])
      (simp_all add: outbox_initialize_def new_event_def sample_env_def reply_requested_input_def)
  moreover have "reply sample_reply_env sample_turn response lan =
      deliver_action sample_reply_env ad ''turn_1'' ?params (lan\<lparr>ln_outbox := (outbox_initialize ''l'' 2)\<lparr>ob_events := [?row]\<rparr>\<rparr>)"
    using ad rec by (simp add: reply_def reply_channel_def Let_def sample_turn_def sample_reply_env_def)
  ultimately show ?thesis by auto
qed

section \<open>Properties\<close>

text \<open>C8: no turn stays running.  Whatever the adapter, the driver, the Hub and the outbox answer, and
  whether or not the lane is stopping, a turn that was run is completed or failed afterwards, and
  no other turn changes its state.\<close>

theorem runTurn_decides:
  assumes "turn_state (ln_inbox lan) (tn_turnId t) = Some s"
  shows "turn_state (ln_inbox (runTurn env t lan)) (tn_turnId t) \<in> {Some COMPLETED, Some FAILED} \<and>
    (\<forall>j. j \<noteq> tn_turnId t \<longrightarrow> turn_state (ln_inbox (runTurn env t lan)) j = turn_state (ln_inbox lan) j)"
proof -
  let ?i = "tn_turnId t"
  let ?lan1 = "lan\<lparr>ln_inbox := markRunning (te_now env) ?i (ln_inbox lan)\<rparr>"
  let ?key = "te_print env (runtimeContextKey (te_laneId env) (te_workspace env) t)"
  have run: "turn_state (ln_inbox ?lan1) ?i = Some RUNNING"
    "j \<noteq> ?i \<Longrightarrow> turn_state (ln_inbox ?lan1) j = turn_state (ln_inbox lan) j" for j
    using assms by (simp_all add: markRunning_def turn_state_setState)
  obtain r lan2 where body: "turn_body env t ?key ?lan1 = (r, lan2)" by (cases "turn_body env t ?key ?lan1")
  note inbox = turn_body_inbox [OF body]
  show ?thesis
  proof (cases r)
    case (Inr u)
    with inbox obtain ib conv response where ib: "at_most_completes ?i (ln_inbox ?lan1) ib"
      "turn_state (ln_inbox lan2) = turn_state (complete_turn (te_now env) ?i response (Some conv) ib)" by auto
    have res: "runTurn env t lan = lan2" using body Inr by (simp add: runTurn_def)
    show ?thesis
      using at_most_completes_same [OF ib(1) run(1)] at_most_completes_other [OF ib(1)] run(2)
      by (auto simp: res ib(2) complete_turn_def turn_state_setState)
  next
    case (Inl e)
    let ?code = "failure_code env e"
    let ?lan3 = "lan2\<lparr>ln_inbox := fail_turn (te_now env) ?i ?code (ln_inbox lan2)\<rparr>"
    from inbox Inl have amc: "at_most_completes ?i (ln_inbox ?lan1) (ln_inbox lan2)" by simp
    have failed: "turn_state (ln_inbox ?lan3) ?i = Some FAILED"
      using at_most_completes_same [OF amc run(1)] by (auto simp: fail_turn_def turn_state_setState)
    have others: "j \<noteq> ?i \<Longrightarrow> turn_state (ln_inbox ?lan3) j = turn_state (ln_inbox lan) j" for j
      using at_most_completes_other [OF amc] run(2) by (simp add: fail_turn_def turn_state_setState)
    have res: "runTurn env t lan = (if te_stopped env then ?lan3
        else snd (reply (te_error_reply env) t (failure_notice ?code) ?lan3))"
      using body Inl by (simp add: runTurn_def turn_failed_def Let_def)
    obtain q lan4 where rep: "reply (te_error_reply env) t (failure_notice ?code) ?lan3 = (q, lan4)"
      by (cases "reply (te_error_reply env) t (failure_notice ?code) ?lan3")
    note amc2 = reply_inbox [OF rep]
    show ?thesis
    proof (cases "te_stopped env")
      case True
      with failed others res show ?thesis by simp
    next
      case False
      with at_most_completes_same [OF amc2 failed] at_most_completes_other [OF amc2] others
      show ?thesis by (auto simp: res rep)
    qed
  qed
qed

theorem runTurn_decides_witness:
  "turn_state (ln_inbox (runTurn (failing_turn_env True) sample_turn sample_turn_lane)) ''turn_1'' \<in> {Some COMPLETED, Some FAILED}"
proof -
  have i: "tn_turnId sample_turn = ''turn_1''" by (simp add: sample_turn_def)
  show ?thesis
    using runTurn_decides [of sample_turn_lane sample_turn PENDING "failing_turn_env True"]
    unfolding i by (simp add: sample_turn_state)
qed



text \<open>C36: a failed channel turn is recorded as completed once its notice was delivered.  The notice goes
  through the same action as a response, whose completion sets every turn that is not completed to
  completed: the error code is gone and the notice stands as the turn's response.\<close>

theorem failure_recorded_as_success:
  assumes "turn_body env t (te_print env (runtimeContextKey (te_laneId env) (te_workspace env) t))
      (lan\<lparr>ln_inbox := markRunning (te_now env) (tn_turnId t) (ln_inbox lan)\<rparr>) = (Inl e, lan2)"
    and "\<not> te_stopped env" "take 5 (tn_turnId t) = ''turn_''" "get_turn (tn_turnId t) (ln_inbox lan2) = Some t2"
    and "tn_sourceKind t = Source_channel"
    and "fst (reply (te_error_reply env) t (failure_notice (failure_code env e))
      (lan2\<lparr>ln_inbox := fail_turn (te_now env) (tn_turnId t) (failure_code env e) (ln_inbox lan2)\<rparr>)) = Inr ()"
  shows "\<exists>t'. get_turn (tn_turnId t) (ln_inbox (runTurn env t lan)) = Some t' \<and> tn_state t' = COMPLETED \<and>
    tn_response t' = Some (failure_notice (failure_code env e)) \<and> tn_errorCode t' = None"
proof -
  let ?i = "tn_turnId t" and ?code = "failure_code env e" and ?re = "te_error_reply env"
  let ?lan3 = "lan2\<lparr>ln_inbox := fail_turn (te_now env) ?i ?code (ln_inbox lan2)\<rparr>"
  have run: "runTurn env t lan = snd (reply ?re t (failure_notice ?code) ?lan3)"
    using assms(1,2) by (simp add: runTurn_def turn_failed_def Let_def)
  have "reply ?re t (failure_notice ?code) ?lan3 = (Inr (), runTurn env t lan)"
    using assms(6) run by (metis prod.collapse)
  from reply_channel_Inr [OF this] assms(5) obtain ad where inbox: "ln_inbox (runTurn env t lan) =
      finish_action_turn (rp_now ?re) (action_id ?i) (send_params ad ?i (failure_notice ?code)) (ln_inbox ?lan3)"
    by auto
  have "take 9 (action_id ?i) = ''act-turn_''" "drop 4 (action_id ?i) = ?i"
    using assms(3) by (simp_all add: action_id_def)
  moreover have "jstr (jfield (send_params ad ?i (failure_notice ?code)) ''text'') = Some (failure_notice ?code)"
    by (simp add: send_params_def)
  ultimately show ?thesis
    using assms(4) unfolding inbox
    by (simp add: finish_action_turn_def Let_def fail_turn_def complete_turn_def get_turn_setState)
qed

theorem failure_recorded_as_success_witness:
  "\<exists>t'. get_turn ''turn_1'' (ln_inbox (runTurn (failing_turn_env False) sample_turn sample_turn_lane)) = Some t' \<and>
     tn_state t' = COMPLETED"
proof -
  let ?env = "failing_turn_env False" and ?e = "PlainError ''down''"
  let ?lan2 = "sample_turn_lane\<lparr>ln_inbox := markRunning (te_now ?env) ''turn_1'' (ln_inbox sample_turn_lane)\<rparr>"
  have i: "tn_turnId sample_turn = ''turn_1''" by (simp add: sample_turn_def)
  obtain t2 where t2: "get_turn ''turn_1'' (ln_inbox ?lan2) = Some t2"
    by (simp add: get_turn_def markRunning_def setState_def sample_turn_lane_def sample_turn_def)
  have delivered: "fst (reply (te_error_reply ?env) sample_turn (failure_notice (failure_code ?env ?e))
      (?lan2\<lparr>ln_inbox := fail_turn (te_now ?env) ''turn_1'' (failure_code ?env ?e) (ln_inbox ?lan2)\<rparr>)) = Inr ()"
    by (simp add: failing_turn_env_def sample_reply sample_turn_lane_def)
  show ?thesis
    using failure_recorded_as_success [of ?env sample_turn sample_turn_lane ?e ?lan2 t2] t2 delivered
    unfolding i failing_turn_body by (auto simp: failing_turn_env_def sample_turn_def)
qed

text \<open>Stopping a lane fails the turn it is running, for good.  The abort that a graceful stop sends
  to the adapter makes the turn fail without a notice, and a restart requeues only running turns;
  had the process crashed instead, the same turn would be pending again.\<close>

theorem stop_loses_running_turn:
  assumes "turn_body env t (te_print env (runtimeContextKey (te_laneId env) (te_workspace env) t))
      (lan\<lparr>ln_inbox := markRunning (te_now env) (tn_turnId t) (ln_inbox lan)\<rparr>) = (Inl e, lan2)"
    and "te_stopped env" "turn_state (ln_inbox lan) (tn_turnId t) = Some s"
  shows "turn_state (inbox_initialize now (ln_inbox (runTurn env t lan))) (tn_turnId t) = Some FAILED \<and>
    turn_state (inbox_initialize now (markRunning (te_now env) (tn_turnId t) (ln_inbox lan))) (tn_turnId t) = Some PENDING"
proof -
  have restart: "turn_state (inbox_initialize now ib) i =
      map_option (\<lambda>st. if st = RUNNING then PENDING else st) (turn_state ib i)" for ib i
  proof -
    have "map_option tn_state (sql_get (\<lambda>t. tn_turnId t = i) (sql_update (\<lambda>t. tn_state t = RUNNING)
        (\<lambda>t. t\<lparr>tn_state := PENDING, tn_updatedAt := now\<rparr>) ts)) =
      map_option (\<lambda>t. if tn_state t = RUNNING then PENDING else tn_state t) (sql_get (\<lambda>t. tn_turnId t = i) ts)"
      for ts :: "runtime_turn list" by (induction ts) auto
    then show ?thesis
      by (simp add: inbox_initialize_def turn_state_def get_turn_def option.map_comp comp_def)
  qed
  have run: "runTurn env t lan = lan2\<lparr>ln_inbox := fail_turn (te_now env) (tn_turnId t) (failure_code env e) (ln_inbox lan2)\<rparr>"
    using assms(1,2) by (simp add: runTurn_def turn_failed_def Let_def)
  have mr: "turn_state (markRunning (te_now env) (tn_turnId t) (ln_inbox lan)) (tn_turnId t) = Some RUNNING"
    using assms(3) by (simp add: markRunning_def turn_state_setState)
  with turn_body_inbox [OF assms(1)] have "turn_state (ln_inbox lan2) (tn_turnId t) \<noteq> None"
    using at_most_completes_same [of "tn_turnId t" _ "ln_inbox lan2" RUNNING] by auto
  with mr show ?thesis
    by (auto simp: restart run fail_turn_def turn_state_setState)
qed

theorem stop_loses_running_turn_witness:
  "turn_state (inbox_initialize 9 (ln_inbox (runTurn (failing_turn_env True) sample_turn sample_turn_lane))) ''turn_1'' = Some FAILED"
proof -
  let ?env = "failing_turn_env True"
  have i: "tn_turnId sample_turn = ''turn_1''" by (simp add: sample_turn_def)
  show ?thesis
    using stop_loses_running_turn [of ?env sample_turn sample_turn_lane "PlainError ''down''"
        "sample_turn_lane\<lparr>ln_inbox := markRunning (te_now ?env) ''turn_1'' (ln_inbox sample_turn_lane)\<rparr>" PENDING 9]
    unfolding i failing_turn_body by (simp add: sample_turn_state) (simp add: failing_turn_env_def)
qed

end
