(* ===== verification/Worker_Loop.thy ===== *)
theory Worker_Loop
  imports Delivery_Props Interfaces
begin

text \<open>
  The loop of \<open>RuntimeWorker\<close> in \<open>src/runtime/worker.ts\<close>: \<open>start\<close>, \<open>stop\<close>, \<open>#runLoop\<close>, \<open>#sleep\<close> and the
  timer and the abort signal of a turn.  \<open>#runTurn\<close> is split where it awaits: the adapter's run, the reply
  and the notice of a failure; between two of these the lane may be changed by others.
\<close>

section \<open>State\<close>

text \<open>Where the loop waits.  In a turn, the flag is whether its deadline signal was aborted; \<open>Wp_reply\<close> has
  the response and the conversation.  A loop whose promise was rejected is \<open>Wp_broken\<close>.\<close>

datatype wk_phase =
    Wp_sleep
  | Wp_run runtime_turn bool
  | Wp_reply runtime_turn bool string string
  | Wp_notice runtime_turn bool string
  | Wp_ended
  | Wp_broken exn

text \<open>\<open>wk_phase\<close> is None while \<open>#loop\<close> is null; \<open>wk_stops\<close> counts the calls of \<open>stop\<close> that await the loop.\<close>

record worker =
  wk_aborted :: bool
  wk_phase :: "wk_phase option"
  wk_listeners :: nat
  wk_stops :: nat
  wk_lane :: lane

definition worker_new :: "lane \<Rightarrow> worker" where
  "worker_new lan = \<lparr>wk_aborted = False, wk_phase = None, wk_listeners = 0, wk_stops = 0, wk_lane = lan\<rparr>"

text \<open>The clock and, where the loop turns, an exception of \<open>inbox.next\<close>.\<close>

datatype wk_event =
    Wv_start millis "exn option"
  | Wv_stop
  | Wv_wake millis "exn option"
  | Wv_timer
  | Wv_ran millis "exn option" "exn + string \<times> string"
  | Wv_replied millis "exn option" reply_env
  | Wv_noticed millis "exn option" reply_env
  | Wv_lane lane

datatype wk_out =
    Wo_warm_up
  | Wo_run runtime_turn "string option"
  | Wo_cancel
  | Wo_adapter_stop
  | Wo_stop_failed exn

section \<open>The loop\<close>

text \<open>The loop has ended: each \<open>stop\<close> that waits clears \<open>#loop\<close> and stops the adapter.\<close>

definition loop_ends :: "worker \<Rightarrow> worker \<times> wk_out list" where
  "loop_ends wk =
     (wk\<lparr>wk_phase := (if wk_stops wk = 0 then Some Wp_ended else None), wk_stops := 0\<rparr>,
      replicate (wk_stops wk) Wo_adapter_stop)"

definition loop_head :: "turn_env \<Rightarrow> millis \<Rightarrow> exn option \<Rightarrow> worker \<Rightarrow> worker \<times> wk_out list" where
  "loop_head env now fault wk =
     (if wk_aborted wk then loop_ends wk
      else case fault of
        Some e \<Rightarrow> (wk\<lparr>wk_phase := Some (Wp_broken e)\<rparr>, [])
      | None \<Rightarrow>
          (case next_turn (ln_inbox (wk_lane wk)) of
             None \<Rightarrow> (wk\<lparr>wk_phase := Some Wp_sleep, wk_listeners := wk_listeners wk + 1\<rparr>, [])
           | Some t \<Rightarrow>
               (let lan = (wk_lane wk)\<lparr>ln_inbox := markRunning now (tn_turnId t) (ln_inbox (wk_lane wk))\<rparr>;
                    key = te_print env (runtimeContextKey (te_laneId env) (te_workspace env) t) in
                (wk\<lparr>wk_phase := Some (Wp_run t False), wk_listeners := wk_listeners wk + 1, wk_lane := lan\<rparr>,
                 [Wo_run t (conversation_for env key (ln_inbox lan))]))))"

text \<open>The \<open>finally\<close> of a turn: an abort has taken the listener away already.\<close>

definition turn_ends :: "turn_env \<Rightarrow> millis \<Rightarrow> exn option \<Rightarrow> worker \<Rightarrow> worker \<times> wk_out list" where
  "turn_ends env now fault wk =
     loop_head env now fault (wk\<lparr>wk_listeners := (if wk_aborted wk then wk_listeners wk else wk_listeners wk - 1)\<rparr>)"

definition turn_caught ::
  "turn_env \<Rightarrow> millis \<Rightarrow> exn option \<Rightarrow> runtime_turn \<Rightarrow> bool \<Rightarrow> exn \<Rightarrow> worker \<Rightarrow> worker \<times> wk_out list"
where
  "turn_caught env now fault t late e wk =
     (let code = failure_code (env\<lparr>te_deadline := late, te_stopped := wk_aborted wk\<rparr>) e;
          wk' = wk\<lparr>wk_lane := (wk_lane wk)\<lparr>ln_inbox := fail_turn now (tn_turnId t) code (ln_inbox (wk_lane wk))\<rparr>\<rparr> in
      if wk_aborted wk then turn_ends env now fault wk'
      else (wk'\<lparr>wk_phase := Some (Wp_notice t late code)\<rparr>, []))"

section \<open>Events\<close>

definition worker_ran ::
  "turn_env \<Rightarrow> millis \<Rightarrow> exn option \<Rightarrow> exn + string \<times> string \<Rightarrow> worker \<Rightarrow> worker \<times> wk_out list"
where
  "worker_ran env now fault r wk =
     (case wk_phase wk of
        Some (Wp_run t late) \<Rightarrow>
          (case r of
             Inl e \<Rightarrow> turn_caught env now fault t late e wk
           | Inr (response, conversationId) \<Rightarrow>
               if js_blank response
               then turn_caught env now fault t late (RuntimeAdapterError ''EMPTY_RESPONSE'' ''Runtime returned an empty response'') wk
               else (wk\<lparr>wk_phase := Some (Wp_reply t late response conversationId)\<rparr>, []))
      | _ \<Rightarrow> (wk, []))"

definition worker_replied :: "turn_env \<Rightarrow> millis \<Rightarrow> exn option \<Rightarrow> reply_env \<Rightarrow> worker \<Rightarrow> worker \<times> wk_out list" where
  "worker_replied env now fault re wk =
     (case wk_phase wk of
        Some (Wp_reply t late response conversationId) \<Rightarrow>
          (case reply re t response (wk_lane wk) of
             (Inl e, lan) \<Rightarrow> turn_caught env now fault t late e (wk\<lparr>wk_lane := lan\<rparr>)
           | (Inr _, lan) \<Rightarrow>
               (let key = te_print env (runtimeContextKey (te_laneId env) (te_workspace env) t);
                    saved = saveConversation now key conversationId (te_workspace env) (te_kind env) (te_model env) (ln_inbox lan) in
                turn_ends env now fault
                  (wk\<lparr>wk_lane := lan\<lparr>ln_inbox := complete_turn now (tn_turnId t) response (Some conversationId) saved\<rparr>\<rparr>)))
      | _ \<Rightarrow> (wk, []))"

definition worker_noticed :: "turn_env \<Rightarrow> millis \<Rightarrow> exn option \<Rightarrow> reply_env \<Rightarrow> worker \<Rightarrow> worker \<times> wk_out list" where
  "worker_noticed env now fault re wk =
     (case wk_phase wk of
        Some (Wp_notice t late code) \<Rightarrow>
          turn_ends env now fault (wk\<lparr>wk_lane := snd (reply re t (failure_notice code) (wk_lane wk))\<rparr>)
      | _ \<Rightarrow> (wk, []))"

text \<open>The abort of a turn's deadline signal, by its timer or by \<open>stop\<close>; it aborts once.\<close>

definition turn_cancel :: "worker \<Rightarrow> worker \<times> wk_out list" where
  "turn_cancel wk =
     (case wk_phase wk of
        Some (Wp_run t False) \<Rightarrow> (wk\<lparr>wk_phase := Some (Wp_run t True)\<rparr>, [Wo_cancel])
      | Some (Wp_reply t False r c) \<Rightarrow> (wk\<lparr>wk_phase := Some (Wp_reply t True r c)\<rparr>, [Wo_cancel])
      | Some (Wp_notice t False code) \<Rightarrow> (wk\<lparr>wk_phase := Some (Wp_notice t True code)\<rparr>, [Wo_cancel])
      | _ \<Rightarrow> (wk, []))"

definition worker_stop :: "worker \<Rightarrow> worker \<times> wk_out list" where
  "worker_stop wk =
     (let (wk1, outs) = (if wk_aborted wk then (wk, []) else turn_cancel wk);
          wk2 = wk1\<lparr>wk_aborted := True, wk_listeners := (if wk_aborted wk then wk_listeners wk else 0)\<rparr> in
      case wk_phase wk2 of
        None \<Rightarrow> (wk2, outs @ [Wo_adapter_stop])
      | Some (Wp_broken e) \<Rightarrow> (wk2, outs @ [Wo_stop_failed e])
      | Some p \<Rightarrow>
          if p = Wp_sleep \<or> p = Wp_ended
          then (let (wk3, o3) = loop_ends (wk2\<lparr>wk_stops := wk_stops wk2 + 1\<rparr>) in (wk3, outs @ o3))
          else (wk2\<lparr>wk_stops := wk_stops wk2 + 1\<rparr>, outs))"

fun worker_step :: "turn_env \<Rightarrow> wk_event \<Rightarrow> worker \<Rightarrow> worker \<times> wk_out list" where
  "worker_step env (Wv_start now fault) wk =
     (if wk_phase wk \<noteq> None then (wk, [])
      else (let (wk', outs) = loop_head env now fault wk in (wk', Wo_warm_up # outs)))"
| "worker_step env Wv_stop wk = worker_stop wk"
| "worker_step env (Wv_wake now fault) wk =
     (if wk_phase wk = Some Wp_sleep then loop_head env now fault (wk\<lparr>wk_listeners := wk_listeners wk - 1\<rparr>) else (wk, []))"
| "worker_step env Wv_timer wk = turn_cancel wk"
| "worker_step env (Wv_ran now fault r) wk = worker_ran env now fault r wk"
| "worker_step env (Wv_replied now fault re) wk = worker_replied env now fault re wk"
| "worker_step env (Wv_noticed now fault re) wk = worker_noticed env now fault re wk"
| "worker_step env (Wv_lane lan) wk = (wk\<lparr>wk_lane := lan\<rparr>, [])"

section \<open>Lemmas\<close>

lemma fst_runs_append: "fst (runs step (es @ fs) s) = fst (runs step fs (fst (runs step es s)))"
  by (induction es arbitrary: s) (simp_all add: Let_def split_beta)

text \<open>The listeners on the signal and the calls of \<open>stop\<close> that wait, by where the loop is.\<close>

definition in_turn :: "wk_phase \<Rightarrow> bool" where
  "in_turn p = (case p of Wp_run t d \<Rightarrow> True | Wp_reply t d r c \<Rightarrow> True | Wp_notice t d c \<Rightarrow> True | _ \<Rightarrow> False)"

definition worker_ok :: "worker \<Rightarrow> bool" where
  "worker_ok wk =
     (case wk_phase wk of
        None \<Rightarrow> wk_listeners wk = 0 \<and> wk_stops wk = 0
      | Some p \<Rightarrow>
          if in_turn p then wk_listeners wk = (if wk_aborted wk then 0 else 1) \<and> (wk_stops wk = 0) = (\<not> wk_aborted wk)
          else wk_stops wk = 0 \<and> wk_listeners wk = (if p = Wp_sleep then 1 else 0) \<and> (p = Wp_sleep \<longrightarrow> \<not> wk_aborted wk) \<and>
            (p = Wp_ended \<longrightarrow> wk_aborted wk))"

lemma ok_lane [simp]: "worker_ok (wk\<lparr>wk_lane := lan\<rparr>) = worker_ok wk"
  by (simp add: worker_ok_def split: option.split)

lemma in_turn_simps [simp]:
  "in_turn (Wp_run t d)" "in_turn (Wp_reply t d r c)" "in_turn (Wp_notice t d c)"
  "\<not> in_turn Wp_sleep" "\<not> in_turn Wp_ended" "\<not> in_turn (Wp_broken e)"
  by (simp_all add: in_turn_def)

lemma in_turn_cases:
  "in_turn p \<Longrightarrow> (\<exists>t d. p = Wp_run t d) \<or> (\<exists>t d r c. p = Wp_reply t d r c) \<or> (\<exists>t d c. p = Wp_notice t d c)"
  by (cases p) simp_all

text \<open>The head of the loop is reached with no listener, and with a \<open>stop\<close> waiting exactly after an abort.\<close>

lemma head_ok:
  assumes "wk_listeners wk = 0" "\<not> wk_aborted wk \<Longrightarrow> wk_stops wk = 0"
  shows "worker_ok (fst (loop_head env now fault wk))"
  using assms by (auto simp: loop_head_def loop_ends_def worker_ok_def Let_def split: option.split)

lemma ends_ok:
  assumes "worker_ok wk" "wk_phase wk = Some p" "in_turn p"
  shows "worker_ok (fst (turn_ends env now fault wk))"
  unfolding turn_ends_def using assms by (intro head_ok) (auto simp: worker_ok_def split: if_splits)

lemma caught_ok:
  assumes "worker_ok wk" "wk_phase wk = Some p" "in_turn p"
  shows "worker_ok (fst (turn_caught env now fault t late e wk))"
proof -
  have "worker_ok (fst (turn_ends env now fault (wk\<lparr>wk_lane := lan\<rparr>)))" for lan
    by (rule ends_ok [of _ p]) (use assms in \<open>simp_all add: worker_ok_def\<close>)
  moreover have "worker_ok (wk\<lparr>wk_lane := lan, wk_phase := Some (Wp_notice t late code)\<rparr>)" for lan code
    using assms by (simp add: worker_ok_def)
  ultimately show ?thesis by (simp add: turn_caught_def Let_def)
qed

lemma cancel_fields:
  "wk_aborted (fst (turn_cancel wk)) = wk_aborted wk" "wk_listeners (fst (turn_cancel wk)) = wk_listeners wk"
  "wk_stops (fst (turn_cancel wk)) = wk_stops wk" "wk_lane (fst (turn_cancel wk)) = wk_lane wk"
  "wk_phase wk = Some p \<Longrightarrow> \<exists>q. wk_phase (fst (turn_cancel wk)) = Some q \<and> in_turn q = in_turn p \<and> (\<not> in_turn p \<longrightarrow> q = p)"
  "wk_phase wk = None \<Longrightarrow> wk_phase (fst (turn_cancel wk)) = None"
  by (auto simp: turn_cancel_def split: option.split wk_phase.split bool.split)

lemma cancel_ok: "worker_ok (fst (turn_cancel wk)) = worker_ok wk"
proof (cases "wk_phase wk")
  case (Some p)
  from cancel_fields(5) [OF this] obtain q where "wk_phase (fst (turn_cancel wk)) = Some q" "in_turn q = in_turn p"
    "\<not> in_turn p \<longrightarrow> q = p" by blast
  with Some show ?thesis by (auto simp: worker_ok_def cancel_fields)
qed (simp add: turn_cancel_def)

lemma step_ok:
  assumes "worker_ok wk"
  shows "worker_ok (fst (worker_step env ev wk))"
proof (cases ev)
  case (Wv_start now fault)
  have "worker_ok (fst (loop_head env now fault wk))" if "wk_phase wk = None"
    using assms that by (intro head_ok) (simp_all add: worker_ok_def)
  with assms show ?thesis by (simp add: Wv_start split_beta)
next
  case Wv_stop
  have "worker_ok (fst (turn_cancel wk))" by (simp add: cancel_ok assms)
  with assms Wv_stop show ?thesis
    by (auto simp: worker_stop_def Let_def split_beta loop_ends_def worker_ok_def cancel_fields in_turn_def
        split: option.splits wk_phase.splits if_splits)
next
  case (Wv_wake now fault)
  have "worker_ok (fst (loop_head env now fault (wk\<lparr>wk_listeners := wk_listeners wk - 1\<rparr>)))" if "wk_phase wk = Some Wp_sleep"
    using assms that by (intro head_ok) (simp_all add: worker_ok_def)
  with assms show ?thesis by (simp add: Wv_wake)
next
  case (Wv_ran now fault r)
  with assms show ?thesis
    by (cases "wk_phase wk"; cases "the (wk_phase wk)")
      (auto simp: worker_ran_def worker_ok_def [of "wk\<lparr>wk_phase := p\<rparr>" for p] split: sum.splits prod.splits intro: caught_ok,
       auto simp: worker_ok_def)
next
  case (Wv_replied now fault re)
  with assms show ?thesis
    by (auto simp: worker_replied_def Let_def split: option.splits wk_phase.splits sum.splits prod.splits intro!: caught_ok ends_ok)
next
  case (Wv_noticed now fault re)
  with assms show ?thesis
    by (auto simp: worker_noticed_def split: option.splits wk_phase.splits intro!: ends_ok)
qed (use assms in \<open>simp_all add: cancel_ok\<close>)

lemma runs_ok: "worker_ok wk \<Longrightarrow> worker_ok (fst (runs (worker_step env) es wk))"
  using step_ok by (induction es arbitrary: wk) (simp_all add: Let_def split_beta del: worker_step.simps)

text \<open>An aborted worker stays aborted and takes no turn.\<close>

lemma head_aborted:
  "wk_aborted wk \<Longrightarrow> wk_aborted (fst (loop_head env now fault wk)) \<and> (\<forall>t c. Wo_run t c \<notin> set (snd (loop_head env now fault wk)))"
  by (simp add: loop_head_def loop_ends_def)

lemma caught_aborted:
  "wk_aborted wk \<Longrightarrow> wk_aborted (fst (turn_caught env now fault u late e wk)) \<and>
    (\<forall>t c. Wo_run t c \<notin> set (snd (turn_caught env now fault u late e wk)))"
  by (simp add: turn_caught_def turn_ends_def head_aborted Let_def)

lemma cancel_quiet: "Wo_run t c \<notin> set (snd (turn_cancel wk))"
  by (auto simp: turn_cancel_def split: option.split wk_phase.split bool.split)

lemma stop_aborts: "wk_aborted (fst (worker_stop wk)) \<and> (\<forall>t c. Wo_run t c \<notin> set (snd (worker_stop wk)))"
  by (auto simp: worker_stop_def Let_def split_beta loop_ends_def cancel_quiet split: option.splits wk_phase.splits)

lemma worker_step_aborted:
  assumes "wk_aborted wk"
  shows "wk_aborted (fst (worker_step env ev wk)) \<and> (\<forall>t c. Wo_run t c \<notin> set (snd (worker_step env ev wk)))"
proof (cases ev)
  case (Wv_start now fault)
  with assms head_aborted [of wk env now fault] show ?thesis by (simp add: Let_def split_beta)
next
  case (Wv_ran now fault r)
  with assms show ?thesis
    by (auto simp: worker_ran_def caught_aborted split: option.splits wk_phase.splits sum.splits prod.splits)
next
  case (Wv_replied now fault re)
  with assms show ?thesis
    by (auto simp: worker_replied_def Let_def caught_aborted head_aborted turn_ends_def
        split: option.splits wk_phase.splits sum.splits prod.splits)
next
  case (Wv_noticed now fault re)
  with assms show ?thesis
    by (auto simp: worker_noticed_def head_aborted turn_ends_def split: option.splits wk_phase.splits)
qed (use assms in \<open>auto simp: stop_aborts cancel_quiet cancel_fields head_aborted\<close>)

lemma runs_aborted:
  "wk_aborted wk \<Longrightarrow> wk_aborted (fst (runs (worker_step env) es wk)) \<and> (\<forall>t c. Wo_run t c \<notin> set (snd (runs (worker_step env) es wk)))"
proof (induction es arbitrary: wk)
  case (Cons ev es)
  from worker_step_aborted [OF Cons.prems, of env ev] Cons.IH [of "fst (worker_step env ev wk)"] show ?case
    by (auto simp: Let_def split_beta simp del: worker_step.simps)
qed simp

text \<open>A loop whose promise was rejected stays so, and nothing is asked of the adapter any more.\<close>

definition broken :: "exn \<Rightarrow> worker \<Rightarrow> bool" where
  "broken e wk = (wk_phase wk = Some (Wp_broken e))"

lemma step_broken:
  "broken e wk \<Longrightarrow> broken e (fst (worker_step env ev wk)) \<and> set (snd (worker_step env ev wk)) \<subseteq> {Wo_stop_failed e}"
  by (cases ev)
    (auto simp: broken_def worker_stop_def turn_cancel_def worker_ran_def worker_replied_def worker_noticed_def Let_def)

lemma runs_broken:
  "broken e wk \<Longrightarrow> broken e (fst (runs (worker_step env) es wk)) \<and> set (snd (runs (worker_step env) es wk)) \<subseteq> {Wo_stop_failed e}"
proof (induction es arbitrary: wk)
  case (Cons ev es)
  from step_broken [OF Cons.prems, of env ev] Cons.IH [of "fst (worker_step env ev wk)"] show ?case
    by (auto simp: Let_def split_beta simp del: worker_step.simps)
qed simp

text \<open>After an abort the rest of a turn is at most its run and its reply.\<close>

definition ended_with :: "nat \<Rightarrow> worker \<times> wk_out list \<Rightarrow> bool" where
  "ended_with n q = (wk_phase (fst q) = None \<and> wk_listeners (fst q) = 0 \<and> snd q = replicate (Suc n) Wo_adapter_stop)"

definition to_end :: "nat \<Rightarrow> worker \<Rightarrow> bool" where
  "to_end n wk = (wk_aborted wk \<and> wk_listeners wk = 0 \<and> wk_stops wk = Suc n)"

lemma to_end_update [simp]:
  "to_end n (wk\<lparr>wk_lane := lan\<rparr>) = to_end n wk" "to_end n (wk\<lparr>wk_phase := p\<rparr>) = to_end n wk"
  by (simp_all add: to_end_def)

lemma ends_now: "to_end n wk \<Longrightarrow> ended_with n (turn_ends env now fault wk)"
  by (simp add: to_end_def ended_with_def turn_ends_def loop_head_def loop_ends_def)

lemma caught_now: "to_end n wk \<Longrightarrow> ended_with n (turn_caught env now fault t late e wk)"
  using ends_now by (simp add: turn_caught_def Let_def) (simp add: to_end_def)

lemma noticed_now: "to_end n wk \<Longrightarrow> wk_phase wk = Some (Wp_notice t d code) \<Longrightarrow> ended_with n (worker_noticed env now fault re wk)"
  by (simp add: worker_noticed_def ends_now)

lemma replied_now: "to_end n wk \<Longrightarrow> wk_phase wk = Some (Wp_reply t d x c) \<Longrightarrow> ended_with n (worker_replied env now fault re wk)"
  by (auto simp: worker_replied_def Let_def split: prod.split sum.split intro!: caught_now ends_now)

lemma ran_now:
  "to_end n wk \<Longrightarrow> wk_phase wk = Some (Wp_run t d) \<Longrightarrow> ended_with n (worker_ran env now fault r wk) \<or>
    (\<exists>x c. worker_ran env now fault r wk = (wk\<lparr>wk_phase := Some (Wp_reply t d x c)\<rparr>, []))"
  by (auto simp: worker_ran_def split: prod.split sum.split intro!: caught_now)

lemma idle_steps:
  "wk_phase wk = None \<Longrightarrow> worker_ran env now fault r wk = (wk, [])"
  "wk_phase wk = None \<Longrightarrow> worker_replied env now fault re wk = (wk, [])"
  "wk_phase wk = None \<Longrightarrow> worker_noticed env now fault re wk = (wk, [])"
  by (simp_all add: worker_ran_def worker_replied_def worker_noticed_def)

lemma aborted_turn_ends:
  assumes "to_end n wk" "wk_phase wk = Some p" "in_turn p"
  shows "ended_with n (runs (worker_step env) [Wv_ran n1 f1 r, Wv_replied n2 f2 re, Wv_noticed n3 f3 ne] wk)"
proof -
  have rest: "ended_with n (runs (worker_step env) [Wv_replied n2 f2 re, Wv_noticed n3 f3 ne] wk)"
    if "to_end n wk" "wk_phase wk = Some (Wp_reply t d x c)" for t d x c wk
    using replied_now [OF that, of env n2 f2 re] by (simp add: ended_with_def idle_steps split_beta Let_def)
  from in_turn_cases [OF assms(3)] show ?thesis
  proof (elim disjE exE)
    fix t d assume "p = Wp_run t d"
    with assms(2) have "wk_phase wk = Some (Wp_run t d)" by simp
    from ran_now [OF assms(1) this, of env n1 f1 r] show ?thesis
    proof (elim disjE exE)
      assume "ended_with n (worker_ran env n1 f1 r wk)"
      then show ?thesis by (simp add: ended_with_def idle_steps split_beta Let_def)
    next
      fix x c assume "worker_ran env n1 f1 r wk = (wk\<lparr>wk_phase := Some (Wp_reply t d x c)\<rparr>, [])"
      with rest [of "wk\<lparr>wk_phase := Some (Wp_reply t d x c)\<rparr>" t d x c] assms(1) show ?thesis
        by (simp add: split_beta Let_def)
    qed
  next
    fix t d x c assume p: "p = Wp_reply t d x c"
    then have "worker_ran env n1 f1 r wk = (wk, [])" using assms(2) by (simp add: worker_ran_def)
    with rest [of wk] assms p show ?thesis by (simp add: split_beta Let_def)
  next
    fix t d c assume p: "p = Wp_notice t d c"
    then have "worker_ran env n1 f1 r wk = (wk, [])" "worker_replied env n2 f2 re wk = (wk, [])"
      using assms(2) by (simp_all add: worker_ran_def worker_replied_def)
    with noticed_now [OF assms(1)] assms p show ?thesis by (simp add: split_beta Let_def)
  qed
qed

lemma worker_new_ok: "worker_ok (worker_new lan)"
  by (simp add: worker_ok_def worker_new_def)

lemma stop_cases:
  assumes "worker_ok wk" "\<not> wk_aborted wk" "\<not> (\<exists>e. broken e wk)"
  shows "wk_phase (fst (worker_stop wk)) = None \<and> filter (\<lambda>x. x \<noteq> Wo_cancel) (snd (worker_stop wk)) = [Wo_adapter_stop] \<or>
    (\<exists>p. wk_phase (fst (worker_stop wk)) = Some p \<and> in_turn p \<and> wk_stops (fst (worker_stop wk)) = Suc 0 \<and>
      filter (\<lambda>x. x \<noteq> Wo_cancel) (snd (worker_stop wk)) = [])"
proof (cases "wk_phase wk")
  case (Some p)
  with assms show ?thesis
    by (cases p) (auto simp: worker_stop_def turn_cancel_def loop_ends_def broken_def worker_ok_def Let_def split: bool.split)
qed (use assms in \<open>auto simp: worker_stop_def turn_cancel_def worker_ok_def Let_def\<close>)

lemma conversation_for_update [simp]:
  "conversation_for (env\<lparr>te_run := r, te_deadline := d, te_stopped := s, te_reply := re, te_error_reply := ne, te_now := n\<rparr>) =
    conversation_for env"
  by (intro ext) (simp add: conversation_for_def cong: option.case_cong)

lemma failure_code_update [simp]:
  "failure_code (env\<lparr>te_run := r, te_deadline := d, te_stopped := s, te_reply := re, te_error_reply := ne, te_now := n\<rparr>) =
    failure_code (env\<lparr>te_deadline := d, te_stopped := s\<rparr>)"
  by (intro ext) (simp add: failure_code_def)

text \<open>The head of the loop does not depend on where the loop was, and the answers for another place are ignored.\<close>

lemma head_phase [simp]:
  "loop_head env now fault (wk\<lparr>wk_phase := p\<rparr>) = loop_head env now fault wk"
  "loop_head env now fault (wk\<lparr>wk_phase := p, wk_lane := l\<rparr>) = loop_head env now fault (wk\<lparr>wk_lane := l\<rparr>)"
  "loop_head env now fault (wk\<lparr>wk_phase := p, wk_lane := l, wk_listeners := n\<rparr>) = loop_head env now fault (wk\<lparr>wk_lane := l, wk_listeners := n\<rparr>)"
  by (auto simp: loop_head_def loop_ends_def Let_def split: option.split)

lemma head_ignores:
  "worker_replied env n f re (fst (loop_head env now fault wk)) = (fst (loop_head env now fault wk), [])"
  "worker_noticed env n f re (fst (loop_head env now fault wk)) = (fst (loop_head env now fault wk), [])"
  by (auto simp: loop_head_def loop_ends_def worker_replied_def worker_noticed_def Let_def split: option.split)

lemma head_eq:
  "wk_aborted v = wk_aborted w \<Longrightarrow> wk_listeners v = wk_listeners w \<Longrightarrow> wk_stops v = wk_stops w \<Longrightarrow> wk_lane v = wk_lane w \<Longrightarrow>
    loop_head env now fault v = loop_head env now fault w"
  by (cases v; cases w) (auto simp: loop_head_def loop_ends_def Let_def split: option.split)

definition turn_finally :: "worker \<Rightarrow> worker" where
  "turn_finally wk = wk\<lparr>wk_listeners := (if wk_aborted wk then wk_listeners wk else wk_listeners wk - 1)\<rparr>"

lemma caught_steps:
  fixes env :: turn_env
  defines "env' r late re ne now s \<equiv> env\<lparr>te_run := r, te_deadline := late, te_stopped := s, te_reply := re, te_error_reply := ne, te_now := now\<rparr>"
  assumes "wk_phase wk = Some p" "in_turn p" "\<And>t d c. p \<noteq> Wp_notice t d c"
  shows "fst (worker_noticed env now fault ne (fst (turn_caught env now fault t late e wk))) =
      fst (loop_head env now fault (turn_finally (wk\<lparr>wk_lane := turn_failed (env' r late re ne now (wk_aborted wk)) t e (wk_lane wk)\<rparr>)))"
    "worker_replied env now fault re (fst (turn_caught env now fault t late e wk)) = (fst (turn_caught env now fault t late e wk), [])"
proof -
  let ?c = "turn_caught env now fault t late e wk"
  let ?rhs = "fst (loop_head env now fault (turn_finally (wk\<lparr>wk_lane := turn_failed (env' r late re ne now (wk_aborted wk)) t e (wk_lane wk)\<rparr>)))"
  have "fst (worker_noticed env now fault ne (fst ?c)) = ?rhs \<and> worker_replied env now fault re (fst ?c) = (fst ?c, [])"
  proof (cases "wk_aborted wk")
    case True
    then have "?c = loop_head env now fault (turn_finally (wk\<lparr>wk_lane := turn_failed (env' r late re ne now (wk_aborted wk)) t e (wk_lane wk)\<rparr>))"
      by (simp add: turn_caught_def turn_failed_def turn_ends_def turn_finally_def env'_def Let_def)
    then show ?thesis by (simp add: head_ignores)
  next
    case False
    let ?code = "failure_code (env\<lparr>te_deadline := late, te_stopped := False\<rparr>) e"
    have c: "fst ?c = wk\<lparr>wk_lane := (wk_lane wk)\<lparr>ln_inbox := fail_turn now (tn_turnId t) ?code (ln_inbox (wk_lane wk))\<rparr>,
        wk_phase := Some (Wp_notice t late ?code)\<rparr>"
      using False by (simp add: turn_caught_def Let_def)
    show ?thesis unfolding c using False
      by (simp add: worker_noticed_def worker_replied_def turn_ends_def turn_failed_def turn_finally_def env'_def Let_def)
  qed
  then show "fst (worker_noticed env now fault ne (fst ?c)) = ?rhs" "worker_replied env now fault re (fst ?c) = (fst ?c, [])" by auto
qed

lemma turn_steps:
  fixes env :: turn_env
  assumes "wk_phase wk = Some (Wp_run t late)" "env' = env\<lparr>te_run := run, te_deadline := late,
        te_stopped := wk_aborted wk, te_reply := re, te_error_reply := ne, te_now := now\<rparr>"
    "key = te_print env (runtimeContextKey (te_laneId env) (te_workspace env) t)"
    "r = run (conversation_for env key (ln_inbox (wk_lane wk)))"
  shows "fst (runs (worker_step env) [Wv_ran now fault r, Wv_replied now fault re, Wv_noticed now fault ne] wk) =
    fst (loop_head env now fault (turn_finally (wk\<lparr>wk_lane :=
      (case turn_body env' t key (wk_lane wk) of (Inr _, lan2) \<Rightarrow> lan2 | (Inl e, lan2) \<Rightarrow> turn_failed env' t e lan2)\<rparr>)))"
proof -
  have te: "te_run env' (conversation_for env' key (ln_inbox (wk_lane wk))) = r"
    and fields: "te_now env' = now" "te_reply env' = re" "te_workspace env' = te_workspace env" "te_kind env' = te_kind env"
      "te_model env' = te_model env"
    using assms by simp_all
  have caught: "fst (worker_noticed env now fault ne (fst (worker_replied env now fault re (fst (turn_caught env now fault t late e w))))) =
      fst (loop_head env now fault (turn_finally (w\<lparr>wk_lane := turn_failed env' t e (wk_lane w)\<rparr>)))"
    if "wk_phase w = Some (Wp_run t late)" "wk_aborted w = wk_aborted wk" for w e
    using caught_steps(1) [OF that(1), of env now fault ne t late e re run] caught_steps(2) [OF that(1), of env now fault re t late e] that(2)
    by (simp add: assms(2))
  show ?thesis
  proof (cases r)
    case (Inl e)
    then have "turn_body env' t key (wk_lane wk) = (Inl e, wk_lane wk)" by (simp add: turn_body_def te)
    with caught [OF assms(1)] Inl show ?thesis by (simp add: worker_ran_def assms(1) split_beta Let_def)
  next
    case (Inr q)
    then obtain x c where r: "r = Inr (x, c)" by (cases q) simp
    show ?thesis
    proof (cases "js_blank x")
      case True
      with r have "turn_body env' t key (wk_lane wk) = (Inl (RuntimeAdapterError ''EMPTY_RESPONSE'' ''Runtime returned an empty response''), wk_lane wk)"
        by (simp add: turn_body_def te)
      with caught [OF assms(1)] True r show ?thesis by (simp add: worker_ran_def assms(1) split_beta Let_def)
    next
      case False
      obtain z lan where reply: "reply re t x (wk_lane wk) = (z, lan)" by (cases "reply re t x (wk_lane wk)")
      let ?w = "wk\<lparr>wk_phase := Some (Wp_reply t late x c)\<rparr>"
      have ran: "worker_ran env now fault r wk = (?w, [])" using assms(1) r False by (simp add: worker_ran_def)
      show ?thesis
      proof (cases z)
        case (Inl e)
        with r False reply have "turn_body env' t key (wk_lane wk) = (Inl e, lan)" by (simp add: turn_body_def te fields)
        moreover have "fst (worker_noticed env now fault ne (fst (turn_caught env now fault t late e (?w\<lparr>wk_lane := lan\<rparr>)))) =
            fst (loop_head env now fault (turn_finally (?w\<lparr>wk_lane := turn_failed env' t e lan\<rparr>)))"
          using caught_steps(1) [of "?w\<lparr>wk_lane := lan\<rparr>" "Wp_reply t late x c" env now fault ne t late e re run] by (simp add: assms(2))
        ultimately show ?thesis using ran reply Inl
          by (simp add: worker_replied_def turn_finally_def split_beta Let_def)
      next
        case (Inr u)
        with r False reply have "turn_body env' t key (wk_lane wk) =
            (Inr (), lan\<lparr>ln_inbox := complete_turn now (tn_turnId t) x (Some c)
              (saveConversation now key c (te_workspace env) (te_kind env) (te_model env) (ln_inbox lan))\<rparr>)"
          by (simp add: turn_body_def te fields)
        with ran reply Inr assms(3) show ?thesis
          by (simp add: worker_replied_def turn_ends_def head_ignores split_beta Let_def turn_finally_def)
      qed
    qed
  qed
qed

section \<open>Properties\<close>

text \<open>C9: the loop does to a turn what \<open>runTurn\<close> says as a whole.  When a waiting loop finds a turn, the steps of
  the turn leave the lane as \<open>runTurn\<close> does with the same answers, the deadline passed or not and the
  worker stopped meanwhile or not, and the loop is back at its head.\<close>

theorem worker_implements_runTurn:
  assumes "wk_phase wk = Some Wp_sleep" "\<not> wk_aborted wk" "wk_listeners wk = 1" "wk_stops wk = 0"
    "next_turn (ln_inbox (wk_lane wk)) = Some t"
  shows "fst (runs (worker_step env)
      ([Wv_wake now None] @ (if late then [Wv_timer] else []) @ (if stopped then [Wv_stop] else []) @
       [Wv_ran now fault (run (conversation_for env (te_print env (runtimeContextKey (te_laneId env) (te_workspace env) t))
          (markRunning now (tn_turnId t) (ln_inbox (wk_lane wk))))),
        Wv_replied now fault re, Wv_noticed now fault ne]) wk) =
    fst (loop_head env now fault (wk\<lparr>wk_aborted := stopped, wk_listeners := 0, wk_stops := (if stopped then 1 else 0),
      wk_lane := runTurn (env\<lparr>te_run := run, te_deadline := late \<or> stopped, te_stopped := stopped, te_reply := re, te_error_reply := ne,
        te_now := now\<rparr>) t (wk_lane wk)\<rparr>))"
proof -
  let ?lan = "(wk_lane wk)\<lparr>ln_inbox := markRunning now (tn_turnId t) (ln_inbox (wk_lane wk))\<rparr>"
  let ?r = "run (conversation_for env (te_print env (runtimeContextKey (te_laneId env) (te_workspace env) t)) (ln_inbox ?lan))"
  let ?s = "wk\<lparr>wk_aborted := stopped, wk_phase := Some (Wp_run t (late \<or> stopped)), wk_listeners := (if stopped then 0 else 1),
      wk_stops := (if stopped then 1 else 0), wk_lane := ?lan\<rparr>"
  have began: "fst (runs (worker_step env)
      ([Wv_wake now None] @ (if late then [Wv_timer] else []) @ (if stopped then [Wv_stop] else [])) wk) = ?s"
    using assms by (simp add: loop_head_def turn_cancel_def worker_stop_def Let_def)
  have "fst (runs (worker_step env) [Wv_ran now fault ?r, Wv_replied now fault re, Wv_noticed now fault ne] ?s) =
      fst (loop_head env now fault (turn_finally (?s\<lparr>wk_lane := runTurn (env\<lparr>te_run := run, te_deadline := late \<or> stopped,
        te_stopped := stopped, te_reply := re, te_error_reply := ne, te_now := now\<rparr>) t (wk_lane wk)\<rparr>)))"
    by (subst turn_steps [where t = t and late = "late \<or> stopped"]) (simp_all add: runTurn_def Let_def)
  also have "\<dots> = fst (loop_head env now fault (wk\<lparr>wk_aborted := stopped, wk_listeners := 0, wk_stops := (if stopped then 1 else 0),
      wk_lane := runTurn (env\<lparr>te_run := run, te_deadline := late \<or> stopped, te_stopped := stopped, te_reply := re, te_error_reply := ne,
        te_now := now\<rparr>) t (wk_lane wk)\<rparr>))"
    by (rule arg_cong [where f = fst], rule head_eq) (simp_all add: turn_finally_def)
  finally show ?thesis
    unfolding began [symmetric] fst_runs_append [symmetric] by simp
qed


text \<open>A worker never holds more than one listener on its signal: it has one while it sleeps or has a turn and
  was not stopped, and none otherwise, so no turn and no pause leaves one behind.\<close>

theorem worker_holds_one_listener:
  assumes "runs (worker_step env) es (worker_new lan) = (wk, outs)"
  shows "wk_listeners wk = (if \<not> wk_aborted wk \<and> (\<exists>p. wk_phase wk = Some p \<and> (p = Wp_sleep \<or> in_turn p)) then 1 else 0)"
proof -
  have "worker_ok wk" using runs_ok [OF worker_new_ok, of env es lan] assms by simp
  then show ?thesis by (auto simp: worker_ok_def split: option.splits if_splits)
qed

text \<open>One exception of the inbox ends a worker for good.  When the loop's read of the next turn throws, no
  turn is run any more however much is started, and \<open>stop\<close> fails with that exception each time and never
  stops the adapter.\<close>

theorem inbox_exception_kills_worker:
  assumes "wk_phase wk = Some Wp_sleep" "\<not> wk_aborted wk" "runs (worker_step env) (Wv_wake now (Some e) # es) wk = (wk', outs)"
  shows "set outs \<subseteq> {Wo_stop_failed e} \<and> snd (worker_stop wk') = [Wo_stop_failed e]"
proof -
  define w where "w = wk\<lparr>wk_listeners := wk_listeners wk - 1, wk_phase := Some (Wp_broken e)\<rparr>"
  have r: "runs (worker_step env) es w = (wk', outs)"
    using assms by (simp add: w_def loop_head_def Let_def split_beta)
  have "broken e w" by (simp add: w_def broken_def)
  from runs_broken [OF this, of env es] r have "broken e wk'" "set outs \<subseteq> {Wo_stop_failed e}" by simp_all
  then show ?thesis by (auto simp: broken_def worker_stop_def turn_cancel_def Let_def)
qed

section \<open>A worker\<close>

definition sample_worker :: worker where
  "sample_worker = \<lparr>wk_aborted = False, wk_phase = Some Wp_sleep, wk_listeners = 1, wk_stops = 0, wk_lane = sample_turn_lane\<rparr>"

lemma sample_next: "next_turn (ln_inbox sample_turn_lane) = Some sample_turn"
  by (simp add: sample_turn_lane_def next_turn_def pending_turns_def) (simp add: sample_turn_def)

theorem worker_implements_runTurn_witness:
  "let w = fst (runs (worker_step (failing_turn_env True)) [Wv_wake 6 None, Wv_stop, Wv_ran 6 None (Inl (PlainError ''down'')),
      Wv_replied 6 None sample_reply_env, Wv_noticed 6 None sample_reply_env] sample_worker) in
    wk_phase w = None \<and> wk_lane w = runTurn ((failing_turn_env True)\<lparr>te_deadline := True\<rparr>) sample_turn sample_turn_lane"
proof -
  have "next_turn (ln_inbox (wk_lane sample_worker)) = Some sample_turn"
    by (simp add: sample_worker_def sample_next)
  from worker_implements_runTurn [OF _ _ _ _ this, of "failing_turn_env True" 6 False True None "\<lambda>_. Inl (PlainError ''down'')"
      sample_reply_env sample_reply_env]
  show ?thesis
    by (simp add: sample_worker_def loop_head_def loop_ends_def failing_turn_env_def Let_def del: worker_step.simps)
qed


theorem worker_holds_one_listener_witness:
  "wk_listeners (fst (runs (worker_step (failing_turn_env False)) [Wv_start 5 None, Wv_stop] (worker_new sample_turn_lane))) = 0"
proof -
  obtain wk outs where a: "runs (worker_step (failing_turn_env False)) [Wv_start 5 None, Wv_stop] (worker_new sample_turn_lane) = (wk, outs)"
    by (cases "runs (worker_step (failing_turn_env False)) [Wv_start 5 None, Wv_stop] (worker_new sample_turn_lane)")
  have "wk_aborted wk" using stop_aborts a by (auto simp: Let_def split_beta)
  with worker_holds_one_listener [OF a] a show ?thesis by simp
qed

theorem inbox_exception_kills_worker_witness:
  "let (wk, outs) = runs (worker_step (failing_turn_env False)) [Wv_wake 5 (Some (PlainError ''SQLITE_BUSY'')), Wv_start 6 None, Wv_stop] sample_worker in
    set outs \<subseteq> {Wo_stop_failed (PlainError ''SQLITE_BUSY'')}"
proof -
  let ?es = "[Wv_wake 5 (Some (PlainError ''SQLITE_BUSY'')), Wv_start 6 None, Wv_stop]"
  obtain wk outs where a: "runs (worker_step (failing_turn_env False)) ?es sample_worker = (wk, outs)"
    by (cases "runs (worker_step (failing_turn_env False)) ?es sample_worker")
  have "wk_phase sample_worker = Some Wp_sleep" "\<not> wk_aborted sample_worker" by (simp_all add: sample_worker_def)
  from inbox_exception_kills_worker [OF this a] show ?thesis unfolding a by simp
qed

end
