(* ===== verification/Mesh_Client.thy ===== *)
theory Mesh_Client
  imports Errors Interfaces
begin

text \<open>
  \<open>src/hub/mesh-client.ts\<close>: the WebSocket client of the Hub.  A step is an event of a socket, of a
  timer or of the key store, or a call of the client; a socket is a number, and \<open>mc_open\<close> the
  sockets whose \<open>readyState\<close> is open.  \<open>call\<close> awaits the
  signature between its check of the socket and the registration of the request, so it is two
  steps; the texts of the wire are JSON values here, and the signing key, the clock and the Hub are
  arguments of the events.  JSON-RPC error codes are integers.
\<close>

section \<open>State\<close>

datatype mesh_state = Mesh_disconnected | Mesh_connecting | Mesh_connected | Mesh_approval | Mesh_failed

record mesh_status =
  ms_state :: mesh_state
  ms_identity :: string
  ms_lastError :: "string option"
  ms_connectedAt :: "string option"
  ms_audit :: "json option"

text \<open>\<open>mc_signing\<close> holds the calls that await their signature, with the socket they captured.\<close>

record mesh_client =
  mc_socket :: "nat option"
  mc_open :: "nat list"
  mc_signing :: "(string \<times> nat) list"
  mc_pending :: "string list"
  mc_status :: mesh_status

datatype mesh_out =
    Mo_open nat
  | Mo_close nat
  | Mo_send nat string string json
  | Mo_settle string "exn + json"
  | Mo_deliver json

definition mesh_client_new :: "string \<Rightarrow> mesh_client" where
  "mesh_client_new identity =
     \<lparr>mc_socket = None, mc_open = [], mc_signing = [], mc_pending = [],
      mc_status = \<lparr>ms_state = Mesh_disconnected, ms_identity = identity, ms_lastError = None,
        ms_connectedAt = None, ms_audit = None\<rparr>\<rparr>"

definition socket_open :: "mesh_client \<Rightarrow> bool" where
  "socket_open mc = (case mc_socket mc of None \<Rightarrow> False | Some n \<Rightarrow> n \<in> set (mc_open mc))"

section \<open>Pending calls\<close>

definition rejectPending :: "string \<Rightarrow> mesh_client \<Rightarrow> mesh_client \<times> mesh_out list" where
  "rejectPending msg mc =
     (mc\<lparr>mc_pending := []\<rparr>, map (\<lambda>i. Mo_settle i (Inl (PlainError msg))) (mc_pending mc))"

definition settle_pending :: "string \<Rightarrow> exn + json \<Rightarrow> mesh_client \<Rightarrow> mesh_client \<times> mesh_out list" where
  "settle_pending i r mc =
     (if i \<in> set (mc_pending mc) then (mc\<lparr>mc_pending := removeAll i (mc_pending mc)\<rparr>, [Mo_settle i r]) else (mc, []))"

text \<open>\<open>call\<close> up to the signature, and after it; \<open>i\<close> is the fresh request id.\<close>

definition call_begin :: "string \<Rightarrow> mesh_client \<Rightarrow> mesh_client \<times> mesh_out list" where
  "call_begin i mc =
     (case mc_socket mc of
        None \<Rightarrow> (mc, [Mo_settle i (Inl (PlainError ''Hub WebSocket is not connected''))])
      | Some n \<Rightarrow>
          if n \<notin> set (mc_open mc)
          then (mc, [Mo_settle i (Inl (PlainError ''Hub WebSocket is not connected''))])
          else (mc\<lparr>mc_signing := mc_signing mc @ [(i, n)]\<rparr>, []))"

definition call_signed :: "string \<Rightarrow> string \<Rightarrow> json \<Rightarrow> exn + unit \<Rightarrow> mesh_client \<Rightarrow> mesh_client \<times> mesh_out list" where
  "call_signed i meth params signature mc =
     (case map_of (mc_signing mc) i of
        None \<Rightarrow> (mc, [])
      | Some n \<Rightarrow>
          (let mc' = mc\<lparr>mc_signing := filter (\<lambda>(j, m). j \<noteq> i) (mc_signing mc)\<rparr> in
           case signature of
             Inl e \<Rightarrow> (mc', [Mo_settle i (Inl e)])
           | Inr _ \<Rightarrow> (mc'\<lparr>mc_pending := mc_pending mc' @ [i]\<rparr>, [Mo_send n i meth params])))"

section \<open>Messages\<close>

definition hub_failure :: "json \<Rightarrow> exn" where
  "hub_failure err =
     HubRpcError \<lparr>he_code = (case jnum (jfield err ''code'') of Some q \<Rightarrow> \<lfloor>q\<rfloor> | None \<Rightarrow> 0),
       he_message = (case jstr (jfield err ''message'') of Some m \<Rightarrow> m | None \<Rightarrow> []),
       he_data = jfield err ''data''\<rparr>"

definition hub_answer :: "json \<Rightarrow> exn + json" where
  "hub_answer msg =
     (case js_object (jfield msg ''error'') of
        Some err \<Rightarrow> Inl (hub_failure err)
      | None \<Rightarrow> Inr (case jfield msg ''result'' of Some r \<Rightarrow> r | None \<Rightarrow> JNull))"

text \<open>\<open>None\<close> is a text that is no JSON.\<close>

definition handleMessage :: "json option \<Rightarrow> mesh_client \<Rightarrow> mesh_client \<times> mesh_out list" where
  "handleMessage parsed mc =
     (case parsed of
        None \<Rightarrow> (mc, [])
      | Some msg \<Rightarrow>
          (case jstr (jfield msg ''id'') of
             Some i \<Rightarrow> settle_pending i (hub_answer msg) mc
           | None \<Rightarrow>
               if jfield msg ''method'' = Some (JStr ''mesh.message'') \<and> js_truthy (jfield msg ''params'')
               then (mc, [Mo_deliver (the (jfield msg ''params''))]) else (mc, [])))"

section \<open>Connecting and closing\<close>

definition connect_begin :: "nat \<Rightarrow> mesh_client \<Rightarrow> mesh_client \<times> mesh_out list" where
  "connect_begin n mc =
     (if socket_open mc then (mc, [])
      else (mc\<lparr>mc_status := (mc_status mc)\<lparr>ms_state := Mesh_connecting, ms_lastError := None\<rparr>, mc_socket := Some n\<rparr>,
            [Mo_open n]))"

text \<open>What the answer to \<open>mesh.connect\<close> on socket n does to the status.\<close>

definition connect_end :: "int \<Rightarrow> nat \<Rightarrow> string \<Rightarrow> exn + json \<Rightarrow> mesh_client \<Rightarrow> mesh_client \<times> mesh_out list" where
  "connect_end KEY_NOT_APPROVED n now r mc =
     (case r of
        Inr result \<Rightarrow>
          (mc\<lparr>mc_status := \<lparr>ms_state = Mesh_connected, ms_identity = ms_identity (mc_status mc), ms_lastError = None,
             ms_connectedAt = Some now,
             ms_audit = (case Option.bind (jfield result ''capabilities'') (\<lambda>c. jfield c ''audit'') of
               Some JNull \<Rightarrow> None | a \<Rightarrow> a)\<rparr>\<rparr>, [])
      | Inl e \<Rightarrow>
          (let approval = (case e of HubRpcError h \<Rightarrow> he_code h = KEY_NOT_APPROVED | _ \<Rightarrow> False) in
           (mc\<lparr>mc_status := (mc_status mc)\<lparr>ms_state := (if approval then Mesh_approval else Mesh_failed),
                ms_lastError := Some (exn_message e)\<rparr>,
               mc_open := removeAll n (mc_open mc)\<rparr>, [Mo_close n])))"

text \<open>\<open>#handleClose\<close>: it does not look at which socket closed.\<close>

definition handleClose :: "mesh_client \<Rightarrow> mesh_client \<times> mesh_out list" where
  "handleClose mc =
     (let (mc', outs) = rejectPending ''Hub connection closed'' (mc\<lparr>mc_socket := None\<rparr>) in
      (if ms_state (mc_status mc') \<noteq> Mesh_approval
       then mc'\<lparr>mc_status := (mc_status mc')\<lparr>ms_state := Mesh_disconnected, ms_connectedAt := None\<rparr>\<rparr>
       else mc', outs))"

definition mesh_close :: "mesh_client \<Rightarrow> mesh_client \<times> mesh_out list" where
  "mesh_close mc =
     (let (mc', outs) = rejectPending ''Hub connection closed'' (mc\<lparr>mc_socket := None\<rparr>) in
      (mc'\<lparr>mc_status := (mc_status mc')\<lparr>ms_state := Mesh_disconnected, ms_connectedAt := None\<rparr>,
          mc_open := (case mc_socket mc of None \<Rightarrow> mc_open mc | Some n \<Rightarrow> removeAll n (mc_open mc))\<rparr>,
       (case mc_socket mc of None \<Rightarrow> [] | Some n \<Rightarrow> [Mo_close n]) @ outs))"

section \<open>Steps\<close>

datatype mesh_event =
    Me_connect nat
  | Me_opened nat
  | Me_connect_result nat string "exn + json"
  | Me_call string
  | Me_signed string string json "exn + unit"
  | Me_timeout string string
  | Me_message "json option"
  | Me_error
  | Me_socket_closed nat
  | Me_close

fun mesh_step :: "int \<Rightarrow> mesh_event \<Rightarrow> mesh_client \<Rightarrow> mesh_client \<times> mesh_out list" where
  "mesh_step na (Me_connect n) mc = connect_begin n mc"
| "mesh_step na (Me_opened n) mc = (mc\<lparr>mc_open := n # mc_open mc\<rparr>, [])"
| "mesh_step na (Me_connect_result n now r) mc = connect_end na n now r mc"
| "mesh_step na (Me_call i) mc = call_begin i mc"
| "mesh_step na (Me_signed i meth params sig) mc = call_signed i meth params sig mc"
| "mesh_step na (Me_timeout i meth) mc =
     settle_pending i (Inl (PlainError (''Hub request timed out: '' @ meth))) mc"
| "mesh_step na (Me_message m) mc = handleMessage m mc"
| "mesh_step na Me_error mc =
     (mc\<lparr>mc_status := (mc_status mc)\<lparr>ms_lastError := Some ''Hub WebSocket error''\<rparr>\<rparr>, [])"
| "mesh_step na (Me_socket_closed n) mc = handleClose (mc\<lparr>mc_open := removeAll n (mc_open mc)\<rparr>)"
| "mesh_step na Me_close mc = mesh_close mc"

fun mesh_asked :: "mesh_event \<Rightarrow> string list" where
  "mesh_asked (Me_call i) = [i]"
| "mesh_asked e = []"

section \<open>Every call settles once\<close>

definition mesh_waiting :: "string \<Rightarrow> mesh_client \<Rightarrow> nat" where
  "mesh_waiting i mc = count_list (map fst (mc_signing mc)) i + count_list (mc_pending mc) i"

definition mesh_settled :: "string \<Rightarrow> mesh_out list \<Rightarrow> nat" where
  "mesh_settled i outs = length (filter (\<lambda>x. case x of Mo_settle j r \<Rightarrow> j = i | _ \<Rightarrow> False) outs)"

lemma mesh_settled_simps [simp]:
  "mesh_settled i [] = 0" "mesh_settled i (xs @ ys) = mesh_settled i xs + mesh_settled i ys"
  "mesh_settled i (Mo_open n # xs) = mesh_settled i xs" "mesh_settled i (Mo_close n # xs) = mesh_settled i xs"
  "mesh_settled i (Mo_send n j m p # xs) = mesh_settled i xs" "mesh_settled i (Mo_deliver p # xs) = mesh_settled i xs"
  "mesh_settled i (Mo_settle j r # xs) = (if j = i then 1 else 0) + mesh_settled i xs"
  by (simp_all add: mesh_settled_def)

lemma mesh_settled_all: "mesh_settled i (map (\<lambda>j. Mo_settle j r) js) = count_list js i"
  by (induction js) auto

lemma rejectPending_balance:
  "rejectPending msg mc = (mc', outs) \<Longrightarrow>
   mesh_settled i outs + mesh_waiting i mc' = mesh_waiting i mc"
  by (auto simp: rejectPending_def mesh_waiting_def mesh_settled_all)

lemma settle_pending_balance:
  assumes "settle_pending k r mc = (mc', outs)" "mesh_waiting k mc \<le> 1"
  shows "mesh_settled i outs + mesh_waiting i mc' = mesh_waiting i mc"
proof (cases "k \<in> set (mc_pending mc)")
  case True
  then have "count_list (mc_pending mc) k \<noteq> 0" by (simp add: count_list_0_iff)
  with assms(2) have "count_list (mc_pending mc) k = 1" by (simp add: mesh_waiting_def)
  with True assms(1) show ?thesis
    by (auto simp: settle_pending_def mesh_waiting_def count_removeAll)
next
  case False
  with assms(1) show ?thesis by (simp add: settle_pending_def)
qed

lemma count_filter_key:
  "count_list (map fst (filter (\<lambda>(j, m). j \<noteq> k) xs)) i = (if i = k then 0 else count_list (map fst xs) i)"
  by (induction xs) auto

lemma call_signed_balance:
  assumes "call_signed k meth params sig mc = (mc', outs)" "mesh_waiting k mc \<le> 1"
  shows "mesh_settled i outs + mesh_waiting i mc' = mesh_waiting i mc"
proof (cases "map_of (mc_signing mc) k")
  case None
  with assms(1) show ?thesis by (simp add: call_signed_def)
next
  case (Some n)
  then have "k \<in> set (map fst (mc_signing mc))" by (force dest: map_of_SomeD)
  then have "count_list (map fst (mc_signing mc)) k \<noteq> 0" by (simp only: count_list_0_iff) simp
  with assms(2) have "count_list (map fst (mc_signing mc)) k = 1" "count_list (mc_pending mc) k = 0"
    by (simp_all add: mesh_waiting_def)
  with Some assms(1) show ?thesis
    by (cases sig) (auto simp: call_signed_def mesh_waiting_def count_filter_key Let_def)
qed

lemma mesh_waiting_cong:
  "mc_signing mc' = mc_signing mc \<Longrightarrow> mc_pending mc' = mc_pending mc \<Longrightarrow> mesh_waiting i mc' = mesh_waiting i mc"
  by (simp add: mesh_waiting_def)

lemma closing_balance:
  assumes "rejectPending msg mc1 = (mc2, outs)" "mc_signing mc1 = mc_signing mc" "mc_pending mc1 = mc_pending mc"
    "mc_signing mc3 = mc_signing mc2" "mc_pending mc3 = mc_pending mc2"
  shows "mesh_settled i outs + mesh_waiting i mc3 = mesh_waiting i mc"
  using rejectPending_balance [OF assms(1), of i] mesh_waiting_cong [OF assms(2,3)] mesh_waiting_cong [OF assms(4,5)]
  by simp

lemma handleClose_balance:
  assumes "handleClose mc1 = (mc', outs)" "mc_signing mc1 = mc_signing mc" "mc_pending mc1 = mc_pending mc"
  shows "mesh_settled i outs + mesh_waiting i mc' = mesh_waiting i mc"
proof -
  obtain mc2 where rej: "rejectPending ''Hub connection closed'' (mc1\<lparr>mc_socket := None\<rparr>) = (mc2, outs)"
    and rest: "mc_signing mc' = mc_signing mc2" "mc_pending mc' = mc_pending mc2"
    using assms(1) by (auto simp: handleClose_def Let_def split: prod.splits if_splits)
  show ?thesis by (rule closing_balance [OF rej _ _ rest]) (simp_all add: assms)
qed

lemma mesh_close_balance:
  assumes "mesh_close mc = (mc', outs)"
  shows "mesh_settled i outs + mesh_waiting i mc' = mesh_waiting i mc"
proof -
  obtain mc2 o2 where rej: "rejectPending ''Hub connection closed'' (mc\<lparr>mc_socket := None\<rparr>) = (mc2, o2)"
    and rest: "mc_signing mc' = mc_signing mc2" "mc_pending mc' = mc_pending mc2"
    and outs: "mesh_settled i outs = mesh_settled i o2"
    using assms by (auto simp: mesh_close_def Let_def split: prod.splits option.splits)
  show ?thesis unfolding outs by (rule closing_balance [OF rej _ _ rest]) simp_all
qed

lemma mesh_balance:
  assumes "\<And>j. mesh_waiting j mc \<le> 1" "mesh_step na e mc = (mc', outs)"
  shows "mesh_settled i outs + mesh_waiting i mc' = mesh_waiting i mc + count_list (mesh_asked e) i"
proof (cases e)
  case (Me_signed k meth params sig)
  with assms call_signed_balance [of k meth params sig mc mc' outs i] show ?thesis by simp
next
  case (Me_timeout k meth)
  with assms settle_pending_balance [of k _ mc mc' outs i] show ?thesis by simp
next
  case (Me_message m)
  with assms settle_pending_balance [of _ _ mc mc' outs i] show ?thesis
    by (auto simp: handleMessage_def split: option.splits if_splits)
next
  case (Me_socket_closed n)
  with assms handleClose_balance [of "mc\<lparr>mc_open := removeAll n (mc_open mc)\<rparr>" mc' outs mc i] show ?thesis by simp
next
  case Me_close
  with assms mesh_close_balance [of mc mc' outs i] show ?thesis by simp
next
  case (Me_call k)
  with assms show ?thesis by (auto simp: call_begin_def mesh_waiting_def split: option.splits if_splits)
qed (use assms in \<open>auto simp: connect_begin_def connect_end_def Let_def mesh_waiting_def split: if_splits sum.splits\<close>)

interpretation hub_calls: settling "mesh_step na" "\<lambda>_. True" mesh_waiting mesh_settled mesh_asked for na
  by unfold_locales (auto intro: mesh_balance)

section \<open>Properties\<close>

text \<open>C10: each call of the Hub settles exactly once.  However connects, signatures, answers, timeouts
  and closes of old and new sockets interleave, with fresh request ids a call has settled once and
  waits nowhere, or waits once (for its signature or its answer) and has not settled; an answer that
  comes twice, or late, settles nothing.\<close>

theorem hub_calls_settle_once:
  assumes "distinct (concat (map mesh_asked es))" "runs (mesh_step na) es (mesh_client_new identity) = (mc, outs)"
  shows "mesh_settled i outs + mesh_waiting i mc = (if i \<in> set (concat (map mesh_asked es)) then 1 else 0)"
  by (rule hub_calls.settles_once [OF TrueI _ assms]) (simp add: mesh_waiting_def mesh_client_new_def)

theorem hub_calls_settle_once_witness:
  "mesh_settled ''r'' (snd (runs (mesh_step 7) [Me_connect 0, Me_opened 0, Me_call ''r'', Me_signed ''r'' ''m'' JNull (Inr ()),
     Me_socket_closed 0, Me_timeout ''r'' ''m''] (mesh_client_new ''a''))) = 1"
proof -
  let ?es = "[Me_connect 0, Me_opened 0, Me_call ''r'', Me_signed ''r'' ''m'' JNull (Inr ()),
     Me_socket_closed 0, Me_timeout ''r'' ''m'']"
  obtain mc outs where run: "runs (mesh_step 7) ?es (mesh_client_new ''a'') = (mc, outs)"
    by (cases "runs (mesh_step 7) ?es (mesh_client_new ''a'')")
  have "mesh_waiting ''r'' mc = 0"
    using run by (auto simp: Let_def mesh_client_new_def connect_begin_def socket_open_def call_begin_def call_signed_def
      handleClose_def rejectPending_def settle_pending_def mesh_waiting_def split: if_splits)
  with hub_calls_settle_once [OF _ run, of "''r''"] run show ?thesis by simp
qed

text \<open>The close of an old socket detaches a healthy new one.  The close event does not tell which
  socket it is of: when the handshake of a failed connection's close ends after the next connection
  was made, the calls of the new one are rejected, its status is disconnected and every further call
  is refused, although its socket is open.\<close>

theorem stale_close_detaches:
  assumes "mc_socket mc = Some new" "new \<in> set (mc_open mc)" "old \<noteq> new" "ms_state (mc_status mc) = Mesh_connected"
    and "mesh_step na (Me_socket_closed old) mc = (mc', outs)"
  shows "new \<in> set (mc_open mc') \<and> mc_socket mc' = None \<and> ms_state (mc_status mc') = Mesh_disconnected \<and>
    (\<forall>i. mesh_settled i outs = count_list (mc_pending mc) i) \<and>
    (\<forall>i. mesh_step na (Me_call i) mc' = (mc', [Mo_settle i (Inl (PlainError ''Hub WebSocket is not connected''))]))"
  using assms by (auto simp: handleClose_def rejectPending_def call_begin_def mesh_settled_all)

theorem stale_close_detaches_witness:
  "mc_socket (fst (mesh_step 7 (Me_socket_closed 0) (fst (runs (mesh_step 7)
     [Me_connect 0, Me_opened 0, Me_connect_result 0 ''t'' (Inl (PlainError ''x'')), Me_connect 1, Me_opened 1,
      Me_connect_result 1 ''t'' (Inr JNull)] (mesh_client_new ''a''))))) = None"
proof -
  let ?mc = "fst (runs (mesh_step 7)
     [Me_connect 0, Me_opened 0, Me_connect_result 0 ''t'' (Inl (PlainError ''x'')), Me_connect 1, Me_opened 1,
      Me_connect_result 1 ''t'' (Inr JNull)] (mesh_client_new ''a''))"
  have mc: "mc_socket ?mc = Some 1" "(1::nat) \<in> set (mc_open ?mc)" "ms_state (mc_status ?mc) = Mesh_connected"
    by (simp_all add: Let_def mesh_client_new_def connect_begin_def socket_open_def connect_end_def)
  obtain mc' outs where "mesh_step 7 (Me_socket_closed 0) ?mc = (mc', outs)"
    by (cases "mesh_step 7 (Me_socket_closed 0) ?mc")
  from stale_close_detaches [OF mc(1,2) _ mc(3) this] this show ?thesis by simp
qed

end
