(* ===== verification/Driver_Client.thy ===== *)
theory Driver_Client
  imports Ndjson Interfaces
begin

text \<open>
  \<open>src/channel-driver/client.ts\<close>: the client a channel driver connects to its lane with.  A step is
  an event of the socket or a timer, a call of the driver, or the end of a request that the lane
  sent it; a socket is a number.  A call without a connection is refused; any other call makes a
  promise, which \<open>Dv_settle\<close> settles, and \<open>Dv_throw\<close> is a call that throws although its promise exists.  A request of the lane starts the driver's handler (\<open>Dv_handle\<close>),
  whose end (\<open>De_handled\<close>) writes one answer.
\<close>

section \<open>State\<close>

record driver_identity =
  di_laneId :: string
  di_driverInstanceId :: string
  di_provider :: string
  di_accountRef :: string
  di_stagingRoot :: string
  di_capabilities :: "string list"

record driver_client =
  dv_socket :: "nat option"
  dv_destroyed :: "nat list"
  dv_pending :: "string list"

datatype driver_out =
    Dv_open nat
  | Dv_end nat
  | Dv_destroy nat
  | Dv_write nat string
  | Dv_settle string "exn + json"
  | Dv_refuse string exn
  | Dv_throw string exn
  | Dv_handle string string json

definition driver_client_new :: driver_client where
  "driver_client_new = \<lparr>dv_socket = None, dv_destroyed = [], dv_pending = []\<rparr>"

definition live_socket :: "driver_client \<Rightarrow> nat option" where
  "live_socket dv =
     (case dv_socket dv of None \<Rightarrow> None | Some n \<Rightarrow> if n \<in> set (dv_destroyed dv) then None else Some n)"

definition driver_register_params :: "driver_identity \<Rightarrow> json" where
  "driver_register_params d =
     JObj [(''protocol_version'', JStr ''0.1''), (''lane_id'', JStr (di_laneId d)),
       (''driver_instance_id'', JStr (di_driverInstanceId d)), (''provider'', JStr (di_provider d)),
       (''account_ref'', JStr (di_accountRef d)), (''staging_root'', JStr (di_stagingRoot d)),
       (''capabilities'', JArr (map JStr (di_capabilities d)))]"

section \<open>Calls\<close>

definition driver_connect :: "nat \<Rightarrow> driver_client \<Rightarrow> driver_client \<times> driver_out list" where
  "driver_connect n dv =
     (if live_socket dv \<noteq> None then (dv, []) else (dv\<lparr>dv_socket := Some n\<rparr>, [Dv_open n]))"

definition call_json :: "string \<Rightarrow> string \<Rightarrow> json \<Rightarrow> json" where
  "call_json i meth params =
     JObj [(''jsonrpc'', JStr ''2.0''), (''id'', JStr i), (''method'', JStr meth), (''params'', params)]"

text \<open>The request is entered before its frame is encoded: when the frame is too large, \<open>call\<close> throws and
  the entry stays until its timer fires.\<close>

definition driver_call ::
  "json_codec \<Rightarrow> string \<Rightarrow> string \<Rightarrow> json \<Rightarrow> driver_client \<Rightarrow> driver_client \<times> driver_out list"
where
  "driver_call cd i meth params dv =
     (case live_socket dv of
        None \<Rightarrow> (dv, [Dv_refuse i (PlainError ''Lane socket is not connected'')])
      | Some n \<Rightarrow>
          (let dv' = dv\<lparr>dv_pending := dv_pending dv @ [i]\<rparr> in
           case encodeFrame cd MAX_FRAME_BYTES (call_json i meth params) of
             Inl e \<Rightarrow> (dv', [Dv_throw i (FrameError e)])
           | Inr bytes \<Rightarrow> (dv', [Dv_write n bytes])))"

definition driver_settle :: "string \<Rightarrow> exn + json \<Rightarrow> driver_client \<Rightarrow> driver_client \<times> driver_out list" where
  "driver_settle i r dv =
     (if i \<in> set (dv_pending dv) then (dv\<lparr>dv_pending := removeAll i (dv_pending dv)\<rparr>, [Dv_settle i r]) else (dv, []))"

definition disconnect :: "exn \<Rightarrow> driver_client \<Rightarrow> driver_client \<times> driver_out list" where
  "disconnect e dv =
     (dv\<lparr>dv_pending := [],
         dv_socket := (case dv_socket dv of None \<Rightarrow> None
           | Some n \<Rightarrow> if n \<in> set (dv_destroyed dv) then None else Some n)\<rparr>,
      map (\<lambda>i. Dv_settle i (Inl e)) (dv_pending dv))"

definition driver_close :: "driver_client \<Rightarrow> driver_client \<times> driver_out list" where
  "driver_close dv =
     (let (dv', outs) = disconnect (PlainError ''Channel driver closed'') (dv\<lparr>dv_socket := None\<rparr>) in
      (dv', (case dv_socket dv of None \<Rightarrow> [] | Some n \<Rightarrow> [Dv_end n]) @ outs))"

section \<open>Frames of the lane\<close>

definition lane_answer :: "json \<Rightarrow> exn + json" where
  "lane_answer frame =
     (case js_object (jfield frame ''error'') of
        Some err \<Rightarrow>
          Inl (PlainError (case jstr (jfield err ''message'') of Some m \<Rightarrow> m | None \<Rightarrow> ''Lane RPC failed''))
      | None \<Rightarrow> Inr (case jfield frame ''result'' of Some r \<Rightarrow> r | None \<Rightarrow> JNull))"

definition driver_frame :: "json \<Rightarrow> driver_client \<Rightarrow> driver_client \<times> driver_out list" where
  "driver_frame frame dv =
     (case jstr (jfield frame ''id'') of
        None \<Rightarrow> (dv, [])
      | Some i \<Rightarrow>
          (case jstr (jfield frame ''method'') of
             None \<Rightarrow> driver_settle i (lane_answer frame) dv
           | Some meth \<Rightarrow>
               (dv, [Dv_handle i meth (case jrec (jfield frame ''params'') of Some p \<Rightarrow> p | None \<Rightarrow> JObj [])])))"

definition handler_failure :: "string \<Rightarrow> exn \<Rightarrow> json" where
  "handler_failure i e =
     JObj [(''jsonrpc'', JStr ''2.0''), (''id'', JStr i),
       (''error'', JObj [(''code'', JNum (of_int (CHANNEL_ERROR_CODES PROVIDER_FAILED))),
          (''message'', JStr (exn_message e)),
          (''data'', JObj [(''code'', JStr ''CHANNEL_PROVIDER_FAILED''), (''retryable'', JBool True)])])]"

text \<open>The end of the handler: its result, or what the \<open>catch\<close> clause writes.  A result that does not
  fit a frame throws into the same clause; the write of the clause itself is not caught.\<close>

definition driver_handled :: "json_codec \<Rightarrow> string \<Rightarrow> exn + json \<Rightarrow> driver_client \<Rightarrow> driver_out list" where
  "driver_handled cd i r dv =
     (case dv_socket dv of
        None \<Rightarrow> []
      | Some n \<Rightarrow>
          (case sbind r (\<lambda>v. case encodeFrame cd MAX_FRAME_BYTES
                 (JObj [(''jsonrpc'', JStr ''2.0''), (''id'', JStr i), (''result'', v)]) of
               Inl e \<Rightarrow> Inl (FrameError e) | Inr bytes \<Rightarrow> Inr bytes) of
             Inr bytes \<Rightarrow> [Dv_write n bytes]
           | Inl e \<Rightarrow>
               (case encodeFrame cd MAX_FRAME_BYTES (handler_failure i e) of
                  Inr bytes \<Rightarrow> [Dv_write n bytes]
                | Inl e' \<Rightarrow> [])))"

section \<open>Steps\<close>

datatype driver_event =
    De_connect nat
  | De_call string string json
  | De_timeout string string
  | De_write_failed string exn
  | De_frame json
  | De_bad_data nat
  | De_handled string "exn + json"
  | De_destroyed nat
  | De_socket_closed
  | De_socket_error exn
  | De_close

fun driver_step :: "json_codec \<Rightarrow> driver_event \<Rightarrow> driver_client \<Rightarrow> driver_client \<times> driver_out list" where
  "driver_step cd (De_connect n) dv = driver_connect n dv"
| "driver_step cd (De_call i meth params) dv = driver_call cd i meth params dv"
| "driver_step cd (De_timeout i meth) dv = driver_settle i (Inl (PlainError (''Lane RPC timed out: '' @ meth))) dv"
| "driver_step cd (De_write_failed i e) dv = driver_settle i (Inl e) dv"
| "driver_step cd (De_frame frame) dv = driver_frame frame dv"
| "driver_step cd (De_bad_data n) dv = (dv\<lparr>dv_destroyed := n # dv_destroyed dv\<rparr>, [Dv_destroy n])"
| "driver_step cd (De_handled i r) dv = (dv, driver_handled cd i r dv)"
| "driver_step cd (De_destroyed n) dv = (dv\<lparr>dv_destroyed := n # dv_destroyed dv\<rparr>, [])"
| "driver_step cd De_socket_closed dv = disconnect (PlainError ''Lane socket closed'') dv"
| "driver_step cd (De_socket_error e) dv = disconnect e dv"
| "driver_step cd De_close dv = driver_close dv"

section \<open>Every call settles once\<close>

fun driver_asked :: "driver_event \<Rightarrow> string list" where
  "driver_asked (De_call i meth params) = [i]"
| "driver_asked e = []"

definition driver_waiting :: "string \<Rightarrow> driver_client \<Rightarrow> nat" where
  "driver_waiting i dv = count_list (dv_pending dv) i"

definition driver_settled :: "string \<Rightarrow> driver_out list \<Rightarrow> nat" where
  "driver_settled i outs =
     length (filter (\<lambda>x. case x of Dv_settle j r \<Rightarrow> j = i | Dv_refuse j e \<Rightarrow> j = i | _ \<Rightarrow> False) outs)"

lemma driver_settled_simps [simp]:
  "driver_settled i [] = 0" "driver_settled i (xs @ ys) = driver_settled i xs + driver_settled i ys"
  "driver_settled i (Dv_open n # xs) = driver_settled i xs" "driver_settled i (Dv_end n # xs) = driver_settled i xs"
  "driver_settled i (Dv_destroy n # xs) = driver_settled i xs" "driver_settled i (Dv_write n b # xs) = driver_settled i xs"
  "driver_settled i (Dv_throw j e # xs) = driver_settled i xs" "driver_settled i (Dv_handle j m p # xs) = driver_settled i xs"
  "driver_settled i (Dv_settle j r # xs) = (if j = i then 1 else 0) + driver_settled i xs"
  "driver_settled i (Dv_refuse j e # xs) = (if j = i then 1 else 0) + driver_settled i xs"
  by (simp_all add: driver_settled_def)

lemma driver_settled_all: "driver_settled i (map (\<lambda>j. Dv_settle j r) js) = count_list js i"
  by (induction js) auto

lemma driver_settle_balance:
  assumes "driver_settle k r dv = (dv', outs)" "driver_waiting k dv \<le> 1"
  shows "driver_settled i outs + driver_waiting i dv' = driver_waiting i dv"
proof (cases "k \<in> set (dv_pending dv)")
  case True
  then have "count_list (dv_pending dv) k \<noteq> 0" by (simp add: count_list_0_iff)
  with assms(2) have "count_list (dv_pending dv) k = 1" by (simp add: driver_waiting_def)
  with True assms(1) show ?thesis
    by (auto simp: driver_settle_def driver_waiting_def count_removeAll)
next
  case False
  with assms(1) show ?thesis by (simp add: driver_settle_def)
qed

lemma disconnect_balance:
  "disconnect e dv = (dv', outs) \<Longrightarrow> driver_settled i outs + driver_waiting i dv' = driver_waiting i dv"
  by (auto simp: disconnect_def driver_waiting_def driver_settled_all)

lemma driver_handled_settles [simp]: "driver_settled i (driver_handled cd k r dv) = 0"
  by (simp add: driver_handled_def split: option.split sum.split)

lemma driver_balance:
  assumes "\<And>j. driver_waiting j dv \<le> 1" "driver_step cd e dv = (dv', outs)"
  shows "driver_settled i outs + driver_waiting i dv' = driver_waiting i dv + count_list (driver_asked e) i"
proof (cases e)
  case (De_call k meth params)
  with assms show ?thesis
    by (auto simp: driver_call_def driver_waiting_def Let_def split: option.splits sum.splits)
next
  case (De_frame frame)
  with assms driver_settle_balance [of _ _ dv dv' outs i] show ?thesis
    by (auto simp: driver_frame_def split: option.splits)
next
  case De_close
  with assms(2) disconnect_balance [of _ "dv\<lparr>dv_socket := None\<rparr>" _ _ i] show ?thesis
    by (auto simp: driver_close_def Let_def driver_waiting_def split: prod.splits option.splits)
qed (use assms driver_settle_balance [of _ _ dv dv' outs i] disconnect_balance [of _ dv dv' outs i]
  in \<open>auto simp: driver_connect_def driver_waiting_def split: if_splits\<close>)

interpretation driver_calls: settling "driver_step cd" "\<lambda>_. True" driver_waiting driver_settled driver_asked for cd
  by unfold_locales (auto intro: driver_balance)

section \<open>Properties\<close>



text \<open>A call whose frame is too large fails twice.  It throws at once, but its request was already
  entered: nothing is written, the entry stays, and when its timer fires the promise that no one
  awaits is rejected as well, an unhandled rejection.\<close>

theorem oversized_call_fails_twice:
  assumes "live_socket dv = Some n" "i \<notin> set (dv_pending dv)"
    and "encodeFrame cd MAX_FRAME_BYTES (call_json i meth params) = Inl e"
    and "driver_step cd (De_call i meth params) dv = (dv', outs)"
  shows "outs = [Dv_throw i (FrameError e)] \<and>
    snd (driver_step cd (De_timeout i meth) dv') = [Dv_settle i (Inl (PlainError (''Lane RPC timed out: '' @ meth)))]"
  using assms by (auto simp: driver_call_def driver_settle_def)

theorem oversized_call_fails_twice_witness:
  "snd (driver_step (null_codec\<lparr>jc_print := (\<lambda>v. replicate (Suc MAX_FRAME_BYTES) LF)\<rparr>) (De_timeout ''r'' ''m'')
     (fst (driver_step (null_codec\<lparr>jc_print := (\<lambda>v. replicate (Suc MAX_FRAME_BYTES) LF)\<rparr>) (De_call ''r'' ''m'' JNull)
       \<lparr>dv_socket = Some 0, dv_destroyed = [], dv_pending = []\<rparr>))) =
   [Dv_settle ''r'' (Inl (PlainError (''Lane RPC timed out: '' @ ''m'')))]"
proof -
  let ?cd = "null_codec\<lparr>jc_print := (\<lambda>v. replicate (Suc MAX_FRAME_BYTES) LF)\<rparr>"
  let ?dv = "\<lparr>dv_socket = Some 0, dv_destroyed = [], dv_pending = []\<rparr>"
  obtain dv' outs where call: "driver_step ?cd (De_call ''r'' ''m'' JNull) ?dv = (dv', outs)"
    by (cases "driver_step ?cd (De_call ''r'' ''m'' JNull) ?dv")
  have enc: "encodeFrame ?cd MAX_FRAME_BYTES (call_json ''r'' ''m'' JNull) =
      Inl (FrameTooLargeError (Suc MAX_FRAME_BYTES) MAX_FRAME_BYTES)"
    by (simp add: encodeFrame_def Let_def)
  from oversized_call_fails_twice [OF _ _ enc call, of 0] call show ?thesis by (simp add: live_socket_def)
qed

end
