(* ===== verification/Provisioning.thy ===== *)
theory Provisioning
  imports Errors
begin

text \<open>
  \<open>src/hub/provisioning.ts\<close>: the HTTP routes of the Hub that look an agent identity up and register
  one.  An answer of \<open>fetch\<close> is its status, its text and what the text is as JSON, or the exception;
  the schemas of @agent-mesh/contracts and its identity pattern are arguments.
\<close>

record http_response =
  ht_status :: int
  ht_raw :: string
  ht_json :: "json option"

definition http_ok :: "http_response \<Rightarrow> bool" where
  "http_ok r = (200 \<le> ht_status r \<and> ht_status r \<le> 299)"

record identity_key =
  ik_fingerprint :: string
  ik_status :: string

record registered_identity =
  ri_identity :: string
  ri_type :: "string option"
  ri_deleted :: bool
  ri_keyStatus :: "string option"
  ri_keys :: "identity_key list"

section \<open>Lookup\<close>

text \<open>The 404 that means: no such identity.\<close>

definition unregistered_body :: "json \<Rightarrow> bool" where
  "unregistered_body body =
     (jfield body ''ok'' = Some (JBool False) \<and>
      (case jstr (jfield body ''error'') of None \<Rightarrow> False | Some m \<Rightarrow> js_includes m ''is not registered''))"

definition identity_key_of :: "json \<Rightarrow> identity_key option" where
  "identity_key_of k =
     (case (jstr (jfield k ''fingerprint''), jstr (jfield k ''status'')) of
        (Some f, Some s) \<Rightarrow> Some \<lparr>ik_fingerprint = f, ik_status = s\<rparr>
      | _ \<Rightarrow> None)"

definition registered_of :: "string \<Rightarrow> json \<Rightarrow> registered_identity option" where
  "registered_of identity body =
     (case (jfield body ''deleted'', jarr (jfield body ''keys'')) of
        (Some (JBool deleted), Some keys) \<Rightarrow>
          if jfield body ''ok'' = Some (JBool True) \<and> jfield body ''identity'' = Some (JStr identity) \<and>
             list_all (\<lambda>k. identity_key_of k \<noteq> None) keys
          then Some \<lparr>ri_identity = identity, ri_type = jstr (jfield body ''type''), ri_deleted = deleted,
            ri_keyStatus = jstr (jfield body ''key_status''), ri_keys = List.map_filter identity_key_of keys\<rparr>
          else None
      | _ \<Rightarrow> None)"

definition lookupAgentIdentity ::
  "(string \<Rightarrow> bool) \<Rightarrow> string \<Rightarrow> exn + http_response \<Rightarrow> exn + registered_identity option"
where
  "lookupAgentIdentity IDENTITY_RE identity fetched =
     (if \<not> IDENTITY_RE identity then Inl (PlainError (''Invalid Agent Identity: '' @ identity))
      else sbind fetched (\<lambda>response.
        case ht_json response of
          None \<Rightarrow> Inl (PlainError (''Hub identity lookup returned non-JSON HTTP '' @ js_int (ht_status response)))
        | Some body \<Rightarrow>
            if ht_status response = 404
            then (if unregistered_body body then Inr None
              else Inl (PlainError (''Hub identity lookup returned an ambiguous 404: '' @ ht_raw response)))
            else if \<not> http_ok response
            then Inl (PlainError (''Hub identity lookup failed ('' @ js_int (ht_status response) @ ''): '' @ ht_raw response))
            else (case registered_of identity body of
              None \<Rightarrow> Inl (PlainError (''Hub returned an invalid identity lookup response: '' @ ht_raw response))
            | Some r \<Rightarrow> Inr (Some r))))"

text \<open>The registered type of an identity, asked by a signed call; every failure is an absence.  The
  signature is an argument that may fail.\<close>

definition lookupRegisteredType :: "string \<Rightarrow> exn + unit \<Rightarrow> exn + http_response \<Rightarrow> string option" where
  "lookupRegisteredType identity signed fetched =
     (case sbind signed (\<lambda>_. fetched) of
        Inl e \<Rightarrow> None
      | Inr response \<Rightarrow>
          if \<not> http_ok response then None
          else (case Option.bind (ht_json response) (\<lambda>body.
              jarr (Option.bind (jfield body ''result'') (\<lambda>r. jfield r ''agents''))) of
            None \<Rightarrow> None
          | Some agents \<Rightarrow>
              (case List.find (\<lambda>a. jfield a ''id'' = Some (JStr identity)) agents of
                 None \<Rightarrow> None | Some a \<Rightarrow> jstr (jfield a ''type''))))"

definition hubSurfaceVersion :: "exn + http_response \<Rightarrow> rat option" where
  "hubSurfaceVersion fetched =
     (case fetched of
        Inl e \<Rightarrow> None
      | Inr response \<Rightarrow>
          if \<not> http_ok response then None
          else jnum (Option.bind (ht_json response) (\<lambda>body.
            Option.bind (jfield body ''surface'') (\<lambda>s. jfield s ''version''))))"

section \<open>Provisioning\<close>

record provision_request =
  pr_identity :: string
  pr_type :: string
  pr_description :: string
  pr_public_key :: json
  pr_create_only :: bool

definition conflict_of :: "string \<Rightarrow> json \<Rightarrow> exn option" where
  "conflict_of identity body =
     (if jfield body ''identity'' \<noteq> Some (JStr identity) then None
      else case (jstr (jfield body ''code''), jstr (jfield body ''error'')) of
        (Some c, Some m) \<Rightarrow>
          if c = ''IDENTITY_EXISTS'' then Some (AgentIdentityConflictError identity IDENTITY_EXISTS m)
          else if c = ''IDENTITY_DELETED'' then Some (AgentIdentityConflictError identity IDENTITY_DELETED m)
          else None
      | _ \<Rightarrow> None)"

text \<open>\<open>request_errors\<close> and \<open>response_ok\<close> are the two schema checks, \<open>show_json\<close> the text of a JSON value.\<close>

definition provisionAgent ::
  "(provision_request \<Rightarrow> string option) \<Rightarrow> (json \<Rightarrow> bool) \<Rightarrow> (json \<Rightarrow> string) \<Rightarrow> provision_request \<Rightarrow>
   exn + http_response \<Rightarrow> exn + json"
where
  "provisionAgent request_errors response_ok show_json request fetched =
     (case request_errors request of
        Some errors \<Rightarrow> Inl (PlainError (''Invalid provisioning request: '' @ errors))
      | None \<Rightarrow> sbind fetched (\<lambda>response.
        case ht_json response of
          None \<Rightarrow> Inl (PlainError ''Failed to parse JSON'')
        | Some body \<Rightarrow>
            if \<not> http_ok response
            then (case (if ht_status response = 409 then conflict_of (pr_identity request) body else None) of
                Some e \<Rightarrow> Inl e
              | None \<Rightarrow> Inl (PlainError (''Provisioning failed ('' @ js_int (ht_status response) @ ''): '' @ show_json body)))
            else if \<not> response_ok body
            then Inl (PlainError (''Hub returned an invalid provisioning response: '' @ show_json body))
            else Inr body))"

section \<open>What an answer says\<close>

lemma identity_key_of_Some:
  "identity_key_of k = Some x \<Longrightarrow>
   jfield k ''fingerprint'' = Some (JStr (ik_fingerprint x)) \<and> jfield k ''status'' = Some (JStr (ik_status x))"
  by (auto simp: identity_key_of_def json_simps split: option.splits)

lemma registered_of_Some:
  assumes "registered_of identity body = Some r"
  shows "jfield body ''identity'' = Some (JStr identity)" "jfield body ''deleted'' = Some (JBool (ri_deleted r))"
    "\<exists>keys. jfield body ''keys'' = Some (JArr keys) \<and> ri_keys r = List.map_filter identity_key_of keys"
  using assms
  by (auto simp: registered_of_def json_simps split: option.splits json.splits if_splits)

lemma lookup_Inr_Some:
  assumes "lookupAgentIdentity re identity fetched = Inr (Some r)"
  shows "\<exists>response body. fetched = Inr response \<and> http_ok response \<and> ht_json response = Some body \<and>
    registered_of identity body = Some r"
  using assms
  by (auto simp: lookupAgentIdentity_def result_simps split: option.splits if_splits)

lemma lookup_Inr_None:
  assumes "lookupAgentIdentity re identity fetched = Inr None"
  shows "\<exists>response body. fetched = Inr response \<and> ht_status response = 404 \<and> ht_json response = Some body \<and>
    unregistered_body body"
  using assms
  by (auto simp: lookupAgentIdentity_def result_simps split: option.splits if_splits)

end
