(* ===== verification/Lane_Hub.thy ===== *)
theory Lane_Hub
  imports Provisioning Interfaces
begin

text \<open>
  \<open>src/hub/lane-hub-connection.ts\<close>: the loop that keeps a lane connected to the Hub.  One turn of the
  loop is a function of what the key store, the Hub and the socket answer in it (\<open>hub_world\<close>); its
  result tells what it asked of the Hub, how it ended and how long it sleeps.
\<close>

section \<open>State\<close>

datatype hub_state = Hub_stopped | Hub_connecting | Hub_connected | Hub_approval | Hub_retrying | Hub_conflict

record lane_hub_status =
  lh_state :: hub_state
  lh_identity :: string
  lh_fingerprint :: "string option"
  lh_keyStatus :: "string option"
  lh_lastError :: "string option"

record lane_config =
  lc_id :: string
  lc_identity :: string
  lc_agent_type :: string

definition lane_hub_new :: "lane_config \<Rightarrow> lane_hub_status" where
  "lane_hub_new lane =
     \<lparr>lh_state = Hub_stopped, lh_identity = lc_identity lane, lh_fingerprint = None, lh_keyStatus = None,
      lh_lastError = None\<rparr>"

record host_key =
  hk_fingerprint :: string
  hk_publicKey :: json

record hub_contracts =
  hc_IDENTITY_RE :: "string \<Rightarrow> bool"
  hc_request_errors :: "provision_request \<Rightarrow> string option"
  hc_response_ok :: "json \<Rightarrow> bool"
  hc_show :: "json \<Rightarrow> string"

record hub_world =
  hb_ensure :: "exn + host_key"
  hb_lookup :: "exn + http_response"
  hb_provision :: "exn + http_response"
  hb_confirm :: "exn + http_response"
  hb_remember :: "exn + unit"
  hb_connect :: "exn + unit"
  hb_approval :: bool
  hb_aborted :: bool

datatype hub_call = Hub_lookup | Hub_provision provision_request | Hub_confirm | Hub_connect

section \<open>One attempt\<close>

definition conflict :: "string \<Rightarrow> identity_conflict \<Rightarrow> string \<Rightarrow> exn" where
  "conflict identity code msg = AgentIdentityConflictError identity code msg"

definition own_key :: "string \<Rightarrow> registered_identity \<Rightarrow> identity_key option" where
  "own_key fp r = List.find (\<lambda>k. ik_fingerprint k = fp) (ri_keys r)"

text \<open>The status of the host's own key when the identity is registered already.\<close>

definition registered_status :: "lane_config \<Rightarrow> host_key \<Rightarrow> registered_identity \<Rightarrow> exn + string" where
  "registered_status lane key r =
     (if ri_deleted r
      then Inl (conflict (lc_identity lane) IDENTITY_DELETED
        (''Agent Identity is permanently reserved after deletion: '' @ lc_identity lane))
      else case own_key (hk_fingerprint key) r of
        None \<Rightarrow> Inl (conflict (lc_identity lane) IDENTITY_EXISTS
          (''Agent Identity belongs to a different key: '' @ lc_identity lane))
      | Some k \<Rightarrow> Inr (ik_status k))"

definition provision_request_of :: "lane_config \<Rightarrow> host_key \<Rightarrow> provision_request" where
  "provision_request_of lane key =
     \<lparr>pr_identity = lc_identity lane, pr_type = lc_agent_type lane,
      pr_description = ''Agent Mesh lane '' @ lc_id lane, pr_public_key = hk_publicKey key, pr_create_only = True\<rparr>"

definition confirmed_status ::
  "lane_config \<Rightarrow> host_key \<Rightarrow> registered_identity option \<Rightarrow> exn + string"
where
  "confirmed_status lane key confirmed =
     (case Option.bind confirmed (own_key (hk_fingerprint key)) of
        None \<Rightarrow> Inl (conflict (lc_identity lane) IDENTITY_EXISTS
          (''Registration did not record this host's key for '' @ lc_identity lane @
           ''; the key may belong to another identity''))
      | Some k \<Rightarrow> Inr (ik_status k))"

text \<open>From the lookup to the status of the key, with the calls made on the way.\<close>

definition ensure_registered ::
  "hub_contracts \<Rightarrow> lane_config \<Rightarrow> hub_world \<Rightarrow> host_key \<Rightarrow> (exn + string) \<times> hub_call list"
where
  "ensure_registered hc lane w key =
     (case lookupAgentIdentity (hc_IDENTITY_RE hc) (lc_identity lane) (hb_lookup w) of
        Inl e \<Rightarrow> (Inl e, [Hub_lookup])
      | Inr (Some r) \<Rightarrow> (registered_status lane key r, [Hub_lookup])
      | Inr None \<Rightarrow>
          (let request = provision_request_of lane key in
           case provisionAgent (hc_request_errors hc) (hc_response_ok hc) (hc_show hc) request (hb_provision w) of
             Inl e \<Rightarrow> (Inl e, [Hub_lookup, Hub_provision request])
           | Inr _ \<Rightarrow>
               (sbind (lookupAgentIdentity (hc_IDENTITY_RE hc) (lc_identity lane) (hb_confirm w)) (\<lambda>confirmed.
                sbind (confirmed_status lane key confirmed) (\<lambda>status.
                sbind (hb_remember w) (\<lambda>_. Inr status))),
                [Hub_lookup, Hub_provision request, Hub_confirm])))"

text \<open>The body of the \<open>try\<close> up to the watch of the connection.\<close>

definition hub_try ::
  "hub_contracts \<Rightarrow> lane_config \<Rightarrow> hub_world \<Rightarrow> lane_hub_status \<Rightarrow>
   (exn + unit) \<times> lane_hub_status \<times> hub_call list"
where
  "hub_try hc lane w st =
     (let st1 = st\<lparr>lh_state := Hub_connecting, lh_lastError := None\<rparr> in
      case hb_ensure w of
        Inl e \<Rightarrow> (Inl e, st1, [])
      | Inr key \<Rightarrow>
          (let st2 = st1\<lparr>lh_fingerprint := Some (hk_fingerprint key)\<rparr> in
           case ensure_registered hc lane w key of
             (Inl e, calls) \<Rightarrow> (Inl e, st2, calls)
           | (Inr status, calls) \<Rightarrow>
               (let st3 = st2\<lparr>lh_keyStatus := Some status\<rparr> in
                case hb_connect w of
                  Inl e \<Rightarrow> (Inl e, st3, calls @ [Hub_connect])
                | Inr _ \<Rightarrow> (Inr (), st3\<lparr>lh_state := Hub_connected, lh_lastError := None\<rparr>, calls @ [Hub_connect]))))"

section \<open>The loop\<close>

fun conflict_code :: "identity_conflict \<Rightarrow> string" where
  "conflict_code IDENTITY_EXISTS = ''IDENTITY_EXISTS''"
| "conflict_code IDENTITY_DELETED = ''IDENTITY_DELETED''"

text \<open>The \<open>catch\<close> clause: a conflict ends the loop.\<close>

definition hub_failed :: "hub_world \<Rightarrow> exn \<Rightarrow> lane_hub_status \<Rightarrow> bool \<times> lane_hub_status" where
  "hub_failed w e st =
     (case e of
        AgentIdentityConflictError i code msg \<Rightarrow>
          (True, st\<lparr>lh_state := Hub_conflict, lh_lastError := Some (conflict_code code @ '': '' @ msg)\<rparr>)
      | _ \<Rightarrow>
          (False, st\<lparr>lh_state := (if hb_approval w then Hub_approval else Hub_retrying),
             lh_lastError := Some (exn_message e)\<rparr>))"

definition hub_delay :: "nat \<Rightarrow> nat" where
  "hub_delay attempt = min 30000 (1000 * 2 ^ min attempt 5)"

record hub_turn =
  tu_calls :: "hub_call list"
  tu_status :: lane_hub_status
  tu_stop :: bool
  tu_delay :: "nat option"
  tu_attempt :: nat

definition hub_iteration ::
  "hub_contracts \<Rightarrow> lane_config \<Rightarrow> hub_world \<Rightarrow> nat \<Rightarrow> lane_hub_status \<Rightarrow> hub_turn"
where
  "hub_iteration hc lane w attempt st =
     (case hub_try hc lane w st of
        (Inr _, st', calls) \<Rightarrow>
          \<lparr>tu_calls = calls, tu_status = st', tu_stop = hb_aborted w,
           tu_delay = (if hb_aborted w then None else Some (hub_delay 0)),
           tu_attempt = (if hb_aborted w then 0 else 1)\<rparr>
      | (Inl e, st', calls) \<Rightarrow>
          (let (stop, st'') = hub_failed w e st' in
           \<lparr>tu_calls = calls, tu_status = st'', tu_stop = stop \<or> hb_aborted w,
            tu_delay = (if stop \<or> hb_aborted w then None else Some (hub_delay attempt)),
            tu_attempt = (if stop \<or> hb_aborted w then attempt else attempt + 1)\<rparr>))"

fun hub_run ::
  "hub_contracts \<Rightarrow> lane_config \<Rightarrow> hub_world list \<Rightarrow> nat \<Rightarrow> lane_hub_status \<Rightarrow> hub_turn list"
where
  "hub_run hc lane [] attempt st = []"
| "hub_run hc lane (w # ws) attempt st =
     (let t = hub_iteration hc lane w attempt st in
      t # (if tu_stop t then [] else hub_run hc lane ws (tu_attempt t) (tu_status t)))"

section \<open>Who may connect\<close>

text \<open>An answer of the Hub that lists a key for an identity.\<close>

definition lists_key :: "string \<Rightarrow> string \<Rightarrow> http_response \<Rightarrow> bool" where
  "lists_key identity fp response =
     (\<exists>body keys k. ht_json response = Some body \<and> jfield body ''identity'' = Some (JStr identity) \<and>
        jfield body ''keys'' = Some (JArr keys) \<and> k \<in> set keys \<and> jfield k ''fingerprint'' = Some (JStr fp))"

lemma own_key_listed:
  assumes "registered_of identity body = Some r" "own_key fp r = Some k" "ht_json response = Some body"
  shows "lists_key identity fp response"
proof -
  from registered_of_Some [OF assms(1)] obtain keys where
    keys: "jfield body ''keys'' = Some (JArr keys)" "ri_keys r = List.map_filter identity_key_of keys"
      "jfield body ''identity'' = Some (JStr identity)" by blast
  from assms(2) have k: "k \<in> set (ri_keys r)" "ik_fingerprint k = fp"
    by (auto simp: own_key_def find_Some_iff in_set_conv_nth)
  then obtain v where v: "v \<in> set keys" "identity_key_of v = Some k"
    unfolding keys(2) by (auto simp: List.map_filter_def)
  with identity_key_of_Some [OF v(2)] k keys assms(3) show ?thesis
    unfolding lists_key_def by blast
qed

lemma registered_status_Inr:
  "registered_status lane key r = Inr s \<Longrightarrow> \<not> ri_deleted r \<and> (\<exists>k. own_key (hk_fingerprint key) r = Some k)"
  by (auto simp: registered_status_def split: if_splits option.splits)

lemma confirmed_status_Inr:
  "confirmed_status lane key c = Inr s \<Longrightarrow> \<exists>r k. c = Some r \<and> own_key (hk_fingerprint key) r = Some k"
  by (auto simp: confirmed_status_def bind_eq_Some_conv split: option.splits)

text \<open>The host owns the identity in this turn: the Hub lists its key, either on an identity that is
  not deleted or after a registration that only creates.\<close>

definition owns_identity :: "lane_config \<Rightarrow> hub_world \<Rightarrow> bool" where
  "owns_identity lane w =
     (\<exists>key response. hb_ensure w = Inr key \<and> lists_key (lc_identity lane) (hk_fingerprint key) response \<and>
        ((hb_lookup w = Inr response \<and>
          (\<exists>body. ht_json response = Some body \<and> jfield body ''deleted'' = Some (JBool False))) \<or>
         hb_confirm w = Inr response))"

lemma ensure_registered_Inr:
  assumes "ensure_registered hc lane w key = (Inr s, calls)" "hb_ensure w = Inr key"
  shows "owns_identity lane w"
proof (cases "lookupAgentIdentity (hc_IDENTITY_RE hc) (lc_identity lane) (hb_lookup w)")
  case (Inl e)
  with assms show ?thesis by (simp add: ensure_registered_def)
next
  case (Inr found)
  show ?thesis
  proof (cases found)
    case (Some r)
    from lookup_Inr_Some [OF Inr [unfolded Some]] obtain response body where
      body: "hb_lookup w = Inr response" "ht_json response = Some body" "registered_of (lc_identity lane) body = Some r"
      by blast
    from assms(1) Inr Some have "registered_status lane key r = Inr s" by (simp add: ensure_registered_def)
    from registered_status_Inr [OF this] obtain k where k: "\<not> ri_deleted r" "own_key (hk_fingerprint key) r = Some k"
      by blast
    from own_key_listed [OF body(3) k(2) body(2)] registered_of_Some(2) [OF body(3)] k(1) body assms(2)
    show ?thesis unfolding owns_identity_def by auto
  next
    case None
    from assms(1) Inr None obtain confirmed where
      c: "lookupAgentIdentity (hc_IDENTITY_RE hc) (lc_identity lane) (hb_confirm w) = Inr confirmed"
        "\<exists>s. confirmed_status lane key confirmed = Inr s"
      by (auto simp: ensure_registered_def Let_def result_simps split: sum.splits)
    then obtain r k where r: "confirmed = Some r" "own_key (hk_fingerprint key) r = Some k"
      using confirmed_status_Inr by blast
    from lookup_Inr_Some [OF c(1) [unfolded r(1)]] own_key_listed [OF _ r(2)] assms(2)
    show ?thesis unfolding owns_identity_def by blast
  qed
qed

lemma ensure_registered_calls:
  "ensure_registered hc lane w key = (x, calls) \<Longrightarrow>
   Hub_connect \<notin> set calls \<and> (\<forall>r. Hub_provision r \<in> set calls \<longrightarrow> r = provision_request_of lane key)"
  by (auto simp: ensure_registered_def Let_def split: sum.splits option.splits)

lemma hub_try_connect:
  assumes "hub_try hc lane w st = (x, st', calls)" "Hub_connect \<in> set calls"
  shows "owns_identity lane w"
proof -
  from assms obtain key s calls' where key: "hb_ensure w = Inr key"
    "ensure_registered hc lane w key = (Inr s, calls')"
    by (auto simp: hub_try_def Let_def dest!: ensure_registered_calls split: sum.splits prod.splits)
  from ensure_registered_Inr [OF key(2,1)] show ?thesis .
qed

lemma hub_iteration_calls: "tu_calls (hub_iteration hc lane w attempt st) = snd (snd (hub_try hc lane w st))"
  by (auto simp: hub_iteration_def Let_def split: prod.splits sum.splits)

lemma hub_run_iteration:
  "t \<in> set (hub_run hc lane ws attempt st) \<Longrightarrow> \<exists>w\<in>set ws. \<exists>a s. t = hub_iteration hc lane w a s"
  by (induction ws arbitrary: attempt st) (auto simp: Let_def split: if_splits)

section \<open>Delays\<close>

lemma hub_delay_bounds: "1000 \<le> hub_delay n \<and> hub_delay n \<le> 30000"
  by (simp add: hub_delay_def)

lemma hub_iteration_delay:
  assumes "tu_status (hub_iteration hc lane w attempt st) = s" "lh_state s \<noteq> Hub_connected"
    "tu_delay (hub_iteration hc lane w attempt st) = Some d"
  shows "d = hub_delay attempt \<and> tu_attempt (hub_iteration hc lane w attempt st) = Suc attempt \<and>
    lh_state s \<noteq> Hub_conflict"
  using assms
  by (auto simp: hub_iteration_def Let_def hub_failed_def hub_try_def
      split: prod.splits sum.splits if_splits exn.splits)

lemma hub_iteration_stop:
  "tu_stop (hub_iteration hc lane w attempt st) \<longleftrightarrow> tu_delay (hub_iteration hc lane w attempt st) = None"
  by (auto simp: hub_iteration_def Let_def split: prod.splits sum.splits)

definition delay_ok :: "nat \<Rightarrow> bool \<Rightarrow> hub_turn \<Rightarrow> bool" where
  "delay_ok n final t =
     (case tu_delay t of Some d \<Rightarrow> d = hub_delay n \<and> lh_state (tu_status t) \<noteq> Hub_conflict | None \<Rightarrow> final)"

lemma hub_run_delays:
  assumes "\<forall>t\<in>set (hub_run hc lane ws attempt st). lh_state (tu_status t) \<noteq> Hub_connected"
    "k < length (hub_run hc lane ws attempt st)"
  shows "delay_ok (attempt + k) (Suc k = length (hub_run hc lane ws attempt st)) (hub_run hc lane ws attempt st ! k)"
  using assms
proof (induction ws arbitrary: attempt st k)
  case (Cons w ws)
  let ?t = "hub_iteration hc lane w attempt st"
  show ?case
  proof (cases k)
    case 0
    with Cons.prems(1) hub_iteration_delay [OF refl, of hc lane w attempt st] hub_iteration_stop [of hc lane w attempt st]
    show ?thesis by (auto simp: Let_def delay_ok_def split: option.split)
  next
    case (Suc j)
    with Cons.prems(2) have go: "\<not> tu_stop ?t" by (auto simp: Let_def split: if_splits)
    then obtain d where "tu_delay ?t = Some d" using hub_iteration_stop by fastforce
    with hub_iteration_delay [OF refl _ this] Cons.prems(1) have "tu_attempt ?t = Suc attempt"
      by (simp add: Let_def)
    with Cons.IH [of "tu_attempt ?t" "tu_status ?t" j] Cons.prems Suc go show ?thesis
      by (simp add: Let_def)
  qed
qed simp

section \<open>Properties\<close>

text \<open>C23: a lane connects only as an identity that the Hub lists its own key for.  Whatever the Hub
  answers, in every turn of the loop that opens a mesh connection the Hub had listed the host's key
  for the lane's identity, not deleted or just confirmed, and every registration asked for only
  creates: an identity of another key is never taken over.\<close>

theorem hub_connects_as_owner:
  assumes "t \<in> set (hub_run hc lane ws attempt st)"
  shows "(Hub_connect \<in> set (tu_calls t) \<longrightarrow> (\<exists>w\<in>set ws. owns_identity lane w)) \<and>
    (\<forall>r. Hub_provision r \<in> set (tu_calls t) \<longrightarrow> pr_create_only r \<and> pr_identity r = lc_identity lane)"
proof -
  from hub_run_iteration [OF assms] obtain w a s where w: "w \<in> set ws" "t = hub_iteration hc lane w a s" by blast
  obtain x st' calls where att: "hub_try hc lane w s = (x, st', calls)" by (cases "hub_try hc lane w s")
  have calls: "tu_calls t = calls" using w(2) att by (simp add: hub_iteration_calls)
  have "pr_create_only r \<and> pr_identity r = lc_identity lane" if "Hub_provision r \<in> set calls" for r
    using that att ensure_registered_calls [of hc lane w]
    by (fastforce simp: hub_try_def Let_def provision_request_of_def split: sum.splits prod.splits)
  with calls w(1) hub_try_connect [OF att] show ?thesis by blast
qed

text \<open>A lane that cannot connect backs off, and a conflict ends its attempts.  While no turn of
  the loop connects, the k-th sleep is the smaller of thirty seconds and one second doubled k times
  (five times at most), and a turn that does not sleep, as one that met a conflict, is the last.\<close>

theorem hub_backs_off:
  assumes "\<forall>t\<in>set (hub_run hc lane ws 0 st). lh_state (tu_status t) \<noteq> Hub_connected"
    and "k < length (hub_run hc lane ws 0 st)"
  shows "case tu_delay (hub_run hc lane ws 0 st ! k) of
      Some d \<Rightarrow> d = min 30000 (1000 * 2 ^ min k 5) \<and> lh_state (tu_status (hub_run hc lane ws 0 st ! k)) \<noteq> Hub_conflict
    | None \<Rightarrow> Suc k = length (hub_run hc lane ws 0 st)"
  using hub_run_delays [OF assms] by (simp add: delay_ok_def hub_delay_def split: option.splits)

definition sample_hub_world :: hub_world where
  "sample_hub_world =
     \<lparr>hb_ensure = Inr \<lparr>hk_fingerprint = ''fp'', hk_publicKey = JNull\<rparr>, hb_lookup = Inl (PlainError ''down''),
      hb_provision = Inl (PlainError ''down''), hb_confirm = Inl (PlainError ''down''), hb_remember = Inr (),
      hb_connect = Inr (), hb_approval = False, hb_aborted = False\<rparr>"

definition sample_hub_contracts :: hub_contracts where
  "sample_hub_contracts =
     \<lparr>hc_IDENTITY_RE = (\<lambda>_. True), hc_request_errors = (\<lambda>_. None), hc_response_ok = (\<lambda>_. True), hc_show = (\<lambda>_. [])\<rparr>"

definition sample_lane_config :: lane_config where
  "sample_lane_config = \<lparr>lc_id = ''l'', lc_identity = ''agent'', lc_agent_type = ''t''\<rparr>"

text \<open>The Hub's answer that lists the host's key.\<close>

definition sample_listing :: http_response where
  "sample_listing =
     \<lparr>ht_status = 200, ht_raw = [], ht_json = Some (JObj [(''ok'', JBool True), (''identity'', JStr ''agent''),
       (''deleted'', JBool False),
       (''keys'', JArr [JObj [(''fingerprint'', JStr ''fp''), (''status'', JStr ''approved'')]])])\<rparr>"

lemmas sample_hub_defs = sample_hub_world_def sample_hub_contracts_def sample_lane_config_def sample_listing_def
  hub_iteration_def hub_try_def ensure_registered_def lookupAgentIdentity_def registered_of_def identity_key_of_def
  registered_status_def own_key_def hub_failed_def lane_hub_new_def http_ok_def List.map_filter_def Let_def

theorem hub_connects_as_owner_witness:
  "Hub_connect \<in> set (tu_calls (hd (hub_run sample_hub_contracts sample_lane_config
      [sample_hub_world\<lparr>hb_lookup := Inr sample_listing\<rparr>] 0 (lane_hub_new sample_lane_config)))) \<and>
   owns_identity sample_lane_config (sample_hub_world\<lparr>hb_lookup := Inr sample_listing\<rparr>)"
proof -
  let ?w = "sample_hub_world\<lparr>hb_lookup := Inr sample_listing\<rparr>"
  let ?ts = "hub_run sample_hub_contracts sample_lane_config [?w] 0 (lane_hub_new sample_lane_config)"
  have call: "Hub_connect \<in> set (tu_calls (hd ?ts))" by (simp add: sample_hub_defs)
  have "hd ?ts \<in> set ?ts" by (simp add: Let_def)
  from hub_connects_as_owner [OF this] call show ?thesis by auto
qed

theorem hub_backs_off_witness:
  "tu_delay (hub_run sample_hub_contracts sample_lane_config (replicate 3 sample_hub_world) 0
     (lane_hub_new sample_lane_config) ! 2) = Some 4000"
proof -
  let ?ts = "hub_run sample_hub_contracts sample_lane_config (replicate 3 sample_hub_world) 0 (lane_hub_new sample_lane_config)"
  have ts: "\<forall>t\<in>set ?ts. lh_state (tu_status t) \<noteq> Hub_connected" "2 < length ?ts" "tu_delay (?ts ! 2) \<noteq> None"
    by (simp_all add: numeral_3_eq_3 numeral_2_eq_2 sample_hub_defs)
  from hub_backs_off [OF ts(1,2)] ts(3) show ?thesis by auto
qed

end
