(* ===== verification/Config.thy ===== *)
theory Config
  imports Errors
begin

text \<open>
  \<open>src/config/store.ts\<close> and \<open>src/config/types.ts\<close>: the validation of a configuration.  A
  configuration is the JSON value of the file; the checks run in the order of the code, each a
  condition with the message of its exception.  The URL parser and the identity pattern are
  arguments.
\<close>

section \<open>Shapes\<close>

record config_contracts =
  cc_url_protocol :: "string \<Rightarrow> string option"
  cc_IDENTITY_RE :: "string \<Rightarrow> bool"

fun check_all :: "(bool \<times> string) list \<Rightarrow> exn + unit" where
  "check_all [] = Inr ()"
| "check_all ((c, msg) # cs) = (if c then check_all cs else Inl (ConfigValidationError msg))"

definition nonempty_string :: "json \<Rightarrow> string \<Rightarrow> bool" where
  "nonempty_string v k = (case jstr (jfield v k) of Some s \<Rightarrow> s \<noteq> [] | None \<Rightarrow> False)"

definition boolean_field :: "json \<Rightarrow> string \<Rightarrow> bool" where
  "boolean_field v k = (jfield v k = Some (JBool True) \<or> jfield v k = Some (JBool False))"

definition optional_string :: "json \<Rightarrow> string \<Rightarrow> bool" where
  "optional_string v k = (jfield v k = None \<or> jstr (jfield v k) \<noteq> None)"

definition record_field :: "json \<Rightarrow> string \<Rightarrow> bool" where
  "record_field v k = (jrec (jfield v k) \<noteq> None)"

definition field_of :: "json \<Rightarrow> string \<Rightarrow> json" where
  "field_of v k = (case jfield v k of Some x \<Rightarrow> x | None \<Rightarrow> JNull)"

definition str_of :: "json \<Rightarrow> string \<Rightarrow> string" where
  "str_of v k = (case jstr (jfield v k) of Some s \<Rightarrow> s | None \<Rightarrow> [])"

definition arr_of :: "json \<Rightarrow> string \<Rightarrow> json list" where
  "arr_of v k = (case jarr (jfield v k) of Some vs \<Rightarrow> vs | None \<Rightarrow> [])"

text \<open>\<open>/^[a-z0-9][a-z0-9-]*$/\<close>.\<close>

definition kebab_char :: "char \<Rightarrow> bool" where
  "kebab_char c = (c \<in> set ''abcdefghijklmnopqrstuvwxyz0123456789'')"

definition kebab :: "string \<Rightarrow> bool" where
  "kebab s = (case s of [] \<Rightarrow> False | c # cs \<Rightarrow> kebab_char c \<and> list_all (\<lambda>x. kebab_char x \<or> x = CHR ''-'') cs)"

section \<open>URLs\<close>

fun join_or :: "string list \<Rightarrow> string" where
  "join_or [] = []"
| "join_or [p] = p"
| "join_or (p # ps) = p @ '' or '' @ join_or ps"

definition requireUrl :: "config_contracts \<Rightarrow> json option \<Rightarrow> string \<Rightarrow> string list \<Rightarrow> exn + unit" where
  "requireUrl cc v label protocols =
     (case jstr v of
        None \<Rightarrow> Inl (ConfigValidationError (label @ '' must be a non-empty URL''))
      | Some s \<Rightarrow>
          if s = [] then Inl (ConfigValidationError (label @ '' must be a non-empty URL''))
          else (case cc_url_protocol cc s of
            None \<Rightarrow> Inl (ConfigValidationError (label @ '' is not a valid URL''))
          | Some p \<Rightarrow> require (p \<in> set protocols)
              (ConfigValidationError (label @ '' must use '' @ join_or protocols))))"

definition check_hub :: "config_contracts \<Rightarrow> json option \<Rightarrow> exn + unit" where
  "check_hub cc hub =
     (if hub = Some JNull then Inr ()
      else case jrec hub of
        None \<Rightarrow> Inl (ConfigValidationError ''Config hub must be an object or null'')
      | Some h \<Rightarrow>
          sbind (requireUrl cc (jfield h ''base_url'') ''hub.base_url'' [''http:'', ''https:'', ''ws:'', ''wss:'']) (\<lambda>_.
          sbind (if jfield h ''rpc_ws'' = None then Inr ()
                 else requireUrl cc (jfield h ''rpc_ws'') ''hub.rpc_ws'' [''ws:'', ''wss:'']) (\<lambda>_.
          if jfield h ''api_http'' = None then Inr ()
          else requireUrl cc (jfield h ''api_http'') ''hub.api_http'' [''http:'', ''https:''])))"

section \<open>Lanes and channels\<close>

definition retired_ids :: "json \<Rightarrow> json" where
  "retired_ids v = (case jfield v ''retired_channel_ids'' of None \<Rightarrow> JArr [] | Some JNull \<Rightarrow> JArr [] | Some x \<Rightarrow> x)"

definition retired_ok :: "json \<Rightarrow> bool" where
  "retired_ok r =
     (case r of
        JArr ids \<Rightarrow> list_all (\<lambda>x. case x of JStr s \<Rightarrow> kebab s | _ \<Rightarrow> False) ids \<and> distinct ids
      | _ \<Rightarrow> False)"

definition retired_list :: "json \<Rightarrow> string list" where
  "retired_list r = (case r of JArr ids \<Rightarrow> List.map_filter (\<lambda>x. jstr (Some x)) ids | _ \<Rightarrow> [])"

definition channel_checks :: "string list \<Rightarrow> string \<Rightarrow> string list \<Rightarrow> json \<Rightarrow> (bool \<times> string) list" where
  "channel_checks retired laneId seen ch =
     (let i = str_of ch ''id'' in
      [(is_record ch \<and> nonempty_string ch ''id'', ''Lane '' @ laneId @ '' has an invalid channel''),
       (i \<notin> set seen, ''driver_instance_id must be globally unique: '' @ i),
       (i \<notin> set retired, ''Retired driver_instance_id cannot be reused: '' @ i),
       (kebab i, ''Channel ID should use lowercase kebab-case: '' @ i),
       (nonempty_string ch ''provider'' \<and> boolean_field ch ''enabled'' \<and> nonempty_string ch ''account_ref'' \<and>
        nonempty_string ch ''secret_ref'' \<and> record_field ch ''options'',
        ''Lane '' @ laneId @ '' channel '' @ i @ '' is incomplete'')])"

fun validate_channels :: "string list \<Rightarrow> string \<Rightarrow> string list \<Rightarrow> json list \<Rightarrow> exn + string list" where
  "validate_channels retired laneId seen [] = Inr seen"
| "validate_channels retired laneId seen (ch # chs) =
     sbind (check_all (channel_checks retired laneId seen ch)) (\<lambda>_.
     validate_channels retired laneId (str_of ch ''id'' # seen) chs)"

definition timeout_ok :: "json \<Rightarrow> bool" where
  "timeout_ok rt =
     (case jnum (jfield rt ''timeout_seconds'') of
        Some q \<Rightarrow> safe_integer q \<and> 1 \<le> q \<and> q \<le> 86400 | None \<Rightarrow> False)"

definition runtime_checks :: "string \<Rightarrow> json \<Rightarrow> (bool \<times> string) list" where
  "runtime_checks i rt =
     (let sec = field_of rt ''security''; profile = jfield sec ''profile'' in
      [(jfield rt ''kind'' \<in> {Some (JStr ''claude''), Some (JStr ''codex''), Some (JStr ''antigravity'')},
        ''Lane '' @ i @ '' has unsupported runtime kind''),
       (nonempty_string rt ''workspace'', ''Lane '' @ i @ '' requires runtime workspace''),
       (optional_string rt ''command'', ''Lane '' @ i @ '' runtime command must be a string''),
       (optional_string rt ''model'', ''Lane '' @ i @ '' runtime model must be a string''),
       (jfield rt ''reply_mode'' = Some (JStr ''auto'') \<and> timeout_ok rt,
        ''Lane '' @ i @ '' runtime requires reply_mode=auto and timeout_seconds 1..86400''),
       (record_field rt ''security'', ''Lane '' @ i @ '' requires runtime security policy''),
       (profile \<in> {Some (JStr ''sandboxed''), Some (JStr ''workspace''), Some (JStr ''unrestricted'')},
        ''Lane '' @ i @ '' has an invalid security profile''),
       (boolean_field sec ''acknowledged_risk'', ''Lane '' @ i @ '' acknowledged_risk must be boolean''),
       (\<not> (profile = Some (JStr ''unrestricted'') \<and> jfield sec ''acknowledged_risk'' \<noteq> Some (JBool True)),
        ''Lane '' @ i @ '' unrestricted security requires acknowledged_risk=true'')])"

definition lane_checks :: "config_contracts \<Rightarrow> string list \<Rightarrow> string list \<Rightarrow> json \<Rightarrow> (bool \<times> string) list" where
  "lane_checks cc laneIds identities lane =
     (let i = str_of lane ''id''; identity = str_of lane ''identity'' in
      [(is_record lane \<and> nonempty_string lane ''id'', ''Every lane requires a non-empty id''),
       (i \<notin> set laneIds, ''Duplicate lane: '' @ i),
       (kebab i, ''Lane ID should use lowercase kebab-case: '' @ i),
       (jstr (jfield lane ''identity'') \<noteq> None \<and> cc_IDENTITY_RE cc identity,
        ''Lane '' @ i @ '' has an invalid case-sensitive identity''),
       (identity \<notin> set identities, ''Identity is assigned to multiple lanes: '' @ identity),
       (nonempty_string lane ''agent_type'', ''Lane '' @ i @ '' requires agent_type''),
       (boolean_field lane ''enabled'', ''Lane '' @ i @ '' enabled must be boolean''),
       (record_field lane ''runtime'', ''Lane '' @ i @ '' requires runtime config'')] @
      runtime_checks i (field_of lane ''runtime'') @
      [(jarr (jfield lane ''channels'') \<noteq> None, ''Lane '' @ i @ '' channels must be an array'')])"

fun validate_lanes ::
  "config_contracts \<Rightarrow> string list \<Rightarrow> string list \<Rightarrow> string list \<Rightarrow> string list \<Rightarrow> json list \<Rightarrow> exn + unit"
where
  "validate_lanes cc retired laneIds identities channelIds [] = Inr ()"
| "validate_lanes cc retired laneIds identities channelIds (lane # lanes) =
     sbind (check_all (lane_checks cc laneIds identities lane)) (\<lambda>_.
     sbind (validate_channels retired (str_of lane ''id'') channelIds (arr_of lane ''channels'')) (\<lambda>channelIds'.
     validate_lanes cc retired (str_of lane ''id'' # laneIds) (str_of lane ''identity'' # identities) channelIds' lanes))"

definition revision_ok :: "json \<Rightarrow> bool" where
  "revision_ok v = (case jnum (jfield v ''revision'') of Some q \<Rightarrow> safe_integer q \<and> 0 \<le> q | None \<Rightarrow> False)"

definition validateConfig :: "config_contracts \<Rightarrow> json \<Rightarrow> exn + json" where
  "validateConfig cc v =
     sbind (check_all
       [(is_record v \<and> jfield v ''schema_version'' = Some (JNum 1), ''Unsupported or missing config schema_version''),
        (revision_ok v, ''Config revision must be a non-negative integer''),
        (jarr (jfield v ''lanes'') \<noteq> None, ''Config lanes must be an array''),
        (retired_ok (retired_ids v), ''retired_channel_ids must contain unique kebab-case IDs'')]) (\<lambda>_.
     sbind (check_hub cc (jfield v ''hub'')) (\<lambda>_.
     sbind (validate_lanes cc (retired_list (retired_ids v)) [] [] [] (arr_of v ''lanes'')) (\<lambda>_.
     Inr v)))"

definition emptyConfig :: json where
  "emptyConfig =
     JObj [(''schema_version'', JNum 1), (''revision'', JNum 0), (''hub'', JNull), (''lanes'', JArr []),
       (''retired_channel_ids'', JArr [])]"

section \<open>What a valid configuration is\<close>

text \<open>The same without an order of checks and without the sets the loops carry along.\<close>

definition channel_ok :: "json \<Rightarrow> bool" where
  "channel_ok ch =
     (is_record ch \<and> kebab (str_of ch ''id'') \<and> nonempty_string ch ''id'' \<and> nonempty_string ch ''provider'' \<and>
      boolean_field ch ''enabled'' \<and> nonempty_string ch ''account_ref'' \<and> nonempty_string ch ''secret_ref'' \<and>
      record_field ch ''options'')"

definition lane_ok :: "config_contracts \<Rightarrow> json \<Rightarrow> bool" where
  "lane_ok cc lane =
     (is_record lane \<and> nonempty_string lane ''id'' \<and> kebab (str_of lane ''id'') \<and>
      jstr (jfield lane ''identity'') \<noteq> None \<and> cc_IDENTITY_RE cc (str_of lane ''identity'') \<and>
      nonempty_string lane ''agent_type'' \<and> boolean_field lane ''enabled'' \<and> record_field lane ''runtime'' \<and>
      list_all fst (runtime_checks [] (field_of lane ''runtime'')) \<and> jarr (jfield lane ''channels'') \<noteq> None \<and>
      list_all channel_ok (arr_of lane ''channels''))"

definition channel_ids :: "json list \<Rightarrow> string list" where
  "channel_ids lanes = concat (map (\<lambda>l. map (\<lambda>c. str_of c ''id'') (arr_of l ''channels'')) lanes)"

definition config_ok :: "config_contracts \<Rightarrow> json \<Rightarrow> bool" where
  "config_ok cc v =
     (let lanes = arr_of v ''lanes'' in
      is_record v \<and> jfield v ''schema_version'' = Some (JNum 1) \<and> revision_ok v \<and>
      jarr (jfield v ''lanes'') \<noteq> None \<and> retired_ok (retired_ids v) \<and> check_hub cc (jfield v ''hub'') = Inr () \<and>
      list_all (lane_ok cc) lanes \<and> distinct (map (\<lambda>l. str_of l ''id'') lanes) \<and>
      distinct (map (\<lambda>l. str_of l ''identity'') lanes) \<and> distinct (channel_ids lanes) \<and>
      set (channel_ids lanes) \<inter> set (retired_list (retired_ids v)) = {})"

lemma check_all_Inr [result_simps]: "check_all cs = Inr u \<longleftrightarrow> list_all fst cs"
  by (induction cs rule: check_all.induct) auto

lemma check_all_Inl: "check_all cs = Inl e \<Longrightarrow> \<exists>c\<in>set cs. \<not> fst c \<and> e = ConfigValidationError (snd c)"
  by (induction cs rule: check_all.induct) (auto split: if_splits)

lemma runtime_checks_any: "list_all fst (runtime_checks i rt) = list_all fst (runtime_checks [] rt)"
  by (simp add: runtime_checks_def Let_def)

lemma channel_checks_ok:
  "list_all fst (channel_checks retired i seen ch) \<longleftrightarrow>
   channel_ok ch \<and> str_of ch ''id'' \<notin> set seen \<and> str_of ch ''id'' \<notin> set retired"
  by (auto simp: channel_checks_def channel_ok_def Let_def)

text \<open>The ids of a list are new: distinct, and none of them seen before.\<close>

definition new_ids :: "string set \<Rightarrow> string list \<Rightarrow> bool" where
  "new_ids seen ids = (distinct ids \<and> set ids \<inter> seen = {})"

lemma new_ids_Nil [simp]: "new_ids seen []"
  by (simp add: new_ids_def)

lemma new_ids_Cons: "new_ids seen (i # ids) \<longleftrightarrow> i \<notin> seen \<and> new_ids (insert i seen) ids"
  by (auto simp: new_ids_def)

lemma new_ids_append: "new_ids seen (xs @ ys) \<longleftrightarrow> new_ids seen xs \<and> new_ids (set xs \<union> seen) ys"
  by (auto simp: new_ids_def)

definition ids_of :: "json list \<Rightarrow> string list" where
  "ids_of = map (\<lambda>c. str_of c ''id'')"

lemma ids_of_simps [simp]: "ids_of [] = []" "ids_of (c # cs) = str_of c ''id'' # ids_of cs"
  by (simp_all add: ids_of_def)

lemma validate_channels_Inr:
  "validate_channels retired i seen chs = Inr seen' \<longleftrightarrow>
   list_all channel_ok chs \<and> new_ids (set seen \<union> set retired) (ids_of chs) \<and> seen' = rev (ids_of chs) @ seen"
  by (induction chs arbitrary: seen seen') (auto simp: result_simps channel_checks_ok new_ids_Cons)

lemma lane_checks_ok:
  "list_all fst (lane_checks cc laneIds identities lane) \<and> list_all channel_ok (arr_of lane ''channels'') \<longleftrightarrow>
   lane_ok cc lane \<and> str_of lane ''id'' \<notin> set laneIds \<and> str_of lane ''identity'' \<notin> set identities"
  using runtime_checks_any [of "str_of lane ''id''"] by (auto simp: lane_checks_def lane_ok_def Let_def)

definition lanes_fresh ::
  "config_contracts \<Rightarrow> string list \<Rightarrow> string list \<Rightarrow> string list \<Rightarrow> string list \<Rightarrow> json list \<Rightarrow> bool"
where
  "lanes_fresh cc retired laneIds identities channelIds lanes =
     (list_all (lane_ok cc) lanes \<and> new_ids (set laneIds) (ids_of lanes) \<and>
      new_ids (set identities) (map (\<lambda>l. str_of l ''identity'') lanes) \<and>
      new_ids (set channelIds \<union> set retired) (channel_ids lanes))"

lemma lanes_fresh_Cons:
  "lanes_fresh cc retired laneIds identities channelIds (lane # lanes) \<longleftrightarrow>
   lane_ok cc lane \<and> str_of lane ''id'' \<notin> set laneIds \<and> str_of lane ''identity'' \<notin> set identities \<and>
   new_ids (set channelIds \<union> set retired) (ids_of (arr_of lane ''channels'')) \<and>
   lanes_fresh cc retired (str_of lane ''id'' # laneIds) (str_of lane ''identity'' # identities)
     (rev (ids_of (arr_of lane ''channels'')) @ channelIds) lanes"
  by (simp add: lanes_fresh_def channel_ids_def new_ids_Cons new_ids_append ids_of_def Un_assoc) blast

lemma validate_lanes_Inr:
  "validate_lanes cc retired laneIds identities channelIds lanes = Inr () \<longleftrightarrow>
   lanes_fresh cc retired laneIds identities channelIds lanes"
proof (induction lanes arbitrary: laneIds identities channelIds)
  case Nil
  then show ?case by (simp add: lanes_fresh_def channel_ids_def ids_of_def)
next
  case (Cons lane lanes)
  have "lane_ok cc lane \<Longrightarrow> list_all channel_ok (arr_of lane ''channels'')" by (simp add: lane_ok_def)
  then show ?case
    using lane_checks_ok [of cc laneIds identities lane]
    by (auto simp: result_simps validate_channels_Inr Cons.IH lanes_fresh_Cons)
qed

lemma validateConfig_Inr: "validateConfig cc v = Inr w \<longleftrightarrow> w = v \<and> config_ok cc v"
proof -
  have "check_hub cc (jfield v ''hub'') = Inr u \<longleftrightarrow> check_hub cc (jfield v ''hub'') = Inr ()" for u by simp
  then show ?thesis
    by (auto simp: validateConfig_def result_simps validate_lanes_Inr config_ok_def Let_def lanes_fresh_def
        new_ids_def ids_of_def)
qed

lemma requireUrl_Inl: "requireUrl cc v label ps = Inl e \<Longrightarrow> \<exists>m. e = ConfigValidationError m"
  by (auto simp: requireUrl_def result_simps split: option.splits if_splits)

lemma check_hub_Inl: "check_hub cc v = Inl e \<Longrightarrow> \<exists>m. e = ConfigValidationError m"
  by (auto simp: check_hub_def result_simps dest: requireUrl_Inl split: option.splits if_splits)

lemma validate_channels_Inl:
  "validate_channels retired i seen chs = Inl e \<Longrightarrow> \<exists>m. e = ConfigValidationError m"
  by (induction chs arbitrary: seen) (auto simp: result_simps dest: check_all_Inl)

lemma validate_lanes_Inl:
  "validate_lanes cc retired laneIds identities channelIds lanes = Inl e \<Longrightarrow> \<exists>m. e = ConfigValidationError m"
  by (induction lanes arbitrary: laneIds identities channelIds)
    (auto simp: result_simps dest: check_all_Inl validate_channels_Inl)

section \<open>Properties\<close>

text \<open>C24: exactly the valid configurations are accepted, unchanged.  The validation, which walks the
  lanes and channels with sets of the ids it has seen, returns its argument when the configuration
  is valid as a whole: every lane and channel complete, lane ids, identities and channel ids unique
  over all lanes, no retired channel id reused; else it throws a \<open>ConfigValidationError\<close>.\<close>

theorem validateConfig_correct:
  "if config_ok cc v then validateConfig cc v = Inr v
   else \<exists>msg. validateConfig cc v = Inl (ConfigValidationError msg)"
proof (cases "validateConfig cc v")
  case (Inr w)
  with validateConfig_Inr [of cc v w] show ?thesis by simp
next
  case (Inl e)
  moreover have "\<not> config_ok cc v" using Inl validateConfig_Inr [of cc v v] by auto
  moreover have "\<exists>m. e = ConfigValidationError m"
    using Inl by (auto simp: validateConfig_def result_simps simp del: check_all.simps
      dest: check_all_Inl check_hub_Inl validate_lanes_Inl)
  ultimately show ?thesis by auto
qed

end
