(* ===== verification/Config_Store.thy ===== *)
theory Config_Store
  imports Config
begin

text \<open>
  \<open>ConfigStore\<close> of \<open>src/config/store.ts\<close>: the configuration file, its load and its save through a
  temporary file.  \<open>parse\<close> and \<open>print\<close> stand for \<open>JSON.parse\<close> and \<open>JSON.stringify\<close>; a fault tells at
  which call of the file system the save stops, by an exception or because the process died, and a
  failed write may leave any prefix of the text.
\<close>

record config_files =
  cf_config :: "string option"
  cf_tmp :: "string option"

definition config_load :: "config_contracts \<Rightarrow> (string \<Rightarrow> json option) \<Rightarrow> config_files \<Rightarrow> exn + json" where
  "config_load cc parse files =
     (case cf_config files of
        None \<Rightarrow> Inr emptyConfig
      | Some t \<Rightarrow>
          (case parse t of
             None \<Rightarrow> Inl (ConfigValidationError ''Config is not valid JSON-compatible YAML: '')
           | Some v \<Rightarrow> validateConfig cc v))"

definition next_revision :: "json \<Rightarrow> json" where
  "next_revision v =
     (case v of
        JObj fs \<Rightarrow> JObj (AList.update ''revision'' (JNum (the (jnum (jfield v ''revision'')) + 1)) fs)
      | _ \<Rightarrow> v)"

definition config_text :: "(json \<Rightarrow> string) \<Rightarrow> json \<Rightarrow> string" where
  "config_text print v = print v @ [CHR 0x0A]"

text \<open>\<open>cf_tmp\<close> is the temporary file of this process, whose name holds the process id; it is opened with the flag that refuses an existing one.\<close>

definition config_save ::
  "config_contracts \<Rightarrow> (json \<Rightarrow> string) \<Rightarrow> save_fault option \<Rightarrow> json \<Rightarrow> config_files \<Rightarrow> (exn + json) \<times> config_files"
where
  "config_save cc print fault config files =
     (case validateConfig cc config of
        Inl e \<Rightarrow> (Inl e, files)
      | Inr validated \<Rightarrow>
          (let nxt = next_revision validated; bytes = config_text print nxt in
           if fault = Some Fault_mkdir then (Inl (PlainError ''I/O error''), files)
           else if cf_tmp files \<noteq> None then (Inl (PlainError ''EEXIST: file already exists''), files)
           else if fault = Some Fault_open then (Inl (PlainError ''I/O error''), files)
           else (case fault of
             Some (Fault_write n) \<Rightarrow> (Inl (PlainError ''I/O error''), files\<lparr>cf_tmp := Some (take n bytes)\<rparr>)
           | Some Fault_rename \<Rightarrow> (Inl (PlainError ''I/O error''), files\<lparr>cf_tmp := Some bytes\<rparr>)
           | Some Fault_finish \<Rightarrow> (Inl (PlainError ''I/O error''), files\<lparr>cf_config := Some bytes, cf_tmp := None\<rparr>)
           | _ \<Rightarrow> (Inr nxt, files\<lparr>cf_config := Some bytes, cf_tmp := None\<rparr>))))"

section \<open>The next revision\<close>

lemma next_revision_fields:
  assumes "is_record v"
  shows "is_record (next_revision v)"
    "jfield (next_revision v) k = (if k = ''revision'' then Some (JNum (the (jnum (jfield v ''revision'')) + 1)) else jfield v k)"
proof -
  from assms obtain fs where "v = JObj fs" by (auto simp: is_record_iff)
  then show "is_record (next_revision v)"
    "jfield (next_revision v) k = (if k = ''revision'' then Some (JNum (the (jnum (jfield v ''revision'')) + 1)) else jfield v k)"
    by (simp_all add: next_revision_def)
qed

lemma config_ok_record: "config_ok cc v \<Longrightarrow> is_record v"
  by (simp add: config_ok_def Let_def)

definition revision_of :: "json \<Rightarrow> rat" where
  "revision_of v = (case jnum (jfield v ''revision'') of Some q \<Rightarrow> q | None \<Rightarrow> 0)"

lemma safe_integer_Suc:
  assumes "safe_integer q" "0 \<le> q" "q < of_int max_safe_integer"
  shows "safe_integer (q + 1)"
proof -
  from assms(1) have q: "q = of_int \<lfloor>q\<rfloor>" by (simp add: safe_integer_def)
  with assms(2,3) have "0 \<le> \<lfloor>q\<rfloor>" "\<lfloor>q\<rfloor> < max_safe_integer"
    by (simp_all add: floor_less_iff)
  with q show ?thesis
    by (simp add: safe_integer_def)
qed

lemma next_revision_ok:
  assumes "config_ok cc v" "revision_of v < of_int max_safe_integer"
  shows "config_ok cc (next_revision v)"
proof -
  note f = next_revision_fields [OF config_ok_record [OF assms(1)]]
  from assms(1) have r: "revision_ok v" by (simp add: config_ok_def Let_def)
  then obtain q where q: "jnum (jfield v ''revision'') = Some q" "safe_integer q" "0 \<le> q"
    by (auto simp: revision_ok_def split: option.splits)
  with assms(2) have "safe_integer (q + 1)" by (intro safe_integer_Suc) (simp_all add: revision_of_def)
  with q have rev': "revision_ok (next_revision v)" by (simp add: revision_ok_def f(2))
  have "retired_ids (next_revision v) = retired_ids v" "arr_of (next_revision v) ''lanes'' = arr_of v ''lanes''"
    by (simp_all add: retired_ids_def arr_of_def f(2))
  with assms(1) rev' show ?thesis by (simp add: config_ok_def Let_def f)
qed

lemma config_save_cases:
  assumes "config_save cc print fault config files = (r, files')" "config_ok cc config"
  shows "cf_config files' = cf_config files \<or> cf_config files' = Some (config_text print (next_revision config))"
    "r = Inr v \<Longrightarrow> v = next_revision config \<and> cf_config files' = Some (config_text print (next_revision config))"
  using assms validateConfig_Inr [of cc config config]
  by (auto simp: config_save_def Let_def split: if_splits option.splits save_fault.splits)

section \<open>Properties\<close>

text \<open>C25: a save is all or nothing.  Wherever it fails or the process dies, a load afterwards gives
  what it gave before the save or the saved configuration with the next revision, which is valid
  again; and a save that returns is read back.  The bound is the largest safe integer: the
  configuration after it would be refused by every load.\<close>

theorem config_save_atomic:
  assumes "config_ok cc config" "revision_of config < of_int max_safe_integer"
    and "parse (config_text print (next_revision config)) = Some (next_revision config)"
    and "config_save cc print fault config files = (r, files')"
  shows "config_load cc parse files' \<in> {config_load cc parse files, Inr (next_revision config)} \<and>
    (\<forall>v. r = Inr v \<longrightarrow> config_load cc parse files' = Inr v \<and> revision_of v = revision_of config + 1)"
proof -
  note ok = next_revision_ok [OF assms(1,2)]
  have saved: "config_load cc parse files' = Inr (next_revision config)"
    if "cf_config files' = Some (config_text print (next_revision config))"
    using that assms(3) validateConfig_Inr [of cc "next_revision config"] ok by (simp add: config_load_def)
  have rev: "revision_of (next_revision config) = revision_of config + 1"
  proof -
    from assms(1) have "jnum (jfield config ''revision'') \<noteq> None"
      by (auto simp: config_ok_def Let_def revision_ok_def split: option.splits)
    then show ?thesis
      using next_revision_fields(2) [OF config_ok_record [OF assms(1)], of "''revision''"]
      by (auto simp: revision_of_def)
  qed
  show ?thesis
    using config_save_cases(1) [OF assms(4,1)] config_save_cases(2) [OF assms(4,1)] saved rev
    by (auto simp: config_load_def)
qed

text \<open>One failed write blocks every later save of the process.  The failed save leaves its
  temporary file, whose name is the same for the life of the process, and every later save, of
  whatever valid configuration, is refused with the file's existence and changes nothing.\<close>

theorem failed_write_blocks_saves:
  assumes "config_ok cc config" "config_save cc print (Some (Fault_write n)) config files = (r, files')"
    and "config_ok cc config'" "fault \<noteq> Some Fault_mkdir"
  shows "config_save cc print fault config' files' = (Inl (PlainError ''EEXIST: file already exists''), files')"
  using assms validateConfig_Inr [of cc config config] validateConfig_Inr [of cc config' config']
  by (auto simp: config_save_def Let_def split: if_splits)

definition sample_config_contracts :: config_contracts where
  "sample_config_contracts = \<lparr>cc_url_protocol = (\<lambda>s. Some ''http:''), cc_IDENTITY_RE = (\<lambda>s. True)\<rparr>"

lemma emptyConfig_ok: "config_ok cc emptyConfig"
  by (simp add: config_ok_def emptyConfig_def arr_of_def retired_ids_def retired_ok_def revision_ok_def check_hub_def
      safe_integer_def max_safe_integer_def channel_ids_def Let_def)

theorem config_save_atomic_witness:
  "fst (config_save sample_config_contracts (\<lambda>v. ''t'') None emptyConfig \<lparr>cf_config = None, cf_tmp = None\<rparr>) =
     Inr (next_revision emptyConfig) \<and>
   config_load sample_config_contracts (\<lambda>t. Some (next_revision emptyConfig))
     (snd (config_save sample_config_contracts (\<lambda>v. ''t'') None emptyConfig \<lparr>cf_config = None, cf_tmp = None\<rparr>)) =
     Inr (next_revision emptyConfig)"
proof -
  let ?save = "config_save sample_config_contracts (\<lambda>v. ''t'') None emptyConfig \<lparr>cf_config = None, cf_tmp = None\<rparr>"
  have r: "fst ?save = Inr (next_revision emptyConfig)"
    using validateConfig_Inr [of sample_config_contracts emptyConfig emptyConfig] emptyConfig_ok
    by (simp add: config_save_def Let_def)
  then obtain files' where save: "?save = (Inr (next_revision emptyConfig), files')" by (cases ?save) auto
  have small: "revision_of emptyConfig < of_int max_safe_integer"
    by (simp add: revision_of_def emptyConfig_def max_safe_integer_def)
  from config_save_atomic [OF emptyConfig_ok small _ save, of "\<lambda>t. Some (next_revision emptyConfig)"] save r
  show ?thesis by simp
qed

theorem failed_write_blocks_saves_witness:
  "fst (config_save sample_config_contracts (\<lambda>v. ''t'') None emptyConfig
     (snd (config_save sample_config_contracts (\<lambda>v. ''t'') (Some (Fault_write 0)) emptyConfig
       \<lparr>cf_config = None, cf_tmp = None\<rparr>))) = Inl (PlainError ''EEXIST: file already exists'')"
proof -
  let ?save = "config_save sample_config_contracts (\<lambda>v. ''t'') (Some (Fault_write 0)) emptyConfig
    \<lparr>cf_config = None, cf_tmp = None\<rparr>"
  obtain r files' where save: "?save = (r, files')" by (cases ?save)
  from failed_write_blocks_saves [OF emptyConfig_ok save emptyConfig_ok, of None] save show ?thesis by simp
qed

end
