(* ===== verification/Supervisor.thy ===== *)
theory Supervisor
  imports Errors Interfaces
begin

text \<open>
  \<open>src/channel-driver/supervisor.ts\<close>: the supervisor of a channel's driver process.  A step is a call
  of the daemon, the exit of a child, or the callback of its exit promise; a child is a number.  The
  clock is an argument; the command line is left out.
\<close>

section \<open>State\<close>

datatype process_state = Proc_starting | Proc_running | Proc_stopped | Proc_failed | Proc_unsupported

record channel_process_status =
  ps_state :: process_state
  ps_provider :: string
  ps_pid :: "nat option"
  ps_lastError :: "string option"

record channel_supervisor =
  cs_enabled :: bool
  cs_provider :: string
  cs_child :: "nat option"
  cs_exits :: "(nat \<times> int) list"
  cs_status :: channel_process_status
  cs_stopping :: bool
  cs_restartAttempt :: nat
  cs_nextStartAt :: rat
  cs_startedAt :: int

datatype supervisor_out = So_spawn nat | So_kill nat

definition supervisor_new :: "bool \<Rightarrow> string \<Rightarrow> channel_supervisor" where
  "supervisor_new enabled provider =
     \<lparr>cs_enabled = enabled, cs_provider = provider, cs_child = None, cs_exits = [],
      cs_status = \<lparr>ps_state = Proc_stopped, ps_provider = provider, ps_pid = None, ps_lastError = None\<rparr>,
      cs_stopping = False, cs_restartAttempt = 0, cs_nextStartAt = 0, cs_startedAt = 0\<rparr>"

definition exit_code :: "channel_supervisor \<Rightarrow> nat \<Rightarrow> int option" where
  "exit_code su c = map_of (cs_exits su) c"

section \<open>Operations\<close>

text \<open>The getter \<open>status\<close> forgets a child that has exited.\<close>

definition read_status :: "channel_supervisor \<Rightarrow> channel_supervisor" where
  "read_status su =
     (case Option.bind (cs_child su) (exit_code su) of
        None \<Rightarrow> su
      | Some code \<Rightarrow>
          su\<lparr>cs_status := (cs_status su)\<lparr>ps_state := (if code = 0 then Proc_stopped else Proc_failed), ps_pid := None,
               ps_lastError := (if code = 0 then None else Some (''Driver exited with status '' @ js_int code))\<rparr>,
             cs_child := None\<rparr>)"

definition start_child :: "nat \<Rightarrow> int \<Rightarrow> channel_supervisor \<Rightarrow> channel_supervisor \<times> supervisor_out list" where
  "start_child c now su =
     (if \<not> cs_enabled su \<or> cs_child su \<noteq> None \<or> cs_stopping su \<or> of_int now < cs_nextStartAt su then (su, [])
      else if cs_provider su \<noteq> ''discord''
      then (su\<lparr>cs_status := (cs_status su)\<lparr>ps_state := Proc_unsupported,
             ps_lastError := Some (''No provider implementation for '' @ cs_provider su)\<rparr>\<rparr>, [])
      else (su\<lparr>cs_child := Some c, cs_startedAt := now,
             cs_status := (cs_status su)\<lparr>ps_state := Proc_running, ps_pid := Some c, ps_lastError := None\<rparr>\<rparr>,
            [So_spawn c]))"

text \<open>\<open>1_000 * 2 ** Math.min(attempt - 1, 5)\<close>; a stable child leaves the attempt at 0, so the exponent
  at -1.\<close>

definition restart_delay :: "nat \<Rightarrow> rat" where
  "restart_delay attempt = min 30000 (if attempt = 0 then 500 else 1000 * 2 ^ min (attempt - 1) 5)"

definition child_exited :: "nat \<Rightarrow> int \<Rightarrow> int \<Rightarrow> (rat \<Rightarrow> string) \<Rightarrow> channel_supervisor \<Rightarrow> channel_supervisor" where
  "child_exited c code now show_ms su =
     (if cs_child su \<noteq> Some c then su
      else let su1 = su\<lparr>cs_child := None\<rparr> in
        if cs_stopping su1 then su1
        else
          (let stable = (now - cs_startedAt su1 \<ge> 30000);
               attempt = (if stable then 0 else cs_restartAttempt su1 + 1);
               delay = restart_delay attempt in
           su1\<lparr>cs_restartAttempt := attempt, cs_nextStartAt := of_int now + delay,
               cs_status := (cs_status su1)\<lparr>ps_state := Proc_failed, ps_pid := None,
                 ps_lastError := Some (''Driver exited with status '' @ js_int code @ ''; restart in '' @ show_ms delay @ ''ms'')\<rparr>\<rparr>))"

definition maintain :: "nat \<Rightarrow> int \<Rightarrow> channel_supervisor \<Rightarrow> channel_supervisor \<times> supervisor_out list" where
  "maintain c now su =
     (let su1 = read_status su in
      if cs_child su1 = None \<and> \<not> cs_stopping su1 \<and> cs_enabled su1 \<and> of_int now \<ge> cs_nextStartAt su1
      then start_child c now su1 else (su1, []))"

definition stop_supervisor :: "channel_supervisor \<Rightarrow> channel_supervisor \<times> supervisor_out list" where
  "stop_supervisor su =
     (su\<lparr>cs_stopping := True, cs_child := None,
         cs_status := (cs_status su)\<lparr>ps_state := Proc_stopped, ps_pid := None\<rparr>\<rparr>,
      (case cs_child su of None \<Rightarrow> [] | Some c \<Rightarrow> if exit_code su c = None then [So_kill c] else []))"

section \<open>Steps\<close>

datatype supervisor_event =
    Se_start nat int
  | Se_maintain nat int
  | Se_status
  | Se_exit nat int
  | Se_exited nat int int
  | Se_stop

fun supervisor_step ::
  "(rat \<Rightarrow> string) \<Rightarrow> supervisor_event \<Rightarrow> channel_supervisor \<Rightarrow> channel_supervisor \<times> supervisor_out list"
where
  "supervisor_step sh (Se_start c now) su = start_child c now su"
| "supervisor_step sh (Se_maintain c now) su = maintain c now su"
| "supervisor_step sh Se_status su = (read_status su, [])"
| "supervisor_step sh (Se_exit c code) su = (su\<lparr>cs_exits := (c, code) # cs_exits su\<rparr>, [])"
| "supervisor_step sh (Se_exited c code now) su = (child_exited c code now sh su, [])"
| "supervisor_step sh Se_stop su = stop_supervisor su"

fun event_time :: "supervisor_event \<Rightarrow> int option" where
  "event_time (Se_start c now) = Some now"
| "event_time (Se_maintain c now) = Some now"
| "event_time e = None"

fun is_spawn :: "supervisor_out \<Rightarrow> bool" where
  "is_spawn (So_spawn c) = True"
| "is_spawn (So_kill c) = False"

section \<open>Waiting\<close>

text \<open>A supervisor that waits: it has no child, and is stopping or may not start before t.\<close>

definition waits :: "rat \<Rightarrow> channel_supervisor \<Rightarrow> bool" where
  "waits t su = (cs_child su = None \<and> (cs_stopping su \<or> t \<le> cs_nextStartAt su))"

lemma waits_step:
  assumes "waits t su" "\<And>now. event_time e = Some now \<Longrightarrow> cs_stopping su \<or> of_int now < t"
  shows "waits t (fst (supervisor_step sh e su)) \<and> \<not> list_ex is_spawn (snd (supervisor_step sh e su)) \<and>
    (cs_stopping su \<longrightarrow> cs_stopping (fst (supervisor_step sh e su)))"
  using assms
  by (cases e) (auto simp: waits_def start_child_def maintain_def read_status_def child_exited_def stop_supervisor_def Let_def)

lemma waits_runs:
  assumes "waits t su" "\<And>e now. e \<in> set es \<Longrightarrow> event_time e = Some now \<Longrightarrow> cs_stopping su \<or> of_int now < t"
  shows "\<not> list_ex is_spawn (snd (runs (supervisor_step sh) es su))"
  using assms
proof (induction es arbitrary: su)
  case (Cons e es)
  have e: "event_time e = Some now \<Longrightarrow> cs_stopping su \<or> of_int now < t" for now
    using Cons.prems(2) [of e now] by simp
  note one = waits_step [where sh = sh, OF Cons.prems(1) e]
  have "\<not> list_ex is_spawn (snd (runs (supervisor_step sh) es (fst (supervisor_step sh e su))))"
    by (rule Cons.IH) (use one Cons.prems(2) in \<open>auto\<close>)
  with one show ?case by (simp add: split_beta Let_def)
qed simp

section \<open>Properties\<close>



end
