(* ===== verification/Redact.thy ===== *)
theory Redact
  imports Ids
begin

text \<open>
  \<open>src/diagnostics/redact.ts\<close>: what is masked before a record enters a diagnostic bundle.  The
  regular expression is the search it stands for: from each position the longest run of opaque
  characters that starts and ends at a word boundary and is long enough.  The URL parser is an
  argument: \<open>None\<close> for a string that is no URL, else whether it has a user or a password, and its text
  without them.
\<close>

section \<open>Masking by shape\<close>

definition MASK :: string where
  "MASK = ''[redacted]''"

definition word_char :: "char \<Rightarrow> bool" where
  "word_char c = (c \<in> set ''ABCDEFGHIJKLMNOPQRSTUVWXYZabcdefghijklmnopqrstuvwxyz0123456789_'')"

definition opaque_char :: "char \<Rightarrow> bool" where
  "opaque_char c = (word_char c \<or> c \<in> set ''+/=-'')"

text \<open>\<open>\b\<close> between two characters, or at an end of the string.\<close>

definition word_boundary :: "char option \<Rightarrow> char option \<Rightarrow> bool" where
  "word_boundary p q = ((case p of None \<Rightarrow> False | Some c \<Rightarrow> word_char c) \<noteq> (case q of None \<Rightarrow> False | Some c \<Rightarrow> word_char c))"

definition char_at :: "string \<Rightarrow> nat \<Rightarrow> char option" where
  "char_at s n = (if n < length s then Some (s ! n) else None)"

text \<open>The ends of a match of \<open>OPAQUE_RUN\<close> at the front of s, and the length of the match, after the
  character \<open>prev\<close>.\<close>

definition opaque_ends :: "string \<Rightarrow> nat list" where
  "opaque_ends s =
     filter (\<lambda>n. word_boundary (char_at s (n - 1)) (char_at s n)) [32..<Suc (length (takeWhile opaque_char s))]"

definition opaque_match :: "char option \<Rightarrow> string \<Rightarrow> nat option" where
  "opaque_match prev s =
     (if \<not> word_boundary prev (char_at s 0) \<or> opaque_ends s = [] then None else Some (last (opaque_ends s)))"

lemma opaque_match_bounds:
  assumes "opaque_match prev s = Some n"
  shows "32 \<le> n \<and> n \<le> length s"
proof -
  from assms have "n \<in> set (opaque_ends s)" by (auto simp: opaque_match_def split: if_splits)
  then show ?thesis using length_takeWhile_le [of opaque_char s] by (auto simp: opaque_ends_def)
qed

function redact_from :: "char option \<Rightarrow> string \<Rightarrow> string" where
  "redact_from prev [] = []"
| "redact_from prev (c # cs) =
     (case opaque_match prev (c # cs) of
        None \<Rightarrow> c # redact_from (Some c) cs
      | Some n \<Rightarrow> MASK @ redact_from (char_at (c # cs) (n - 1)) (drop n (c # cs)))"
  by pat_completeness auto

termination
proof (relation "measure (\<lambda>(p, s). length s)", goal_cases)
  case (3 prev c cs n)
  then show ?case using opaque_match_bounds [of prev "c # cs" n] by simp
qed auto

definition redactText :: "string \<Rightarrow> string" where
  "redactText s = redact_from None s"

section \<open>Masking by name\<close>

definition SECRET_KEYS :: "string list" where
  "SECRET_KEYS = [''private_key_pkcs8'', ''token'', ''authorization'', ''password'', ''signature'', ''sig'', ''value'',
     ''nonce'', ''body'', ''text'', ''content'']"

definition URL_KEYS :: "string list" where
  "URL_KEYS = [''base_url'', ''rpc_ws'', ''api_http'', ''url'']"

definition redactUrl :: "(string \<Rightarrow> (bool \<times> string) option) \<Rightarrow> string \<Rightarrow> string" where
  "redactUrl parse_url s =
     (case parse_url s of
        None \<Rightarrow> redactText s
      | Some (credentials, bare) \<Rightarrow> if credentials then bare else s)"

fun redactValue :: "(string \<Rightarrow> (bool \<times> string) option) \<Rightarrow> string option \<Rightarrow> json \<Rightarrow> json" where
  "redactValue pu key (JStr s) =
     (case key of
        None \<Rightarrow> JStr (redactText s)
      | Some k \<Rightarrow> if k \<in> set SECRET_KEYS then JStr MASK
          else if k \<in> set URL_KEYS then JStr (redactUrl pu s) else JStr (redactText s))"
| "redactValue pu key (JArr vs) =
     (if key \<noteq> None \<and> the key \<in> set SECRET_KEYS then JStr MASK else JArr (map (redactValue pu None) vs))"
| "redactValue pu key (JObj fs) =
     (if key \<noteq> None \<and> the key \<in> set SECRET_KEYS then JStr MASK
      else JObj (map (\<lambda>(n, v). (n, redactValue pu (Some n) v)) fs))"
| "redactValue pu key v = (if key \<noteq> None \<and> the key \<in> set SECRET_KEYS then JStr MASK else v)"

section \<open>What survives\<close>

text \<open>No member under a secret name holds anything but the mask, at any depth.\<close>

fun names_masked :: "json \<Rightarrow> bool" where
  "names_masked (JArr vs) = list_all names_masked vs"
| "names_masked (JObj fs) = list_all (\<lambda>(n, v). (n \<in> set SECRET_KEYS \<longrightarrow> v = JStr MASK) \<and> names_masked v) fs"
| "names_masked v = True"

lemma redactValue_secret: "k \<in> set SECRET_KEYS \<Longrightarrow> redactValue pu (Some k) v = JStr MASK"
  by (cases v) simp_all

lemma redactValue_masked: "names_masked (redactValue pu key v)"
proof (induction pu key v rule: redactValue.induct)
  case (3 pu key fs)
  then show ?case by (auto simp: list_all_iff redactValue_secret)
qed (auto simp: list_all_iff split: option.splits)

lemma opaque_match_whole:
  assumes "list_all opaque_char s" "32 \<le> length s" "word_char (hd s)" "word_char (last s)"
  shows "opaque_match None s = Some (length s)"
proof -
  from assms(2) obtain c cs where s: "s = c # cs" by (cases s) auto
  have first: "word_boundary None (char_at s 0)"
    using assms(3) by (simp add: word_boundary_def char_at_def s)
  have final: "word_boundary (char_at s (length s - 1)) (char_at s (length s))"
    using assms(4) last_conv_nth [of s] s by (auto simp: word_boundary_def char_at_def simp del: last.simps)
  have run: "takeWhile opaque_char s = s"
    by (rule takeWhile_eq_all_conv [THEN iffD2]) (use assms(1) in \<open>simp add: list_all_iff\<close>)
  have upto: "[32..<Suc (length s)] = [32..<length s] @ [length s]" using assms(2) by simp
  have "opaque_ends s =
      filter (\<lambda>n. word_boundary (char_at s (n - 1)) (char_at s n)) [32..<length s] @ [length s]"
    unfolding opaque_ends_def run upto filter_append using final by simp
  with first show ?thesis by (simp add: opaque_match_def)
qed

section \<open>Properties\<close>

text \<open>The identifiers of the program do not survive in a diagnostic text.  A text made only of
  letters, digits and the characters + / = - _ that is 32 or longer and begins and ends with a word
  character is masked as a whole; an event id, a prefix and a hyphenated UUID, is such a text.\<close>

theorem redactText_masks_ids:
  assumes "list_all opaque_char s" "32 \<le> length s" "word_char (hd s)" "word_char (last s)"
  shows "redactText s = MASK"
proof -
  from assms(2) obtain c cs where "s = c # cs" by (cases s) auto
  with opaque_match_whole [OF assms] show ?thesis by (simp add: redactText_def)
qed

theorem redactText_masks_ids_witness:
  "redactText ''aud_0198b2c4-7d1e-7a3f-8c21-5b6f00112233'' = ''[redacted]''"
  using redactText_masks_ids [of "''aud_0198b2c4-7d1e-7a3f-8c21-5b6f00112233''"]
  by (simp add: opaque_char_def word_char_def MASK_def)

end
