(* ===== verification/Ring_Buffer.thy ===== *)
theory Ring_Buffer
  imports Redact
begin

text \<open>
  \<open>src/diagnostics/ring-buffer.ts\<close>: the recent records a diagnostic bundle carries.  A time is its
  number of milliseconds, which the ISO text of a record gives back; the size of a record's JSON text
  is an argument.
\<close>

section \<open>State\<close>

datatype diagnostic_level = Level_error | Level_warn | Level_info

record diagnostic_entry =
  de_level :: diagnostic_level
  de_component :: string
  de_text :: string
  de_correlationId :: "string option"
  de_fields :: json

record diagnostic_record =
  dr_at :: millis
  dr_level :: diagnostic_level
  dr_component :: string
  dr_message :: string
  dr_correlationId :: "string option"
  dr_fields :: json

record diagnostic_ring =
  rg_windowSeconds :: int
  rg_maxBytes :: int
  rg_records :: "diagnostic_record list"
  rg_sizes :: "int list"
  rg_bytes :: int
  rg_dropped :: nat

definition RING_WINDOW_SECONDS :: int where
  "RING_WINDOW_SECONDS = 60 * 60"

definition RING_MAX_BYTES :: int where
  "RING_MAX_BYTES = 5 * 1024 * 1024"

definition ring_new :: "int \<Rightarrow> int \<Rightarrow> diagnostic_ring" where
  "ring_new window mx =
     \<lparr>rg_windowSeconds = window, rg_maxBytes = mx, rg_records = [], rg_sizes = [], rg_bytes = 0, rg_dropped = 0\<rparr>"

section \<open>Operations\<close>

fun rotate_loop ::
  "int \<Rightarrow> int \<Rightarrow> diagnostic_record list \<times> int list \<times> int \<times> nat \<Rightarrow> diagnostic_record list \<times> int list \<times> int \<times> nat"
where
  "rotate_loop oldest mx (r # rs, s # ss, bytes, dropped) =
     (if dr_at r < oldest \<or> bytes > mx then rotate_loop oldest mx (rs, ss, bytes - s, dropped + 1)
      else (r # rs, s # ss, bytes, dropped))"
| "rotate_loop oldest mx st = st"

definition ring_rotate :: "millis \<Rightarrow> diagnostic_ring \<Rightarrow> diagnostic_ring" where
  "ring_rotate now rg =
     (case rotate_loop (now - rg_windowSeconds rg * 1000) (rg_maxBytes rg)
             (rg_records rg, rg_sizes rg, rg_bytes rg, rg_dropped rg) of
        (rs, ss, bytes, dropped) \<Rightarrow> rg\<lparr>rg_records := rs, rg_sizes := ss, rg_bytes := bytes, rg_dropped := dropped\<rparr>)"

definition record_of :: "(string \<Rightarrow> (bool \<times> string) option) \<Rightarrow> diagnostic_entry \<Rightarrow> millis \<Rightarrow> diagnostic_record" where
  "record_of pu e now =
     \<lparr>dr_at = now, dr_level = de_level e, dr_component = de_component e, dr_message = redactText (de_text e),
      dr_correlationId = de_correlationId e, dr_fields = redactValue pu None (de_fields e)\<rparr>"

definition ring_record ::
  "(string \<Rightarrow> (bool \<times> string) option) \<Rightarrow> (diagnostic_record \<Rightarrow> nat) \<Rightarrow> diagnostic_entry \<Rightarrow> millis \<Rightarrow>
   diagnostic_ring \<Rightarrow> diagnostic_ring"
where
  "ring_record pu size_of e now rg =
     (let r = record_of pu e now; n = int (size_of r) in
      ring_rotate now (rg\<lparr>rg_records := rg_records rg @ [r], rg_sizes := rg_sizes rg @ [n], rg_bytes := rg_bytes rg + n\<rparr>))"

record ring_snapshot =
  rs_records :: "diagnostic_record list"
  rs_dropped :: nat
  rs_bytes :: int
  rs_window_seconds :: int
  rs_max_bytes :: int

definition ring_snapshot_at :: "millis \<Rightarrow> diagnostic_ring \<Rightarrow> ring_snapshot \<times> diagnostic_ring" where
  "ring_snapshot_at now rg =
     (let rg' = ring_rotate now rg in
      (\<lparr>rs_records = rg_records rg', rs_dropped = rg_dropped rg', rs_bytes = rg_bytes rg',
        rs_window_seconds = rg_windowSeconds rg', rs_max_bytes = rg_maxBytes rg'\<rparr>, rg'))"

definition ring_clear :: "diagnostic_ring \<Rightarrow> diagnostic_ring" where
  "ring_clear rg = rg\<lparr>rg_records := [], rg_sizes := [], rg_bytes := 0, rg_dropped := 0\<rparr>"

text \<open>\<open>ringDiagnostic\<close>: the adapter of the \<open>onDiagnostic\<close> callback.\<close>

definition ring_diagnostic ::
  "(string \<Rightarrow> (bool \<times> string) option) \<Rightarrow> (diagnostic_record \<Rightarrow> nat) \<Rightarrow> string \<Rightarrow> string \<Rightarrow> string option \<Rightarrow> millis \<Rightarrow>
   diagnostic_ring \<Rightarrow> diagnostic_ring"
where
  "ring_diagnostic pu size_of component msg err now =
     ring_record pu size_of
       \<lparr>de_level = (if err = None then Level_info else Level_error), de_component = component, de_text = msg,
        de_correlationId = None,
        de_fields = JObj (case err of None \<Rightarrow> [] | Some m \<Rightarrow> [(''error'', JStr m)])\<rparr> now"

section \<open>The bounds\<close>

text \<open>The ring after it was given \<open>all\<close> records: it holds the newest of them, has counted the others,
  and its sizes add up.\<close>

definition ring_holds :: "(diagnostic_record \<Rightarrow> nat) \<Rightarrow> diagnostic_record list \<Rightarrow> diagnostic_ring \<Rightarrow> bool" where
  "ring_holds size_of all rg =
     (rg_dropped rg \<le> length all \<and> rg_records rg = drop (rg_dropped rg) all \<and>
      rg_sizes rg = map (\<lambda>r. int (size_of r)) (rg_records rg) \<and> rg_bytes rg = sum_list (rg_sizes rg))"

definition ring_within :: "millis \<Rightarrow> diagnostic_ring \<Rightarrow> bool" where
  "ring_within now rg =
     (rg_bytes rg \<le> rg_maxBytes rg \<and> list_all (\<lambda>r. now - rg_windowSeconds rg * 1000 \<le> dr_at r) (rg_records rg))"

lemma rotate_loop_spec:
  assumes "rotate_loop oldest mx (rs, map f rs, bytes, d) = (rs', ss', bytes', d')" "bytes = sum_list (map f rs)"
    "sorted (map dr_at rs)" "0 \<le> mx"
  shows "\<exists>k\<le>length rs. rs' = drop k rs \<and> d' = d + k \<and> ss' = map f rs' \<and> bytes' = sum_list ss' \<and> bytes' \<le> mx \<and>
    list_all (\<lambda>r. oldest \<le> dr_at r) rs'"
  using assms
proof (induction rs arbitrary: bytes d)
  case (Cons r rs)
  show ?case
  proof (cases "dr_at r < oldest \<or> bytes > mx")
    case True
    with Cons.prems have "rotate_loop oldest mx (rs, map f rs, bytes - f r, d + 1) = (rs', ss', bytes', d')" by simp
    from Cons.IH [OF this] Cons.prems obtain k where "k \<le> length rs" "rs' = drop k rs" "d' = d + 1 + k"
      "ss' = map f rs'" "bytes' = sum_list ss'" "bytes' \<le> mx" "list_all (\<lambda>r. oldest \<le> dr_at r) rs'" by auto
    then show ?thesis by (intro exI [of _ "Suc k"]) simp
  next
    case False
    with Cons.prems show ?thesis by (intro exI [of _ 0]) (fastforce simp: list_all_iff)
  qed
qed simp

lemma ring_rotate_holds:
  assumes "ring_holds size_of all rg" "sorted (map dr_at all)" "0 \<le> rg_maxBytes rg"
  shows "ring_holds size_of all (ring_rotate now rg) \<and> ring_within now (ring_rotate now rg) \<and>
    rg_windowSeconds (ring_rotate now rg) = rg_windowSeconds rg \<and> rg_maxBytes (ring_rotate now rg) = rg_maxBytes rg \<and>
    rg_dropped rg \<le> rg_dropped (ring_rotate now rg)"
proof -
  let ?f = "\<lambda>r. int (size_of r)"
  obtain rs ss bytes d where loop: "rotate_loop (now - rg_windowSeconds rg * 1000) (rg_maxBytes rg)
      (rg_records rg, map ?f (rg_records rg), rg_bytes rg, rg_dropped rg) = (rs, ss, bytes, d)"
    by (metis surj_pair)
  have sizes: "rg_sizes rg = map ?f (rg_records rg)" using assms(1) by (simp add: ring_holds_def)
  have "sorted (map dr_at (rg_records rg))"
    using assms(1,2) by (simp add: ring_holds_def sorted_wrt_drop drop_map [symmetric])
  from rotate_loop_spec [OF loop _ this assms(3)] assms(1) obtain k where
    k: "k \<le> length (rg_records rg)" "rs = drop k (rg_records rg)" "d = rg_dropped rg + k" "ss = map ?f rs"
      "bytes = sum_list ss" "bytes \<le> rg_maxBytes rg" "list_all (\<lambda>r. now - rg_windowSeconds rg * 1000 \<le> dr_at r) rs"
    by (auto simp: ring_holds_def)
  have "ring_rotate now rg = rg\<lparr>rg_records := rs, rg_sizes := ss, rg_bytes := bytes, rg_dropped := d\<rparr>"
    using loop sizes by (simp add: ring_rotate_def)
  with k assms(1) show ?thesis
    by (auto simp: ring_holds_def ring_within_def add.commute)
qed

text \<open>The records of a life of the ring, and the ring after them.\<close>

fun ring_runs ::
  "(string \<Rightarrow> (bool \<times> string) option) \<Rightarrow> (diagnostic_record \<Rightarrow> nat) \<Rightarrow> (diagnostic_entry \<times> millis) list \<Rightarrow>
   diagnostic_ring \<Rightarrow> diagnostic_ring"
where
  "ring_runs pu size_of [] rg = rg"
| "ring_runs pu size_of ((e, now) # es) rg = ring_runs pu size_of es (ring_record pu size_of e now rg)"

lemma ring_record_holds:
  assumes "ring_holds size_of all rg" "sorted (map dr_at (all @ [record_of pu e now]))" "0 \<le> rg_maxBytes rg"
  shows "ring_holds size_of (all @ [record_of pu e now]) (ring_record pu size_of e now rg) \<and>
    rg_maxBytes (ring_record pu size_of e now rg) = rg_maxBytes rg"
proof -
  let ?rg = "rg\<lparr>rg_records := rg_records rg @ [record_of pu e now],
    rg_sizes := rg_sizes rg @ [int (size_of (record_of pu e now))],
    rg_bytes := rg_bytes rg + int (size_of (record_of pu e now))\<rparr>"
  have "ring_holds size_of (all @ [record_of pu e now]) ?rg"
    using assms(1) by (simp add: ring_holds_def)
  from ring_rotate_holds [OF this assms(2), of now] assms(3) show ?thesis
    by (simp add: ring_record_def Let_def)
qed

lemma ring_runs_holds:
  assumes "ring_holds size_of all rg" "sorted (map dr_at all @ map snd es)" "0 \<le> rg_maxBytes rg"
  shows "ring_holds size_of (all @ map (\<lambda>(e, now). record_of pu e now) es) (ring_runs pu size_of es rg) \<and>
    rg_maxBytes (ring_runs pu size_of es rg) = rg_maxBytes rg"
  using assms
proof (induction es arbitrary: all rg)
  case (Cons p es)
  obtain e now where p: "p = (e, now)" by (cases p)
  have at: "dr_at (record_of pu e now) = now" by (simp add: record_of_def)
  have "sorted (map dr_at (all @ [record_of pu e now]) @ map snd es)"
    using Cons.prems(2) by (simp add: p at)
  moreover from this have "sorted (map dr_at (all @ [record_of pu e now]))" by (simp add: sorted_append)
  ultimately show ?case
    using Cons.IH [of "all @ [record_of pu e now]" "ring_record pu size_of e now rg"]
      ring_record_holds [OF Cons.prems(1) _ Cons.prems(3), of pu e now] Cons.prems(3)
    by (simp add: p)
qed simp

section \<open>Properties\<close>

text \<open>The ring holds the newest records within both bounds and counts the rest.  After any records
  with a clock that does not run back, a snapshot holds the last of the records that were given, as
  they were masked, none older than the window and together no larger than the limit, and it reports
  exactly how many came before them.\<close>

theorem ring_keeps_newest:
  assumes "sorted (map snd es)" "0 \<le> mx"
    and "ring_snapshot_at now (ring_runs pu size_of es (ring_new window mx)) = (snap, rg)"
  shows "rs_records snap = drop (rs_dropped snap) (map (\<lambda>(e, t). record_of pu e t) es) \<and>
    rs_dropped snap + length (rs_records snap) = length es \<and>
    rs_bytes snap = (\<Sum>r\<leftarrow>rs_records snap. int (size_of r)) \<and> rs_bytes snap \<le> mx \<and>
    list_all (\<lambda>r. now - window * 1000 \<le> dr_at r) (rs_records snap)"
proof -
  have win: "rg_windowSeconds (ring_runs pu size_of es rg) = rg_windowSeconds rg" for rg
  proof (induction es arbitrary: rg)
    case (Cons p es)
    then show ?case by (cases p) (simp add: ring_record_def ring_rotate_def Let_def split: prod.split)
  qed simp
  have "ring_holds size_of [] (ring_new window mx)" by (simp add: ring_holds_def ring_new_def)
  from ring_runs_holds [OF this, of es pu] assms(1,2)
  have holds: "ring_holds size_of (map (\<lambda>(e, t). record_of pu e t) es) (ring_runs pu size_of es (ring_new window mx))"
    "rg_maxBytes (ring_runs pu size_of es (ring_new window mx)) = mx"
    by (simp_all add: ring_new_def)
  have "map dr_at (map (\<lambda>(e, t). record_of pu e t) es) = map snd es"
    by (induction es) (auto simp: record_of_def)
  then have "sorted (map dr_at (map (\<lambda>(e, t). record_of pu e t) es))" using assms(1) by (simp del: map_map)
  from ring_rotate_holds [OF holds(1) this, of now] holds(2) assms(2,3) win [of "ring_new window mx"] show ?thesis
    by (auto simp: ring_snapshot_at_def Let_def ring_holds_def ring_within_def ring_new_def)
qed

theorem ring_keeps_newest_witness:
  "rs_dropped (fst (ring_snapshot_at 5000 (ring_runs (\<lambda>_. None) (\<lambda>_. 4)
     (map (\<lambda>t. (\<lparr>de_level = Level_info, de_component = ''c'', de_text = ''m'', de_correlationId = None,
        de_fields = JObj []\<rparr>, t)) [1000, 2000, 3000]) (ring_new 3600 10)))) +
   length (rs_records (fst (ring_snapshot_at 5000 (ring_runs (\<lambda>_. None) (\<lambda>_. 4)
     (map (\<lambda>t. (\<lparr>de_level = Level_info, de_component = ''c'', de_text = ''m'', de_correlationId = None,
        de_fields = JObj []\<rparr>, t)) [1000, 2000, 3000]) (ring_new 3600 10))))) = 3"
proof -
  let ?es = "map (\<lambda>t. (\<lparr>de_level = Level_info, de_component = ''c'', de_text = ''m'', de_correlationId = None,
        de_fields = JObj []\<rparr>, t)) [1000, 2000, 3000 :: int]"
  obtain snap rg where snap: "ring_snapshot_at 5000 (ring_runs (\<lambda>_. None) (\<lambda>_. 4) ?es (ring_new 3600 10)) = (snap, rg)"
    by (metis surj_pair)
  have "sorted (map snd ?es)" by simp
  from ring_keeps_newest [OF this _ snap] snap show ?thesis by simp
qed

end
