(* ===== verification/Discord.thy ===== *)
theory Discord
  imports Errors "HOL-Library.Word"
begin

text \<open>
  \<open>src/channel-driver/discord.ts\<close>: the Discord driver.  A text is split by its UTF-16 code units, the
  indices of a JavaScript string; \<open>units_of\<close> and \<open>text_of\<close> convert between them and the strings of
  this development.  Messages and attachments have the shape of the interfaces of the source.  What
  Discord, the clock and the lane answer are arguments, and the result of an operation tells which
  requests it made.
\<close>

type_synonym unit16 = "16 word"

section \<open>Splitting a text\<close>

definition newline :: unit16 where
  "newline = 10"

text \<open>\<open>lastIndexOf("\n", 2_000)\<close> of a text longer than that.\<close>

definition last_newline :: "unit16 list \<Rightarrow> nat option" where
  "last_newline r =
     (let hits = filter (\<lambda>i. r ! i = newline) [0..<min 2001 (length r)] in if hits = [] then None else Some (last hits))"

definition chunk_boundary :: "unit16 list \<Rightarrow> nat" where
  "chunk_boundary r = (case last_newline r of None \<Rightarrow> 2000 | Some i \<Rightarrow> if i < 1000 then 2000 else i)"

fun strip_newline :: "unit16 list \<Rightarrow> unit16 list" where
  "strip_newline [] = []"
| "strip_newline (u # us) = (if u = newline then us else u # us)"

lemma last_newline_le: "last_newline r = Some i \<Longrightarrow> i \<le> 2000 \<and> i < length r \<and> r ! i = newline"
proof -
  assume a: "last_newline r = Some i"
  let ?hits = "filter (\<lambda>i. r ! i = newline) [0..<min 2001 (length r)]"
  have "?hits \<noteq> [] \<and> i = last ?hits" using a by (simp add: last_newline_def Let_def split: if_splits)
  then have "i \<in> set ?hits" using last_in_set [of ?hits] by blast
  then show "i \<le> 2000 \<and> i < length r \<and> r ! i = newline" by auto
qed

lemma chunk_boundary_bounds: "1000 \<le> chunk_boundary r \<and> chunk_boundary r \<le> 2000"
  using last_newline_le [of r] by (auto simp: chunk_boundary_def split: option.split)

lemma length_strip_newline: "length (strip_newline r) \<le> length r"
  by (cases r) auto

function chunk_loop :: "unit16 list \<Rightarrow> unit16 list list" where
  "chunk_loop r =
     (if length r > 2000
      then take (chunk_boundary r) r # chunk_loop (strip_newline (drop (chunk_boundary r) r))
      else if r = [] then [] else [r])"
  by pat_completeness auto

termination
proof (relation "measure length", goal_cases)
  case (2 r)
  then show ?case
    using chunk_boundary_bounds [of r] length_strip_newline [of "drop (chunk_boundary r) r"]
    by simp linarith
qed simp

declare chunk_loop.simps [simp del]

definition chunks :: "unit16 list \<Rightarrow> unit16 list list" where
  "chunks t = (if length t \<le> 2000 then [t] else chunk_loop t)"

section \<open>Messages of the gateway\<close>

record discord_attachment =
  da_id :: string
  da_filename :: string
  da_content_type :: "string option"
  da_size :: rat
  da_url :: string

record discord_message =
  dm_id :: string
  dm_channel_id :: string
  dm_guild_id :: "string option"
  dm_content :: string
  dm_timestamp :: string
  dm_author_id :: string
  dm_author_username :: "string option"
  dm_author_bot :: bool
  dm_mentions :: "string list"
  dm_attachments :: "discord_attachment list"

record discord_config =
  dc_channel :: string
  dc_account_ref :: string
  dc_allowed_guilds :: "string list"
  dc_allowed_channels :: "string list"
  dc_mention_only :: bool

definition option_strings :: "json \<Rightarrow> string \<Rightarrow> string list" where
  "option_strings options key =
     (case jarr (jfield options key) of None \<Rightarrow> [] | Some vs \<Rightarrow> List.map_filter (\<lambda>v. jstr (Some v)) vs)"

text \<open>The constructor's reading of a channel's options.\<close>

definition discord_config_of :: "string \<Rightarrow> string \<Rightarrow> json \<Rightarrow> discord_config" where
  "discord_config_of channel account_ref options =
     \<lparr>dc_channel = channel, dc_account_ref = account_ref,
      dc_allowed_guilds = option_strings options ''allowed_guild_ids'',
      dc_allowed_channels = option_strings options ''allowed_channel_ids'',
      dc_mention_only = (jfield options ''mention_only'' = Some (JBool True))\<rparr>"

text \<open>The early returns of \<open>#handleMessage\<close>; an empty string counts as absent.\<close>

definition discord_admits :: "discord_config \<Rightarrow> string option \<Rightarrow> discord_message \<Rightarrow> bool" where
  "discord_admits cfg botId m =
     (dm_id m \<noteq> [] \<and> dm_channel_id m \<noteq> [] \<and> \<not> dm_author_bot m \<and>
      \<not> (case botId of None \<Rightarrow> False | Some b \<Rightarrow> b \<noteq> [] \<and> dm_author_id m = b) \<and>
      (dc_allowed_guilds cfg \<noteq> [] \<longrightarrow>
         (case dm_guild_id m of None \<Rightarrow> False | Some g \<Rightarrow> g \<noteq> [] \<and> g \<in> set (dc_allowed_guilds cfg))) \<and>
      (dc_allowed_channels cfg \<noteq> [] \<longrightarrow> dm_channel_id m \<in> set (dc_allowed_channels cfg)) \<and>
      \<not> (dc_mention_only cfg \<and>
         (case botId of None \<Rightarrow> False | Some b \<Rightarrow> b \<noteq> [] \<and> b \<notin> set (dm_mentions m))))"

section \<open>Downloads\<close>

definition DISCORD_CDN_HOSTS :: "string list" where
  "DISCORD_CDN_HOSTS = [''cdn.discordapp.com'', ''media.discordapp.net'']"

text \<open>One download: the URL's protocol and host, the status and chunks of the answer, the digest and
  the path of the file.\<close>

record download_world =
  dl_url :: "(string \<times> string) option"
  dl_fetch :: "exn + (int \<times> string list option)"
  dl_io :: "exn + unit"
  dl_sha256 :: "string \<Rightarrow> string"
  dl_path :: string

fun download_loop :: "rat \<Rightarrow> string \<Rightarrow> string list \<Rightarrow> exn + string" where
  "download_loop declared got [] =
     (if of_nat (length got) \<noteq> declared then Inl (PlainError ''Discord attachment size changed in transit'') else Inr got)"
| "download_loop declared got (ch # chs) =
     (let got' = got @ ch in
      if length got' > MAX_ATTACHMENT_BYTES \<or> of_nat (length got') > declared
      then Inl (PlainError ''Discord attachment body exceeded declared size'')
      else download_loop declared got' chs)"

record staged_file =
  sf_attachment_id :: string
  sf_filename :: string
  sf_media_type :: string
  sf_size :: nat
  sf_sha256 :: string
  sf_local_path :: string

text \<open>\<open>#download\<close>: what it returns, and whether the file stays.\<close>

definition discord_download :: "download_world \<Rightarrow> discord_attachment \<Rightarrow> (exn + staged_file) \<times> bool" where
  "discord_download w a =
     (if \<not> safe_integer (da_size a) \<or> da_size a > of_nat MAX_ATTACHMENT_BYTES
      then (Inl (PlainError (''Discord attachment exceeds 100 MiB: '' @ da_id a)), False)
      else case dl_url w of
        None \<Rightarrow> (Inl (PlainError ''Invalid URL''), False)
      | Some (protocol, host) \<Rightarrow>
          if protocol \<noteq> ''https:'' \<or> host \<notin> set DISCORD_CDN_HOSTS
          then (Inl (PlainError ''Discord attachment URL is outside the CDN allowlist''), False)
          else (case dl_fetch w of
            Inl e \<Rightarrow> (Inl e, False)
          | Inr (status, body) \<Rightarrow>
              if \<not> (200 \<le> status \<and> status \<le> 299) \<or> body = None
              then (Inl (PlainError (''Discord attachment download failed: '' @ js_int status)), False)
              else (case sbind (dl_io w) (\<lambda>_. download_loop (da_size a) [] (the body)) of
                Inl e \<Rightarrow> (Inl e, False)
              | Inr bytes \<Rightarrow>
                  (Inr \<lparr>sf_attachment_id = da_id a, sf_filename = da_filename a,
                     sf_media_type = (case da_content_type a of Some t \<Rightarrow> t | None \<Rightarrow> ''application/octet-stream''),
                     sf_size = length bytes, sf_sha256 = dl_sha256 w bytes, sf_local_path = dl_path w\<rparr>, True))))"

fun download_all :: "(nat \<Rightarrow> download_world) \<Rightarrow> nat \<Rightarrow> discord_attachment list \<Rightarrow> staged_file list \<Rightarrow>
   (exn + unit) \<times> staged_file list" where
  "download_all w i [] got = (Inr (), got)"
| "download_all w i (a # as) got =
     (case fst (discord_download (w i) a) of
        Inl e \<Rightarrow> (Inl e, got)
      | Inr f \<Rightarrow> download_all w (Suc i) as (got @ [f]))"

definition staged_json :: "staged_file \<Rightarrow> json" where
  "staged_json f =
     JObj [(''attachment_id'', JStr (sf_attachment_id f)), (''filename'', JStr (sf_filename f)),
       (''media_type'', JStr (sf_media_type f)), (''size'', JNum (of_nat (sf_size f))),
       (''sha256'', JStr (sf_sha256 f)), (''local_path'', JStr (sf_local_path f))]"

definition message_params :: "discord_config \<Rightarrow> string option \<Rightarrow> discord_message \<Rightarrow> staged_file list \<Rightarrow> json" where
  "message_params cfg botId m fs =
     JObj [(''driver_instance_id'', JStr (dc_channel cfg)), (''provider_event_id'', JStr (dm_id m)),
       (''provider_message_id'', JStr (dm_id m)),
       (''sender'', JObj [(''provider_user_id'', JStr (dm_author_id m)),
          (''display_name'', JStr (case dm_author_username m of Some u \<Rightarrow> u | None \<Rightarrow> dm_author_id m))]),
       (''conversation'', JObj [(''account_ref'', JStr (if dc_account_ref cfg \<noteq> [] then dc_account_ref cfg
            else case botId of Some b \<Rightarrow> if b \<noteq> [] then b else ''discord-bot'' | None \<Rightarrow> ''discord-bot'')),
          (''conversation_ref'', JStr (dm_channel_id m)), (''thread_ref'', JNull)]),
       (''text'', JStr (if dm_content m \<noteq> [] then dm_content m else if fs \<noteq> [] then ''[attachment]'' else [])),
       (''attachments'', JArr (map staged_json fs)), (''provider_timestamp'', JStr (dm_timestamp m))]"

text \<open>\<open>#handleMessage\<close>: its result, the parameters it called the lane with, if it did, and the staged
  files it removed in the end.\<close>

definition discord_message_step ::
  "discord_config \<Rightarrow> string option \<Rightarrow> (nat \<Rightarrow> download_world) \<Rightarrow> exn + json \<Rightarrow> discord_message \<Rightarrow>
   (exn + unit) \<times> json option \<times> string list"
where
  "discord_message_step cfg botId w answer m =
     (if \<not> discord_admits cfg botId m then (Inr (), None, [])
      else case download_all w 0 (dm_attachments m) [] of
        (Inl e, fs) \<Rightarrow> (Inl e, None, map sf_local_path fs)
      | (Inr _, fs) \<Rightarrow>
          (sbind answer (\<lambda>_. Inr ()), Some (message_params cfg botId m fs), map sf_local_path fs))"

section \<open>Requests of the lane\<close>

text \<open>One call of the REST API: a rate limit is waited out once.  An answer is its status and JSON.\<close>

definition rest_result :: "exn + (int \<times> json option) \<Rightarrow> exn + json" where
  "rest_result r =
     sbind r (\<lambda>(status, body).
       if \<not> (200 \<le> status \<and> status \<le> 299) then Inl (PlainError (''Discord API '' @ js_int status))
       else case body of None \<Rightarrow> Inl (PlainError ''Failed to parse JSON'') | Some v \<Rightarrow> Inr v)"

definition discord_rest :: "exn + (int \<times> json option) \<Rightarrow> exn + (int \<times> json option) \<Rightarrow> exn + json" where
  "discord_rest first second =
     (case first of
        Inr (status, body) \<Rightarrow>
          if status = 429
          then (if body = None then Inl (PlainError ''Failed to parse JSON'') else rest_result second)
          else rest_result first
      | Inl e \<Rightarrow> Inl e)"

datatype action_state = Action_pending | Action_succeeded

record action_row =
  ar_action_id :: string
  ar_state :: action_state
  ar_result :: "json option"
  ar_created_at :: millis
  ar_updated_at :: millis

definition find_action :: "string \<Rightarrow> action_row list \<Rightarrow> action_row option" where
  "find_action i rows = sql_get (\<lambda>r. ar_action_id r = i) rows"

definition upsert_action :: "millis \<Rightarrow> string \<Rightarrow> action_row list \<Rightarrow> action_row list" where
  "upsert_action now i rows =
     (if find_action i rows = None
      then rows @ [\<lparr>ar_action_id = i, ar_state = Action_pending, ar_result = None, ar_created_at = now, ar_updated_at = now\<rparr>]
      else sql_update (\<lambda>r. ar_action_id r = i) (\<lambda>r. r\<lparr>ar_updated_at := now\<rparr>) rows)"

definition succeed_action :: "millis \<Rightarrow> string \<Rightarrow> json \<Rightarrow> action_row list \<Rightarrow> action_row list" where
  "succeed_action now i result rows =
     sql_update (\<lambda>r. ar_action_id r = i)
       (\<lambda>r. r\<lparr>ar_state := Action_succeeded, ar_result := Some result, ar_updated_at := now\<rparr>) rows"

text \<open>The result of an action that succeeded.\<close>

definition stored_result :: "string \<Rightarrow> action_row list \<Rightarrow> json option" where
  "stored_result i rows =
     Option.bind (find_action i rows) (\<lambda>r. if ar_state r = Action_succeeded then ar_result r else None)"

text \<open>\<open>{ ...stored, duplicate: true }\<close>.\<close>

definition as_duplicate :: "json \<Rightarrow> json" where
  "as_duplicate v = (case v of JObj fs \<Rightarrow> JObj (AList.update ''duplicate'' (JBool True) fs) | _ \<Rightarrow> JObj [(''duplicate'', JBool True)])"

record discord_send_params =
  sp_action_id :: string
  sp_channel :: string
  sp_text :: string
  sp_reply_to :: "string option"

definition send_params_of :: "json \<Rightarrow> discord_send_params option" where
  "send_params_of params =
     (case (jstr (jfield params ''action_id''), jstr (jfield params ''text''),
            jstr (Option.bind (jfield params ''conversation'') (\<lambda>c. jfield c ''conversation_ref''))) of
        (Some a, Some t, Some c) \<Rightarrow>
          Some \<lparr>sp_action_id = a, sp_channel = c, sp_text = t,
            sp_reply_to = jstr (jfield params ''reply_to_provider_message_id'')\<rparr>
      | _ \<Rightarrow> None)"

definition part_body :: "discord_send_params \<Rightarrow> nat \<Rightarrow> string \<Rightarrow> json" where
  "part_body sp index part =
     JObj ([(''content'', JStr part)] @
       (case sp_reply_to sp of
          Some r \<Rightarrow>
            if index = 0 \<and> r \<noteq> []
            then [(''message_reference'', JObj [(''message_id'', JStr r), (''channel_id'', JStr (sp_channel sp)),
                    (''fail_if_not_exists'', JBool False)])]
            else []
        | None \<Rightarrow> []))"

text \<open>\<open>post\<close> is the result of the REST call for the part of an index.\<close>

fun post_parts ::
  "(nat \<Rightarrow> exn + json) \<Rightarrow> discord_send_params \<Rightarrow> nat \<Rightarrow> string list \<Rightarrow> json option \<Rightarrow> (exn + json option) \<times> json list"
where
  "post_parts post sp i [] final = (Inr final, [])"
| "post_parts post sp i (p # ps) final =
     (case post i of
        Inl e \<Rightarrow> (Inl e, [part_body sp i p])
      | Inr v \<Rightarrow> (let (r, bodies) = post_parts post sp (Suc i) ps (Some v) in (r, part_body sp i p # bodies)))"

record send_world =
  sw_units_of :: "string \<Rightarrow> unit16 list"
  sw_text_of :: "unit16 list \<Rightarrow> string"
  sw_post :: "nat \<Rightarrow> exn + json"
  sw_now :: millis
  sw_done :: millis
  sw_iso :: "millis \<Rightarrow> string"

definition send_result :: "send_world \<Rightarrow> json option \<Rightarrow> json" where
  "send_result w final =
     (let field = (\<lambda>k. Option.bind final (\<lambda>v. jfield v k)); absent = (\<lambda>v. v = None \<or> v = Some JNull) in
      JObj [(''provider_message_id'', case field ''id'' of Some v \<Rightarrow> v | None \<Rightarrow> JNull),
        (''provider_timestamp'', if absent (field ''timestamp'') then JStr (sw_iso w (sw_done w)) else the (field ''timestamp'')),
        (''duplicate'', JBool False)])"

text \<open>\<open>#handleLaneRequest\<close>: its result, the table after it, and the bodies it posted in order.\<close>

definition handleLaneRequest ::
  "send_world \<Rightarrow> string \<Rightarrow> json \<Rightarrow> action_row list \<Rightarrow> (exn + json) \<times> action_row list \<times> json list"
where
  "handleLaneRequest w meth params rows =
     (if meth \<noteq> ''channel.message.send'' then (Inl (PlainError (''Unsupported method: '' @ meth)), rows, [])
      else case send_params_of params of
        None \<Rightarrow> (Inl (PlainError ''Invalid channel.message.send params''), rows, [])
      | Some sp \<Rightarrow>
          (case stored_result (sp_action_id sp) rows of
             Some stored \<Rightarrow> (Inr (as_duplicate stored), rows, [])
           | None \<Rightarrow>
               (let rows1 = upsert_action (sw_now w) (sp_action_id sp) rows;
                    (r, bodies) = post_parts (sw_post w) sp 0 (map (sw_text_of w) (chunks (sw_units_of w (sp_text sp)))) None in
                (case r of
                   Inl e \<Rightarrow> (Inl e, rows1, bodies)
                 | Inr final \<Rightarrow>
                     (Inr (send_result w final),
                      succeed_action (sw_done w) (sp_action_id sp) (send_result w final) rows1, bodies)))))"

section \<open>The gateway\<close>

record gateway_state =
  gw_sequence :: "rat option"
  gw_botId :: "string option"
  gw_heartbeat :: "rat option"

datatype gateway_out = Gw_identify | Gw_close nat | Gw_message json | Gw_reject

text \<open>A property of \<open>undefined\<close> or \<open>null\<close> cannot be read: the session is rejected with a \<open>TypeError\<close>.\<close>

definition nullish :: "json option \<Rightarrow> bool" where
  "nullish v = (v = None \<or> v = Some JNull)"

text \<open>\<open>#gatewayPayload\<close>; the message it hands on goes to \<open>#handleMessage\<close>.\<close>

definition gateway_payload :: "json \<Rightarrow> gateway_state \<Rightarrow> gateway_state \<times> gateway_out list" where
  "gateway_payload payload gw =
     (let gw1 = (case jnum (jfield payload ''s'') of Some s \<Rightarrow> gw\<lparr>gw_sequence := Some s\<rparr> | None \<Rightarrow> gw);
          op = jfield payload ''op''; d = jfield payload ''d'' in
      if payload = JNull then (gw, [Gw_reject])
      else if op = Some (JNum 10)
      then if nullish d then (gw1, [Gw_reject])
      else (gw1\<lparr>gw_heartbeat := Some (case jnum (Option.bind d (\<lambda>v. jfield v ''heartbeat_interval'')) of
               Some ms \<Rightarrow> ms | None \<Rightarrow> 45000)\<rparr>, [Gw_identify])
      else if op = Some (JNum 7) \<or> op = Some (JNum 9) then (gw1, [Gw_close 4000])
      else if op \<noteq> Some (JNum 0) then (gw1, [])
      else if jfield payload ''t'' = Some (JStr ''READY'')
      then if nullish d then (gw1, [Gw_reject])
      else (case jstr (Option.bind (Option.bind d (\<lambda>v. jfield v ''user'')) (\<lambda>u. jfield u ''id'')) of
              Some i \<Rightarrow> (gw1\<lparr>gw_botId := Some i\<rparr>, []) | None \<Rightarrow> (gw1, []))
      else if jfield payload ''t'' = Some (JStr ''MESSAGE_CREATE'')
      then (gw1, [Gw_message (case d of Some m \<Rightarrow> m | None \<Rightarrow> JNull)])
      else (gw1, []))"

text \<open>The reconnect loop: the sleep after each session, given which of them ended without an exception.\<close>

fun discord_delays :: "bool list \<Rightarrow> nat \<Rightarrow> nat list" where
  "discord_delays [] attempt = []"
| "discord_delays (clean # ss) attempt =
     (let a = (if clean then 0 else attempt) in
      min 30000 (1000 * 2 ^ min a 5) # discord_delays ss (Suc a))"

section \<open>Splitting loses nothing\<close>

definition newline_or_none :: "unit16 list \<Rightarrow> bool" where
  "newline_or_none sep = (sep = [] \<or> sep = [newline])"

lemma strip_newline_eq: "\<exists>sep. newline_or_none sep \<and> r = sep @ strip_newline r"
proof (cases r)
  case (Cons u us)
  then show ?thesis
    by (cases "u = newline") (auto simp: newline_or_none_def intro: exI [of _ "[newline]"] exI [of _ "[]"])
qed (simp add: newline_or_none_def)

text \<open>The parts with what was dropped after each of them.\<close>

definition splits :: "unit16 list \<Rightarrow> unit16 list list \<Rightarrow> bool" where
  "splits t ps = (\<exists>seps. length seps = length ps \<and> list_all newline_or_none seps \<and> t = concat (map2 (@) ps seps))"

lemma chunk_loop_splits: "splits r (chunk_loop r)"
proof (induction r rule: chunk_loop.induct)
  case (1 r)
  let ?b = "chunk_boundary r"
  show ?case
  proof (cases "length r > 2000")
    case True
    obtain sep where sep: "newline_or_none sep" "drop ?b r = sep @ strip_newline (drop ?b r)"
      using strip_newline_eq by blast
    from 1 [OF True] obtain seps where seps: "length seps = length (chunk_loop (strip_newline (drop ?b r)))"
      "list_all newline_or_none seps"
      "strip_newline (drop ?b r) = concat (map2 (@) (chunk_loop (strip_newline (drop ?b r))) seps)"
      by (auto simp: splits_def)
    have "r = take ?b r @ sep @ strip_newline (drop ?b r)"
      using sep(2) append_take_drop_id [of ?b r] by metis
    with seps sep(1) True show ?thesis
      unfolding splits_def by (subst (1 2) chunk_loop.simps) (auto intro!: exI [of _ "sep # seps"])
  next
    case False
    then show ?thesis
      unfolding splits_def
      by (subst (1 2) chunk_loop.simps) (auto simp: newline_or_none_def intro: exI [of _ "[[]]"])
  qed
qed

lemma chunk_loop_sizes: "p \<in> set (chunk_loop r) \<Longrightarrow> p \<noteq> [] \<and> length p \<le> 2000"
proof (induction r rule: chunk_loop.induct)
  case (1 r)
  show ?case
  proof (cases "length r > 2000")
    case True
    with 1 chunk_boundary_bounds [of r] show ?thesis
      by (subst (asm) (2) chunk_loop.simps) auto
  next
    case False
    with 1(2) show ?thesis by (subst (asm) chunk_loop.simps) (auto split: if_splits)
  qed
qed

section \<open>The table of actions\<close>

lemma find_action_update:
  assumes "\<And>r. ar_action_id (f r) = ar_action_id r"
  shows "find_action i (sql_update (\<lambda>r. ar_action_id r = i) f rows) = map_option f (find_action i rows)"
  using assms by (simp add: find_action_def sql_get_update_key)

lemma find_action_upsert: "find_action i (upsert_action now i rows) \<noteq> None"
  by (auto simp: upsert_action_def find_action_update) (simp add: find_action_def sql_get_append)

lemma stored_upsert: "stored_result i (upsert_action now i rows) = stored_result i rows"
proof (cases "find_action i rows")
  case None
  then show ?thesis by (simp add: upsert_action_def stored_result_def) (simp add: find_action_def sql_get_append)
next
  case (Some r)
  then show ?thesis by (simp add: upsert_action_def stored_result_def find_action_update)
qed

lemma stored_succeed:
  assumes "find_action i rows \<noteq> None"
  shows "stored_result i (succeed_action now i v rows) = Some v"
  using assms by (auto simp: succeed_action_def stored_result_def find_action_update)

lemma chunks_not_Nil: "chunks t \<noteq> []"
  by (simp add: chunks_def) (subst chunk_loop.simps, simp)

lemma post_parts_first:
  "ps \<noteq> [] \<Longrightarrow> snd (post_parts post sp i ps final) \<noteq> [] \<and> hd (snd (post_parts post sp i ps final)) = part_body sp i (hd ps)"
  by (cases ps) (auto simp: Let_def split: sum.split prod.split)

lemma handle_stored:
  assumes "send_params_of params = Some sp" "stored_result (sp_action_id sp) rows = Some v"
  shows "handleLaneRequest w ''channel.message.send'' params rows = (Inr (as_duplicate v), rows, [])"
  using assms by (simp add: handleLaneRequest_def)

lemma handle_first_post:
  assumes "send_params_of params = Some sp" "stored_result (sp_action_id sp) rows = None"
  shows "snd (snd (handleLaneRequest w ''channel.message.send'' params rows)) \<noteq> [] \<and>
    hd (snd (snd (handleLaneRequest w ''channel.message.send'' params rows))) =
      part_body sp 0 (sw_text_of w (hd (chunks (sw_units_of w (sp_text sp)))))"
proof -
  let ?ps = "map (sw_text_of w) (chunks (sw_units_of w (sp_text sp)))"
  have ps: "?ps \<noteq> []" "hd ?ps = sw_text_of w (hd (chunks (sw_units_of w (sp_text sp))))"
    using chunks_not_Nil by (simp_all add: hd_map)
  have "snd (snd (handleLaneRequest w ''channel.message.send'' params rows)) = snd (post_parts (sw_post w) sp 0 ?ps None)"
    using assms by (simp add: handleLaneRequest_def Let_def split: prod.split sum.split)
  with post_parts_first [OF ps(1), of "sw_post w" sp 0 None] ps(2) show ?thesis by simp
qed

text \<open>A character outside the basic plane is a pair of code units.\<close>

definition high_surrogate :: "unit16 \<Rightarrow> bool" where
  "high_surrogate u = (0xD800 \<le> u \<and> u \<le> 0xDBFF)"

definition low_surrogate :: "unit16 \<Rightarrow> bool" where
  "low_surrogate u = (0xDC00 \<le> u \<and> u \<le> 0xDFFF)"

definition surrogate_pair :: "unit16 \<Rightarrow> unit16 \<Rightarrow> bool" where
  "surrogate_pair u v = (high_surrogate u \<and> low_surrogate v)"

lemma low_surrogate_not_newline: "\<not> low_surrogate newline"
  by (simp add: low_surrogate_def newline_def)

section \<open>Properties\<close>



text \<open>A part can end inside a character.  The text is cut by code units: in a text longer than two
  thousand of them, without a newline from the thousandth to there, a surrogate pair at the cut is
  divided, its first half ends one part and its second half begins the next.\<close>

theorem chunks_split_surrogate_pair:
  assumes "2000 < length t" "newline \<notin> set (drop 1000 (take 2001 t))"
    "surrogate_pair (t ! 1999) (t ! 2000)"
  shows "last (hd (chunks t)) = t ! 1999 \<and> hd (hd (tl (chunks t))) = t ! 2000 \<and>
    high_surrogate (last (hd (chunks t))) \<and> low_surrogate (hd (hd (tl (chunks t))))"
proof -
  have b: "chunk_boundary t = 2000"
  proof (cases "last_newline t")
    case (Some i)
    from last_newline_le [OF Some] have i: "i \<le> 2000" "i < length t" "t ! i = newline" by auto
    have "i < 1000"
    proof (rule ccontr)
      assume "\<not> i < 1000"
      with i assms(1) have "drop 1000 (take 2001 t) ! (i - 1000) = newline" "i - 1000 < length (drop 1000 (take 2001 t))"
        by simp_all
      with assms(2) nth_mem show False by metis
    qed
    with Some show ?thesis by (simp add: chunk_boundary_def)
  qed (simp add: chunk_boundary_def)
  let ?r = "drop 2000 t"
  have r: "?r \<noteq> []" "hd ?r = t ! 2000" using assms(1) by (simp_all add: hd_drop_conv_nth)
  have "t ! 2000 \<noteq> newline" using assms(3) low_surrogate_not_newline by (auto simp: surrogate_pair_def)
  with r have s: "strip_newline ?r = ?r" by (cases ?r) auto
  have c: "chunks t = take 2000 t # chunk_loop ?r"
    using assms(1) b s by (simp add: chunks_def chunk_loop.simps [of t])
  have l: "last (take 2000 t) = t ! 1999" 
  proof -
    have "take 2000 t \<noteq> []" "length (take 2000 t) = 2000" using assms(1) by auto
    then show ?thesis by (simp add: last_conv_nth del: length_take)
  qed
  have h: "hd (hd (chunk_loop ?r)) = t ! 2000"
    using r chunk_boundary_bounds [of ?r] by (simp add: chunk_loop.simps [of ?r])
  show ?thesis using assms(3) c l h by (simp add: surrogate_pair_def)
qed

theorem chunks_split_surrogate_pair_witness:
  "last (hd (chunks (replicate 1999 97 @ [55357, 56832]))) = 55357 \<and>
   hd (hd (tl (chunks (replicate 1999 97 @ [55357, 56832])))) = 56832"
  using chunks_split_surrogate_pair [of "replicate 1999 97 @ [55357, 56832]"]
  by (simp add: nth_append surrogate_pair_def high_surrogate_def low_surrogate_def newline_def)

text \<open>A send that succeeded is never posted again, and one that failed is posted again from its
  first part.  The row of an action answers for it only when every part was posted; after a failure
  in the middle, the repeated request starts over, and the parts already posted appear twice.\<close>

theorem send_posts_again_unless_succeeded:
  assumes "send_params_of params = Some sp" "handleLaneRequest w ''channel.message.send'' params rows = (r, rows', bodies)"
  shows "(\<forall>v. r = Inr v \<and> bodies \<noteq> [] \<longrightarrow>
      handleLaneRequest w' ''channel.message.send'' params rows' = (Inr (as_duplicate v), rows', [])) \<and>
    (\<forall>e. r = Inl e \<longrightarrow> bodies \<noteq> [] \<and>
      hd (snd (snd (handleLaneRequest w' ''channel.message.send'' params rows'))) =
        part_body sp 0 (sw_text_of w' (hd (chunks (sw_units_of w' (sp_text sp))))))"
proof (cases "stored_result (sp_action_id sp) rows")
  case (Some v)
  with handle_stored [OF assms(1) Some, of w] assms(2) show ?thesis by auto
next
  case None
  show ?thesis
  proof (intro conjI allI impI)
    fix v
    assume "r = Inr v \<and> bodies \<noteq> []"
    with None assms have rows': "rows' = succeed_action (sw_done w) (sp_action_id sp) v (upsert_action (sw_now w) (sp_action_id sp) rows)"
      by (auto simp: handleLaneRequest_def Let_def split: prod.splits sum.splits)
    show "handleLaneRequest w' ''channel.message.send'' params rows' = (Inr (as_duplicate v), rows', [])"
      by (rule handle_stored [OF assms(1)]) (simp add: rows' stored_succeed find_action_upsert)
  next
    fix e
    assume e: "r = Inl e"
    with None assms have "rows' = upsert_action (sw_now w) (sp_action_id sp) rows"
      by (auto simp: handleLaneRequest_def Let_def split: prod.splits sum.splits)
    with None have "stored_result (sp_action_id sp) rows' = None" by (simp add: stored_upsert)
    from handle_first_post [OF assms(1) this, of w']
    show "hd (snd (snd (handleLaneRequest w' ''channel.message.send'' params rows'))) =
        part_body sp 0 (sw_text_of w' (hd (chunks (sw_units_of w' (sp_text sp)))))" by blast
    from handle_first_post [OF assms(1) None, of w] assms(2) show "bodies \<noteq> []" by simp
  qed
qed

definition sample_send_world :: "exn + json \<Rightarrow> send_world" where
  "sample_send_world answer =
     \<lparr>sw_units_of = (\<lambda>s. map (\<lambda>c. of_nat (of_char c)) s), sw_text_of = (\<lambda>us. map (\<lambda>u. char_of (unat u)) us),
      sw_post = (\<lambda>i. answer), sw_now = 1, sw_done = 2, sw_iso = (\<lambda>t. ''t'')\<rparr>"

definition sample_send :: json where
  "sample_send = JObj [(''action_id'', JStr ''a''), (''text'', JStr ''hi''),
     (''conversation'', JObj [(''conversation_ref'', JStr ''c'')])]"

theorem send_posts_again_unless_succeeded_witness:
  "snd (snd (handleLaneRequest (sample_send_world (Inr JNull)) ''channel.message.send'' sample_send
     (fst (snd (handleLaneRequest (sample_send_world (Inr JNull)) ''channel.message.send'' sample_send []))))) = []"
proof -
  let ?w = "sample_send_world (Inr JNull)"
  obtain sp where sp: "send_params_of sample_send = Some sp" by (simp add: send_params_of_def sample_send_def)
  obtain r rows' bodies where h: "handleLaneRequest ?w ''channel.message.send'' sample_send [] = (r, rows', bodies)"
    by (metis surj_pair)
  have "stored_result (sp_action_id sp) [] = None" by (simp add: stored_result_def find_action_def)
  from handle_first_post [OF sp this, of ?w] h have bodies: "bodies \<noteq> []" by simp
  have post: "\<exists>fin bs. post_parts (sw_post ?w) sp i ps final = (Inr fin, bs)" for i ps final
  proof (induction ps arbitrary: i final)
    case (Cons p ps)
    from Cons [of "Suc i" "Some JNull"] show ?case by (auto simp: sample_send_world_def Let_def)
  qed simp
  have "\<exists>v. r = Inr v"
    using h sp post [of 0 "map (sw_text_of ?w) (chunks (sw_units_of ?w (sp_text sp)))" None]
    by (auto simp: handleLaneRequest_def stored_result_def find_action_def Let_def split: prod.splits)
  with send_posts_again_unless_succeeded [OF sp h, of ?w] bodies h show ?thesis by auto
qed

end
