(* ===== verification/Discord_Session.thy ===== *)
theory Discord_Session
  imports Discord Interfaces
begin

text \<open>
  \<open>#gatewaySession\<close> and \<open>stop\<close> of \<open>src/channel-driver/discord.ts\<close>: the sockets of the sessions, the
  intervals that send heartbeats and the listeners on the driver's abort signal.  A session begins with
  its socket open; a socket and an interval are the numbers of their making.  What comes of a message
  that \<open>#handleMessage\<close> takes is part of the event.
\<close>

section \<open>State\<close>

record gateway_socket =
  gk_open :: bool
  gk_settled :: "(exn + unit) option"

record gateways =
  gs_sockets :: "gateway_socket list"
  gs_state :: gateway_state
  gs_intervals :: "(nat \<times> nat) list"
  gs_heartbeat :: "nat option"
  gs_made :: nat
  gs_listeners :: nat
  gs_aborted :: bool

definition gateways_new :: gateways where
  "gateways_new = \<lparr>gs_sockets = [], gs_state = \<lparr>gw_sequence = None, gw_botId = None, gw_heartbeat = None\<rparr>, gs_intervals = [],
     gs_heartbeat = None, gs_made = 0, gs_listeners = 0, gs_aborted = False\<rparr>"

datatype gateway_event =
    Ge_open
  | Ge_message nat "json option" "exn option"
  | Ge_close nat
  | Ge_error nat
  | Ge_stop

datatype session_out = Go_identify nat | Go_close nat nat | Go_handle nat json

section \<open>Steps\<close>

text \<open>The promise of a session settles once.\<close>

definition settle_socket :: "exn + unit \<Rightarrow> gateway_socket \<Rightarrow> gateway_socket" where
  "settle_socket r k = k\<lparr>gk_settled := (case gk_settled k of None \<Rightarrow> Some r | Some q \<Rightarrow> Some q)\<rparr>"

definition alter_socket :: "nat \<Rightarrow> (gateway_socket \<Rightarrow> gateway_socket) \<Rightarrow> gateways \<Rightarrow> gateways" where
  "alter_socket k f gs = (if k < length (gs_sockets gs) then gs\<lparr>gs_sockets := (gs_sockets gs)[k := f (gs_sockets gs ! k)]\<rparr> else gs)"

definition gateway_is_open :: "nat \<Rightarrow> gateways \<Rightarrow> bool" where
  "gateway_is_open k gs = (k < length (gs_sockets gs) \<and> gk_open (gs_sockets gs ! k))"

text \<open>The loop runs one session at a time.\<close>

definition session_over :: "gateways \<Rightarrow> bool" where
  "session_over gs = (gs_sockets gs = [] \<or> gk_settled (last (gs_sockets gs)) \<noteq> None)"

definition gateway_open :: "gateways \<Rightarrow> gateways \<times> session_out list" where
  "gateway_open gs =
     (if gs_aborted gs \<or> \<not> session_over gs then (gs, [])
      else (gs\<lparr>gs_sockets := gs_sockets gs @ [\<lparr>gk_open = True, gk_settled = None\<rparr>], gs_listeners := gs_listeners gs + 1\<rparr>, []))"

fun payload_out :: "nat \<Rightarrow> exn option \<Rightarrow> gateway_out \<Rightarrow> gateways \<Rightarrow> gateways \<times> session_out list" where
  "payload_out k failed Gw_identify gs =
     (gs\<lparr>gs_intervals := gs_intervals gs @ [(gs_made gs, k)], gs_heartbeat := Some (gs_made gs), gs_made := gs_made gs + 1\<rparr>,
      [Go_identify k])"
| "payload_out k failed (Gw_close code) gs = (gs, [Go_close k code])"
| "payload_out k failed Gw_reject gs = (alter_socket k (settle_socket (Inl (PlainError ''TypeError''))) gs, [])"
| "payload_out k failed (Gw_message m) gs =
     ((case failed of None \<Rightarrow> gs | Some e \<Rightarrow> alter_socket k (settle_socket (Inl e)) gs), [Go_handle k m])"

fun payload_outs :: "nat \<Rightarrow> exn option \<Rightarrow> gateway_out list \<Rightarrow> gateways \<Rightarrow> gateways \<times> session_out list" where
  "payload_outs k failed [] gs = (gs, [])"
| "payload_outs k failed (g # os) gs =
     (let (gs', o1) = payload_out k failed g gs; (gs'', o2) = payload_outs k failed os gs' in (gs'', o1 @ o2))"

text \<open>A message whose text is no JSON rejects the session.\<close>

definition gateway_message :: "nat \<Rightarrow> json option \<Rightarrow> exn option \<Rightarrow> gateways \<Rightarrow> gateways \<times> session_out list" where
  "gateway_message k parsed failed gs =
     (if \<not> gateway_is_open k gs then (gs, [])
      else case parsed of
        None \<Rightarrow> (alter_socket k (settle_socket (Inl (PlainError ''SyntaxError''))) gs, [])
      | Some payload \<Rightarrow>
          (let (st, os) = gateway_payload payload (gs_state gs) in payload_outs k failed os (gs\<lparr>gs_state := st\<rparr>)))"

definition clear_heartbeat :: "gateways \<Rightarrow> gateways" where
  "clear_heartbeat gs =
     (case gs_heartbeat gs of None \<Rightarrow> gs | Some n \<Rightarrow> gs\<lparr>gs_intervals := filter (\<lambda>(m, k). m \<noteq> n) (gs_intervals gs)\<rparr>)"

definition gateway_closed :: "nat \<Rightarrow> gateways \<Rightarrow> gateways \<times> session_out list" where
  "gateway_closed k gs =
     (if \<not> gateway_is_open k gs then (gs, [])
      else (alter_socket k (\<lambda>s. settle_socket (Inr ()) (s\<lparr>gk_open := False\<rparr>)) ((clear_heartbeat gs)\<lparr>gs_heartbeat := None\<rparr>), []))"

text \<open>\<open>stop\<close> of the driver: every session there was still listens to the abort.\<close>

definition gateway_stop :: "gateways \<Rightarrow> gateways \<times> session_out list" where
  "gateway_stop gs =
     (if gs_aborted gs then (gs, [])
      else ((clear_heartbeat gs)\<lparr>gs_aborted := True, gs_listeners := 0, gs_sockets := map (settle_socket (Inr ())) (gs_sockets gs)\<rparr>,
        map (\<lambda>k. Go_close k 1000) [0..<length (gs_sockets gs)] @
        (if gs_sockets gs = [] then [] else [Go_close (length (gs_sockets gs) - 1) 1000])))"

fun gateway_step :: "gateway_event \<Rightarrow> gateways \<Rightarrow> gateways \<times> session_out list" where
  "gateway_step Ge_open gs = gateway_open gs"
| "gateway_step (Ge_message k parsed failed) gs = gateway_message k parsed failed gs"
| "gateway_step (Ge_close k) gs = gateway_closed k gs"
| "gateway_step (Ge_error k) gs =
     (if gateway_is_open k gs then (alter_socket k (settle_socket (Inl (PlainError ''Discord gateway error''))) gs, []) else (gs, []))"
| "gateway_step Ge_stop gs = gateway_stop gs"

section \<open>Lemmas\<close>

lemma alter_socket_simps [simp]:
  "length (gs_sockets (alter_socket k f gs)) = length (gs_sockets gs)" "gs_listeners (alter_socket k f gs) = gs_listeners gs"
  "gs_intervals (alter_socket k f gs) = gs_intervals gs" "gs_heartbeat (alter_socket k f gs) = gs_heartbeat gs"
  "gs_made (alter_socket k f gs) = gs_made gs"
  by (simp_all add: alter_socket_def)

lemma payload_outs_counts:
  "length (gs_sockets (fst (payload_outs k failed os gs))) = length (gs_sockets gs) \<and>
    gs_listeners (fst (payload_outs k failed os gs)) = gs_listeners gs"
proof (induction os arbitrary: gs)
  case (Cons g os)
  then show ?case by (cases g) (auto simp: Let_def split_beta split: option.split)
qed simp

lemma clear_heartbeat_simps [simp]:
  "gs_sockets (clear_heartbeat gs) = gs_sockets gs" "gs_listeners (clear_heartbeat gs) = gs_listeners gs"
  "gs_made (clear_heartbeat gs) = gs_made gs" "gs_heartbeat (clear_heartbeat gs) = gs_heartbeat gs"
  by (simp_all add: clear_heartbeat_def split: option.split)

lemma step_listeners:
  assumes "e \<noteq> Ge_stop" "gs_listeners gs = length (gs_sockets gs)"
  shows "gs_listeners (fst (gateway_step e gs)) = length (gs_sockets (fst (gateway_step e gs)))"
  using assms
  by (cases e)
    (auto simp: gateway_open_def gateway_message_def gateway_closed_def payload_outs_counts split_beta Let_def split: option.split)

text \<open>An interval that is not the current one runs for ever.\<close>

definition lost_interval :: "nat \<times> nat \<Rightarrow> gateways \<Rightarrow> bool" where
  "lost_interval n gs = (n \<in> set (gs_intervals gs) \<and> gs_heartbeat gs \<noteq> Some (fst n) \<and> fst n < gs_made gs)"

lemma payload_outs_lost: "lost_interval n gs \<Longrightarrow> lost_interval n (fst (payload_outs k failed os gs))"
proof (induction os arbitrary: gs)
  case (Cons g os)
  have "lost_interval n (fst (payload_out k failed g gs))"
    using Cons.prems by (cases g) (auto simp: lost_interval_def split: option.split)
  with Cons.IH show ?case by (simp add: Let_def split_beta)
qed simp

lemma step_lost: "lost_interval n gs \<Longrightarrow> lost_interval n (fst (gateway_step e gs))"
proof (cases e)
  case (Ge_message k parsed failed)
  assume "lost_interval n gs"
  then have "lost_interval n (gs\<lparr>gs_state := st\<rparr>)" for st by (simp add: lost_interval_def)
  with \<open>lost_interval n gs\<close> payload_outs_lost show ?thesis
    by (auto simp: Ge_message gateway_message_def lost_interval_def split_beta Let_def split: option.split)
qed (auto simp: lost_interval_def gateway_open_def gateway_closed_def gateway_stop_def clear_heartbeat_def split: option.split)

lemma runs_lost: "lost_interval n gs \<Longrightarrow> lost_interval n (fst (runs gateway_step es gs))"
  using step_lost by (induction es arbitrary: gs) (simp_all add: Let_def split_beta del: gateway_step.simps)

definition created :: "json \<Rightarrow> json" where
  "created m = JObj [(''op'', JNum 0), (''t'', JStr ''MESSAGE_CREATE''), (''d'', m)]"

definition hello :: json where
  "hello = JObj [(''op'', JNum 10), (''d'', JObj [])]"

lemma gateway_payload_simps [simp]:
  "gateway_payload (created m) st = (st, [Gw_message m])"
  "gateway_payload hello st = (st\<lparr>gw_heartbeat := Some 45000\<rparr>, [Gw_identify])"
  by (simp_all add: gateway_payload_def created_def hello_def nullish_def)

section \<open>Properties\<close>

text \<open>Every reconnection leaves a listener on the abort signal.  However the sessions end, none takes its
  listener back, so after any number of sessions there are as many.\<close>

theorem sessions_leak_listeners:
  assumes "runs gateway_step es gateways_new = (gs, outs)" "Ge_stop \<notin> set es"
  shows "gs_listeners gs = length (gs_sockets gs)"
proof -
  have "gs_listeners (fst (runs gateway_step es gs)) = length (gs_sockets (fst (runs gateway_step es gs)))"
    if "gs_listeners gs = length (gs_sockets gs)" "Ge_stop \<notin> set es" for gs
    using that
  proof (induction es arbitrary: gs)
    case (Cons a es)
    then have "gs_listeners (fst (gateway_step a gs)) = length (gs_sockets (fst (gateway_step a gs)))" by (intro step_listeners) auto
    with Cons show ?case by (simp add: Let_def split_beta del: gateway_step.simps)
  qed simp
  from this [of gateways_new] assms show ?thesis by (simp add: gateways_new_def)
qed

theorem sessions_leak_listeners_witness:
  "gs_listeners (fst (runs gateway_step [Ge_open, Ge_close 0, Ge_open, Ge_error 1, Ge_close 1, Ge_open] gateways_new)) = 3"
proof -
  obtain gs outs where r: "runs gateway_step [Ge_open, Ge_close 0, Ge_open, Ge_error 1, Ge_close 1, Ge_open] gateways_new = (gs, outs)"
    by (cases "runs gateway_step [Ge_open, Ge_close 0, Ge_open, Ge_error 1, Ge_close 1, Ge_open] gateways_new")
  have "length (gs_sockets (fst (runs gateway_step [Ge_open, Ge_close 0, Ge_open, Ge_error 1, Ge_close 1, Ge_open] gateways_new))) = 3"
    by (simp add: gateways_new_def gateway_open_def gateway_closed_def session_over_def gateway_is_open_def alter_socket_def settle_socket_def
        clear_heartbeat_def)
  with sessions_leak_listeners [OF r] r show ?thesis by simp
qed

text \<open>A session that is rejected keeps its socket.  When the handling of one message fails, the driver begins
  a new session and does not close the old socket, so from then on each message is handled twice, once
  for each socket; and the heartbeat of the old socket, which the new one's replaces, is never stopped,
  whatever happens later, the stop of the driver included.\<close>

theorem rejected_session_keeps_serving:
  "let (gs, outs) = runs gateway_step [Ge_open, Ge_message 0 (Some hello) None, Ge_message 0 (Some (created m)) (Some e),
      Ge_open, Ge_message 1 (Some hello) None, Ge_message 0 (Some (created m')) None, Ge_message 1 (Some (created m')) None] gateways_new in
    outs = [Go_identify 0, Go_handle 0 m, Go_identify 1, Go_handle 0 m', Go_handle 1 m'] \<and>
    (0, 0) \<in> set (gs_intervals (fst (runs gateway_step es gs)))"
proof -
  let ?es = "[Ge_open, Ge_message 0 (Some hello) None, Ge_message 0 (Some (created m)) (Some e),
      Ge_open, Ge_message 1 (Some hello) None, Ge_message 0 (Some (created m')) None, Ge_message 1 (Some (created m')) None]"
  obtain gs outs where r: "runs gateway_step ?es gateways_new = (gs, outs)" by (cases "runs gateway_step ?es gateways_new")
  then have "outs = [Go_identify 0, Go_handle 0 m, Go_identify 1, Go_handle 0 m', Go_handle 1 m'] \<and> lost_interval (0, 0) gs"
    by (auto simp: gateways_new_def gateway_open_def gateway_message_def session_over_def gateway_is_open_def alter_socket_def settle_socket_def
        lost_interval_def)
  with runs_lost [of "(0, 0)" gs es] show ?thesis unfolding r by (simp add: lost_interval_def)
qed

end
