(* ===== verification/Pane.thy ===== *)
theory Pane
  imports Prelude "HOL-Library.Word"
begin

text \<open>
  Reading a terminal: what \<open>src/runtime/claude-supervisor.ts\<close> looks for in the text of a pane.  The text is
  its UTF-16 code units, and each regular expression is the search it stands for; none of them needs to
  backtrack, because white space, the cursor and the digits exclude one another.
\<close>

type_synonym pane = "16 word list"

section \<open>Characters\<close>

definition space16 :: "16 word \<Rightarrow> bool" where
  "space16 u =
     (9 \<le> u \<and> u \<le> 13 \<or> u = 32 \<or> u = 0xA0 \<or> u = 0x1680 \<or> 0x2000 \<le> u \<and> u \<le> 0x200A \<or>
      u = 0x2028 \<or> u = 0x2029 \<or> u = 0x202F \<or> u = 0x205F \<or> u = 0x3000 \<or> u = 0xFEFF)"

definition digit16 :: "16 word \<Rightarrow> bool" where
  "digit16 u = (48 \<le> u \<and> u \<le> 57)"

definition line_end16 :: "16 word \<Rightarrow> bool" where
  "line_end16 u = (u = 10 \<or> u = 13 \<or> u = 0x2028 \<or> u = 0x2029)"

definition ascii16 :: "string \<Rightarrow> pane" where
  "ascii16 s = map (\<lambda>c. of_nat (of_char c)) s"

definition trim16 :: "pane \<Rightarrow> pane" where
  "trim16 t = rev (dropWhile space16 (rev (dropWhile space16 t)))"

fun includes16 :: "pane \<Rightarrow> pane \<Rightarrow> bool" where
  "includes16 [] p = (p = [])"
| "includes16 (x # xs) p = (take (length p) (x # xs) = p \<or> includes16 xs p)"

fun split_lines :: "pane \<Rightarrow> pane list" where
  "split_lines [] = [[]]"
| "split_lines (u # us) =
     (if u = 10 then [] # split_lines us
      else (case split_lines us of l # ls \<Rightarrow> (u # l) # ls | [] \<Rightarrow> [[u]]))"

section \<open>The selection cursor\<close>

text \<open>A number with its dot and a white space: \<open>\d+\.\s\<close> at the front, and its instance \<open>1\.\s\<close>.\<close>

fun dot_space :: "pane \<Rightarrow> bool" where
  "dot_space (d # s # r) = (d = 46 \<and> space16 s)"
| "dot_space _ = False"

definition choice_at :: "pane \<Rightarrow> bool" where
  "choice_at t = (takeWhile digit16 t \<noteq> [] \<and> dot_space (dropWhile digit16 t))"

fun first_choice_at :: "pane \<Rightarrow> bool" where
  "first_choice_at (u # r) = (u = 49 \<and> dot_space r)"
| "first_choice_at [] = False"

text \<open>\<open>\s*\u276f\s*\<close> at the front, and what follows it.\<close>

definition cursor_then :: "(pane \<Rightarrow> bool) \<Rightarrow> pane \<Rightarrow> bool" where
  "cursor_then p t =
     (case dropWhile space16 t of [] \<Rightarrow> False | u # r \<Rightarrow> u = 0x276F \<and> p (dropWhile space16 r))"

text \<open>The starts of lines of the flag \<open>m\<close>: the front, and what follows a line terminator.\<close>

fun line_starts :: "pane \<Rightarrow> pane list" where
  "line_starts [] = []"
| "line_starts (u # us) = (if line_end16 u then [us] else []) @ line_starts us"

definition asks_first :: "pane \<Rightarrow> bool" where
  "asks_first t = list_ex (cursor_then first_choice_at) (t # line_starts t)"

section \<open>The question\<close>

definition rule_line :: "pane \<Rightarrow> bool" where
  "rule_line l = list_all (\<lambda>u. 0x2500 \<le> u \<and> u \<le> 0x257F \<or> space16 u) l"

definition question_candidates :: "pane list \<Rightarrow> nat \<Rightarrow> pane list" where
  "question_candidates ls cursor =
     filter (\<lambda>l. l \<noteq> [] \<and> \<not> choice_at l \<and> \<not> rule_line l) (map trim16 (take 14 (rev (take cursor ls))))"

definition longest16 :: "pane list \<Rightarrow> pane option" where
  "longest16 ls =
     fold (\<lambda>l best. case best of None \<Rightarrow> Some l | Some b \<Rightarrow> if length b < length l then Some l else Some b) ls None"

fun find_line :: "(pane \<Rightarrow> bool) \<Rightarrow> pane list \<Rightarrow> nat option" where
  "find_line p [] = None"
| "find_line p (l # ls) = (if p l then Some 0 else map_option Suc (find_line p ls))"

definition pane_question :: "pane \<Rightarrow> pane option" where
  "pane_question t =
     (let ls = split_lines t in
      case find_line (cursor_then choice_at) ls of
        None \<Rightarrow> None
      | Some cursor \<Rightarrow>
          (let candidates = question_candidates ls cursor in
           Some (take 160 (case List.find (\<lambda>l. 63 \<in> set l) candidates of
             Some l \<Rightarrow> l
           | None \<Rightarrow> (case longest16 candidates of Some l \<Rightarrow> l | None \<Rightarrow> ascii16 ''waiting for a keyboard answer'')))))"

end
