(* ===== verification/Discord_Run.thy ===== *)
theory Discord_Run
  imports Discord_Session Driver_Client Pane
begin

text \<open>
  \<open>create\<close>, \<open>start\<close>, \<open>#run\<close> and \<open>stop\<close> of \<open>src/channel-driver/discord.ts\<close>, with
  \<open>abortableDelay\<close> and \<open>runDiscordDriver\<close>: how a driver is made, what its loop waits for and what ends
  it.  An event is the end of something the loop waits for, or a call.  What a session does with its
  messages is in \<open>Discord_Session\<close>; here one of them may reject it.
\<close>

section \<open>Making a driver\<close>

record discord_parts =
  dp_identity :: driver_identity
  dp_config :: discord_config
  dp_token :: pane
  dp_rows :: "action_row list"

text \<open>The constructor: what it gives the client of the lane, and the table, made when there is none.\<close>

definition discord_driver ::
  "string \<Rightarrow> string \<Rightarrow> string \<Rightarrow> json \<Rightarrow> pane \<Rightarrow> string \<Rightarrow> string \<Rightarrow> action_row list option \<Rightarrow> discord_parts"
where
  "discord_driver lane channel account_ref options token staging accountRef stored =
     \<lparr>dp_identity = \<lparr>di_laneId = lane, di_driverInstanceId = channel, di_provider = ''discord'', di_accountRef = accountRef,
        di_stagingRoot = staging, di_capabilities = [''message.receive'', ''message.send'']\<rparr>,
      dp_config = discord_config_of channel account_ref options, dp_token = token,
      dp_rows = (case stored of None \<Rightarrow> [] | Some rows \<Rightarrow> rows)\<rparr>"

text \<open>What the calls of \<open>create\<close> give: the directory, the secret, the id in the answer of \<open>/users/@me\<close> and the opening of
  the database.\<close>

record create_world =
  cw_mkdir :: "exn + unit"
  cw_secret :: "exn + pane"
  cw_me :: "exn + string"
  cw_database :: "exn + action_row list option"

text \<open>\<open>account_ref || me.id\<close>.\<close>

definition account_of :: "string \<Rightarrow> string \<Rightarrow> string" where
  "account_of account_ref me = (if account_ref \<noteq> [] then account_ref else me)"

definition discord_create ::
  "create_world \<Rightarrow> string \<Rightarrow> string \<Rightarrow> string \<Rightarrow> json \<Rightarrow> string \<Rightarrow> exn + discord_parts"
where
  "discord_create w lane channel account_ref options staging =
     sbind (cw_mkdir w) (\<lambda>u. sbind (cw_secret w) (\<lambda>secret.
       let token = trim16 secret in
       if token = [] then Inl (PlainError ''Discord bot token is empty'')
       else sbind (cw_me w) (\<lambda>me. sbind (cw_database w) (\<lambda>stored.
         Inr (discord_driver lane channel account_ref options token staging (account_of account_ref me) stored)))))"

section \<open>The loop\<close>

text \<open>What the loop waits for: the connection to the lane, the address of the gateway, the opening of a socket,
  the end of its session, the delay.\<close>

datatype discord_phase =
    Dp_idle
  | Dp_connecting
  | Dp_asking
  | Dp_opening nat
  | Dp_session nat
  | Dp_delay
  | Dp_ended

text \<open>A socket is the number of its making.  \<open>dr_listening\<close> are the sessions whose listener is on the abort
  signal, \<open>dr_stops\<close> the calls of \<open>stop\<close> that wait for the loop.\<close>

record discord_run =
  dr_phase :: discord_phase
  dr_attempt :: nat
  dr_made :: nat
  dr_gateway :: "nat option"
  dr_listening :: "nat list"
  dr_aborted :: bool
  dr_stops :: nat

definition discord_run_new :: discord_run where
  "discord_run_new = \<lparr>dr_phase = Dp_idle, dr_attempt = 0, dr_made = 0, dr_gateway = None, dr_listening = [],
     dr_aborted = False, dr_stops = 0\<rparr>"

datatype run_out =
    Ro_connect
  | Ro_ask
  | Ro_socket nat string
  | Ro_close nat nat
  | Ro_print string
  | Ro_delay nat
  | Ro_client_close
  | Ro_database_close

datatype run_event =
    Re_start
  | Re_connected "exn + unit"
  | Re_asked "exn + string"
  | Re_opened nat
  | Re_error nat
  | Re_closed nat
  | Re_rejected nat exn
  | Re_timer
  | Re_stop

text \<open>The condition of the loop, and its end: each \<open>stop\<close> that waits goes on and closes the database.\<close>

definition run_again :: "discord_run \<Rightarrow> discord_run \<times> run_out list" where
  "run_again dr =
     (if dr_aborted dr then (dr\<lparr>dr_phase := Dp_ended, dr_stops := 0\<rparr>, replicate (dr_stops dr) Ro_database_close)
      else (dr\<lparr>dr_phase := Dp_connecting\<rparr>, [Ro_connect]))"

text \<open>After a session, or the exception that ended it: the delay, unless the driver stops.\<close>

definition run_wait :: "discord_run \<Rightarrow> discord_run \<times> run_out list" where
  "run_wait dr =
     (if dr_aborted dr then run_again dr
      else (dr\<lparr>dr_phase := Dp_delay, dr_attempt := Suc (dr_attempt dr)\<rparr>, [Ro_delay (min 30000 (1000 * 2 ^ min (dr_attempt dr) 5))]))"

definition run_threw :: "exn \<Rightarrow> discord_run \<Rightarrow> discord_run \<times> run_out list" where
  "run_threw e dr = (let (dr', outs) = run_wait dr in (dr', Ro_print (exn_message e) # outs))"

definition run_over :: "discord_run \<Rightarrow> discord_run \<times> run_out list" where
  "run_over dr = run_wait (dr\<lparr>dr_attempt := 0\<rparr>)"

text \<open>\<open>abortableDelay\<close> ends with its timer or with the abort.  A listener that is added to a signal that has
  fired is not called.\<close>

definition run_opened :: "nat \<Rightarrow> discord_run \<Rightarrow> discord_run \<times> run_out list" where
  "run_opened k dr =
     (dr\<lparr>dr_phase := Dp_session k, dr_listening := dr_listening dr @ (if dr_aborted dr then [] else [k])\<rparr>, [])"

text \<open>The abort: the sessions that listen close their sockets, and the one the loop waits for is over.\<close>

definition run_abort :: "discord_run \<Rightarrow> discord_run \<times> run_out list" where
  "run_abort dr =
     (if dr_aborted dr then (dr, [])
      else (dr\<lparr>dr_aborted := True, dr_listening := []\<rparr>, map (\<lambda>k. Ro_close k 1000) (dr_listening dr)))"

text \<open>What the loop does once \<open>stop\<close> waits for it: the delay or the session it waited for may be over.\<close>

definition run_released :: "discord_run \<Rightarrow> discord_run \<Rightarrow> discord_run \<times> run_out list" where
  "run_released before dr =
     (case dr_phase dr of
        Dp_delay \<Rightarrow> run_again dr
      | Dp_session k \<Rightarrow> if k \<in> set (dr_listening before) \<and> \<not> dr_aborted before then run_over dr else (dr, [])
      | _ \<Rightarrow> (dr, []))"

definition run_stop :: "discord_run \<Rightarrow> discord_run \<times> run_out list" where
  "run_stop dr =
     (let (dr1, closes) = run_abort dr;
          outs = closes @ (case dr_gateway dr of None \<Rightarrow> [] | Some k \<Rightarrow> [Ro_close k 1000]) @ [Ro_client_close] in
      if dr_phase dr = Dp_idle \<or> dr_phase dr = Dp_ended then (dr1, outs @ [Ro_database_close])
      else (let (dr2, rest) = run_released dr (dr1\<lparr>dr_stops := Suc (dr_stops dr1)\<rparr>) in (dr2, outs @ rest)))"

fun run_step :: "run_event \<Rightarrow> discord_run \<Rightarrow> discord_run \<times> run_out list" where
  "run_step Re_start dr = (if dr_phase dr = Dp_idle then run_again dr else (dr, []))"
| "run_step (Re_connected r) dr =
     (if dr_phase dr \<noteq> Dp_connecting then (dr, [])
      else case r of Inl e \<Rightarrow> run_threw e dr | Inr u \<Rightarrow> (dr\<lparr>dr_phase := Dp_asking\<rparr>, [Ro_ask]))"
| "run_step (Re_asked r) dr =
     (if dr_phase dr \<noteq> Dp_asking then (dr, [])
      else case r of
        Inl e \<Rightarrow> run_threw e dr
      | Inr url \<Rightarrow>
          (dr\<lparr>dr_phase := Dp_opening (dr_made dr), dr_gateway := Some (dr_made dr), dr_made := Suc (dr_made dr)\<rparr>,
           [Ro_socket (dr_made dr) (url @ ''?v=10&encoding=json'')]))"
| "run_step (Re_opened k) dr = (if dr_phase dr = Dp_opening k then run_opened k dr else (dr, []))"
| "run_step (Re_error k) dr =
     (if dr_phase dr = Dp_opening k then run_threw (PlainError ''Discord gateway failed'') dr
      else if dr_phase dr = Dp_session k then run_threw (PlainError ''Discord gateway error'') dr
      else (dr, []))"
| "run_step (Re_closed k) dr = (if dr_phase dr = Dp_session k then run_over dr else (dr, []))"
| "run_step (Re_rejected k e) dr = (if dr_phase dr = Dp_session k then run_threw e dr else (dr, []))"
| "run_step Re_timer dr = (if dr_phase dr = Dp_delay then run_again dr else (dr, []))"
| "run_step Re_stop dr = run_stop dr"

text \<open>\<open>runDiscordDriver\<close>: the first of the signals stops the driver, and it returns when \<open>stop\<close> has.  \<open>Re_stop\<close>
  is a signal that finds its listener; the listener of each kind takes one.\<close>

fun driver_signals :: "run_event list \<Rightarrow> bool \<Rightarrow> run_event list" where
  "driver_signals [] stopping = []"
| "driver_signals (e # es) stopping =
     (if e = Re_stop then (if stopping then [] else [Re_stop]) @ driver_signals es True
      else e # driver_signals es stopping)"

definition runDiscordDriver :: "exn + discord_parts \<Rightarrow> run_event list \<Rightarrow> exn + (discord_run \<times> run_out list \<times> bool)" where
  "runDiscordDriver made es =
     sbind made (\<lambda>parts.
       let (dr, outs) = runs run_step (Re_start # driver_signals es False) discord_run_new in
       Inr (dr, outs, Ro_database_close \<in> set outs))"

section \<open>Lemmas\<close>

lemmas run_defs = run_again_def run_wait_def run_threw_def run_over_def run_opened_def run_abort_def run_released_def run_stop_def

lemma run_step_aborted: "dr_aborted dr \<Longrightarrow> dr_aborted (fst (run_step e dr))"
  by (cases e) (auto simp: run_defs Let_def split: sum.splits discord_phase.splits)

text \<open>A driver that stops makes no connection and waits for no delay.\<close>

definition run_goes_on :: "run_out \<Rightarrow> bool" where
  "run_goes_on out = (case out of Ro_connect \<Rightarrow> True | Ro_delay ms \<Rightarrow> True | _ \<Rightarrow> False)"

lemma run_step_stopped: "dr_aborted dr \<Longrightarrow> list_all (\<lambda>out. \<not> run_goes_on out) (snd (run_step e dr))"
  by (cases e) (auto simp: run_defs Let_def run_goes_on_def list_all_iff split: sum.splits discord_phase.splits option.splits if_splits)

lemma runs_stopped: "dr_aborted dr \<Longrightarrow> list_all (\<lambda>out. \<not> run_goes_on out) (snd (runs run_step es dr))"
proof (induction es arbitrary: dr)
  case (Cons e es)
  then show ?case using run_step_stopped [of dr e] run_step_aborted [of dr e] by (simp add: Let_def split_beta del: run_step.simps)
qed simp

text \<open>While the driver runs, the session that the loop waits for listens to the abort, and the socket that
  it opens is the last that was made.\<close>

definition run_ok :: "discord_run \<Rightarrow> bool" where
  "run_ok dr =
     (\<not> dr_aborted dr \<and> dr_stops dr = 0 \<and> dr_phase dr \<noteq> Dp_ended \<and>
      (\<forall>k. dr_phase dr = Dp_session k \<longrightarrow> k \<in> set (dr_listening dr)))"

lemma run_ok_new: "run_ok discord_run_new"
  by (simp add: run_ok_def discord_run_new_def)

lemma run_ok_step: "run_ok dr \<Longrightarrow> e \<noteq> Re_stop \<Longrightarrow> run_ok (fst (run_step e dr))"
  by (cases e) (auto simp: run_defs run_ok_def Let_def split: sum.splits)

lemma run_ok_runs: "run_ok dr \<Longrightarrow> Re_stop \<notin> set es \<Longrightarrow> run_ok (fst (runs run_step es dr))"
proof (induction es arbitrary: dr)
  case (Cons e es)
  then have "run_ok (fst (run_step e dr))" by (intro run_ok_step) auto
  with Cons show ?case by (simp add: Let_def split_beta del: run_step.simps)
qed simp

text \<open>The delays of a run, and which of the sessions before them ended without an exception.\<close>

definition run_delays :: "run_out list \<Rightarrow> nat list" where
  "run_delays outs = List.map_filter (\<lambda>out. case out of Ro_delay ms \<Rightarrow> Some ms | _ \<Rightarrow> None) outs"

fun clean_ends :: "run_out list \<Rightarrow> bool list" where
  "clean_ends [] = []"
| "clean_ends (Ro_print m # Ro_delay ms # outs) = False # clean_ends outs"
| "clean_ends (Ro_delay ms # outs) = True # clean_ends outs"
| "clean_ends (out # outs) = clean_ends outs"

lemma run_delays_simps [simp]:
  "run_delays [] = []" "run_delays (Ro_delay ms # outs) = ms # run_delays outs" "run_delays (Ro_print m # outs) = run_delays outs"
  "run_delays (Ro_connect # outs) = run_delays outs" "run_delays (Ro_ask # outs) = run_delays outs"
  "run_delays (Ro_socket k url # outs) = run_delays outs"
  by (simp_all add: run_delays_def List.map_filter_simps)

lemma runs_delays:
  "run_ok dr \<Longrightarrow> Re_stop \<notin> set es \<Longrightarrow>
    run_delays (snd (runs run_step es dr)) = discord_delays (clean_ends (snd (runs run_step es dr))) (dr_attempt dr)"
proof (induction es arbitrary: dr)
  case (Cons e es)
  let ?dr = "fst (run_step e dr)" and ?rest = "snd (runs run_step es (fst (run_step e dr)))"
  have "run_ok ?dr" using Cons.prems by (intro run_ok_step) auto
  then have ih: "run_delays ?rest = discord_delays (clean_ends ?rest) (dr_attempt ?dr)" using Cons by auto
  have na: "\<not> dr_aborted dr" using Cons.prems by (simp add: run_ok_def)
  have "run_delays (snd (run_step e dr) @ ?rest) = discord_delays (clean_ends (snd (run_step e dr) @ ?rest)) (dr_attempt dr)"
    using ih na Cons.prems(2) by (cases e) (auto simp: run_defs Let_def split: sum.splits)
  then show ?case by (simp add: Let_def split_beta del: run_step.simps)
qed simp

lemma discord_delays_bounds: "ms \<in> set (discord_delays ends a) \<Longrightarrow> 1000 \<le> ms \<and> ms \<le> 30000"
  by (induction ends a rule: discord_delays.induct) (auto simp: Let_def)

text \<open>What ends the session of a socket.\<close>

definition ends_session :: "nat \<Rightarrow> run_event \<Rightarrow> bool" where
  "ends_session k e = (case e of Re_error j \<Rightarrow> j = k | Re_closed j \<Rightarrow> j = k | Re_rejected j x \<Rightarrow> j = k | _ \<Rightarrow> False)"

lemma session_step_still:
  "dr_phase dr = Dp_session k \<Longrightarrow> \<not> ends_session k e \<Longrightarrow> e \<noteq> Re_stop \<Longrightarrow> run_step e dr = (dr, [])"
  by (cases e) (auto simp: ends_session_def)

lemma session_runs_still:
  "dr_phase dr = Dp_session k \<Longrightarrow> list_all (\<lambda>e. \<not> ends_session k e) es \<Longrightarrow> runs run_step (driver_signals es True) dr = (dr, [])"
  by (induction es) (auto simp: session_step_still simp del: run_step.simps)

section \<open>Properties\<close>



text \<open>A driver that is stopped while it asks for the address of the gateway does not end.  The answer makes a
  socket although the driver stops, and the listener that its session then adds to the abort signal is
  never called: until that session ends by itself the loop is in it, whatever else happens and though the
  other signal comes as well, nothing closes its socket or the database, and \<open>runDiscordDriver\<close> does
  not return.\<close>

theorem late_gateway_outlives_stop:
  assumes "list_all (\<lambda>e. \<not> ends_session 0 e) es"
  shows "\<exists>dr. runDiscordDriver (Inr parts) ([Re_connected (Inr ()), Re_stop, Re_asked (Inr url), Re_opened 0] @ es) =
      Inr (dr, [Ro_connect, Ro_ask, Ro_client_close, Ro_socket 0 (url @ ''?v=10&encoding=json'')], False) \<and>
    dr_phase dr = Dp_session 0 \<and> dr_aborted dr"
  using session_runs_still [OF _ assms, of "\<lparr>dr_phase = Dp_session 0, dr_attempt = 0, dr_made = 1, dr_gateway = Some 0, dr_listening = [],
     dr_aborted = True, dr_stops = 1\<rparr>"]
  by (simp add: runDiscordDriver_def discord_run_new_def run_defs Let_def)

theorem late_gateway_outlives_stop_witness:
  "let parts = discord_driver ''lane'' ''channel'' ''account'' (JObj []) [] ''/staging'' ''account'' None in
    \<exists>dr. runDiscordDriver (Inr parts) [Re_connected (Inr ()), Re_stop, Re_asked (Inr ''wss://g''), Re_opened 0, Re_timer, Re_stop] =
      Inr (dr, [Ro_connect, Ro_ask, Ro_client_close, Ro_socket 0 ''wss://g?v=10&encoding=json''], False) \<and>
    dr_phase dr = Dp_session 0 \<and> dr_aborted dr"
  using late_gateway_outlives_stop
    [of "[Re_timer, Re_stop]" "discord_driver ''lane'' ''channel'' ''account'' (JObj []) [] ''/staging'' ''account'' None" "''wss://g''"]
  by (simp add: ends_session_def Let_def)

text \<open>The delays of the loop follow its failures.  In a run before the stop they are those of the back-off, from
  the number of sessions that failed since the last that ended cleanly, each between one and thirty
  seconds; after the stop there is no delay, and no connection either.\<close>

theorem loop_backs_off:
  assumes "runs run_step es discord_run_new = (dr, outs)" "Re_stop \<notin> set es"
  shows "run_delays outs = discord_delays (clean_ends outs) 0 \<and> (\<forall>ms\<in>set (run_delays outs). 1000 \<le> ms \<and> ms \<le> 30000) \<and>
    list_all (\<lambda>out. \<not> run_goes_on out) (snd (runs run_step (Re_stop # es') dr))"
proof -
  have d: "run_delays outs = discord_delays (clean_ends outs) 0"
    using runs_delays [OF run_ok_new assms(2)] assms(1) by (simp add: discord_run_new_def)
  have "dr_aborted (fst (run_stop dr))" by (auto simp: run_defs Let_def split: discord_phase.splits)
  then have after: "list_all (\<lambda>out. \<not> run_goes_on out) (snd (runs run_step es' (fst (run_stop dr))))" by (rule runs_stopped)
  have "run_ok dr" using run_ok_runs [OF run_ok_new assms(2)] assms(1) by simp
  then have "list_all (\<lambda>out. \<not> run_goes_on out) (snd (run_stop dr))"
    by (auto simp: run_ok_def run_defs run_goes_on_def Let_def list_all_iff split: option.splits discord_phase.splits)
  with d after discord_delays_bounds show ?thesis by (auto simp: Let_def split_beta)
qed

theorem loop_backs_off_witness:
  "run_delays (snd (runs run_step [Re_start, Re_connected (Inl (PlainError ''refused'')), Re_timer, Re_connected (Inl (PlainError ''refused''))] discord_run_new)) =
     discord_delays [False, False] 0"
proof -
  let ?es = "[Re_start, Re_connected (Inl (PlainError ''refused'')), Re_timer, Re_connected (Inl (PlainError ''refused''))]"
  obtain dr outs where r: "runs run_step ?es discord_run_new = (dr, outs)" by (cases "runs run_step ?es discord_run_new")
  then have "clean_ends outs = [False, False]" by (auto simp: discord_run_new_def run_defs Let_def)
  with loop_backs_off [OF r] r show ?thesis by simp
qed

end
