(* ===== verification/Paths.thy ===== *)
theory Paths
  imports Blob_Spool Bytes
begin

unbundle bit_operations_syntax

text \<open>
  \<open>src/config/paths.ts\<close>, \<open>src/config/locations.ts\<close> and \<open>src/hub/endpoints.ts\<close>: the names of a
  lane's files and sockets, the default directories and the two endpoints of a Hub.  SHA-256 (in
  hexadecimal) and the parser of URLs are arguments; a parsed URL is a record, which \<open>url_text\<close> prints.
  \<open>probeHub\<close> has the Hub's answer as an argument.  \<open>path_join\<close> is \<open>join\<close> of \<open>node:path\<close> for POSIX.
\<close>

section \<open>Joining paths\<close>

fun split_slash :: "string \<Rightarrow> string \<Rightarrow> string list" where
  "split_slash acc [] = [rev acc]"
| "split_slash acc (c # cs) = (if c = CHR ''/'' then rev acc # split_slash [] cs else split_slash (c # acc) cs)"

text \<open>The segments kept so far are a stack.\<close>

fun norm_segments :: "bool \<Rightarrow> string list \<Rightarrow> string list \<Rightarrow> string list" where
  "norm_segments absolute st [] = rev st"
| "norm_segments absolute st (s # ss) =
     (if s = [] \<or> s = ''.'' then norm_segments absolute st ss
      else if s = ''..'' then
        (case st of
           [] \<Rightarrow> norm_segments absolute (if absolute then [] else [''..'']) ss
         | t # ts \<Rightarrow> norm_segments absolute (if t = ''..'' then ''..'' # st else ts) ss)
      else norm_segments absolute (s # st) ss)"

definition path_normalize :: "string \<Rightarrow> string" where
  "path_normalize p =
     (let absolute = (take 1 p = ''/''); trailing = (p \<noteq> [] \<and> last p = CHR ''/'');
          body = join_path (norm_segments absolute [] (split_slash [] p)) in
      if body = [] then (if absolute then ''/'' else if trailing then ''./'' else ''.'')
      else (if absolute then ''/'' else []) @ body @ (if trailing then ''/'' else []))"

definition path_join :: "string list \<Rightarrow> string" where
  "path_join parts =
     (let kept = filter (\<lambda>s. s \<noteq> []) parts in if kept = [] then ''.'' else path_normalize (join_path kept))"

section \<open>Names of a lane\<close>

definition MAX_UNIX_SOCKET_PATH_BYTES :: nat where
  "MAX_UNIX_SOCKET_PATH_BYTES = 100"

definition laneStorageName :: "(string \<Rightarrow> string) \<Rightarrow> string \<Rightarrow> exn + string" where
  "laneStorageName sha256 laneId =
     (if laneId = [] then Inl (PlainError ''lane ID must not be empty'')
      else Inr (''lane-'' @ take 24 (sha256 laneId)))"

definition laneSocketName :: "(string \<Rightarrow> string) \<Rightarrow> string \<Rightarrow> exn + string" where
  "laneSocketName sha256 laneId =
     (if laneId = [] then Inl (PlainError ''lane ID must not be empty'')
      else Inr (''lane-'' @ take 24 (sha256 laneId) @ ''.sock''))"

definition laneTmuxSession :: "string \<Rightarrow> exn + string" where
  "laneTmuxSession identity =
     (if identity = [] then Inl (PlainError ''Agent Identity must not be empty'') else Inr (''mesh-lane-'' @ identity))"

definition validateSocketPath :: "string \<Rightarrow> exn + string" where
  "validateSocketPath p =
     (if length p > MAX_UNIX_SOCKET_PATH_BYTES
      then Inl (PlainError (''Unix socket path is too long: '' @ p)) else Inr p)"

definition laneSocketPath :: "(string \<Rightarrow> string) \<Rightarrow> string \<Rightarrow> string \<Rightarrow> exn + string" where
  "laneSocketPath sha256 runtimeDirectory laneId =
     sbind (laneSocketName sha256 laneId) (\<lambda>n. validateSocketPath (path_join [runtimeDirectory, n]))"

definition appServerSocketPath :: "(string \<Rightarrow> string) \<Rightarrow> string \<Rightarrow> string \<Rightarrow> exn + string" where
  "appServerSocketPath sha256 runtimeDirectory laneId =
     (if laneId = [] then Inl (PlainError ''lane ID must not be empty'')
      else validateSocketPath (path_join [runtimeDirectory, ''codex-'' @ take 24 (sha256 laneId) @ ''.sock'']))"

definition controlSocketPath :: "string \<Rightarrow> exn + string" where
  "controlSocketPath runtimeDirectory = validateSocketPath (path_join [runtimeDirectory, ''control.sock''])"

section \<open>Default directories\<close>

record process_env =
  pe_XDG_CONFIG_HOME :: "string option"
  pe_XDG_STATE_HOME :: "string option"
  pe_XDG_RUNTIME_DIR :: "string option"
  pe_home :: string
  pe_darwin :: bool

text \<open>A variable that is set counts when it is not empty.\<close>

definition set_nonempty :: "string option \<Rightarrow> string option" where
  "set_nonempty v = (case v of Some [] \<Rightarrow> None | _ \<Rightarrow> v)"

definition defaultRuntimeDirectory :: "process_env \<Rightarrow> string" where
  "defaultRuntimeDirectory env =
     (case set_nonempty (pe_XDG_RUNTIME_DIR env) of
        Some d \<Rightarrow> path_join [d, ''agent-mesh'']
      | None \<Rightarrow>
          if pe_darwin env then path_join [pe_home env, ''Library'', ''Caches'', ''agent-mesh'', ''runtime'']
          else path_join [pe_home env, ''.local'', ''state'', ''agent-mesh'', ''runtime''])"

record agent_mesh_locations =
  al_configDirectory :: string
  al_configFile :: string
  al_stateDirectory :: string
  al_secretDirectory :: string
  al_runtimeDirectory :: string

text \<open>Here an empty configuration or state variable is used as it is: \<open>??\<close> replaces only \<open>undefined\<close>.\<close>

definition defaultLocations :: "process_env \<Rightarrow> agent_mesh_locations" where
  "defaultLocations env =
     (let config = path_join [case pe_XDG_CONFIG_HOME env of Some d \<Rightarrow> d | None \<Rightarrow> path_join [pe_home env, ''.config''], ''agent-mesh''];
          state = path_join [case pe_XDG_STATE_HOME env of Some d \<Rightarrow> d
            | None \<Rightarrow> path_join [pe_home env, ''.local'', ''state''], ''agent-mesh''];
          rt = (case set_nonempty (pe_XDG_RUNTIME_DIR env) of
            Some d \<Rightarrow> path_join [d, ''agent-mesh'']
          | None \<Rightarrow>
              if pe_darwin env then path_join [pe_home env, ''Library'', ''Caches'', ''agent-mesh'', ''runtime'']
              else path_join [state, ''runtime'']) in
      \<lparr>al_configDirectory = config, al_configFile = path_join [config, ''config.yaml''], al_stateDirectory = state,
       al_secretDirectory = path_join [config, ''secrets''], al_runtimeDirectory = rt\<rparr>)"

section \<open>Endpoints of a Hub\<close>

text \<open>A URL of one of the four schemes, as the standard parses it: the path is not empty, and search and
  fragment carry their marks.\<close>

record url =
  ul_protocol :: string
  ul_authority :: string
  ul_pathname :: string
  ul_tail :: string

definition url_text :: "url \<Rightarrow> string" where
  "url_text u = ul_protocol u @ ''//'' @ ul_authority u @ ul_pathname u @ ul_tail u"

definition ends_with :: "string \<Rightarrow> string \<Rightarrow> bool" where
  "ends_with suf s = (length suf \<le> length s \<and> drop (length s - length suf) s = suf)"

text \<open>\<open>replace(/\/$/, "")\<close>.\<close>

definition strip_slash :: "string \<Rightarrow> string" where
  "strip_slash s = (if ends_with ''/'' s then butlast s else s)"

definition http_protocol :: "string \<Rightarrow> string" where
  "http_protocol p = (if p = ''wss:'' then ''https:'' else if p = ''ws:'' then ''http:'' else p)"

definition ws_protocol :: "string \<Rightarrow> string" where
  "ws_protocol p = (if p = ''https:'' then ''wss:'' else if p = ''http:'' then ''ws:'' else p)"

definition http_url :: "url \<Rightarrow> url" where
  "http_url u =
     u\<lparr>ul_protocol := http_protocol (ul_protocol u),
       ul_pathname := (if ends_with ''/ws'' (ul_pathname u)
         then (let p = take (length (ul_pathname u) - 3) (ul_pathname u) in if p = [] then ''/'' else p)
         else ul_pathname u)\<rparr>"

definition websocket_url :: "url \<Rightarrow> url" where
  "websocket_url u =
     u\<lparr>ul_protocol := ws_protocol (ul_protocol u),
       ul_pathname := (if ends_with ''/ws'' (ul_pathname u) then ul_pathname u
         else strip_slash (ul_pathname u) @ ''/ws'')\<rparr>"

record hub_endpoints =
  he_baseUrl :: string
  he_rpcWebSocket :: string
  he_apiHttp :: string

definition resolveHubEndpoints ::
  "(string \<Rightarrow> url option) \<Rightarrow> string \<Rightarrow> string option \<Rightarrow> string option \<Rightarrow> exn + hub_endpoints"
where
  "resolveHubEndpoints parse base rpc_ws api_http =
     (case parse base of
        None \<Rightarrow> Inl (PlainError ''Invalid URL'')
      | Some u \<Rightarrow>
          if ul_protocol u \<notin> {''ws:'', ''wss:'', ''http:'', ''https:''}
          then Inl (PlainError ''Hub URL must use http(s) or ws(s)'')
          else
            (let http = strip_slash (url_text (http_url u)) in
             Inr \<lparr>he_baseUrl = http,
               he_rpcWebSocket = (case rpc_ws of Some r \<Rightarrow> r | None \<Rightarrow> url_text (websocket_url u)),
               he_apiHttp = (case api_http of Some a \<Rightarrow> a | None \<Rightarrow> http)\<rparr>))"

text \<open>The answer of the Hub to a request: whether its status is one of success, the status as text, and the body as
  \<open>json()\<close> reads it.\<close>

record health_answer =
  ha_ok :: bool
  ha_status :: string
  ha_body :: "exn + json"

definition probeHub ::
  "(string \<Rightarrow> url option) \<Rightarrow> (string \<Rightarrow> exn + health_answer) \<Rightarrow> string \<Rightarrow> exn + (hub_endpoints \<times> json)"
where
  "probeHub parse get base =
     sbind (resolveHubEndpoints parse base None None) (\<lambda>endpoints.
     sbind (get (he_apiHttp endpoints @ ''/health'')) (\<lambda>answer.
       if \<not> ha_ok answer then Inl (PlainError (''Hub health returned HTTP '' @ ha_status answer))
       else sbind (ha_body answer) (\<lambda>health. Inr (endpoints, health))))"

section \<open>The runtime directory\<close>

text \<open>The state is the mode of the directory, \<open>None\<close> while there is none; \<open>mkdir\<close> leaves a directory that is
  there as it is and may be answered by an error, and so may \<open>chmod\<close>.  The mask of the process takes bits
  from the mode of a directory that is made.\<close>

definition ensurePrivateRuntimeDirectory ::
  "exn + unit \<Rightarrow> exn + unit \<Rightarrow> 16 word \<Rightarrow> 16 word option \<Rightarrow> (exn + unit) \<times> 16 word option"
where
  "ensurePrivateRuntimeDirectory mkdir chmod umask mode =
     (case mkdir of
        Inl e \<Rightarrow> (Inl e, mode)
      | Inr _ \<Rightarrow>
          (let made = (case mode of None \<Rightarrow> 0x1C0 AND NOT umask | Some m \<Rightarrow> m) in
           case chmod of Inl e \<Rightarrow> (Inl e, Some made) | Inr _ \<Rightarrow> (Inr (), Some 0x1C0)))"

section \<open>Lemmas\<close>

lemma socket_paths_bounded:
  "laneSocketPath sha dir i = Inr p \<Longrightarrow> length p \<le> MAX_UNIX_SOCKET_PATH_BYTES"
  "appServerSocketPath sha dir i = Inr p \<Longrightarrow> length p \<le> MAX_UNIX_SOCKET_PATH_BYTES"
  "controlSocketPath dir = Inr p \<Longrightarrow> length p \<le> MAX_UNIX_SOCKET_PATH_BYTES"
  by (auto simp: laneSocketPath_def appServerSocketPath_def controlSocketPath_def validateSocketPath_def
      result_simps split: if_splits)

lemma ends_with_append [simp]: "ends_with suf (s @ suf)"
  by (simp add: ends_with_def)

text \<open>Both endpoints speak TLS exactly when the configured URL does.\<close>

definition tls :: "string \<Rightarrow> bool" where
  "tls p = (p = ''https:'' \<or> p = ''wss:'')"

lemma endpoints_keep_tls:
  assumes "ul_protocol u \<in> {''ws:'', ''wss:'', ''http:'', ''https:''}"
  shows "tls (ul_protocol (http_url u)) = tls (ul_protocol u)" "tls (ul_protocol (websocket_url u)) = tls (ul_protocol u)"
    "ul_authority (http_url u) = ul_authority u" "ul_authority (websocket_url u) = ul_authority u"
  using assms by (auto simp: tls_def http_url_def websocket_url_def http_protocol_def ws_protocol_def)

text \<open>Resolving the WebSocket endpoint gives the WebSocket endpoint again.\<close>

lemma websocket_url_idem:
  assumes "ul_protocol u \<in> {''ws:'', ''wss:'', ''http:'', ''https:''}"
  shows "websocket_url (websocket_url u) = websocket_url u"
  using assms by (auto simp: websocket_url_def ws_protocol_def)

text \<open>A directory that \<open>ensurePrivateRuntimeDirectory\<close> returned for is its owner's alone, and one that it made is
  at no moment open to others, also when it fails.\<close>

definition private_mode :: "16 word \<Rightarrow> bool" where
  "private_mode m = (m AND 0x3F = 0)"

lemma runtime_directory_private:
  assumes "ensurePrivateRuntimeDirectory mkdir chmod umask mode = (r, mode')"
  shows "r = Inr () \<Longrightarrow> mode' = Some 0x1C0" "mode = None \<Longrightarrow> mode' = Some m \<Longrightarrow> private_mode m"
proof -
  have "(0x1C0 AND NOT umask) AND 0x3F = (0x1C0 AND 0x3F) AND NOT umask" by (simp only: ac_simps)
  then have "private_mode (0x1C0 AND NOT umask)" by (simp add: private_mode_def)
  then show "r = Inr () \<Longrightarrow> mode' = Some 0x1C0" "mode = None \<Longrightarrow> mode' = Some m \<Longrightarrow> private_mode m"
    using assms by (auto simp: ensurePrivateRuntimeDirectory_def Let_def private_mode_def split: sum.splits)
qed

text \<open>The Hub is reported healthy only with the endpoints of its own URL and after a good answer from its
  health address.\<close>

lemma probeHub_Inr:
  "probeHub parse get base = Inr (endpoints, health) \<longleftrightarrow>
    resolveHubEndpoints parse base None None = Inr endpoints \<and>
    (\<exists>a. get (he_apiHttp endpoints @ ''/health'') = Inr a \<and> ha_ok a \<and> ha_body a = Inr health)"
  by (auto simp: probeHub_def sbind_def split: sum.splits)

lemma websocket_url_path: "ends_with ''/ws'' (ul_pathname (websocket_url u))"
  by (simp add: websocket_url_def ends_with_def)

end
