(* ===== verification/Secrets.thy ===== *)
theory Secrets
  imports Paths
begin

text \<open>
  \<open>src/config/secrets.ts\<close>: a directory of secrets, one file each, published through a temporary file
  whose name holds the process id.  \<open>secret_get\<close> gives None where reading throws \<open>ENOENT\<close>.
\<close>

definition secret_head :: "char \<Rightarrow> bool" where
  "secret_head c = (c \<in> set ''abcdefghijklmnopqrstuvwxyzABCDEFGHIJKLMNOPQRSTUVWXYZ0123456789'')"

definition secret_char :: "char \<Rightarrow> bool" where
  "secret_char c = (secret_head c \<or> c \<in> set ''._-'')"

definition secret_name :: "string \<Rightarrow> bool" where
  "secret_name n = (case n of [] \<Rightarrow> False | c # cs \<Rightarrow> secret_head c \<and> length cs \<le> 127 \<and> list_all secret_char cs)"

definition validateSecretName :: "string \<Rightarrow> exn + unit" where
  "validateSecretName n = require (secret_name n) (PlainError ''Secret name must be a safe opaque filename'')"

record secret_store =
  ss_files :: "(string \<times> string) list"
  ss_tmps :: "(string \<times> string) list"

definition empty_secrets :: secret_store where
  "empty_secrets = \<lparr>ss_files = [], ss_tmps = []\<rparr>"

definition secret_path :: "string \<Rightarrow> string \<Rightarrow> exn + string" where
  "secret_path dir n = sbind (validateSecretName n) (\<lambda>_. Inr (path_join [dir, n]))"

definition secret_set :: "save_fault option \<Rightarrow> string \<Rightarrow> string \<Rightarrow> secret_store \<Rightarrow> (exn + unit) \<times> secret_store" where
  "secret_set fault n v st =
     (if v = [] then (Inl (PlainError ''Secret value must not be empty''), st)
      else if fault = Some Fault_mkdir then (Inl (PlainError ''I/O error''), st)
      else case validateSecretName n of
        Inl e \<Rightarrow> (Inl e, st)
      | Inr _ \<Rightarrow>
          if map_of (ss_tmps st) n \<noteq> None then (Inl (PlainError ''EEXIST: file already exists''), st)
          else if fault = Some Fault_open then (Inl (PlainError ''I/O error''), st)
          else (case fault of
            Some (Fault_write k) \<Rightarrow> (Inl (PlainError ''I/O error''), st\<lparr>ss_tmps := (n, take k v) # ss_tmps st\<rparr>)
          | Some Fault_rename \<Rightarrow> (Inl (PlainError ''I/O error''), st\<lparr>ss_tmps := (n, v) # ss_tmps st\<rparr>)
          | Some Fault_finish \<Rightarrow> (Inl (PlainError ''I/O error''), st\<lparr>ss_files := AList.update n v (ss_files st)\<rparr>)
          | _ \<Rightarrow> (Inr (), st\<lparr>ss_files := AList.update n v (ss_files st)\<rparr>)))"

definition secret_get :: "string \<Rightarrow> secret_store \<Rightarrow> exn + string option" where
  "secret_get n st = sbind (validateSecretName n) (\<lambda>_. Inr (map_of (ss_files st) n))"

definition secret_remove :: "string \<Rightarrow> secret_store \<Rightarrow> (exn + bool) \<times> secret_store" where
  "secret_remove n st =
     (case validateSecretName n of
        Inl e \<Rightarrow> (Inl e, st)
      | Inr _ \<Rightarrow> (Inr (map_of (ss_files st) n \<noteq> None), st\<lparr>ss_files := AList.delete n (ss_files st)\<rparr>))"

section \<open>Lemmas\<close>

text \<open>A secret is a file of the directory itself.\<close>

lemma secret_name_jail:
  assumes "validateSecretName n = Inr u"
  shows "CHR ''/'' \<notin> set n \<and> n \<noteq> ''.'' \<and> n \<noteq> ''..'' \<and> n \<noteq> [] \<and> length n \<le> 128"
proof -
  have "secret_name n" using assms by (simp add: validateSecretName_def result_simps)
  then obtain c cs where n: "n = c # cs" "secret_head c" "length cs \<le> 127" "\<forall>x\<in>set cs. secret_char x"
    by (auto simp: secret_name_def list_all_iff split: list.splits)
  have "\<not> secret_char (CHR ''/'')" "\<not> secret_head (CHR ''/'')" "\<not> secret_head (CHR ''.'')"
    by (simp_all add: secret_char_def secret_head_def)
  with n show ?thesis by auto
qed

lemma validateSecretName_eq [simp]:
  "validateSecretName n =
     (if secret_name n then Inr () else Inl (PlainError ''Secret name must be a safe opaque filename''))"
  by (simp add: validateSecretName_def)

lemmas secret_ops = secret_set_def secret_get_def secret_remove_def

lemma secret_set_get:
  assumes "secret_set fault n v st = (Inr u, st')"
  shows "secret_get n st' = Inr (Some v)"
  using assms
  by (auto simp: secret_ops split: if_splits option.splits save_fault.splits)

text \<open>A set that fails keeps what the secret was, or stores the new value whole.\<close>

lemma secret_set_atomic:
  assumes "secret_set fault n v st = (r, st')" "secret_name n"
  shows "secret_get n st' = secret_get n st \<or> secret_get n st' = Inr (Some v)"
  using assms
  by (auto simp: secret_ops
      split: if_splits option.splits save_fault.splits)

lemma secret_set_other:
  assumes "secret_set fault n v st = (r, st')" "m \<noteq> n"
  shows "secret_get m st' = secret_get m st"
  using assms
  by (auto simp: secret_ops
      split: if_splits option.splits save_fault.splits)

lemma secret_remove_get:
  assumes "secret_remove n st = (Inr b, st')"
  shows "secret_get n st' = Inr None"
  using assms by (auto simp: secret_ops split: if_splits)

end
