(* ===== verification/Key_Manager.thy ===== *)
theory Key_Manager
  imports Secrets
begin

text \<open>
  \<open>src/identity/key-manager.ts\<close>: the key of an identity, kept in memory and in the secret store.  The
  record of a key is its JSON value; \<open>kc_parse\<close> and \<open>kc_print\<close> stand for the JSON text, \<open>kc_generate\<close>
  is the record of the key the platform generates, and the fingerprint, the preimages, the signature
  and the format of the upload header are those of the contracts package and of the platform.
\<close>

section \<open>State\<close>

record key_contracts =
  kc_parse :: "string \<Rightarrow> json option"
  kc_print :: "json \<Rightarrow> string"
  kc_fingerprint :: "string \<Rightarrow> exn + string"

record generated_key =
  gk_public :: "string option"
  gk_pkcs8 :: string
  gk_now :: string

record key_manager =
  km_secretName :: string
  km_record :: "json option"

record key_info =
  ki_publicKey :: string
  ki_fingerprint :: string
  ki_agentType :: "string option"
  ki_createdAt :: "json option"

definition key_manager_new :: "(string \<Rightarrow> string) \<Rightarrow> string \<Rightarrow> exn + key_manager" where
  "key_manager_new sha256 identity =
     sbind (laneStorageName sha256 identity) (\<lambda>n. Inr \<lparr>km_secretName = n @ ''.ed25519.json'', km_record = None\<rparr>)"

section \<open>Records\<close>

definition validateRecord :: "key_contracts \<Rightarrow> json \<Rightarrow> exn + unit" where
  "validateRecord kc r =
     (if jfield r ''version'' \<noteq> Some (JNum 1) \<or> jfield r ''algorithm'' \<noteq> Some (JStr ''ed25519'') \<or>
         jstr (jfield r ''public_key'') = None \<or> jstr (jfield r ''private_key_pkcs8'') = None
      then Inl (PlainError ''Stored identity key is invalid'')
      else sbind (kc_fingerprint kc (the (jstr (jfield r ''public_key'')))) (\<lambda>_. Inr ()))"

definition info_of :: "key_contracts \<Rightarrow> json \<Rightarrow> exn + key_info" where
  "info_of kc r =
     sbind (validateRecord kc r) (\<lambda>_.
     sbind (kc_fingerprint kc (the (jstr (jfield r ''public_key'')))) (\<lambda>f.
       Inr \<lparr>ki_publicKey = the (jstr (jfield r ''public_key'')), ki_fingerprint = f,
         ki_agentType = set_nonempty (jstr (jfield r ''agent_type'')), ki_createdAt = jfield r ''created_at''\<rparr>))"

definition new_record :: "generated_key \<Rightarrow> exn + json" where
  "new_record g =
     (case set_nonempty (gk_public g) of
        None \<Rightarrow> Inl (PlainError ''Generated Ed25519 key has no raw public component'')
      | Some x \<Rightarrow>
          Inr (JObj [(''version'', JNum 1), (''algorithm'', JStr ''ed25519''), (''public_key'', JStr x),
            (''private_key_pkcs8'', JStr (gk_pkcs8 g)), (''created_at'', JStr (gk_now g))]))"

section \<open>Operations\<close>

definition peek :: "key_contracts \<Rightarrow> key_manager \<Rightarrow> secret_store \<Rightarrow> exn + key_info option" where
  "peek kc km st =
     sbind (secret_get (km_secretName km) st) (\<lambda>t.
       case t of
         None \<Rightarrow> Inr None
       | Some bytes \<Rightarrow>
           (case kc_parse kc bytes of
              None \<Rightarrow> Inl (PlainError ''JSON Parse error'')
            | Some r \<Rightarrow> sbind (info_of kc r) (\<lambda>i. Inr (Some i))))"

text \<open>The first half of \<open>ensure\<close>: the record comes into memory, from the store or generated, before it
  is validated, and a generated one before it is stored.\<close>

definition load_record ::
  "key_contracts \<Rightarrow> save_fault option \<Rightarrow> generated_key \<Rightarrow> key_manager \<Rightarrow> secret_store \<Rightarrow>
   (exn + unit) \<times> key_manager \<times> secret_store"
where
  "load_record kc fault g km st =
     (if js_truthy (km_record km) then (Inr (), km, st)
      else case secret_get (km_secretName km) st of
        Inl e \<Rightarrow> (Inl e, km, st)
      | Inr (Some bytes) \<Rightarrow>
          (case kc_parse kc bytes of
             None \<Rightarrow> (Inl (PlainError ''JSON Parse error''), km, st)
           | Some r \<Rightarrow> (Inr (), km\<lparr>km_record := Some r\<rparr>, st))
      | Inr None \<Rightarrow>
          (case new_record g of
             Inl e \<Rightarrow> (Inl e, km, st)
           | Inr r \<Rightarrow>
               (let (res, st') = secret_set fault (km_secretName km) (kc_print kc r) st in
                (res, km\<lparr>km_record := Some r\<rparr>, st'))))"

definition ensure ::
  "key_contracts \<Rightarrow> save_fault option \<Rightarrow> generated_key \<Rightarrow> key_manager \<Rightarrow> secret_store \<Rightarrow>
   (exn + key_info) \<times> key_manager \<times> secret_store"
where
  "ensure kc fault g km st =
     (let (res, km', st') = load_record kc fault g km st in
      (sbind res (\<lambda>_. info_of kc (the (km_record km'))), km', st'))"

definition rememberAgentType ::
  "key_contracts \<Rightarrow> save_fault option \<Rightarrow> string \<Rightarrow> key_manager \<Rightarrow> secret_store \<Rightarrow>
   (exn + unit) \<times> key_manager \<times> secret_store"
where
  "rememberAgentType kc fault agentType km st =
     (case km_record km of
        Some (JObj fs) \<Rightarrow>
          if map_of fs ''agent_type'' = Some (JStr agentType) then (Inr (), km, st)
          else
            (let r = JObj (AList.update ''agent_type'' (JStr agentType) fs);
                 (res, st') = secret_set fault (km_secretName km) (kc_print kc r) st in
             (res, km\<lparr>km_record := Some r\<rparr>, st'))
      | _ \<Rightarrow> (Inr (), km, st))"

text \<open>\<open>signRequest\<close> and \<open>uploadAuthorization\<close> sign with the key that \<open>ensure\<close> gave.\<close>

record request_signature =
  rs_kid :: string
  rs_nonce :: string
  rs_iat :: int
  rs_value :: string

definition private_key :: "key_manager \<Rightarrow> exn + string" where
  "private_key km =
     (case km_record km of
        None \<Rightarrow> Inl (PlainError ''Identity key is not initialized'')
      | Some r \<Rightarrow>
          (case jstr (jfield r ''private_key_pkcs8'') of
             None \<Rightarrow> Inl (PlainError ''Identity key is not initialized'') | Some k \<Rightarrow> Inr k))"

definition signRequest ::
  "key_contracts \<Rightarrow> (string \<Rightarrow> string \<Rightarrow> string) \<Rightarrow> (string \<Rightarrow> string \<Rightarrow> string \<Rightarrow> int \<Rightarrow> string \<Rightarrow> string) \<Rightarrow>
   save_fault option \<Rightarrow> generated_key \<Rightarrow> string \<Rightarrow> millis \<Rightarrow> string \<Rightarrow> string \<Rightarrow> key_manager \<Rightarrow> secret_store \<Rightarrow>
   (exn + request_signature) \<times> key_manager \<times> secret_store"
where
  "signRequest kc sign preimage fault g nonce now meth rawParams km st =
     (case ensure kc fault g km st of
        (Inl e, km', st') \<Rightarrow> (Inl e, km', st')
      | (Inr info, km', st') \<Rightarrow>
          (sbind (private_key km') (\<lambda>k.
             Inr \<lparr>rs_kid = ki_fingerprint info, rs_nonce = nonce, rs_iat = now div 1000,
               rs_value = sign k (preimage meth (ki_fingerprint info) nonce (now div 1000) rawParams)\<rparr>),
           km', st'))"

definition uploadAuthorization ::
  "key_contracts \<Rightarrow> (string \<Rightarrow> string \<Rightarrow> string) \<Rightarrow> (json \<Rightarrow> string) \<Rightarrow> (string \<Rightarrow> string \<Rightarrow> string \<Rightarrow> string) \<Rightarrow>
   save_fault option \<Rightarrow> generated_key \<Rightarrow> string \<Rightarrow> json \<Rightarrow> key_manager \<Rightarrow> secret_store \<Rightarrow>
   (exn + string) \<times> key_manager \<times> secret_store"
where
  "uploadAuthorization kc sign preimage format fault g nonce input km st =
     (case ensure kc fault g km st of
        (Inl e, km', st') \<Rightarrow> (Inl e, km', st')
      | (Inr info, km', st') \<Rightarrow>
          (sbind (private_key km') (\<lambda>k. Inr (format (ki_fingerprint info) nonce (sign k (preimage input)))), km', st'))"

section \<open>Lemmas\<close>

lemma new_record_truthy: "new_record g = Inr r \<Longrightarrow> js_truthy (Some r)"
  by (auto simp: new_record_def split: option.splits)

lemma ensure_in_memory:
  assumes "km_record km = Some r" "js_truthy (Some r)"
  shows "ensure kc fault g km st = (info_of kc r, km, st)"
  using assms by (simp add: ensure_def load_record_def)

lemma ensure_generates:
  assumes "km_record km = None" "secret_get (km_secretName km) st = Inr None" "new_record g = Inr r"
    "secret_set fault (km_secretName km) (kc_print kc r) st = (res, st')"
  shows "ensure kc fault g km st = (sbind res (\<lambda>_. info_of kc r), km\<lparr>km_record := Some r\<rparr>, st')"
  using assms by (simp add: ensure_def load_record_def)

lemma peek_stored:
  assumes "secret_get (km_secretName km) st = Inr (Some (kc_print kc r))" "kc_parse kc (kc_print kc r) = Some r"
  shows "peek kc km st = sbind (info_of kc r) (\<lambda>i. Inr (Some i))"
  using assms by (simp add: peek_def)

lemma peek_keeps_nothing: "secret_get (km_secretName km) st = Inr None \<Longrightarrow> peek kc km st = Inr None"
  by (simp add: peek_def)

text \<open>The record of a fresh key is valid when the fingerprint of its public part exists.\<close>

lemma info_of_new_record:
  assumes "new_record g = Inr r" "kc_fingerprint kc (the (gk_public g)) = Inr f"
  shows "info_of kc r = Inr \<lparr>ki_publicKey = the (gk_public g), ki_fingerprint = f, ki_agentType = None,
    ki_createdAt = Some (JStr (gk_now g))\<rparr>"
  using assms
  by (auto simp: new_record_def info_of_def validateRecord_def set_nonempty_def split: option.splits list.splits)

section \<open>Properties\<close>

text \<open>A key that was made is the key after a restart.  When \<open>ensure\<close> generated a key and
  returned, a new manager of the identity finds the same key in the store: \<open>peek\<close> reports it and its
  \<open>ensure\<close> returns it without generating another.\<close>

theorem key_survives_restart:
  assumes "km_record km = None" "secret_get (km_secretName km) st = Inr None"
    "ensure kc fault g km st = (Inr info, km', st')"
    "new_record g = Inr r" "kc_parse kc (kc_print kc r) = Some r"
  shows "peek kc (km\<lparr>km_record := None\<rparr>) st' = Inr (Some info) \<and>
    fst (ensure kc fault' g' (km\<lparr>km_record := None\<rparr>) st') = Inr info \<and>
    snd (snd (ensure kc fault' g' (km\<lparr>km_record := None\<rparr>) st')) = st'"
proof -
  obtain res st'' where set: "secret_set fault (km_secretName km) (kc_print kc r) st = (res, st'')"
    by (metis surj_pair)
  from ensure_generates [OF assms(1,2,4) set] assms(3)
  have res: "res = Inr ()" "st'' = st'" "info_of kc r = Inr info" "km' = km\<lparr>km_record := Some r\<rparr>"
    by (cases res; auto)+
  from secret_set_get [of fault "km_secretName km" "kc_print kc r" st "()" st'] set res
  have get: "secret_get (km_secretName km) st' = Inr (Some (kc_print kc r))" by simp
  with peek_stored [of "km\<lparr>km_record := None\<rparr>" st' kc r] assms(5) res
  show ?thesis by (simp add: ensure_def load_record_def)
qed

definition sample_key_contracts :: key_contracts where
  "sample_key_contracts =
     \<lparr>kc_parse = (\<lambda>t. case new_record \<lparr>gk_public = Some ''x'', gk_pkcs8 = ''p'', gk_now = ''t''\<rparr> of Inr r \<Rightarrow> Some r | Inl e \<Rightarrow> None),
      kc_print = (\<lambda>v. ''k''), kc_fingerprint = (\<lambda>p. Inr (''fp-'' @ p))\<rparr>"

definition sample_generated :: generated_key where
  "sample_generated = \<lparr>gk_public = Some ''x'', gk_pkcs8 = ''p'', gk_now = ''t''\<rparr>"

definition sample_manager :: key_manager where
  "sample_manager = \<lparr>km_secretName = ''lane-0.ed25519.json'', km_record = None\<rparr>"

lemma sample_secret_absent: "secret_get (km_secretName sample_manager) empty_secrets = Inr None"
  by (simp add: sample_manager_def secret_get_def secret_name_def secret_head_def secret_char_def empty_secrets_def)

lemma sample_key_record: "new_record sample_generated = Inr r \<Longrightarrow> kc_parse sample_key_contracts (kc_print sample_key_contracts r) = Some r"
  by (simp add: sample_key_contracts_def sample_generated_def)

theorem key_survives_restart_witness:
  "\<exists>info. peek sample_key_contracts sample_manager
     (snd (snd (ensure sample_key_contracts None sample_generated sample_manager empty_secrets))) = Inr (Some info)"
proof -
  obtain r where r: "new_record sample_generated = Inr r"
    by (simp add: new_record_def sample_generated_def set_nonempty_def)
  have f: "kc_fingerprint sample_key_contracts (the (gk_public sample_generated)) = Inr ''fp-x''"
    by (simp add: sample_key_contracts_def sample_generated_def)
  obtain u st' where set: "secret_set None (km_secretName sample_manager) (kc_print sample_key_contracts r) empty_secrets = (Inr u, st')"
    by (simp add: secret_set_def sample_manager_def sample_key_contracts_def secret_name_def secret_head_def
        secret_char_def empty_secrets_def)
  have km: "km_record sample_manager = None" "sample_manager\<lparr>km_record := None\<rparr> = sample_manager"
    by (simp_all add: sample_manager_def)
  obtain info where "ensure sample_key_contracts None sample_generated sample_manager empty_secrets =
      (Inr info, sample_manager\<lparr>km_record := Some r\<rparr>, st')"
    using ensure_generates [OF km(1) sample_secret_absent r set] info_of_new_record [OF r f] by auto
  from key_survives_restart [OF km(1) sample_secret_absent this r sample_key_record [OF r]] this km(2)
  show ?thesis by auto
qed

text \<open>A key that could not be stored is used all the same.  When the write of a generated key
  fails, \<open>ensure\<close> throws, but the key stays in memory: the next \<open>ensure\<close> of the process returns it,
  although the store holds nothing, and the lane may register with the Hub a key that the next start
  cannot find.\<close>

theorem unsaved_key_in_use:
  assumes "km_record km = None" "secret_get (km_secretName km) st = Inr None" "new_record g = Inr r"
    "kc_fingerprint kc (the (gk_public g)) = Inr f"
    "fault \<in> {Some Fault_mkdir, Some Fault_open, Some (Fault_write n), Some Fault_rename}"
    "ensure kc fault g km st = (res, km', st')"
  shows "(\<exists>e. res = Inl e) \<and> secret_get (km_secretName km) st' = Inr None \<and>
    (\<exists>info. ensure kc fault' g' km' st' = (Inr info, km', st') \<and> ki_publicKey info = the (gk_public g)) \<and>
    peek kc km' st' = Inr None"
proof -
  obtain sres st'' where set: "secret_set fault (km_secretName km) (kc_print kc r) st = (sres, st'')"
    by (metis surj_pair)
  from set assms(5) have fail: "\<exists>e. sres = Inl e"
    by (auto simp: secret_set_def split: if_splits sum.splits)
  from set assms(5) have files: "ss_files st'' = ss_files st"
    by (auto simp: secret_set_def split: if_splits sum.splits)
  from ensure_generates [OF assms(1,2,3) set] assms(6)
  have en: "res = sbind sres (\<lambda>_. info_of kc r)" "km' = km\<lparr>km_record := Some r\<rparr>" "st' = st''" by auto
  have get: "secret_get (km_secretName km) st' = Inr None"
    using assms(2) files en(3) by (simp add: secret_get_def)
  have again: "ensure kc fault' g' km' st' = (info_of kc r, km', st')"
    by (rule ensure_in_memory) (simp_all add: en(2) new_record_truthy [OF assms(3)])
  show ?thesis
    using fail get again info_of_new_record [OF assms(3,4)] peek_keeps_nothing [of km' st' kc] en
    by auto
qed

theorem unsaved_key_in_use_witness:
  "(\<exists>info. fst (ensure sample_key_contracts None sample_generated
      (fst (snd (ensure sample_key_contracts (Some Fault_rename) sample_generated sample_manager empty_secrets)))
      (snd (snd (ensure sample_key_contracts (Some Fault_rename) sample_generated sample_manager empty_secrets)))) = Inr info)"
proof -
  obtain res km' st' where e: "ensure sample_key_contracts (Some Fault_rename) sample_generated sample_manager empty_secrets = (res, km', st')"
    by (metis surj_pair)
  obtain r where r: "new_record sample_generated = Inr r"
    by (simp add: new_record_def sample_generated_def set_nonempty_def)
  from sample_secret_absent unsaved_key_in_use [where fault = "Some Fault_rename" and n = 0 and kc = sample_key_contracts and
      km = sample_manager and st = empty_secrets and g = sample_generated and r = r and f = "''fp-x''" and
      res = res and km' = km' and st' = st' and fault' = None and g' = sample_generated] r e
  show ?thesis by (auto simp: sample_manager_def sample_key_contracts_def sample_generated_def)
qed

end
