(* ===== verification/Host_Daemon.thy ===== *)
theory Host_Daemon
  imports Lane_Server Json_Rpc Ndjson
begin

text \<open>
  \<open>src/daemon/host-daemon.ts\<close>: the daemon's control socket and the lane servers behind it, and the
  client's side of a control request.  What the file system, the sockets and the lanes' \<open>start\<close>
  answer is a \<open>host_world\<close>; the handler of control requests is an argument with a state of its own.
\<close>

section \<open>State\<close>

text \<open>What is at the path of the control socket: nothing, a socket nobody answers on, a socket of a
  running daemon, or a file that is no socket.\<close>

datatype control_file = Ctl_absent | Ctl_dead | Ctl_live | Ctl_other

record host_daemon =
  hd_lanes :: "(string \<times> lane_server) list"
  hd_started :: bool
  hd_control :: control_file

record host_world =
  hw_mkdir :: "exn + unit"
  hw_listen :: "exn + unit"
  hw_chmod :: "exn + unit"
  hw_lane_start :: "string \<Rightarrow> exn + unit"
  hw_unlink :: "exn + unit"
  hw_supported :: "string list"

definition host_new :: "control_file \<Rightarrow> host_daemon" where
  "host_new f = \<lparr>hd_lanes = [], hd_started = False, hd_control = f\<rparr>"

section \<open>Starting and stopping\<close>

definition removeStaleControlSocket :: "host_daemon \<Rightarrow> (exn + unit) \<times> host_daemon" where
  "removeStaleControlSocket h =
     (case hd_control h of
        Ctl_absent \<Rightarrow> (Inr (), h)
      | Ctl_other \<Rightarrow> (Inl (PlainError ''Refusing to replace non-socket control path''), h)
      | Ctl_live \<Rightarrow> (Inl (PlainError ''Another agent-mesh daemon is already running''), h)
      | Ctl_dead \<Rightarrow> (Inr (), h\<lparr>hd_control := Ctl_absent\<rparr>))"

definition host_addLane :: "host_world \<Rightarrow> string \<Rightarrow> host_daemon \<Rightarrow> (exn + unit) \<times> host_daemon" where
  "host_addLane w i h =
     (if \<not> hd_started h then (Inl (PlainError ''Host daemon is not started''), h)
      else if map_of (hd_lanes h) i \<noteq> None then (Inl (PlainError (''Lane is already active: '' @ i)), h)
      else case hw_lane_start w i of
        Inl e \<Rightarrow> (Inl e, h)
      | Inr _ \<Rightarrow> (Inr (), h\<lparr>hd_lanes := AList.update i (lane_server_new i (hw_supported w)) (hd_lanes h)\<rparr>))"

definition host_removeLane :: "string \<Rightarrow> host_daemon \<Rightarrow> host_daemon" where
  "host_removeLane i h = h\<lparr>hd_lanes := AList.delete i (hd_lanes h)\<rparr>"

text \<open>\<open>stop\<close>: the file of the socket is unlinked last; only \<open>ENOENT\<close> is ignored.\<close>

definition host_stop :: "host_world \<Rightarrow> host_daemon \<Rightarrow> (exn + unit) \<times> host_daemon" where
  "host_stop w h =
     (let h1 = h\<lparr>hd_lanes := [], hd_started := False\<rparr> in
      if hd_control h = Ctl_absent then (Inr (), h1)
      else case hw_unlink w of Inl e \<Rightarrow> (Inl e, h1) | Inr _ \<Rightarrow> (Inr (), h1\<lparr>hd_control := Ctl_absent\<rparr>))"

fun add_lanes :: "host_world \<Rightarrow> string list \<Rightarrow> host_daemon \<Rightarrow> (exn + unit) \<times> host_daemon" where
  "add_lanes w [] h = (Inr (), h)"
| "add_lanes w (i # ls) h =
     (case host_addLane w i h of
        (Inl e, h') \<Rightarrow> (Inl e, h')
      | (Inr _, h') \<Rightarrow> add_lanes w ls h')"

definition host_open :: "host_world \<Rightarrow> host_daemon \<Rightarrow> (exn + unit) \<times> host_daemon" where
  "host_open w h =
     (case hw_mkdir w of
        Inl e \<Rightarrow> (Inl e, h)
      | Inr _ \<Rightarrow>
          (case removeStaleControlSocket h of
             (Inl e, h1) \<Rightarrow> (Inl e, h1)
           | (Inr _, h1) \<Rightarrow>
               (case hw_listen w of
                  Inl e \<Rightarrow> (Inl e, h1)
                | Inr _ \<Rightarrow>
                    (let h2 = h1\<lparr>hd_control := Ctl_live\<rparr> in
                     case hw_chmod w of Inl e \<Rightarrow> (Inl e, h2) | Inr _ \<Rightarrow> (Inr (), h2\<lparr>hd_started := True\<rparr>)))))"

definition host_start :: "host_world \<Rightarrow> string list \<Rightarrow> host_daemon \<Rightarrow> (exn + unit) \<times> host_daemon" where
  "host_start w laneIds h =
     (if hd_started h then (Inl (PlainError ''Host daemon is already started''), h)
      else case host_open w h of
        (Inl e, h1) \<Rightarrow> (Inl e, h1)
      | (Inr _, h1) \<Rightarrow>
          (case add_lanes w (js_unique laneIds) h1 of
             (Inr _, h2) \<Rightarrow> (Inr (), h2)
           | (Inl e, h2) \<Rightarrow>
               (case host_stop w h2 of (Inl e', h3) \<Rightarrow> (Inl e', h3) | (Inr _, h3) \<Rightarrow> (Inl e, h3))))"

definition lane_status :: "(string \<Rightarrow> string) \<Rightarrow> string \<times> lane_server \<Rightarrow> json" where
  "lane_status socketPath = (\<lambda>(i, sv).
     JObj [(''lane_id'', JStr i), (''socket_path'', JStr (socketPath i)),
       (''active_drivers'', JNum (of_nat (length (ls_drivers sv))))])"

definition host_status :: "int \<Rightarrow> string \<Rightarrow> (string \<Rightarrow> string) \<Rightarrow> json \<Rightarrow> host_daemon \<Rightarrow> json" where
  "host_status pid runtimeDirectory socketPath loops h =
     JObj [(''running'', JBool True), (''pid'', JNum (of_int pid)), (''runtime_directory'', JStr runtimeDirectory),
       (''lanes'', JArr (map (lane_status socketPath) (hd_lanes h))), (''loops'', loops)]"

section \<open>Control requests\<close>

text \<open>The answer to one frame; the handler gives None for \<open>undefined\<close>.\<close>

definition control_result ::
  "('s \<Rightarrow> json) \<Rightarrow> (json_rpc_request \<Rightarrow> 's \<Rightarrow> (exn + json option) \<times> 's) \<Rightarrow> json_rpc_request \<Rightarrow> 's \<Rightarrow> (exn + json) \<times> 's"
where
  "control_result status handler rq s =
     (if rq_method rq = ''daemon.status'' then (Inr (status s), s)
      else case handler rq s of
        (Inl e, s') \<Rightarrow> (Inl e, s')
      | (Inr None, s') \<Rightarrow> (Inl (PlainError (''Unsupported control method: '' @ rq_method rq)), s')
      | (Inr (Some v), s') \<Rightarrow> (Inr v, s'))"

text \<open>A result that does not fit a frame is answered as a failure; a failure always fits.\<close>

definition control_answer ::
  "json_codec \<Rightarrow> ('s \<Rightarrow> json) \<Rightarrow> (json_rpc_request \<Rightarrow> 's \<Rightarrow> (exn + json option) \<times> 's) \<Rightarrow> json \<Rightarrow> 's \<Rightarrow> json \<times> 's"
where
  "control_answer cd status handler frame s =
     (case parseJsonRpcRequest frame of
        Inl e \<Rightarrow> (failure None e, s)
      | Inr rq \<Rightarrow>
          (case control_result status handler rq s of
             (Inl e, s') \<Rightarrow> (failure (Some (rq_id rq)) e, s')
           | (Inr v, s') \<Rightarrow>
               (case encodeFrame cd MAX_FRAME_BYTES (success (rq_id rq) v) of
                  Inl e \<Rightarrow> (failure (Some (rq_id rq)) (FrameError e), s')
                | Inr _ \<Rightarrow> (success (rq_id rq) v, s'))))"

text \<open>The frames of a connection are answered one after the other.\<close>

fun control_serve ::
  "json_codec \<Rightarrow> ('s \<Rightarrow> json) \<Rightarrow> (json_rpc_request \<Rightarrow> 's \<Rightarrow> (exn + json option) \<times> 's) \<Rightarrow> json list \<Rightarrow> 's \<Rightarrow> json list \<times> 's"
where
  "control_serve cd status handler [] s = ([], s)"
| "control_serve cd status handler (f # fs) s =
     (let (a, s') = control_answer cd status handler f s; (as, s'') = control_serve cd status handler fs s' in
      (a # as, s''))"

section \<open>The client's side\<close>

datatype control_event =
    Ce_connected
  | Ce_data "frame_error + json list"
  | Ce_error exn
  | Ce_closed

datatype control_out = Co_write json | Co_end | Co_destroy

definition control_request :: "string \<Rightarrow> string \<Rightarrow> json option \<Rightarrow> json" where
  "control_request i meth params =
     JObj ([(''jsonrpc'', JStr ''2.0''), (''id'', JStr i), (''method'', JStr meth)] @
       (case params of None \<Rightarrow> [] | Some p \<Rightarrow> [(''params'', p)]))"

text \<open>\<open>requestControl\<close>: the state is the outcome of the promise; the first outcome stays.  A chunk is
  what the decoder makes of it.\<close>

definition settle_control :: "exn + json \<Rightarrow> (exn + json) option \<Rightarrow> (exn + json) option" where
  "settle_control r st = (case st of None \<Rightarrow> Some r | Some q \<Rightarrow> Some q)"

fun control_step ::
  "(json \<Rightarrow> string) \<Rightarrow> json \<Rightarrow> control_event \<Rightarrow> (exn + json) option \<Rightarrow> (exn + json) option \<times> control_out list"
where
  "control_step print req Ce_connected st = (st, [Co_write req])"
| "control_step print req (Ce_data (Inl e)) st = (settle_control (Inl (FrameError e)) st, [Co_destroy])"
| "control_step print req (Ce_data (Inr fs)) st =
     (case fs of
        [] \<Rightarrow> (st, [])
      | r # _ \<Rightarrow>
          if js_object (Some r) = None then (st, [])
          else (case jfield r ''error'' of
            Some e \<Rightarrow> (settle_control (Inl (PlainError (print e))) st, [Co_end])
          | None \<Rightarrow>
              (case jfield r ''result'' of
                 Some v \<Rightarrow> (settle_control (Inr v) st, [Co_end])
               | None \<Rightarrow> (st, [Co_end]))))"
| "control_step print req (Ce_error e) st = (settle_control (Inl e) st, [])"
| "control_step print req Ce_closed st = (st, [])"

fun control_run ::
  "(json \<Rightarrow> string) \<Rightarrow> json \<Rightarrow> control_event list \<Rightarrow> (exn + json) option \<Rightarrow> (exn + json) option"
where
  "control_run print req [] st = st"
| "control_run print req (e # es) st = control_run print req es (fst (control_step print req e st))"

section \<open>Lemmas\<close>

lemma host_addLane_started: "hd_started (snd (host_addLane w i h)) = hd_started h"
  by (auto simp: host_addLane_def split: sum.split)

lemma add_lanes_ok:
  assumes "hd_started h" "distinct ls" "set ls \<inter> fst ` set (hd_lanes h) = {}" "add_lanes w ls h = (Inr u, h')"
  shows "map fst (hd_lanes h') = map fst (hd_lanes h) @ ls \<and> hd_started h' \<and> hd_control h' = hd_control h"
  using assms
proof (induction ls arbitrary: h)
  case (Cons i ls)
  have absent: "map_of (hd_lanes h) i = None" using Cons.prems(3) by (auto simp: map_of_eq_None_iff)
  show ?case
  proof (cases "hw_lane_start w i")
    case (Inl e)
    with Cons.prems absent show ?thesis by (simp add: host_addLane_def)
  next
    case (Inr v)
    let ?h = "h\<lparr>hd_lanes := AList.update i (lane_server_new i (hw_supported w)) (hd_lanes h)\<rparr>"
    have keys: "map fst (hd_lanes ?h) = map fst (hd_lanes h) @ [i]"
      using absent by (simp add: update_keys map_of_eq_None_iff)
    have "set (map fst (hd_lanes ?h)) = set (map fst (hd_lanes h) @ [i])" using keys by simp
    then have "fst ` set (hd_lanes ?h) = insert i (fst ` set (hd_lanes h))" by simp
    then have "set ls \<inter> fst ` set (hd_lanes ?h) = {}" using Cons.prems(2,3) by auto
    with Cons.IH [of ?h] Cons.prems absent Inr keys show ?thesis by (simp add: host_addLane_def)
  qed
qed simp

lemma add_lanes_control: "hd_control (snd (add_lanes w ls h)) = hd_control h"
proof (induction ls arbitrary: h)
  case (Cons i ls)
  show ?case using Cons.IH by (auto simp: host_addLane_def split: sum.split prod.split)
qed simp

lemma failure_id: "jfield (failure i e) ''id'' = Some (jopt i)"
  by (cases e) simp_all

lemma control_answer_id:
  assumes "parseJsonRpcRequest frame = Inr rq"
  shows "jfield (fst (control_answer cd status handler frame s)) ''id'' = Some (JStr (rq_id rq))"
  using assms
  by (auto simp: control_answer_def failure_id success_def jopt_def split: prod.split sum.split)

lemma settle_control_some: "st \<noteq> None \<Longrightarrow> settle_control r st = st"
  by (auto simp: settle_control_def)

lemma host_open_ok:
  assumes "host_open w h = (Inr u, h1)"
  shows "hd_started h1 \<and> hd_lanes h1 = hd_lanes h \<and> hd_control h1 = Ctl_live"
  using assms
  by (auto simp: host_open_def removeStaleControlSocket_def Let_def split: sum.splits control_file.splits)

lemma host_open_fails:
  assumes "host_open w h = (Inl e, h1)" "\<not> hd_started h" "hw_chmod w = Inr ()"
  shows "\<not> hd_started h1 \<and> hd_lanes h1 = hd_lanes h \<and> (hd_control h1 = hd_control h \<or> hd_control h1 = Ctl_absent)"
  using assms
  by (auto simp: host_open_def removeStaleControlSocket_def Let_def split: sum.splits control_file.splits)

text \<open>The events that leave the promise as it is.\<close>

fun control_silent :: "control_event \<Rightarrow> bool" where
  "control_silent Ce_connected = True"
| "control_silent (Ce_data (Inl e)) = False"
| "control_silent (Ce_data (Inr [])) = True"
| "control_silent (Ce_data (Inr (r # rs))) = (jfield r ''error'' = None \<and> jfield r ''result'' = None)"
| "control_silent (Ce_error e) = False"
| "control_silent Ce_closed = True"

lemma js_object_field: "jfield r k = Some v \<Longrightarrow> js_object (Some r) = Some r"
  by (cases r) auto

lemma control_step_settled: "st \<noteq> None \<Longrightarrow> fst (control_step print req e st) = st"
  by (cases e rule: control_silent.cases) (auto simp: settle_control_def split: option.splits)

lemma control_run_settled: "st \<noteq> None \<Longrightarrow> control_run print req es st = st"
  by (induction es arbitrary: st) (simp_all add: control_step_settled)

lemma host_start_ok:
  assumes "hd_lanes h = []" "host_start w laneIds h = (Inr u, h')"
  shows "hd_started h' \<and> map fst (hd_lanes h') = js_unique laneIds"
proof -
  from assms(2) obtain v h1 where o: "host_open w h = (Inr v, h1)"
    and a: "add_lanes w (js_unique laneIds) h1 = (Inr u, h')"
    by (auto simp: host_start_def split: if_splits sum.splits prod.splits)
  from host_open_ok [OF o] assms(1) have "hd_started h1" "hd_lanes h1 = []" by auto
  with add_lanes_ok [of h1 "js_unique laneIds" w u h'] a show ?thesis by simp
qed

section \<open>Properties\<close>

text \<open>The host starts with every lane it was given, each once, or with none.  When \<open>start\<close>
  throws after the control socket was opened, the lanes that had started are stopped and the host can
  be started again.\<close>

theorem host_start_all_or_nothing:
  assumes "\<not> hd_started h" "hd_lanes h = []" "hw_unlink w = Inr ()" "hw_chmod w = Inr ()"
    "host_start w laneIds h = (r, h')"
  shows "case r of
      Inr _ \<Rightarrow> hd_started h' \<and> map fst (hd_lanes h') = js_unique laneIds \<and> hd_control h' = Ctl_live
    | Inl e \<Rightarrow> \<not> hd_started h' \<and> hd_lanes h' = [] \<and> (hd_control h' = hd_control h \<or> hd_control h' = Ctl_absent)"
proof -
  obtain r1 h1 where o: "host_open w h = (r1, h1)" by (cases "host_open w h")
  show ?thesis
  proof (cases r1)
    case (Inl e)
    with o host_open_fails [of w h e h1] assms show ?thesis by (auto simp: host_start_def)
  next
    case (Inr u)
    with o host_open_ok [of w h u h1] assms(2) have h1: "hd_started h1" "hd_lanes h1 = []" "hd_control h1 = Ctl_live"
      by auto
    obtain r2 h2 where a: "add_lanes w (js_unique laneIds) h1 = (r2, h2)"
      by (cases "add_lanes w (js_unique laneIds) h1")
    show ?thesis
    proof (cases r2)
      case (Inl e)
      with a add_lanes_control [of w "js_unique laneIds" h1] o Inr assms h1 show ?thesis
        by (auto simp: host_start_def host_stop_def Let_def)
    next
      case (Inr v)
      with a add_lanes_ok [of h1 "js_unique laneIds" w v h2] h1 o \<open>r1 = Inr u\<close> assms(1,5)
      show ?thesis by (auto simp: host_start_def)
    qed
  qed
qed

text \<open>Every request on the control socket is answered once and in order, under its own id,
  whatever the handler does: frame by frame, the answers of a connection are those of its requests.\<close>

theorem control_answers_in_order:
  "list_all2 (\<lambda>f a. jfield a ''id'' = Some (case parseJsonRpcRequest f of Inl e \<Rightarrow> JNull | Inr rq \<Rightarrow> JStr (rq_id rq)))
     fs (fst (control_serve cd status handler fs s))"
proof (induction fs arbitrary: s)
  case (Cons f fs)
  have "jfield (fst (control_answer cd status handler f s)) ''id'' =
      Some (case parseJsonRpcRequest f of Inl e \<Rightarrow> JNull | Inr rq \<Rightarrow> JStr (rq_id rq))"
  proof (cases "parseJsonRpcRequest f")
    case (Inl e)
    then show ?thesis by (simp add: control_answer_def failure_id jopt_def)
  next
    case (Inr rq)
    then show ?thesis by (simp add: control_answer_id)
  qed
  with Cons.IH show ?case by (simp add: Let_def split_beta)
qed simp

text \<open>A control request returns only if an answer, a malformed frame or a socket error arrives.
  The close of the connection is none of these: when the daemon closes before it has answered, as it
  does with a connection it cannot decode and when it stops, the promise of \<open>requestControl\<close> is never
  settled; nor does a frame settle it that has neither a result nor an error.\<close>

theorem requestControl_settles_iff:
  "control_run print req es None = None \<longleftrightarrow> list_all control_silent es"
proof (induction es)
  case (Cons e es)
  show ?case
  proof (cases "control_silent e")
    case True
    then have "fst (control_step print req e None) = None"
      by (cases e rule: control_silent.cases) (auto split: option.splits if_splits)
    with True Cons.IH show ?thesis by simp
  next
    case False
    then have "fst (control_step print req e None) \<noteq> None"
      by (cases e rule: control_silent.cases)
        (auto simp: settle_control_def dest: js_object_field split: option.splits if_splits)
    with False show ?thesis by (simp add: control_run_settled)
  qed
qed simp

definition sample_host_world :: host_world where
  "sample_host_world = \<lparr>hw_mkdir = Inr (), hw_listen = Inr (), hw_chmod = Inr (),
     hw_lane_start = (\<lambda>i. if i = ''b'' then Inl (PlainError ''no'') else Inr ()), hw_unlink = Inr (), hw_supported = []\<rparr>"

theorem host_start_all_or_nothing_witness:
  "hd_lanes (snd (host_start sample_host_world [''a'', ''b''] (host_new Ctl_dead))) = [] \<and>
   \<not> hd_started (snd (host_start sample_host_world [''a'', ''b''] (host_new Ctl_dead)))"
proof -
  obtain r h where s: "host_start sample_host_world [''a'', ''b''] (host_new Ctl_dead) = (r, h)"
    by (metis surj_pair)
  have "\<exists>e. r = Inl e"
    using s by (auto simp: host_start_def host_open_def removeStaleControlSocket_def sample_host_world_def
        host_new_def js_unique_def host_addLane_def host_stop_def Let_def)
  with host_start_all_or_nothing [of "host_new Ctl_dead" sample_host_world "[''a'', ''b'']" r h] s show ?thesis
    by (auto simp: sample_host_world_def host_new_def)
qed

end
