(* ===== verification/Daemon_Lanes.thy ===== *)
theory Daemon_Lanes
  imports Host_Daemon Config
begin

text \<open>
  The lifecycle half of \<open>src/daemon/agent-mesh-daemon.ts\<close>: which controllers, Hub connections, runtime
  workers, Claude supervisors and channel supervisors a daemon runs for its configuration.  A lane and
  a channel are the JSON values of the configuration, which was validated when it was loaded; the
  code compares them by their JSON text, here by equality.  The objects themselves are the components
  of the other theories: this one keeps which of them exist.  Stopping one of them is taken not to
  throw.
\<close>

section \<open>State\<close>

definition lane_id :: "json \<Rightarrow> string" where
  "lane_id l = str_of l ''id''"

definition lane_kind :: "json \<Rightarrow> string" where
  "lane_kind l = str_of (field_of l ''runtime'') ''kind''"

definition item_enabled :: "json \<Rightarrow> bool" where
  "item_enabled v = (jfield v ''enabled'' = Some (JBool True))"

definition lane_channels :: "json \<Rightarrow> json list" where
  "lane_channels l = arr_of l ''channels''"

definition with_channels :: "json list \<Rightarrow> json \<Rightarrow> json" where
  "with_channels cs l = (case l of JObj fs \<Rightarrow> JObj (AList.update ''channels'' (JArr cs) fs) | _ \<Rightarrow> l)"

text \<open>\<open>md_channels\<close> maps a channel's id to its supervisor: the lane it was made for and the channel.
  \<open>md_running\<close> are the supervisors that were started and not stopped, which may be more.\<close>

record mesh_daemon =
  md_config :: "json option"
  md_controllers :: "(string \<times> json) list"
  md_hubs :: "string list"
  md_workers :: "string list"
  md_claude :: "string list"
  md_channels :: "(string \<times> (string \<times> json)) list"
  md_running :: "(string \<times> string) list"
  md_host :: host_daemon
  md_timer :: bool

record daemon_world =
  dw_load :: "exn + json"
  dw_initialize :: "string \<Rightarrow> exn + unit"
  dw_app_server :: "string \<Rightarrow> exn + string"
  dw_host :: host_world

definition daemon_new :: "control_file \<Rightarrow> mesh_daemon" where
  "daemon_new f =
     \<lparr>md_config = None, md_controllers = [], md_hubs = [], md_workers = [], md_claude = [], md_channels = [],
      md_running = [], md_host = host_new f, md_timer = False\<rparr>"

section \<open>One lane\<close>

definition hub_on :: "json \<Rightarrow> bool" where
  "hub_on cfg = js_truthy (jfield cfg ''hub'')"

definition createController :: "daemon_world \<Rightarrow> bool \<Rightarrow> json \<Rightarrow> mesh_daemon \<Rightarrow> (exn + unit) \<times> mesh_daemon" where
  "createController w hub l d =
     (case dw_initialize w (lane_id l) of
        Inl e \<Rightarrow> (Inl e, d)
      | Inr _ \<Rightarrow>
          (Inr (), d\<lparr>md_controllers := AList.update (lane_id l) l (md_controllers d),
             md_hubs := (if hub then List.insert (lane_id l) (md_hubs d) else md_hubs d)\<rparr>))"

definition startRuntimeWorker :: "daemon_world \<Rightarrow> json \<Rightarrow> mesh_daemon \<Rightarrow> (exn + unit) \<times> mesh_daemon" where
  "startRuntimeWorker w l d =
     (if lane_id l \<in> set (md_workers d) \<or> lane_kind l = ''claude'' then (Inr (), d)
      else case (if lane_kind l = ''codex'' then dw_app_server w (lane_id l) else Inr []) of
        Inl e \<Rightarrow> (Inl e, d)
      | Inr _ \<Rightarrow> (Inr (), d\<lparr>md_workers := lane_id l # md_workers d\<rparr>))"

text \<open>The supervisor is entered before it is started, and a start that fails is only reported.\<close>

definition startClaudeSupervisor :: "json \<Rightarrow> mesh_daemon \<Rightarrow> mesh_daemon" where
  "startClaudeSupervisor l d =
     (if lane_kind l = ''claude'' then d\<lparr>md_claude := List.insert (lane_id l) (md_claude d)\<rparr> else d)"

definition start_channel :: "string \<Rightarrow> json \<Rightarrow> mesh_daemon \<Rightarrow> mesh_daemon" where
  "start_channel i c d =
     d\<lparr>md_channels := AList.update (lane_id c) (i, c) (md_channels d), md_running := (i, lane_id c) # md_running d\<rparr>"

definition startChannelSupervisors :: "json \<Rightarrow> mesh_daemon \<Rightarrow> mesh_daemon" where
  "startChannelSupervisors l d = fold (start_channel (lane_id l)) (filter item_enabled (lane_channels l)) d"

text \<open>Stop the supervisors that satisfy p and forget them.\<close>

definition stop_channels :: "(string \<Rightarrow> string \<Rightarrow> json \<Rightarrow> bool) \<Rightarrow> mesh_daemon \<Rightarrow> mesh_daemon" where
  "stop_channels p d =
     d\<lparr>md_channels := filter (\<lambda>(c, i, ch). \<not> p c i ch) (md_channels d),
       md_running := filter (\<lambda>(i, c). \<not> (case map_of (md_channels d) c of None \<Rightarrow> False | Some (j, ch) \<Rightarrow> j = i \<and> p c i ch))
         (md_running d)\<rparr>"

definition start_missing :: "string \<Rightarrow> json \<Rightarrow> mesh_daemon \<Rightarrow> mesh_daemon" where
  "start_missing i c d = (if map_of (md_channels d) (lane_id c) \<noteq> None then d else start_channel i c d)"

definition channel_map :: "json \<Rightarrow> string \<Rightarrow> json option" where
  "channel_map l = map_of (map (\<lambda>c. (lane_id c, c)) (lane_channels l))"

definition syncChannelSupervisors :: "json \<Rightarrow> mesh_daemon \<Rightarrow> mesh_daemon" where
  "syncChannelSupervisors l d =
     (let i = lane_id l;
          d1 = stop_channels (\<lambda>c j ch. j = i \<and>
                 (case channel_map l c of None \<Rightarrow> True | Some ch' \<Rightarrow> \<not> item_enabled ch' \<or> ch' \<noteq> ch)) d;
          d2 = d1\<lparr>md_controllers := map (\<lambda>(j, cfg). (j, if j = i then with_channels (lane_channels l) cfg else cfg)) (md_controllers d1)\<rparr> in
      fold (start_missing i) (filter item_enabled (lane_channels l)) d2)"

definition remove_lane :: "string \<Rightarrow> mesh_daemon \<Rightarrow> mesh_daemon" where
  "remove_lane i d =
     (let d1 = stop_channels (\<lambda>c j ch. j = i) d in
      d1\<lparr>md_workers := filter (\<lambda>j. j \<noteq> i) (md_workers d), md_claude := filter (\<lambda>j. j \<noteq> i) (md_claude d),
         md_host := host_removeLane i (md_host d), md_hubs := filter (\<lambda>j. j \<noteq> i) (md_hubs d),
         md_controllers := AList.delete i (md_controllers d)\<rparr>)"

section \<open>The daemon\<close>

definition enabled_lanes :: "json \<Rightarrow> json list" where
  "enabled_lanes cfg = filter item_enabled (arr_of cfg ''lanes'')"

definition wanted :: "json \<Rightarrow> string \<Rightarrow> json option" where
  "wanted cfg = map_of (map (\<lambda>l. (lane_id l, l)) (enabled_lanes cfg))"

definition deploy_lane :: "daemon_world \<Rightarrow> bool \<Rightarrow> json \<Rightarrow> mesh_daemon \<Rightarrow> (exn + unit) \<times> mesh_daemon" where
  "deploy_lane w hub l d =
     (case createController w hub l d of
        (Inl e, d1) \<Rightarrow> (Inl e, d1)
      | (Inr _, d1) \<Rightarrow>
          (case host_addLane (dw_host w) (lane_id l) (md_host d1) of
             (Inl e, h) \<Rightarrow> (Inl e, d1\<lparr>md_host := h\<rparr>)
           | (Inr _, h) \<Rightarrow>
               (case startRuntimeWorker w l (d1\<lparr>md_host := h\<rparr>) of
                  (Inl e, d2) \<Rightarrow> (Inl e, d2)
                | (Inr _, d2) \<Rightarrow> (Inr (), startChannelSupervisors l (startClaudeSupervisor l d2)))))"

text \<open>One lane of the second loop of \<open>reload\<close>.\<close>

definition reload_lane :: "daemon_world \<Rightarrow> bool \<Rightarrow> json \<Rightarrow> mesh_daemon \<Rightarrow> (exn + unit) \<times> mesh_daemon" where
  "reload_lane w hub l d =
     (if map_of (md_controllers d) (lane_id l) = None then deploy_lane w hub l d
      else (Inr (), syncChannelSupervisors l d))"

fun reload_lanes :: "daemon_world \<Rightarrow> bool \<Rightarrow> json list \<Rightarrow> mesh_daemon \<Rightarrow> (exn + unit) \<times> mesh_daemon" where
  "reload_lanes w hub [] d = (Inr (), d)"
| "reload_lanes w hub (l # ls) d =
     (case reload_lane w hub l d of
        (Inl e, d') \<Rightarrow> (Inl e, d')
      | (Inr _, d') \<Rightarrow> reload_lanes w hub ls d')"

text \<open>The lanes the first loop stops: the Hub changed, the lane is gone, or anything but its channels
  changed.\<close>

definition hub_json :: "json option \<Rightarrow> json" where
  "hub_json cfg = (case cfg of None \<Rightarrow> JNull | Some c \<Rightarrow> field_of c ''hub'')"

definition stale :: "json \<Rightarrow> mesh_daemon \<Rightarrow> string \<times> json \<Rightarrow> bool" where
  "stale nxt d = (\<lambda>(i, cfg).
     hub_json (Some nxt) \<noteq> hub_json (md_config d) \<or>
     (case wanted nxt i of None \<Rightarrow> True | Some l \<Rightarrow> with_channels [] l \<noteq> with_channels [] cfg))"

definition reload :: "daemon_world \<Rightarrow> mesh_daemon \<Rightarrow> (exn + json) \<times> mesh_daemon" where
  "reload w d =
     (case dw_load w of
        Inl e \<Rightarrow> (Inl e, d)
      | Inr nxt \<Rightarrow>
          (let d1 = fold (\<lambda>p. remove_lane (fst p)) (filter (stale nxt d) (md_controllers d)) d;
               (r, d2) = reload_lanes w (hub_on nxt) (enabled_lanes nxt) (d1\<lparr>md_config := Some nxt\<rparr>) in
           (sbind r (\<lambda>_. Inr (JObj [(''revision'', field_of nxt ''revision''),
              (''lanes'', JArr (map (\<lambda>p. JStr (fst p)) (md_controllers d2)))])), d2)))"

fun create_controllers :: "daemon_world \<Rightarrow> bool \<Rightarrow> json list \<Rightarrow> mesh_daemon \<Rightarrow> (exn + unit) \<times> mesh_daemon" where
  "create_controllers w hub [] d = (Inr (), d)"
| "create_controllers w hub (l # ls) d =
     (case createController w hub l d of
        (Inl e, d') \<Rightarrow> (Inl e, d')
      | (Inr _, d') \<Rightarrow> create_controllers w hub ls d')"

fun start_runtimes :: "daemon_world \<Rightarrow> (string \<times> json) list \<Rightarrow> mesh_daemon \<Rightarrow> (exn + unit) \<times> mesh_daemon" where
  "start_runtimes w [] d = (Inr (), d)"
| "start_runtimes w ((i, l) # cs) d =
     (case startRuntimeWorker w l d of
        (Inl e, d') \<Rightarrow> (Inl e, d')
      | (Inr _, d') \<Rightarrow> start_runtimes w cs (startChannelSupervisors l (startClaudeSupervisor l d')))"

definition daemon_start :: "daemon_world \<Rightarrow> mesh_daemon \<Rightarrow> (exn + unit) \<times> mesh_daemon" where
  "daemon_start w d =
     (case dw_load w of
        Inl e \<Rightarrow> (Inl e, d)
      | Inr cfg \<Rightarrow>
          (case create_controllers w (hub_on cfg) (enabled_lanes cfg) (d\<lparr>md_config := Some cfg\<rparr>) of
             (Inl e, d1) \<Rightarrow> (Inl e, d1)
           | (Inr _, d1) \<Rightarrow>
               (case host_start (dw_host w) (map fst (md_controllers d1)) (md_host d1) of
                  (Inl e, h) \<Rightarrow> (Inl e, d1\<lparr>md_host := h\<rparr>)
                | (Inr _, h) \<Rightarrow>
                    (case start_runtimes w (md_controllers d1) (d1\<lparr>md_host := h\<rparr>) of
                       (Inl e, d2) \<Rightarrow> (Inl e, d2)
                     | (Inr _, d2) \<Rightarrow> (Inr (), d2\<lparr>md_timer := True\<rparr>)))))"

text \<open>\<open>stop\<close>: when the host's stop throws, the Hub connections and the controllers stay.\<close>

definition daemon_stop :: "daemon_world \<Rightarrow> mesh_daemon \<Rightarrow> (exn + unit) \<times> mesh_daemon" where
  "daemon_stop w d =
     (let d1 = d\<lparr>md_timer := False, md_workers := [], md_claude := [], md_channels := [],
            md_running := filter (\<lambda>(i, c). case map_of (md_channels d) c of None \<Rightarrow> True | Some (j, ch) \<Rightarrow> j \<noteq> i) (md_running d)\<rparr>;
          (r, h) = host_stop (dw_host w) (md_host d1) in
      case r of
        Inl e \<Rightarrow> (Inl e, d1\<lparr>md_host := h\<rparr>)
      | Inr _ \<Rightarrow> (Inr (), d1\<lparr>md_host := h, md_hubs := [], md_controllers := []\<rparr>))"

end
