(* ===== verification/Daemon_Lanes_Props.thy ===== *)
theory Daemon_Lanes_Props
  imports Daemon_Lanes
begin

text \<open>
  What a daemon runs after a reload is what its configuration says.  The state is read lane by lane
  (\<open>view\<close>): each operation changes the view of its own lane alone, so that the loops of \<open>reload\<close> can be
  followed one lane at a time.
\<close>

section \<open>The view of a lane\<close>

record lane_view =
  lv_controller :: "json option"
  lv_hub :: bool
  lv_worker :: bool
  lv_claude :: bool
  lv_server :: bool
  lv_channels :: "string \<Rightarrow> json option"

definition lane_supervisors :: "mesh_daemon \<Rightarrow> string \<Rightarrow> string \<Rightarrow> json option" where
  "lane_supervisors d i c =
     (case map_of (md_channels d) c of None \<Rightarrow> None | Some (j, ch) \<Rightarrow> if j = i then Some ch else None)"

definition view :: "mesh_daemon \<Rightarrow> string \<Rightarrow> lane_view" where
  "view d i =
     \<lparr>lv_controller = map_of (md_controllers d) i, lv_hub = (i \<in> set (md_hubs d)), lv_worker = (i \<in> set (md_workers d)),
      lv_claude = (i \<in> set (md_claude d)), lv_server = (map_of (hd_lanes (md_host d)) i \<noteq> None),
      lv_channels = lane_supervisors d i\<rparr>"

definition no_lane :: lane_view where
  "no_lane = \<lparr>lv_controller = None, lv_hub = False, lv_worker = False, lv_claude = False, lv_server = False,
     lv_channels = (\<lambda>c. None)\<rparr>"

definition enabled_map :: "json \<Rightarrow> string \<Rightarrow> json option" where
  "enabled_map l = map_of (map (\<lambda>c. (lane_id c, c)) (filter item_enabled (lane_channels l)))"

definition full_lane :: "bool \<Rightarrow> json \<Rightarrow> lane_view" where
  "full_lane hub l =
     \<lparr>lv_controller = Some l, lv_hub = hub, lv_worker = (lane_kind l \<noteq> ''claude''), lv_claude = (lane_kind l = ''claude''),
      lv_server = True, lv_channels = enabled_map l\<rparr>"

text \<open>The supervisors in the map are the running ones, and the maps have one entry per id.\<close>

definition channels_ok :: "mesh_daemon \<Rightarrow> bool" where
  "channels_ok d =
     (distinct (map fst (md_channels d)) \<and> distinct (map fst (md_controllers d)) \<and>
      (\<forall>i c. (i, c) \<in> set (md_running d) \<longleftrightarrow> lane_supervisors d i c \<noteq> None))"

definition deployed :: "json \<Rightarrow> mesh_daemon \<Rightarrow> bool" where
  "deployed cfg d =
     (md_config d = Some cfg \<and> hd_started (md_host d) \<and> channels_ok d \<and>
      (\<forall>i. view d i = (case wanted cfg i of None \<Rightarrow> no_lane | Some l \<Rightarrow> full_lane (hub_on cfg) l)))"

text \<open>Channel ids are unique in a configuration, and a channel keeps its lane from one to the next:
  \<open>own\<close> tells the lane of a channel id.\<close>

definition owns :: "(string \<Rightarrow> string) \<Rightarrow> json \<Rightarrow> bool" where
  "owns own l = (distinct (map lane_id (lane_channels l)) \<and> (\<forall>c\<in>set (lane_channels l). own (lane_id c) = lane_id l))"

definition owned :: "(string \<Rightarrow> string) \<Rightarrow> mesh_daemon \<Rightarrow> bool" where
  "owned own d = (\<forall>c i ch. map_of (md_channels d) c = Some (i, ch) \<longrightarrow> own c = i)"

lemma map_of_filter_distinct:
  assumes "distinct (map fst entries)"
  shows "map_of (filter keep entries) i =
    (case map_of entries i of Some y \<Rightarrow> (if keep (i, y) then Some y else None) | None \<Rightarrow> None)"
  using assms by (induction entries) (auto simp: map_of_eq_None_iff split: option.split dest: map_of_SomeD)

lemma distinct_filter_keys: "distinct (map fst xs) \<Longrightarrow> distinct (map fst (filter P xs))"
  by (induction xs) auto

section \<open>Stopping\<close>

lemma stop_channels_supervisors:
  assumes "channels_ok d"
  shows "lane_supervisors (stop_channels p d) i c =
    (case lane_supervisors d i c of None \<Rightarrow> None | Some ch \<Rightarrow> if p c i ch then None else Some ch)"
  using assms
  by (auto simp: channels_ok_def stop_channels_def lane_supervisors_def map_of_filter_distinct split: option.split)

lemma stop_channels_ok:
  assumes "channels_ok d"
  shows "channels_ok (stop_channels p d)"
proof -
  have "(i, c) \<in> set (md_running (stop_channels p d)) \<longleftrightarrow> lane_supervisors (stop_channels p d) i c \<noteq> None" for i c
    using assms stop_channels_supervisors [OF assms, of p i c]
    by (auto simp: channels_ok_def lane_supervisors_def stop_channels_def split: option.splits if_splits)
  with assms show ?thesis by (simp add: channels_ok_def stop_channels_def distinct_filter_keys)
qed

lemma stop_channels_owned:
  assumes "channels_ok d" "owned own d"
  shows "owned own (stop_channels p d)"
  using assms by (auto simp: channels_ok_def owned_def stop_channels_def map_of_filter_distinct split: option.splits if_splits)

lemma stop_channels_rest [simp]:
  "md_controllers (stop_channels p d) = md_controllers d" "md_hubs (stop_channels p d) = md_hubs d"
  "md_workers (stop_channels p d) = md_workers d" "md_claude (stop_channels p d) = md_claude d"
  "md_host (stop_channels p d) = md_host d" "md_config (stop_channels p d) = md_config d"
  by (simp_all add: stop_channels_def)

lemma remove_lane_supervisors:
  "channels_ok d \<Longrightarrow> lane_supervisors (remove_lane i d) j c = (if j = i then None else lane_supervisors d j c)"
  using stop_channels_supervisors [of d "\<lambda>c j ch. j = i" j c]
  by (auto simp: remove_lane_def Let_def lane_supervisors_def split: option.splits)

lemma remove_lane_ok:
  assumes "channels_ok d"
  shows "channels_ok (remove_lane i d)"
  using stop_channels_ok [OF assms, of "\<lambda>c j ch. j = i"]
  by (simp add: remove_lane_def Let_def channels_ok_def lane_supervisors_def)

lemma remove_lane_owned: "channels_ok d \<Longrightarrow> owned own d \<Longrightarrow> owned own (remove_lane i d)"
  using stop_channels_owned [of d own "\<lambda>c j ch. j = i"] by (simp add: remove_lane_def Let_def owned_def)

lemma view_remove_lane:
  assumes "channels_ok d"
  shows "view (remove_lane i d) j = (if j = i then no_lane else view d j)"
proof -
  have "lane_supervisors (remove_lane i d) j = (if j = i then (\<lambda>c. None) else lane_supervisors d j)"
    by (rule ext) (simp add: remove_lane_supervisors [OF assms])
  then show ?thesis
    by (simp add: view_def no_lane_def) (simp add: remove_lane_def Let_def host_removeLane_def)
qed

lemma remove_lanes:
  assumes "channels_ok d" "owned own d"
  shows "channels_ok (fold (\<lambda>p. remove_lane (fst p)) ps d) \<and> owned own (fold (\<lambda>p. remove_lane (fst p)) ps d) \<and>
    hd_started (md_host (fold (\<lambda>p. remove_lane (fst p)) ps d)) = hd_started (md_host d) \<and>
    view (fold (\<lambda>p. remove_lane (fst p)) ps d) j = (if j \<in> fst ` set ps then no_lane else view d j)"
  using assms
proof (induction ps arbitrary: d)
  case (Cons p ps)
  have "hd_started (md_host (remove_lane (fst p) d)) = hd_started (md_host d)"
    by (simp add: remove_lane_def Let_def host_removeLane_def)
  with Cons.IH [OF remove_lane_ok [OF Cons.prems(1)] remove_lane_owned [OF Cons.prems]]
    view_remove_lane [OF Cons.prems(1)] show ?case by auto
qed simp

section \<open>Starting\<close>

lemma start_channel_rest [simp]:
  "md_controllers (start_channel i c d) = md_controllers d" "md_hubs (start_channel i c d) = md_hubs d"
  "md_workers (start_channel i c d) = md_workers d" "md_claude (start_channel i c d) = md_claude d"
  "md_host (start_channel i c d) = md_host d" "md_config (start_channel i c d) = md_config d"
  by (simp_all add: start_channel_def)

lemma start_missing_rest [simp]:
  "md_controllers (start_missing i c d) = md_controllers d" "md_hubs (start_missing i c d) = md_hubs d"
  "md_workers (start_missing i c d) = md_workers d" "md_claude (start_missing i c d) = md_claude d"
  "md_host (start_missing i c d) = md_host d" "md_config (start_missing i c d) = md_config d"
  by (simp_all add: start_missing_def)

text \<open>Where the id is free, or the map's own lane asks for it, the two ways to start agree.\<close>

lemma start_missing_facts:
  assumes "channels_ok d" "owned own d" "own (lane_id c) = i"
  shows "channels_ok (start_missing i c d) \<and> owned own (start_missing i c d) \<and>
    lane_supervisors (start_missing i c d) j k =
      (if j = i \<and> k = lane_id c \<and> lane_supervisors d i k = None then Some c else lane_supervisors d j k)"
proof (cases "map_of (md_channels d) (lane_id c)")
  case None
  then have sup: "lane_supervisors (start_missing i c d) j k =
      (if j = i \<and> k = lane_id c then Some c else lane_supervisors d j k)" for j k
    by (auto simp: start_missing_def start_channel_def lane_supervisors_def split: option.split)
  have "(j, k) \<in> set (md_running (start_missing i c d)) \<longleftrightarrow> lane_supervisors (start_missing i c d) j k \<noteq> None" for j k
    using assms(1) None unfolding sup by (auto simp: channels_ok_def start_missing_def start_channel_def)
  with sup None assms show ?thesis
    by (auto simp: channels_ok_def owned_def start_missing_def start_channel_def lane_supervisors_def)
next
  case (Some p)
  obtain j' ch where p: "p = (j', ch)" by (cases p)
  with Some assms(2,3) have "j' = i" by (auto simp: owned_def)
  with Some p assms show ?thesis by (auto simp: start_missing_def lane_supervisors_def)
qed

lemma start_missing_all:
  assumes "channels_ok d" "owned own d" "\<forall>c\<in>set cs. own (lane_id c) = i"
  shows "channels_ok (fold (start_missing i) cs d) \<and> owned own (fold (start_missing i) cs d) \<and>
    lane_supervisors (fold (start_missing i) cs d) j k =
      (if j = i \<and> lane_supervisors d i k = None then map_of (map (\<lambda>c. (lane_id c, c)) cs) k else lane_supervisors d j k)"
  using assms
proof (induction cs arbitrary: d)
  case (Cons c cs)
  have own: "own (lane_id c) = i" using Cons.prems(3) by simp
  note one = start_missing_facts [OF Cons.prems(1,2) own]
  have "channels_ok (start_missing i c d)" "owned own (start_missing i c d)"
    using one by auto
  from Cons.IH [OF this] Cons.prems(3) one [of j k] one [of i k] show ?case by (auto split: if_splits)
qed simp

lemma fold_start_missing_rest [simp]:
  "md_controllers (fold (start_missing i) cs d) = md_controllers d" "md_hubs (fold (start_missing i) cs d) = md_hubs d"
  "md_workers (fold (start_missing i) cs d) = md_workers d" "md_claude (fold (start_missing i) cs d) = md_claude d"
  "md_host (fold (start_missing i) cs d) = md_host d" "md_config (fold (start_missing i) cs d) = md_config d"
  by (induction cs arbitrary: d) simp_all

text \<open>A lane without supervisors starts all its channels anew.\<close>

lemma start_channel_missing:
  assumes "distinct (map lane_id cs)" "\<forall>c\<in>set cs. map_of (md_channels d) (lane_id c) = None"
  shows "fold (start_channel i) cs d = fold (start_missing i) cs d"
  using assms
proof (induction cs arbitrary: d)
  case (Cons c cs)
  then have "start_missing i c d = start_channel i c d" by (simp add: start_missing_def)
  moreover have "\<forall>c'\<in>set cs. map_of (md_channels (start_channel i c d)) (lane_id c') = None"
    
  proof
    fix c'
    assume c': "c' \<in> set cs"
    then have "lane_id c' \<in> lane_id ` set cs" by simp
    with Cons.prems(1) have "lane_id c' \<noteq> lane_id c" by auto
    with Cons.prems(2) c' show "map_of (md_channels (start_channel i c d)) (lane_id c') = None"
      by (simp add: start_channel_def)
  qed
  ultimately show ?case using Cons by simp
qed simp

section \<open>Deploying and adjusting a lane\<close>

lemma enabled_owned:
  assumes "owns own l"
  shows "\<forall>c\<in>set (filter item_enabled (lane_channels l)). own (lane_id c) = lane_id l"
    "distinct (map lane_id (filter item_enabled (lane_channels l)))"
  using assms by (auto simp: owns_def distinct_map inj_on_def)

lemma free_ids:
  assumes "owned own d" "owns own l" "\<And>k. lane_supervisors d (lane_id l) k = None"
  shows "\<forall>c\<in>set (filter item_enabled (lane_channels l)). map_of (md_channels d) (lane_id c) = None"
proof
  fix c
  assume "c \<in> set (filter item_enabled (lane_channels l))"
  with enabled_owned [OF assms(2)] have own: "own (lane_id c) = lane_id l" by blast
  show "map_of (md_channels d) (lane_id c) = None"
  proof (cases "map_of (md_channels d) (lane_id c)")
    case (Some p)
    with own assms(1) assms(3) [of "lane_id c"] show ?thesis
      by (cases p) (auto simp: owned_def lane_supervisors_def)
  qed simp
qed

lemma startChannelSupervisors_facts:
  assumes "channels_ok d" "owned own d" "owns own l" "\<And>k. lane_supervisors d (lane_id l) k = None"
  shows "channels_ok (startChannelSupervisors l d) \<and> owned own (startChannelSupervisors l d) \<and>
    lane_supervisors (startChannelSupervisors l d) j = (if j = lane_id l then enabled_map l else lane_supervisors d j)"
proof -
  note own = enabled_owned [OF assms(3)]
  note eq = start_channel_missing [OF own(2) free_ids [OF assms(2-4)], of "lane_id l"]
  show ?thesis
    using start_missing_all [OF assms(1,2) own(1)] assms(4)
    unfolding startChannelSupervisors_def eq
    by (auto simp: enabled_map_def fun_eq_iff)
qed

lemma startChannelSupervisors_rest:
  assumes "owned own d" "owns own l" "\<And>k. lane_supervisors d (lane_id l) k = None"
  shows "md_controllers (startChannelSupervisors l d) = md_controllers d \<and> md_hubs (startChannelSupervisors l d) = md_hubs d \<and>
    md_workers (startChannelSupervisors l d) = md_workers d \<and> md_claude (startChannelSupervisors l d) = md_claude d \<and>
    md_host (startChannelSupervisors l d) = md_host d \<and> md_config (startChannelSupervisors l d) = md_config d"
  using start_channel_missing [OF enabled_owned(2) [OF assms(2)] free_ids [OF assms], of "lane_id l"]
  by (simp add: startChannelSupervisors_def)

text \<open>The state of a lane that was just built, before its channels start.\<close>

definition built :: "bool \<Rightarrow> json \<Rightarrow> host_daemon \<Rightarrow> mesh_daemon \<Rightarrow> mesh_daemon" where
  "built hub l h d =
     d\<lparr>md_controllers := AList.update (lane_id l) l (md_controllers d),
       md_hubs := (if hub then List.insert (lane_id l) (md_hubs d) else md_hubs d),
       md_host := h,
       md_workers := (if lane_id l \<in> set (md_workers d) \<or> lane_kind l = ''claude'' then md_workers d else lane_id l # md_workers d),
       md_claude := (if lane_kind l = ''claude'' then List.insert (lane_id l) (md_claude d) else md_claude d)\<rparr>"

lemma built_sels:
  "md_controllers (built hub l h d) = AList.update (lane_id l) l (md_controllers d)"
  "md_hubs (built hub l h d) = (if hub then List.insert (lane_id l) (md_hubs d) else md_hubs d)"
  "md_workers (built hub l h d) =
     (if lane_id l \<in> set (md_workers d) \<or> lane_kind l = ''claude'' then md_workers d else lane_id l # md_workers d)"
  "md_claude (built hub l h d) = (if lane_kind l = ''claude'' then List.insert (lane_id l) (md_claude d) else md_claude d)"
  "md_host (built hub l h d) = h" "md_config (built hub l h d) = md_config d"
  by (simp_all add: built_def)

lemma deploy_lane_ok:
  assumes "deploy_lane w hub l d = (Inr u, d')"
  shows "\<exists>h. host_addLane (dw_host w) (lane_id l) (md_host d) = (Inr (), h) \<and>
    d' = startChannelSupervisors l (built hub l h d)"
  using assms
  by (auto simp: deploy_lane_def createController_def startRuntimeWorker_def startClaudeSupervisor_def built_def
      split: sum.splits prod.splits if_splits)

lemma host_addLane_ok:
  assumes "host_addLane w i h = (Inr u, h')"
  shows "hd_started h' = hd_started h" "map_of (hd_lanes h') j \<noteq> None \<longleftrightarrow> j = i \<or> map_of (hd_lanes h) j \<noteq> None"
  using assms by (auto simp: host_addLane_def split: if_splits sum.splits)

lemma view_deploy:
  assumes "deploy_lane w hub l d = (Inr u, d')" "channels_ok d" "owned own d" "owns own l" "view d (lane_id l) = no_lane"
  shows "channels_ok d' \<and> owned own d' \<and> hd_started (md_host d') = hd_started (md_host d) \<and> md_config d' = md_config d \<and>
    view d' j = (if j = lane_id l then full_lane hub l else view d j)"
proof -
  from deploy_lane_ok [OF assms(1)] obtain h
    where h: "host_addLane (dw_host w) (lane_id l) (md_host d) = (Inr (), h)"
      and d': "d' = startChannelSupervisors l (built hub l h d)" by blast
  let ?b = "built hub l h d"
  have sup: "lane_supervisors ?b = lane_supervisors d" by (simp add: built_def lane_supervisors_def fun_eq_iff)
  have b: "channels_ok ?b" "owned own ?b"
    using assms(2,3) sup by (simp_all add: channels_ok_def owned_def) (simp_all add: built_def)
  have "lane_supervisors ?b (lane_id l) k = None" for k
    using assms(5) by (simp add: sup view_def no_lane_def)
  note facts = startChannelSupervisors_facts [OF b assms(4) this, of j]
    startChannelSupervisors_rest [OF b(2) assms(4) this]
  have old: "lane_id l \<notin> set (md_hubs d)" "lane_id l \<notin> set (md_workers d)" "lane_id l \<notin> set (md_claude d)"
    using assms(5) by (simp_all add: view_def no_lane_def)
  show ?thesis
    using facts host_addLane_ok(1) [OF h] host_addLane_ok(2) [OF h, of j] old unfolding d' [symmetric] view_def sup
    by (cases "j = lane_id l") (simp_all add: built_sels full_lane_def)
qed

section \<open>Adjusting the channels of a lane\<close>

lemma channel_map_enabled:
  assumes "owns own l"
  shows "enabled_map l k = (case channel_map l k of None \<Rightarrow> None | Some c \<Rightarrow> if item_enabled c then Some c else None)"
proof -
  have "distinct (map lane_id cs) \<Longrightarrow> map_of (map (\<lambda>c. (lane_id c, c)) (filter item_enabled cs)) k =
      (case map_of (map (\<lambda>c. (lane_id c, c)) cs) k of None \<Rightarrow> None | Some c \<Rightarrow> if item_enabled c then Some c else None)" for cs
    by (induction cs) (auto simp: map_of_eq_None_iff split: option.split)
  with assms show ?thesis by (simp add: enabled_map_def channel_map_def owns_def)
qed

lemma with_channels_same:
  assumes "with_channels [] l = with_channels [] cfg" "jfield l ''channels'' = Some (JArr cs)"
  shows "with_channels cs cfg = l"
proof -
  obtain fs where l: "l = JObj fs" using assms(2) by (cases l) auto
  with assms(1) obtain gs where cfg: "cfg = JObj gs" by (cases cfg) (auto simp: with_channels_def)
  from assms(1) l cfg have "AList.update ''channels'' (JArr []) fs = AList.update ''channels'' (JArr []) gs"
    by (simp add: with_channels_def)
  then have "AList.update ''channels'' (JArr cs) fs = AList.update ''channels'' (JArr cs) gs"
    by (metis update_last)
  moreover have "AList.update ''channels'' (JArr cs) fs = fs" using assms(2) l by (simp add: update_triv)
  ultimately show ?thesis by (simp add: with_channels_def l cfg)
qed

lemma view_sync:
  assumes "channels_ok d" "owned own d" "owns own l"
  shows "channels_ok (syncChannelSupervisors l d) \<and> owned own (syncChannelSupervisors l d) \<and>
    md_host (syncChannelSupervisors l d) = md_host d \<and> md_config (syncChannelSupervisors l d) = md_config d \<and>
    view (syncChannelSupervisors l d) j =
      (if j = lane_id l then (view d j)\<lparr>lv_controller := map_option (with_channels (lane_channels l)) (lv_controller (view d j)),
         lv_channels := enabled_map l\<rparr> else view d j)"
proof -
  let ?i = "lane_id l"
  define p where "p = (\<lambda>c j ch. j = ?i \<and>
    (case channel_map l c of None \<Rightarrow> True | Some ch' \<Rightarrow> \<not> item_enabled ch' \<or> ch' \<noteq> ch))"
  define d2 where "d2 = (stop_channels p d)\<lparr>md_controllers :=
    map (\<lambda>(j, cfg). (j, if j = ?i then with_channels (lane_channels l) cfg else cfg)) (md_controllers d)\<rparr>"
  have sync: "syncChannelSupervisors l d = fold (start_missing ?i) (filter item_enabled (lane_channels l)) d2"
    by (simp add: syncChannelSupervisors_def d2_def p_def Let_def)
  have sup: "lane_supervisors d2 = lane_supervisors (stop_channels p d)"
    by (simp add: d2_def lane_supervisors_def fun_eq_iff)
  have keys: "fst \<circ> (\<lambda>(j, cfg). (j, if j = ?i then with_channels (lane_channels l) cfg else cfg)) = fst"
    by (auto simp: fun_eq_iff)
  have ok: "channels_ok d2" "owned own d2"
    using stop_channels_ok [OF assms(1), of p] stop_channels_owned [OF assms(1,2), of p] sup
    by (simp_all add: channels_ok_def owned_def) (simp_all add: d2_def keys)
  note all = start_missing_all [OF ok enabled_owned(1) [OF assms(3)]]
  have chans: "lane_supervisors (syncChannelSupervisors l d) j k = (if j = ?i then enabled_map l k else lane_supervisors d j k)" for j k
  proof (cases "j = ?i")
    case True
    show ?thesis
      using all [of ?i k] True channel_map_enabled [OF assms(3), of k] stop_channels_supervisors [OF assms(1), of p ?i k]
      unfolding sync sup
      by (auto simp: p_def enabled_map_def split: option.splits if_splits)
  next
    case False
    with all [of j k] stop_channels_supervisors [OF assms(1), of p j k] show ?thesis
      unfolding sync sup by (auto simp: p_def split: option.splits)
  qed
  then have chans': "lane_supervisors (syncChannelSupervisors l d) j = (if j = ?i then enabled_map l else lane_supervisors d j)" for j
    by (auto simp: fun_eq_iff)
  have ctl: "map_of (md_controllers (syncChannelSupervisors l d)) j =
      (if j = ?i then map_option (with_channels (lane_channels l)) (map_of (md_controllers d) j) else map_of (md_controllers d) j)"
    unfolding sync fold_start_missing_rest d2_def
    by (simp add: map_of_map_value [where f = "\<lambda>j cfg. if j = ?i then with_channels (lane_channels l) cfg else cfg"])
      (cases "map_of (md_controllers d) j"; simp)
  have rest: "md_hubs (syncChannelSupervisors l d) = md_hubs d" "md_workers (syncChannelSupervisors l d) = md_workers d"
    "md_claude (syncChannelSupervisors l d) = md_claude d" "md_host (syncChannelSupervisors l d) = md_host d"
    "md_config (syncChannelSupervisors l d) = md_config d"
    by (simp_all add: sync d2_def)
  show ?thesis using all chans' ctl rest unfolding sync [symmetric] by (simp add: view_def)
qed

section \<open>Reloading\<close>

definition lanes_ok :: "(string \<Rightarrow> string) \<Rightarrow> json \<Rightarrow> bool" where
  "lanes_ok own cfg =
     (distinct (map lane_id (enabled_lanes cfg)) \<and>
      (\<forall>l\<in>set (enabled_lanes cfg). owns own l \<and> jarr (jfield l ''channels'') \<noteq> None))"

lemma lane_kind_with_channels [simp]: "lane_kind (with_channels cs l) = lane_kind l"
  by (cases l) (simp_all add: lane_kind_def with_channels_def field_of_def)

lemma same_core_kind: "with_channels [] l = with_channels [] cfg \<Longrightarrow> lane_kind l = lane_kind cfg"
  by (metis lane_kind_with_channels)

lemma sync_full:
  assumes "with_channels [] l = with_channels [] cfg" "jarr (jfield l ''channels'') \<noteq> None"
  shows "(full_lane hub cfg)\<lparr>lv_controller := Some (with_channels (lane_channels l) cfg), lv_channels := enabled_map l\<rparr> = full_lane hub l"
proof -
  obtain cs where cs: "jfield l ''channels'' = Some (JArr cs)"
    using assms(2) by (auto simp: json_simps)
  then have "lane_channels l = cs" by (simp add: lane_channels_def arr_of_def)
  with with_channels_same [OF assms(1) cs] same_core_kind [OF assms(1)] show ?thesis
    by (simp add: full_lane_def)
qed

text \<open>A lane that the second loop meets was just removed or never there, or has its core already.\<close>

definition ready :: "bool \<Rightarrow> json \<Rightarrow> mesh_daemon \<Rightarrow> bool" where
  "ready hub l d =
     (view d (lane_id l) = no_lane \<or>
      (\<exists>cfg. with_channels [] l = with_channels [] cfg \<and> view d (lane_id l) = full_lane hub cfg))"

lemma view_reload_lane:
  assumes "reload_lane w hub l d = (Inr u, d')" "channels_ok d" "owned own d" "owns own l"
    "jarr (jfield l ''channels'') \<noteq> None" "ready hub l d"
  shows "channels_ok d' \<and> owned own d' \<and> hd_started (md_host d') = hd_started (md_host d) \<and> md_config d' = md_config d \<and>
    view d' j = (if j = lane_id l then full_lane hub l else view d j)"
proof -
  have ctl: "map_of (md_controllers d) (lane_id l) = lv_controller (view d (lane_id l))" by (simp add: view_def)
  from assms(6) consider "view d (lane_id l) = no_lane"
    | cfg where "with_channels [] l = with_channels [] cfg" "view d (lane_id l) = full_lane hub cfg"
    by (auto simp: ready_def)
  then show ?thesis
  proof cases
    case 1
    with assms(1) ctl have "deploy_lane w hub l d = (Inr u, d')" by (simp add: reload_lane_def no_lane_def)
    from view_deploy [OF this assms(2,3,4) 1, of j] show ?thesis .
  next
    case 2
    with assms(1) ctl have "d' = syncChannelSupervisors l d" by (simp add: reload_lane_def full_lane_def)
    moreover have "view d (lane_id l)\<lparr>lv_controller := map_option (with_channels (lane_channels l)) (lv_controller (view d (lane_id l))),
        lv_channels := enabled_map l\<rparr> = full_lane hub l"
      using sync_full [OF 2(1) assms(5), of hub] by (simp add: 2(2)) (simp add: full_lane_def)
    ultimately show ?thesis using view_sync [OF assms(2,3,4), of j] by auto
  qed
qed

lemma view_reload_lanes:
  assumes "reload_lanes w hub ls d = (Inr u, d')" "channels_ok d" "owned own d" "distinct (map lane_id ls)"
    "\<And>l. l \<in> set ls \<Longrightarrow> owns own l \<and> jarr (jfield l ''channels'') \<noteq> None \<and> ready hub l d"
  shows "channels_ok d' \<and> hd_started (md_host d') = hd_started (md_host d) \<and> md_config d' = md_config d \<and>
    view d' j = (case map_of (map (\<lambda>l. (lane_id l, l)) ls) j of None \<Rightarrow> view d j | Some l \<Rightarrow> full_lane hub l)"
  using assms
proof (induction ls arbitrary: d)
  case (Cons l ls)
  obtain r d1 where r: "reload_lane w hub l d = (r, d1)" by (cases "reload_lane w hub l d")
  with Cons.prems(1) obtain v where v: "r = Inr v" by (cases r) auto
  have l: "owns own l" "jarr (jfield l ''channels'') \<noteq> None" "ready hub l d" using Cons.prems(5) [of l] by auto
  note one = view_reload_lane [OF r [unfolded v] Cons.prems(2,3) l]
  have rest: "reload_lanes w hub ls d1 = (Inr u, d')" using Cons.prems(1) r v by simp
  have "ready hub l' d1" if "l' \<in> set ls" for l'
  proof -
    have "lane_id l' \<in> lane_id ` set ls" using that by simp
    with Cons.prems(4) have "lane_id l' \<noteq> lane_id l" by auto
    with one [of "lane_id l'"] Cons.prems(5) [of l'] that show ?thesis by (simp add: ready_def)
  qed
  with Cons.prems(5) have ls: "\<And>l'. l' \<in> set ls \<Longrightarrow> owns own l' \<and> jarr (jfield l' ''channels'') \<noteq> None \<and> ready hub l' d1"
    by simp
  have d1: "channels_ok d1" "owned own d1" using one by auto
  have "distinct (map lane_id ls)" using Cons.prems(4) by simp
  note IH = Cons.IH [OF rest d1 this ls]
  have "map_of (map (\<lambda>l. (lane_id l, l)) ls) (lane_id l) = None"
    using Cons.prems(4) by (auto simp: map_of_eq_None_iff)
  with IH one [of j] show ?case by (auto split: option.splits)
qed simp

lemma wanted_lane:
  assumes "wanted cfg i = Some l"
  shows "l \<in> set (enabled_lanes cfg)" "lane_id l = i"
  using map_of_SomeD [OF assms [unfolded wanted_def]] by auto

lemma wanted_enabled:
  assumes "distinct (map lane_id (enabled_lanes cfg))" "l \<in> set (enabled_lanes cfg)"
  shows "wanted cfg (lane_id l) = Some l"
  using assms unfolding wanted_def by (auto simp: comp_def intro!: map_of_is_SomeI)

lemma deployed_owned:
  assumes "deployed cfg d" "lanes_ok own cfg"
  shows "owned own d"
  unfolding owned_def
proof (intro allI impI)
  fix c i ch
  assume "map_of (md_channels d) c = Some (i, ch)"
  then have "lv_channels (view d i) c = Some ch" by (simp add: view_def lane_supervisors_def)
  moreover have "view d i = (case wanted cfg i of None \<Rightarrow> no_lane | Some l \<Rightarrow> full_lane (hub_on cfg) l)"
    using assms(1) by (simp add: deployed_def)
  ultimately obtain l where l: "wanted cfg i = Some l" "enabled_map l c = Some ch"
    by (auto simp: no_lane_def full_lane_def split: option.splits)
  from map_of_SomeD [OF l(2) [unfolded enabled_map_def]] have "ch \<in> set (lane_channels l)" "lane_id ch = c" by auto
  with wanted_lane [OF l(1)] assms(2) show "own c = i" by (auto simp: lanes_ok_def owns_def)
qed

lemma hub_on_same: "field_of nxt ''hub'' = field_of cfg ''hub'' \<Longrightarrow> hub_on nxt = hub_on cfg"
  by (auto simp: hub_on_def field_of_def split: option.splits)

text \<open>What the first loop leaves of a lane.\<close>

lemma first_loop_ready:
  fixes nxt :: json
  assumes "deployed cfg d" "lanes_ok own cfg"
  defines "d1 \<equiv> fold (\<lambda>p. remove_lane (fst p)) (filter (stale nxt d) (md_controllers d)) d"
  shows "view d1 i = no_lane \<or>
    (\<exists>l c. wanted nxt i = Some l \<and> with_channels [] l = with_channels [] c \<and> view d1 i = full_lane (hub_on nxt) c)"
proof -
  have ok: "channels_ok d" "md_config d = Some cfg" using assms(1) by (simp_all add: deployed_def)
  note rm = remove_lanes [OF ok(1) deployed_owned [OF assms(1,2)], of "filter (stale nxt d) (md_controllers d)" i]
  have v: "view d i = (case wanted cfg i of None \<Rightarrow> no_lane | Some l \<Rightarrow> full_lane (hub_on cfg) l)"
    using assms(1) by (simp add: deployed_def)
  show ?thesis
  proof (cases "wanted cfg i")
    case None
    with v rm show ?thesis by (simp add: d1_def)
  next
    case (Some c)
    with v have c: "map_of (md_controllers d) i = Some c" "view d i = full_lane (hub_on cfg) c"
      by (auto simp: view_def full_lane_def)
    show ?thesis
    proof (cases "stale nxt d (i, c)")
      case True
      with map_of_SomeD [OF c(1)] have "i \<in> fst ` set (filter (stale nxt d) (md_controllers d))"
        by (auto intro!: image_eqI [of i fst "(i, c)"])
      with rm show ?thesis by (simp add: d1_def)
    next
      case False
      have "i \<notin> fst ` set (filter (stale nxt d) (md_controllers d))"
      proof
        assume "i \<in> fst ` set (filter (stale nxt d) (md_controllers d))"
        then obtain c' where "(i, c') \<in> set (md_controllers d)" "stale nxt d (i, c')" by auto
        moreover have "c' = c"
          using ok(1) calculation(1) c(1) by (simp add: channels_ok_def)
        ultimately show False using False by simp
      qed
      with rm c have "view d1 i = full_lane (hub_on cfg) c" by (simp add: d1_def)
      moreover have "hub_on nxt = hub_on cfg" using False ok(2) by (auto simp: stale_def hub_json_def intro!: hub_on_same)
      ultimately show ?thesis using False by (auto simp: stale_def split: option.splits)
    qed
  qed
qed

section \<open>Starting the daemon\<close>

lemma create_controllers_ok:
  assumes "create_controllers w hub ls d = (Inr u, d')" "distinct (map fst (md_controllers d) @ map lane_id ls)"
  shows "md_controllers d' = md_controllers d @ map (\<lambda>l. (lane_id l, l)) ls \<and>
    set (md_hubs d') = set (md_hubs d) \<union> (if hub then lane_id ` set ls else {}) \<and>
    md_workers d' = md_workers d \<and> md_claude d' = md_claude d \<and> md_channels d' = md_channels d \<and>
    md_running d' = md_running d \<and> md_host d' = md_host d \<and> md_config d' = md_config d"
  using assms
proof (induction ls arbitrary: d)
  case (Cons l ls)
  obtain d1 where one: "createController w hub l d = (Inr (), d1)" and rest: "create_controllers w hub ls d1 = (Inr u, d')"
    using Cons.prems(1) by (auto split: sum.splits prod.splits)
  have fresh: "lane_id l \<notin> set (map fst (md_controllers d))" using Cons.prems(2) by auto
  have up: "AList.update (lane_id l) l xs = xs @ [(lane_id l, l)]" if "lane_id l \<notin> set (map fst xs)" for xs :: "(string \<times> json) list"
    using that by (induction xs) auto
  from one have d1: "md_controllers d1 = md_controllers d @ [(lane_id l, l)]"
    "md_hubs d1 = (if hub then List.insert (lane_id l) (md_hubs d) else md_hubs d)"
    "md_workers d1 = md_workers d" "md_claude d1 = md_claude d" "md_channels d1 = md_channels d"
    "md_running d1 = md_running d" "md_host d1 = md_host d" "md_config d1 = md_config d"
    using up [OF fresh] by (auto simp: createController_def split: sum.splits)
  have "distinct (map fst (md_controllers d1) @ map lane_id ls)" using Cons.prems(2) by (auto simp: d1)
  from Cons.IH [OF rest this] show ?case by (auto simp: d1)
qed simp

lemma start_runtime_ok:
  assumes "startRuntimeWorker w l d = (Inr u, d1)" "channels_ok d" "owned own d" "owns own l"
    "\<not> lv_worker (view d (lane_id l))" "\<not> lv_claude (view d (lane_id l))" "lv_channels (view d (lane_id l)) = (\<lambda>k. None)"
  defines "d2 \<equiv> startChannelSupervisors l (startClaudeSupervisor l d1)"
  shows "channels_ok d2 \<and> owned own d2 \<and> md_host d2 = md_host d \<and> md_config d2 = md_config d \<and>
    view d2 j = (if j = lane_id l
      then (view d j)\<lparr>lv_worker := lane_kind l \<noteq> ''claude'', lv_claude := lane_kind l = ''claude'', lv_channels := enabled_map l\<rparr>
      else view d j)"
proof -
  let ?s = "startClaudeSupervisor l d1"
  have s: "md_controllers ?s = md_controllers d" "md_hubs ?s = md_hubs d" "md_host ?s = md_host d" "md_config ?s = md_config d"
    "md_channels ?s = md_channels d" "md_running ?s = md_running d"
    "md_workers ?s = (if lane_kind l = ''claude'' then md_workers d else lane_id l # md_workers d)"
    "md_claude ?s = (if lane_kind l = ''claude'' then List.insert (lane_id l) (md_claude d) else md_claude d)"
    using assms(1,5) by (auto simp: startRuntimeWorker_def startClaudeSupervisor_def view_def split: sum.splits if_splits)
  have sup: "lane_supervisors ?s = lane_supervisors d" by (simp add: lane_supervisors_def s fun_eq_iff)
  have ok: "channels_ok ?s" "owned own ?s" using assms(2,3) by (simp_all add: channels_ok_def owned_def sup s)
  have none: "lane_supervisors ?s (lane_id l) k = None" for k using assms(7) by (simp add: sup view_def fun_eq_iff)
  show ?thesis
    using startChannelSupervisors_facts [OF ok assms(4) none, of j] startChannelSupervisors_rest [OF ok(2) assms(4) none]
      assms(5,6) unfolding d2_def [symmetric] view_def
    by (cases "j = lane_id l") (simp_all add: s sup)
qed

lemma start_runtimes_ok:
  assumes "start_runtimes w (map (\<lambda>l. (lane_id l, l)) ls) d = (Inr u, d')" "channels_ok d" "owned own d" "distinct (map lane_id ls)"
    "\<forall>l\<in>set ls. owns own l \<and> \<not> lv_worker (view d (lane_id l)) \<and> \<not> lv_claude (view d (lane_id l)) \<and>
       lv_channels (view d (lane_id l)) = (\<lambda>k. None)"
  shows "channels_ok d' \<and> md_host d' = md_host d \<and> md_config d' = md_config d \<and>
    view d' j = (case map_of (map (\<lambda>l. (lane_id l, l)) ls) j of None \<Rightarrow> view d j
      | Some l \<Rightarrow> (view d j)\<lparr>lv_worker := lane_kind l \<noteq> ''claude'', lv_claude := lane_kind l = ''claude'', lv_channels := enabled_map l\<rparr>)"
  using assms
proof (induction ls arbitrary: d)
  case (Cons l ls)
  obtain d1 where w: "startRuntimeWorker w l d = (Inr (), d1)"
    and rest: "start_runtimes w (map (\<lambda>l. (lane_id l, l)) ls) (startChannelSupervisors l (startClaudeSupervisor l d1)) = (Inr u, d')"
    using Cons.prems(1) by (auto split: sum.splits prod.splits)
  have l: "owns own l" "\<not> lv_worker (view d (lane_id l))" "\<not> lv_claude (view d (lane_id l))"
    "lv_channels (view d (lane_id l)) = (\<lambda>k. None)" using Cons.prems(5) by auto
  let ?d2 = "startChannelSupervisors l (startClaudeSupervisor l d1)"
  note one = start_runtime_ok [OF w Cons.prems(2,3) l]
  have d2: "channels_ok ?d2" "owned own ?d2" using one by auto
  have "view ?d2 (lane_id l') = view d (lane_id l')" if "l' \<in> set ls" for l'
  proof -
    have "lane_id l' \<in> lane_id ` set ls" using that by simp
    with Cons.prems(4) have "lane_id l' \<noteq> lane_id l" by auto
    with one [of "lane_id l'"] show ?thesis by simp
  qed
  with Cons.prems(5) have ls: "\<forall>l\<in>set ls. owns own l \<and> \<not> lv_worker (view ?d2 (lane_id l)) \<and> \<not> lv_claude (view ?d2 (lane_id l)) \<and>
       lv_channels (view ?d2 (lane_id l)) = (\<lambda>k. None)" by simp
  have "distinct (map lane_id ls)" using Cons.prems(4) by simp
  note IH = Cons.IH [OF rest d2 this ls]
  have "map_of (map (\<lambda>l. (lane_id l, l)) ls) (lane_id l) = None"
    using Cons.prems(4) by (auto simp: map_of_eq_None_iff)
  with IH one [of j] show ?case by (auto split: option.splits)
qed simp

lemma daemon_start_deploys:
  assumes "daemon_start w (daemon_new f) = (Inr u, d')" "dw_load w = Inr cfg" "lanes_ok own cfg"
  shows "deployed cfg d'"
proof -
  let ?ls = "enabled_lanes cfg" and ?d0 = "(daemon_new f)\<lparr>md_config := Some cfg\<rparr>"
  have dist: "distinct (map lane_id ?ls)" using assms(3) by (simp add: lanes_ok_def)
  obtain d1 h d2 where c: "create_controllers w (hub_on cfg) ?ls ?d0 = (Inr (), d1)"
    and hs: "host_start (dw_host w) (map fst (md_controllers d1)) (md_host d1) = (Inr (), h)"
    and rt: "start_runtimes w (md_controllers d1) (d1\<lparr>md_host := h\<rparr>) = (Inr (), d2)" and d': "d' = d2\<lparr>md_timer := True\<rparr>"
    using assms(1,2) by (auto simp: daemon_start_def split: sum.splits prod.splits)
  have "distinct (map fst (md_controllers ?d0) @ map lane_id ?ls)" using dist by (simp add: daemon_new_def)
  from create_controllers_ok [OF c this] have d1: "md_controllers d1 = map (\<lambda>l. (lane_id l, l)) ?ls"
    "set (md_hubs d1) = (if hub_on cfg then lane_id ` set ?ls else {})" "md_workers d1 = []" "md_claude d1 = []"
    "md_channels d1 = []" "md_running d1 = []" "md_host d1 = host_new f" "md_config d1 = Some cfg"
    by (auto simp: daemon_new_def)
  have ids: "map fst (md_controllers d1) = map lane_id ?ls" by (simp add: d1 comp_def)
  let ?d = "d1\<lparr>md_host := h\<rparr>"
  have "hd_lanes (md_host d1) = []" by (simp add: d1 host_new_def)
  from host_start_ok [OF this hs] have h: "hd_started h" "set (map fst (hd_lanes h)) = lane_id ` set ?ls"
    by (auto simp only: js_unique_simps ids set_map)
  then have server: "map_of (hd_lanes h) i \<noteq> None \<longleftrightarrow> i \<in> lane_id ` set ?ls" for i by (simp add: map_of_eq_None_iff)
  have sup: "lane_supervisors ?d i = (\<lambda>k. None)" for i by (simp add: lane_supervisors_def d1 fun_eq_iff)
  have ok: "channels_ok ?d" "owned own ?d" using dist ids by (simp_all add: channels_ok_def owned_def sup d1 comp_def)
  have view: "view ?d i = \<lparr>lv_controller = wanted cfg i, lv_hub = (hub_on cfg \<and> i \<in> lane_id ` set ?ls), lv_worker = False,
      lv_claude = False, lv_server = (i \<in> lane_id ` set ?ls), lv_channels = (\<lambda>k. None)\<rparr>" for i
    using server [of i] sup by (simp add: view_def d1 wanted_def)
  have each: "\<forall>l\<in>set ?ls. owns own l \<and> \<not> lv_worker (view ?d (lane_id l)) \<and> \<not> lv_claude (view ?d (lane_id l)) \<and>
       lv_channels (view ?d (lane_id l)) = (\<lambda>k. None)"
    using assms(3) by (simp add: view lanes_ok_def)
  note run = start_runtimes_ok [OF rt [unfolded d1(1)] ok dist each]
  have in_ids: "i \<in> lane_id ` set ?ls \<longleftrightarrow> wanted cfg i \<noteq> None" for i
    by (auto simp: wanted_def map_of_eq_None_iff image_image)
  have "view d2 i = (case wanted cfg i of None \<Rightarrow> no_lane | Some l \<Rightarrow> full_lane (hub_on cfg) l)" for i
    using run [of i] unfolding view wanted_def [symmetric] in_ids
    by (auto simp: no_lane_def full_lane_def split: option.splits)
  moreover have "view d' i = view d2 i" for i by (simp add: d' view_def) (simp add: lane_supervisors_def fun_eq_iff)
  moreover have "channels_ok d'" using run by (simp add: d' channels_ok_def lane_supervisors_def)
  ultimately show ?thesis using run h(1) by (simp add: deployed_def) (simp add: d' d1)
qed

lemma reload_deploys:
  assumes "deployed cfg d" "lanes_ok own cfg" "lanes_ok own nxt" "dw_load w = Inr nxt" "reload w d = (Inr v, d')"
  shows "deployed nxt d'"
proof -
  define d1 where "d1 = fold (\<lambda>p. remove_lane (fst p)) (filter (stale nxt d) (md_controllers d)) d"
  define d2 where "d2 = d1\<lparr>md_config := Some nxt\<rparr>"
  have ok: "channels_ok d" "hd_started (md_host d)" using assms(1) by (simp_all add: deployed_def)
  note rm = remove_lanes [OF ok(1) deployed_owned [OF assms(1,2)], of "filter (stale nxt d) (md_controllers d)", folded d1_def]
  have sup: "lane_supervisors d2 = lane_supervisors d1" by (simp add: d2_def lane_supervisors_def fun_eq_iff)
  then have v: "view d2 i = view d1 i" for i by (simp add: view_def) (simp add: d2_def)
  have "channels_ok d2" "owned own d2" "hd_started (md_host d2)"
    using rm ok(2) sup by (simp_all add: channels_ok_def owned_def) (simp_all add: d2_def)
  note d2 = this v
  from assms(4,5) obtain u where run: "reload_lanes w (hub_on nxt) (enabled_lanes nxt) d2 = (Inr u, d')"
    by (auto simp: reload_def Let_def d1_def d2_def result_simps split: prod.splits)
  note first = first_loop_ready [OF assms(1,2), of nxt, folded d1_def]
  have each: "owns own l \<and> jarr (jfield l ''channels'') \<noteq> None \<and> ready (hub_on nxt) l d2"
    if "l \<in> set (enabled_lanes nxt)" for l
  proof -
    have w: "wanted nxt (lane_id l) = Some l" using that assms(3) by (auto simp: lanes_ok_def intro!: wanted_enabled)
    from first [of "lane_id l"] w have "ready (hub_on nxt) l d2" by (auto simp: ready_def d2(4))
    with that assms(3) show ?thesis by (simp add: lanes_ok_def)
  qed
  have dist: "distinct (map lane_id (enabled_lanes nxt))" using assms(3) by (simp add: lanes_ok_def)
  note all = view_reload_lanes [OF run d2(1,2) dist each]
  have "view d' i = (case wanted nxt i of None \<Rightarrow> no_lane | Some l \<Rightarrow> full_lane (hub_on nxt) l)" for i
    using all [of i] first [of i] by (auto simp: wanted_def d2(4) split: option.splits)
  with all d2(3) show ?thesis by (simp add: deployed_def) (simp add: d2_def)
qed

section \<open>Lanes without a server\<close>

lemma startChannelSupervisors_host [simp]:
  "md_host (startChannelSupervisors l d) = md_host d" "md_controllers (startChannelSupervisors l d) = md_controllers d"
proof -
  have "md_host (fold (start_channel i) cs d) = md_host d \<and> md_controllers (fold (start_channel i) cs d) = md_controllers d"
    for i cs d by (induction cs arbitrary: d) simp_all
  then show "md_host (startChannelSupervisors l d) = md_host d" "md_controllers (startChannelSupervisors l d) = md_controllers d"
    by (simp_all add: startChannelSupervisors_def)
qed

definition serverless :: "string \<Rightarrow> mesh_daemon \<Rightarrow> bool" where
  "serverless i d = (map_of (md_controllers d) i \<noteq> None \<and> map_of (hd_lanes (md_host d)) i = None)"

lemma host_addLane_other: "j \<noteq> i \<Longrightarrow> map_of (hd_lanes (snd (host_addLane w i h))) j = map_of (hd_lanes h) j"
  by (auto simp: host_addLane_def split: sum.split)

lemma deploy_serverless:
  assumes "serverless i d" "lane_id l \<noteq> i"
  shows "serverless i (snd (deploy_lane w hub l d))"
proof -
  obtain r h where h: "host_addLane (dw_host w) (lane_id l) (md_host d) = (r, h)"
    by (cases "host_addLane (dw_host w) (lane_id l) (md_host d)")
  have keep: "map_of (hd_lanes h) i = map_of (hd_lanes (md_host d)) i"
    using host_addLane_other [of i "lane_id l" "dw_host w" "md_host d"] h assms(2) by simp
  show ?thesis
    using assms h keep
    by (auto simp: serverless_def deploy_lane_def createController_def startRuntimeWorker_def startClaudeSupervisor_def
        split: sum.split prod.split)
qed

lemma sync_serverless:
  assumes "serverless i d"
  shows "serverless i (syncChannelSupervisors l d)"
  using assms
  by (simp add: serverless_def syncChannelSupervisors_def Let_def)
    (simp add: map_of_map_value [where f = "\<lambda>j cfg. if j = lane_id l then with_channels (lane_channels l) cfg else cfg"])

lemma reload_lanes_serverless: "serverless i d \<Longrightarrow> serverless i (snd (reload_lanes w hub ls d))"
proof (induction ls arbitrary: d)
  case (Cons l ls)
  have one: "serverless i (snd (reload_lane w hub l d))"
  proof (cases "map_of (md_controllers d) (lane_id l) = None")
    case True
    with Cons.prems have "lane_id l \<noteq> i" by (auto simp: serverless_def)
    with True Cons.prems deploy_serverless show ?thesis by (simp add: reload_lane_def)
  next
    case False
    with Cons.prems sync_serverless show ?thesis by (auto simp: reload_lane_def)
  qed
  with Cons.IH show ?case by (auto split: prod.splits sum.splits)
qed simp

lemma remove_lanes_serverless:
  "serverless i d \<Longrightarrow> i \<notin> fst ` set ps \<Longrightarrow> serverless i (fold (\<lambda>p. remove_lane (fst p)) ps d)"
proof (induction ps arbitrary: d)
  case (Cons p ps)
  then have "serverless i (remove_lane (fst p) d)"
    by (auto simp: serverless_def remove_lane_def Let_def host_removeLane_def)
  with Cons show ?case by simp
qed simp

section \<open>Channels that move\<close>

lemma fold_start_missing_present:
  "map_of (md_channels d) k = Some p \<Longrightarrow> map_of (md_channels (fold (start_missing i) cs d)) k = Some p"
proof (induction cs arbitrary: d)
  case (Cons c cs)
  then have "map_of (md_channels (start_missing i c d)) k = Some p"
    by (cases p) (auto simp: start_missing_def start_channel_def)
  with Cons.IH show ?case by simp
qed simp

lemma fold_start_missing_absent:
  "k \<notin> lane_id ` set cs \<Longrightarrow> map_of (md_channels (fold (start_missing i) cs d)) k = map_of (md_channels d) k"
proof (induction cs arbitrary: d)
  case (Cons c cs)
  then have "map_of (md_channels (start_missing i c d)) k = map_of (md_channels d) k"
    by (auto simp: start_missing_def start_channel_def)
  with Cons show ?case by simp
qed simp

lemma sync_keeps_other:
  assumes "distinct (map fst (md_channels d))" "map_of (md_channels d) k = Some (j, c)" "j \<noteq> lane_id l"
  shows "map_of (md_channels (syncChannelSupervisors l d)) k = Some (j, c)"
  using assms by (simp add: syncChannelSupervisors_def Let_def stop_channels_def map_of_filter_distinct fold_start_missing_present)

lemma sync_distinct:
  assumes "distinct (map fst (md_channels d))"
  shows "distinct (map fst (md_channels (syncChannelSupervisors l d)))"
proof -
  have "distinct (map fst (md_channels d')) \<Longrightarrow> distinct (map fst (md_channels (fold (start_missing i) cs d')))" for d' i cs
    by (induction cs arbitrary: d') (simp_all add: start_missing_def start_channel_def)
  moreover have "distinct (map fst (md_channels (stop_channels p d)))" for p
    using assms by (simp add: stop_channels_def distinct_filter_keys)
  ultimately show ?thesis by (simp add: syncChannelSupervisors_def Let_def)
qed

lemma sync_drops:
  assumes "distinct (map fst (md_channels d))" "map_of (md_channels d) k = Some (lane_id l, c)" "channel_map l k = None"
  shows "map_of (md_channels (syncChannelSupervisors l d)) k = None"
proof -
  have "k \<notin> lane_id ` set (filter item_enabled (lane_channels l))"
    using assms(3) by (auto simp: channel_map_def map_of_eq_None_iff image_image)
  from fold_start_missing_absent [OF this] assms show ?thesis
    by (simp add: syncChannelSupervisors_def Let_def stop_channels_def map_of_filter_distinct)
qed

section \<open>Daemons in operation\<close>

text \<open>The states of a daemon that was started and reloaded, each time without an exception, with the
  configuration it loaded last.\<close>

inductive in_operation :: "(string \<Rightarrow> string) \<Rightarrow> mesh_daemon \<Rightarrow> json \<Rightarrow> bool" for own where
  started: "daemon_start w (daemon_new f) = (Inr u, d) \<Longrightarrow> dw_load w = Inr cfg \<Longrightarrow> lanes_ok own cfg \<Longrightarrow> in_operation own d cfg"
| reloaded: "in_operation own d cfg \<Longrightarrow> reload w d = (Inr v, d') \<Longrightarrow> dw_load w = Inr nxt \<Longrightarrow> lanes_ok own nxt \<Longrightarrow>
    in_operation own d' nxt"

lemma in_operation_ok: "in_operation own d cfg \<Longrightarrow> lanes_ok own cfg"
  by (induction rule: in_operation.induct) auto

section \<open>Properties\<close>


text \<open>A lane whose server could not be started stays without one.  The reload that adds the lane
  enters its controller before its server starts; when the start throws, the reload fails, and every
  later reload of the same configuration finds the controller and leaves the lane alone, so that it
  succeeds without a server, a worker or a driver for the lane.\<close>

theorem failed_server_never_retried:
  assumes "dw_initialize w (lane_id l) = Inr ()" "hw_lane_start (dw_host w) (lane_id l) = Inl e" "hd_started (md_host d)"
    "map_of (md_controllers d) (lane_id l) = None" "map_of (hd_lanes (md_host d)) (lane_id l) = None"
    "distinct (map fst (md_controllers d))" "md_config d = Some nxt" "wanted nxt (lane_id l) = Some l"
    "reload_lane w hub l d = (r, d1)" "dw_load w' = Inr nxt"
  shows "r = Inl e \<and> map_of (hd_lanes (md_host (snd (reload w' d1)))) (lane_id l) = None \<and>
    map_of (md_controllers (snd (reload w' d1))) (lane_id l) \<noteq> None"
proof -
  have d1: "r = Inl e" "md_controllers d1 = AList.update (lane_id l) l (md_controllers d)" "md_host d1 = md_host d"
    "md_config d1 = md_config d"
    using assms(1-5,9) by (auto simp: reload_lane_def deploy_lane_def createController_def host_addLane_def)
  have s: "serverless (lane_id l) d1" using assms(5) by (simp add: serverless_def d1)
  have keys: "distinct (map fst (md_controllers d1))" using assms(6) by (simp add: d1)
  have "\<forall>c. (lane_id l, c) \<in> set (md_controllers d1) \<longrightarrow> c = l"
  proof (intro allI impI)
    fix c
    assume "(lane_id l, c) \<in> set (md_controllers d1)"
    from map_of_is_SomeI [OF keys this] show "c = l" by (simp add: d1)
  qed
  then have "lane_id l \<notin> fst ` set (filter (stale nxt d1) (md_controllers d1))"
    using assms(7,8) by (auto simp: stale_def hub_json_def d1)
  from remove_lanes_serverless [OF s this]
  have "serverless (lane_id l) ((fold (\<lambda>p. remove_lane (fst p)) (filter (stale nxt d1) (md_controllers d1)) d1)\<lparr>md_config := Some nxt\<rparr>)"
    by (simp add: serverless_def)
  from reload_lanes_serverless [OF this, of w' "hub_on nxt" "enabled_lanes nxt"] d1(1) assms(10) show ?thesis
    by (simp add: reload_def Let_def serverless_def split_beta)
qed

text \<open>A channel that moves to a lane before its own loses its driver.  Of two lanes that stay, the
  first sees the channel's supervisor in the map and starts none; the second then stops the supervisor,
  which was made for it.  The reload returns, and the enabled channel has no supervisor.\<close>

theorem moved_channel_loses_driver:
  assumes "map_of (md_channels d) k = Some (lane_id a, c)" "distinct (map fst (md_channels d))"
    "lane_id a \<noteq> lane_id b" "channel_map a k = None"
    "map_of (md_controllers d) (lane_id a) \<noteq> None" "map_of (md_controllers d) (lane_id b) \<noteq> None"
    "reload_lanes w hub [b, a] d = (r, d')"
  shows "r = Inr () \<and> map_of (md_channels d') k = None"
proof -
  let ?d1 = "syncChannelSupervisors b d"
  have b: "reload_lane w hub b d = (Inr (), ?d1)" using assms(6) by (auto simp: reload_lane_def)
  have "map_of (md_controllers ?d1) (lane_id a) \<noteq> None"
    using assms(5) by (simp add: syncChannelSupervisors_def Let_def)
      (simp add: map_of_map_value [where f = "\<lambda>j cfg. if j = lane_id b then with_channels (lane_channels b) cfg else cfg"])
  then have "reload_lane w hub a ?d1 = (Inr (), syncChannelSupervisors a ?d1)" by (auto simp: reload_lane_def)
  with assms(7) b have d': "r = Inr ()" "d' = syncChannelSupervisors a ?d1" by auto
  from sync_drops [OF sync_distinct [OF assms(2)] sync_keeps_other [OF assms(2,1,3)] assms(4)] d' show ?thesis by simp
qed

text \<open>A host of two Codex lanes and one channel.\<close>

definition config_channel :: "string \<Rightarrow> json" where
  "config_channel i = JObj [(''id'', JStr i), (''enabled'', JBool True)]"

definition config_lane :: "string \<Rightarrow> json list \<Rightarrow> json" where
  "config_lane i cs = JObj [(''id'', JStr i), (''enabled'', JBool True),
     (''runtime'', JObj [(''kind'', JStr ''codex'')]), (''channels'', JArr cs)]"

definition config_of :: "json list \<Rightarrow> json" where
  "config_of ls = JObj [(''revision'', JNum 1), (''hub'', JNull), (''lanes'', JArr ls)]"

definition sample_daemon_world :: "json \<Rightarrow> daemon_world" where
  "sample_daemon_world cfg = \<lparr>dw_load = Inr cfg, dw_initialize = (\<lambda>i. Inr ()), dw_app_server = (\<lambda>i. Inr ''s''), dw_host = sample_host_world\<rparr>"

lemmas sample_defs = config_channel_def config_lane_def config_of_def sample_daemon_world_def sample_host_world_def

lemmas lane_defs = lane_id_def str_of_def lane_kind_def field_of_def item_enabled_def lane_channels_def arr_of_def
  enabled_lanes_def hub_on_def

lemma sample_started:
  "\<exists>d. daemon_start (sample_daemon_world (config_of [config_lane ''a'' [config_channel ''c'']])) (daemon_new Ctl_absent) = (Inr (), d)"
  by (simp add: daemon_start_def sample_defs lane_defs createController_def host_start_def host_open_def
      removeStaleControlSocket_def daemon_new_def host_new_def js_unique_def host_addLane_def startRuntimeWorker_def
      startClaudeSupervisor_def startChannelSupervisors_def start_channel_def)


definition running_host :: mesh_daemon where
  "running_host = (daemon_new Ctl_live)\<lparr>md_config := Some (config_of [config_lane ''b'' []]),
     md_host := (host_new Ctl_live)\<lparr>hd_started := True\<rparr>\<rparr>"

theorem failed_server_never_retried_witness:
  "map_of (hd_lanes (md_host (snd (reload (sample_daemon_world (config_of [config_lane ''b'' []]))
     (snd (reload_lane (sample_daemon_world (config_of [])) False (config_lane ''b'' []) running_host)))))) ''b'' = None"
  using failed_server_never_retried [where w = "sample_daemon_world (config_of [])" and l = "config_lane ''b'' []" and
      d = running_host and nxt = "config_of [config_lane ''b'' []]" and hub = False and e = "PlainError ''no''" and
      w' = "sample_daemon_world (config_of [config_lane ''b'' []])" and
      r = "fst (reload_lane (sample_daemon_world (config_of [])) False (config_lane ''b'' []) running_host)" and
      ?d1.0 = "snd (reload_lane (sample_daemon_world (config_of [])) False (config_lane ''b'' []) running_host)"]
  by (simp add: running_host_def sample_daemon_world_def sample_host_world_def daemon_new_def host_new_def wanted_def
      lane_defs config_of_def config_lane_def)

definition moving_host :: mesh_daemon where
  "moving_host = (daemon_new Ctl_live)\<lparr>md_controllers := [(''b'', config_lane ''b'' []), (''a'', config_lane ''a'' [config_channel ''c''])],
     md_channels := [(''c'', (''a'', config_channel ''c''))], md_running := [(''a'', ''c'')]\<rparr>"

theorem moved_channel_loses_driver_witness:
  "map_of (md_channels (snd (reload_lanes (sample_daemon_world (config_of [])) False
     [config_lane ''b'' [config_channel ''c''], config_lane ''a'' []] moving_host))) ''c'' = None"
proof -
  obtain r d' where "reload_lanes (sample_daemon_world (config_of [])) False
     [config_lane ''b'' [config_channel ''c''], config_lane ''a'' []] moving_host = (r, d')" by (metis surj_pair)
  with moved_channel_loses_driver [where d = moving_host and k = "''c''" and a = "config_lane ''a'' []" and
      b = "config_lane ''b'' [config_channel ''c'']" and c = "config_channel ''c''" and
      w = "sample_daemon_world (config_of [])" and hub = False and r = r and d' = d']
  show ?thesis
    by (simp add: moving_host_def daemon_new_def channel_map_def lane_defs config_lane_def)
qed

end
