(* ===== verification/Daemon_Control.thy ===== *)
theory Daemon_Control
  imports Daemon_Lanes_Props Delivery_Props
begin

text \<open>
  The control requests of \<open>src/daemon/agent-mesh-daemon.ts\<close> (\<open>#handleControl\<close>), which the host's
  control socket passes on: reading the daemon's state, replaying dead letters, sending over the mesh
  and the turns that a Claude session claims and answers itself.  \<open>ct_lanes\<close> are the durable stores of
  the lanes, which outlive their controllers; the reports of the other components, the Hub and the
  driver are answers in \<open>control_env\<close>.
\<close>

section \<open>State\<close>

record control_state =
  ct_daemon :: mesh_daemon
  ct_lanes :: "(string \<times> lane) list"

record control_env =
  ce_world :: daemon_world
  ce_pid :: int
  ce_now :: millis
  ce_freeBytes :: nat
  ce_empty_lane :: "string \<Rightarrow> lane"
  ce_hub_status :: "string \<Rightarrow> json"
  ce_claude_status :: "string \<Rightarrow> json"
  ce_channel_status :: "string \<Rightarrow> json"
  ce_thread :: "string \<Rightarrow> string option"
  ce_send :: "exn + json"
  ce_list_agents :: "exn + json"
  ce_reply :: reply_env
  ce_chars :: "string \<Rightarrow> nat"

text \<open>A lane can be asked for while its controller exists.\<close>

definition controller_lane :: "control_state \<Rightarrow> string \<Rightarrow> lane option" where
  "controller_lane s i =
     (if map_of (md_controllers (ct_daemon s)) i = None then None else map_of (ct_lanes s) i)"

definition put_lane :: "string \<Rightarrow> lane \<Rightarrow> control_state \<Rightarrow> control_state" where
  "put_lane i lan s = s\<lparr>ct_lanes := AList.update i lan (ct_lanes s)\<rparr>"

definition param :: "json_rpc_request \<Rightarrow> string \<Rightarrow> json option" where
  "param rq k = Option.bind (rq_params rq) (\<lambda>p. jfield p k)"

definition need_lane :: "control_state \<Rightarrow> json_rpc_request \<Rightarrow> exn + string \<times> lane" where
  "need_lane s rq =
     (case jstr (param rq ''lane_id'') of
        None \<Rightarrow> Inl (PlainError ''lane_id is required'')
      | Some i \<Rightarrow>
          (case controller_lane s i of
             None \<Rightarrow> Inl (PlainError (''Unknown lane: '' @ i))
           | Some lan \<Rightarrow> Inr (i, lan)))"

definition runtime_kind :: "control_state \<Rightarrow> string \<Rightarrow> string" where
  "runtime_kind s i = (case map_of (md_controllers (ct_daemon s)) i of None \<Rightarrow> [] | Some l \<Rightarrow> lane_kind l)"

section \<open>Values as JSON\<close>

fun turn_state_text :: "runtime_turn_state \<Rightarrow> string" where
  "turn_state_text PENDING = ''PENDING''"
| "turn_state_text OBSERVED = ''OBSERVED''"
| "turn_state_text RUNNING = ''RUNNING''"
| "turn_state_text COMPLETED = ''COMPLETED''"
| "turn_state_text FAILED = ''FAILED''"
| "turn_state_text CANCELLED = ''CANCELLED''"

definition source_text :: "audit_source_kind \<Rightarrow> string" where
  "source_text k = (if k = Source_mesh then ''mesh'' else ''channel'')"

definition turn_json :: "runtime_turn \<Rightarrow> json" where
  "turn_json t =
     JObj [(''turnId'', JStr (tn_turnId t)), (''sourceKind'', JStr (source_text (tn_sourceKind t))),
       (''sourceMessageId'', JStr (tn_sourceMessageId t)), (''content'', JStr (tn_content t)),
       (''correlation'', tn_correlation t), (''state'', JStr (turn_state_text (tn_state t))),
       (''response'', jopt (tn_response t)), (''conversationId'', jopt (tn_conversationId t)),
       (''errorCode'', jopt (tn_errorCode t)), (''createdAt'', JNum (of_int (tn_createdAt t))),
       (''updatedAt'', JNum (of_int (tn_updatedAt t)))]"

definition summary_json :: "outbox_summary \<Rightarrow> json" where
  "summary_json su =
     JObj [(''pending'', JNum (of_nat (su_pending su))), (''retry'', JNum (of_nat (su_retry su))),
       (''deadLetter'', JNum (of_nat (su_deadLetter su))), (''acked'', JNum (of_nat (su_acked su))),
       (''blobBytes'', JNum (su_blobBytes su)), (''usageRatio'', JNum (su_usageRatio su)),
       (''warning'', JBool (su_warning su)), (''failClosed'', JBool (su_failClosed su))]"

definition lane_summary :: "control_env \<Rightarrow> lane \<Rightarrow> json" where
  "lane_summary env lan = summary_json (summary (ce_freeBytes env) (ln_outbox lan))"

text \<open>\<open>turnDrivenRuntimeState\<close>: running before queued before idle.\<close>

definition turnDrivenRuntimeState :: "lane option \<Rightarrow> string option \<Rightarrow> json" where
  "turnDrivenRuntimeState lan thread =
     (let count = (\<lambda>st. case lan of None \<Rightarrow> 0 | Some l \<Rightarrow> countsByState (ln_inbox l) st);
          state = (if count RUNNING > 0 then ''running'' else if count PENDING > 0 then ''queued'' else ''idle'') in
      JObj ((''state'', JStr state) # (case (if thread = Some [] then None else thread) of None \<Rightarrow> [] | Some t \<Rightarrow> [(''threadId'', JStr t)])))"

definition observe_turn :: "(string \<Rightarrow> nat) \<Rightarrow> runtime_turn \<Rightarrow> json" where
  "observe_turn chars t =
     JObj [(''turn_id'', JStr (tn_turnId t)), (''source_kind'', JStr (source_text (tn_sourceKind t))),
       (''from'', jopt (jstr (jfield (tn_correlation t) ''from''))), (''state'', JStr (turn_state_text (tn_state t))),
       (''prompt_chars'', JNum (of_nat (chars (tn_content t)))),
       (''response_chars'', case tn_response t of None \<Rightarrow> JNull | Some r \<Rightarrow> JNum (of_nat (chars r))),
       (''error_code'', jopt (tn_errorCode t)), (''created_at'', JNum (of_int (tn_createdAt t))),
       (''updated_at'', JNum (of_int (tn_updatedAt t)))]"

text \<open>A limit that is a safe integer is clamped; anything else is the default.\<close>

definition clamp_limit :: "json option \<Rightarrow> nat \<Rightarrow> nat \<Rightarrow> nat" where
  "clamp_limit v most standard =
     (case jnum v of
        None \<Rightarrow> standard
      | Some q \<Rightarrow> if safe_integer q then nat (max 1 (min (int most) \<lfloor>q\<rfloor>)) else standard)"

section \<open>Listing the lanes\<close>

definition channel_status_json :: "control_env \<Rightarrow> control_state \<Rightarrow> json \<Rightarrow> json" where
  "channel_status_json env s c =
     JObj [(''id'', JStr (lane_id c)), (''provider'', field_of c ''provider''), (''enabled'', field_of c ''enabled''),
       (''status'',
         if map_of (md_channels (ct_daemon s)) (lane_id c) \<noteq> None then ce_channel_status env (lane_id c)
         else JObj [(''state'', JStr (if item_enabled c then ''stopped'' else ''disabled''))])]"

definition lane_thread :: "control_env \<Rightarrow> control_state \<Rightarrow> string \<Rightarrow> string option" where
  "lane_thread env s i =
     (case (if i \<in> set (md_workers (ct_daemon s)) then ce_thread env i else None) of
        Some t \<Rightarrow> Some t
      | None \<Rightarrow> Option.bind (controller_lane s i) (\<lambda>lan. latestConversationId (ln_inbox lan)))"

definition lane_json :: "control_env \<Rightarrow> control_state \<Rightarrow> json \<Rightarrow> json" where
  "lane_json env s l =
     (let i = lane_id l; lan = controller_lane s i in
      JObj [(''lane_id'', JStr i), (''identity'', field_of l ''identity''), (''enabled'', field_of l ''enabled''),
        (''runtime'', JStr (lane_kind l)),
        (''outbox'', case lan of
           Some lan \<Rightarrow> lane_summary env lan
         | None \<Rightarrow> JObj [(''pending'', JNum 0), (''retry'', JNum 0), (''deadLetter'', JNum 0), (''warning'', JBool False)]),
        (''hub'', if i \<in> set (md_hubs (ct_daemon s)) then ce_hub_status env i else JNull),
        (''runtime_status'',
          if \<not> item_enabled l then JObj [(''state'', JStr ''disabled'')]
          else if i \<in> set (md_claude (ct_daemon s)) then ce_claude_status env i
          else turnDrivenRuntimeState lan (lane_thread env s i)),
        (''channels'', JArr (map (channel_status_json env s) (lane_channels l)))])"

section \<open>Operations\<close>

definition control_replay :: "control_env \<Rightarrow> json_rpc_request \<Rightarrow> control_state \<Rightarrow> (exn + json option) \<times> control_state" where
  "control_replay env rq s =
     (case need_lane s rq of
        Inl e \<Rightarrow> (Inl e, s)
      | Inr (i, lan) \<Rightarrow>
          (let ids = param rq ''event_ids'';
               strings = Option.bind (jarr ids) (\<lambda>vs. if list_all (\<lambda>v. jstr (Some v) \<noteq> None) vs
                 then Some (map (\<lambda>v. the (jstr (Some v))) vs) else None) in
           if ids \<noteq> None \<and> strings = None then (Inl (PlainError ''event_ids must be an array of strings''), s)
           else
             (let ((replayed, skipped), ob) = replayDeadLetters (ce_now env) strings (ln_outbox lan);
                  lan' = lan\<lparr>ln_outbox := ob\<rparr> in
              (Inr (Some (JObj [(''lane_id'', JStr i), (''replayed'', JNum (of_nat (length replayed))),
                 (''skipped'', JNum (of_nat (length skipped))), (''event_ids'', JArr (map JStr replayed)),
                 (''outbox'', lane_summary env lan')])), put_lane i lan' s))))"

definition control_claim :: "control_env \<Rightarrow> json_rpc_request \<Rightarrow> control_state \<Rightarrow> (exn + json option) \<times> control_state" where
  "control_claim env rq s =
     (case need_lane s rq of
        Inl e \<Rightarrow> (Inl e, s)
      | Inr (i, lan) \<Rightarrow>
          if runtime_kind s i \<noteq> ''claude''
          then (Inl (PlainError ''runtime.claim is reserved for Claude channel lanes''), s)
          else (let (t, ib) = claimNext (ce_now env) (ln_inbox lan) in
                (Inr (Some (case t of None \<Rightarrow> JNull | Some t \<Rightarrow> turn_json t)), put_lane i (lan\<lparr>ln_inbox := ib\<rparr>) s)))"

definition reply_params :: "json_rpc_request \<Rightarrow> (string \<times> string \<times> string) option" where
  "reply_params rq =
     (case (jstr (param rq ''lane_id''), jstr (param rq ''turn_id''), jstr (param rq ''text'')) of
        (Some i, Some t, Some body) \<Rightarrow> if js_blank body then None else Some (i, t, body)
      | _ \<Rightarrow> None)"

text \<open>The response is sent before the turn is completed; a send that throws leaves it running.\<close>

definition control_reply :: "control_env \<Rightarrow> json_rpc_request \<Rightarrow> control_state \<Rightarrow> (exn + json option) \<times> control_state" where
  "control_reply env rq s =
     (case reply_params rq of
        None \<Rightarrow> (Inl (PlainError ''lane_id, turn_id and non-empty text are required''), s)
      | Some (i, turnId, body) \<Rightarrow>
          (case controller_lane s i of
             None \<Rightarrow> (Inl (PlainError (''Unknown lane: '' @ i)), s)
           | Some lan \<Rightarrow>
               (case get_turn turnId (ln_inbox lan) of
                  None \<Rightarrow> (Inl (PlainError (''Unknown runtime turn: '' @ turnId)), s)
                | Some t \<Rightarrow>
                    if tn_state t = COMPLETED
                    then (Inr (Some (JObj [(''duplicate'', JBool True), (''response'', jopt (tn_response t))])), s)
                    else if tn_state t \<noteq> RUNNING
                    then (Inl (PlainError (''Runtime turn is not active: '' @ turn_state_text (tn_state t))), s)
                    else (case reply (ce_reply env) t body lan of
                      (Inl e, lan') \<Rightarrow> (Inl e, put_lane i lan' s)
                    | (Inr _, lan') \<Rightarrow>
                        (Inr (Some (JObj [(''duplicate'', JBool False), (''turn_id'', JStr turnId)])),
                         put_lane i (lan'\<lparr>ln_inbox := complete_turn (ce_now env) turnId body None (ln_inbox lan')\<rparr>) s)))))"

text \<open>No look at the turn's state.\<close>

definition control_fail :: "control_env \<Rightarrow> json_rpc_request \<Rightarrow> control_state \<Rightarrow> (exn + json option) \<times> control_state" where
  "control_fail env rq s =
     (case (jstr (param rq ''lane_id''), jstr (param rq ''turn_id''), jstr (param rq ''code'')) of
        (Some i, Some t, Some code) \<Rightarrow>
          (case controller_lane s i of
             None \<Rightarrow> (Inl (PlainError (''Unknown lane: '' @ i)), s)
           | Some lan \<Rightarrow>
               (Inr (Some (JObj [(''ok'', JBool True)])),
                put_lane i (lan\<lparr>ln_inbox := fail_turn (ce_now env) t code (ln_inbox lan)\<rparr>) s))
      | _ \<Rightarrow> (Inl (PlainError ''lane_id, turn_id and code are required''), s))"

definition control_observe :: "control_env \<Rightarrow> json_rpc_request \<Rightarrow> control_state \<Rightarrow> exn + json option" where
  "control_observe env rq s =
     sbind (need_lane s rq) (\<lambda>(i, lan).
       Inr (Some (JObj [(''lane_id'', JStr i), (''runtime'', JStr (runtime_kind s i)),
         (''workspace'', case map_of (md_controllers (ct_daemon s)) i of
            None \<Rightarrow> JNull | Some l \<Rightarrow> field_of (field_of l ''runtime'') ''workspace''),
         (''turns'', JArr (map (observe_turn (ce_chars env)) (list_turns (clamp_limit (param rq ''limit'') 200 20) (ln_inbox lan))))])))"

definition control_send :: "control_env \<Rightarrow> json_rpc_request \<Rightarrow> control_state \<Rightarrow> exn + json option" where
  "control_send env rq s =
     (case (jstr (param rq ''lane_id''), jstr (param rq ''to''), jstr (param rq ''content'')) of
        (Some i, Some to, Some content) \<Rightarrow>
          if i \<notin> set (md_hubs (ct_daemon s)) then Inl (PlainError (''Lane has no Hub connection: '' @ i))
          else sbind (ce_send env) (\<lambda>v. Inr (Some v))
      | _ \<Rightarrow> Inl (PlainError ''lane_id, to and content are required''))"

definition control_start :: "control_env \<Rightarrow> json_rpc_request \<Rightarrow> control_state \<Rightarrow> (exn + json option) \<times> control_state" where
  "control_start env rq s =
     (case need_lane s rq of
        Inl e \<Rightarrow> (Inl e, s)
      | Inr (i, lan) \<Rightarrow>
          if runtime_kind s i \<noteq> ''claude''
          then (Inl (PlainError ''Only Claude lanes hold a session that can be restarted''), s)
          else (Inr (Some (JObj [(''lane_id'', JStr i), (''runtime'', ce_claude_status env i)])),
            s\<lparr>ct_daemon := (ct_daemon s)\<lparr>md_claude := filter (\<lambda>j. j \<noteq> i) (md_claude (ct_daemon s)) @ [i]\<rparr>\<rparr>))"

text \<open>The controllers that a reload opened anew initialise their stores, which requeues running turns.\<close>

definition reopen_lane :: "control_env \<Rightarrow> string \<Rightarrow> (string \<times> lane) list \<Rightarrow> (string \<times> lane) list" where
  "reopen_lane env i lanes =
     AList.update i (lane_initialize (ce_now env) (case map_of lanes i of None \<Rightarrow> ce_empty_lane env i | Some lan \<Rightarrow> lan)) lanes"

definition reopened :: "control_env \<Rightarrow> mesh_daemon \<Rightarrow> mesh_daemon \<Rightarrow> string list" where
  "reopened env d d' =
     (case dw_load (ce_world env) of
        Inl e \<Rightarrow> []
      | Inr nxt \<Rightarrow>
          map fst (filter (\<lambda>(i, l). case map_of (md_controllers d) i of None \<Rightarrow> True | Some c \<Rightarrow> stale nxt d (i, c)) (md_controllers d')))"

definition control_reload :: "control_env \<Rightarrow> control_state \<Rightarrow> (exn + json option) \<times> control_state" where
  "control_reload env s =
     (let (r, d') = reload (ce_world env) (ct_daemon s) in
      (sbind r (\<lambda>v. Inr (Some v)),
       s\<lparr>ct_daemon := d', ct_lanes := fold (reopen_lane env) (reopened env (ct_daemon s) d') (ct_lanes s)\<rparr>))"

definition with_lane :: "string \<Rightarrow> json \<Rightarrow> json" where
  "with_lane i v = (case v of JObj fs \<Rightarrow> JObj ((''lane_id'', JStr i) # fs) | _ \<Rightarrow> JObj [(''lane_id'', JStr i)])"

definition handleControl :: "control_env \<Rightarrow> json_rpc_request \<Rightarrow> control_state \<Rightarrow> (exn + json option) \<times> control_state" where
  "handleControl env rq s =
     (let m = rq_method rq; cfg = md_config (ct_daemon s) in
      if m = ''config.reload'' then control_reload env s
      else if m = ''daemon.shutdown'' then (Inr (Some (JObj [(''stopping'', JBool True), (''pid'', JNum (of_int (ce_pid env)))])), s)
      else if m = ''config.get'' then (Inr (Some (case cfg of None \<Rightarrow> JNull | Some c \<Rightarrow> c)), s)
      else if m = ''lane.list'' then
        (Inr (Some (JArr (map (lane_json env s) (case cfg of None \<Rightarrow> [] | Some c \<Rightarrow> arr_of c ''lanes'')))), s)
      else if m = ''outbox.summary'' then (sbind (need_lane s rq) (\<lambda>(i, lan). Inr (Some (lane_summary env lan))), s)
      else if m = ''outbox.replay'' then control_replay env rq s
      else if m = ''hub.status'' then
        (Inr (Some (JArr (map (\<lambda>i. with_lane i (ce_hub_status env i)) (md_hubs (ct_daemon s))))), s)
      else if m = ''mesh.send'' then (control_send env rq s, s)
      else if m = ''mesh.list_agents'' then
        (case jstr (param rq ''lane_id'') of
           None \<Rightarrow> (Inl (PlainError ''lane_id is required''), s)
         | Some i \<Rightarrow>
             if i \<notin> set (md_hubs (ct_daemon s)) then (Inl (PlainError (''Lane has no Hub connection: '' @ i)), s)
             else (sbind (ce_list_agents env) (\<lambda>v. Inr (Some v)), s))
      else if m = ''mesh.inbox'' then
        (sbind (need_lane s rq) (\<lambda>(i, lan).
           Inr (Some (JArr (map turn_json (list_turns (clamp_limit (param rq ''limit'') 500 50) (ln_inbox lan)))))), s)
      else if m = ''runtime.start'' then control_start env rq s
      else if m = ''runtime.observe'' then (control_observe env rq s, s)
      else if m = ''runtime.claim'' then control_claim env rq s
      else if m = ''runtime.reply'' then control_reply env rq s
      else if m = ''runtime.fail'' then control_fail env rq s
      else (Inl (PlainError (''Unsupported control method: '' @ m)), s))"

section \<open>Lemmas\<close>

lemma controller_lane_put [simp]:
  "controller_lane s i \<noteq> None \<Longrightarrow> controller_lane (put_lane i lan s) i = Some lan"
  by (auto simp: controller_lane_def put_lane_def split: if_splits)

lemma get_turn_id: "get_turn i ib = Some t \<Longrightarrow> tn_turnId t = i"
  by (auto simp: get_turn_def dest: sql_get_SomeD)

lemma get_turn_completed:
  assumes "get_turn i ib \<noteq> None"
  shows "\<exists>t. get_turn i (complete_turn now i body conv ib) = Some t \<and> tn_state t = COMPLETED \<and> tn_response t = Some body"
  using assms by (auto simp: complete_turn_def get_turn_setState)

lemma get_turn_failed:
  assumes "get_turn i ib \<noteq> None"
  shows "\<exists>t. get_turn i (fail_turn now i code ib) = Some t \<and> tn_state t = FAILED \<and> tn_response t = None"
  using assms by (auto simp: fail_turn_def get_turn_setState)

lemma reply_keeps_turn:
  assumes "reply env t body lan = (r, lan')" "get_turn (tn_turnId t) (ln_inbox lan) = Some t"
  shows "get_turn (tn_turnId t) (ln_inbox lan') \<noteq> None"
proof -
  have "turn_state (ln_inbox lan) (tn_turnId t) = Some (tn_state t)" using assms(2) by (simp add: turn_state_def)
  from at_most_completes_same [OF reply_inbox [OF assms(1)] this] show ?thesis by (auto simp: turn_state_def)
qed

text \<open>A reply to a turn that is completed sends nothing.\<close>

lemma control_reply_completed:
  assumes "reply_params rq = Some (i, turnId, body)" "controller_lane s i = Some lan"
    "get_turn turnId (ln_inbox lan) = Some t" "tn_state t = COMPLETED"
  shows "control_reply env rq s = (Inr (Some (JObj [(''duplicate'', JBool True), (''response'', jopt (tn_response t))])), s)"
  using assms by (simp add: control_reply_def)

lemma insort_key_map: "insort_key f (g x) (map g xs) = map g (insort_key (f \<circ> g) x xs)"
  by (induction xs) auto

lemma sort_key_map: "sort_key f (map g xs) = map g (sort_key (f \<circ> g) xs)"
  by (induction xs) (simp_all add: insort_key_map comp_def)

text \<open>Other texts in the turns of an inbox and of every lane.\<close>

definition retext_turn :: "(string \<Rightarrow> string) \<Rightarrow> runtime_turn \<Rightarrow> runtime_turn" where
  "retext_turn f t = t\<lparr>tn_content := f (tn_content t), tn_response := map_option f (tn_response t)\<rparr>"

definition retext_lane :: "(string \<Rightarrow> string) \<Rightarrow> lane \<Rightarrow> lane" where
  "retext_lane f lan = lan\<lparr>ln_inbox := (ln_inbox lan)\<lparr>ib_turns := map (retext_turn f) (ib_turns (ln_inbox lan))\<rparr>\<rparr>"

definition retext :: "(string \<Rightarrow> string) \<Rightarrow> control_state \<Rightarrow> control_state" where
  "retext f s = s\<lparr>ct_lanes := map (\<lambda>(i, lan). (i, retext_lane f lan)) (ct_lanes s)\<rparr>"

lemma list_turns_retext: "list_turns n (ln_inbox (retext_lane f lan)) = map (retext_turn f) (list_turns n (ln_inbox lan))"
proof -
  have "(\<lambda>t. - tn_createdAt t) \<circ> retext_turn f = (\<lambda>t. - tn_createdAt t)" by (simp add: fun_eq_iff retext_turn_def)
  then show ?thesis by (simp add: list_turns_def retext_lane_def sort_key_map take_map)
qed

lemma controller_lane_retext: "controller_lane (retext f s) i = map_option (retext_lane f) (controller_lane s i)"
  by (simp add: controller_lane_def retext_def map_of_map_value [where f = "\<lambda>j. retext_lane f"])

lemma need_lane_retext:
  "need_lane (retext f s) rq = (case need_lane s rq of Inl e \<Rightarrow> Inl e | Inr (i, lan) \<Rightarrow> Inr (i, retext_lane f lan))"
  by (auto simp: need_lane_def controller_lane_retext split: option.split)

section \<open>Properties\<close>

text \<open>An observer learns nothing of what is said.  The answer to \<open>runtime.observe\<close> does not change
  when the prompts and responses of every lane are replaced by other texts of the same lengths, so it
  holds no more of them than how long they are.\<close>

theorem observe_reveals_lengths_only:
  assumes "\<And>x. ce_chars env (f x) = ce_chars env x"
  shows "control_observe env rq (retext f s) = control_observe env rq s"
proof -
  have obs: "observe_turn (ce_chars env) (retext_turn f t) = observe_turn (ce_chars env) t" for t
    using assms by (simp add: observe_turn_def retext_turn_def option.case_eq_if option.map_sel)
  have daemon: "ct_daemon (retext f s) = ct_daemon s" by (simp add: retext_def)
  show ?thesis
    by (cases "need_lane s rq")
      (auto simp: control_observe_def need_lane_retext list_turns_retext obs daemon runtime_kind_def comp_def)
qed


text \<open>A failure that is reported late erases an answer.  \<open>runtime.fail\<close> does not look at the turn's
  state: a turn whose response was delivered becomes a failed one, its response is lost from the
  inbox, and a repeated reply is refused instead of being told the response.\<close>

theorem late_failure_erases_answer:
  assumes "jstr (param rq ''lane_id'') = Some i" "jstr (param rq ''turn_id'') = Some turnId" "jstr (param rq ''code'') = Some code"
    "controller_lane s i = Some lan" "get_turn turnId (ln_inbox lan) = Some t" "tn_state t = COMPLETED"
    "control_fail env rq s = (r, s')" "reply_params rq' = Some (i, turnId, body)"
  shows "r = Inr (Some (JObj [(''ok'', JBool True)])) \<and>
    (\<exists>lan' t'. controller_lane s' i = Some lan' \<and> get_turn turnId (ln_inbox lan') = Some t' \<and>
      tn_state t' = FAILED \<and> tn_response t' = None) \<and>
    control_reply env' rq' s' = (Inl (PlainError ''Runtime turn is not active: FAILED''), s')"
proof -
  let ?lan = "lan\<lparr>ln_inbox := fail_turn (ce_now env) turnId code (ln_inbox lan)\<rparr>"
  have r: "r = Inr (Some (JObj [(''ok'', JBool True)]))" "s' = put_lane i ?lan s"
    using assms(1-4,7) by (auto simp: control_fail_def)
  have lan: "controller_lane s' i = Some ?lan" using assms(4) by (simp add: r)
  have "get_turn turnId (ln_inbox lan) \<noteq> None" using assms(5) by simp
  from get_turn_failed [OF this, of "ce_now env" code] obtain t'
    where t': "get_turn turnId (ln_inbox ?lan) = Some t'" "tn_state t' = FAILED" "tn_response t' = None" by auto
  with lan assms(8) have "control_reply env' rq' s' = (Inl (PlainError ''Runtime turn is not active: FAILED''), s')"
    by (simp add: control_reply_def)
  with r(1) lan t' show ?thesis by blast
qed

text \<open>A Claude lane with one turn, which is running or was answered.\<close>

definition sample_mesh_turn :: "runtime_turn_state \<Rightarrow> string option \<Rightarrow> runtime_turn" where
  "sample_mesh_turn st resp =
     \<lparr>tn_turnId = ''t'', tn_sourceKind = Source_mesh, tn_sourceMessageId = ''m'', tn_content = ''hi'',
      tn_correlation = JObj [(''from'', JStr ''x''), (''reply_to'', JStr ''m'')], tn_state = st, tn_response = resp,
      tn_conversationId = None, tn_errorCode = None, tn_createdAt = 0, tn_updatedAt = 0\<rparr>"

definition sample_control_lane :: "runtime_turn \<Rightarrow> lane" where
  "sample_control_lane t = \<lparr>ln_outbox = outbox_initialize ''a'' 1, ln_inbox = \<lparr>ib_turns = [t], ib_conversations = []\<rparr>\<rparr>"

definition sample_control :: "runtime_turn \<Rightarrow> control_state" where
  "sample_control t =
     \<lparr>ct_daemon = (daemon_new Ctl_live)\<lparr>md_controllers := [(''a'', config_lane ''a'' [])]\<rparr>,
      ct_lanes = [(''a'', sample_control_lane t)]\<rparr>"

definition mesh_reply_env :: reply_env where
  "mesh_reply_env =
     \<lparr>rp_connected = True, rp_send = Inr (), rp_laneServer = False, rp_driver = Inr JNull,
      rp_request_record = sample_env ''e'', rp_success_record = sample_env ''e'', rp_now = 1\<rparr>"

definition sample_control_env :: control_env where
  "sample_control_env =
     \<lparr>ce_world = sample_daemon_world (config_of []), ce_pid = 1, ce_now = 1, ce_freeBytes = 0,
      ce_empty_lane = (\<lambda>i. sample_control_lane (sample_mesh_turn PENDING None)), ce_hub_status = (\<lambda>i. JNull),
      ce_claude_status = (\<lambda>i. JNull), ce_channel_status = (\<lambda>i. JNull), ce_thread = (\<lambda>i. None), ce_send = Inr JNull,
      ce_list_agents = Inr JNull, ce_reply = mesh_reply_env, ce_chars = length\<rparr>"

definition sample_control_request :: "string \<Rightarrow> json_rpc_request" where
  "sample_control_request m = \<lparr>rq_id = ''1'', rq_method = m,
     rq_params = Some (JObj [(''lane_id'', JStr ''a''), (''turn_id'', JStr ''t''), (''text'', JStr ''yes''), (''code'', JStr ''X'')])\<rparr>"

lemma sample_reply_params: "reply_params (sample_control_request m) = Some (''a'', ''t'', ''yes'')"
  by (simp add: reply_params_def sample_control_request_def param_def js_blank_def unicode_space_def)

lemma sample_controller_lane: "controller_lane (sample_control t) ''a'' = Some (sample_control_lane t)"
  by (simp add: controller_lane_def sample_control_def)

lemma sample_get_turn: "tn_turnId t = ''t'' \<Longrightarrow> get_turn ''t'' (ln_inbox (sample_control_lane t)) = Some t"
  by (simp add: get_turn_def sample_control_lane_def)

theorem observe_reveals_lengths_only_witness:
  "control_observe sample_control_env (sample_control_request ''runtime.observe'') (retext rev (sample_control (sample_mesh_turn PENDING None))) =
   control_observe sample_control_env (sample_control_request ''runtime.observe'') (sample_control (sample_mesh_turn PENDING None))"
  by (rule observe_reveals_lengths_only) (simp add: sample_control_env_def)


theorem late_failure_erases_answer_witness:
  "fst (control_reply sample_control_env (sample_control_request ''runtime.reply'')
     (snd (control_fail sample_control_env (sample_control_request ''runtime.fail'') (sample_control (sample_mesh_turn COMPLETED (Some ''yes'')))))) =
   Inl (PlainError ''Runtime turn is not active: FAILED'')"
proof -
  let ?t = "sample_mesh_turn COMPLETED (Some ''yes'')" and ?rq = "sample_control_request ''runtime.fail''"
  have t: "tn_turnId ?t = ''t''" "tn_state ?t = COMPLETED" by (simp_all add: sample_mesh_turn_def)
  have p: "jstr (param ?rq ''lane_id'') = Some ''a''" "jstr (param ?rq ''turn_id'') = Some ''t''" "jstr (param ?rq ''code'') = Some ''X''"
    by (simp_all add: sample_control_request_def param_def)
  obtain r s' where r: "control_fail sample_control_env ?rq (sample_control ?t) = (r, s')" by (metis surj_pair)
  from late_failure_erases_answer [OF p sample_controller_lane sample_get_turn [OF t(1)] t(2) r sample_reply_params] r
  show ?thesis by auto
qed

end
