(* ===== verification/Observer.thy ===== *)
theory Observer
  imports Daemon_Control Pane
begin

text \<open>
  \<open>src/runtime/observer.ts\<close>, the screen for runtimes that have no session, and the choice of an adapter in
  \<open>src/runtime/factory.ts\<close>.  Text is UTF-16 code units, as \<open>slice\<close> and \<open>padEnd\<close> count it; \<open>dec\<close> is the
  decoding of the daemon's UTF-8.  A screen is what one call of \<open>render\<close> writes.
\<close>

section \<open>Text\<close>

definition esc16 :: "string \<Rightarrow> pane" where
  "esc16 s = 0x1B # ascii16 s"

definition paint :: "bool \<Rightarrow> pane \<Rightarrow> pane \<Rightarrow> pane" where
  "paint colour code t = (if colour then code @ t @ esc16 ''[0m'' else t)"

definition DIM :: pane where "DIM = esc16 ''[2m''"
definition BOLD_CYAN :: pane where "BOLD_CYAN = esc16 ''[1m'' @ esc16 ''[96m''"
definition RED :: pane where "RED = esc16 ''[91m''"

definition state_color :: "pane \<Rightarrow> pane" where
  "state_color st =
     (if st = ascii16 ''COMPLETED'' \<or> st = ascii16 ''OBSERVED'' then esc16 ''[92m''
      else if st = ascii16 ''FAILED'' then RED
      else if st = ascii16 ''RUNNING'' then esc16 ''[96m''
      else esc16 ''[93m'')"

definition pad_start :: "nat \<Rightarrow> pane \<Rightarrow> pane" where
  "pad_start n t = replicate (n - length t) 32 @ t"

definition pad_end :: "nat \<Rightarrow> pane \<Rightarrow> pane" where
  "pad_end n t = t @ replicate (n - length t) 32"

definition two_digits :: "nat \<Rightarrow> pane" where
  "two_digits n = ascii16 ((if n < 10 then ''0'' else []) @ nat_digits n)"

text \<open>The time of day of \<open>toISOString\<close>.\<close>

definition clock :: "millis \<Rightarrow> pane" where
  "clock ms =
     (let s = nat ((ms div 1000) mod 86400) in
      two_digits (s div 3600) @ [58] @ two_digits (s div 60 mod 60) @ [58] @ two_digits (s mod 60))"

text \<open>\<open>Math.round\<close> of the seconds since a turn changed.\<close>

definition age :: "millis \<Rightarrow> millis \<Rightarrow> pane" where
  "age now updated =
     (let s = nat (max 0 ((now - updated + 500) div 1000)) in
      ascii16 (if s < 60 then nat_digits s @ ''s''
        else if s < 3600 then nat_digits (s div 60) @ ''m'' @ nat_digits (s mod 60) @ ''s''
        else nat_digits (s div 3600) @ ''h'' @ nat_digits (s mod 3600 div 60) @ ''m''))"

section \<open>The screen\<close>

record observed_turn =
  ob_turn_id :: pane
  ob_source_kind :: pane
  ob_from :: "pane option"
  ob_state :: pane
  ob_prompt_chars :: nat
  ob_response_chars :: "nat option"
  ob_error_code :: "pane option"
  ob_created_at :: millis
  ob_updated_at :: millis

record observation =
  on_lane_id :: pane
  on_runtime :: pane
  on_workspace :: pane
  on_turns :: "observed_turn list"

definition turn_row :: "bool \<Rightarrow> millis \<Rightarrow> observed_turn \<Rightarrow> pane" where
  "turn_row colour now t =
     ascii16 ''  '' @ clock (ob_created_at t) @ ascii16 ''  '' @
     paint colour (state_color (ob_state t)) (pad_end 10 (ob_state t)) @ ascii16 ''  '' @
     pad_end 14 (take 14 (case ob_from t of Some f \<Rightarrow> f | None \<Rightarrow> ob_source_kind t)) @ ascii16 ''  '' @
     pad_start 4 (ascii16 (nat_digits (ob_prompt_chars t))) @ ascii16 ''  '' @
     pad_start 4 (ascii16 (case ob_response_chars t of None \<Rightarrow> ''-'' | Some n \<Rightarrow> nat_digits n)) @ ascii16 ''  '' @
     pad_start 5 (age now (ob_updated_at t)) @ ascii16 ''  '' @ paint colour DIM (take 12 (drop 5 (ob_turn_id t)))"

definition turn_rows :: "bool \<Rightarrow> millis \<Rightarrow> observed_turn \<Rightarrow> pane list" where
  "turn_rows colour now t =
     turn_row colour now t #
     (case ob_error_code t of
        None \<Rightarrow> []
      | Some code \<Rightarrow> if code = [] then [] else [paint colour RED (ascii16 ''            '' @ code)])"

text \<open>The Korean lines: no turn waits, each turn runs a child; bodies are not shown, these are counts.\<close>

definition no_turns :: pane where
  "no_turns = [0x20, 0x20, 0xB300, 0xAE30, 0x20, 0xC911, 0xC778, 0x20, 0x74, 0x75, 0x72, 0x6E, 0xC774, 0x20, 0xC5C6,
      0xC2B5, 0xB2C8, 0xB2E4, 0x2E, 0x20, 0xC774, 0x20, 0x72, 0x75, 0x6E, 0x74, 0x69, 0x6D, 0x65, 0xC740,
      0x20, 0x74, 0x75, 0x72, 0x6E, 0xB9C8, 0xB2E4, 0x20, 0x63, 0x68, 0x69, 0x6C, 0x64, 0xB97C, 0x20, 0xC2E4,
      0xD589, 0xD569, 0xB2C8, 0xB2E4, 0x2E]"

definition footer :: pane where
  "footer = [0x20, 0x20, 0xBCF8, 0xBB38, 0xC740, 0x20, 0xD45C, 0xC2DC, 0xD558, 0xC9C0, 0x20, 0xC54A, 0xC2B5, 0xB2C8,
      0xB2E4, 0x20, 0x2014, 0x20, 0x49, 0x4E, 0x2F, 0x4F, 0x55, 0x54, 0xC740, 0x20, 0xAE00, 0xC790, 0x20,
      0xC218, 0xC785, 0xB2C8, 0xB2E4, 0x2E, 0x20, 0x43, 0x74, 0x72, 0x6C, 0x2B, 0x43, 0xB85C, 0x20, 0xC885,
      0xB8CC, 0x2E]"

definition render :: "bool \<Rightarrow> millis \<Rightarrow> observation \<Rightarrow> pane \<Rightarrow> pane list" where
  "render colour now obs err =
     [paint colour BOLD_CYAN (0x25C6 # ascii16 '' AGENT MESH'') @ [32] @
        paint colour DIM ([0xB7] @ ascii16 '' observer '' @ [0xB7, 32] @ on_lane_id obs),
      paint colour DIM (on_runtime obs @ ascii16 '' runtime '' @ [0xB7, 32] @ on_workspace obs @ [32, 0xB7, 32] @ clock now),
      paint colour DIM (replicate 76 0x2500)] @
     (if err = [] then [] else [paint colour RED (ascii16 ''! '' @ err)]) @
     (if on_turns obs = [] then [paint colour DIM no_turns]
      else paint colour DIM (ascii16 ''  TIME      STATE       FROM            IN    OUT   AGE    TURN'') #
        concat (map (turn_rows colour now) (take 20 (on_turns obs)))) @
     [[], paint colour DIM footer]"

section \<open>The loop\<close>

text \<open>A pass: the answer of the daemon, the clock, and whether a signal came before the pass ended.\<close>

record observer_pass =
  op_answer :: "exn + observation"
  op_now :: millis
  op_signal :: bool

definition observer_start :: "pane \<Rightarrow> observation" where
  "observer_start laneId = \<lparr>on_lane_id = laneId, on_runtime = ascii16 ''unknown'', on_workspace = [], on_turns = []\<rparr>"

definition observer_see :: "exn + observation \<Rightarrow> observation \<Rightarrow> observation" where
  "observer_see answer prev = (case answer of Inl e \<Rightarrow> prev | Inr obs \<Rightarrow> obs)"

definition observer_error :: "(string \<Rightarrow> pane) \<Rightarrow> exn + observation \<Rightarrow> pane" where
  "observer_error dec answer = (case answer of Inl e \<Rightarrow> dec (exn_message e) | Inr obs \<Rightarrow> [])"

fun observer_loop :: "bool \<Rightarrow> (string \<Rightarrow> pane) \<Rightarrow> observation \<Rightarrow> observer_pass list \<Rightarrow> pane list list" where
  "observer_loop colour dec prev [] = []"
| "observer_loop colour dec prev (p # ps) =
     (let seen = observer_see (op_answer p) prev in
      render colour (op_now p) seen (observer_error dec (op_answer p)) #
      (if op_signal p then [] else observer_loop colour dec seen ps))"

definition runRuntimeObserver :: "bool \<Rightarrow> (string \<Rightarrow> pane) \<Rightarrow> string \<Rightarrow> observer_pass list \<Rightarrow> pane list list" where
  "runRuntimeObserver colour dec laneId passes = observer_loop colour dec (observer_start (dec laneId)) passes"

section \<open>The choice of an adapter\<close>

datatype adapter_choice = Codex_adapter | Antigravity_adapter

text \<open>A configuration that was validated has one of the three kinds.\<close>

definition createRuntimeAdapter :: "string \<Rightarrow> (exn + adapter_choice) option" where
  "createRuntimeAdapter kind =
     (if kind = ''codex'' then Some (Inr Codex_adapter)
      else if kind = ''antigravity'' then Some (Inr Antigravity_adapter)
      else if kind = ''claude'' then Some (Inl (RuntimeAdapterError ''RUNTIME_NOT_READY'' ''Claude runtime adapter is not initialized''))
      else None)"

section \<open>What the daemon answers\<close>

text \<open>The answer to \<open>runtime.observe\<close> as the observer reads it; the workspace of a lane without a
  controller is null, which the screen shows as such.\<close>

definition seen_text :: "(string \<Rightarrow> pane) \<Rightarrow> json \<Rightarrow> pane" where
  "seen_text dec v = (case v of JStr s \<Rightarrow> dec s | _ \<Rightarrow> ascii16 ''null'')"

definition seen_maybe :: "(string \<Rightarrow> pane) \<Rightarrow> json \<Rightarrow> pane option" where
  "seen_maybe dec v = map_option dec (jstr (Some v))"

definition seen_number :: "json \<Rightarrow> int" where
  "seen_number v = (case v of JNum q \<Rightarrow> \<lfloor>q\<rfloor> | _ \<Rightarrow> 0)"

definition seen_turn :: "(string \<Rightarrow> pane) \<Rightarrow> json \<Rightarrow> observed_turn" where
  "seen_turn dec v =
     \<lparr>ob_turn_id = seen_text dec (field_of v ''turn_id''), ob_source_kind = seen_text dec (field_of v ''source_kind''),
      ob_from = seen_maybe dec (field_of v ''from''), ob_state = seen_text dec (field_of v ''state''),
      ob_prompt_chars = nat (seen_number (field_of v ''prompt_chars'')),
      ob_response_chars = map_option (\<lambda>q. nat \<lfloor>q\<rfloor>) (jnum (jfield v ''response_chars'')),
      ob_error_code = seen_maybe dec (field_of v ''error_code''), ob_created_at = seen_number (field_of v ''created_at''),
      ob_updated_at = seen_number (field_of v ''updated_at'')\<rparr>"

definition seen_observation :: "(string \<Rightarrow> pane) \<Rightarrow> json \<Rightarrow> observation" where
  "seen_observation dec v =
     \<lparr>on_lane_id = seen_text dec (field_of v ''lane_id''), on_runtime = seen_text dec (field_of v ''runtime''),
      on_workspace = seen_text dec (field_of v ''workspace''),
      on_turns = (case jarr (jfield v ''turns'') of None \<Rightarrow> [] | Some ts \<Rightarrow> map (seen_turn dec) ts)\<rparr>"

definition observe_answer :: "(string \<Rightarrow> pane) \<Rightarrow> control_env \<Rightarrow> json_rpc_request \<Rightarrow> control_state \<Rightarrow> exn + observation" where
  "observe_answer dec env rq s =
     (case control_observe env rq s of Inl e \<Rightarrow> Inl e | Inr v \<Rightarrow> Inr (seen_observation dec (case v of None \<Rightarrow> JNull | Some j \<Rightarrow> j)))"

section \<open>Lemmas\<close>

lemma turn_rows_length: "length (turn_rows colour now t) \<le> 2"
  by (simp add: turn_rows_def split: option.split)

text \<open>A screen has at most forty-seven lines, however many turns the daemon reports.\<close>

lemma render_length: "length (render colour now obs err) \<le> 47"
proof -
  have "length (concat (map (turn_rows colour now) ts)) \<le> 2 * length ts" for ts
  proof (induction ts)
    case (Cons t ts)
    with turn_rows_length [of colour now t] show ?case by simp
  qed simp
  from this [of "take 20 (on_turns obs)"] have "length (concat (map (turn_rows colour now) (take 20 (on_turns obs)))) \<le> 40" by simp
  then show ?thesis by (simp add: render_def)
qed

text \<open>A pass that failed shows the last view with its error, any other the new view without one.\<close>

lemma observer_screen:
  "i < length (observer_loop colour dec prev ps) \<Longrightarrow>
    observer_loop colour dec prev ps ! i =
      render colour (op_now (ps ! i)) (fold observer_see (map op_answer (take (Suc i) ps)) prev) (observer_error dec (op_answer (ps ! i)))"
proof (induction ps arbitrary: prev i)
  case (Cons p ps)
  then show ?case by (cases i) (simp_all add: Let_def split: if_splits)
qed simp

text \<open>The screen is drawn until a signal came, and not after.\<close>

lemma observer_stops:
  "length (observer_loop colour dec prev ps) = (if list_ex op_signal ps then Suc (length (takeWhile (\<lambda>p. \<not> op_signal p) ps)) else length ps)"
  by (induction ps arbitrary: prev) (simp_all add: Let_def)

section \<open>Properties\<close>

text \<open>The observer keeps its screen while the daemon is away.  Each screen is the drawing of the last view that
  the daemon gave, with the error of this pass if it failed; one is drawn for each pass up to the signal
  that ends the observer, and none has more than forty-seven lines.\<close>

theorem observer_keeps_last_view:
  assumes "runRuntimeObserver colour dec laneId ps = screens"
  shows "length screens = (if list_ex op_signal ps then Suc (length (takeWhile (\<lambda>p. \<not> op_signal p) ps)) else length ps)"
    "i < length screens \<Longrightarrow> length (screens ! i) \<le> 47 \<and> screens ! i = render colour (op_now (ps ! i))
      (case filter (\<lambda>a. \<exists>v. a = Inr v) (rev (map op_answer (take (Suc i) ps))) of
         [] \<Rightarrow> observer_start (dec laneId) | a # as \<Rightarrow> projr a) (observer_error dec (op_answer (ps ! i)))"
proof -
  have see: "fold observer_see as prev = (case filter (\<lambda>a. \<exists>v. a = Inr v) (rev as) of [] \<Rightarrow> prev | a # bs \<Rightarrow> projr a)" for as prev
  proof (induction as rule: rev_induct)
    case (snoc a as)
    then show ?case by (cases a) (simp_all add: observer_see_def)
  qed simp
  show "length screens = (if list_ex op_signal ps then Suc (length (takeWhile (\<lambda>p. \<not> op_signal p) ps)) else length ps)"
    using assms by (auto simp: runRuntimeObserver_def observer_stops)
  show "i < length screens \<Longrightarrow> length (screens ! i) \<le> 47 \<and> screens ! i = render colour (op_now (ps ! i))
      (case filter (\<lambda>a. \<exists>v. a = Inr v) (rev (map op_answer (take (Suc i) ps))) of
         [] \<Rightarrow> observer_start (dec laneId) | a # as \<Rightarrow> projr a) (observer_error dec (op_answer (ps ! i)))"
    using assms observer_screen [of i colour dec "observer_start (dec laneId)" ps] render_length
    by (auto simp: runRuntimeObserver_def see)
qed

text \<open>Nothing that is said shows on an observer's screen.  Whatever states the daemon is in while an observer
  runs, the screens do not change when the prompts and the responses in every lane are replaced by other
  texts of the same lengths.\<close>

theorem observer_shows_no_bodies:
  assumes "\<And>x. ce_chars env (f x) = ce_chars env x"
  shows "runRuntimeObserver colour dec laneId
      (map (\<lambda>(s, now, sig). \<lparr>op_answer = observe_answer dec env rq (retext f s), op_now = now, op_signal = sig\<rparr>) ps) =
    runRuntimeObserver colour dec laneId
      (map (\<lambda>(s, now, sig). \<lparr>op_answer = observe_answer dec env rq s, op_now = now, op_signal = sig\<rparr>) ps)"
  using observe_reveals_lengths_only [where env = env and f = f and rq = rq] assms by (simp add: observe_answer_def)

theorem observer_shows_no_bodies_witness:
  "runRuntimeObserver True ascii16 ''a''
      [\<lparr>op_answer = observe_answer ascii16 sample_control_env (sample_control_request ''runtime.observe'')
          (retext rev (sample_control (sample_mesh_turn PENDING None))), op_now = 9, op_signal = False\<rparr>] =
    runRuntimeObserver True ascii16 ''a''
      [\<lparr>op_answer = observe_answer ascii16 sample_control_env (sample_control_request ''runtime.observe'')
          (sample_control (sample_mesh_turn PENDING None)), op_now = 9, op_signal = False\<rparr>]"
  using observer_shows_no_bodies [of sample_control_env rev True ascii16 "''a''" "sample_control_request ''runtime.observe''"
      "[(sample_control (sample_mesh_turn PENDING None), 9, False)]"]
  by (simp add: sample_control_env_def)

end
