(* ===== verification/Codex.thy ===== *)
theory Codex
  imports Errors Interfaces
begin

text \<open>
  \<open>src/runtime/codex-app-server.ts\<close>: the adapter that drives the Codex app server, a child process that
  speaks JSON-RPC over its standard streams or a socket.  The first half is the connection: a step is
  a line from the server, a timer, or the end of the process; a process is a number.  The second half
  is \<open>warmUp\<close> and \<open>run\<close>, functions of the answers to their requests, which also return the requests
  they made.  Starting the process and waiting for its socket are events; the diagnostics are left out.
\<close>

section \<open>Configuration\<close>

record codex_config =
  cfg_workspace :: string
  cfg_model :: "string option"
  cfg_profile :: string
  cfg_acknowledged :: bool

definition sandboxMode :: "codex_config \<Rightarrow> exn + string" where
  "sandboxMode c =
     (if cfg_profile c = ''unrestricted''
      then (if \<not> cfg_acknowledged c
            then Inl (RuntimeAdapterError ''SECURITY_ACK_REQUIRED'' ''unrestricted runtime requires acknowledged_risk=true'')
            else Inr ''danger-full-access'')
      else Inr (if cfg_profile c = ''sandboxed'' then ''read-only'' else ''workspace-write''))"

definition sandboxPolicy :: "codex_config \<Rightarrow> exn + json" where
  "sandboxPolicy c =
     sbind (sandboxMode c) (\<lambda>mode.
       Inr (if mode = ''danger-full-access'' then JObj [(''type'', JStr ''dangerFullAccess'')]
         else if mode = ''read-only'' then JObj [(''type'', JStr ''readOnly''), (''networkAccess'', JBool False)]
         else JObj [(''type'', JStr ''workspaceWrite''), (''writableRoots'', JArr [JStr (cfg_workspace c)]),
           (''networkAccess'', JBool False), (''excludeTmpdirEnvVar'', JBool False), (''excludeSlashTmp'', JBool False)]))"

text \<open>\<open>join("\n")\<close> of the lines of the prompt; the dashes are those of the source.\<close>

definition dash :: string where
  "dash = map char_of [0xE2 :: nat, 0x80, 0x94]"

fun join_lines :: "string list \<Rightarrow> string" where
  "join_lines [] = []"
| "join_lines [s] = s"
| "join_lines (s # ss) = s @ [CHR 0x0A] @ join_lines ss"

definition promptFor :: "string \<Rightarrow> json \<Rightarrow> string \<Rightarrow> string" where
  "promptFor source correlation content =
     join_lines [''[AGENT_MESH_CONTEXT '' @ dash @ '' adapter supplied]'', ''source_kind: '' @ source,
       ''sender: '' @ (case jstr (jfield correlation ''from'') of Some s \<Rightarrow> s | None \<Rightarrow> ''external-channel-user''),
       ''reply_policy: final response is routed to the immutable source automatically; do not duplicate it through MCP'',
       [], ''[USER_MESSAGE '' @ dash @ '' untrusted content begins]'', content,
       ''[USER_MESSAGE '' @ dash @ '' untrusted content ends]'']"

section \<open>The connection\<close>

record completion =
  cm_status :: string
  cm_response :: "string option"

record active_turn =
  at_threadId :: string
  at_turnId :: "string option"
  at_lastAgentMessage :: "string option"
  at_done :: "completion option"

record codex =
  cx_child :: "nat option"
  cx_exited :: "nat list"
  cx_socket :: bool
  cx_ready :: bool
  cx_pending :: "rat list"
  cx_active :: "active_turn option"
  cx_warm :: "string option"

datatype codex_out =
    Cx_write json
  | Cx_settle rat "exn + json"
  | Cx_refuse rat exn
  | Cx_throw rat exn
  | Cx_kill nat
  | Cx_uncaught

definition codex_new :: codex where
  "codex_new = \<lparr>cx_child = None, cx_exited = [], cx_socket = False, cx_ready = False, cx_pending = [],
     cx_active = None, cx_warm = None\<rparr>"

definition child_alive :: "codex \<Rightarrow> bool" where
  "child_alive cx = (case cx_child cx of None \<Rightarrow> False | Some c \<Rightarrow> c \<notin> set (cx_exited cx))"

definition process_exited :: "string \<Rightarrow> exn" where
  "process_exited msg = RuntimeAdapterError ''PROCESS_EXITED'' msg"

definition codex_request_json :: "rat \<Rightarrow> string \<Rightarrow> json \<Rightarrow> json" where
  "codex_request_json i meth params = JObj [(''id'', JNum i), (''method'', JStr meth), (''params'', params)]"

text \<open>\<open>#request\<close> up to the wait; \<open>i\<close> is the fresh id, \<open>writable\<close> whether standard input takes data.  When
  the write throws, the request was entered already.\<close>

definition codex_request :: "rat \<Rightarrow> string \<Rightarrow> json \<Rightarrow> bool \<Rightarrow> codex \<Rightarrow> codex \<times> codex_out list" where
  "codex_request i meth params writable cx =
     (if \<not> child_alive cx then (cx, [Cx_refuse i (process_exited ''Codex app-server is not running'')])
      else
        (let cx' = cx\<lparr>cx_pending := cx_pending cx @ [i]\<rparr> in
         if cx_socket cx \<or> writable then (cx', [Cx_write (codex_request_json i meth params)])
         else (cx', [Cx_throw i (process_exited ''Codex app-server is not writable'')])))"

definition codex_settle :: "rat \<Rightarrow> exn + json \<Rightarrow> codex \<Rightarrow> codex \<times> codex_out list" where
  "codex_settle i r cx =
     (if i \<in> set (cx_pending cx) then (cx\<lparr>cx_pending := removeAll i (cx_pending cx)\<rparr>, [Cx_settle i r]) else (cx, []))"

text \<open>A promise that is resolved stays as it is.\<close>

definition resolve_active :: "completion \<Rightarrow> active_turn \<Rightarrow> active_turn" where
  "resolve_active c a = a\<lparr>at_done := (case at_done a of None \<Rightarrow> Some c | Some d \<Rightarrow> Some d)\<rparr>"

definition failAll :: "exn \<Rightarrow> codex \<Rightarrow> codex \<times> codex_out list" where
  "failAll e cx =
     (cx\<lparr>cx_pending := [],
         cx_active := map_option (resolve_active \<lparr>cm_status = ''failed'', cm_response = None\<rparr>) (cx_active cx)\<rparr>,
      map (\<lambda>i. Cx_settle i (Inl e)) (cx_pending cx))"

section \<open>Lines of the server\<close>

definition js_text :: "json option \<Rightarrow> string \<Rightarrow> (json \<Rightarrow> string) \<Rightarrow> string" where
  "js_text v absent print = (case v of None \<Rightarrow> absent | Some JNull \<Rightarrow> absent | Some x \<Rightarrow> print x)"

definition codex_answer :: "(json \<Rightarrow> string) \<Rightarrow> json \<Rightarrow> exn + json" where
  "codex_answer print msg =
     (if js_truthy (jfield msg ''error'')
      then Inl (RuntimeAdapterError ''RPC_ERROR''
        (''Codex '' @ js_text (Option.bind (jfield msg ''error'') (\<lambda>e. jfield e ''code'')) ''error'' print @ '': '' @
         js_text (Option.bind (jfield msg ''error'') (\<lambda>e. jfield e ''message'')) ''request failed'' print))
      else Inr (case jfield msg ''result'' of Some r \<Rightarrow> r | None \<Rightarrow> JNull))"

definition answerServerRequest :: "json \<Rightarrow> string \<Rightarrow> json" where
  "answerServerRequest i meth =
     (if meth = ''item/commandExecution/requestApproval'' \<or> meth = ''item/fileChange/requestApproval''
      then JObj [(''id'', i), (''result'', JObj [(''decision'', JStr ''decline'')])]
      else if meth = ''applyPatchApproval'' \<or> meth = ''execCommandApproval''
      then JObj [(''id'', i), (''result'',
        JObj [(''decision'', JObj [(''denied'', JObj [(''rejection'', JStr ''No interactive approver'')])])])]
      else JObj [(''id'', i), (''error'',
        JObj [(''code'', JNum (-32601)), (''message'', JStr ''Unsupported unattended server request'')])])"

definition agent_text :: "json \<Rightarrow> string option" where
  "agent_text item = (if jfield item ''type'' = Some (JStr ''agentMessage'') then jstr (jfield item ''text'') else None)"

text \<open>Whether a notification is for the active turn: while the turn has no id yet, any of its thread is.\<close>

definition for_active :: "active_turn \<Rightarrow> json option \<Rightarrow> json option \<Rightarrow> bool" where
  "for_active a thread turn =
     (thread = Some (JStr (at_threadId a)) \<and>
      (case at_turnId a of None \<Rightarrow> True | Some t \<Rightarrow> t = [] \<or> turn = Some (JStr t)))"

definition item_completed :: "json option \<Rightarrow> active_turn \<Rightarrow> active_turn" where
  "item_completed params a =
     (let field = (\<lambda>k. Option.bind params (\<lambda>p. jfield p k)) in
      if for_active a (field ''threadId'') (field ''turnId'')
      then (case Option.bind (field ''item'') agent_text of None \<Rightarrow> a | Some t \<Rightarrow> a\<lparr>at_lastAgentMessage := Some t\<rparr>)
      else a)"

definition turn_completion :: "json option \<Rightarrow> active_turn \<Rightarrow> completion" where
  "turn_completion turn a =
     (let items = (case jarr (Option.bind turn (\<lambda>t. jfield t ''items'')) of None \<Rightarrow> [] | Some vs \<Rightarrow> vs);
          texts = List.map_filter agent_text items in
      \<lparr>cm_status = (case jstr (Option.bind turn (\<lambda>t. jfield t ''status'')) of Some s \<Rightarrow> s | None \<Rightarrow> ''failed''),
       cm_response = (if texts = [] then at_lastAgentMessage a else Some (last texts))\<rparr>)"

definition turn_completed :: "json option \<Rightarrow> active_turn \<Rightarrow> active_turn" where
  "turn_completed params a =
     (let turn = Option.bind params (\<lambda>p. jfield p ''turn'') in
      if for_active a (Option.bind params (\<lambda>p. jfield p ''threadId'')) (Option.bind turn (\<lambda>t. jfield t ''id''))
      then resolve_active (turn_completion turn a) a else a)"

text \<open>\<open>#onLine\<close>; None is malformed JSON.  \<open>in\<close> throws for a value that is no object.\<close>

definition onLine :: "(json \<Rightarrow> string) \<Rightarrow> json option \<Rightarrow> codex \<Rightarrow> codex \<times> codex_out list" where
  "onLine print parsed cx =
     (case parsed of
        None \<Rightarrow> (cx, [])
      | Some msg \<Rightarrow>
          if js_object (Some msg) = None then (cx, [Cx_uncaught])
          else case (jfield msg ''id'', jfield msg ''method'') of
            (Some i, None) \<Rightarrow>
              (case i of JNum q \<Rightarrow> codex_settle q (codex_answer print msg) cx | _ \<Rightarrow> (cx, []))
          | (Some i, Some m) \<Rightarrow>
              (if child_alive cx then (cx, [Cx_write (answerServerRequest i (case m of JStr s \<Rightarrow> s | _ \<Rightarrow> []))])
               else (cx, [Cx_uncaught]))
          | (None, None) \<Rightarrow> (cx, [])
          | (None, Some m) \<Rightarrow>
              if m = JStr ''item/completed''
              then (cx\<lparr>cx_active := map_option (item_completed (jfield msg ''params'')) (cx_active cx)\<rparr>, [])
              else if m = JStr ''turn/completed''
              then (cx\<lparr>cx_active := map_option (turn_completed (jfield msg ''params'')) (cx_active cx)\<rparr>, [])
              else (cx, []))"

section \<open>Steps\<close>

datatype codex_event =
    Ck_spawn nat bool
  | Ck_request rat string json bool
  | Ck_timeout rat string
  | Ck_line "json option"
  | Ck_spawn_error exn
  | Ck_exit nat string
  | Ck_socket_closed string
  | Ck_ready bool
  | Ck_begin string
  | Ck_turn_id string
  | Ck_end
  | Ck_warm string
  | Ck_stop

text \<open>The end of any child fails all that is pending, also when a newer one runs.\<close>

definition child_exit :: "nat \<Rightarrow> string \<Rightarrow> codex \<Rightarrow> codex \<times> codex_out list" where
  [simp]: "child_exit c msg cx =
     failAll (process_exited msg)
       (cx\<lparr>cx_exited := c # cx_exited cx,
           cx_child := (if cx_child cx = Some c then None else cx_child cx),
           cx_ready := (if cx_child cx = Some c then False else cx_ready cx)\<rparr>)"

definition codex_stop :: "codex \<Rightarrow> codex \<times> codex_out list" where
  [simp]: "codex_stop cx =
     (cx\<lparr>cx_socket := False, cx_child := None, cx_ready := False\<rparr>,
      (if child_alive cx then (case cx_child cx of None \<Rightarrow> [] | Some c \<Rightarrow> [Cx_kill c]) else []))"

fun codex_step :: "(json \<Rightarrow> string) \<Rightarrow> codex_event \<Rightarrow> codex \<Rightarrow> codex \<times> codex_out list" where
  "codex_step print (Ck_spawn c socket) cx = (cx\<lparr>cx_child := Some c, cx_socket := socket\<rparr>, [])"
| "codex_step print (Ck_request i meth params writable) cx = codex_request i meth params writable cx"
| "codex_step print (Ck_timeout i meth) cx =
     codex_settle i (Inl (RuntimeAdapterError ''RPC_TIMEOUT'' (meth @ '' timed out''))) cx"
| "codex_step print (Ck_line v) cx = onLine print v cx"
| "codex_step print (Ck_spawn_error e) cx = failAll e cx"
| "codex_step print (Ck_exit c msg) cx = child_exit c msg cx"
| "codex_step print (Ck_socket_closed reason) cx =
     failAll (process_exited (''Codex app-server: '' @ reason)) (cx\<lparr>cx_socket := False\<rparr>)"
| "codex_step print (Ck_ready b) cx = (cx\<lparr>cx_ready := b\<rparr>, [])"
| "codex_step print (Ck_begin thread) cx =
     (cx\<lparr>cx_active := Some \<lparr>at_threadId = thread, at_turnId = None, at_lastAgentMessage = None, at_done = None\<rparr>\<rparr>, [])"
| "codex_step print (Ck_turn_id t) cx = (cx\<lparr>cx_active := map_option (\<lambda>a. a\<lparr>at_turnId := Some t\<rparr>) (cx_active cx)\<rparr>, [])"
| "codex_step print Ck_end cx = (cx\<lparr>cx_active := None\<rparr>, [])"
| "codex_step print (Ck_warm thread) cx = (cx\<lparr>cx_warm := Some thread\<rparr>, [])"
| "codex_step print Ck_stop cx = codex_stop cx"

definition sessionThreadId :: "codex \<Rightarrow> string option" where
  "sessionThreadId cx = (case cx_active cx of Some a \<Rightarrow> Some (at_threadId a) | None \<Rightarrow> cx_warm cx)"

section \<open>Turns\<close>

record invocation =
  iv_source :: string
  iv_correlation :: json
  iv_content :: string
  iv_conversation :: "string option"

text \<open>The answers a turn gets: to \<open>#ensureReady\<close>, to its requests, and how the wait for its completion
  ends, by the completion or the abort's exception.\<close>

record turn_answers =
  ta_ready :: "exn + unit"
  ta_resume :: "exn + json"
  ta_start :: "exn + json"
  ta_turn :: "exn + json"
  ta_completion :: "exn + completion"

definition thread_of :: "json \<Rightarrow> string option" where
  "thread_of v = jstr (Option.bind (jfield v ''thread'') (\<lambda>t. jfield t ''id''))"

text \<open>A property of \<open>null\<close>, which is also what a missing result is, cannot be read.\<close>

definition deref :: "json \<Rightarrow> exn + json" where
  "deref v = (if v = JNull then Inl (PlainError ''null is not an object'') else Inr v)"

definition model_field :: "codex_config \<Rightarrow> (string \<times> json) list" where
  "model_field c = (case cfg_model c of None \<Rightarrow> [] | Some [] \<Rightarrow> [] | Some m \<Rightarrow> [(''model'', JStr m)])"

definition resume_params :: "codex_config \<Rightarrow> string \<Rightarrow> string \<Rightarrow> json" where
  "resume_params c mode thread =
     JObj ([(''threadId'', JStr thread), (''cwd'', JStr (cfg_workspace c)), (''approvalPolicy'', JStr ''never''),
       (''sandbox'', JStr mode)] @ model_field c)"

definition start_params :: "codex_config \<Rightarrow> string \<Rightarrow> json" where
  "start_params c mode =
     JObj ([(''cwd'', JStr (cfg_workspace c)), (''approvalPolicy'', JStr ''never''), (''sandbox'', JStr mode),
       (''ephemeral'', JBool False)] @ model_field c)"

definition turn_params :: "codex_config \<Rightarrow> json \<Rightarrow> string \<Rightarrow> invocation \<Rightarrow> json" where
  "turn_params c policy thread iv =
     JObj ([(''threadId'', JStr thread),
       (''input'', JArr [JObj [(''type'', JStr ''text''),
          (''text'', JStr (promptFor (iv_source iv) (iv_correlation iv) (iv_content iv))), (''text_elements'', JArr [])]]),
       (''cwd'', JStr (cfg_workspace c)), (''approvalPolicy'', JStr ''never''), (''sandboxPolicy'', policy)] @ model_field c)"

type_synonym calls = "(string \<times> json) list"

text \<open>The thread a turn runs in: the conversation's, if it can be resumed, the one warm-up holds, or a
  new one.\<close>

definition resume_thread :: "codex_config \<Rightarrow> string \<Rightarrow> turn_answers \<Rightarrow> string option \<Rightarrow> string option \<times> calls" where
  "resume_thread c mode ta conv =
     (case conv of
        None \<Rightarrow> (None, [])
      | Some t \<Rightarrow>
          if t = [] then (None, [])
          else ((case ta_resume ta of Inl e \<Rightarrow> None | Inr v \<Rightarrow> thread_of v),
                [(''thread/resume'', resume_params c mode t)]))"

definition turn_thread :: "codex_config \<Rightarrow> string \<Rightarrow> turn_answers \<Rightarrow> string option \<Rightarrow> string option \<Rightarrow> (exn + string) \<times> calls" where
  "turn_thread c mode ta conv warm =
     (let (resumed, calls) = resume_thread c mode ta conv;
          known = (case resumed of Some [] \<Rightarrow> None | r \<Rightarrow> r);
          held = (case known of Some t \<Rightarrow> Some t | None \<Rightarrow> (case warm of Some [] \<Rightarrow> None | w \<Rightarrow> w)) in
      case held of
        Some t \<Rightarrow> (Inr t, calls)
      | None \<Rightarrow>
          (sbind (sbind (ta_start ta) deref) (\<lambda>v.
             case thread_of v of
               None \<Rightarrow> Inl (RuntimeAdapterError ''MALFORMED_OUTPUT'' ''thread/start returned no thread id'')
             | Some t \<Rightarrow> Inr t),
           calls @ [(''thread/start'', start_params c mode)]))"

definition turn_result :: "string \<Rightarrow> completion \<Rightarrow> exn + string \<times> string" where
  "turn_result thread cm =
     (if cm_status cm \<noteq> ''completed''
      then Inl (RuntimeAdapterError (if cm_status cm = ''interrupted'' then ''CANCELLED'' else ''RUNTIME_FAILED'')
        (''Codex turn ended with status '' @ cm_status cm))
      else case cm_response cm of
        None \<Rightarrow> Inl (RuntimeAdapterError ''EMPTY_RESPONSE'' ''Codex returned no final agent message'')
      | Some r \<Rightarrow>
          if js_blank r then Inl (RuntimeAdapterError ''EMPTY_RESPONSE'' ''Codex returned no final agent message'')
          else Inr (r, thread))"

definition turn_id :: "exn + json \<Rightarrow> exn + string" where
  "turn_id started =
     sbind (sbind started deref) (\<lambda>v.
       case jstr (Option.bind (jfield v ''turn'') (\<lambda>t. jfield t ''id'')) of
         None \<Rightarrow> Inl (RuntimeAdapterError ''MALFORMED_OUTPUT'' ''turn/start returned no turn id'')
       | Some t \<Rightarrow> Inr t)"

text \<open>An abort interrupts the turn before its exception is thrown.\<close>

definition turn_run :: "codex_config \<Rightarrow> turn_answers \<Rightarrow> invocation \<Rightarrow> string \<Rightarrow> (exn + string \<times> string) \<times> calls" where
  "turn_run c ta iv thread =
     (case sandboxPolicy c of
        Inl e \<Rightarrow> (Inl e, [])
      | Inr policy \<Rightarrow>
          (case turn_id (ta_turn ta) of
             Inl e \<Rightarrow> (Inl e, [(''turn/start'', turn_params c policy thread iv)])
           | Inr t \<Rightarrow>
               (case ta_completion ta of
                  Inr cm \<Rightarrow> (turn_result thread cm, [(''turn/start'', turn_params c policy thread iv)])
                | Inl e \<Rightarrow>
                    (Inl e, [(''turn/start'', turn_params c policy thread iv),
                      (''turn/interrupt'', JObj [(''threadId'', JStr thread), (''turnId'', JStr t)])]))))"

definition codex_run :: "codex_config \<Rightarrow> turn_answers \<Rightarrow> invocation \<Rightarrow> codex \<Rightarrow> (exn + string \<times> string) \<times> calls" where
  "codex_run c ta iv cx =
     (case ta_ready ta of
        Inl e \<Rightarrow> (Inl e, [])
      | Inr _ \<Rightarrow>
          (case sandboxMode c of
             Inl e \<Rightarrow> (Inl e, [])
           | Inr mode \<Rightarrow>
               (case turn_thread c mode ta (iv_conversation iv) (cx_warm cx) of
                  (Inl e, calls) \<Rightarrow> (Inl e, calls)
                | (Inr thread, calls) \<Rightarrow>
                    (let (r, more) = turn_run c ta iv thread in (r, calls @ more)))))"

text \<open>\<open>warmUp\<close>: the thread it holds afterwards.  A thread is started here with a policy where \<open>run\<close> names
  a mode.\<close>

definition warm_start :: "codex_config \<Rightarrow> turn_answers \<Rightarrow> codex \<Rightarrow> (exn + codex) \<times> calls" where
  "warm_start c ta cx =
     (case sandboxPolicy c of
        Inl e \<Rightarrow> (Inl e, [])
      | Inr policy \<Rightarrow>
          (sbind (sbind (ta_start ta) deref) (\<lambda>v. Inr (case thread_of v of None \<Rightarrow> cx | Some t \<Rightarrow> cx\<lparr>cx_warm := Some t\<rparr>)),
           [(''thread/start'', JObj ([(''cwd'', JStr (cfg_workspace c)), (''approvalPolicy'', JStr ''never''),
              (''sandboxPolicy'', policy)] @ model_field c))]))"

definition warmUp :: "codex_config \<Rightarrow> string option \<Rightarrow> turn_answers \<Rightarrow> codex \<Rightarrow> (exn + codex) \<times> calls" where
  "warmUp c resumeId ta cx =
     (case ta_ready ta of
        Inl e \<Rightarrow> (Inl e, [])
      | Inr _ \<Rightarrow>
          if \<not> (cx_warm cx = None \<or> cx_warm cx = Some []) then (Inr cx, [])
          else (case resumeId of
            None \<Rightarrow> warm_start c ta cx
          | Some t \<Rightarrow>
              if t = [] then warm_start c ta cx
              else (case sandboxMode c of
                Inl e \<Rightarrow> warm_start c ta cx
              | Inr mode \<Rightarrow>
                  (case (case ta_resume ta of Inl e \<Rightarrow> None | Inr v \<Rightarrow> thread_of v) of
                     Some th \<Rightarrow> (Inr (cx\<lparr>cx_warm := Some th\<rparr>), [(''thread/resume'', resume_params c mode t)])
                   | None \<Rightarrow>
                       (let (r, calls) = warm_start c ta cx in
                        (r, (''thread/resume'', resume_params c mode t) # calls))))))"

section \<open>Every request settles once\<close>

definition codex_asked :: "(json \<Rightarrow> string) \<Rightarrow> codex_event \<Rightarrow> rat list" where
  "codex_asked print e = (case e of Ck_request i meth params writable \<Rightarrow> [i] | _ \<Rightarrow> [])"

text \<open>A request ends when its promise settles or when \<open>#request\<close> refuses it; one that throws after it was
  entered has a promise that settles later.\<close>

definition codex_settled :: "rat \<Rightarrow> codex_out list \<Rightarrow> nat" where
  "codex_settled i outs = length (filter (\<lambda>x. case x of Cx_settle j r \<Rightarrow> j = i | Cx_refuse j e \<Rightarrow> j = i | _ \<Rightarrow> False) outs)"

definition codex_waiting :: "rat \<Rightarrow> codex \<Rightarrow> nat" where
  "codex_waiting i cx = count_list (cx_pending cx) i"

lemma codex_settled_simps [simp]:
  "codex_settled i [] = 0" "codex_settled i (xs @ ys) = codex_settled i xs + codex_settled i ys"
  "codex_settled i (Cx_write v # xs) = codex_settled i xs" "codex_settled i (Cx_kill c # xs) = codex_settled i xs"
  "codex_settled i (Cx_throw j e # xs) = codex_settled i xs" "codex_settled i (Cx_uncaught # xs) = codex_settled i xs"
  "codex_settled i (Cx_settle j r # xs) = (if j = i then 1 else 0) + codex_settled i xs"
  "codex_settled i (Cx_refuse j e # xs) = (if j = i then 1 else 0) + codex_settled i xs"
  by (simp_all add: codex_settled_def)

lemma codex_settled_all: "codex_settled i (map (\<lambda>j. Cx_settle j r) js) = count_list js i"
  by (induction js) auto

lemma codex_settle_balance:
  assumes "\<And>j. codex_waiting j cx \<le> 1" "codex_settle i r cx = (cx', outs)"
  shows "codex_settled k outs + codex_waiting k cx' = codex_waiting k cx"
proof (cases "i \<in> set (cx_pending cx)")
  case True
  then have "count_list (cx_pending cx) i \<noteq> 0" by (metis count_list_0_iff)
  with assms(1) [of i] have "count_list (cx_pending cx) i = 1" by (simp add: codex_waiting_def)
  with True assms(2) show ?thesis
    by (auto simp: codex_settle_def codex_waiting_def count_removeAll)
next
  case False
  with assms(2) show ?thesis by (auto simp: codex_settle_def)
qed

lemma failAll_balance:
  "failAll e cx = (cx', outs) \<Longrightarrow> codex_settled k outs + codex_waiting k cx' = codex_waiting k cx"
  by (auto simp: failAll_def codex_waiting_def codex_settled_all)

lemma onLine_balance:
  assumes "\<And>j. codex_waiting j cx \<le> 1" "onLine print v cx = (cx', outs)"
  shows "codex_settled k outs + codex_waiting k cx' = codex_waiting k cx"
proof (cases "\<exists>q r. onLine print v cx = codex_settle q r cx")
  case True
  with assms codex_settle_balance show ?thesis by metis
next
  case False
  with assms(2) show ?thesis
    by (auto simp: onLine_def codex_waiting_def split: option.splits if_splits json.splits) metis
qed

lemma codex_balance:
  assumes "\<And>j. codex_waiting j cx \<le> 1" "codex_step print e cx = (cx', outs)"
  shows "codex_settled k outs + codex_waiting k cx' = codex_waiting k cx + count_list (codex_asked print e) k"
proof (cases e)
  case (Ck_request i meth params writable)
  with assms show ?thesis
    by (auto simp: codex_request_def codex_asked_def codex_waiting_def Let_def split: if_splits)
next
  case (Ck_timeout i meth)
  with assms codex_settle_balance show ?thesis by (simp add: codex_asked_def)
next
  case (Ck_line v)
  with assms onLine_balance show ?thesis by (simp add: codex_asked_def)
next
  case (Ck_spawn_error ex)
  with assms failAll_balance show ?thesis by (simp add: codex_asked_def)
next
  case (Ck_exit c msg)
  with assms(2) failAll_balance show ?thesis by (fastforce simp: codex_asked_def codex_waiting_def)
next
  case (Ck_socket_closed reason)
  with assms(2) failAll_balance show ?thesis by (fastforce simp: codex_asked_def codex_waiting_def)
qed (use assms in \<open>auto simp: codex_asked_def codex_waiting_def split: if_splits option.splits\<close>)

interpretation codex_requests: settling "codex_step print" "\<lambda>_. True" codex_waiting codex_settled "codex_asked print" for print
  by unfold_locales (simp_all add: codex_balance)

section \<open>Lemmas on turns\<close>

lemma failed_completion_first: "at_done a = None \<Longrightarrow> at_done (resolve_active c a) = Some c"
  by (simp add: resolve_active_def)

text \<open>Every request that opens a thread or starts a turn asks for no approvals and carries the sandbox
  of the configuration.\<close>

definition guarded :: "codex_config \<Rightarrow> string \<times> json \<Rightarrow> bool" where
  "guarded c call =
     (fst call = ''turn/interrupt'' \<or>
      jfield (snd call) ''approvalPolicy'' = Some (JStr ''never'') \<and>
      (jfield (snd call) ''sandbox'' = map_option JStr (case sandboxMode c of Inr m \<Rightarrow> Some m | Inl e \<Rightarrow> None) \<or>
       jfield (snd call) ''sandboxPolicy'' = (case sandboxPolicy c of Inr p \<Rightarrow> Some p | Inl e \<Rightarrow> None)))"

lemma guarded_params:
  "sandboxMode c = Inr mode \<Longrightarrow> guarded c (meth, resume_params c mode t)"
  "sandboxMode c = Inr mode \<Longrightarrow> guarded c (meth, start_params c mode)"
  "sandboxPolicy c = Inr policy \<Longrightarrow> guarded c (meth, turn_params c policy t iv)"
  "guarded c (''turn/interrupt'', v)"
  by (simp_all add: guarded_def resume_params_def start_params_def turn_params_def)

lemma turn_thread_guarded:
  assumes "turn_thread c mode ta conv warm = (r, calls)" "sandboxMode c = Inr mode"
  shows "list_all (guarded c) calls"
  using assms
  by (auto simp: turn_thread_def resume_thread_def Let_def guarded_params split: option.splits prod.splits if_splits list.splits)

lemma turn_run_guarded:
  assumes "turn_run c ta iv thread = (r, calls)"
  shows "list_all (guarded c) calls"
  using assms by (auto simp: turn_run_def guarded_params split: sum.splits)

section \<open>Properties\<close>

text \<open>Every request to the app server settles once.  Whatever the order of the server's lines, the
  timers, the ends of processes and the closing of the socket, a request that was made once has been
  refused or settled exactly once, or still waits.\<close>

theorem codex_requests_settle_once:
  assumes "distinct (concat (map (codex_asked print) es))" "runs (codex_step print) es codex_new = (cx, outs)"
  shows "codex_settled i outs + codex_waiting i cx = (if i \<in> set (concat (map (codex_asked print) es)) then 1 else 0)"
  by (rule codex_requests.settles_once [OF _ _ assms]) (simp_all add: codex_waiting_def codex_new_def)

theorem codex_requests_settle_once_witness:
  "codex_settled 1 (snd (runs (codex_step (\<lambda>v. []))
      [Ck_spawn 0 False, Ck_request 1 ''initialize'' (JObj []) True, Ck_exit 0 ''x'', Ck_timeout 1 ''initialize''] codex_new)) +
   codex_waiting 1 (fst (runs (codex_step (\<lambda>v. []))
      [Ck_spawn 0 False, Ck_request 1 ''initialize'' (JObj []) True, Ck_exit 0 ''x'', Ck_timeout 1 ''initialize''] codex_new)) = 1"
  using codex_requests_settle_once [of "\<lambda>v. []"
      "[Ck_spawn 0 False, Ck_request 1 ''initialize'' (JObj []) True, Ck_exit 0 ''x'', Ck_timeout 1 ''initialize'']"
      "fst (runs (codex_step (\<lambda>v. []))
        [Ck_spawn 0 False, Ck_request 1 ''initialize'' (JObj []) True, Ck_exit 0 ''x'', Ck_timeout 1 ''initialize''] codex_new)"
      "snd (runs (codex_step (\<lambda>v. []))
        [Ck_spawn 0 False, Ck_request 1 ''initialize'' (JObj []) True, Ck_exit 0 ''x'', Ck_timeout 1 ''initialize''] codex_new)" 1]
  by (simp add: codex_asked_def)


text \<open>The end of an earlier turn can be taken for that of the next.  Until \<open>turn/start\<close> is answered
  the active turn has no id, and the completion of any turn of its thread resolves it: after a turn
  was interrupted, its late completion ends the next turn, with the earlier turn's status and text.\<close>

theorem late_completion_ends_next_turn:
  assumes "cx_active cx = Some a" "at_turnId a = None" "at_done a = None"
    "jfield params ''threadId'' = Some (JStr (at_threadId a))" "jfield params ''turn'' = Some earlier"
    "jfield msg ''method'' = Some (JStr ''turn/completed'')" "jfield msg ''params'' = Some params" "jfield msg ''id'' = None"
  shows "\<exists>a'. cx_active (fst (codex_step print (Ck_line (Some msg)) cx)) = Some a' \<and>
    at_done a' = Some (turn_completion (Some earlier) a)"
proof -
  have "js_object (Some msg) \<noteq> None" using assms(6) by (cases msg) auto
  with assms show ?thesis
    by (simp add: onLine_def turn_completed_def for_active_def failed_completion_first)
qed

theorem late_completion_ends_next_turn_witness:
  "\<exists>a'. cx_active (fst (codex_step (\<lambda>v. []) (Ck_line (Some (JObj [(''method'', JStr ''turn/completed''),
      (''params'', JObj [(''threadId'', JStr ''t''), (''turn'', JObj [(''id'', JStr ''old''), (''status'', JStr ''interrupted'')])])])))
      (fst (codex_step (\<lambda>v. []) (Ck_begin ''t'') codex_new)))) = Some a' \<and>
    map_option cm_status (at_done a') = Some ''interrupted''"
  using late_completion_ends_next_turn [where print = "\<lambda>v. []" and cx = "fst (codex_step (\<lambda>v. []) (Ck_begin ''t'') codex_new)" and
      a = "\<lparr>at_threadId = ''t'', at_turnId = None, at_lastAgentMessage = None, at_done = None\<rparr>" and
      params = "JObj [(''threadId'', JStr ''t''), (''turn'', JObj [(''id'', JStr ''old''), (''status'', JStr ''interrupted'')])]" and
      earlier = "JObj [(''id'', JStr ''old''), (''status'', JStr ''interrupted'')]" and
      msg = "JObj [(''method'', JStr ''turn/completed''),
        (''params'', JObj [(''threadId'', JStr ''t''), (''turn'', JObj [(''id'', JStr ''old''), (''status'', JStr ''interrupted'')])])]"]
  by (auto simp: turn_completion_def)

text \<open>The warm thread outlives the server that knew it.  Neither the end of the process nor \<open>stop\<close>
  forgets the thread that warm-up brought up: with the next process, warm-up makes no request, and a
  turn without a conversation of its own starts in a thread that this process was never asked to
  open or resume.\<close>

theorem warm_thread_outlives_server:
  assumes "cx_warm cx = Some (x # xs)" "list_all (\<lambda>e. case e of Ck_warm t \<Rightarrow> False | _ \<Rightarrow> True) es"
    "fst (runs (codex_step print) es cx) = cx'" "ta_ready ta = Inr ()" "iv_conversation iv = None"
    "sandboxMode c = Inr mode" "sandboxPolicy c = Inr policy"
  shows "warmUp c resumeId ta cx' = (Inr cx', []) \<and>
    (\<exists>more. snd (codex_run c ta iv cx') = (''turn/start'', turn_params c policy (x # xs) iv) # more \<and>
       list_all (\<lambda>call. fst call = ''turn/interrupt'') more)"
proof -
  have "cx_warm (fst (codex_step print e s)) = cx_warm s" if "case e of Ck_warm t \<Rightarrow> False | _ \<Rightarrow> True" for e s
    using that
    by (cases e) (auto simp: codex_request_def codex_settle_def failAll_def onLine_def Let_def
        split: option.split json.split)
  then have keep: "cx_warm (fst (runs (codex_step print) es s)) = cx_warm s"
    if "list_all (\<lambda>e. case e of Ck_warm t \<Rightarrow> False | _ \<Rightarrow> True) es" for s
    using that by (induction es arbitrary: s) (simp_all add: Let_def split_beta)
  have warm: "cx_warm cx' = Some (x # xs)" using keep [OF assms(2), of cx] assms(1,3) by simp
  have "turn_thread c mode ta None (Some (x # xs)) = (Inr (x # xs), [])" by (simp add: turn_thread_def resume_thread_def)
  with warm assms(4-7) show ?thesis
    by (auto simp: warmUp_def codex_run_def turn_run_def Let_def split: sum.split)
qed

definition sample_codex_config :: codex_config where
  "sample_codex_config = \<lparr>cfg_workspace = ''w'', cfg_model = None, cfg_profile = ''sandboxed'', cfg_acknowledged = False\<rparr>"

definition sample_answers :: turn_answers where
  "sample_answers = \<lparr>ta_ready = Inr (), ta_resume = Inr JNull, ta_start = Inr JNull, ta_turn = Inr JNull,
     ta_completion = Inr \<lparr>cm_status = ''completed'', cm_response = None\<rparr>\<rparr>"

theorem warm_thread_outlives_server_witness:
  "fst (hd (snd (codex_run sample_codex_config sample_answers
     \<lparr>iv_source = ''mesh'', iv_correlation = JNull, iv_content = ''hi'', iv_conversation = None\<rparr>
     (fst (runs (codex_step (\<lambda>v. [])) [Ck_exit 0 ''x'', Ck_spawn 1 False] (codex_new\<lparr>cx_warm := Some ''t''\<rparr>)))))) = ''turn/start''"
proof -
  let ?cx = "codex_new\<lparr>cx_warm := Some ''t''\<rparr>"
  obtain mode policy where m: "sandboxMode sample_codex_config = Inr mode" "sandboxPolicy sample_codex_config = Inr policy"
    by (simp add: sandboxMode_def sandboxPolicy_def sample_codex_config_def)
  let ?iv = "\<lparr>iv_source = ''mesh'', iv_correlation = JNull, iv_content = ''hi'', iv_conversation = None\<rparr>"
  have w: "cx_warm ?cx = Some [CHR ''t'']" "ta_ready sample_answers = Inr ()" "iv_conversation ?iv = None"
    "list_all (\<lambda>e. case e of Ck_warm t \<Rightarrow> False | _ \<Rightarrow> True) [Ck_exit 0 ''x'', Ck_spawn 1 False]"
    by (simp_all add: sample_answers_def)
  obtain cx' where cx': "fst (runs (codex_step (\<lambda>v. [])) [Ck_exit 0 ''x'', Ck_spawn 1 False] ?cx) = cx'" by blast
  obtain more where "snd (codex_run sample_codex_config sample_answers ?iv cx') =
      (''turn/start'', turn_params sample_codex_config policy [CHR ''t''] ?iv) # more"
    using warm_thread_outlives_server [where resumeId = None, OF w(1,4) cx' w(2,3) m] by blast
  then show ?thesis unfolding cx' by simp
qed

end
