(* ===== verification/Codex_Start.thy ===== *)
theory Codex_Start
  imports Codex
begin

text \<open>
  How \<open>src/runtime/codex-app-server.ts\<close> starts its server and gives a turn up: \<open>#ensureReady\<close> with the starts
  it shares, the wait of \<open>#connectSocket\<close> for the server to bind its socket, and \<open>#withAbort\<close>.  A pass of
  the wait has what it sees: whether the socket is there, the adapter's state, and the time.
\<close>

section \<open>Starts\<close>

text \<open>A start is the number of its making, and so is its server.  \<open>sr_ready\<close> is the start whose promise
  \<open>#ready\<close> holds, \<open>sr_running\<close> are the starts that have not settled, \<open>sr_waiting\<close> the calls that await one,
  \<open>sr_alive\<close> the servers that run.\<close>

record starts =
  sr_ready :: "nat option"
  sr_made :: nat
  sr_running :: "nat list"
  sr_waiting :: "(nat \<times> nat) list"
  sr_child :: "nat option"
  sr_alive :: "nat list"

definition starts_new :: starts where
  "starts_new = \<lparr>sr_ready = None, sr_made = 0, sr_running = [], sr_waiting = [], sr_child = None, sr_alive = []\<rparr>"

datatype start_event = Sv_call nat | Sv_spawned nat | Sv_settled nat "exn + unit" | Sv_exit nat | Sv_stop

datatype start_out = So_call_done nat "exn + unit" | So_server_kill nat

text \<open>A call that finds a start waits for it, or returns when it is over.\<close>

definition ensureReady :: "nat \<Rightarrow> starts \<Rightarrow> starts \<times> start_out list" where
  "ensureReady n sr =
     (case sr_ready sr of
        Some k \<Rightarrow> if k \<in> set (sr_running sr) then (sr\<lparr>sr_waiting := sr_waiting sr @ [(n, k)]\<rparr>, []) else (sr, [So_call_done n (Inr ())])
      | None \<Rightarrow>
          (let k = sr_made sr in
           (sr\<lparr>sr_ready := Some k, sr_made := k + 1, sr_running := sr_running sr @ [k], sr_waiting := sr_waiting sr @ [(n, k)]\<rparr>, [])))"

text \<open>The server is spawned after the old socket was unlinked, whatever has happened since.\<close>

definition start_spawned :: "nat \<Rightarrow> starts \<Rightarrow> starts" where
  "start_spawned k sr = (if k \<in> set (sr_running sr) then sr\<lparr>sr_child := Some k, sr_alive := sr_alive sr @ [k]\<rparr> else sr)"

text \<open>The call that made a start which fails clears \<open>#ready\<close>, whatever it holds by then.\<close>

definition start_settled :: "nat \<Rightarrow> exn + unit \<Rightarrow> starts \<Rightarrow> starts \<times> start_out list" where
  "start_settled k r sr =
     (if k \<notin> set (sr_running sr) then (sr, [])
      else (sr\<lparr>sr_running := removeAll k (sr_running sr), sr_waiting := filter (\<lambda>w. snd w \<noteq> k) (sr_waiting sr),
              sr_ready := (case r of Inl e \<Rightarrow> None | Inr _ \<Rightarrow> sr_ready sr)\<rparr>,
            map (\<lambda>w. So_call_done (fst w) r) (filter (\<lambda>w. snd w = k) (sr_waiting sr))))"

definition server_exit :: "nat \<Rightarrow> starts \<Rightarrow> starts" where
  "server_exit k sr =
     sr\<lparr>sr_alive := removeAll k (sr_alive sr), sr_child := (if sr_child sr = Some k then None else sr_child sr),
        sr_ready := (if sr_child sr = Some k then None else sr_ready sr)\<rparr>"

fun start_step :: "start_event \<Rightarrow> starts \<Rightarrow> starts \<times> start_out list" where
  "start_step (Sv_call n) sr = ensureReady n sr"
| "start_step (Sv_spawned k) sr = (start_spawned k sr, [])"
| "start_step (Sv_settled k r) sr = start_settled k r sr"
| "start_step (Sv_exit k) sr = (server_exit k sr, [])"
| "start_step Sv_stop sr =
     (sr\<lparr>sr_ready := None, sr_child := None\<rparr>,
      (case sr_child sr of Some k \<Rightarrow> if k \<in> set (sr_alive sr) then [So_server_kill k] else [] | None \<Rightarrow> []))"

section \<open>Giving a turn up\<close>

text \<open>The race between a completion and the abort of the signal; an abort is known to the turn once the request
  to interrupt it has settled.\<close>

record 'a abort_race =
  rc_result :: "(exn + 'a) option"
  rc_listening :: bool
  rc_interrupting :: bool
  rc_aborted_first :: bool

datatype 'a race_event = Rc_completion "exn + 'a" | Rc_abort | Rc_interrupted exn

definition withAbort :: "bool \<Rightarrow> 'a abort_race" where
  "withAbort aborted = \<lparr>rc_result = None, rc_listening = \<not> aborted, rc_interrupting = aborted, rc_aborted_first = aborted\<rparr>"

fun race_step :: "'a race_event \<Rightarrow> 'a abort_race \<Rightarrow> 'a abort_race" where
  "race_step (Rc_completion r) rc =
     (if rc_result rc \<noteq> None \<or> rc_aborted_first rc then rc else rc\<lparr>rc_result := Some r, rc_listening := False\<rparr>)"
| "race_step Rc_abort rc = (if rc_listening rc then rc\<lparr>rc_listening := False, rc_interrupting := True\<rparr> else rc)"
| "race_step (Rc_interrupted reason) rc =
     (if rc_interrupting rc
      then rc\<lparr>rc_interrupting := False, rc_result := (case rc_result rc of None \<Rightarrow> Some (Inl reason) | Some r \<Rightarrow> Some r)\<rparr>
      else rc)"

section \<open>The wait\<close>

record bind_pass =
  bp_exists :: bool
  bp_codex :: codex
  bp_now :: millis

text \<open>The exit code of the child as the loop reads it: through \<open>#child\<close>.\<close>

definition seen_exited :: "codex \<Rightarrow> bool" where
  "seen_exited cx = (case cx_child cx of None \<Rightarrow> False | Some c \<Rightarrow> c \<in> set (cx_exited cx))"

text \<open>\<open>detail\<close> is the end of the server's error output; \<open>None\<close> is a wait that goes on.\<close>

fun await_bind :: "string \<Rightarrow> string \<Rightarrow> millis \<Rightarrow> bind_pass list \<Rightarrow> (exn + unit) option" where
  "await_bind path detail deadline [] = None"
| "await_bind path detail deadline (p # ps) =
     (if bp_exists p then Some (Inr ())
      else if seen_exited (bp_codex p)
      then Some (Inl (process_exited (''Codex app-server exited before binding '' @ path @
        (if detail = [] then [] else '': '' @ detail))))
      else if deadline < bp_now p
      then Some (Inl (RuntimeAdapterError ''RUNTIME_NOT_READY''
        (''Codex app-server did not bind '' @ path @ '' within 15s'')))
      else await_bind path detail deadline ps)"

definition connectSocket :: "string \<Rightarrow> string \<Rightarrow> millis \<Rightarrow> bind_pass list \<Rightarrow> (exn + unit) option" where
  "connectSocket path detail now passes = await_bind path detail (now + 15000) passes"

section \<open>Lemmas\<close>

text \<open>Processes have numbers of their own: none is started again after it has exited.\<close>

fun spawns_fresh :: "nat list \<Rightarrow> codex_event list \<Rightarrow> bool" where
  "spawns_fresh dead [] = True"
| "spawns_fresh dead (e # es) =
     (case e of
        Ck_spawn c socket \<Rightarrow> c \<notin> set dead \<and> spawns_fresh dead es
      | Ck_exit c msg \<Rightarrow> spawns_fresh (c # dead) es
      | _ \<Rightarrow> spawns_fresh dead es)"

lemma onLine_child: "cx_child (fst (onLine print v cx)) = cx_child cx \<and> cx_exited (fst (onLine print v cx)) = cx_exited cx"
  by (auto simp: onLine_def codex_settle_def split: option.splits json.splits)

lemma step_child:
  assumes "\<not> seen_exited cx" "spawns_fresh (cx_exited cx) (e # es)"
  shows "\<not> seen_exited (fst (codex_step print e cx)) \<and> spawns_fresh (cx_exited (fst (codex_step print e cx))) es"
  using assms
  by (cases e)
    (auto simp: seen_exited_def onLine_child codex_request_def codex_settle_def failAll_def Let_def split: option.splits if_splits)

lemma runs_child:
  "\<not> seen_exited cx \<Longrightarrow> spawns_fresh (cx_exited cx) es \<Longrightarrow> \<not> seen_exited (fst (runs (codex_step print) es cx))"
proof (induction es arbitrary: cx)
  case (Cons e es)
  from step_child [OF Cons.prems, of print] Cons.IH show ?case by (simp add: Let_def split_beta del: codex_step.simps spawns_fresh.simps)
qed simp

text \<open>Once a turn's race is over its result stays; it is over after an abort that was followed through.\<close>

lemma race_result_stays: "rc_result rc = Some r \<Longrightarrow> rc_result (fold race_step es rc) = Some r"
proof (induction es arbitrary: rc)
  case (Cons e es)
  then have "rc_result (race_step e rc) = Some r" by (cases e) auto
  with Cons.IH show ?case by simp
qed simp

lemma aborted_race_ends: "rc_result (fold race_step [Rc_abort, Rc_interrupted reason] (withAbort b)) = Some (Inl reason)"
  by (simp add: withAbort_def)

lemma completion_beats_interrupt:
  "rc_result (fold race_step [Rc_abort, Rc_completion r, Rc_interrupted reason] (withAbort False)) = Some r"
  by (simp add: withAbort_def)

text \<open>Without exits and stops there is one start at a time.\<close>

definition one_start :: "starts \<Rightarrow> bool" where
  "one_start sr =
     ((sr_running sr = [] \<or> (\<exists>k. sr_running sr = [k] \<and> sr_ready sr = Some k)) \<and> (\<forall>w\<in>set (sr_waiting sr). snd w \<in> set (sr_running sr)))"

fun undisturbed :: "start_event \<Rightarrow> bool" where
  "undisturbed (Sv_exit k) = False"
| "undisturbed Sv_stop = False"
| "undisturbed _ = True"

lemma step_one_start: "one_start sr \<Longrightarrow> undisturbed e \<Longrightarrow> one_start (fst (start_step e sr))"
  by (cases e)
    (auto simp: one_start_def ensureReady_def start_spawned_def start_settled_def Let_def split: option.splits sum.splits)

fun failed_settle :: "start_event \<Rightarrow> bool" where
  "failed_settle (Sv_settled k (Inl e)) = True"
| "failed_settle _ = False"

definition starts_due :: "starts \<Rightarrow> nat" where
  "starts_due sr = sr_made sr + (if sr_ready sr = None then 1 else 0)"

lemma step_due: "undisturbed e \<Longrightarrow> starts_due (fst (start_step e sr)) \<le> starts_due sr + (if failed_settle e then 1 else 0)"
  by (cases e)
    (auto simp: starts_due_def ensureReady_def start_spawned_def start_settled_def Let_def split: option.splits sum.splits)

lemma runs_undisturbed:
  "one_start sr \<Longrightarrow> list_all undisturbed es \<Longrightarrow>
    one_start (fst (runs start_step es sr)) \<and> starts_due (fst (runs start_step es sr)) \<le> starts_due sr + length (filter failed_settle es)"
proof (induction es arbitrary: sr)
  case (Cons e es)
  from Cons.prems step_one_start [of sr e] step_due [of e sr] Cons.IH [of "fst (start_step e sr)"] show ?case
    by (auto simp: Let_def split_beta simp del: start_step.simps failed_settle.simps)
qed simp

section \<open>Properties\<close>

text \<open>All turns share one app server.  As long as no server exits and nothing is stopped, at most one start runs
  at a time, every call that waits waits for it, and a further server is started only after a start
  that failed.\<close>

theorem calls_share_one_start:
  assumes "runs start_step es starts_new = (sr, outs)" "list_all undisturbed es"
  shows "length (sr_running sr) \<le> 1 \<and> (\<forall>w\<in>set (sr_waiting sr). snd w \<in> set (sr_running sr)) \<and>
    sr_made sr \<le> 1 + length (filter failed_settle es)"
proof -
  have "one_start starts_new" by (simp add: one_start_def starts_new_def)
  from runs_undisturbed [OF this assms(2)] assms(1)
  have one: "one_start sr" and due: "starts_due sr \<le> starts_due starts_new + length (filter failed_settle es)" by simp_all
  from due have "sr_made sr \<le> 1 + length (filter failed_settle es)" by (simp add: starts_due_def starts_new_def)
  with one show ?thesis by (auto simp: one_start_def)
qed

theorem calls_share_one_start_witness:
  "length (sr_running (fst (runs start_step [Sv_call 1, Sv_call 2, Sv_spawned 0, Sv_call 3] starts_new))) \<le> 1"
proof -
  let ?es = "[Sv_call 1, Sv_call 2, Sv_spawned 0, Sv_call 3]"
  obtain sr outs where r: "runs start_step ?es starts_new = (sr, outs)" by (cases "runs start_step ?es starts_new")
  have "list_all undisturbed ?es" by simp
  from calls_share_one_start [OF r this] show ?thesis unfolding r by simp
qed

text \<open>An app server that dies before it binds costs a later one.  Its start goes on waiting for the socket; a
  turn meanwhile starts a second server, and when the first start fails after that it clears \<open>#ready\<close> though the
  second is ready: the next turn starts a third server, and the second is stopped by nothing, \<open>stop\<close>
  included.\<close>

theorem early_exit_orphans_server:
  "let (sr, outs) = runs start_step [Sv_call 1, Sv_spawned 0, Sv_exit 0, Sv_call 2, Sv_spawned 1, Sv_settled 1 (Inr ()),
      Sv_settled 0 (Inl e), Sv_call 3, Sv_spawned 2, Sv_settled 2 (Inr ()), Sv_stop, Sv_exit 2] starts_new in
    outs = [So_call_done 2 (Inr ()), So_call_done 1 (Inl e), So_call_done 3 (Inr ()), So_server_kill 2] \<and>
    sr_alive sr = [1] \<and> sr_child sr = None"
  by (simp add: starts_new_def ensureReady_def start_spawned_def start_settled_def server_exit_def Let_def)

text \<open>An app server that dies before it binds is waited for until the deadline.  The loop asks \<open>#child\<close> for
  the exit code, but the end of the process has cleared \<open>#child\<close> by then: in no state the adapter can
  reach does it see the exit, so the message for that case is never given.\<close>

theorem exit_before_bind_unseen:
  assumes "list_all (\<lambda>p. \<not> bp_exists p \<and> bp_now p \<le> now + 15000 \<and>
      (\<exists>es. spawns_fresh [] es \<and> bp_codex p = fst (runs (codex_step print) es codex_new))) passes"
  shows "connectSocket path detail now passes = None"
proof -
  have "\<not> seen_exited (fst (runs (codex_step print) es codex_new))" if "spawns_fresh [] es" for es
    using runs_child [of codex_new es print] that by (simp add: codex_new_def seen_exited_def)
  with assms show ?thesis unfolding connectSocket_def by (induction passes) auto
qed

theorem exit_before_bind_unseen_witness:
  "connectSocket ''/s'' ''no such model'' 0
     [\<lparr>bp_exists = False, bp_codex = fst (runs (codex_step (\<lambda>v. [])) [Ck_spawn 1 False, Ck_exit 1 ''Codex app-server exited (1)''] codex_new),
       bp_now = 9000\<rparr>] = None"
proof (rule exit_before_bind_unseen [where print = "\<lambda>v. []"])
  have "spawns_fresh [] [Ck_spawn 1 False, Ck_exit 1 ''Codex app-server exited (1)'']" by simp
  then have "\<exists>es. spawns_fresh [] es \<and> fst (runs (codex_step (\<lambda>v. [])) [Ck_spawn 1 False, Ck_exit 1 ''Codex app-server exited (1)''] codex_new) =
      fst (runs (codex_step (\<lambda>v. [])) es codex_new)" by blast
  then show "list_all (\<lambda>p. \<not> bp_exists p \<and> bp_now p \<le> 0 + 15000 \<and>
      (\<exists>es. spawns_fresh [] es \<and> bp_codex p = fst (runs (codex_step (\<lambda>v. [])) es codex_new)))
      [\<lparr>bp_exists = False, bp_codex = fst (runs (codex_step (\<lambda>v. [])) [Ck_spawn 1 False, Ck_exit 1 ''Codex app-server exited (1)''] codex_new),
        bp_now = 9000\<rparr>]"
    by (simp del: codex_step.simps runs.simps)
qed

text \<open>The wait ends.  When each pass begins at least a tenth of a second after the one before, the loop has
  ended by its hundred and fifty-second pass, with the socket or an exception, and looks at none after.\<close>

theorem bind_wait_ends:
  assumes "\<forall>i<length passes. now + 100 * int i \<le> bp_now (passes ! i)" "151 < length passes"
  shows "connectSocket path detail now passes \<noteq> None \<and>
    connectSocket path detail now (take 152 passes) = connectSocket path detail now passes"
proof -
  have ends: "await_bind path detail d ps \<noteq> None \<and> await_bind path detail d (take (Suc n) ps) = await_bind path detail d ps"
    if "n < length ps" "d < bp_now (ps ! n)" for n ps d
    using that
  proof (induction ps arbitrary: n)
    case (Cons p ps)
    then show ?case by (cases n) simp_all
  qed simp
  have "now + 15000 < bp_now (passes ! 151)" using assms by force
  from ends [OF assms(2) this] show ?thesis by (simp add: connectSocket_def)
qed

theorem bind_wait_ends_witness:
  "connectSocket ''/s'' [] 5 (map (\<lambda>i. \<lparr>bp_exists = False, bp_codex = codex_new, bp_now = 5 + 100 * int i\<rparr>) [0..<200]) \<noteq> None"
proof -
  let ?ps = "map (\<lambda>i. \<lparr>bp_exists = False, bp_codex = codex_new, bp_now = 5 + 100 * int i\<rparr>) [0..<200]"
  have "\<forall>i<length ?ps. 5 + 100 * int i \<le> bp_now (?ps ! i)" "151 < length ?ps" by simp_all
  from bind_wait_ends [OF this] show ?thesis by blast
qed

end
