(* ===== verification/Codex_Server.thy ===== *)
theory Codex_Server
  imports Codex_Start Pane
begin

text \<open>
  The server process of \<open>src/runtime/codex-app-server.ts\<close>: \<open>#start\<close> from the old socket to \<open>initialized\<close>, the
  error output it keeps (UTF-16 code units), the exception of its exit, \<open>#write\<close> and \<open>#notify\<close>, and the
  signals of \<open>stop\<close>.
\<close>

section \<open>The command\<close>

definition executable :: "string option \<Rightarrow> string option \<Rightarrow> string" where
  "executable command which = (case command of Some c \<Rightarrow> c | None \<Rightarrow> (case which of Some w \<Rightarrow> w | None \<Rightarrow> ''codex''))"

text \<open>An empty path is no path.\<close>

definition socket_path :: "string option \<Rightarrow> string option" where
  "socket_path p = (case p of Some [] \<Rightarrow> None | q \<Rightarrow> q)"

definition observeAddress :: "string option \<Rightarrow> string option" where
  "observeAddress p = map_option (\<lambda>q. ''unix://'' @ q) (socket_path p)"

definition listen_address :: "string option \<Rightarrow> string" where
  "listen_address p = (case socket_path p of Some q \<Rightarrow> ''unix://'' @ q | None \<Rightarrow> ''stdio://'')"

section \<open>What the adapter writes\<close>

datatype codex_wire = On_socket json | On_stdin json

definition not_writable :: exn where
  "not_writable = process_exited ''Codex app-server is not writable''"

definition codex_write :: "json \<Rightarrow> bool \<Rightarrow> codex \<Rightarrow> exn + codex_wire" where
  "codex_write message writable cx =
     (if \<not> child_alive cx then Inl not_writable
      else if cx_socket cx then Inr (On_socket message)
      else if \<not> writable then Inl not_writable
      else Inr (On_stdin message))"

definition codex_notify :: "string \<Rightarrow> json option \<Rightarrow> bool \<Rightarrow> codex \<Rightarrow> exn + codex_wire" where
  "codex_notify meth params writable cx =
     codex_write (JObj ([(''method'', JStr meth)] @ (case params of None \<Rightarrow> [] | Some p \<Rightarrow> [(''params'', p)]))) writable cx"

section \<open>The start\<close>

datatype server_effect =
    Se_unlink string
  | Se_spawn string "string list" string
  | Se_read_lines
  | Se_connect string
  | Se_request string json
  | Se_notify codex_wire

definition client_info :: json where
  "client_info = JObj [(''clientInfo'', JObj [(''name'', JStr ''agent_mesh_client''), (''title'', JStr ''Agent Mesh Client''),
     (''version'', JStr ''0.1.0'')]), (''capabilities'', JNull)]"

text \<open>The answers the start gets: of the spawn, of \<open>#connectSocket\<close>, of \<open>initialize\<close>; and the adapter and its
  server's input as \<open>#notify\<close> finds them.\<close>

record server_answers =
  sa_spawn :: "exn + unit"
  sa_connect :: "exn + unit"
  sa_initialize :: "exn + json"
  sa_codex :: codex
  sa_writable :: bool

definition server_commands :: "string \<Rightarrow> string \<Rightarrow> string option \<Rightarrow> server_effect list" where
  "server_commands command workspace p =
     (case socket_path p of None \<Rightarrow> [] | Some q \<Rightarrow> [Se_unlink q]) @
     [Se_spawn command [''app-server'', ''--listen'', listen_address p] workspace]"

definition server_initialize :: "server_answers \<Rightarrow> (exn + unit) \<times> server_effect list" where
  "server_initialize sa =
     (case sa_initialize sa of
        Inl e \<Rightarrow> (Inl e, [Se_request ''initialize'' client_info])
      | Inr v \<Rightarrow>
          (case codex_notify ''initialized'' (Some (JObj [])) (sa_writable sa) (sa_codex sa) of
             Inl e \<Rightarrow> (Inl e, [Se_request ''initialize'' client_info])
           | Inr w \<Rightarrow> (Inr (), [Se_request ''initialize'' client_info, Se_notify w])))"

definition codex_start :: "string \<Rightarrow> string \<Rightarrow> string option \<Rightarrow> server_answers \<Rightarrow> (exn + unit) \<times> server_effect list" where
  "codex_start command workspace p sa =
     (let commands = server_commands command workspace p in
      case sa_spawn sa of
        Inl e \<Rightarrow> (Inl e, commands)
      | Inr u \<Rightarrow>
          (case socket_path p of
             None \<Rightarrow> (let (r, effects) = server_initialize sa in (r, commands @ [Se_read_lines] @ effects))
           | Some q \<Rightarrow>
               (case sa_connect sa of
                  Inl e \<Rightarrow> (Inl e, commands @ [Se_connect q])
                | Inr v \<Rightarrow> (let (r, effects) = server_initialize sa in (r, commands @ [Se_connect q] @ effects)))))"

section \<open>The error output\<close>

definition last16 :: "nat \<Rightarrow> pane \<Rightarrow> pane" where
  "last16 n t = drop (length t - n) t"

definition stderr_data :: "pane \<Rightarrow> pane \<Rightarrow> pane" where
  "stderr_data kept chunk = last16 65536 (kept @ chunk)"

definition stderr_detail :: "pane \<Rightarrow> pane" where
  "stderr_detail kept = (if trim16 kept = [] then [] else ascii16 '': '' @ last16 500 (trim16 kept))"

definition exit_message :: "int option \<Rightarrow> string option \<Rightarrow> pane \<Rightarrow> pane" where
  "exit_message code sig kept =
     ascii16 (''Codex app-server exited ('' @
       (case code of Some n \<Rightarrow> js_int n | None \<Rightarrow> (case sig of Some s \<Rightarrow> s | None \<Rightarrow> ''unknown'')) @ '')'') @
     stderr_detail kept"

text \<open>A server whose exit event is that of one child, with what the adapter kept of its errors.\<close>

definition server_exited :: "(pane \<Rightarrow> string) \<Rightarrow> nat \<Rightarrow> int option \<Rightarrow> string option \<Rightarrow> pane list \<Rightarrow> codex_event" where
  "server_exited enc c code sig chunks' = Ck_exit c (enc (exit_message code sig (fold (\<lambda>chunk kept. stderr_data kept chunk) chunks' [])))"

section \<open>The signals of a stop\<close>

text \<open>The child that \<open>stop\<close> found has an exit code, or none while it runs and when a signal ended it.  The
  race is won by the exit or by the timer of two seconds.\<close>

datatype stop_winner = Won_exit "int option" | Won_timer

definition stop_signals :: "int option option \<Rightarrow> stop_winner \<Rightarrow> string list" where
  "stop_signals child winner =
     (case child of
        None \<Rightarrow> []
      | Some (Some code) \<Rightarrow> []
      | Some None \<Rightarrow>
          ''SIGTERM'' # (case winner of Won_exit (Some code) \<Rightarrow> [] | _ \<Rightarrow> [''SIGKILL'']))"

section \<open>Lemmas\<close>

lemma length_last16: "length (last16 n t) = min n (length t)"
  by (simp add: last16_def)

lemma last16_append: "last16 n (last16 n t @ u) = last16 n (t @ u)"
  by (cases "n \<le> length t") (auto simp: last16_def add.commute)

lemma kept_errors: "fold (\<lambda>chunk kept. stderr_data kept chunk) chunks' (last16 65536 t) = last16 65536 (t @ concat chunks')"
proof (induction chunks' arbitrary: t)
  case (Cons chunk cs)
  from Cons.IH [of "t @ chunk"] show ?case by (simp add: stderr_data_def last16_append)
qed simp

text \<open>A request is entered in the table and then written as \<open>#write\<close> does.\<close>

lemma request_writes:
  "child_alive cx \<Longrightarrow> snd (codex_request i meth params writable cx) =
     (case codex_write (codex_request_json i meth params) writable (fst (codex_request i meth params writable cx)) of
        Inl e \<Rightarrow> [Cx_throw i e] | Inr (On_socket v) \<Rightarrow> [Cx_write v] | Inr (On_stdin v) \<Rightarrow> [Cx_write v])"
  by (auto simp: codex_request_def codex_write_def not_writable_def child_alive_def Let_def split: option.split)

section \<open>Properties\<close>

text \<open>The error of an exit tells the end of the error output.  However the output came in, the message carries the last
  five hundred characters of it, of the last 65536 and without the white space around them, and nothing
  more: it is at most 502 characters longer than the text before them.\<close>

theorem exit_message_tail:
  "\<exists>detail. server_exited enc c code sig chunks' =
      Ck_exit c (enc (ascii16 (''Codex app-server exited ('' @
       (case code of Some n \<Rightarrow> js_int n | None \<Rightarrow> (case sig of Some s \<Rightarrow> s | None \<Rightarrow> ''unknown'')) @ '')'') @ detail)) \<and>
    length detail \<le> 502 \<and> detail = stderr_detail (last16 65536 (concat chunks'))"
  using kept_errors [of chunks' "[]"]
  by (simp add: server_exited_def exit_message_def stderr_detail_def length_last16 ascii16_def last16_def [of _ "[]"])

text \<open>A server is started on the address that the terminal attaches to.  With a socket path the old socket is removed before
  the server is spawned, the server listens at \<open>observeAddress\<close> and is spoken to over the socket; without one it listens on
  its standard streams and there is nothing to observe.  In either case no request but \<open>initialize\<close> is made, and the
  notification is the last thing a start does.\<close>

theorem start_listens_where_observed:
  assumes "codex_start command workspace p sa = (Inr (), effects)"
  shows "\<exists>w. effects =
      (case observeAddress p of
         Some address \<Rightarrow>
           [Se_unlink (drop 7 address), Se_spawn command [''app-server'', ''--listen'', address] workspace, Se_connect (drop 7 address)]
       | None \<Rightarrow> [Se_spawn command [''app-server'', ''--listen'', ''stdio://''] workspace, Se_read_lines]) @
      [Se_request ''initialize'' client_info, Se_notify w]"
  using assms
  by (cases "socket_path p")
    (auto simp: codex_start_def server_commands_def server_initialize_def observeAddress_def listen_address_def Let_def split: sum.splits)

theorem start_listens_where_observed_witness:
  "\<exists>w. snd (codex_start ''codex'' ''/w'' (Some ''/s'')
      \<lparr>sa_spawn = Inr (), sa_connect = Inr (), sa_initialize = Inr JNull,
       sa_codex = codex_new\<lparr>cx_child := Some 1, cx_socket := True\<rparr>, sa_writable = True\<rparr>) =
    [Se_unlink ''/s'', Se_spawn ''codex'' [''app-server'', ''--listen'', ''unix:///s''] ''/w'', Se_connect ''/s'',
     Se_request ''initialize'' client_info, Se_notify w]"
proof -
  let ?r = "codex_start ''codex'' ''/w'' (Some ''/s'')
      \<lparr>sa_spawn = Inr (), sa_connect = Inr (), sa_initialize = Inr JNull,
       sa_codex = codex_new\<lparr>cx_child := Some 1, cx_socket := True\<rparr>, sa_writable = True\<rparr>"
  have "?r = (Inr (), snd ?r)"
    by (simp add: codex_start_def socket_path_def server_initialize_def codex_notify_def codex_write_def child_alive_def codex_new_def)
  from start_listens_where_observed [OF this] show ?thesis by (simp add: observeAddress_def socket_path_def)
qed

text \<open>A server that a signal ends is signalled again.  The exit code of a child that died of a signal is \<open>null\<close>, as
  that of one that runs, so after the SIGTERM of \<open>stop\<close> has ended it the SIGKILL is sent all the same.\<close>

theorem stop_kills_the_terminated:
  "stop_signals (Some None) (Won_exit None) = [''SIGTERM'', ''SIGKILL''] \<and>
   stop_signals (Some None) (Won_exit (Some 0)) = [''SIGTERM''] \<and> stop_signals (Some None) Won_timer = [''SIGTERM'', ''SIGKILL'']"
  by (simp add: stop_signals_def)

end
