(* ===== verification/Antigravity.thy ===== *)
theory Antigravity
  imports Codex
begin

text \<open>
  \<open>src/runtime/antigravity.ts\<close>: a turn of the Antigravity runtime is one run of a command line
  program.  A step is what happens to the child process: a chunk of its output, its error, its exit, the
  abort of the turn, a call of \<open>stop\<close>, the timer of \<open>#terminate\<close>; signals are outputs.  Which signals the
  operating system accepts, the decoding and the parsing of the output and \<open>safeStderr\<close>, which masks the
  tail of the error text, are arguments.
\<close>

section \<open>The command\<close>

definition MAX_STDOUT :: nat where
  "MAX_STDOUT = 16 * 1024 * 1024"

definition MAX_STDERR :: nat where
  "MAX_STDERR = 1024 * 1024"

record agy_config = codex_config +
  cfg_command :: "string option"
  cfg_timeout_seconds :: nat

definition agy_promptFor :: "invocation \<Rightarrow> string" where
  "agy_promptFor iv =
     join_lines [''[AGENT_MESH_CONTEXT '' @ dash @ '' adapter supplied]'', ''source_kind: '' @ iv_source iv,
       ''sender: '' @ (case jstr (jfield (iv_correlation iv) ''from'') of Some s \<Rightarrow> s | None \<Rightarrow> ''external-channel-user''),
       ''reply_policy: final response is routed automatically; do not send the same reply with MCP'',
       [], ''[USER_MESSAGE '' @ dash @ '' untrusted content begins]'', iv_content iv,
       ''[USER_MESSAGE '' @ dash @ '' untrusted content ends]'']"

text \<open>An option with its operand, left out when the operand is absent or empty.\<close>

definition flag_with :: "string \<Rightarrow> string option \<Rightarrow> string list" where
  "flag_with f v = (case v of None \<Rightarrow> [] | Some [] \<Rightarrow> [] | Some x \<Rightarrow> [f, x])"

definition agy_profile_flags :: "'a agy_config_scheme \<Rightarrow> exn + string list" where
  "agy_profile_flags c =
     (if cfg_profile c = ''sandboxed'' then Inr [''--sandbox'', ''--mode'', ''plan'']
      else if cfg_profile c = ''workspace'' then Inr [''--mode'', ''accept-edits'']
      else if \<not> cfg_acknowledged c
      then Inl (RuntimeAdapterError ''SECURITY_ACK_REQUIRED'' ''unrestricted runtime requires acknowledged_risk=true'')
      else Inr [''--dangerously-skip-permissions''])"

definition agy_args :: "'a agy_config_scheme \<Rightarrow> invocation \<Rightarrow> exn + string list" where
  "agy_args c iv =
     sbind (agy_profile_flags c) (\<lambda>flags.
       Inr ([''--print'', agy_promptFor iv, ''--output-format'', ''json'', ''--print-timeout'',
           nat_digits (cfg_timeout_seconds c) @ ''s'', ''--disable-slash-commands''] @
         flag_with ''--conversation'' (iv_conversation iv) @ flag_with ''--model'' (cfg_model c) @ flags))"

section \<open>The child process\<close>

text \<open>How the child ended for \<open>run\<close>: by its error, or by its exit with a code or a signal.\<close>

datatype agy_end = Ended_error exn | Ended_exit "int option" "string option"

record agy_child =
  ag_pid :: "nat option"
  ag_stdout :: string
  ag_stderr :: string
  ag_overflow :: "string option"
  ag_exitCode :: "int option"
  ag_dead :: bool
  ag_killed :: bool
  ag_ended :: "agy_end option"
  ag_aborted :: "exn option option"
  ag_timers :: nat

definition agy_spawned :: "nat option \<Rightarrow> agy_child" where
  "agy_spawned pid = \<lparr>ag_pid = pid, ag_stdout = [], ag_stderr = [], ag_overflow = None, ag_exitCode = None,
     ag_dead = False, ag_killed = False, ag_ended = None, ag_aborted = None, ag_timers = 0\<rparr>"

datatype agy_signal = To_group nat string | To_child string

text \<open>Whether the platform has process groups, and what \<open>process.kill\<close> of the group and \<open>child.kill\<close> do.\<close>

record kill_answers =
  ka_groups :: bool
  ka_group :: bool
  ka_child :: bool

definition own_group :: "kill_answers \<Rightarrow> agy_child \<Rightarrow> nat option" where
  "own_group k ch = (case ag_pid ch of Some p \<Rightarrow> (if ka_groups k \<and> 1 < p then Some p else None) | None \<Rightarrow> None)"

text \<open>\<open>child.killed\<close> is set by \<open>child.kill\<close> alone.\<close>

definition send_signal :: "kill_answers \<Rightarrow> string \<Rightarrow> agy_child \<Rightarrow> agy_child \<times> agy_signal list" where
  "send_signal k sig ch =
     (let direct = (ch\<lparr>ag_killed := ag_killed ch \<or> ka_child k\<rparr>, [To_child sig]) in
      case own_group k ch of
        None \<Rightarrow> direct
      | Some p \<Rightarrow> if ka_group k then (ch, [To_group p sig]) else (fst direct, To_group p sig # snd direct))"

definition agy_terminate :: "kill_answers \<Rightarrow> agy_child \<Rightarrow> agy_child \<times> agy_signal list" where
  "agy_terminate k ch =
     (if ag_exitCode ch \<noteq> None \<or> ag_killed ch then (ch, [])
      else let (ch', sent) = send_signal k ''SIGTERM'' ch in (ch'\<lparr>ag_timers := ag_timers ch' + 1\<rparr>, sent))"

definition agy_kill_timer :: "kill_answers \<Rightarrow> agy_child \<Rightarrow> agy_child \<times> agy_signal list" where
  "agy_kill_timer k ch =
     (if ag_timers ch = 0 then (ch, [])
      else (let ch' = ch\<lparr>ag_timers := ag_timers ch - 1\<rparr> in
            if ag_exitCode ch = None then send_signal k ''SIGKILL'' ch' else (ch', [])))"

definition agy_stdout_data :: "kill_answers \<Rightarrow> string \<Rightarrow> agy_child \<Rightarrow> agy_child \<times> agy_signal list" where
  "agy_stdout_data k chunk ch =
     (if ag_overflow ch \<noteq> None then (ch, [])
      else (let ch' = ch\<lparr>ag_stdout := ag_stdout ch @ chunk\<rparr> in
            if MAX_STDOUT < length (ag_stdout ch') then agy_terminate k (ch'\<lparr>ag_overflow := Some ''stdout''\<rparr>) else (ch', [])))"

definition agy_stderr_data :: "kill_answers \<Rightarrow> string \<Rightarrow> agy_child \<Rightarrow> agy_child \<times> agy_signal list" where
  "agy_stderr_data k chunk ch =
     (if ag_overflow ch \<noteq> None then (ch, [])
      else (let ch' = ch\<lparr>ag_stderr := ag_stderr ch @ chunk\<rparr> in
            if MAX_STDERR < length (ag_stderr ch') then agy_terminate k (ch'\<lparr>ag_overflow := Some ''stderr''\<rparr>) else (ch', [])))"

datatype agy_event =
    Ag_stdout string
  | Ag_stderr string
  | Ag_error exn
  | Ag_exit "int option" "string option"
  | Ag_abort "exn option"
  | Ag_stop
  | Ag_kill_timer

text \<open>The first error or exit settles the promise; from then on the turn does not listen to its abort and
  \<open>stop\<close> does not know the child.\<close>

definition agy_settle :: "agy_end \<Rightarrow> agy_child \<Rightarrow> agy_child" where
  "agy_settle r ch = ch\<lparr>ag_ended := (case ag_ended ch of None \<Rightarrow> Some r | e \<Rightarrow> e)\<rparr>"

fun agy_step :: "kill_answers \<Rightarrow> agy_event \<Rightarrow> agy_child \<Rightarrow> agy_child \<times> agy_signal list" where
  "agy_step k (Ag_stdout chunk) ch = agy_stdout_data k chunk ch"
| "agy_step k (Ag_stderr chunk) ch = agy_stderr_data k chunk ch"
| "agy_step k (Ag_error e) ch = (agy_settle (Ended_error e) ch, [])"
| "agy_step k (Ag_exit code sig) ch =
     (agy_settle (Ended_exit code sig) (ch\<lparr>ag_exitCode := code, ag_dead := True\<rparr>), [])"
| "agy_step k (Ag_abort reason) ch =
     (if ag_ended ch \<noteq> None \<or> ag_aborted ch \<noteq> None then (ch, [])
      else agy_terminate k (ch\<lparr>ag_aborted := Some reason\<rparr>))"
| "agy_step k Ag_stop ch = (if ag_ended ch \<noteq> None then (ch, []) else agy_terminate k ch)"
| "agy_step k Ag_kill_timer ch = agy_kill_timer k ch"

fun agy_run :: "(kill_answers \<times> agy_event) list \<Rightarrow> agy_child \<Rightarrow> agy_child \<times> agy_signal list" where
  "agy_run [] ch = (ch, [])"
| "agy_run ((k, ev) # evs) ch =
     (let (ch', sent) = agy_step k ev ch; (ch'', rest) = agy_run evs ch' in (ch'', sent @ rest))"

section \<open>The result of the turn\<close>

record agy_text =
  tx_parse :: "string \<Rightarrow> string + json"
  tx_safeStderr :: "string \<Rightarrow> string"

definition validateEnvelope :: "json \<Rightarrow> exn + string \<times> string \<times> string" where
  "validateEnvelope v =
     (if js_object (Some v) = None then Inl (RuntimeAdapterError ''MALFORMED_OUTPUT'' ''Antigravity output is not an object'')
      else case (jstr (jfield v ''conversation_id''), jstr (jfield v ''status''), jstr (jfield v ''response'')) of
        (Some c, Some s, Some r) \<Rightarrow> Inr (c, s, r)
      | _ \<Rightarrow> Inl (RuntimeAdapterError ''MALFORMED_OUTPUT''
          ''Antigravity output is missing conversation_id, status or response''))"

definition exit_name :: "int option \<Rightarrow> string option \<Rightarrow> string" where
  "exit_name code sig = (case code of Some n \<Rightarrow> js_int n | None \<Rightarrow> (case sig of Some s \<Rightarrow> s | None \<Rightarrow> ''unknown''))"

text \<open>What the envelope says: the response, and the conversation the next turn continues.\<close>

definition agy_envelope :: "agy_text \<Rightarrow> string \<Rightarrow> exn + string \<times> string" where
  "agy_envelope tx out =
     (case tx_parse tx out of
        Inl msg \<Rightarrow> Inl (RuntimeAdapterError ''MALFORMED_OUTPUT'' (''Antigravity returned invalid JSON: '' @ msg))
      | Inr v \<Rightarrow>
          sbind (validateEnvelope v) (\<lambda>(conversation, status, response).
            if status \<noteq> ''SUCCESS''
            then Inl (RuntimeAdapterError ''CLI_STATUS_ERROR'' (''Antigravity returned status '' @ status))
            else Inr (response, conversation)))"

text \<open>What \<open>run\<close> does when the promise of the exit is settled, in the state the child has then.\<close>

definition agy_result :: "agy_text \<Rightarrow> agy_child \<Rightarrow> (exn + string \<times> string) option" where
  "agy_result tx ch =
     map_option (\<lambda>r.
       case r of
         Ended_error e \<Rightarrow> Inl e
       | Ended_exit code sig \<Rightarrow>
           (case ag_aborted ch of
              Some reason \<Rightarrow>
                Inl (case reason of Some e \<Rightarrow> e | None \<Rightarrow> RuntimeAdapterError ''CANCELLED'' ''Antigravity turn cancelled'')
            | None \<Rightarrow>
                (case ag_overflow ch of
                   Some stream \<Rightarrow> Inl (RuntimeAdapterError ''OUTPUT_LIMIT_EXCEEDED'' (''Antigravity '' @ stream @ '' exceeded its limit''))
                 | None \<Rightarrow>
                     if code \<noteq> Some 0
                     then Inl (RuntimeAdapterError ''PROCESS_EXITED''
                       (''Antigravity exited '' @ exit_name code sig @ '': '' @ tx_safeStderr tx (ag_stderr ch)))
                     else agy_envelope tx (ag_stdout ch)))) (ag_ended ch)"

text \<open>The turn: \<open>run\<close> throws before the child is started, or returns at the first event that settles the
  promise; \<open>None\<close> is a turn that has not returned.\<close>

fun agy_until_end :: "agy_text \<Rightarrow> (kill_answers \<times> agy_event) list \<Rightarrow> agy_child \<Rightarrow> (exn + string \<times> string) option" where
  "agy_until_end tx [] ch = agy_result tx ch"
| "agy_until_end tx ((k, ev) # evs) ch =
     (case agy_result tx ch of Some r \<Rightarrow> Some r | None \<Rightarrow> agy_until_end tx evs (fst (agy_step k ev ch)))"

definition agy_turn :: "'a agy_config_scheme \<Rightarrow> agy_text \<Rightarrow> invocation \<Rightarrow> nat option \<Rightarrow> (kill_answers \<times> agy_event) list \<Rightarrow>
  (exn + string \<times> string) option" where
  "agy_turn c tx iv pid evs =
     (case agy_args c iv of Inl e \<Rightarrow> Some (Inl e) | Inr args \<Rightarrow> agy_until_end tx evs (agy_spawned pid))"

section \<open>What a run keeps\<close>

lemma own_group_simps [simp]:
  "own_group k (ch\<lparr>ag_overflow := v\<rparr>) = own_group k ch" "own_group k (ch\<lparr>ag_timers := n\<rparr>) = own_group k ch"
  "own_group k (ch\<lparr>ag_aborted := a\<rparr>) = own_group k ch" "own_group k (ch\<lparr>ag_stdout := x\<rparr>) = own_group k ch"
  by (simp_all add: own_group_def)

text \<open>Signals change nothing that a result is made of.\<close>

definition same_result :: "agy_child \<Rightarrow> agy_child \<Rightarrow> bool" where
  "same_result ch ch' =
     (ag_stdout ch' = ag_stdout ch \<and> ag_stderr ch' = ag_stderr ch \<and> ag_overflow ch' = ag_overflow ch \<and>
      ag_exitCode ch' = ag_exitCode ch \<and> ag_ended ch' = ag_ended ch \<and> ag_aborted ch' = ag_aborted ch)"

lemma send_signal_same: "same_result ch (fst (send_signal k sig ch))"
  by (simp add: same_result_def send_signal_def Let_def split: option.split)

lemma terminate_same: "same_result ch (fst (agy_terminate k ch))"
  using send_signal_same [of ch k "''SIGTERM''"]
  by (simp add: same_result_def agy_terminate_def Let_def split_beta)

lemma kill_timer_same: "same_result ch (fst (agy_kill_timer k ch))"
  using send_signal_same [of "ch\<lparr>ag_timers := ag_timers ch - 1\<rparr>" k "''SIGKILL''"]
  by (simp add: same_result_def agy_kill_timer_def Let_def)

lemma terminate_fields [simp]:
  "ag_stdout (fst (agy_terminate k ch)) = ag_stdout ch" "ag_stderr (fst (agy_terminate k ch)) = ag_stderr ch"
  "ag_overflow (fst (agy_terminate k ch)) = ag_overflow ch" "ag_exitCode (fst (agy_terminate k ch)) = ag_exitCode ch"
  "ag_ended (fst (agy_terminate k ch)) = ag_ended ch" "ag_aborted (fst (agy_terminate k ch)) = ag_aborted ch"
  using terminate_same [of ch k] by (simp_all add: same_result_def)

lemma kill_timer_fields [simp]:
  "ag_stdout (fst (agy_kill_timer k ch)) = ag_stdout ch" "ag_stderr (fst (agy_kill_timer k ch)) = ag_stderr ch"
  "ag_overflow (fst (agy_kill_timer k ch)) = ag_overflow ch" "ag_exitCode (fst (agy_kill_timer k ch)) = ag_exitCode ch"
  "ag_ended (fst (agy_kill_timer k ch)) = ag_ended ch" "ag_aborted (fst (agy_kill_timer k ch)) = ag_aborted ch"
  using kill_timer_same [of ch k] by (simp_all add: same_result_def)

text \<open>What the program wrote, and the events that decide the turn.\<close>

fun stdout_chunk :: "agy_event \<Rightarrow> string" where
  "stdout_chunk (Ag_stdout s) = s"
| "stdout_chunk _ = []"

fun stderr_chunk :: "agy_event \<Rightarrow> string" where
  "stderr_chunk (Ag_stderr s) = s"
| "stderr_chunk _ = []"

definition stdout_of :: "('k \<times> agy_event) list \<Rightarrow> string" where
  "stdout_of evs = concat (map (\<lambda>(k, e). stdout_chunk e) evs)"

definition stderr_of :: "('k \<times> agy_event) list \<Rightarrow> string" where
  "stderr_of evs = concat (map (\<lambda>(k, e). stderr_chunk e) evs)"

fun ends_turn :: "agy_event \<Rightarrow> bool" where
  "ends_turn (Ag_error e) = True"
| "ends_turn (Ag_exit code sig) = True"
| "ends_turn _ = False"

fun decides :: "agy_event \<Rightarrow> bool" where
  "decides (Ag_abort r) = True"
| "decides e = ends_turn e"

lemma output_of_simps [simp]:
  "stdout_of [] = []" "stdout_of ((k, e) # evs) = stdout_chunk e @ stdout_of evs"
  "stderr_of [] = []" "stderr_of ((k, e) # evs) = stderr_chunk e @ stderr_of evs"
  by (simp_all add: stdout_of_def stderr_of_def)

lemma fst_agy_run_Cons: "fst (agy_run ((k, e) # evs) ch) = fst (agy_run evs (fst (agy_step k e ch)))"
  by (simp add: Let_def split_beta)

declare agy_run.simps(2) [simp del]

lemma step_ended: "\<not> ends_turn e \<Longrightarrow> ag_ended (fst (agy_step k e ch)) = ag_ended ch"
  by (cases e) (simp_all add: agy_stdout_data_def agy_stderr_data_def Let_def)

lemma step_aborted: "\<not> decides e \<Longrightarrow> ag_aborted (fst (agy_step k e ch)) = ag_aborted ch"
  by (cases e) (simp_all add: agy_stdout_data_def agy_stderr_data_def Let_def)

lemma decides_ends: "\<not> decides e \<Longrightarrow> \<not> ends_turn e"
  by (cases e) simp_all

lemma run_ended: "list_all (\<lambda>(k, e). \<not> ends_turn e) evs \<Longrightarrow> ag_ended (fst (agy_run evs ch)) = ag_ended ch"
  by (induction evs arbitrary: ch) (auto simp: fst_agy_run_Cons step_ended)

lemma result_None [simp]: "ag_ended ch = None \<Longrightarrow> agy_result tx ch = None"
  by (simp add: agy_result_def)

lemma until_end_running:
  assumes "list_all (\<lambda>(k, e). \<not> ends_turn e) pre" "ag_ended ch = None"
  shows "agy_until_end tx (pre @ evs) ch = agy_until_end tx evs (fst (agy_run pre ch))"
  using assms
  by (induction pre arbitrary: ch) (auto simp: fst_agy_run_Cons step_ended split: option.split)

lemma until_end_at:
  assumes "list_all (\<lambda>(k, e). \<not> ends_turn e) pre" "ag_ended ch = None" "ends_turn e"
  shows "agy_until_end tx (pre @ (k, e) # rest) ch = agy_result tx (fst (agy_step k e (fst (agy_run pre ch))))"
proof -
  let ?ch = "fst (agy_run pre ch)"
  have none: "ag_ended ?ch = None" using run_ended [OF assms(1)] assms(2) by simp
  then have some: "ag_ended (fst (agy_step k e ?ch)) \<noteq> None"
    using assms(3) by (cases e) (simp_all add: agy_settle_def)
  then have "agy_until_end tx rest (fst (agy_step k e ?ch)) = agy_result tx (fst (agy_step k e ?ch))"
    by (cases rest) (auto simp: agy_result_def)
  moreover have "agy_result tx ?ch = None" using none by simp
  ultimately show ?thesis using until_end_running [OF assms(1,2)] by simp
qed

lemma split_at_end:
  obtains "list_all (\<lambda>(k, e). \<not> ends_turn e) evs"
  | pre k e rest where "evs = pre @ (k, e) # rest" "list_all (\<lambda>(k, e). \<not> ends_turn e) pre" "ends_turn e"
proof (cases "\<exists>x\<in>set evs. ends_turn (snd x)")
  case True
  then obtain pre x rest where "evs = pre @ x # rest" "ends_turn (snd x)" "\<forall>y\<in>set pre. \<not> ends_turn (snd y)"
    using split_list_first_prop [of evs "\<lambda>x. ends_turn (snd x)"] by blast
  then show ?thesis using that(2) [of pre "fst x" "snd x" rest] by (simp add: list_all_iff split_beta)
next
  case False
  then show ?thesis using that(1) by (simp add: list_all_iff split_beta)
qed

section \<open>The buffers\<close>

definition within_limits :: "string \<Rightarrow> string \<Rightarrow> bool" where
  "within_limits out err = (length out \<le> MAX_STDOUT \<and> length err \<le> MAX_STDERR)"

lemma overflow_stays: "ag_overflow ch \<noteq> None \<Longrightarrow> ag_overflow (fst (agy_run evs ch)) = ag_overflow ch"
proof (induction evs arbitrary: ch)
  case (Cons x evs)
  obtain k e where x: "x = (k, e)" by (cases x)
  from Cons.prems have "ag_overflow (fst (agy_step k e ch)) = ag_overflow ch"
    by (cases e) (auto simp: agy_stdout_data_def agy_stderr_data_def agy_settle_def)
  with Cons show ?case by (simp add: x fst_agy_run_Cons)
qed simp

lemma step_buffers:
  assumes "ag_overflow ch = None" "within_limits (ag_stdout ch) (ag_stderr ch)"
  shows "(let ch' = fst (agy_step k e ch) in
    ag_stdout ch' = ag_stdout ch @ stdout_chunk e \<and> ag_stderr ch' = ag_stderr ch @ stderr_chunk e \<and>
    (ag_overflow ch' = None \<longleftrightarrow> within_limits (ag_stdout ch') (ag_stderr ch')))"
  using assms
  by (cases e) (auto simp: agy_stdout_data_def agy_stderr_data_def agy_settle_def within_limits_def Let_def)

lemma run_buffers:
  assumes "ag_overflow ch = None" "within_limits (ag_stdout ch) (ag_stderr ch)"
  shows "(let ch' = fst (agy_run evs ch); out = ag_stdout ch @ stdout_of evs; err = ag_stderr ch @ stderr_of evs in
    (ag_overflow ch' = None \<longleftrightarrow> within_limits out err) \<and>
    (if ag_overflow ch' = None then ag_stdout ch' = out \<and> ag_stderr ch' = err else True))"
  using assms
proof (induction evs arbitrary: ch)
  case Nil
  then show ?case by simp
next
  case (Cons x evs)
  obtain k e where x: "x = (k, e)" by (cases x)
  let ?ch = "fst (agy_step k e ch)"
  note st = step_buffers [OF Cons.prems, of k e, unfolded Let_def]
  show ?case
  proof (cases "ag_overflow ?ch = None")
    case True
    with st have "within_limits (ag_stdout ?ch) (ag_stderr ?ch)" by blast
    from Cons.IH [OF True this] show ?thesis
      unfolding x fst_agy_run_Cons Let_def conjunct1 [OF st] conjunct1 [OF conjunct2 [OF st]] by simp
  next
    case False
    then have "ag_overflow (fst (agy_run evs ?ch)) \<noteq> None" using overflow_stays [OF False] by simp
    moreover have "\<not> within_limits (ag_stdout ch @ stdout_of (x # evs)) (ag_stderr ch @ stderr_of (x # evs))"
      using False st by (auto simp: x within_limits_def)
    ultimately show ?thesis by (auto simp: x fst_agy_run_Cons Let_def)
  qed
qed

section \<open>Properties\<close>

lemma run_not_aborted: "list_all (\<lambda>(k, e). \<not> decides e) evs \<Longrightarrow> ag_aborted (fst (agy_run evs ch)) = ag_aborted ch"
  by (induction evs arbitrary: ch) (auto simp: fst_agy_run_Cons step_aborted)

lemma aborted_stays: "ag_aborted ch \<noteq> None \<Longrightarrow> ag_aborted (fst (agy_run evs ch)) \<noteq> None"
proof (induction evs arbitrary: ch)
  case (Cons x evs)
  obtain k e where x: "x = (k, e)" by (cases x)
  from Cons.prems have "ag_aborted (fst (agy_step k e ch)) \<noteq> None"
    by (cases e) (auto simp: agy_stdout_data_def agy_stderr_data_def agy_settle_def Let_def)
  with Cons.IH show ?case by (simp add: x fst_agy_run_Cons)
qed simp

lemma run_aborted_iff:
  assumes "list_all (\<lambda>(k, e). \<not> ends_turn e) evs" "ag_ended ch = None" "ag_aborted ch = None"
  shows "ag_aborted (fst (agy_run evs ch)) = None \<longleftrightarrow> list_all (\<lambda>(k, e). \<not> decides e) evs"
  using assms
proof (induction evs arbitrary: ch)
  case (Cons x evs)
  obtain k e where x: "x = (k, e)" by (cases x)
  have end': "ag_ended (fst (agy_step k e ch)) = None" using Cons.prems by (simp add: x step_ended)
  show ?case
  proof (cases "decides e")
    case True
    with Cons.prems x have "ag_aborted (fst (agy_step k e ch)) \<noteq> None" by (cases e) simp_all
    from aborted_stays [OF this] True show ?thesis by (simp add: x fst_agy_run_Cons)
  next
    case False
    with Cons.prems end' show ?thesis using Cons.IH [of "fst (agy_step k e ch)"]
      by (simp add: x fst_agy_run_Cons step_aborted)
  qed
qed simp

text \<open>The result of a turn that its exit decides.\<close>

lemma until_exit:
  assumes "list_all (\<lambda>(k, e). \<not> ends_turn e) pre"
  shows "agy_until_end tx (pre @ (k, Ag_exit code sig) # rest) (agy_spawned pid) = Some (Inr r) \<longleftrightarrow>
    code = Some 0 \<and> list_all (\<lambda>(k, e). \<not> decides e) pre \<and> within_limits (stdout_of pre) (stderr_of pre) \<and>
    agy_envelope tx (stdout_of pre) = Inr r"
proof -
  let ?s = "agy_spawned pid" and ?ch = "fst (agy_run pre (agy_spawned pid))"
  have s: "ag_ended ?s = None" "ag_aborted ?s = None" "ag_overflow ?s = None" "ag_stdout ?s = []" "ag_stderr ?s = []"
    "within_limits (ag_stdout ?s) (ag_stderr ?s)"
    by (simp_all add: agy_spawned_def within_limits_def)
  have ended: "ag_ended ?ch = None" using run_ended [OF assms] s by simp
  note buf = run_buffers [OF s(3,6), of pre, unfolded Let_def s(4,5) append_Nil]
  from until_end_at [OF assms s(1), of "Ag_exit code sig"] ended
  have u: "agy_until_end tx (pre @ (k, Ag_exit code sig) # rest) ?s =
      agy_result tx (agy_settle (Ended_exit code sig) (?ch\<lparr>ag_exitCode := code, ag_dead := True\<rparr>))"
    by simp
  from run_aborted_iff [OF assms s(1,2)] buf ended show ?thesis
    by (cases "ag_aborted ?ch"; cases "ag_overflow ?ch")
      (auto simp: u agy_result_def agy_settle_def split: option.splits)
qed

text \<open>C15: a turn of Antigravity succeeds in one way only: its security profile is allowed, the program exits
  with code zero before it fails and before the turn is aborted, it wrote no more than the limits by
  then, and what it had written by then is an envelope that reports success.\<close>

theorem agy_turn_succeeds_iff:
  "agy_turn c tx iv pid evs = Some (Inr r) \<longleftrightarrow>
    (\<exists>flags. agy_profile_flags c = Inr flags) \<and>
    (\<exists>pre k sig rest. evs = pre @ (k, Ag_exit (Some 0) sig) # rest \<and> list_all (\<lambda>(k, e). \<not> decides e) pre \<and>
       length (stdout_of pre) \<le> MAX_STDOUT \<and> length (stderr_of pre) \<le> MAX_STDERR \<and>
       agy_envelope tx (stdout_of pre) = Inr r)"
proof (cases "agy_profile_flags c")
  case (Inl e)
  then show ?thesis by (simp add: agy_turn_def agy_args_def)
next
  case (Inr flags)
  then have t: "agy_turn c tx iv pid evs = agy_until_end tx evs (agy_spawned pid)"
    by (simp add: agy_turn_def agy_args_def)
  have ends: "list_all (\<lambda>(k, e). \<not> ends_turn e) pre" if "list_all (\<lambda>(k, e). \<not> decides e) pre" for pre :: "('k \<times> agy_event) list"
    using that by (auto simp: list_all_iff dest: decides_ends)
  show ?thesis (is "_ \<longleftrightarrow> ?r")
  proof
    assume a: "agy_turn c tx iv pid evs = Some (Inr r)"
    show ?r
    proof (cases evs rule: split_at_end)
      case 1
      with a run_ended [OF 1, of "agy_spawned pid"] show ?thesis
        using until_end_running [OF 1, of "agy_spawned pid" tx "[]"] by (simp add: t agy_spawned_def)
    next
      case (2 pre k e rest)
      from a have u: "agy_until_end tx (pre @ (k, e) # rest) (agy_spawned pid) = Some (Inr r)"
        using t by (simp flip: 2(1))
      have "ag_ended (agy_spawned pid) = None" by (simp add: agy_spawned_def)
      from until_end_at [OF 2(2) this 2(3)] u obtain code sig where e: "e = Ag_exit code sig"
        using run_ended [OF 2(2), of "agy_spawned pid"]
        2(3) by (cases e) (auto simp: agy_result_def agy_settle_def agy_spawned_def)
      from u until_exit [OF 2(2)] Inr show ?thesis by (auto simp: e 2(1) within_limits_def)
    qed
  next
    assume ?r
    then obtain pre k sig rest where evs: "evs = pre @ (k, Ag_exit (Some 0) sig) # rest" and
      pre: "list_all (\<lambda>(k, e). \<not> decides e) pre" "length (stdout_of pre) \<le> MAX_STDOUT"
        "length (stderr_of pre) \<le> MAX_STDERR" "agy_envelope tx (stdout_of pre) = Inr r"
      by blast
    with until_exit [OF ends [OF pre(1)], of tx k "Some 0" sig rest pid r]
    show "agy_turn c tx iv pid evs = Some (Inr r)" unfolding t unfolding evs by (simp add: within_limits_def)
  qed
qed

text \<open>What the program writes is buffered up to its limit and one chunk more, however much it writes.\<close>

theorem agy_output_bounded:
  assumes "list_all (\<lambda>(k, e). length (stdout_chunk e) \<le> n \<and> length (stderr_chunk e) \<le> n) evs"
  shows "(let ch = fst (agy_run evs (agy_spawned pid)) in
    length (ag_stdout ch) \<le> MAX_STDOUT + n \<and> length (ag_stderr ch) \<le> MAX_STDERR + n)"
proof -
  have "length (ag_stdout (fst (agy_run evs ch))) \<le> MAX_STDOUT + n \<and> length (ag_stderr (fst (agy_run evs ch))) \<le> MAX_STDERR + n"
    if "length (ag_stdout ch) \<le> MAX_STDOUT + n" "length (ag_stderr ch) \<le> MAX_STDERR + n"
      "ag_overflow ch = None \<Longrightarrow> within_limits (ag_stdout ch) (ag_stderr ch)" for ch
    using assms that
  proof (induction evs arbitrary: ch)
    case (Cons x evs)
    obtain k e where x: "x = (k, e)" by (cases x)
    let ?ch = "fst (agy_step k e ch)"
    have step: "length (ag_stdout ?ch) \<le> MAX_STDOUT + n \<and> length (ag_stderr ?ch) \<le> MAX_STDERR + n \<and>
        (ag_overflow ?ch = None \<longrightarrow> within_limits (ag_stdout ?ch) (ag_stderr ?ch))"
      using Cons.prems
      by (cases e) (auto simp: x agy_stdout_data_def agy_stderr_data_def agy_settle_def within_limits_def Let_def)
    from Cons.prems(1) have "list_all (\<lambda>(k, e). length (stdout_chunk e) \<le> n \<and> length (stderr_chunk e) \<le> n) evs" by simp
    from Cons.IH [OF this] step show ?case by (simp add: x fst_agy_run_Cons)
  qed simp
  from this [of "agy_spawned pid"] show ?thesis by (simp add: agy_spawned_def within_limits_def)
qed

theorem agy_output_bounded_witness:
  "(let ch = fst (agy_run [(\<lparr>ka_groups = True, ka_group = True, ka_child = True\<rparr>, Ag_stdout ''ab'')] (agy_spawned (Some 7))) in
    length (ag_stdout ch) \<le> MAX_STDOUT + 2 \<and> length (ag_stderr ch) \<le> MAX_STDERR + 2)"
  by (rule agy_output_bounded) simp

text \<open>A program that ended by a signal is killed once more.  Its exit code is null then, which the timer
  takes for a program that still runs, so two seconds after its end its process group, whose number may
  be in use again, gets a \<open>SIGKILL\<close>; a program that exits with a code is left alone.\<close>

theorem dead_child_killed_again:
  assumes "ag_pid ch = Some p" "1 < p" "ka_groups k" "ka_group k"
    and "ag_exitCode ch = None" "\<not> ag_killed ch" "ag_overflow ch = None" "ag_ended ch = None" "ag_aborted ch = None"
  shows "snd (agy_run [(k, Ag_abort reason), (k, Ag_exit code sig), (k, Ag_kill_timer)] ch) =
    (if code = None then [To_group p ''SIGTERM'', To_group p ''SIGKILL''] else [To_group p ''SIGTERM''])"
  using assms
  by (auto simp: agy_run.simps(2) agy_terminate_def agy_kill_timer_def send_signal_def own_group_def agy_settle_def Let_def)

theorem dead_child_killed_again_witness:
  "snd (agy_run [(\<lparr>ka_groups = True, ka_group = True, ka_child = True\<rparr>, Ag_abort None),
      (\<lparr>ka_groups = True, ka_group = True, ka_child = True\<rparr>, Ag_exit None (Some ''SIGTERM'')),
      (\<lparr>ka_groups = True, ka_group = True, ka_child = True\<rparr>, Ag_kill_timer)] (agy_spawned (Some 7))) =
    [To_group 7 ''SIGTERM'', To_group 7 ''SIGKILL'']"
  using dead_child_killed_again [of "agy_spawned (Some 7)" 7 "\<lparr>ka_groups = True, ka_group = True, ka_child = True\<rparr>" None None "Some ''SIGTERM''"]
  by (simp add: agy_spawned_def)

end
