(* ===== verification/Antigravity_Stop.thy ===== *)
theory Antigravity_Stop
  imports Antigravity Pane
begin

text \<open>
  The rest of \<open>src/runtime/antigravity.ts\<close>: \<open>safeStderr\<close>, which masks the error text of the child before it
  becomes part of an error, on UTF-16 code units, and \<open>stop\<close> with the set of children of the adapter.  Each
  regular expression is the search it stands for.
\<close>

section \<open>Masking the error text\<close>

definition lower_ascii16 :: "pane \<Rightarrow> pane" where
  "lower_ascii16 t = map (\<lambda>u. if 65 \<le> u \<and> u \<le> 90 then u + 32 else u) t"

text \<open>What follows a URL at the front: its scheme and at least one character that is no space.\<close>

definition url_scheme :: "pane \<Rightarrow> pane option" where
  "url_scheme t =
     (if lower_ascii16 (take 8 t) = ascii16 ''https://'' then Some (drop 8 t)
      else if lower_ascii16 (take 7 t) = ascii16 ''http://'' then Some (drop 7 t)
      else None)"

definition url_match :: "pane \<Rightarrow> pane option" where
  "url_match t =
     (case url_scheme t of
        None \<Rightarrow> None
      | Some r \<Rightarrow> if takeWhile (\<lambda>u. \<not> space16 u) r = [] then None else Some (dropWhile (\<lambda>u. \<not> space16 u) r))"

lemma url_match_shorter: "url_match t = Some r \<Longrightarrow> length r < length t"
proof -
  assume m: "url_match t = Some r"
  then obtain s where s: "url_scheme t = Some s" "r = dropWhile (\<lambda>u. \<not> space16 u) s" "takeWhile (\<lambda>u. \<not> space16 u) s \<noteq> []"
    by (auto simp: url_match_def split: option.splits if_splits)
  from s(1) have "length s \<le> length t" by (auto simp: url_scheme_def split: if_splits)
  moreover have "length s = length (takeWhile (\<lambda>u. \<not> space16 u) s) + length r"
    unfolding s(2) by (metis length_append takeWhile_dropWhile_id)
  ultimately show ?thesis using s(3) by (cases "takeWhile (\<lambda>u. \<not> space16 u) s") simp_all
qed

function mask_urls :: "pane \<Rightarrow> pane" where
  "mask_urls t =
     (case url_match t of
        Some r \<Rightarrow> ascii16 ''[redacted-url]'' @ mask_urls r
      | None \<Rightarrow> (case t of [] \<Rightarrow> [] | u # us \<Rightarrow> u # mask_urls us))"
  by pat_completeness auto

termination by (relation "measure length") (auto dest: url_match_shorter)

declare mask_urls.simps [simp del]

definition word16 :: "16 word \<Rightarrow> bool" where
  "word16 u = (65 \<le> u \<and> u \<le> 90 \<or> 97 \<le> u \<and> u \<le> 122 \<or> 48 \<le> u \<and> u \<le> 57 \<or> u = 95)"

definition token16 :: "16 word \<Rightarrow> bool" where
  "token16 u = (word16 u \<or> u = 45)"

text \<open>\<open>\b\<close> after the first n characters, of which there is at least one.\<close>

definition boundary_after :: "pane \<Rightarrow> nat \<Rightarrow> bool" where
  "boundary_after t n = (word16 (t ! (n - 1)) \<noteq> (n < length t \<and> word16 (t ! n)))"

text \<open>How long the token at the front is, when a word boundary is there: the longest of thirty-two characters
  or more that ends at a boundary.  \<open>inside\<close> is whether the character before is one of a word.\<close>

definition token_match :: "bool \<Rightarrow> pane \<Rightarrow> nat option" where
  "token_match inside t =
     (if inside = (t \<noteq> [] \<and> word16 (hd t)) then None
      else List.find (boundary_after t) (rev [32..<Suc (length (takeWhile token16 t))]))"

lemma find_Some_in: "List.find P xs = Some x \<Longrightarrow> x \<in> set xs \<and> P x"
  by (induction xs) (auto split: if_splits)

lemma token_match_bounds: "token_match inside t = Some n \<Longrightarrow> 32 \<le> n \<and> n \<le> length t \<and> boundary_after t n"
proof -
  assume "token_match inside t = Some n"
  then have "List.find (boundary_after t) (rev [32..<Suc (length (takeWhile token16 t))]) = Some n"
    unfolding token_match_def by (simp del: upt_Suc split: if_splits)
  from find_Some_in [OF this] have "n \<in> {32..<Suc (length (takeWhile token16 t))}" "boundary_after t n"
    by (simp_all del: upt_Suc)
  moreover have "length (takeWhile token16 t) \<le> length t" by (rule length_takeWhile_le)
  ultimately show ?thesis by auto
qed

function mask_tokens :: "bool \<Rightarrow> pane \<Rightarrow> pane" where
  "mask_tokens inside t =
     (case token_match inside t of
        Some n \<Rightarrow> ascii16 ''[redacted-token]'' @ mask_tokens (word16 (t ! (n - 1))) (drop n t)
      | None \<Rightarrow> (case t of [] \<Rightarrow> [] | u # us \<Rightarrow> u # mask_tokens (word16 u) us))"
  by pat_completeness auto

termination by (relation "measure (\<lambda>(inside, t). length t)") (auto dest: token_match_bounds)

declare mask_tokens.simps [simp del]

definition safeStderr :: "pane \<Rightarrow> pane" where
  "safeStderr t = (let m = mask_tokens False (mask_urls t) in drop (length m - 500) m)"

text \<open>The text functions of a turn: \<open>dec\<close> and \<open>enc\<close> are UTF-8.\<close>

definition agy_text_of :: "(string \<Rightarrow> pane) \<Rightarrow> (pane \<Rightarrow> string) \<Rightarrow> (string \<Rightarrow> string + json) \<Rightarrow> agy_text" where
  "agy_text_of dec enc parse = \<lparr>tx_parse = parse, tx_safeStderr = (\<lambda>s. enc (safeStderr (dec s)))\<rparr>"

section \<open>Stopping\<close>

text \<open>The children that \<open>run\<close> has not removed; the ones that \<open>stop\<close> waits for.\<close>

definition running_children :: "(nat \<times> agy_child) list \<Rightarrow> (nat \<times> agy_child) list" where
  "running_children children = filter (\<lambda>(n, ch). ag_ended ch = None) children"

definition stop_waits :: "(nat \<times> agy_child) list \<Rightarrow> nat list" where
  "stop_waits children = map fst (filter (\<lambda>(n, ch). ag_exitCode ch = None) (running_children children))"

fun terminate_all :: "(nat \<Rightarrow> kill_answers) \<Rightarrow> (nat \<times> agy_child) list \<Rightarrow> (nat \<times> agy_child) list \<times> (nat \<times> agy_signal) list" where
  "terminate_all k [] = ([], [])"
| "terminate_all k ((n, ch) # cs) =
     (let (ch', sent) = agy_step (k n) Ag_stop ch; (cs', rest) = terminate_all k cs in
      ((n, ch') # cs', map (Pair n) sent @ rest))"

text \<open>\<open>stop\<close> as far as the events that follow it go: whether it has returned.\<close>

fun stop_returned :: "nat list \<Rightarrow> (nat \<times> agy_event) list \<Rightarrow> bool" where
  "stop_returned ws [] = (ws = [])"
| "stop_returned ws ((n, ev) # evs) =
     (ws = [] \<or> stop_returned (case ev of Ag_exit code sig \<Rightarrow> removeAll n ws | _ \<Rightarrow> ws) evs)"

definition agy_stop ::
  "(nat \<Rightarrow> kill_answers) \<Rightarrow> (nat \<times> agy_child) list \<Rightarrow> ((nat \<times> agy_child) list \<times> (nat \<times> agy_signal) list) \<times> nat list"
where
  "agy_stop k children = (let r = terminate_all k children in (r, stop_waits (fst r)))"

section \<open>Lemmas\<close>

text \<open>Whether no run of word characters gets to thirty-two, with k of them before.\<close>

fun short_words :: "nat \<Rightarrow> pane \<Rightarrow> bool" where
  "short_words k [] = (k < 32)"
| "short_words k (u # us) = (k < 32 \<and> short_words (if word16 u then Suc k else 0) us)"

lemma short_words_mono: "short_words k t \<Longrightarrow> j \<le> k \<Longrightarrow> short_words j t"
  by (induction k t arbitrary: j rule: short_words.induct) auto

lemma short_words_drop: "short_words k t \<Longrightarrow> short_words 0 (drop n t)"
proof (induction t arbitrary: k n)
  case (Cons u us)
  then show ?case using short_words_mono [OF Cons.prems, of 0] by (cases n) auto
qed simp

lemma short_words_take: "short_words k t \<Longrightarrow> list_all word16 (take n t) \<Longrightarrow> n \<le> length t \<Longrightarrow> k + n < 32"
proof (induction k t arbitrary: n rule: short_words.induct)
  case (2 k u us)
  then show ?case by (cases n) auto
qed simp

text \<open>A long run that begins a word is a token.\<close>

lemma long_word_matches:
  assumes "32 \<le> length (takeWhile word16 t)"
  shows "token_match False t \<noteq> None"
proof -
  let ?w = "length (takeWhile word16 t)"
  have "t \<noteq> []" using assms by auto
  then have hd: "word16 (hd t)" using assms by (cases t) (auto split: if_splits)
  have "?w \<le> length (takeWhile token16 t)" by (induction t) (auto simp: token16_def)
  moreover have "boundary_after t ?w"
  proof -
    have "t ! (?w - 1) = takeWhile word16 t ! (?w - 1)" using assms by (intro takeWhile_nth [symmetric]) auto
    moreover have "takeWhile word16 t ! (?w - 1) \<in> set (takeWhile word16 t)" using assms by (intro nth_mem) auto
    ultimately have "word16 (t ! (?w - 1))" by (auto dest: set_takeWhileD)
    moreover have "\<not> (?w < length t \<and> word16 (t ! ?w))" using nth_length_takeWhile [of word16 t] by blast
    ultimately show ?thesis by (simp add: boundary_after_def)
  qed
  ultimately have "\<exists>n\<in>set (rev [32..<Suc (length (takeWhile token16 t))]). boundary_after t n"
    using assms by (intro bexI [where x = ?w]) (auto simp del: upt_Suc)
  then have "List.find (boundary_after t) (rev [32..<Suc (length (takeWhile token16 t))]) \<noteq> None"
    unfolding find_None_iff by blast
  then show ?thesis using hd \<open>t \<noteq> []\<close> unfolding token_match_def by (simp del: upt_Suc)
qed

lemma mask_tokens_short:
  assumes "inside \<longrightarrow> k + length (takeWhile word16 t) < 32" "\<not> inside \<longrightarrow> k = 0"
  shows "short_words k (mask_tokens inside t)"
  using assms
proof (induction inside t arbitrary: k rule: mask_tokens.induct)
  case (1 inside t)
  have k: "k < 32" using 1(3,4) by (cases inside) auto
  show ?case
  proof (cases "token_match inside t")
    case (Some n)
    from token_match_bounds [OF Some] have b: "32 \<le> n" "n \<le> length t" "boundary_after t n" by auto
    have "takeWhile word16 (drop n t) = []" if "word16 (t ! (n - 1))"
    proof (cases "n < length t")
      case True
      then have "drop n t = t ! n # drop (Suc n) t" by (simp add: Cons_nth_drop_Suc)
      with b that True show ?thesis by (simp add: boundary_after_def)
    qed simp
    then have "short_words 0 (mask_tokens (word16 (t ! (n - 1))) (drop n t))" by (intro 1(2) [OF Some]) auto
    with k Some show ?thesis by (simp add: mask_tokens.simps [of inside t] ascii16_def word16_def)
  next
    case None
    show ?thesis
    proof (cases t)
      case Nil
      with k None show ?thesis by (simp add: mask_tokens.simps [of inside "[]"])
    next
      case (Cons u us)
      have "\<not> inside \<Longrightarrow> length (takeWhile word16 t) < 32" using long_word_matches [of t] None by (cases inside) (auto simp: linorder_not_le [symmetric])
      then have "short_words (if word16 u then Suc k else 0) (mask_tokens (word16 u) us)"
        using 1(3,4) Cons by (intro 1(1) [OF None Cons]) (auto split: if_splits)
      with k None Cons show ?thesis by (simp add: mask_tokens.simps [of inside "u # us"])
    qed
  qed
qed

text \<open>\<open>stop\<close> returns once every child it waits for has exited, and only then: a child that ends by its error
  event alone, as one that could not be started does, keeps it waiting.\<close>

lemma stop_returned_iff: "stop_returned ws evs \<longleftrightarrow> (\<forall>n\<in>set ws. \<exists>code sig. (n, Ag_exit code sig) \<in> set evs)"
proof (induction ws evs rule: stop_returned.induct)
  case (2 ws n ev evs)
  then show ?case by (cases ev; cases "ws = []") (simp_all, blast)
qed simp

lemma error_keeps_waiting: "list_all (\<lambda>(n, ev). case ev of Ag_exit code sig \<Rightarrow> False | _ \<Rightarrow> True) evs \<Longrightarrow> stop_returned ws evs = (ws = [])"
  by (induction evs) (auto split: agy_event.splits)

text \<open>Each child that still runs has had its SIGTERM, and the timer of its SIGKILL is set.\<close>

lemma terminate_all_map: "fst (terminate_all k cs) = map (\<lambda>(n, ch). (n, fst (agy_step (k n) Ag_stop ch))) cs"
  by (induction cs) (auto simp: Let_def split_beta simp del: agy_step.simps)

lemma terminate_all_exitCode: "ag_exitCode (fst (agy_step k Ag_stop ch)) = ag_exitCode ch"
  by (auto simp: agy_terminate_def send_signal_def own_group_def Let_def split: option.splits)

lemma stop_waits_terminated: "stop_waits (fst (terminate_all k cs)) = stop_waits cs"
proof -
  have "ag_ended (fst (agy_step k' Ag_stop ch)) = ag_ended ch" for k' ch by (rule step_ended) simp
  then show ?thesis
    by (simp add: terminate_all_map stop_waits_def running_children_def filter_map comp_def split_beta terminate_all_exitCode
        del: agy_step.simps)
qed

lemma stop_waits_for_running:
  "n \<in> set (snd (agy_stop k cs)) \<longleftrightarrow> (\<exists>ch. (n, ch) \<in> set cs \<and> ag_ended ch = None \<and> ag_exitCode ch = None)"
  unfolding agy_stop_def Let_def snd_conv stop_waits_terminated by (force simp: stop_waits_def running_children_def)

section \<open>Properties\<close>

text \<open>C37: no long token leaves through the error of a turn.  Whatever the child wrote to its error output, what is
  put into the error has at most five hundred characters, and nowhere thirty-two letters, digits or
  underscores in a row.\<close>

theorem safeStderr_hides_tokens:
  "length (safeStderr t) \<le> 500 \<and> \<not> (\<exists>i. i + 32 \<le> length (safeStderr t) \<and> list_all word16 (take 32 (drop i (safeStderr t))))"
proof -
  have "short_words 0 (mask_tokens False (mask_urls t))" by (rule mask_tokens_short) auto
  then have "short_words 0 (safeStderr t)" by (simp add: safeStderr_def Let_def short_words_drop)
  then have "\<not> list_all word16 (take 32 (drop i (safeStderr t)))" if "i + 32 \<le> length (safeStderr t)" for i
    using short_words_take [OF short_words_drop, of 0 "safeStderr t" 32 i] that by fastforce
  then show ?thesis by (auto simp: safeStderr_def Let_def)
qed

end
