(* ===== verification/Claude_Channel.thy ===== *)
theory Claude_Channel
  imports Daemon_Control
begin

text \<open>
  \<open>src/runtime/claude-channel-mcp.ts\<close>: the MCP server a Claude session starts.  It claims the turns of
  its lane from the daemon and shows them to the session as channel notifications, and it answers the
  session's requests, one per line, among them the tool calls that ask the daemon.  A step is a line,
  an answer of the daemon, a tick of the poll timer, or the end of the input; lines are numbered.
  \<open>String(x)\<close> and \<open>JSON.stringify\<close> are arguments.
\<close>

section \<open>Messages\<close>

record mcp_text =
  mt_string :: "json option \<Rightarrow> string"
  mt_stringify :: "json \<Rightarrow> string"

definition schema_string :: json where
  "schema_string = JObj [(''type'', JStr ''string'')]"

definition described_string :: "string \<Rightarrow> json" where
  "described_string d = JObj [(''type'', JStr ''string''), (''description'', JStr d)]"

definition tool_entry :: "string \<Rightarrow> string \<Rightarrow> (string \<times> json) list \<Rightarrow> (string \<times> json) list \<Rightarrow> json" where
  "tool_entry name description properties extra =
     JObj [(''name'', JStr name), (''description'', JStr description),
       (''inputSchema'', JObj ([(''type'', JStr ''object''), (''properties'', JObj properties)] @ extra))]"

definition required_keys :: "string list \<Rightarrow> (string \<times> json) list" where
  "required_keys ks = [(''required'', JArr (map JStr ks))]"

definition TOOLS :: "json list" where
  "TOOLS =
     [tool_entry ''reply''
        ''Reply to the current Agent Mesh channel turn. Use turn_id from the inbound channel metadata. The daemon routes it to the immutable source.''
        [(''turn_id'', described_string ''Inbound Agent Mesh turn_id.''),
         (''chat_id'', described_string ''Inbound chat_id for human readability.''),
         (''text'', described_string ''Final response text.''),
         (''reply_to'', described_string ''Inbound message_id, if threading is desired.'')]
        (required_keys [''turn_id'', ''text'']),
      tool_entry ''send_message'' ''Send a new message to another Agent Mesh identity.''
        [(''to'', schema_string), (''text'', schema_string), (''reply_to'', schema_string)]
        (required_keys [''to'', ''text'']),
      tool_entry ''list_agents'' ''List registered Agent Mesh identities and presence.'' [] [],
      tool_entry ''fetch_messages'' ''Show the local durable Agent Mesh inbox for this lane.''
        [(''limit'', JObj [(''type'', JStr ''number''), (''minimum'', JNum 1), (''maximum'', JNum 200)])] []]"

text \<open>\<open>args[key]\<close> of a value that is no object is undefined.\<close>

definition mcp_requiredString :: "json \<Rightarrow> string \<Rightarrow> exn + string" where
  "mcp_requiredString args key =
     (case jstr (jfield args key) of
        None \<Rightarrow> Inl (PlainError (key @ '' is required''))
      | Some s \<Rightarrow> if js_blank s then Inl (PlainError (key @ '' is required'')) else Inr s)"

definition content :: "string \<Rightarrow> bool \<Rightarrow> json" where
  "content body isError =
     JObj ([(''content'', JArr [JObj [(''type'', JStr ''text''), (''text'', JStr body)]])] @
       (if isError then [(''isError'', JBool True)] else []))"

definition rpc_result :: "json \<Rightarrow> json \<Rightarrow> json" where
  "rpc_result i result = JObj [(''jsonrpc'', JStr ''2.0''), (''id'', i), (''result'', result)]"

definition rpc_error :: "json \<Rightarrow> int \<Rightarrow> string \<Rightarrow> json" where
  "rpc_error i code msg =
     JObj [(''jsonrpc'', JStr ''2.0''), (''id'', i),
       (''error'', JObj [(''code'', JNum (of_int code)), (''message'', JStr msg)])]"

text \<open>A member that is undefined is left out of the text, and so of the value.\<close>

definition opt_member :: "string \<Rightarrow> json option \<Rightarrow> (string \<times> json) list" where
  "opt_member k v = (case v of None \<Rightarrow> [] | Some x \<Rightarrow> [(k, x)])"

definition opt_string :: "string \<Rightarrow> json option \<Rightarrow> (string \<times> json) list" where
  "opt_string k v = (case jstr v of None \<Rightarrow> [] | Some x \<Rightarrow> [(k, JStr x)])"

section \<open>Turns\<close>

definition chat_of :: "json \<Rightarrow> string" where
  "chat_of correlation =
     (case jstr (jfield correlation ''from'') of
        Some s \<Rightarrow> s
      | None \<Rightarrow> (case jstr (jfield correlation ''conversation_ref'') of Some s \<Rightarrow> s | None \<Rightarrow> ''channel''))"

definition channel_notification :: "json \<Rightarrow> json \<Rightarrow> json" where
  "channel_notification turn correlation =
     JObj [(''jsonrpc'', JStr ''2.0''), (''method'', JStr ''notifications/claude/channel''),
       (''params'', JObj [
          (''content'', if js_truthy (jfield turn ''content'') then the (jfield turn ''content'') else JStr ''(empty message)''),
          (''meta'', JObj ([(''source'', JStr ''agent-mesh'')] @ opt_member ''turn_id'' (jfield turn ''turnId'') @
             [(''chat_id'', JStr (chat_of correlation))] @ opt_member ''message_id'' (jfield turn ''sourceMessageId'') @
             [(''user'', JStr (chat_of correlation)), (''user_id'', JStr (chat_of correlation))] @
             opt_string ''to'' (jfield correlation ''to'') @ opt_string ''reply_to'' (jfield correlation ''reply_to'')))])]"

section \<open>The server\<close>

text \<open>What waits for an answer of the daemon: a tool call of a line, with the turn it completes.\<close>

record mcp_wait =
  wt_line :: nat
  wt_id :: json
  wt_turn :: "string option"

record mcp =
  mc_initialized :: bool
  mc_stopped :: bool
  mc_turns :: "(json option \<times> json) list"
  mc_waits :: "mcp_wait list"

definition mcp_new :: mcp where
  "mcp_new = \<lparr>mc_initialized = False, mc_stopped = False, mc_turns = [], mc_waits = []\<rparr>"

datatype mcp_out =
    Mo_answer nat json
  | Mo_parse_error json
  | Mo_notify json
  | Mo_ask nat string json
  | Mo_claim json
  | Mo_log string
  | Mo_uncaught

definition mcp_poll :: "string \<Rightarrow> mcp \<Rightarrow> mcp_out list" where
  "mcp_poll laneId mc =
     (if \<not> mc_initialized mc \<or> mc_stopped mc then [] else [Mo_claim (JObj [(''lane_id'', JStr laneId)])])"

definition poll_failed :: "string \<Rightarrow> mcp_out" where
  "poll_failed msg = Mo_log (''[agent-mesh claude] inbox poll failed: '' @ msg @ [CHR 0x0A])"

text \<open>The rest of a poll when the claim is answered; reading a property of a missing correlation throws,
  after the turn was entered.\<close>

definition mcp_claimed :: "exn + json \<Rightarrow> mcp \<Rightarrow> mcp \<times> mcp_out list" where
  "mcp_claimed r mc =
     (case r of
        Inl e \<Rightarrow> (mc, [poll_failed (exn_message e)])
      | Inr turn \<Rightarrow>
          if \<not> js_truthy (Some turn) then (mc, [])
          else (let mc' = mc\<lparr>mc_turns := AList.update (jfield turn ''turnId'') turn (mc_turns mc)\<rparr> in
                case jfield turn ''correlation'' of
                  None \<Rightarrow> (mc', [poll_failed ''correlation is not an object''])
                | Some JNull \<Rightarrow> (mc', [poll_failed ''correlation is not an object''])
                | Some correlation \<Rightarrow> (mc', [Mo_notify (channel_notification turn correlation)])))"

definition js_trunc :: "rat \<Rightarrow> int" where
  "js_trunc q = (if q < 0 then \<lceil>q\<rceil> else \<lfloor>q\<rfloor>)"

definition fetch_limit :: "json \<Rightarrow> int" where
  "fetch_limit args = (case jnum (jfield args ''limit'') of None \<Rightarrow> 20 | Some q \<Rightarrow> max 1 (min 200 (js_trunc q)))"

text \<open>The request a tool call makes of the daemon, with the turn a reply is for, or its exception.\<close>

definition tool_args :: "json option \<Rightarrow> json" where
  "tool_args params =
     (case Option.bind params (\<lambda>p. jfield p ''arguments'') of None \<Rightarrow> JObj [] | Some JNull \<Rightarrow> JObj [] | Some v \<Rightarrow> v)"

definition tool_call :: "mcp_text \<Rightarrow> string \<Rightarrow> json option \<Rightarrow> exn + string \<times> json \<times> string option" where
  "tool_call mt laneId params =
     (let args = tool_args params;
          name = Option.bind params (\<lambda>p. jfield p ''name'') in
      if name = Some (JStr ''reply'') then
        sbind (mcp_requiredString args ''turn_id'') (\<lambda>turnId.
        sbind (mcp_requiredString args ''text'') (\<lambda>body.
          Inr (''runtime.reply'',
            JObj [(''lane_id'', JStr laneId), (''turn_id'', JStr turnId), (''text'', JStr body)], Some turnId)))
      else if name = Some (JStr ''send_message'') then
        sbind (mcp_requiredString args ''to'') (\<lambda>to.
        sbind (mcp_requiredString args ''text'') (\<lambda>body.
          Inr (''mesh.send'',
            JObj ([(''lane_id'', JStr laneId), (''to'', JStr to), (''content'', JStr body)] @
              opt_string ''reply_to'' (jfield args ''reply_to'')), None)))
      else if name = Some (JStr ''list_agents'') then
        Inr (''mesh.list_agents'', JObj [(''lane_id'', JStr laneId)], None)
      else if name = Some (JStr ''fetch_messages'') then
        Inr (''mesh.inbox'', JObj [(''lane_id'', JStr laneId), (''limit'', JNum (of_int (fetch_limit args)))], None)
      else Inl (PlainError (''Unknown tool: '' @ mt_string mt name)))"

definition initialize_result :: "json option \<Rightarrow> json" where
  "initialize_result params =
     JObj [(''protocolVersion'', JStr (case jstr (Option.bind params (\<lambda>p. jfield p ''protocolVersion'')) of
             Some v \<Rightarrow> v | None \<Rightarrow> ''2025-06-18'')),
       (''capabilities'', JObj [(''tools'', JObj []), (''experimental'', JObj [(''claude/channel'', JObj [])])]),
       (''serverInfo'', JObj [(''name'', JStr ''agent-mesh''), (''version'', JStr ''0.1.0'')]),
       (''instructions'', JStr (''Agent Mesh messages arrive as Claude channel turns. Use reply with the inbound '' @
          ''turn_id exactly once for normal responses; use send_message only for proactive messages.''))]"

text \<open>A request of the session, which has an id.\<close>

definition mcp_request :: "mcp_text \<Rightarrow> string \<Rightarrow> nat \<Rightarrow> json \<Rightarrow> json \<Rightarrow> mcp \<Rightarrow> mcp \<times> mcp_out list" where
  "mcp_request mt laneId n i msg mc =
     (let m = jfield msg ''method'' in
      if m = Some (JStr ''initialize'') then (mc, [Mo_answer n (rpc_result i (initialize_result (jfield msg ''params'')))])
      else if m = Some (JStr ''tools/list'') then (mc, [Mo_answer n (rpc_result i (JObj [(''tools'', JArr TOOLS)]))])
      else if m = Some (JStr ''tools/call'') then
        (case tool_call mt laneId (jfield msg ''params'') of
           Inl e \<Rightarrow> (mc, [Mo_answer n (rpc_result i (content (exn_message e) True))])
         | Inr (meth, params, turn) \<Rightarrow>
             (mc\<lparr>mc_waits := mc_waits mc @ [\<lparr>wt_line = n, wt_id = i, wt_turn = turn\<rparr>]\<rparr>, [Mo_ask n meth params]))
      else (mc, [Mo_answer n (rpc_error i (-32601) (''Method not found: '' @ mt_string mt m))]))"

text \<open>A line of the input; \<open>None\<close> is text that is no JSON, and reading a property of \<open>null\<close> throws where
  nothing catches it.\<close>

definition mcp_line :: "mcp_text \<Rightarrow> string \<Rightarrow> nat \<Rightarrow> json option \<Rightarrow> mcp \<Rightarrow> mcp \<times> mcp_out list" where
  "mcp_line mt laneId n parsed mc =
     (case parsed of
        None \<Rightarrow> (mc, [Mo_parse_error (rpc_error JNull (-32700) ''Parse error'')])
      | Some JNull \<Rightarrow> (mc, [Mo_uncaught])
      | Some msg \<Rightarrow>
          if jfield msg ''method'' = Some (JStr ''notifications/initialized'')
          then (let mc' = mc\<lparr>mc_initialized := True\<rparr> in (mc', mcp_poll laneId mc'))
          else (case jfield msg ''id'' of None \<Rightarrow> (mc, []) | Some i \<Rightarrow> mcp_request mt laneId n i msg mc))"

text \<open>The answer of the daemon to the tool call of line n.\<close>

definition mcp_answered :: "mcp_text \<Rightarrow> nat \<Rightarrow> exn + json \<Rightarrow> mcp \<Rightarrow> mcp \<times> mcp_out list" where
  "mcp_answered mt n r mc =
     (case List.find (\<lambda>w. wt_line w = n) (mc_waits mc) of
        None \<Rightarrow> (mc, [])
      | Some w \<Rightarrow>
          (let mc' = mc\<lparr>mc_waits := filter (\<lambda>w. wt_line w \<noteq> n) (mc_waits mc)\<rparr> in
           case r of
             Inl e \<Rightarrow> (mc', [Mo_answer n (rpc_result (wt_id w) (content (exn_message e) True))])
           | Inr v \<Rightarrow>
               (mc'\<lparr>mc_turns := (case wt_turn w of None \<Rightarrow> mc_turns mc | Some t \<Rightarrow> AList.delete (Some (JStr t)) (mc_turns mc))\<rparr>,
                [Mo_answer n (rpc_result (wt_id w) (content (mt_stringify mt v) False))])))"

datatype mcp_event =
    Mc_line nat "json option"
  | Mc_answer nat "exn + json"
  | Mc_tick
  | Mc_claimed "exn + json"
  | Mc_close

fun mcp_step :: "mcp_text \<Rightarrow> string \<Rightarrow> mcp_event \<Rightarrow> mcp \<Rightarrow> mcp \<times> mcp_out list" where
  "mcp_step mt laneId (Mc_line n parsed) mc = mcp_line mt laneId n parsed mc"
| "mcp_step mt laneId (Mc_answer n r) mc = mcp_answered mt n r mc"
| "mcp_step mt laneId Mc_tick mc = (mc, mcp_poll laneId mc)"
| "mcp_step mt laneId (Mc_claimed r) mc = mcp_claimed r mc"
| "mcp_step mt laneId Mc_close mc = (mc\<lparr>mc_stopped := True\<rparr>, [])"

section \<open>Requests are answered\<close>

fun request_id :: "json option \<Rightarrow> json option" where
  "request_id None = None"
| "request_id (Some msg) =
     (if jfield msg ''method'' = Some (JStr ''notifications/initialized'') then None else jfield msg ''id'')"

fun mcp_asked :: "mcp_event \<Rightarrow> nat list" where
  "mcp_asked (Mc_line n parsed) = (if request_id parsed = None then [] else [n])"
| "mcp_asked _ = []"

definition mcp_waiting :: "nat \<Rightarrow> mcp \<Rightarrow> nat" where
  "mcp_waiting n mc = count_list (map wt_line (mc_waits mc)) n"

fun answer_to :: "nat \<Rightarrow> mcp_out \<Rightarrow> json option" where
  "answer_to n (Mo_answer m v) = (if m = n then Some v else None)"
| "answer_to n _ = None"

definition answers :: "nat \<Rightarrow> mcp_out list \<Rightarrow> json list" where
  "answers n outs = List.map_filter (answer_to n) outs"

lemma answers_simps [simp]:
  "answers n [] = []" "answers n (xs @ ys) = answers n xs @ answers n ys"
  "answers n (Mo_answer m v # outs) = (if m = n then [v] else []) @ answers n outs"
  "answers n (Mo_parse_error v # outs) = answers n outs" "answers n (Mo_notify v # outs) = answers n outs"
  "answers n (Mo_ask m meth v # outs) = answers n outs" "answers n (Mo_claim v # outs) = answers n outs"
  "answers n (Mo_log s # outs) = answers n outs" "answers n (Mo_uncaught # outs) = answers n outs"
  by (simp_all add: answers_def map_filter_def)

lemma answers_poll [simp]: "answers n (mcp_poll laneId mc) = []" "answers n [poll_failed m] = []"
  by (simp_all add: mcp_poll_def poll_failed_def)

lemma waiting_find:
  assumes "mcp_waiting n mc \<le> 1" "List.find (\<lambda>w. wt_line w = n) (mc_waits mc) = Some w"
  shows "mcp_waiting n mc = 1"
proof -
  from assms(2) have "w \<in> set (mc_waits mc)" "wt_line w = n" by (auto simp: find_Some_iff)
  then have "n \<in> set (map wt_line (mc_waits mc))" by force
  then have "mcp_waiting n mc \<noteq> 0" unfolding mcp_waiting_def count_list_0_iff by simp
  with assms(1) show ?thesis by simp
qed

lemma count_filter_line:
  "count_list (map wt_line (filter (\<lambda>w. wt_line w \<noteq> n) ws)) k = (if k = n then 0 else count_list (map wt_line ws) k)"
  by (induction ws) auto

lemma mcp_claimed_answers: "mcp_claimed r mc = (mc', outs) \<Longrightarrow> answers k outs = [] \<and> mc_waits mc' = mc_waits mc"
  by (auto simp: mcp_claimed_def Let_def split: sum.splits if_splits option.splits json.splits)

lemma mcp_answered_balance:
  assumes "\<And>j. mcp_waiting j mc \<le> 1" "mcp_answered mt n r mc = (mc', outs)"
  shows "length (answers k outs) + mcp_waiting k mc' = mcp_waiting k mc"
proof (cases "List.find (\<lambda>w. wt_line w = n) (mc_waits mc)")
  case (Some w)
  with assms waiting_find [OF assms(1) Some] show ?thesis
    by (cases r) (auto simp: mcp_answered_def mcp_waiting_def count_filter_line)
qed (use assms(2) in \<open>simp add: mcp_answered_def\<close>)

lemma mcp_request_balance:
  "mcp_request mt laneId n i msg mc = (mc', outs) \<Longrightarrow>
    length (answers k outs) + mcp_waiting k mc' = mcp_waiting k mc + (if k = n then 1 else 0)"
  by (auto simp: mcp_request_def Let_def mcp_waiting_def split: if_splits sum.splits)

lemma mcp_line_cases:
  assumes "mcp_line mt laneId n parsed mc = (mc', outs)"
  shows "(case request_id parsed of
      None \<Rightarrow> answers k outs = [] \<and> mc_waits mc' = mc_waits mc
    | Some i \<Rightarrow> mcp_request mt laneId n i (the parsed) mc = (mc', outs))"
  using assms by (auto simp: mcp_line_def Let_def split: option.splits json.splits if_splits)

lemma mcp_balance:
  assumes "\<And>j. mcp_waiting j mc \<le> 1" "mcp_step mt laneId e mc = (mc', outs)"
  shows "length (answers k outs) + mcp_waiting k mc' = mcp_waiting k mc + count_list (mcp_asked e) k"
proof (cases e)
  case (Mc_line n parsed)
  with assms(2) have "mcp_line mt laneId n parsed mc = (mc', outs)" by simp
  from mcp_line_cases [OF this, of k] mcp_request_balance Mc_line show ?thesis
    by (cases "request_id parsed") (fastforce simp: mcp_waiting_def)+
next
  case (Mc_answer n r)
  with assms mcp_answered_balance show ?thesis by simp
next
  case (Mc_claimed r)
  with assms(2) mcp_claimed_answers [of r mc mc' outs k] show ?thesis by (simp add: mcp_waiting_def)
qed (use assms in \<open>auto simp: mcp_waiting_def\<close>)

interpretation mcp_requests: settling "mcp_step mt laneId" "\<lambda>_. True" mcp_waiting "\<lambda>n outs. length (answers n outs)" mcp_asked
  for mt laneId
  by unfold_locales (simp_all add: mcp_balance)

text \<open>The answer carries the id of its request: what waits is kept with the id of its line.\<close>

definition ids_kept :: "(nat \<Rightarrow> json option) \<Rightarrow> mcp \<Rightarrow> bool" where
  "ids_kept ids mc = list_all (\<lambda>w. ids (wt_line w) = Some (wt_id w)) (mc_waits mc)"

definition echoes :: "(nat \<Rightarrow> json option) \<Rightarrow> mcp_out \<Rightarrow> bool" where
  "echoes ids out = (case out of Mo_answer n v \<Rightarrow> jfield v ''id'' = ids n | _ \<Rightarrow> True)"

lemma rpc_ids [simp]: "jfield (rpc_result i v) ''id'' = Some i" "jfield (rpc_error i code msg) ''id'' = Some i"
  by (simp_all add: rpc_result_def rpc_error_def)

lemma mcp_step_echoes:
  assumes "ids_kept ids mc" "\<And>n parsed. e = Mc_line n parsed \<Longrightarrow> request_id parsed \<noteq> None \<Longrightarrow> ids n = request_id parsed"
    and "mcp_step mt laneId e mc = (mc', outs)"
  shows "ids_kept ids mc' \<and> list_all (echoes ids) outs"
proof (cases e)
  case (Mc_line n parsed)
  with assms(3) have l: "mcp_line mt laneId n parsed mc = (mc', outs)" by simp
  show ?thesis
  proof (cases "request_id parsed")
    case None
    with l assms(1) show ?thesis
      by (auto simp: mcp_line_def Let_def ids_kept_def echoes_def mcp_poll_def split: option.splits json.splits if_splits)
  next
    case (Some i)
    with mcp_line_cases [OF l] have "mcp_request mt laneId n i (the parsed) mc = (mc', outs)" by simp
    with assms(1,2) Mc_line Some show ?thesis
      by (auto simp: mcp_request_def Let_def ids_kept_def echoes_def split: if_splits sum.splits)
  qed
next
  case (Mc_answer n r)
  with assms(1,3) show ?thesis
    by (auto simp: mcp_answered_def Let_def ids_kept_def echoes_def list_all_iff find_Some_iff split: option.splits sum.splits)
next
  case (Mc_claimed r)
  with assms(1,3) show ?thesis
    by (auto simp: mcp_claimed_def Let_def ids_kept_def echoes_def poll_failed_def split: sum.splits if_splits option.splits json.splits)
qed (use assms in \<open>auto simp: ids_kept_def echoes_def mcp_poll_def\<close>)

lemma mcp_runs_echo:
  assumes "ids_kept ids mc" "\<And>n parsed. Mc_line n parsed \<in> set es \<Longrightarrow> request_id parsed \<noteq> None \<Longrightarrow> ids n = request_id parsed"
    and "runs (mcp_step mt laneId) es mc = (mc', outs)"
  shows "list_all (echoes ids) outs"
  using assms
proof (induction es arbitrary: mc outs)
  case (Cons e es)
  obtain mc1 o1 where one: "mcp_step mt laneId e mc = (mc1, o1)" by (cases "mcp_step mt laneId e mc")
  obtain mc2 o2 where rest: "runs (mcp_step mt laneId) es mc1 = (mc2, o2)" by (cases "runs (mcp_step mt laneId) es mc1")
  from mcp_step_echoes [OF Cons.prems(1) _ one] Cons.prems(2) have "ids_kept ids mc1 \<and> list_all (echoes ids) o1" by auto
  with Cons.IH [of mc1 o2] Cons.prems rest one show ?case by auto
qed simp

section \<open>Properties\<close>

fun mcp_lines :: "mcp_event \<Rightarrow> (nat \<times> json option) list" where
  "mcp_lines (Mc_line n parsed) = [(n, request_id parsed)]"
| "mcp_lines _ = []"

definition line_ids :: "mcp_event list \<Rightarrow> nat \<Rightarrow> json option" where
  "line_ids es n = Option.bind (map_of (concat (map mcp_lines es)) n) id"

lemma in_asked: "n \<in> set (mcp_asked e) \<longleftrightarrow> (\<exists>p. e = Mc_line n p \<and> request_id p \<noteq> None)"
  by (cases e) auto

lemma asked_subset: "set (concat (map mcp_asked es)) \<subseteq> set (map fst (concat (map mcp_lines es)))"
  by (force simp: in_asked)

lemma distinct_asked: "distinct (map fst (concat (map mcp_lines es))) \<Longrightarrow> distinct (concat (map mcp_asked es))"
proof (induction es)
  case (Cons e es)
  have "set (mcp_asked e) \<subseteq> set (map fst (mcp_lines e))" "distinct (mcp_asked e)" by (cases e; simp)+
  moreover have "set (map fst (mcp_lines e)) \<inter> set (map fst (concat (map mcp_lines es))) = {}"
    using Cons.prems by auto
  ultimately have "set (mcp_asked e) \<inter> set (concat (map mcp_asked es)) = {}" using asked_subset [of es] by blast
  with Cons \<open>distinct (mcp_asked e)\<close> show ?case by simp
qed simp

lemma line_ids_line:
  assumes "distinct (map fst (concat (map mcp_lines es)))" "Mc_line n parsed \<in> set es"
  shows "line_ids es n = request_id parsed"
proof -
  from assms(2) have "(n, request_id parsed) \<in> set (concat (map mcp_lines es))" by force
  with assms(1) show ?thesis by (simp add: line_ids_def)
qed

lemma asked_line:
  assumes "distinct (map fst (concat (map mcp_lines es)))" "Mc_line n parsed \<in> set es"
  shows "n \<in> set (concat (map mcp_asked es)) \<longleftrightarrow> request_id parsed \<noteq> None"
proof
  assume "request_id parsed \<noteq> None"
  with assms(2) show "n \<in> set (concat (map mcp_asked es))" by (auto simp: in_asked)
next
  assume "n \<in> set (concat (map mcp_asked es))"
  then obtain p where "Mc_line n p \<in> set es" "request_id p \<noteq> None"
    by (auto simp: in_asked)
  with line_ids_line [OF assms(1)] assms(2) show "request_id parsed \<noteq> None" by metis
qed


text \<open>The arguments that the schema of a tool requires.\<close>

definition tool_required :: "json \<Rightarrow> string list" where
  "tool_required t =
     (case jarr (Option.bind (jfield t ''inputSchema'') (\<lambda>v. jfield v ''required'')) of
        None \<Rightarrow> [] | Some vs \<Rightarrow> List.map_filter (\<lambda>v. jstr (Some v)) vs)"

text \<open>C29: what the server announces is what it does: a tool call asks the daemon exactly when its name is
  one of the listed tools and every argument that the tool's schema requires is a string with something
  in it.\<close>

theorem mcp_tools_as_listed:
  "(\<exists>ask. tool_call mt laneId (Some p) = Inr ask) \<longleftrightarrow>
    list_ex (\<lambda>t. jfield t ''name'' = jfield p ''name'' \<and>
      list_all (\<lambda>k. \<exists>v. mcp_requiredString (tool_args (Some p)) k = Inr v) (tool_required t)) TOOLS"
proof -
  have listed: "map (\<lambda>t. (jfield t ''name'', tool_required t)) TOOLS =
      [(Some (JStr ''reply''), [''turn_id'', ''text'']), (Some (JStr ''send_message''), [''to'', ''text'']),
       (Some (JStr ''list_agents''), []), (Some (JStr ''fetch_messages''), [])]"
    by (simp add: TOOLS_def tool_entry_def tool_required_def required_keys_def map_filter_def)
  have "list_ex (\<lambda>t. jfield t ''name'' = nm \<and> list_all ok (tool_required t)) TOOLS \<longleftrightarrow>
      list_ex (\<lambda>(m, ks). m = nm \<and> list_all ok ks) (map (\<lambda>t. (jfield t ''name'', tool_required t)) TOOLS)" for nm ok
    by (simp add: list_ex_iff)
  then show ?thesis
    unfolding listed by (auto simp: tool_call_def Let_def sbind_eq_Inr split: if_splits)
qed

definition reply_call :: "json option \<Rightarrow> string \<Rightarrow> json" where
  "reply_call turnId body =
     JObj [(''name'', JStr ''reply''),
       (''arguments'', JObj (opt_member ''turn_id'' turnId @ [(''text'', JStr body)]))]"

definition notified_turn :: "json \<Rightarrow> json option" where
  "notified_turn note =
     Option.bind (Option.bind (jfield note ''params'') (\<lambda>p. jfield p ''meta'')) (\<lambda>m. jfield m ''turn_id'')"

lemma notified_turn_channel: "notified_turn (channel_notification turn c) = jfield turn ''turnId''"
  by (auto simp: notified_turn_def channel_notification_def opt_member_def opt_string_def map_of_append split: option.splits)

lemma claim_running:
  assumes "inbox_ok ib" "claimNext now ib = (Some t, ib')"
  shows "get_turn (tn_turnId t) ib' = Some t \<and> tn_state t = RUNNING"
  using claimNext_Some [OF assms] assms(2) by (auto simp: claimNext_def Let_def)

text \<open>C20: what the session is told is enough to reply.  When the poll claims a turn, the notification carries
  an id with which the tool \<open>reply\<close> makes a request that the daemon takes for this very turn of this
  lane, with the text as it was given, and the turn is running then, so it is not refused.\<close>

theorem claimed_turn_can_be_replied:
  assumes "jstr (param rq ''lane_id'') = Some i" "controller_lane s i = Some lan" "inbox_ok (ln_inbox lan)"
    and "control_claim env rq s = (Inr (Some v), s')" "mcp_claimed (Inr v) mc = (mc', [Mo_notify note])"
    and "jstr (notified_turn note) = Some t" "\<not> js_blank t" "\<not> js_blank body"
  shows "\<exists>params lan' turn. tool_call mt i (Some (reply_call (notified_turn note) body)) = Inr (''runtime.reply'', params, Some t) \<and>
    reply_params \<lparr>rq_id = r, rq_method = ''runtime.reply'', rq_params = Some params\<rparr> = Some (i, t, body) \<and>
    controller_lane s' i = Some lan' \<and> get_turn t (ln_inbox lan') = Some turn \<and> tn_state turn = RUNNING"
proof -
  obtain claimed ib where c: "claimNext (ce_now env) (ln_inbox lan) = (claimed, ib)"
    by (cases "claimNext (ce_now env) (ln_inbox lan)")
  have noted: "v \<noteq> JNull \<and> notified_turn note = jfield v ''turnId''"
    using assms(5) by (auto simp: mcp_claimed_def Let_def notified_turn_channel poll_failed_def split: if_splits option.splits json.splits)
  from assms(1,2,4) c noted obtain turn where turn: "claimed = Some turn" "v = turn_json turn"
    and s': "s' = put_lane i (lan\<lparr>ln_inbox := ib\<rparr>) s"
    by (auto simp: control_claim_def need_lane_def split: if_splits option.splits)
  have t: "tn_turnId turn = t" using assms(6) noted turn(2) by (simp add: turn_json_def)
  from claim_running [OF assms(3) c [unfolded turn(1)]]
  have running: "get_turn t ib = Some turn \<and> tn_state turn = RUNNING" by (simp add: t)
  have lane: "controller_lane s' i = Some (lan\<lparr>ln_inbox := ib\<rparr>)" using assms(2) by (simp add: s')
  from assms(6-8) have
    "tool_call mt i (Some (reply_call (notified_turn note) body)) =
      Inr (''runtime.reply'', JObj [(''lane_id'', JStr i), (''turn_id'', JStr t), (''text'', JStr body)], Some t)"
    by (simp add: tool_call_def reply_call_def opt_member_def tool_args_def mcp_requiredString_def jstr_eq_Some)
  with lane running assms(8) show ?thesis by (auto simp: reply_params_def param_def)
qed

section \<open>A lane with one turn\<close>

definition sample_mcp_text :: mcp_text where
  "sample_mcp_text = \<lparr>mt_string = (\<lambda>v. ''undefined''), mt_stringify = (\<lambda>v. ''{}'')\<rparr>"

definition sample_mcp_request :: "rat \<Rightarrow> string \<Rightarrow> json \<Rightarrow> json" where
  "sample_mcp_request i m params = JObj [(''id'', JNum i), (''method'', JStr m), (''params'', params)]"

definition sample_mcp_events :: "mcp_event list" where
  "sample_mcp_events =
     [Mc_line 0 (Some (sample_mcp_request 5 ''tools/call'' (JObj [(''name'', JStr ''list_agents'')]))),
      Mc_line 1 (Some (sample_mcp_request 6 ''tools/list'' JNull)), Mc_answer 0 (Inr (JArr []))]"


definition sample_claude_control :: control_state where
  "sample_claude_control =
     (let lane = JObj [(''id'', JStr ''a''), (''runtime'', JObj [(''kind'', JStr ''claude'')])] in
      \<lparr>ct_daemon = (daemon_new Ctl_live)\<lparr>md_controllers := [(''a'', lane)]\<rparr>,
       ct_lanes = [(''a'', sample_control_lane (sample_mesh_turn PENDING None))]\<rparr>)"

theorem claimed_turn_can_be_replied_witness:
  "\<exists>params. tool_call sample_mcp_text ''a'' (Some (reply_call (Some (JStr ''t'')) ''yes'')) = Inr (''runtime.reply'', params, Some ''t'') \<and>
    reply_params \<lparr>rq_id = ''1'', rq_method = ''runtime.reply'', rq_params = Some params\<rparr> = Some (''a'', ''t'', ''yes'')"
proof -
  let ?lan = "sample_control_lane (sample_mesh_turn PENDING None)"
    and ?t = "sample_mesh_turn RUNNING None\<lparr>tn_updatedAt := 1\<rparr>" and ?rq = "sample_control_request ''runtime.claim''"
  have lane: "controller_lane sample_claude_control ''a'' = Some ?lan"
    by (simp add: controller_lane_def sample_claude_control_def Let_def)
  have ok: "inbox_ok (ln_inbox ?lan)" by (simp add: inbox_ok_def sample_control_lane_def)
  have "claimNext (ce_now sample_control_env) (ln_inbox ?lan) = (Some ?t, \<lparr>ib_turns = [?t], ib_conversations = []\<rparr>)"
    by (simp add: claimNext_def next_turn_def pending_turns_def get_turn_def sample_control_lane_def sample_mesh_turn_def sample_control_env_def)
  then have claim: "\<exists>s'. control_claim sample_control_env ?rq sample_claude_control = (Inr (Some (turn_json ?t)), s')"
    using lane
    by (simp add: control_claim_def need_lane_def param_def sample_control_request_def runtime_kind_def lane_kind_def str_of_def field_of_def
        sample_claude_control_def Let_def)
  then obtain s' where claim: "control_claim sample_control_env ?rq sample_claude_control = (Inr (Some (turn_json ?t)), s')" by blast
  let ?note = "channel_notification (turn_json ?t) (tn_correlation ?t)"
  have told: "mcp_claimed (Inr (turn_json ?t)) mcp_new =
      (mcp_new\<lparr>mc_turns := AList.update (Some (JStr ''t'')) (turn_json ?t) []\<rparr>, [Mo_notify ?note])"
    by (simp add: mcp_claimed_def turn_json_def sample_mesh_turn_def mcp_new_def)
  have noted: "notified_turn ?note = Some (JStr ''t'')"
    by (simp add: notified_turn_channel turn_json_def sample_mesh_turn_def)
  have "jstr (param ?rq ''lane_id'') = Some ''a''" by (simp add: param_def sample_control_request_def)
  from claimed_turn_can_be_replied [OF this lane ok claim told, of "''t''" "''yes''" sample_mcp_text "''1''"] noted
  show ?thesis by (auto simp: js_blank_def unicode_space_def)
qed

end
