(* ===== verification/Claude_Supervisor.thy ===== *)
theory Claude_Supervisor
  imports Pane Paths Codex
begin

text \<open>
  \<open>src/runtime/claude-supervisor.ts\<close>: the Claude session of a lane, which runs in a terminal session of
  tmux.  Starting it writes two files, opens the session and answers the questions of its first moments;
  its status is read from what the pane shows.  What tmux, the file system and the clock answer are
  arguments; commands, keystrokes and files are outputs or state.
\<close>

section \<open>Files\<close>

text \<open>\<open>writeAtomicJson\<close>: the text is written to a fresh temporary file that is renamed.  \<open>suffix\<close> is what
  makes the name fresh.\<close>

type_synonym file_store = "(string \<times> string) list"

definition writeAtomicJson :: "save_fault option \<Rightarrow> string \<Rightarrow> string \<Rightarrow> string \<Rightarrow> file_store \<Rightarrow> (exn + unit) \<times> file_store" where
  "writeAtomicJson fault suffix path body fs =
     (let temp = path @ ''.tmp-'' @ suffix; failed = Inl (PlainError ''I/O error'') in
      if fault = Some Fault_mkdir then (failed, fs)
      else if map_of fs temp \<noteq> None then (Inl (PlainError ''EEXIST: file already exists''), fs)
      else case fault of
        Some Fault_open \<Rightarrow> (failed, fs)
      | Some (Fault_write n) \<Rightarrow> (failed, AList.update temp (take n body) fs)
      | Some Fault_rename \<Rightarrow> (failed, AList.update temp body fs)
      | Some Fault_finish \<Rightarrow> (failed, AList.update path body fs)
      | _ \<Rightarrow> (Inr (), AList.update path body fs))"

section \<open>The supervisor\<close>

datatype claude_state = Cl_stopped | Cl_running | Cl_awaiting_input | Cl_unavailable | Cl_failed

record claude_status =
  cl_state :: claude_state
  cl_command :: "string option"
  cl_lastError :: "string option"
  cl_prompt :: "pane option"

definition claude_new :: claude_status where
  "claude_new = \<lparr>cl_state = Cl_stopped, cl_command = None, cl_lastError = None, cl_prompt = None\<rparr>"

record claude_options = codex_config +
  op_kind :: string
  op_laneId :: string
  op_session :: string
  op_mcpConfigPath :: string
  op_workspaceMcp :: string
  op_configFile :: string
  op_runtimeDirectory :: string
  op_secretDirectory :: string
  op_lane_command :: "string option"
  op_execPath :: string
  op_entry :: string

definition isBun :: "string \<Rightarrow> bool" where
  "isBun p = (ends_with ''bun'' p \<or> ends_with ''bun.exe'' p)"

definition mcpArgs :: "claude_options \<Rightarrow> string list" where
  "mcpArgs o' =
     (if isBun (op_execPath o') then [op_entry o'] else []) @
     [''runtime'', ''mcp'', ''--lane'', op_laneId o', ''--config'', op_configFile o',
      ''--runtime-dir'', op_runtimeDirectory o', ''--secret-dir'', op_secretDirectory o']"

definition mcpServers :: "claude_options \<Rightarrow> json" where
  "mcpServers o' =
     JObj [(''mcpServers'', JObj [(''agent-mesh'',
       JObj [(''type'', JStr ''stdio''), (''command'', JStr (op_execPath o')), (''args'', JArr (map JStr (mcpArgs o')))])])]"

section \<open>Status\<close>

text \<open>What tmux answers: whether it is installed, whether the session exists, and the pane when it can be
  captured.\<close>

record tmux_answers =
  tm_tmux :: "string option"
  tm_session :: bool
  tm_pane :: "pane option"

definition claude_hasSession :: "'a tmux_answers_scheme \<Rightarrow> bool" where
  "claude_hasSession tm = (tm_tmux tm \<noteq> None \<and> tm_session tm)"

definition blockingPrompt :: "'a tmux_answers_scheme \<Rightarrow> pane option" where
  "blockingPrompt tm = (if tm_tmux tm = None then None else Option.bind (tm_pane tm) pane_question)"

text \<open>A prompt of no characters is no prompt.\<close>

definition claude_read_status :: "tmux_answers \<Rightarrow> claude_status \<Rightarrow> claude_status" where
  "claude_read_status tm st =
     (if cl_state st = Cl_running \<or> cl_state st = Cl_awaiting_input
      then (if \<not> claude_hasSession tm then st\<lparr>cl_state := Cl_stopped, cl_prompt := None\<rparr>
            else (let prompt = blockingPrompt tm in
                  st\<lparr>cl_state := (case prompt of None \<Rightarrow> Cl_running | Some p \<Rightarrow> if p = [] then Cl_running else Cl_awaiting_input),
                     cl_prompt := prompt\<rparr>))
      else st)"

section \<open>The gates of a start\<close>

definition startup_gates :: "pane list" where
  "startup_gates =
     [ascii16 ''--dangerously-load-development-channels is for local channel development'',
      ascii16 ''Is this a project you created or one you trust?'']"

record gate_state =
  gs_answered :: "nat list"
  gs_settled :: nat
  gs_drew :: bool

definition gates_new :: gate_state where
  "gates_new = \<lparr>gs_answered = [], gs_settled = 0, gs_drew = False\<rparr>"

definition open_gate :: "nat list \<Rightarrow> pane \<Rightarrow> nat option" where
  "open_gate answered t = List.find (\<lambda>i. i \<notin> set answered \<and> includes16 t (startup_gates ! i)) [0..<length startup_gates]"

text \<open>A pass over a captured pane, and the gate it answers.\<close>

definition gate_pass :: "pane \<Rightarrow> gate_state \<Rightarrow> gate_state \<times> nat option" where
  "gate_pass t g =
     (if \<not> gs_drew g \<and> trim16 t = [] then (g, None)
      else (let g' = g\<lparr>gs_drew := True\<rparr> in
            if \<not> asks_first t then (g'\<lparr>gs_settled := gs_settled g' + 1\<rparr>, None)
            else (let g'' = g'\<lparr>gs_settled := 0\<rparr> in
                  case open_gate (gs_answered g'') t of
                    None \<Rightarrow> (g'', None)
                  | Some i \<Rightarrow> (g''\<lparr>gs_answered := gs_answered g'' @ [i]\<rparr>, Some i))))"

text \<open>The loop: a pass has the time its condition reads and the pane captured a quarter of a second
  later, \<open>None\<close> when tmux fails.  It returns the panes it answered, with the gates, and whether it ended.\<close>

type_synonym gate_passes = "(millis \<times> pane option) list"

fun gate_loop :: "millis \<Rightarrow> gate_passes \<Rightarrow> gate_state \<Rightarrow> (pane \<times> nat) list \<times> bool" where
  "gate_loop deadline [] g = ([], gs_settled g \<ge> 3)"
| "gate_loop deadline ((now, captured) # passes) g =
     (if \<not> (now < deadline \<and> gs_settled g < 3) then ([], True)
      else case captured of
        None \<Rightarrow> ([], True)
      | Some t \<Rightarrow>
          (let (g', key) = gate_pass t g; (keys, ended) = gate_loop deadline passes g' in
           ((case key of None \<Rightarrow> [] | Some i \<Rightarrow> [(t, i)]) @ keys, ended)))"

definition confirmStartupGates :: "millis \<Rightarrow> gate_passes \<Rightarrow> (pane \<times> nat) list \<times> bool" where
  "confirmStartupGates now passes = gate_loop (now + 30000) passes gates_new"

section \<open>Starting and stopping\<close>

text \<open>\<open>sa_stderr\<close> is what tmux wrote, trimmed; \<open>sa_suffix\<close> the process and the time in the name of a temporary
  file.\<close>

record start_answers = tmux_answers +
  sa_claude :: "string option"
  sa_print :: "json \<Rightarrow> string"
  sa_suffix :: string
  sa_fault_state :: "save_fault option"
  sa_fault_workspace :: "save_fault option"
  sa_exit :: int
  sa_stderr :: string
  sa_now :: millis
  sa_passes :: gate_passes

datatype claude_out = Co_spawn "string list" | Co_keys pane nat

definition claude_profile_flags :: "claude_options \<Rightarrow> exn + string list" where
  "claude_profile_flags o' =
     (if cfg_profile o' = ''sandboxed'' then Inr [''--permission-mode'', ''plan'']
      else if cfg_profile o' = ''workspace'' then Inr [''--permission-mode'', ''default'']
      else if \<not> cfg_acknowledged o' then Inl (PlainError ''unrestricted Claude runtime requires acknowledged_risk=true'')
      else Inr [''--dangerously-skip-permissions''])"

definition middle_dot :: string where
  "middle_dot = map char_of [0xC2 :: nat, 0xB7]"

definition claude_args :: "claude_options \<Rightarrow> string \<Rightarrow> bool \<Rightarrow> string list \<Rightarrow> string list" where
  "claude_args o' claude resume flags =
     [''new-session'', ''-d'', ''-s'', op_session o', ''-c'', cfg_workspace o', claude,
      ''--mcp-config'', op_mcpConfigPath o', ''--strict-mcp-config'',
      ''--dangerously-load-development-channels'', ''server:agent-mesh'',
      ''--allowedTools'', ''mcp__agent-mesh__reply'', ''mcp__agent-mesh__send_message'',
      ''mcp__agent-mesh__list_agents'', ''mcp__agent-mesh__fetch_messages'',
      ''--name'', ''Agent Mesh '' @ middle_dot @ '' '' @ op_laneId o'] @
     (if resume then [''--continue''] else []) @
     (case cfg_model o' of None \<Rightarrow> [] | Some [] \<Rightarrow> [] | Some m \<Rightarrow> [''--model'', m]) @ flags"

definition claude_files :: "claude_options \<Rightarrow> start_answers \<Rightarrow> file_store \<Rightarrow> (exn + unit) \<times> file_store" where
  "claude_files o' sa fs =
     (let body = sa_print sa (mcpServers o') @ [CHR 0x0A] in
      case writeAtomicJson (sa_fault_state sa) (sa_suffix sa) (op_mcpConfigPath o') body fs of
        (Inl e, fs') \<Rightarrow> (Inl e, fs')
      | (Inr _, fs') \<Rightarrow> writeAtomicJson (sa_fault_workspace sa) (sa_suffix sa) (op_workspaceMcp o') body fs')"

definition claude_launch ::
  "claude_options \<Rightarrow> start_answers \<Rightarrow> string \<Rightarrow> string list \<Rightarrow> claude_status \<Rightarrow> (exn + unit) \<times> claude_status \<times> claude_out list" where
  "claude_launch o' sa claude args st =
     (if sa_exit sa \<noteq> 0
      then (let msg = (if sa_stderr sa = [] then ''tmux exited '' @ js_int (sa_exit sa) else sa_stderr sa) in
            (Inl (PlainError msg), st\<lparr>cl_state := Cl_failed, cl_command := Some claude, cl_lastError := Some msg\<rparr>, [Co_spawn args]))
      else (Inr (), \<lparr>cl_state = Cl_running, cl_command = Some claude, cl_lastError = None, cl_prompt = None\<rparr>,
            Co_spawn args # map (\<lambda>(t, i). Co_keys t i) (fst (confirmStartupGates (sa_now sa) (sa_passes sa)))))"

definition claude_start ::
  "claude_options \<Rightarrow> start_answers \<Rightarrow> bool \<Rightarrow> claude_status \<times> file_store \<Rightarrow>
   (exn + unit) \<times> (claude_status \<times> file_store) \<times> claude_out list" where
  "claude_start o' sa resume s =
     (let (st, fs) = s; claude = (case op_lane_command o' of None \<Rightarrow> sa_claude sa | c \<Rightarrow> c) in
      if op_kind o' \<noteq> ''claude'' then (Inr (), s, [])
      else if claude_hasSession sa
      then (Inr (), (st\<lparr>cl_state := Cl_running, cl_lastError := None\<rparr>, fs), [])
      else if tm_tmux sa = None \<or> claude = None \<or> claude = Some []
      then (Inr (), (st\<lparr>cl_state := Cl_unavailable, cl_command := claude,
             cl_lastError := Some (if tm_tmux sa = None then ''tmux is not installed'' else ''Claude CLI is not installed'')\<rparr>, fs), [])
      else case claude_files o' sa fs of
        (Inl e, fs') \<Rightarrow> (Inl e, (st, fs'), [])
      | (Inr _, fs') \<Rightarrow>
          (case claude_profile_flags o' of
             Inl e \<Rightarrow> (Inl e, (st, fs'), [])
           | Inr flags \<Rightarrow>
               (let (r, st', outs) = claude_launch o' sa (the claude) (claude_args o' (the claude) resume flags) st in
                (r, (st', fs'), outs))))"

text \<open>\<open>stop\<close> kills the session, if there is one.\<close>

definition claude_stop :: "tmux_answers \<Rightarrow> claude_status \<Rightarrow> claude_status \<times> bool" where
  "claude_stop tm st = (st\<lparr>cl_state := Cl_stopped\<rparr>, claude_hasSession tm)"

section \<open>Gates\<close>

lemma open_gate_Some:
  "open_gate answered t = Some i \<Longrightarrow> i < length startup_gates \<and> i \<notin> set answered \<and> includes16 t (startup_gates ! i)"
  by (auto simp: open_gate_def find_Some_iff)

lemma gate_pass_key:
  assumes "gate_pass t g = (g', key)"
  shows "(case key of
      None \<Rightarrow> gs_answered g' = gs_answered g
    | Some i \<Rightarrow> i < length startup_gates \<and> i \<notin> set (gs_answered g) \<and> asks_first t \<and> includes16 t (startup_gates ! i) \<and>
        gs_answered g' = gs_answered g @ [i])"
  using assms open_gate_Some
  by (auto simp: gate_pass_def Let_def split: if_splits option.splits)

definition gate_keys_ok :: "nat list \<Rightarrow> (pane \<times> nat) list \<Rightarrow> bool" where
  "gate_keys_ok answered keys =
     (distinct (answered @ map snd keys) \<and>
      list_all (\<lambda>(t, i). i < length startup_gates \<and> asks_first t \<and> includes16 t (startup_gates ! i)) keys)"

lemma gate_loop_keys: "distinct (gs_answered g) \<Longrightarrow> gate_keys_ok (gs_answered g) (fst (gate_loop deadline passes g))"
proof (induction passes arbitrary: g)
  case (Cons x passes)
  obtain now captured where x: "x = (now, captured)" by (cases x)
  show ?case
  proof (cases "now < deadline \<and> gs_settled g < 3 \<and> captured \<noteq> None")
    case True
    then obtain t where t: "captured = Some t" by blast
    obtain g' key where p: "gate_pass t g = (g', key)" by (cases "gate_pass t g")
    note k = gate_pass_key [OF p]
    then have "distinct (gs_answered g')" using Cons.prems by (auto split: option.splits)
    from Cons.IH [OF this] k True show ?thesis
      by (auto simp: x t p gate_keys_ok_def Let_def split_beta split: option.splits)
  next
    case False
    with Cons.prems show ?thesis by (auto simp: x gate_keys_ok_def)
  qed
qed (simp add: gate_keys_ok_def)

lemma gate_keys_bound:
  assumes "gate_keys_ok [] keys"
  shows "length keys \<le> length startup_gates"
proof -
  have "set (map snd keys) \<subseteq> {..<length startup_gates}" using assms by (auto simp: gate_keys_ok_def list_all_iff)
  then have "card (set (map snd keys)) \<le> length startup_gates" using card_mono [of "{..<length startup_gates}"] by fastforce
  then show ?thesis using assms distinct_card [of "map snd keys"] by (simp add: gate_keys_ok_def)
qed

lemma confirm_keys_ok: "gate_keys_ok [] (fst (confirmStartupGates now passes))"
  using gate_loop_keys [of gates_new] by (simp add: confirmStartupGates_def gates_new_def)

lemma gate_loop_ends:
  "n < length passes \<Longrightarrow> deadline \<le> fst (passes ! n) \<Longrightarrow>
    snd (gate_loop deadline passes g) \<and> gate_loop deadline (take (Suc n) passes) g = gate_loop deadline passes g"
proof (induction passes arbitrary: n g)
  case (Cons x passes)
  obtain now captured where x: "x = (now, captured)" by (cases x)
  show ?case
  proof (cases n)
    case 0
    with Cons.prems show ?thesis by (simp add: x)
  next
    case (Suc m)
    with Cons.prems Cons.IH [of m] show ?thesis
      by (auto simp: x Let_def split_beta split: option.split)
  qed
qed simp

section \<open>Properties\<close>

text \<open>The supervisor types into the session only to answer its own gates.  Whatever the pane shows over
  time, a start sends at most two answers, no gate is answered twice, and each answer is sent to a pane
  that shows the selection cursor on the first choice together with the question of that gate.\<close>

theorem gates_answered_once:
  "let keys = fst (confirmStartupGates now passes) in
    distinct (map snd keys) \<and> length keys \<le> 2 \<and>
    list_all (\<lambda>(t, i). i < 2 \<and> asks_first t \<and> includes16 t (startup_gates ! i)) keys"
  using confirm_keys_ok [of now passes] gate_keys_bound [OF confirm_keys_ok, of now passes]
  by (simp add: gate_keys_ok_def startup_gates_def numeral_2_eq_2)

text \<open>A start does not wait for ever for a session that keeps asking.  When each pass begins a quarter of
  a second after the one before, the loop ends at the hundred and twenty-first at the latest, without
  looking at any later pane.\<close>

theorem gates_time_out:
  assumes "\<forall>i<length passes. now + 250 * int i \<le> fst (passes ! i)" "120 < length passes"
  shows "snd (confirmStartupGates now passes) \<and> confirmStartupGates now (take 121 passes) = confirmStartupGates now passes"
proof -
  have "now + 30000 \<le> fst (passes ! 120)" using assms by force
  with gate_loop_ends [OF assms(2), of "now + 30000"] show ?thesis by (simp add: confirmStartupGates_def)
qed

theorem gates_time_out_witness:
  "snd (confirmStartupGates 7 (map (\<lambda>i. (7 + 250 * int i, Some [])) [0..<200]))"
proof -
  let ?passes = "map (\<lambda>i. (7 + 250 * int i, Some [])) [0..<200] :: gate_passes"
  have "\<forall>i<length ?passes. 7 + 250 * int i \<le> fst (?passes ! i)" "120 < length ?passes" by simp_all
  from gates_time_out [OF this] show ?thesis by blast
qed

lemma writeAtomicJson_ok:
  "writeAtomicJson fault suffix path body fs = (Inr u, fs') \<Longrightarrow> fs' = AList.update path body fs"
  by (auto simp: writeAtomicJson_def Let_def split: if_splits option.splits save_fault.splits)

lemma claude_files_ok:
  assumes "claude_files o' sa fs = (Inr u, fs')"
  shows "map_of fs' (op_mcpConfigPath o') = Some (sa_print sa (mcpServers o') @ [CHR 0x0A]) \<and>
    map_of fs' (op_workspaceMcp o') = Some (sa_print sa (mcpServers o') @ [CHR 0x0A])"
  using assms by (auto simp: claude_files_def Let_def split: prod.splits sum.splits dest!: writeAtomicJson_ok)

text \<open>A session is opened only when all is prepared for it: there is none yet, its security profile is
  allowed, both files name the same server, and what is sent into it afterwards are answers to its
  gates.  In every other case \<open>start\<close> runs no command.\<close>

theorem claude_start_prepared:
  assumes "claude_start o' sa resume (st, fs) = (r, (st', fs'), outs)"
  shows "outs = [] \<or>
    (\<exists>claude flags keys. outs = Co_spawn (claude_args o' claude resume flags) # keys \<and> length keys \<le> 2 \<and>
       list_all (\<lambda>out. \<exists>t i. out = Co_keys t i \<and> asks_first t \<and> includes16 t (startup_gates ! i)) keys \<and>
       op_kind o' = ''claude'' \<and> \<not> claude_hasSession sa \<and> claude_profile_flags o' = Inr flags \<and>
       map_of fs' (op_mcpConfigPath o') = map_of fs' (op_workspaceMcp o') \<and>
       map_of fs' (op_workspaceMcp o') = Some (sa_print sa (mcpServers o') @ [CHR 0x0A]))"
proof (cases "outs = []")
  case False
  with assms obtain claude u flags where files: "claude_files o' sa fs = (Inr u, fs')"
    and flags: "claude_profile_flags o' = Inr flags" "op_kind o' = ''claude''" "\<not> claude_hasSession sa"
    and launch: "claude_launch o' sa claude (claude_args o' claude resume flags) st = (r, st', outs)"
    by (auto simp: claude_start_def Let_def split: if_splits prod.splits sum.splits)
  let ?keys = "map (\<lambda>(t, i). Co_keys t i) (fst (confirmStartupGates (sa_now sa) (sa_passes sa)))"
  have outs: "outs = Co_spawn (claude_args o' claude resume flags) # (if sa_exit sa = 0 then ?keys else [])"
    using launch by (auto simp: claude_launch_def Let_def split: if_splits)
  have "length ?keys \<le> 2 \<and> list_all (\<lambda>out. \<exists>t i. out = Co_keys t i \<and> asks_first t \<and> includes16 t (startup_gates ! i)) ?keys"
    using confirm_keys_ok [of "sa_now sa" "sa_passes sa"] gate_keys_bound [OF confirm_keys_ok, of "sa_now sa" "sa_passes sa"]
    by (auto simp: gate_keys_ok_def startup_gates_def list_all_iff)
  with outs flags claude_files_ok [OF files] show ?thesis by fastforce
qed simp

text \<open>A start that is refused has already changed the workspace: an unrestricted session without the
  acknowledgement is refused after both files were written, and the status says nothing of it.\<close>

theorem refused_start_writes_files:
  assumes "claude_profile_flags o' = Inl e" "op_kind o' = ''claude''" "\<not> claude_hasSession sa" "tm_tmux sa = Some tmux"
    and "op_lane_command o' = Some command" "command \<noteq> []" "claude_files o' sa fs = (Inr u, fs')"
  shows "claude_start o' sa resume (st, fs) = (Inl e, (st, fs'), []) \<and>
    map_of fs' (op_workspaceMcp o') = Some (sa_print sa (mcpServers o') @ [CHR 0x0A])"
  using assms claude_files_ok [OF assms(7)] by (simp add: claude_start_def)

text \<open>A stopped session keeps its question.  \<open>stop\<close> does not clear the prompt that the status shows, and no
  later reading of the status does, so a session that was stopped while it asked is reported as stopped
  with a question on its screen.\<close>

theorem stopped_session_keeps_prompt:
  assumes "claude_read_status tm st = st1" "cl_state st1 = Cl_awaiting_input"
  shows "let st2 = fst (claude_stop tm' st1) in
    cl_state (claude_read_status tm'' st2) = Cl_stopped \<and> cl_prompt (claude_read_status tm'' st2) = cl_prompt st1 \<and>
    cl_prompt st1 \<noteq> None"
  using assms
  by (auto simp: claude_read_status_def claude_stop_def Let_def split: if_splits option.splits)

section \<open>A session that starts\<close>

definition sample_claude_options :: "string \<Rightarrow> claude_options" where
  "sample_claude_options profile =
     \<lparr>cfg_workspace = ''/w'', cfg_model = None, cfg_profile = profile, cfg_acknowledged = False, op_kind = ''claude'',
      op_laneId = ''a'', op_session = ''mesh-lane-a'', op_mcpConfigPath = ''/s/claude-mcp.json'', op_workspaceMcp = ''/w/.mcp.json'',
      op_configFile = ''/c'', op_runtimeDirectory = ''/r'', op_secretDirectory = ''/x'', op_lane_command = Some ''claude'',
      op_execPath = ''/bin/bun'', op_entry = ''cli.ts''\<rparr>"

definition gate_pane :: pane where
  "gate_pane = startup_gates ! 1 @ [10, 32, 0x276F, 32] @ ascii16 ''1. Yes'' @ [10]"

definition sample_start_answers :: start_answers where
  "sample_start_answers =
     \<lparr>tm_tmux = Some ''tmux'', tm_session = False, tm_pane = None, sa_claude = None, sa_print = (\<lambda>v. ''{}''), sa_suffix = ''1'',
      sa_fault_state = None, sa_fault_workspace = None, sa_exit = 0, sa_stderr = [], sa_now = 0,
      sa_passes = [(0, Some []), (250, Some gate_pane), (500, Some gate_pane), (750, None)]\<rparr>"

lemma sample_gates:
  "confirmStartupGates 0 [(0, Some []), (250, Some gate_pane), (500, Some gate_pane), (750, None)] = ([(gate_pane, 1)], True)"
  by code_simp

theorem claude_start_prepared_witness:
  "\<exists>claude flags. claude_start (sample_claude_options ''sandboxed'') sample_start_answers False (claude_new, []) =
      (Inr (), (\<lparr>cl_state = Cl_running, cl_command = Some ''claude'', cl_lastError = None, cl_prompt = None\<rparr>,
         [(''/s/claude-mcp.json'', ''{}'' @ [CHR 0x0A]), (''/w/.mcp.json'', ''{}'' @ [CHR 0x0A])]),
       [Co_spawn (claude_args (sample_claude_options ''sandboxed'') claude False flags), Co_keys gate_pane 1]) \<and>
     claude_profile_flags (sample_claude_options ''sandboxed'') = Inr flags"
proof -
  let ?o = "sample_claude_options ''sandboxed''" and ?a = sample_start_answers
  obtain flags where flags: "claude_profile_flags ?o = Inr flags"
    by (simp add: claude_profile_flags_def sample_claude_options_def)
  have "claude_files ?o ?a [] = (Inr (), [(''/s/claude-mcp.json'', ''{}'' @ [CHR 0x0A]), (''/w/.mcp.json'', ''{}'' @ [CHR 0x0A])])"
    by (simp add: claude_files_def sample_start_answers_def sample_claude_options_def writeAtomicJson_def Let_def)
  with flags have start: "claude_start ?o ?a False (claude_new, []) =
      (Inr (), (\<lparr>cl_state = Cl_running, cl_command = Some ''claude'', cl_lastError = None, cl_prompt = None\<rparr>,
         [(''/s/claude-mcp.json'', ''{}'' @ [CHR 0x0A]), (''/w/.mcp.json'', ''{}'' @ [CHR 0x0A])]),
       [Co_spawn (claude_args ?o ''claude'' False flags), Co_keys gate_pane 1])"
    by (simp add: claude_start_def claude_launch_def claude_hasSession_def sample_start_answers_def sample_claude_options_def sample_gates Let_def)
  from claude_start_prepared [OF start] flags start show ?thesis by auto
qed

theorem refused_start_writes_files_witness:
  "fst (claude_start (sample_claude_options ''unrestricted'') sample_start_answers False (claude_new, [])) =
      Inl (PlainError ''unrestricted Claude runtime requires acknowledged_risk=true'') \<and>
    map_of (snd (fst (snd (claude_start (sample_claude_options ''unrestricted'') sample_start_answers False (claude_new, [])))))
      ''/w/.mcp.json'' = Some (''{}'' @ [CHR 0x0A])"
proof -
  let ?o = "sample_claude_options ''unrestricted''" and ?a = sample_start_answers
  have "claude_files ?o ?a [] = (Inr (), [(''/s/claude-mcp.json'', ''{}'' @ [CHR 0x0A]), (''/w/.mcp.json'', ''{}'' @ [CHR 0x0A])])"
    by (simp add: claude_files_def sample_start_answers_def sample_claude_options_def writeAtomicJson_def Let_def)
  moreover have "claude_profile_flags ?o = Inl (PlainError ''unrestricted Claude runtime requires acknowledged_risk=true'')"
    "op_kind ?o = ''claude''" "\<not> claude_hasSession ?a" "tm_tmux ?a = Some ''tmux''" "op_lane_command ?o = Some ''claude''"
    by (simp_all add: claude_profile_flags_def sample_claude_options_def sample_start_answers_def claude_hasSession_def)
  ultimately show ?thesis
    using refused_start_writes_files [of ?o _ ?a "''tmux''" "''claude''" "[]" "()" _ False claude_new] by simp
qed

theorem stopped_session_keeps_prompt_witness:
  "let tm = \<lparr>tm_tmux = Some ''tmux'', tm_session = True, tm_pane = Some gate_pane\<rparr>;
       st = fst (claude_stop tm (claude_read_status tm (claude_new\<lparr>cl_state := Cl_running\<rparr>))) in
    cl_state (claude_read_status tm st) = Cl_stopped \<and> cl_prompt (claude_read_status tm st) \<noteq> None"
proof -
  let ?tm = "\<lparr>tm_tmux = Some ''tmux'', tm_session = True, tm_pane = Some gate_pane\<rparr>"
  have "cl_state (claude_read_status ?tm (claude_new\<lparr>cl_state := Cl_running\<rparr>)) = Cl_awaiting_input" by code_simp
  from stopped_session_keeps_prompt [OF refl this, of ?tm ?tm] show ?thesis by (simp add: Let_def)
qed

end
