(* ===== verification/Attach.thy ===== *)
theory Attach
  imports Effects Paths
begin

text \<open>
  \<open>src/runtime/attach.ts\<close> and \<open>loadedThreadIds\<close> of \<open>src/runtime/ws-unix-client.ts\<close>: the tmux session
  an operator attaches to.  The state is the sessions of the tmux server, each with the command it
  was started with; which programs are installed, which socket listens, which threads its server has
  loaded and what \<open>new-session\<close> answers, its message trimmed, are in \<open>attach_env\<close>.
\<close>

section \<open>Loaded threads\<close>

datatype loaded_event = Le_message json | Le_close | Le_timeout

text \<open>The first event that decides; a failed connection gives no thread either.\<close>

fun loadedThreadIds :: "exn + loaded_event list \<Rightarrow> string list" where
  "loadedThreadIds (Inl e) = []"
| "loadedThreadIds (Inr []) = []"
| "loadedThreadIds (Inr (Le_message m # es)) =
     (if jfield m ''id'' \<noteq> Some (JStr ''loaded'') then loadedThreadIds (Inr es)
      else (case jarr (Option.bind (jfield m ''result'') (\<lambda>r. jfield r ''data'')) of
        None \<Rightarrow> [] | Some ids \<Rightarrow> List.map_filter (\<lambda>i. jstr (Some i)) ids))"
| "loadedThreadIds (Inr (e # es)) = []"

section \<open>Sessions\<close>

type_synonym sessions = "(string \<times> string list) list"

record attach_env =
  ae_tmux :: "string option"
  ae_which :: "string \<Rightarrow> string option"
  ae_sha256 :: "string \<Rightarrow> string"
  ae_listening :: "string \<Rightarrow> bool"
  ae_loaded :: "string \<Rightarrow> exn + loaded_event list"
  ae_new_session :: "string \<Rightarrow> int \<times> string"
  ae_selfCommand :: "string list"

record attach_context =
  ac_lane :: json
  ac_runtimeDirectory :: string
  ac_conversationId :: "string option"
  ac_daemonSession :: "string option"

definition selfCommand :: "string \<Rightarrow> string option \<Rightarrow> string list" where
  "selfCommand execPath entry =
     (case entry of
        None \<Rightarrow> [execPath]
      | Some e \<Rightarrow> if ends_with ''.ts'' e then [execPath, e] else [execPath])"

definition hasSession :: "string \<Rightarrow> sessions \<Rightarrow> bool" where
  "hasSession session st = (map_of st session \<noteq> None)"

definition ascii_lower :: "char \<Rightarrow> char" where
  "ascii_lower c = (if 65 \<le> (of_char c :: nat) \<and> of_char c \<le> (90 :: nat) then char_of (of_char c + (32 :: nat)) else c)"

definition createSession :: "attach_env \<Rightarrow> string \<Rightarrow> string list \<Rightarrow> (sessions, unit) eff" where
  "createSession env session command st =
     (let (code, detail) = ae_new_session env session in
      if code = 0 then (Inr (), AList.update session command st)
      else if js_includes (map ascii_lower detail) ''duplicate session''
      then (Inl (PlainError (''A tmux session named '' @ session @ '' already exists and is not this agent's. Rename or close it, then attach again.'')), st)
      else (Inl (PlainError (if detail = [] then ''tmux exited '' @ js_int code else detail)), st))"

datatype release = Released_closed | Released_absent | Released_no_tmux

definition releaseLaneSession :: "attach_env \<Rightarrow> string \<Rightarrow> (sessions, release) eff" where
  "releaseLaneSession env identity st =
     (case ae_tmux env of
        None \<Rightarrow> (Inr Released_no_tmux, st)
      | Some tmux \<Rightarrow>
          (case laneTmuxSession identity of
             Inl e \<Rightarrow> (Inl e, st)
           | Inr session \<Rightarrow>
               if hasSession session st then (Inr Released_closed, AList.delete session st) else (Inr Released_absent, st)))"

section \<open>The target of an attach\<close>

definition lane_str :: "json \<Rightarrow> string \<Rightarrow> string" where
  "lane_str l k = (case jstr (jfield l k) of Some s \<Rightarrow> s | None \<Rightarrow> [])"

definition runtime_str :: "json \<Rightarrow> string \<Rightarrow> string option" where
  "runtime_str l k = jstr (Option.bind (jfield l ''runtime'') (\<lambda>r. jfield r k))"

text \<open>\<open>command ?? which(name)\<close>, as a condition sees it.\<close>

definition runtime_command :: "attach_env \<Rightarrow> json \<Rightarrow> string \<Rightarrow> string option" where
  "runtime_command env l name = set_nonempty (case runtime_str l ''command'' of Some c \<Rightarrow> Some c | None \<Rightarrow> ae_which env name)"

definition attach_claude :: "attach_context \<Rightarrow> string \<Rightarrow> (sessions, string) eff" where
  "attach_claude cx session st =
     (let owned = (case ac_daemonSession cx of Some s \<Rightarrow> s | None \<Rightarrow> session) in
      if hasSession owned st then (Inr owned, st)
      else (Inl (PlainError ''This agent's CLI is not running. Start the runtime first.''), st))"

definition codex_viewer :: "attach_env \<Rightarrow> attach_context \<Rightarrow> string \<Rightarrow> string \<Rightarrow> (sessions, string) eff" where
  "codex_viewer env cx session socket st =
     (case runtime_command env (ac_lane cx) ''codex'' of
        None \<Rightarrow> (Inl (PlainError ''codex is not installed''), st)
      | Some codex \<Rightarrow>
          (case set_nonempty (ac_conversationId cx) of
             None \<Rightarrow> (Inl (PlainError ''This agent's conversation is not up yet. Try again in a moment.''), st)
           | Some c \<Rightarrow>
               if c \<notin> set (loadedThreadIds (ae_loaded env socket))
               then (Inl (PlainError ''This agent's conversation is not up yet. Try again in a moment.''), st)
               else ethen (createSession env session
                 [codex, ''--remote'', ''unix://'' @ socket, ''--no-alt-screen'', ''resume'', c]) (eret session) st))"

definition attach_codex :: "attach_env \<Rightarrow> attach_context \<Rightarrow> string \<Rightarrow> (sessions, string) eff" where
  "attach_codex env cx session =
     ebind (elift (appServerSocketPath (ae_sha256 env) (ac_runtimeDirectory cx) (lane_str (ac_lane cx) ''id''))) (\<lambda>socket.
     ethen (erequire (ae_listening env socket)
       ''The Codex app-server is not listening yet. It starts with the lane's first turn.'')
     (\<lambda>st. if hasSession session st then (Inr session, st) else codex_viewer env cx session socket st))"

definition observe_command :: "attach_env \<Rightarrow> attach_context \<Rightarrow> string list" where
  "observe_command env cx =
     ae_selfCommand env @ [''runtime'', ''observe'', ''--lane'', lane_str (ac_lane cx) ''id'', ''--runtime-dir'', ac_runtimeDirectory cx]"

definition attach_other :: "attach_env \<Rightarrow> attach_context \<Rightarrow> string \<Rightarrow> (sessions, string) eff" where
  "attach_other env cx session st =
     (if hasSession session st then (Inr session, st)
      else ethen (createSession env session
        (case (set_nonempty (ac_conversationId cx), runtime_command env (ac_lane cx) ''agy'') of
           (Some c, Some agy) \<Rightarrow> [agy, ''--conversation'', c]
         | _ \<Rightarrow> observe_command env cx)) (eret session) st)"

definition ensureAttachTarget :: "attach_env \<Rightarrow> attach_context \<Rightarrow> (sessions, string) eff" where
  "ensureAttachTarget env cx =
     (case ae_tmux env of
        None \<Rightarrow> ethrow ''tmux is not installed''
      | Some tmux \<Rightarrow>
          ebind (elift (laneTmuxSession (lane_str (ac_lane cx) ''identity''))) (\<lambda>session.
          if runtime_str (ac_lane cx) ''kind'' = Some ''claude'' then attach_claude cx session
          else if runtime_str (ac_lane cx) ''kind'' = Some ''codex'' then attach_codex env cx session
          else attach_other env cx session))"

section \<open>Lemmas\<close>

text \<open>What the session that an attach starts may run, by the runtime of the lane.\<close>

definition attach_command :: "attach_env \<Rightarrow> attach_context \<Rightarrow> string list \<Rightarrow> bool" where
  "attach_command env cx command =
     (if runtime_str (ac_lane cx) ''kind'' = Some ''claude'' then False
      else if runtime_str (ac_lane cx) ''kind'' = Some ''codex''
      then (\<exists>codex socket c. appServerSocketPath (ae_sha256 env) (ac_runtimeDirectory cx) (lane_str (ac_lane cx) ''id'') = Inr socket \<and>
        ac_conversationId cx = Some c \<and> c \<in> set (loadedThreadIds (ae_loaded env socket)) \<and>
        command = [codex, ''--remote'', ''unix://'' @ socket, ''--no-alt-screen'', ''resume'', c])
      else command = observe_command env cx \<or>
        (\<exists>agy c. ac_conversationId cx = Some c \<and> command = [agy, ''--conversation'', c]))"

lemma set_nonempty_Some: "set_nonempty v = Some x \<Longrightarrow> v = Some x"
  by (auto simp: set_nonempty_def split: option.splits list.splits)

lemma createSession_cases:
  assumes "createSession env session command st = (r, st')"
  shows "(r = Inr () \<and> st' = AList.update session command st) \<or> (\<exists>e. r = Inl e \<and> st' = st)"
  using assms by (auto simp: createSession_def Let_def split: prod.splits if_splits)

lemma ethen_create:
  assumes "ethen (createSession env session command) (eret session) st = (r, st')"
  shows "(r = Inr session \<and> st' = AList.update session command st) \<or> (\<exists>e. r = Inl e \<and> st' = st)"
  using assms createSession_cases [of env session command st]
  by (cases "createSession env session command st") (auto simp: ethen_def ebind_def split: sum.splits)

section \<open>Properties\<close>

text \<open>An attach changes nothing but its lane's own session, and starts in it only what belongs
  there: the session of a Claude lane is never created, a Codex viewer is opened only on the thread
  the daemon holds and the server has loaded, and the session that is returned exists.\<close>

theorem attach_opens_only_its_own:
  assumes "ensureAttachTarget env cx st = (r, st')"
  shows "(st' = st \<and> (case r of Inr session \<Rightarrow> hasSession session st | Inl e \<Rightarrow> True)) \<or>
    (\<exists>session command. laneTmuxSession (lane_str (ac_lane cx) ''identity'') = Inr session \<and> r = Inr session \<and>
      \<not> hasSession session st \<and> st' = AList.update session command st \<and> attach_command env cx command)"
proof -
  have claude: ?thesis if "attach_claude cx session st = (r, st')" for session
    using that by (auto simp: attach_claude_def Let_def split: if_splits)
  have codex: ?thesis if s: "laneTmuxSession (lane_str (ac_lane cx) ''identity'') = Inr session"
    and k: "runtime_str (ac_lane cx) ''kind'' = Some ''codex''" and c: "attach_codex env cx session st = (r, st')" for session
  proof (cases "appServerSocketPath (ae_sha256 env) (ac_runtimeDirectory cx) (lane_str (ac_lane cx) ''id'')")
    case (Inl e)
    with c have "r = Inl e \<and> st' = st" by (auto simp: attach_codex_def)
    then show ?thesis by simp
  next
    case (Inr socket)
    with c s k show ?thesis
      by (auto simp: attach_codex_def codex_viewer_def attach_command_def
          split: if_splits option.splits sum.split dest!: ethen_create set_nonempty_Some)
  qed
  have other: ?thesis if "laneTmuxSession (lane_str (ac_lane cx) ''identity'') = Inr session"
    "runtime_str (ac_lane cx) ''kind'' \<noteq> Some ''codex''" "runtime_str (ac_lane cx) ''kind'' \<noteq> Some ''claude''"
    "attach_other env cx session st = (r, st')" for session
    using that
    by (auto simp: attach_other_def attach_command_def split: if_splits option.splits sum.split
        dest!: ethen_create set_nonempty_Some)
  show ?thesis
  proof (cases "ae_tmux env = None \<or> (\<exists>e. laneTmuxSession (lane_str (ac_lane cx) ''identity'') = Inl e)")
    case True
    with assms have "st' = st \<and> (\<exists>e. r = Inl e)" by (auto simp: ensureAttachTarget_def dest: sym split: option.splits)
    then show ?thesis by auto
  next
    case False
    then obtain tmux session where "ae_tmux env = Some tmux" and s: "laneTmuxSession (lane_str (ac_lane cx) ''identity'') = Inr session"
      by (cases "laneTmuxSession (lane_str (ac_lane cx) ''identity'')") auto
    with assms have
      "(if runtime_str (ac_lane cx) ''kind'' = Some ''claude'' then attach_claude cx session
        else if runtime_str (ac_lane cx) ''kind'' = Some ''codex'' then attach_codex env cx session
        else attach_other env cx session) st = (r, st')"
      by (simp add: ensureAttachTarget_def)
    then show ?thesis using claude codex [OF s] other [OF s] by (simp split: if_splits)
  qed
qed

definition sample_attach_lane :: "string \<Rightarrow> json" where
  "sample_attach_lane kind =
     JObj [(''id'', JStr ''a''), (''identity'', JStr ''Ann''), (''runtime'', JObj [(''kind'', JStr kind), (''command'', JStr ''cli'')])]"

definition sample_attach_env :: attach_env where
  "sample_attach_env =
     \<lparr>ae_tmux = Some ''tmux'', ae_which = (\<lambda>n. None), ae_sha256 = (\<lambda>s. ''0123''), ae_listening = (\<lambda>p. True),
      ae_loaded = (\<lambda>p. Inr [Le_message (JObj [(''id'', JStr ''loaded''),
        (''result'', JObj [(''data'', JArr [JStr ''t1''])])])]),
      ae_new_session = (\<lambda>s. (0, [])), ae_selfCommand = [''agent-mesh'']\<rparr>"

theorem attach_opens_only_its_own_witness:
  "(\<exists>command. snd (ensureAttachTarget sample_attach_env
      \<lparr>ac_lane = sample_attach_lane ''codex'', ac_runtimeDirectory = ''/r'', ac_conversationId = Some ''t1'', ac_daemonSession = None\<rparr> [])
     = [(''mesh-lane-Ann'', command)] \<and> last command = ''t1'')"
proof -
  let ?cx = "\<lparr>ac_lane = sample_attach_lane ''codex'', ac_runtimeDirectory = ''/r'', ac_conversationId = Some ''t1'', ac_daemonSession = None\<rparr>"
  obtain r st' where run: "ensureAttachTarget sample_attach_env ?cx [] = (r, st')" by (cases "ensureAttachTarget sample_attach_env ?cx []")
  have "fst (ensureAttachTarget sample_attach_env ?cx []) = Inr ''mesh-lane-Ann''" by code_simp
  with run have "r = Inr ''mesh-lane-Ann''" by simp
  with attach_opens_only_its_own [OF run] run show ?thesis
    by (auto simp: hasSession_def attach_command_def runtime_str_def sample_attach_lane_def)
qed

text \<open>A session of the right name is taken for the lane's, whatever runs in it.  The check for a
  session that is not this agent's is made only when one is created, so when a session of the name
  exists already the attach returns it: the operator is put into a stranger's session.\<close>

theorem attach_absorbs_strangers:
  assumes "runtime_str (ac_lane cx) ''kind'' = Some ''antigravity''" "ae_tmux env = Some tmux"
    and "laneTmuxSession (lane_str (ac_lane cx) ''identity'') = Inr session" "map_of st session = Some command"
  shows "ensureAttachTarget env cx st = (Inr session, st)"
  using assms by (simp add: ensureAttachTarget_def attach_other_def hasSession_def)

theorem attach_absorbs_strangers_witness:
  "ensureAttachTarget sample_attach_env
     \<lparr>ac_lane = sample_attach_lane ''antigravity'', ac_runtimeDirectory = ''/r'', ac_conversationId = None, ac_daemonSession = None\<rparr>
     [(''mesh-lane-Ann'', [''vim''])] = (Inr ''mesh-lane-Ann'', [(''mesh-lane-Ann'', [''vim''])])"
  by (rule attach_absorbs_strangers [where command = "[''vim'']" and tmux = "''tmux''"])
    (simp_all add: sample_attach_env_def sample_attach_lane_def runtime_str_def lane_str_def laneTmuxSession_def)

end
