(* ===== verification/Command_Line.thy ===== *)
theory Command_Line
  imports Config_Store Key_Manager Provisioning Attach Bundle
begin

text \<open>
  \<open>src/cli.ts\<close>: the options of the command line and its commands.  The state is the configuration
  file, the secrets, the sessions of tmux, what was printed and the control requests that were made.
  The answers of the daemon, the Hub and the system's service manager, and the programs that stay in
  the foreground, are in \<open>cli_env\<close>.
\<close>

section \<open>Options\<close>

record parsed_options =
  po_positionals :: "string list"
  po_values :: "(string \<times> string list) list"
  po_flags :: "string list"
  po_configFile :: string
  po_stateDirectory :: string
  po_runtimeDirectory :: string
  po_secretDirectory :: string

definition VALUE_OPTIONS :: "string list" where
  "VALUE_OPTIONS = [''--config'', ''--state-dir'', ''--runtime-dir'', ''--secret-dir'', ''--lane'', ''--runtime'',
     ''--workspace'', ''--identity'', ''--agent-type'', ''--security-profile'', ''--model'', ''--to'', ''--content'',
     ''--reply-to'', ''--client-message-id'', ''--channel'', ''--provider'', ''--token-file'', ''--account-ref'',
     ''--event-id'', ''--out'']"

definition BOOLEAN_OPTIONS :: "string list" where
  "BOOLEAN_OPTIONS = [''--json'', ''--yes'', ''--acknowledge-risk'']"

definition values_of :: "(string \<times> string list) list \<Rightarrow> string \<Rightarrow> string list" where
  "values_of vals name = (case map_of vals name of None \<Rightarrow> [] | Some vs \<Rightarrow> vs)"

type_synonym option_lists = "string list \<times> (string \<times> string list) list \<times> string list"

fun parse_args :: "string list \<Rightarrow> option_lists \<Rightarrow> exn + option_lists" where
  "parse_args [] acc = Inr acc"
| "parse_args (a # as) (pos, vals, flags) =
     (if a = [] then parse_args as (pos, vals, flags)
      else if a \<in> set VALUE_OPTIONS then
        (case as of
           [] \<Rightarrow> Inl (PlainError (a @ '' requires a value''))
         | v # as' \<Rightarrow>
             if v = [] then Inl (PlainError (a @ '' requires a value''))
             else parse_args as' (pos, AList.update a (values_of vals a @ [v]) vals, flags))
      else if a \<in> set BOOLEAN_OPTIONS then parse_args as (pos, vals, List.insert a flags)
      else if take 2 a = ''--'' then Inl (PlainError (''Unknown option: '' @ a))
      else parse_args as (pos @ [a], vals, flags))"

definition last_value :: "(string \<times> string list) list \<Rightarrow> string \<Rightarrow> string option" where
  "last_value vals name = (case values_of vals name of [] \<Rightarrow> None | vs \<Rightarrow> Some (last vs))"

definition parseOptions :: "agent_mesh_locations \<Rightarrow> string list \<Rightarrow> exn + parsed_options" where
  "parseOptions loc args =
     sbind (parse_args args ([], [], [])) (\<lambda>(pos, vals, flags).
       let path = (\<lambda>name fallback. case last_value vals name of None \<Rightarrow> fallback | Some p \<Rightarrow> p) in
       Inr \<lparr>po_positionals = pos, po_values = vals, po_flags = flags,
         po_configFile = path ''--config'' (al_configFile loc),
         po_stateDirectory = path ''--state-dir'' (al_stateDirectory loc),
         po_runtimeDirectory = path ''--runtime-dir'' (al_runtimeDirectory loc),
         po_secretDirectory = path ''--secret-dir'' (al_secretDirectory loc)\<rparr>)"

definition option_of :: "parsed_options \<Rightarrow> string \<Rightarrow> string option" where
  "option_of opts name = last_value (po_values opts) name"

definition runtimeKind :: "parsed_options \<Rightarrow> exn + string" where
  "runtimeKind opts =
     (let v = (case option_of opts ''--runtime'' of None \<Rightarrow> ''claude'' | Some r \<Rightarrow> r) in
      if v \<in> {''claude'', ''codex'', ''antigravity''} then Inr v
      else Inl (PlainError ''--runtime must be claude, codex or antigravity''))"

definition defaultAgentType :: "string \<Rightarrow> string" where
  "defaultAgentType kind =
     (if kind = ''claude'' then ''ai-claude'' else if kind = ''codex'' then ''ai-codex'' else ''ai-antigravity'')"

section \<open>State and environment\<close>

record cli_state =
  st_files :: config_files
  st_secrets :: secret_store
  st_sessions :: sessions
  st_out :: "json list"
  st_calls :: "(string \<times> json) list"

record cli_env =
  cl_contracts :: config_contracts
  cl_parse :: "string \<Rightarrow> json option"
  cl_print :: "json \<Rightarrow> string"
  cl_fault :: "save_fault option"
  cl_secret_fault :: "save_fault option"
  cl_kc :: key_contracts
  cl_sha256 :: "string \<Rightarrow> string"
  cl_probe :: "exn + json option"
  cl_control :: "string \<Rightarrow> json \<Rightarrow> exn + json"
  cl_parse_url :: "string \<Rightarrow> url option"
  cl_lookup :: "string \<Rightarrow> exn + http_response"
  cl_surface :: "exn + http_response"
  cl_signed :: "exn + unit"
  cl_type_lookup :: "exn + http_response"
  cl_resolve :: "string \<Rightarrow> string"
  cl_cwd :: string
  cl_read :: "string \<Rightarrow> exn + string"
  cl_trim :: "string \<Rightarrow> string"
  cl_service :: "string \<Rightarrow> exn + json"
  cl_foreground :: "string \<Rightarrow> exn + unit"
  cl_attach_env :: attach_env
  cl_attach_exit :: int
  cl_bundle :: bundle_env
  cl_ring :: diagnostic_ring
  cl_out_file :: "exn + unit"

type_synonym 'a cli = "(cli_state, 'a) eff"

definition cli_out :: "json \<Rightarrow> unit cli" where
  "cli_out v s = (Inr (), s\<lparr>st_out := st_out s @ [v]\<rparr>)"

definition requestControl :: "cli_env \<Rightarrow> string \<Rightarrow> json \<Rightarrow> json cli" where
  "requestControl env meth params s = (cl_control env meth params, s\<lparr>st_calls := st_calls s @ [(meth, params)]\<rparr>)"

definition cli_load :: "cli_env \<Rightarrow> json cli" where
  "cli_load env s = (config_load (cl_contracts env) (cl_parse env) (st_files s), s)"

definition cli_save :: "cli_env \<Rightarrow> json \<Rightarrow> json cli" where
  "cli_save env cfg s =
     (let (r, files) = config_save (cl_contracts env) (cl_print env) (cl_fault env) cfg (st_files s) in
      (r, s\<lparr>st_files := files\<rparr>))"

definition reloadIfRunning :: "cli_env \<Rightarrow> unit cli" where
  "reloadIfRunning env =
     ebind (elift (cl_probe env)) (\<lambda>status.
     case status of
       None \<Rightarrow> eret ()
     | Some v \<Rightarrow> ethen (requestControl env ''config.reload'' (JObj [])) (eret ()))"

definition mutateConfig :: "cli_env \<Rightarrow> (json \<Rightarrow> exn + json) \<Rightarrow> json cli" where
  "mutateConfig env mutation =
     ebind (cli_load env) (\<lambda>cfg.
     ebind (elift (mutation cfg)) (\<lambda>cfg'.
     ebind (cli_save env cfg') (\<lambda>saved.
     ethen (reloadIfRunning env) (eret saved))))"

definition printed :: "json cli \<Rightarrow> int cli" where
  "printed m = ebind m (\<lambda>v. ethen (cli_out v) (eret 0))"

definition need_option :: "parsed_options \<Rightarrow> string \<Rightarrow> string \<Rightarrow> string cli" where
  "need_option opts name msg = (case option_of opts name of None \<Rightarrow> ethrow msg | Some v \<Rightarrow> eret v)"

section \<open>Changes of a configuration\<close>

definition set_field :: "string \<Rightarrow> json \<Rightarrow> json \<Rightarrow> json" where
  "set_field k x v = (case v of JObj fs \<Rightarrow> JObj (AList.update k x fs) | _ \<Rightarrow> v)"

definition same_id :: "string \<Rightarrow> json \<Rightarrow> bool" where
  "same_id i v = (jfield v ''id'' = Some (JStr i))"

text \<open>\<open>findIndex\<close> and a change at the index.\<close>

fun alter_first :: "('a \<Rightarrow> bool) \<Rightarrow> ('a \<Rightarrow> 'a list) \<Rightarrow> 'a list \<Rightarrow> 'a list" where
  "alter_first p f [] = []"
| "alter_first p f (x # xs) = (if p x then f x @ xs else x # alter_first p f xs)"

definition set_hub :: "string \<Rightarrow> json \<Rightarrow> exn + json" where
  "set_hub u cfg = Inr (set_field ''hub'' (JObj [(''base_url'', JStr u)]) cfg)"

definition push_lane :: "string \<Rightarrow> json \<Rightarrow> json \<Rightarrow> exn + json" where
  "push_lane i lane cfg =
     (if list_ex (same_id i) (arr_of cfg ''lanes'') then Inl (PlainError (''Lane already exists: '' @ i))
      else Inr (set_field ''lanes'' (JArr (arr_of cfg ''lanes'' @ [lane])) cfg))"

text \<open>\<open>enable\<close>, \<open>disable\<close> or \<open>remove\<close> applied to an item of a list.\<close>

definition switch_item :: "string \<Rightarrow> json \<Rightarrow> json list" where
  "switch_item command v = (if command = ''remove'' then [] else [set_field ''enabled'' (JBool (command = ''enable'')) v])"

definition change_lane :: "string \<Rightarrow> string \<Rightarrow> json \<Rightarrow> exn + json" where
  "change_lane command i cfg =
     (if \<not> list_ex (same_id i) (arr_of cfg ''lanes'') then Inl (PlainError (''Unknown lane: '' @ i))
      else Inr (set_field ''lanes'' (JArr (alter_first (same_id i) (switch_item command) (arr_of cfg ''lanes''))) cfg))"

definition retire :: "string \<Rightarrow> json \<Rightarrow> json" where
  "retire i cfg =
     (let ids = (case retired_ids cfg of JArr vs \<Rightarrow> vs | _ \<Rightarrow> []) in
      set_field ''retired_channel_ids'' (JArr (if JStr i \<in> set ids then ids else ids @ [JStr i])) cfg)"

definition change_channel :: "string \<Rightarrow> string \<Rightarrow> string \<Rightarrow> json \<Rightarrow> exn + json" where
  "change_channel command laneId i cfg =
     (case List.find (same_id laneId) (arr_of cfg ''lanes'') of
        None \<Rightarrow> Inl (PlainError (''Unknown lane: '' @ laneId))
      | Some lane \<Rightarrow>
          if \<not> list_ex (same_id i) (arr_of lane ''channels'') then Inl (PlainError (''Unknown channel: '' @ i))
          else
            (let lane' = set_field ''channels'' (JArr (alter_first (same_id i) (switch_item command) (arr_of lane ''channels''))) lane;
                 cfg' = set_field ''lanes'' (JArr (alter_first (same_id laneId) (\<lambda>l. [lane']) (arr_of cfg ''lanes''))) cfg in
             Inr (if command = ''remove'' then retire i cfg' else cfg')))"

definition new_channel :: "string \<Rightarrow> string \<Rightarrow> string \<Rightarrow> string \<Rightarrow> json" where
  "new_channel i provider accountRef secretRef =
     JObj [(''id'', JStr i), (''provider'', JStr provider), (''enabled'', JBool True), (''account_ref'', JStr accountRef),
       (''secret_ref'', JStr secretRef), (''options'', JObj [])]"

definition add_channel :: "string \<Rightarrow> string \<Rightarrow> json \<Rightarrow> json \<Rightarrow> exn + json" where
  "add_channel laneId i channel cfg =
     (case List.find (same_id laneId) (arr_of cfg ''lanes'') of
        None \<Rightarrow> Inl (PlainError (''Unknown lane: '' @ laneId))
      | Some lane \<Rightarrow>
          if list_ex (\<lambda>l. list_ex (same_id i) (arr_of l ''channels'')) (arr_of cfg ''lanes'') \<or>
             i \<in> set (retired_list (retired_ids cfg))
          then Inl (PlainError (''Channel driver ID already exists: '' @ i))
          else Inr (set_field ''lanes'' (JArr (alter_first (same_id laneId)
            (\<lambda>l. [set_field ''channels'' (JArr (arr_of lane ''channels'' @ [channel])) lane]) (arr_of cfg ''lanes''))) cfg))"

section \<open>Commands\<close>

definition cli_hub_set :: "cli_env \<Rightarrow> string option \<Rightarrow> int cli" where
  "cli_hub_set env u =
     (case u of
        None \<Rightarrow> ethrow ''config hub set requires URL''
      | Some t \<Rightarrow> ethen (erequire (cl_parse_url env t \<noteq> None) ''Invalid URL'') (printed (mutateConfig env (set_hub t))))"

text \<open>Whether the key of a registered identity is held here.\<close>

definition held_key :: "cli_env \<Rightarrow> string \<Rightarrow> key_info option cli" where
  "held_key env identity s =
     (sbind (key_manager_new (cl_sha256 env) identity) (\<lambda>km. peek (cl_kc env) km (st_secrets s)), s)"

definition key_is_mine :: "key_info option \<Rightarrow> registered_identity \<Rightarrow> bool" where
  "key_is_mine held reg =
     (case held of
        None \<Rightarrow> False
      | Some k \<Rightarrow> list_ex (\<lambda>c. ik_fingerprint c = ki_fingerprint k) (ri_keys reg))"

text \<open>The type an identity is registered under: a Hub that reports types is final, an older one is
  filled in from the key's record and from a signed lookup.\<close>

definition registered_type :: "cli_env \<Rightarrow> string \<Rightarrow> registered_identity \<Rightarrow> key_info \<Rightarrow> string option" where
  "registered_type env identity reg held =
     (case hubSurfaceVersion (cl_surface env) of
        Some v \<Rightarrow>
          if 2 \<le> v then ri_type reg
          else (case ri_type reg of Some t \<Rightarrow> Some t
            | None \<Rightarrow> (case ki_agentType held of Some t \<Rightarrow> Some t
              | None \<Rightarrow> lookupRegisteredType identity (cl_signed env) (cl_type_lookup env)))
      | None \<Rightarrow>
          (case ri_type reg of Some t \<Rightarrow> Some t
            | None \<Rightarrow> (case ki_agentType held of Some t \<Rightarrow> Some t
              | None \<Rightarrow> lookupRegisteredType identity (cl_signed env) (cl_type_lookup env))))"

definition key_status_text :: "registered_identity \<Rightarrow> string" where
  "key_status_text reg = (case ri_keyStatus reg of Some t \<Rightarrow> t | None \<Rightarrow> ''registered'')"

definition check_registered :: "cli_env \<Rightarrow> string \<Rightarrow> string \<Rightarrow> registered_identity \<Rightarrow> unit cli" where
  "check_registered env identity agentType reg =
     (if ri_deleted reg then ethrow (''Agent Identity is permanently reserved after teardown: '' @ identity)
      else ebind (held_key env identity) (\<lambda>held.
        case held of
          None \<Rightarrow> ethrow (''Agent Identity belongs to a different key: '' @ identity @ '' ('' @ key_status_text reg @ '')'')
        | Some k \<Rightarrow>
            ethen (erequire (key_is_mine held reg)
              (''Agent Identity belongs to a different key: '' @ identity @ '' ('' @ key_status_text reg @ '')''))
            (case set_nonempty (registered_type env identity reg k) of
               None \<Rightarrow> eret ()
             | Some t \<Rightarrow> erequire (t = agentType)
                 (''Agent Identity '' @ identity @ '' is registered as '' @ t @ ''; this would add it as '' @ agentType @
                  ''. Use the matching runtime, or a new identity.''))))"

definition new_lane :: "string \<Rightarrow> string \<Rightarrow> string \<Rightarrow> string \<Rightarrow> string option \<Rightarrow> string \<Rightarrow> string \<Rightarrow> bool \<Rightarrow> json" where
  "new_lane i identity agentType kind model workspace profile risk =
     JObj [(''id'', JStr i), (''identity'', JStr identity), (''agent_type'', JStr agentType), (''enabled'', JBool True),
       (''runtime'', JObj ([(''kind'', JStr kind)] @ (case model of None \<Rightarrow> [] | Some m \<Rightarrow> [(''model'', JStr m)]) @
         [(''workspace'', JStr workspace), (''reply_mode'', JStr ''auto''), (''timeout_seconds'', JNum 1800),
          (''security'', JObj [(''profile'', JStr profile), (''acknowledged_risk'', JBool risk)])])),
       (''channels'', JArr [])]"

definition hub_of :: "json \<Rightarrow> json option" where
  "hub_of cfg = (if js_truthy (jfield cfg ''hub'') then jfield cfg ''hub'' else None)"

definition cli_lane_add :: "cli_env \<Rightarrow> parsed_options \<Rightarrow> string \<Rightarrow> int cli" where
  "cli_lane_add env opts i =
     ebind (elift (runtimeKind opts)) (\<lambda>kind.
     let workspace = cl_resolve env (case option_of opts ''--workspace'' of None \<Rightarrow> cl_cwd env | Some w \<Rightarrow> w);
         profile = (case option_of opts ''--security-profile'' of None \<Rightarrow> ''workspace'' | Some p \<Rightarrow> p);
         risk = (''--acknowledge-risk'' \<in> set (po_flags opts));
         identity = (case option_of opts ''--identity'' of None \<Rightarrow> i | Some x \<Rightarrow> x);
         agentType = (case option_of opts ''--agent-type'' of None \<Rightarrow> defaultAgentType kind | Some t \<Rightarrow> t) in
     ethen (erequire (profile \<in> {''sandboxed'', ''workspace'', ''unrestricted''})
       ''--security-profile must be sandboxed, workspace or unrestricted'')
     (ethen (erequire (\<not> (profile = ''unrestricted'' \<and> \<not> risk)) ''unrestricted mode requires --acknowledge-risk'')
     (ebind (cli_load env) (\<lambda>current.
     case hub_of current of
       None \<Rightarrow> ethrow ''Configure a Hub before adding a lane so Agent Identity can be checked''
     | Some hub \<Rightarrow>
     ethen (erequire (\<not> list_ex (\<lambda>l. jfield l ''identity'' = Some (JStr identity)) (arr_of current ''lanes''))
       (''Agent Identity is already assigned locally: '' @ identity))
     (ebind (elift (resolveHubEndpoints (cl_parse_url env) (str_of hub ''base_url'') (jstr (jfield hub ''rpc_ws'')) (jstr (jfield hub ''api_http'')))) (\<lambda>endpoints.
     ebind (elift (lookupAgentIdentity (cc_IDENTITY_RE (cl_contracts env)) identity (cl_lookup env identity))) (\<lambda>registered.
     ethen (case registered of None \<Rightarrow> eret () | Some reg \<Rightarrow> check_registered env identity agentType reg)
     (printed (mutateConfig env (push_lane i
       (new_lane i identity agentType kind (option_of opts ''--model'') workspace profile risk)))))))))))"

definition cli_channel_add :: "cli_env \<Rightarrow> parsed_options \<Rightarrow> string \<Rightarrow> int cli" where
  "cli_channel_add env opts i =
     ebind (need_option opts ''--lane'' ''channel add requires --lane'') (\<lambda>laneId.
     let provider = (case option_of opts ''--provider'' of None \<Rightarrow> ''discord'' | Some p \<Rightarrow> p);
         secretRef = ''channel-'' @ i @ ''.token'' in
     ethen (erequire (provider = ''discord'') ''v0.1 only implements discord'')
     (ebind (need_option opts ''--token-file'' ''Discord channel add requires --token-file'') (\<lambda>tokenFile.
     ebind (elift (cl_read env (cl_resolve env tokenFile))) (\<lambda>token.
     ethen (\<lambda>s. (let (r, secrets) = secret_set (cl_secret_fault env) secretRef (cl_trim env token) (st_secrets s) in
       (r, s\<lparr>st_secrets := secrets\<rparr>)))
     (printed (mutateConfig env (add_channel laneId i
       (new_channel i provider (case option_of opts ''--account-ref'' of None \<Rightarrow> ''discord-bot'' | Some a \<Rightarrow> a) secretRef))))))))"

definition find_lane :: "(json \<Rightarrow> bool) \<Rightarrow> string \<Rightarrow> json \<Rightarrow> json cli" where
  "find_lane p msg cfg = (case List.find p (arr_of cfg ''lanes'') of None \<Rightarrow> ethrow msg | Some l \<Rightarrow> eret l)"

definition cli_channel_list :: "cli_env \<Rightarrow> parsed_options \<Rightarrow> int cli" where
  "cli_channel_list env opts =
     ebind (need_option opts ''--lane'' ''channel list requires --lane'') (\<lambda>laneId.
     printed (ebind (cli_load env) (\<lambda>cfg. ebind (find_lane (same_id laneId) (''Unknown lane: '' @ laneId) cfg) (\<lambda>lane.
       eret (field_of lane ''channels'')))))"

definition cli_channel_change :: "cli_env \<Rightarrow> parsed_options \<Rightarrow> string \<Rightarrow> string \<Rightarrow> int cli" where
  "cli_channel_change env opts command i =
     ebind (need_option opts ''--lane'' (''channel '' @ command @ '' requires --lane'')) (\<lambda>laneId.
     printed (mutateConfig env (change_channel command laneId i)))"

definition lane_identity :: "string \<Rightarrow> json \<Rightarrow> string" where
  "lane_identity i cfg = (case List.find (same_id i) (arr_of cfg ''lanes'') of None \<Rightarrow> [] | Some l \<Rightarrow> str_of l ''identity'')"

text \<open>The session of a removed lane's agent is released after the configuration was saved.\<close>

definition release_session :: "cli_env \<Rightarrow> string \<Rightarrow> unit cli" where
  "release_session env identity s =
     (let (r, sessions) = releaseLaneSession (cl_attach_env env) identity (st_sessions s) in
      (sbind r (\<lambda>_. Inr ()), s\<lparr>st_sessions := sessions\<rparr>))"

definition cli_lane_change :: "cli_env \<Rightarrow> string \<Rightarrow> string \<Rightarrow> int cli" where
  "cli_lane_change env command i =
     ebind (cli_load env) (\<lambda>cfg.
     ebind (mutateConfig env (change_lane command i)) (\<lambda>saved.
     ethen (cli_out saved)
     (ethen (if command = ''remove'' \<and> lane_identity i cfg \<noteq> [] then release_session env (lane_identity i cfg) else eret ())
     (eret 0))))"

definition cli_control :: "cli_env \<Rightarrow> parsed_options \<Rightarrow> string \<Rightarrow> string \<Rightarrow> (string \<Rightarrow> (string \<times> json) list) \<Rightarrow> int cli" where
  "cli_control env opts msg meth params =
     ebind (need_option opts ''--lane'' msg) (\<lambda>laneId. printed (requestControl env meth (JObj (params laneId))))"

definition optional_field :: "parsed_options \<Rightarrow> string \<Rightarrow> string \<Rightarrow> (string \<times> json) list" where
  "optional_field opts name k = (case option_of opts name of None \<Rightarrow> [] | Some v \<Rightarrow> [(k, JStr v)])"

definition cli_mesh_send :: "cli_env \<Rightarrow> parsed_options \<Rightarrow> int cli" where
  "cli_mesh_send env opts =
     (case (option_of opts ''--lane'', option_of opts ''--to'', option_of opts ''--content'') of
        (Some laneId, Some to, Some content) \<Rightarrow>
          printed (requestControl env ''mesh.send'' (JObj ([(''lane_id'', JStr laneId), (''to'', JStr to), (''content'', JStr content)] @
            optional_field opts ''--reply-to'' ''reply_to'' @ optional_field opts ''--client-message-id'' ''client_message_id'')))
      | _ \<Rightarrow> ethrow ''mesh send requires --lane, --to and --content'')"

definition cli_outbox_replay :: "cli_env \<Rightarrow> parsed_options \<Rightarrow> int cli" where
  "cli_outbox_replay env opts =
     cli_control env opts ''outbox replay requires --lane'' ''outbox.replay'' (\<lambda>laneId.
       (''lane_id'', JStr laneId) #
       (case map_of (po_values opts) ''--event-id'' of None \<Rightarrow> [] | Some ids \<Rightarrow> [(''event_ids'', JArr (map JStr ids))]))"

definition cli_status :: "cli_env \<Rightarrow> int cli" where
  "cli_status env =
     ebind (elift (cl_probe env)) (\<lambda>status.
     case status of
       None \<Rightarrow> ethen (cli_out (JObj [(''running'', JBool False)])) (eret 1)
     | Some v \<Rightarrow> ethen (cli_out v) (eret 0))"

definition cli_discord_run :: "cli_env \<Rightarrow> parsed_options \<Rightarrow> int cli" where
  "cli_discord_run env opts =
     (case (option_of opts ''--lane'', option_of opts ''--channel'') of
        (Some laneId, Some channelId) \<Rightarrow>
          ebind (cli_load env) (\<lambda>cfg.
          case Option.bind (List.find (same_id laneId) (arr_of cfg ''lanes'')) (\<lambda>l. List.find (same_id channelId) (arr_of l ''channels'')) of
            None \<Rightarrow> ethrow ''Discord channel configuration was not found''
          | Some ch \<Rightarrow>
              ethen (erequire (jfield ch ''provider'' = Some (JStr ''discord'')) ''Discord channel configuration was not found'')
              (ethen (elift (cl_foreground env ''discord'')) (eret 0)))
      | _ \<Rightarrow> ethrow ''channel discord run requires lane and channel'')"

definition lane_thread_of :: "json \<Rightarrow> string \<Rightarrow> string option" where
  "lane_thread_of lanes i =
     Option.bind (Option.bind (jarr (Some lanes)) (List.find (\<lambda>l. jfield l ''lane_id'' = Some (JStr i)))) (\<lambda>l.
       jstr (Option.bind (jfield l ''runtime_status'') (\<lambda>r. jfield r ''threadId'')))"

definition cli_attach :: "cli_env \<Rightarrow> parsed_options \<Rightarrow> string \<Rightarrow> int cli" where
  "cli_attach env opts name =
     ethen (erequire (ae_tmux (cl_attach_env env) \<noteq> None) ''tmux is not installed'')
     (ebind (cli_load env) (\<lambda>cfg.
     ebind (find_lane (\<lambda>l. same_id name l \<or> jfield l ''identity'' = Some (JStr name)) (''Unknown lane: '' @ name) cfg) (\<lambda>lane.
     ebind (requestControl env ''lane.list'' (JObj [])) (\<lambda>lanes.
     ebind (\<lambda>s. (let (r, sessions) = ensureAttachTarget (cl_attach_env env)
         \<lparr>ac_lane = lane, ac_runtimeDirectory = po_runtimeDirectory opts,
          ac_conversationId = lane_thread_of lanes (str_of lane ''id''), ac_daemonSession = None\<rparr> (st_sessions s) in
       (r, s\<lparr>st_sessions := sessions\<rparr>))) (\<lambda>session.
     eret (cl_attach_exit env))))))"

definition cli_bundle :: "cli_env \<Rightarrow> parsed_options \<Rightarrow> int cli" where
  "cli_bundle env opts =
     (let b = fst (collectBundle (cl_bundle env) (cl_ring env));
          out = (case option_of opts ''--out'' of None \<Rightarrow> bundlePath (be_iso (cl_bundle env)) (po_stateDirectory opts) (be_now (cl_bundle env))
            | Some p \<Rightarrow> p) in
      ethen (elift (cl_out_file env))
      (printed (eret (JObj [(''path'', JStr out), (''complete'', JBool (bd_complete b)),
        (''incomplete_sections'', JArr (map JStr (bd_incomplete_sections b)))]))))"

definition which_json :: "cli_env \<Rightarrow> string \<Rightarrow> json" where
  "which_json env name = jopt (ae_which (cl_attach_env env) name)"

definition cli_doctor :: "cli_env \<Rightarrow> parsed_options \<Rightarrow> int cli" where
  "cli_doctor env opts =
     ebind (cli_load env) (\<lambda>cfg.
     ebind (elift (cl_probe env)) (\<lambda>status.
     printed (eret (JObj [(''ok'', JBool True), (''config_file'', JStr (po_configFile opts)),
       (''config_revision'', field_of cfg ''revision''),
       (''daemon'', case status of None \<Rightarrow> JObj [(''running'', JBool False)] | Some v \<Rightarrow> v),
       (''dependencies'', JObj [(''tmux'', which_json env ''tmux''), (''claude'', which_json env ''claude''),
         (''codex'', which_json env ''codex''), (''antigravity'', which_json env ''agy'')])]))))"

definition cli_service :: "cli_env \<Rightarrow> string \<Rightarrow> int cli" where
  "cli_service env operation = printed (elift (cl_service env operation))"

definition cli_foreground :: "cli_env \<Rightarrow> string \<Rightarrow> int cli" where
  "cli_foreground env program = ethen (elift (cl_foreground env program)) (eret 0)"

section \<open>Dispatch\<close>

definition nth_word :: "'a list \<Rightarrow> nat \<Rightarrow> 'a option" where
  "nth_word xs n = (if n < length xs then Some (xs ! n) else None)"

definition service_operations :: "string list" where
  "service_operations = [''install'', ''status'', ''uninstall'', ''restart'', ''stop'', ''logs'']"

definition item_commands :: "string list" where
  "item_commands = [''enable'', ''disable'', ''remove'']"

text \<open>\<open>group\<close>, \<open>command\<close> and \<open>value\<close> are the first three words, \<open>extra\<close> the rest; None is a command that
  is not known.\<close>

definition handleCommand :: "cli_env \<Rightarrow> parsed_options \<Rightarrow> (int cli) option" where
  "handleCommand env opts =
     (let ws = po_positionals opts; group = nth_word ws 0; command = nth_word ws 1; v = nth_word ws 2; extra = drop 3 ws;
          g = (\<lambda>name. group = Some name); c = (\<lambda>name. command = Some name) in
      if g ''up'' \<and> command = None then Some (cli_service env ''install'')
      else if g ''down'' \<and> command = None then Some (cli_service env ''stop'')
      else if g ''restart'' \<and> command = None then Some (cli_service env ''restart'')
      else if g ''logs'' \<and> command = None then Some (cli_service env ''logs'')
      else if g ''service'' \<and> command \<noteq> None \<and> the command \<in> set service_operations \<and> v = None
        then Some (cli_service env (the command))
      else if g ''channel'' \<and> c ''discord'' \<and> v = Some ''run'' then Some (cli_discord_run env opts)
      else if g ''attach'' \<and> command \<noteq> None \<and> v = None then Some (cli_attach env opts (the command))
      else if g ''runtime'' \<and> c ''observe''
        then Some (ebind (need_option opts ''--lane'' ''runtime observe requires --lane'') (\<lambda>i. cli_foreground env ''observe''))
      else if g ''runtime'' \<and> c ''mcp''
        then Some (ebind (need_option opts ''--lane'' ''runtime mcp requires --lane'') (\<lambda>i. cli_foreground env ''mcp''))
      else if g ''daemon'' \<and> c ''run'' \<and> v = None then Some (cli_foreground env ''daemon'')
      else if g ''daemon'' \<and> c ''status'' \<or> g ''status'' then Some (cli_status env)
      else if g ''daemon'' \<and> c ''reload'' then Some (printed (requestControl env ''config.reload'' (JObj [])))
      else if g ''daemon'' \<and> c ''stop'' then Some (printed (requestControl env ''daemon.shutdown'' (JObj [])))
      else if g ''config'' \<and> c ''hub'' \<and> v = Some ''set'' then Some (cli_hub_set env (nth_word extra 0))
      else if g ''config'' \<and> c ''hub'' \<and> v = Some ''show''
        then Some (printed (ebind (cli_load env) (\<lambda>cfg. eret (field_of cfg ''hub''))))
      else if g ''lane'' \<and> c ''add'' \<and> v \<noteq> None then Some (cli_lane_add env opts (the v))
      else if g ''lane'' \<and> c ''list'' then Some (printed (ebind (cli_load env) (\<lambda>cfg. eret (field_of cfg ''lanes''))))
      else if g ''channel'' \<and> c ''add'' \<and> v \<noteq> None then Some (cli_channel_add env opts (the v))
      else if g ''channel'' \<and> c ''list'' then Some (cli_channel_list env opts)
      else if g ''channel'' \<and> command \<noteq> None \<and> the command \<in> set item_commands \<and> v \<noteq> None
        then Some (cli_channel_change env opts (the command) (the v))
      else if g ''lane'' \<and> command \<noteq> None \<and> the command \<in> set item_commands \<and> v \<noteq> None
        then Some (cli_lane_change env (the command) (the v))
      else if g ''mesh'' \<and> c ''send'' then Some (cli_mesh_send env opts)
      else if g ''mesh'' \<and> c ''agents''
        then Some (cli_control env opts ''mesh agents requires --lane'' ''mesh.list_agents'' (\<lambda>i. [(''lane_id'', JStr i)]))
      else if g ''mesh'' \<and> c ''inbox''
        then Some (cli_control env opts ''mesh inbox requires --lane'' ''mesh.inbox'' (\<lambda>i. [(''lane_id'', JStr i)]))
      else if g ''outbox'' \<and> c ''status''
        then Some (cli_control env opts ''outbox status requires --lane'' ''outbox.summary'' (\<lambda>i. [(''lane_id'', JStr i)]))
      else if g ''outbox'' \<and> c ''replay'' then Some (cli_outbox_replay env opts)
      else if g ''diagnostics'' \<and> c ''bundle'' then Some (cli_bundle env opts)
      else if g ''doctor'' then Some (cli_doctor env opts)
      else if g ''paths'' \<and> c ''lane-socket'' \<and> v \<noteq> None \<and> extra = []
        then Some (printed (elift (sbind (laneSocketPath (cl_sha256 env) (po_runtimeDirectory opts) (the v)) (\<lambda>p. Inr (JStr p)))))
      else if g ''tui'' then Some (cli_foreground env ''tui'')
      else None)"

datatype cli_text = Text_version | Text_help | Text_none

text \<open>\<open>main\<close>: the text that is printed beside what the command prints, and the exit code.  \<open>name\<close> is the
  base name the program was called by, \<open>tty\<close> whether both ends are a terminal.\<close>

definition cli_main :: "agent_mesh_locations \<Rightarrow> cli_env \<Rightarrow> bool \<Rightarrow> string \<Rightarrow> string list \<Rightarrow> (cli_text \<times> int) cli" where
  "cli_main loc env tty name rawArgs =
     (if ''--version'' \<in> set rawArgs \<or> ''-v'' \<in> set rawArgs then eret (Text_version, 0)
      else if ''--help'' \<in> set rawArgs \<or> ''-h'' \<in> set rawArgs then eret (Text_help, 0)
      else
        (let args = (if name = ''agent-meshd'' then [''daemon'', ''run''] @ rawArgs else rawArgs) in
         ebind (elift (parseOptions loc args)) (\<lambda>opts.
         if args = [] then
           (if \<not> tty then eret (Text_help, 2) else ebind (cli_foreground env ''tui'') (\<lambda>n. eret (Text_none, n)))
         else case handleCommand env opts of
           None \<Rightarrow> eret (Text_help, 2)
         | Some m \<Rightarrow> ebind m (\<lambda>n. eret (Text_none, n)))))"

text \<open>The exit code of the process.\<close>

definition exit_code :: "exn + cli_text \<times> int \<Rightarrow> int" where
  "exit_code r = (case r of Inl e \<Rightarrow> 1 | Inr (t, n) \<Rightarrow> n)"

end
