(* ===== verification/Command_Line_Props.thy ===== *)
theory Command_Line_Props
  imports Command_Line
begin

text \<open>
  What the commands of the command line do to the configuration and the secrets: an identity is added
  only by the host that owns it, a removed channel's id is never used again, and where the commands
  do less than they mean to.
\<close>

section \<open>Fields\<close>

lemma jfield_set_field: "jfield (set_field k x v) k' = (if k' = k \<and> is_record v then Some x else jfield v k')"
  by (cases v) (simp_all add: set_field_def)

lemma is_record_set_field [simp]: "is_record (set_field k x v) = is_record v"
  by (cases v) (simp_all add: set_field_def)

lemma arr_of_set_field: "arr_of (set_field k (JArr vs) v) k' = (if k' = k \<and> is_record v then vs else arr_of v k')"
  by (simp add: arr_of_def jfield_set_field)

lemma retired_ids_set_field:
  "k \<noteq> ''retired_channel_ids'' \<Longrightarrow> retired_ids (set_field k x v) = retired_ids v"
  by (simp add: retired_ids_def jfield_set_field)

lemma in_retired_list: "i \<in> set (retired_list (JArr ids)) \<longleftrightarrow> JStr i \<in> set ids"
proof -
  have "jstr (Some x) = Some i \<longleftrightarrow> x = JStr i" for x by (cases x) auto
  moreover have "i \<in> set (List.map_filter f ids) \<longleftrightarrow> (\<exists>x\<in>set ids. f x = Some i)" for f
    by (induction ids) (auto simp: List.map_filter_simps split: option.split)
  ultimately show ?thesis by (simp add: retired_list_def)
qed

lemma in_retired_iff: "i \<in> set (retired_list r) \<longleftrightarrow> (\<exists>ids. r = JArr ids \<and> JStr i \<in> set ids)"
  by (cases r) (simp_all only: in_retired_list json.inject json.distinct simp_thms, auto simp: retired_list_def)

lemma retired_ids_retire:
  assumes "is_record v"
  shows "i \<in> set (retired_list (retired_ids (retire j v))) \<longleftrightarrow> i = j \<or> i \<in> set (retired_list (retired_ids v))"
proof -
  have nonnull: "retired_ids (set_field ''retired_channel_ids'' (JArr vs) v) = JArr vs" for vs
    using assms by (simp add: retired_ids_def jfield_set_field)
  show ?thesis by (cases "retired_ids v") (auto simp: retire_def Let_def nonnull in_retired_iff)
qed

lemma retired_list_retire:
  assumes "is_record v"
  shows "set (retired_list (retired_ids v)) \<subseteq> set (retired_list (retired_ids (retire i v)))" "i \<in> set (retired_list (retired_ids (retire i v)))"
  using retired_ids_retire [OF assms] by auto

lemma find_split: "List.find p xs = Some x \<Longrightarrow> \<exists>pre post. xs = pre @ x # post \<and> p x \<and> (\<forall>y\<in>set pre. \<not> p y)"
proof (induction xs)
  case (Cons y ys)
  show ?case
  proof (cases "p y")
    case True
    with Cons.prems have "y # ys = [] @ x # ys \<and> p x" by simp
    then show ?thesis by fastforce
  next
    case False
    with Cons obtain pre post where "ys = pre @ x # post" "p x" "\<forall>z\<in>set pre. \<not> p z" by auto
    with False have "y # ys = (y # pre) @ x # post \<and> p x \<and> (\<forall>z\<in>set (y # pre). \<not> p z)" by simp
    then show ?thesis by blast
  qed
qed simp

lemma same_id_in_ids: "list_ex (same_id i) (arr_of l ''channels'') \<Longrightarrow> l \<in> set ls \<Longrightarrow> i \<in> set (channel_ids ls)"
  by (force simp: channel_ids_def list_ex_iff same_id_def str_of_def)

lemma unused_id:
  assumes "i \<notin> set (channel_ids ls)"
  shows "\<not> list_ex (\<lambda>l. list_ex (same_id i) (arr_of l ''channels'')) ls"
proof
  assume "list_ex (\<lambda>l. list_ex (same_id i) (arr_of l ''channels'')) ls"
  then have "\<exists>l\<in>set ls. list_ex (same_id i) (arr_of l ''channels'')" by (simp add: list_ex_iff)
  with same_id_in_ids assms show False by blast
qed

lemma channel_ids_append: "channel_ids (xs @ ys) = channel_ids xs @ channel_ids ys"
  by (simp add: channel_ids_def)

lemma alter_first_split: "p x \<Longrightarrow> \<forall>y\<in>set pre. \<not> p y \<Longrightarrow> alter_first p f (pre @ x # post) = pre @ f x @ post"
  by (induction pre) auto

section \<open>Histories of a configuration\<close>

text \<open>The changes the commands make to a loaded configuration.\<close>

inductive cli_mutation :: "json \<Rightarrow> json \<Rightarrow> bool" where
  "set_hub u cfg = Inr cfg' \<Longrightarrow> cli_mutation cfg cfg'"
| "push_lane i lane cfg = Inr cfg' \<Longrightarrow> cli_mutation cfg cfg'"
| "change_lane command i cfg = Inr cfg' \<Longrightarrow> cli_mutation cfg cfg'"
| "change_channel command laneId i cfg = Inr cfg' \<Longrightarrow> cli_mutation cfg cfg'"
| "add_channel laneId i channel cfg = Inr cfg' \<Longrightarrow> cli_mutation cfg cfg'"

text \<open>What is saved one after the other: each change is validated and gets the next revision.\<close>

inductive config_history :: "config_contracts \<Rightarrow> json \<Rightarrow> json \<Rightarrow> bool" for cc v where
  start: "config_history cc v v"
| save: "config_history cc v w \<Longrightarrow> cli_mutation w w' \<Longrightarrow> validateConfig cc w' = Inr w'' \<Longrightarrow> config_history cc v (next_revision w'')"

lemma retired_ids_next: "is_record v \<Longrightarrow> retired_ids (next_revision v) = retired_ids v"
  by (simp add: retired_ids_def next_revision_fields(2))

lemma lanes_next: "is_record v \<Longrightarrow> arr_of (next_revision v) ''lanes'' = arr_of v ''lanes''"
  by (simp add: arr_of_def next_revision_fields(2))

lemma find_lane_record: "List.find p (arr_of v ''lanes'') = Some l \<Longrightarrow> is_record v"
  by (cases v) (simp_all add: arr_of_def)

lemma cli_mutation_retired:
  assumes "cli_mutation cfg cfg'"
  shows "set (retired_list (retired_ids cfg)) \<subseteq> set (retired_list (retired_ids cfg'))"
  using assms
proof cases
  case (4 command laneId i)
  then show ?thesis
    using retired_list_retire(1) [of "set_field ''lanes'' x cfg" i for x]
    by (auto simp: change_channel_def Let_def retired_ids_set_field dest: find_lane_record split: option.splits if_splits)
qed (auto simp: set_hub_def push_lane_def change_lane_def add_channel_def retired_ids_set_field
    split: option.splits if_splits)

lemma validated_record: "validateConfig cc v = Inr w \<Longrightarrow> w = v \<and> is_record v"
  by (auto simp: validateConfig_Inr dest: config_ok_record)

lemma history_retired:
  assumes "config_history cc v w"
  shows "set (retired_list (retired_ids v)) \<subseteq> set (retired_list (retired_ids w))"
  using assms
proof induction
  case (save w w' w'')
  from validated_record [OF save.hyps(3)] cli_mutation_retired [OF save.hyps(2)] save.IH
  show ?case by (auto simp: retired_ids_next)
qed simp

text \<open>A configuration that was saved uses no retired id.\<close>

definition unretired :: "json \<Rightarrow> bool" where
  "unretired v = (set (channel_ids (arr_of v ''lanes'')) \<inter> set (retired_list (retired_ids v)) = {})"

lemma saved_unretired: "validateConfig cc v = Inr w \<Longrightarrow> unretired (next_revision w)"
  by (frule validated_record) (simp add: validateConfig_Inr config_ok_def Let_def unretired_def retired_ids_next lanes_next)

lemma history_unretired: "config_history cc v w \<Longrightarrow> unretired v \<Longrightarrow> unretired w"
  by (cases rule: config_history.cases) (auto intro: saved_unretired)

section \<open>Properties\<close>


text \<open>Removing a lane frees the ids of its channels, which the tombstones exist to prevent.  The
  lane's channels are dropped without being retired, so their ids can be given to a new channel of
  another lane.\<close>

theorem removed_lane_frees_channel_ids:
  assumes "change_lane ''remove'' laneId cfg = Inr cfg'" "config_ok cc cfg"
    and "List.find (same_id laneId) (arr_of cfg ''lanes'') = Some lane" "list_ex (same_id i) (arr_of lane ''channels'')"
    and "other \<noteq> laneId" "list_ex (same_id other) (arr_of cfg ''lanes'')"
  shows "retired_ids cfg' = retired_ids cfg \<and> (\<exists>cfg''. add_channel other i channel cfg' = Inr cfg'')"
proof -
  obtain pre post where lanes: "arr_of cfg ''lanes'' = pre @ lane # post" "same_id laneId lane" "\<forall>l\<in>set pre. \<not> same_id laneId l"
    using find_split [OF assms(3)] by blast
  note rec = config_ok_record [OF assms(2)]
  have cfg': "cfg' = set_field ''lanes'' (JArr (pre @ post)) cfg"
    using assms(1) lanes by (auto simp: change_lane_def alter_first_split switch_item_def split: if_splits)
  then have lanes': "arr_of cfg' ''lanes'' = pre @ post" and ret: "retired_ids cfg' = retired_ids cfg"
    using rec by (simp_all add: arr_of_set_field retired_ids_set_field)
  have i: "i \<in> set (channel_ids [lane])"
    using same_id_in_ids [OF assms(4), of "[lane]"] by simp
  have "distinct (channel_ids (pre @ lane # post))" "set (channel_ids (pre @ lane # post)) \<inter> set (retired_list (retired_ids cfg)) = {}"
    using assms(2) by (simp_all add: config_ok_def Let_def lanes)
  moreover have "channel_ids (pre @ lane # post) = channel_ids pre @ channel_ids [lane] @ channel_ids post"
    using channel_ids_append [of pre "[lane] @ post"] channel_ids_append [of "[lane]" post] by simp
  ultimately have "i \<notin> set (channel_ids (pre @ post))" "i \<notin> set (retired_list (retired_ids cfg'))"
    using i by (auto simp: channel_ids_append ret)
  moreover note unused_id [of i "pre @ post"]
  moreover obtain l where "List.find (same_id other) (pre @ post) = Some l"
  proof -
    have "\<not> same_id other lane" using lanes(2) assms(5) by (auto simp: same_id_def)
    then have "list_ex (same_id other) (pre @ post)" using assms(6) by (simp add: lanes)
    then have "List.find (same_id other) (pre @ post) \<noteq> None" by (auto simp: find_None_iff list_ex_iff)
    then show ?thesis using that by blast
  qed
  ultimately show ?thesis by (simp add: add_channel_def lanes' ret)
qed

section \<open>Tokens\<close>

text \<open>Adding a channel under an id that is in use replaces the token of the channel that has it.
  The token is stored before the configuration is looked at: the command fails, as it must, and
  leaves the configuration as it was, but the driver of the existing channel now reads the new token.\<close>

theorem refused_channel_replaces_token:
  assumes "option_of opts ''--lane'' = Some laneId" "option_of opts ''--provider'' = None"
    "option_of opts ''--token-file'' = Some f" "cl_read env (cl_resolve env f) = Inr t" "cl_trim env t \<noteq> []"
    and "secret_name (''channel-'' @ i @ ''.token'')" "cl_secret_fault env = None"
    "map_of (ss_tmps (st_secrets s)) (''channel-'' @ i @ ''.token'') = None"
    and "cli_load env s = (Inr cfg, s)" "List.find (same_id laneId) (arr_of cfg ''lanes'') = Some lane"
    "list_ex (same_id i) (arr_of lane ''channels'')" "cli_channel_add env opts i s = (r, s')"
  shows "r = Inl (PlainError (''Channel driver ID already exists: '' @ i)) \<and> st_files s' = st_files s \<and>
    secret_get (''channel-'' @ i @ ''.token'') (st_secrets s') = Inr (Some (cl_trim env t))"
proof -
  let ?n = "''channel-'' @ i @ ''.token''" and ?s = "st_secrets s"
  obtain u secrets where set: "secret_set None ?n (cl_trim env t) ?s = (Inr u, secrets)"
    using assms(5,6,8) by (simp add: secret_set_def)
  let ?s1 = "s\<lparr>st_secrets := secrets\<rparr>"
  have load: "cli_load env ?s1 = (Inr cfg, ?s1)" using assms(9) by (simp add: cli_load_def)
  have "list_ex (\<lambda>l. list_ex (same_id i) (arr_of l ''channels'')) (arr_of cfg ''lanes'')"
    using assms(10,11) by (auto simp: list_ex_iff find_Some_iff)
  then have "add_channel laneId i ch cfg = Inl (PlainError (''Channel driver ID already exists: '' @ i))" for ch
    using assms(10) by (simp add: add_channel_def)
  then have "r = Inl (PlainError (''Channel driver ID already exists: '' @ i)) \<and> s' = ?s1"
    using assms(1-4,7,12) set load
    by (auto simp: cli_channel_add_def need_option_def Let_def ethen_def [of "\<lambda>s. (fst (f s), s\<lparr>st_secrets := snd (f s)\<rparr>)" for f]
        split_beta ebind_def printed_def mutateConfig_def)
  with secret_set_get [OF set] show ?thesis by simp
qed

section \<open>Identities\<close>

lemma check_registered_ok:
  assumes "check_registered env identity agentType reg s = (Inr u, s')"
  shows "s' = s \<and> \<not> ri_deleted reg \<and> (\<exists>k. fst (held_key env identity s) = Inr (Some k) \<and> key_is_mine (Some k) reg \<and>
    registered_type env identity reg k \<in> {None, Some [], Some agentType})"
proof -
  from assms have d: "\<not> ri_deleted reg" by (auto simp: check_registered_def)
  obtain r where h: "held_key env identity s = (r, s)" by (simp add: held_key_def)
  have t: "set_nonempty x = None \<longleftrightarrow> x = None \<or> x = Some []" "set_nonempty x = Some y \<longleftrightarrow> x = Some y \<and> y \<noteq> []" for x y
    by (auto simp: set_nonempty_def split: option.splits list.splits)
  from assms d h obtain k where "r = Inr (Some k)"
    by (auto simp: check_registered_def ebind_def split: sum.splits option.splits)
  with assms d h show ?thesis
    by (auto simp: check_registered_def ebind_def erequire_Inr t split: if_splits option.splits)
qed

text \<open>An agent is added only under an identity that is this host's to use.  When \<open>lane add\<close>
  succeeds, a Hub was configured, no other lane of the host has the identity, and the Hub either does
  not know it or lists the very key this host holds for it, not deleted, and registered under no
  other type than the lane's.\<close>

theorem lane_add_own_identity:
  assumes "cli_lane_add env opts i s = (Inr n, s')"
    and "identity = (case option_of opts ''--identity'' of None \<Rightarrow> i | Some x \<Rightarrow> x)"
  shows "\<exists>cfg registered kind. cli_load env s = (Inr cfg, s) \<and> hub_of cfg \<noteq> None \<and>
    \<not> list_ex (\<lambda>l. jfield l ''identity'' = Some (JStr identity)) (arr_of cfg ''lanes'') \<and>
    runtimeKind opts = Inr kind \<and>
    lookupAgentIdentity (cc_IDENTITY_RE (cl_contracts env)) identity (cl_lookup env identity) = Inr registered \<and>
    (case registered of
       None \<Rightarrow> True
     | Some reg \<Rightarrow> \<not> ri_deleted reg \<and> (\<exists>k. fst (held_key env identity s) = Inr (Some k) \<and> key_is_mine (Some k) reg \<and>
         registered_type env identity reg k \<in>
           {None, Some [], Some (case option_of opts ''--agent-type'' of None \<Rightarrow> defaultAgentType kind | Some t \<Rightarrow> t)}))"
proof -
  have load: "snd (cli_load env s) = s" by (simp add: cli_load_def)
  from assms obtain kind where kind: "runtimeKind opts = Inr kind"
    by (auto simp: cli_lane_add_def elim!: ebind_InrE)
  from assms kind obtain cfg where cfg: "cli_load env s = (Inr cfg, s)"
    using load by (auto simp: cli_lane_add_def Let_def split: if_splits elim!: ebind_InrE)
  from assms kind cfg obtain hub where hub: "hub_of cfg = Some hub"
    by (auto simp: cli_lane_add_def Let_def ebind_simps split: if_splits option.splits)
  from assms kind cfg hub obtain endpoints where ep: "resolveHubEndpoints (cl_parse_url env) (str_of hub ''base_url'')
      (jstr (jfield hub ''rpc_ws'')) (jstr (jfield hub ''api_http'')) = Inr endpoints"
    by (auto simp: cli_lane_add_def Let_def ebind_simps split: if_splits elim!: ebind_InrE [of "elift r" for r])
  from assms kind cfg hub ep obtain registered where reg:
    "lookupAgentIdentity (cc_IDENTITY_RE (cl_contracts env)) identity (cl_lookup env identity) = Inr registered"
    by (auto simp: cli_lane_add_def Let_def ebind_simps split: if_splits elim!: ebind_InrE [of "elift r" for r])
  from assms kind cfg hub ep reg show ?thesis
    by (auto simp: cli_lane_add_def Let_def ebind_simps split: if_splits option.split elim!: ethen_InrE dest!: check_registered_ok)
qed

section \<open>A host with one agent\<close>

definition cli_lane :: "string \<Rightarrow> json list \<Rightarrow> json" where
  "cli_lane i chs = set_field ''channels'' (JArr chs) (new_lane i i ''ai-codex'' ''codex'' None ''/w'' ''workspace'' False)"

definition cli_config :: "json list \<Rightarrow> json" where
  "cli_config lanes = JObj [(''schema_version'', JNum 1), (''revision'', JNum 0),
     (''hub'', JObj [(''base_url'', JStr ''https://hub'')]), (''lanes'', JArr lanes)]"

definition sample_cli_env :: "json \<Rightarrow> cli_env" where
  "sample_cli_env cfg =
     \<lparr>cl_contracts = sample_config_contracts, cl_parse = (\<lambda>t. Some cfg), cl_print = (\<lambda>v. ''t''), cl_fault = None,
      cl_secret_fault = None, cl_kc = sample_key_contracts, cl_sha256 = (\<lambda>s. ''0123''), cl_probe = Inr None,
      cl_control = (\<lambda>m p. Inr JNull), cl_parse_url = (\<lambda>u. Some \<lparr>ul_protocol = ''https:'', ul_authority = ''hub'', ul_pathname = ''/'', ul_tail = []\<rparr>),
      cl_lookup = (\<lambda>i. Inr \<lparr>ht_status = 404, ht_raw = [], ht_json = Some (JObj [(''ok'', JBool False),
        (''error'', JStr ''is not registered'')])\<rparr>), cl_surface = Inl (PlainError []), cl_signed = Inr (),
      cl_type_lookup = Inl (PlainError []), cl_resolve = (\<lambda>p. p), cl_cwd = ''/w'', cl_read = (\<lambda>f. Inr ''new''),
      cl_trim = (\<lambda>t. t), cl_service = (\<lambda>o'. Inr JNull), cl_foreground = (\<lambda>o'. Inr ()), cl_attach_env = sample_attach_env,
      cl_attach_exit = 0, cl_bundle = sample_bundle_env [], cl_ring = ring_new 0 0, cl_out_file = Inr ()\<rparr>"

definition sample_cli_state :: cli_state where
  "sample_cli_state = \<lparr>st_files = \<lparr>cf_config = Some [], cf_tmp = None\<rparr>, st_secrets = empty_secrets, st_sessions = [],
     st_out = [], st_calls = []\<rparr>"

definition sample_options :: "string list \<Rightarrow> parsed_options" where
  "sample_options args =
     (case parseOptions \<lparr>al_configDirectory = [], al_configFile = [], al_stateDirectory = [], al_secretDirectory = [], al_runtimeDirectory = []\<rparr> args of
        Inr opts \<Rightarrow> opts
      | Inl e \<Rightarrow> \<lparr>po_positionals = [], po_values = [], po_flags = [], po_configFile = [], po_stateDirectory = [],
          po_runtimeDirectory = [], po_secretDirectory = []\<rparr>)"

abbreviation sample_cli_channel :: json where
  "sample_cli_channel \<equiv> new_channel ''d'' ''discord'' ''discord-bot'' ''channel-d.token''"

abbreviation channel_args :: "string list" where
  "channel_args \<equiv> [''channel'', ''add'', ''d'', ''--lane'', ''a'', ''--token-file'', ''f'']"

lemma cli_config_valid: "validateConfig sample_config_contracts (cli_config [cli_lane ''a'' [sample_cli_channel]]) =
    Inr (cli_config [cli_lane ''a'' [sample_cli_channel]])"
  by code_simp

theorem refused_channel_replaces_token_witness:
  "secret_get ''channel-d.token'' (st_secrets (snd (cli_channel_add (sample_cli_env (cli_config [cli_lane ''a'' [sample_cli_channel]]))
     (sample_options channel_args) ''d'' sample_cli_state))) = Inr (Some ''new'')"
proof -
  let ?cfg = "cli_config [cli_lane ''a'' [sample_cli_channel]]"
  let ?env = "sample_cli_env ?cfg" and ?o = "sample_options channel_args"
  have opts: "option_of ?o ''--lane'' = Some ''a''" "option_of ?o ''--provider'' = None" "option_of ?o ''--token-file'' = Some ''f''"
    "secret_name (''channel-'' @ ''d'' @ ''.token'')"
    by code_simp+
  have env: "cl_read ?env (cl_resolve ?env ''f'') = Inr ''new''" "cl_trim ?env ''new'' \<noteq> []" "cl_secret_fault ?env = None"
    "map_of (ss_tmps (st_secrets sample_cli_state)) (''channel-'' @ ''d'' @ ''.token'') = None"
    by (simp_all add: sample_cli_env_def sample_cli_state_def empty_secrets_def)
  have load: "cli_load ?env sample_cli_state = (Inr ?cfg, sample_cli_state)"
    using cli_config_valid by (simp add: cli_load_def config_load_def sample_cli_env_def sample_cli_state_def)
  have lane: "List.find (same_id ''a'') (arr_of ?cfg ''lanes'') = Some (cli_lane ''a'' [sample_cli_channel])"
    "list_ex (same_id ''d'') (arr_of (cli_lane ''a'' [sample_cli_channel]) ''channels'')"
    by code_simp+
  obtain r s' where run: "cli_channel_add ?env ?o ''d'' sample_cli_state = (r, s')" by (cases "cli_channel_add ?env ?o ''d'' sample_cli_state")
  from refused_channel_replaces_token [OF opts(1-3) env(1,2) opts(4) env(3,4) load lane run] run
  show ?thesis by (simp add: sample_cli_env_def)
qed


theorem removed_lane_frees_channel_ids_witness:
  "\<exists>cfg''. add_channel ''b'' ''d'' sample_cli_channel (cli_config [cli_lane ''b'' []]) = Inr cfg''"
proof -
  let ?cfg = "cli_config [cli_lane ''a'' [sample_cli_channel], cli_lane ''b'' []]"
  have lanes: "change_lane ''remove'' ''a'' ?cfg = Inr (cli_config [cli_lane ''b'' []])"
    "validateConfig sample_config_contracts ?cfg = Inr ?cfg"
    "List.find (same_id ''a'') (arr_of ?cfg ''lanes'') = Some (cli_lane ''a'' [sample_cli_channel])"
    "list_ex (same_id ''d'') (arr_of (cli_lane ''a'' [sample_cli_channel]) ''channels'')"
    "''b'' \<noteq> ''a''" "list_ex (same_id ''b'') (arr_of ?cfg ''lanes'')"
    by code_simp+
  then have "config_ok sample_config_contracts ?cfg" by (simp add: validateConfig_Inr)
  from removed_lane_frees_channel_ids [OF lanes(1) this lanes(3-6)] show ?thesis by blast
qed

theorem lane_add_own_identity_witness:
  "\<exists>registered. lookupAgentIdentity (\<lambda>s. True) ''b'' (cl_lookup (sample_cli_env (cli_config [])) ''b'') = Inr registered"
proof -
  let ?env = "sample_cli_env (cli_config [])" and ?o = "sample_options [''lane'', ''add'', ''b'']"
  have "fst (cli_lane_add ?env ?o ''b'' sample_cli_state) = Inr 0" by code_simp
  then obtain s' where run: "cli_lane_add ?env ?o ''b'' sample_cli_state = (Inr 0, s')"
    by (cases "cli_lane_add ?env ?o ''b'' sample_cli_state") auto
  have "''b'' = (case option_of ?o ''--identity'' of None \<Rightarrow> ''b'' | Some x \<Rightarrow> x)" by code_simp
  from lane_add_own_identity [OF run this] show ?thesis
    by (auto simp: sample_cli_env_def sample_config_contracts_def)
qed

end
