(* ===== verification/User_Service.thy ===== *)
theory User_Service
  imports Effects Paths Codex
begin

text \<open>
  \<open>src/service/user-service.ts\<close>: the daemon as a service of the user's session manager, launchd or systemd.
  The state is the files, and the log of the commands that were run; what the commands, the file system
  and \<open>node:path\<close> answer are arguments.
\<close>

section \<open>The environment\<close>

record service_options =
  so_configFile :: string
  so_stateDirectory :: string
  so_runtimeDirectory :: string
  so_secretDirectory :: string

text \<open>\<open>sv_run\<close> answers a command with its exit code and what it wrote to its standard error.\<close>

record service_env =
  sv_platform :: string
  sv_home :: string
  sv_uid :: "int option"
  sv_pid :: string
  sv_which :: "string \<Rightarrow> string option"
  sv_dirname :: "string \<Rightarrow> string"
  sv_resolve :: "string list \<Rightarrow> string"
  sv_execPath :: string
  sv_entry :: string
  sv_trim :: "string \<Rightarrow> string"
  sv_mkdir :: "exn + unit"
  sv_fault :: "save_fault option"
  sv_unlink :: "exn + unit"
  sv_run :: "string list \<Rightarrow> int \<times> string"

record service_state =
  sv_files :: "(string \<times> string) list"
  sv_ran :: "string list list"

type_synonym 'a service = "(service_state, 'a) eff"

definition LABEL :: string where
  "LABEL = ''com.sirmirr.agent-mesh''"

definition RUNTIME_COMMANDS :: "string list" where
  "RUNTIME_COMMANDS = [''tmux'', ''claude'', ''codex'', ''agy'', ''bun'', ''node'']"

section \<open>The search path of the service\<close>

definition path_candidates :: "service_env \<Rightarrow> string list \<Rightarrow> string list" where
  "path_candidates env discovered =
     [sv_resolve env [sv_home env, ''.local'', ''bin''], sv_resolve env [sv_home env, ''.bun'', ''bin'']] @
     (if sv_platform env = ''darwin'' then [''/opt/homebrew/bin'', ''/opt/homebrew/sbin'']
      else [sv_resolve env [sv_home env, ''.linuxbrew'', ''bin''], ''/home/linuxbrew/.linuxbrew/bin'']) @
     discovered @ [''/usr/local/bin'', ''/usr/local/sbin'', ''/usr/bin'', ''/bin'', ''/usr/sbin'', ''/sbin'']"

fun join_with :: "char \<Rightarrow> string list \<Rightarrow> string" where
  "join_with c [] = []"
| "join_with c [s] = s"
| "join_with c (s # ss) = s @ [c] @ join_with c ss"

definition path_directories :: "service_env \<Rightarrow> string list \<Rightarrow> string list" where
  "path_directories env discovered = js_unique (filter (\<lambda>d. d \<noteq> [] \<and> d \<noteq> ''.'') (path_candidates env discovered))"

definition buildServiceEnvironmentPath :: "service_env \<Rightarrow> string list \<Rightarrow> string" where
  "buildServiceEnvironmentPath env discovered = join_with (CHR '':'') (path_directories env discovered)"

definition serviceEnvironmentPath :: "service_env \<Rightarrow> string" where
  "serviceEnvironmentPath env =
     buildServiceEnvironmentPath env (map (sv_dirname env) (List.map_filter (sv_which env) RUNTIME_COMMANDS))"

section \<open>The command and its quoting\<close>

definition service_command :: "service_env \<Rightarrow> service_options \<Rightarrow> string list" where
  "service_command env o' =
     [sv_execPath env] @
     (if ends_with ''bun'' (sv_execPath env) \<or> ends_with ''bun.exe'' (sv_execPath env) then [sv_entry env] else []) @
     [''daemon'', ''run'', ''--config'', so_configFile o', ''--state-dir'', so_stateDirectory o',
      ''--runtime-dir'', so_runtimeDirectory o', ''--secret-dir'', so_secretDirectory o']"

text \<open>\<open>replaceAll\<close> of one character.\<close>

definition replace_char :: "char \<Rightarrow> string \<Rightarrow> string \<Rightarrow> string" where
  "replace_char c r s = concat (map (\<lambda>x. if x = c then r else [x]) s)"

definition xml :: "string \<Rightarrow> string" where
  "xml s =
     replace_char (CHR 0x22) ''&quot;'' (replace_char (CHR ''>'') ''&gt;''
       (replace_char (CHR ''<'') ''&lt;'' (replace_char (CHR ''&'') ''&amp;'' s)))"

definition quote_char :: char where
  "quote_char = CHR 0x27"

definition systemdEscape :: "string \<Rightarrow> string" where
  "systemdEscape s =
     [quote_char] @ replace_char quote_char [quote_char, CHR 0x5C, quote_char, quote_char] s @ [quote_char]"

section \<open>The files\<close>

definition plist_text :: "service_env \<Rightarrow> service_options \<Rightarrow> string" where
  "plist_text env o' =
     (let q = (\<lambda>s. [CHR 0x22] @ s @ [CHR 0x22]); log = (\<lambda>n. sv_resolve env [so_stateDirectory o', ''logs'', n]) in
      join_lines ([
        ''<?xml version='' @ q ''1.0'' @ '' encoding='' @ q ''UTF-8'' @ ''?>'',
        ''<!DOCTYPE plist PUBLIC '' @ q ''-//Apple//DTD PLIST 1.0//EN'' @ '' '' @
          q ''http://www.apple.com/DTDs/PropertyList-1.0.dtd'' @ ''>'',
        ''<plist version='' @ q ''1.0'' @ ''>'', ''<dict>'',
        ''  <key>Label</key><string>'' @ LABEL @ ''</string>'',
        ''  <key>ProgramArguments</key>'', ''  <array>''] @
        map (\<lambda>a. ''      <string>'' @ xml a @ ''</string>'') (service_command env o') @
       [''  </array>'', ''  <key>EnvironmentVariables</key>'', ''  <dict>'',
        ''    <key>PATH</key><string>'' @ xml (serviceEnvironmentPath env) @ ''</string>'', ''  </dict>'',
        ''  <key>RunAtLoad</key><true/>'', ''  <key>KeepAlive</key><true/>'',
        ''  <key>ProcessType</key><string>Background</string>'',
        ''  <key>StandardOutPath</key><string>'' @ xml (log ''daemon.log'') @ ''</string>'',
        ''  <key>StandardErrorPath</key><string>'' @ xml (log ''daemon.error.log'') @ ''</string>'',
        ''</dict>'', ''</plist>'', []]))"

definition unit_text :: "service_env \<Rightarrow> service_options \<Rightarrow> string" where
  "unit_text env o' =
     join_lines [''[Unit]'', ''Description=Agent Mesh client host daemon'', ''After=network-online.target'',
       ''Wants=network-online.target'', [], ''[Service]'', ''Type=simple'',
       ''ExecStart='' @ join_with (CHR '' '') (map systemdEscape (service_command env o')),
       ''Restart=on-failure'', ''RestartSec=3'', ''UMask=0077'',
       ''Environment='' @ systemdEscape (''PATH='' @ serviceEnvironmentPath env), [],
       ''[Install]'', ''WantedBy=default.target'', []]"

definition servicePath :: "service_env \<Rightarrow> exn + string" where
  "servicePath env =
     (if sv_platform env = ''darwin'' then Inr (sv_resolve env [sv_home env, ''Library'', ''LaunchAgents'', LABEL @ ''.plist''])
      else if sv_platform env = ''linux''
      then Inr (sv_resolve env [sv_home env, ''.config'', ''systemd'', ''user'', ''agent-mesh.service''])
      else Inl (PlainError (''User services are not supported on '' @ sv_platform env)))"

text \<open>The temporary name is the same for the whole process.\<close>

definition atomicWrite :: "service_env \<Rightarrow> string \<Rightarrow> string \<Rightarrow> unit service" where
  "atomicWrite env path body s =
     (let temp = path @ ''.tmp-'' @ sv_pid env; failed = Inl (PlainError ''I/O error'');
          put = (\<lambda>p b. s\<lparr>sv_files := AList.update p b (sv_files s)\<rparr>) in
      if sv_fault env = Some Fault_mkdir then (failed, s)
      else if map_of (sv_files s) temp \<noteq> None then (Inl (PlainError ''EEXIST: file already exists''), s)
      else case sv_fault env of
        Some Fault_open \<Rightarrow> (failed, s)
      | Some (Fault_write n) \<Rightarrow> (failed, put temp (take n body))
      | Some Fault_rename \<Rightarrow> (failed, put temp body)
      | Some Fault_finish \<Rightarrow> (failed, put path body)
      | _ \<Rightarrow> (Inr (), put path body))"

definition run_command :: "service_env \<Rightarrow> string list \<Rightarrow> (int \<times> string) service" where
  "run_command env cmd s = (Inr (sv_run env cmd), s\<lparr>sv_ran := sv_ran s @ [cmd]\<rparr>)"

text \<open>A command that must succeed: its error text, trimmed, is the exception, or \<open>otherwise\<close> when there is
  none.\<close>

definition must_run :: "service_env \<Rightarrow> string list \<Rightarrow> string \<Rightarrow> unit service" where
  "must_run env cmd otherwise =
     ebind (run_command env cmd) (\<lambda>(code, err).
       let msg = sv_trim env err in erequire (code = 0) (if msg = [] then otherwise else msg))"

section \<open>Operations\<close>

definition gui_domain :: "service_env \<Rightarrow> string" where
  "gui_domain env = ''gui/'' @ js_int (case sv_uid env of None \<Rightarrow> 0 | Some u \<Rightarrow> u)"

definition systemctl :: "string list \<Rightarrow> string list" where
  "systemctl args = [''systemctl'', ''--user''] @ args"

definition service_report :: "(string \<times> json) list \<Rightarrow> string \<Rightarrow> string \<Rightarrow> json" where
  "service_report members manager path = JObj (members @ [(''manager'', JStr manager), (''path'', JStr path)])"

definition activate_launchd :: "service_env \<Rightarrow> string \<Rightarrow> json service" where
  "activate_launchd env path =
     ethen (run_command env [''launchctl'', ''bootout'', gui_domain env, path])
     (ethen (must_run env [''launchctl'', ''bootstrap'', gui_domain env, path] ''launchctl bootstrap failed'')
       (eret (service_report [(''installed'', JBool True)] ''launchd'' path)))"

definition activate_systemd :: "service_env \<Rightarrow> string \<Rightarrow> json service" where
  "activate_systemd env path =
     ethen (must_run env (systemctl [''daemon-reload'']) [])
     (ethen (must_run env (systemctl [''enable'', ''--now'', ''agent-mesh.service'']) [])
       (eret (service_report [(''installed'', JBool True)] ''systemd-user'' path)))"

definition installUserService :: "service_env \<Rightarrow> service_options \<Rightarrow> json service" where
  "installUserService env o' =
     ebind (elift (sv_mkdir env)) (\<lambda>_.
     ebind (elift (servicePath env)) (\<lambda>path.
       if sv_platform env = ''darwin'' then ethen (atomicWrite env path (plist_text env o')) (activate_launchd env path)
       else ethen (atomicWrite env path (unit_text env o')) (activate_systemd env path)))"

text \<open>The file can be read, or is not there.\<close>

definition userServiceStatus :: "service_env \<Rightarrow> json service" where
  "userServiceStatus env =
     ebind (elift (servicePath env)) (\<lambda>path s.
       let installed = JBool (map_of (sv_files s) path \<noteq> None) in
       if sv_platform env = ''darwin''
       then ebind (run_command env [''launchctl'', ''print'', gui_domain env @ ''/'' @ LABEL]) (\<lambda>(code, err).
         eret (service_report [(''installed'', installed), (''running'', JBool (code = 0))] ''launchd'' path)) s
       else ebind (run_command env (systemctl [''is-active'', ''agent-mesh.service''])) (\<lambda>(code, err).
         eret (service_report [(''installed'', installed), (''running'', JBool (code = 0))] ''systemd-user'' path)) s)"

definition stopUserService :: "service_env \<Rightarrow> json service" where
  "stopUserService env =
     ebind (elift (servicePath env)) (\<lambda>path.
       if sv_platform env = ''darwin''
       then ebind (run_command env [''launchctl'', ''bootout'', gui_domain env, path]) (\<lambda>(code, err).
         ethen (erequire (code = 0 \<or> js_includes err ''Could not find service'' \<or> js_includes err ''No such process'')
             (if sv_trim env err = [] then ''launchctl bootout failed'' else sv_trim env err))
           (eret (service_report [(''stopped'', JBool True)] ''launchd'' path)))
       else ethen (must_run env (systemctl [''stop'', ''agent-mesh.service'']) [])
         (eret (service_report [(''stopped'', JBool True)] ''systemd-user'' path)))"

definition restartUserService :: "service_env \<Rightarrow> service_options \<Rightarrow> json service" where
  "restartUserService env o' =
     ebind (userServiceStatus env) (\<lambda>status.
       if jfield status ''installed'' \<noteq> Some (JBool True) then installUserService env o'
       else ethen (installUserService env o') (ebind (elift (servicePath env)) (\<lambda>path.
         if sv_platform env = ''darwin'' then eret (service_report [(''restarted'', JBool True)] ''launchd'' path)
         else ethen (must_run env (systemctl [''restart'', ''agent-mesh.service'']) [])
           (eret (service_report [(''restarted'', JBool True)] ''systemd-user'' path)))))"

text \<open>\<open>unlink\<close> of a file that is not there is no error.\<close>

definition remove_service_file :: "service_env \<Rightarrow> string \<Rightarrow> unit service" where
  "remove_service_file env path s =
     (if map_of (sv_files s) path = None then (Inr (), s)
      else case sv_unlink env of
        Inl e \<Rightarrow> (Inl e, s)
      | Inr _ \<Rightarrow> (Inr (), s\<lparr>sv_files := AList.delete path (sv_files s)\<rparr>))"

definition uninstallUserService :: "service_env \<Rightarrow> json service" where
  "uninstallUserService env =
     ebind (elift (servicePath env)) (\<lambda>path.
     ethen (run_command env (if sv_platform env = ''darwin'' then [''launchctl'', ''bootout'', gui_domain env, path]
         else systemctl [''disable'', ''--now'', ''agent-mesh.service'']))
     (ethen (remove_service_file env path)
     (ethen (if sv_platform env = ''linux'' then ethen (run_command env (systemctl [''daemon-reload''])) (eret ()) else eret ())
       (eret (JObj [(''installed'', JBool False), (''path'', JStr path)])))))"

section \<open>Logs\<close>

fun split_on :: "char \<Rightarrow> string \<Rightarrow> string list" where
  "split_on c [] = [[]]"
| "split_on c (x # xs) =
     (if x = c then [] # split_on c xs else (case split_on c xs of l # ls \<Rightarrow> (x # l) # ls | [] \<Rightarrow> [[x]]))"

definition log_tail :: "int \<Rightarrow> string \<Rightarrow> string" where
  "log_tail n t = (let ls = split_on (CHR 0x0A) t in join_lines (drop (length ls - (nat (max 1 n) + 1)) ls))"

text \<open>A log that is not there is empty; another failure to read it is thrown.\<close>

definition userServiceLogs :: "(string \<Rightarrow> exn + string option) \<Rightarrow> int \<Rightarrow> exn + string \<times> string" where
  "userServiceLogs read n =
     (let get = (\<lambda>name. sbind (read name) (\<lambda>r. Inr (case r of None \<Rightarrow> [] | Some t \<Rightarrow> log_tail n t))) in
      sbind (get ''daemon.log'') (\<lambda>out. sbind (get ''daemon.error.log'') (\<lambda>err. Inr (out, err))))"

section \<open>Quoting\<close>

definition xml_char :: "char \<Rightarrow> string" where
  "xml_char c =
     (if c = CHR ''&'' then ''&amp;'' else if c = CHR ''<'' then ''&lt;'' else if c = CHR ''>'' then ''&gt;''
      else if c = CHR 0x22 then ''&quot;'' else [c])"

lemma replace_char_simps [simp]:
  "replace_char c r [] = []" "replace_char c r (x # xs) = (if x = c then r else [x]) @ replace_char c r xs"
  "replace_char c r (xs @ ys) = replace_char c r xs @ replace_char c r ys"
  by (simp_all add: replace_char_def)

text \<open>The four passes of \<open>xml\<close> are one pass: what a pass puts in, no later one touches.\<close>

lemma xml_chars: "xml s = concat (map xml_char s)"
  by (induction s) (auto simp: xml_def xml_char_def)

text \<open>How XML reads its predefined entities.\<close>

definition xml_entities :: "(string \<times> char) list" where
  "xml_entities = [(''&amp;'', CHR ''&''), (''&lt;'', CHR ''<''), (''&gt;'', CHR ''>''), (''&quot;'', CHR 0x22)]"

fun xml_read :: "string \<Rightarrow> string" where
  "xml_read [] = []"
| "xml_read (c # cs) =
     (case List.find (\<lambda>(e, r). take (length e) (c # cs) = e) xml_entities of
        None \<Rightarrow> c # xml_read cs
      | Some (e, r) \<Rightarrow> r # xml_read (drop (length e - 1) cs))"

lemma xml_read_char: "xml_read (xml_char c @ s) = c # xml_read s"
  by (auto simp: xml_char_def xml_entities_def)

text \<open>An argument of the service is one element of its file.  Escaping leaves no character that could
  end the element or open another, and XML reads the escaped text back as the argument.\<close>

theorem xml_roundtrip:
  "xml_read (xml s) = s \<and> CHR ''<'' \<notin> set (xml s) \<and> CHR ''>'' \<notin> set (xml s) \<and> CHR 0x22 \<notin> set (xml s)"
proof -
  have "xml_read (concat (map xml_char s)) = s" by (induction s) (simp_all add: xml_read_char)
  moreover have "set (xml_char c) \<inter> {CHR ''<'', CHR ''>'', CHR 0x22} = {}" for c by (simp add: xml_char_def)
  ultimately show ?thesis by (auto simp: xml_chars)
qed

section \<open>Logs\<close>

lemma split_on_not_Nil [simp]: "split_on c t \<noteq> []"
  by (induction t) (auto split: list.split)

lemma split_on_pieces: "l \<in> set (split_on c t) \<Longrightarrow> c \<notin> set l"
  by (induction t arbitrary: l) (auto split: list.splits if_splits)

lemma join_lines_Cons: "ss \<noteq> [] \<Longrightarrow> join_lines (s # ss) = s @ [CHR 0x0A] @ join_lines ss"
  by (cases ss) simp_all

lemma join_split: "join_lines (split_on (CHR 0x0A) t) = t"
proof (induction t)
  case (Cons x t)
  show ?case
  proof (cases "split_on (CHR 0x0A) t")
    case (Cons l ls)
    with Cons.IH show ?thesis by (cases ls) auto
  qed simp
qed simp

lemma join_lines_suffix: "\<exists>pre. join_lines ls = pre @ join_lines (drop n ls)"
proof (induction ls arbitrary: n)
  case (Cons l ls)
  show ?case
  proof (cases n)
    case (Suc m)
    from Cons.IH [of m] obtain pre where "join_lines ls = pre @ join_lines (drop m ls)" by blast
    then have "join_lines (l # ls) = ((if ls = [] then l else l @ [CHR 0x0A]) @ pre) @ join_lines (drop m ls)"
      by (cases ls) auto
    then show ?thesis by (simp only: Suc drop_Suc_Cons) blast
  qed simp
qed simp

lemma count_join_lines:
  "\<forall>l\<in>set ls. CHR 0x0A \<notin> set l \<Longrightarrow> count_list (join_lines ls) (CHR 0x0A) = length ls - 1"
proof (induction ls rule: join_lines.induct)
  case (2 s)
  then show ?case using count_list_0_iff [of s] by simp
next
  case (3 s s' ss)
  then have "count_list s (CHR 0x0A) = 0" using count_list_0_iff [of s] by simp
  with 3 show ?case by simp
qed simp

text \<open>The logs that are shown are the ends of the files, however long the files are: no more lines than
  were asked for, or one when fewer were.\<close>

theorem log_tail_bounded:
  "count_list (log_tail n t) (CHR 0x0A) \<le> nat (max 1 n) \<and> (\<exists>pre. t = pre @ log_tail n t)"
proof
  let ?ls = "split_on (CHR 0x0A) t"
  let ?k = "length ?ls - (nat (max 1 n) + 1)"
  have "\<forall>l\<in>set (drop ?k ?ls). CHR 0x0A \<notin> set l" using split_on_pieces set_drop_subset by fastforce
  from count_join_lines [OF this] show "count_list (log_tail n t) (CHR 0x0A) \<le> nat (max 1 n)"
    by (simp add: log_tail_def Let_def) arith
  show "\<exists>pre. t = pre @ log_tail n t"
    using join_lines_suffix [of ?ls ?k] by (simp add: log_tail_def Let_def join_split)
qed

section \<open>Installing\<close>

definition service_text :: "service_env \<Rightarrow> service_options \<Rightarrow> string" where
  "service_text env o' = (if sv_platform env = ''darwin'' then plist_text env o' else unit_text env o')"

lemma temp_not_path: "path @ ''.tmp-'' @ pid \<noteq> path"
  by simp

lemma atomicWrite_cases:
  assumes "atomicWrite env path body s = (r, s')"
  shows "sv_ran s' = sv_ran s \<and>
    (map_of (sv_files s') path = Some body \<or> map_of (sv_files s') path = map_of (sv_files s) path \<and> (\<exists>e. r = Inl e))"
  using assms by (auto simp: atomicWrite_def Let_def split: if_splits option.splits save_fault.splits)

lemma run_command_files [simp]: "sv_files (snd (run_command env cmd s)) = sv_files s" "fst (run_command env cmd s) = Inr (sv_run env cmd)"
  by (simp_all add: run_command_def)

lemma must_run_files [simp]: "sv_files (snd (must_run env cmd otherwise s)) = sv_files s"
  by (simp add: must_run_def ebind_def run_command_def erequire_def Let_def split_beta)

lemma then_files:
  assumes "\<And>s. sv_files (snd (m s)) = sv_files s" "\<And>s. sv_files (snd (k s)) = sv_files s"
  shows "sv_files (snd (ethen m k s)) = sv_files s"
  using assms by (auto simp: ethen_def ebind_def split: prod.split sum.split) (metis snd_conv)+

lemma activate_files [simp]:
  "sv_files (snd (activate_launchd env path s)) = sv_files s" "sv_files (snd (activate_systemd env path s)) = sv_files s"
  unfolding activate_launchd_def activate_systemd_def by (auto intro!: then_files)

text \<open>An installed service file is whole.  Whatever fails, the file of the service is the one that was
  there before or the new one with all its text, the service manager is not asked for anything before
  the new file is in place, and when the installation reports success it is.\<close>

theorem install_publishes_whole_file:
  assumes "installUserService env o' s = (r, s')" "servicePath env = Inr path"
  shows "map_of (sv_files s') path = Some (service_text env o') \<or>
    map_of (sv_files s') path = map_of (sv_files s) path \<and> sv_ran s' = sv_ran s \<and> (\<exists>e. r = Inl e)"
proof (cases "sv_mkdir env")
  case (Inl e)
  with assms show ?thesis by (auto simp: installUserService_def ebind_def)
next
  case (Inr u)
  define rest where "rest = (if sv_platform env = ''darwin'' then activate_launchd env path else activate_systemd env path)"
  have i: "installUserService env o' s = ethen (atomicWrite env path (service_text env o')) rest s"
    using assms(2) Inr by (simp add: installUserService_def service_text_def rest_def)
  have rest: "sv_files (snd (rest s1)) = sv_files s1" for s1 by (simp add: rest_def)
  obtain r1 s1 where w: "atomicWrite env path (service_text env o') s = (r1, s1)"
    by (cases "atomicWrite env path (service_text env o') s")
  note c = atomicWrite_cases [OF w]
  show ?thesis
  proof (cases r1)
    case (Inl e)
    with i w assms(1) c show ?thesis by (auto simp: ethen_def ebind_def)
  next
    case (Inr u)
    with i w assms(1) have "rest s1 = (r, s')" by (auto simp: ethen_def ebind_def)
    with rest [of s1] have "sv_files s' = sv_files s1" by simp
    with c Inr show ?thesis by auto
  qed
qed

definition sample_service_env :: service_env where
  "sample_service_env =
     \<lparr>sv_platform = ''linux'', sv_home = ''/h'', sv_uid = Some 7, sv_pid = ''1'', sv_which = (\<lambda>n. None), sv_dirname = id,
      sv_resolve = join_with (CHR ''/''), sv_execPath = ''/bin/mesh'', sv_entry = ''cli.ts'', sv_trim = id, sv_mkdir = Inr (),
      sv_fault = None, sv_unlink = Inr (), sv_run = (\<lambda>cmd. (0, []))\<rparr>"

theorem install_publishes_whole_file_witness:
  "let s' = snd (installUserService sample_service_env \<lparr>so_configFile = ''c'', so_stateDirectory = ''s'',
      so_runtimeDirectory = ''r'', so_secretDirectory = ''x''\<rparr> \<lparr>sv_files = [], sv_ran = []\<rparr>) in
    map_of (sv_files s') ''/h/.config/systemd/user/agent-mesh.service'' =
      Some (service_text sample_service_env \<lparr>so_configFile = ''c'', so_stateDirectory = ''s'',
        so_runtimeDirectory = ''r'', so_secretDirectory = ''x''\<rparr>)"
proof -
  let ?o = "\<lparr>so_configFile = ''c'', so_stateDirectory = ''s'', so_runtimeDirectory = ''r'', so_secretDirectory = ''x''\<rparr>"
  obtain r s' where i: "installUserService sample_service_env ?o \<lparr>sv_files = [], sv_ran = []\<rparr> = (r, s')"
    by (cases "installUserService sample_service_env ?o \<lparr>sv_files = [], sv_ran = []\<rparr>")
  have "servicePath sample_service_env = Inr ''/h/.config/systemd/user/agent-mesh.service''"
    by (simp add: servicePath_def sample_service_env_def)
  moreover have "\<exists>v. r = Inr v"
    using i by (auto simp: installUserService_def activate_systemd_def servicePath_def atomicWrite_def must_run_def run_command_def
        sample_service_env_def ethen_def ebind_def Let_def)
  ultimately show ?thesis using install_publishes_whole_file [OF i] i by auto
qed

text \<open>After an uninstall that succeeds there is no service file, whatever the service manager answered, and
  the status says so.\<close>

theorem uninstall_removes:
  assumes "uninstallUserService env s = (Inr v, s')" "userServiceStatus env' s' = (Inr w, s'')"
    and "servicePath env' = servicePath env"
  shows "jfield w ''installed'' = Some (JBool False)"
proof -
  obtain path where path: "servicePath env = Inr path"
    using assms(1) by (cases "servicePath env") (auto simp: uninstallUserService_def)
  obtain s1 s2 u where "remove_service_file env path s1 = (Inr u, s2)" "sv_files s' = sv_files s2"
    using assms(1) path
    by (fastforce simp: uninstallUserService_def run_command_def elim!: ethen_InrE split: if_splits)
  then have "map_of (sv_files s') path = None"
    by (auto simp: remove_service_file_def split: sum.splits if_splits)
  with assms(2,3) path show ?thesis
    by (auto simp: userServiceStatus_def service_report_def ebind_def run_command_def split_beta Let_def split: if_splits)
qed

theorem uninstall_removes_witness:
  "jfield (projr (fst (userServiceStatus sample_service_env
      (snd (uninstallUserService sample_service_env \<lparr>sv_files = [], sv_ran = []\<rparr>))))) ''installed'' = Some (JBool False)"
proof -
  obtain v s' where u: "uninstallUserService sample_service_env \<lparr>sv_files = [], sv_ran = []\<rparr> = (Inr v, s')"
    by (simp add: uninstallUserService_def servicePath_def run_command_def remove_service_file_def sample_service_env_def
        ethen_def ebind_def)
  obtain w s'' where st: "userServiceStatus sample_service_env s' = (Inr w, s'')"
    by (simp add: userServiceStatus_def servicePath_def run_command_def sample_service_env_def ebind_def Let_def)
  from uninstall_removes [OF u st refl] u st show ?thesis by simp
qed

end
