(* ===== verification/Sleep.thy ===== *)
theory Sleep
  imports Interfaces
begin

text \<open>
  \<open>src/util/abortable-sleep.ts\<close>: sleeps that end by their timer, by a wake or by the abort of a signal.
  The state is one signal with its listeners, the sleeps that wait on it, and the waker their caller
  holds; sleeps are numbered, and the resolved ones are the output.
\<close>

section \<open>Sleeping\<close>

record sleeps =
  sl_aborted :: bool
  sl_listeners :: "nat list"
  sl_pending :: "(nat \<times> bool) list"
  sl_waker :: "nat option"

definition sleeps_new :: sleeps where
  "sleeps_new = \<lparr>sl_aborted = False, sl_listeners = [], sl_pending = [], sl_waker = None\<rparr>"

datatype sleep_event = Sl_start nat bool | Sl_timer nat | Sl_wake | Sl_abort

text \<open>\<open>finish\<close>: the timer is cleared with the sleep's place among the pending ones; a promise that is
  resolved stays so.\<close>

definition sleep_finish :: "nat \<Rightarrow> sleeps \<Rightarrow> sleeps \<times> nat list" where
  "sleep_finish n sl =
     (case map_of (sl_pending sl) n of
        None \<Rightarrow> (sl, [])
      | Some registered \<Rightarrow>
          (sl\<lparr>sl_pending := AList.delete n (sl_pending sl), sl_listeners := removeAll n (sl_listeners sl),
              sl_waker := (if registered then None else sl_waker sl)\<rparr>, [n]))"

text \<open>\<open>abortableSleep\<close>, with or without \<open>registerWake\<close>.\<close>

definition abortableSleep :: "nat \<Rightarrow> bool \<Rightarrow> sleeps \<Rightarrow> sleeps \<times> nat list" where
  "abortableSleep n registered sl =
     (if sl_aborted sl then (sl\<lparr>sl_waker := (if registered then None else sl_waker sl)\<rparr>, [n])
      else (sl\<lparr>sl_pending := sl_pending sl @ [(n, registered)], sl_listeners := sl_listeners sl @ [n],
              sl_waker := (if registered then Some n else sl_waker sl)\<rparr>, []))"

fun finish_all :: "nat list \<Rightarrow> sleeps \<Rightarrow> sleeps \<times> nat list" where
  "finish_all [] sl = (sl, [])"
| "finish_all (n # ns) sl =
     (let (sl', o1) = sleep_finish n sl; (sl'', o2) = finish_all ns sl' in (sl'', o1 @ o2))"

fun sleep_step :: "sleep_event \<Rightarrow> sleeps \<Rightarrow> sleeps \<times> nat list" where
  "sleep_step (Sl_start n registered) sl = abortableSleep n registered sl"
| "sleep_step (Sl_timer n) sl = sleep_finish n sl"
| "sleep_step Sl_wake sl = (case sl_waker sl of None \<Rightarrow> (sl, []) | Some n \<Rightarrow> sleep_finish n sl)"
| "sleep_step Sl_abort sl =
     (if sl_aborted sl then (sl, []) else finish_all (sl_listeners sl) (sl\<lparr>sl_aborted := True\<rparr>))"

section \<open>Lemmas\<close>

definition sleeping :: "nat \<Rightarrow> sleeps \<Rightarrow> nat" where
  "sleeping n sl = count_list (map fst (sl_pending sl)) n"

fun sleep_started :: "sleep_event \<Rightarrow> nat list" where
  "sleep_started (Sl_start n registered) = [n]"
| "sleep_started _ = []"

text \<open>The listeners on the signal are those of the sleeps that wait, and an aborted signal has none.\<close>

definition sleeps_ok :: "sleeps \<Rightarrow> bool" where
  "sleeps_ok sl = (sl_listeners sl = map fst (sl_pending sl) \<and> (sl_aborted sl \<longrightarrow> sl_listeners sl = []))"

lemma delete_keys: "map fst (AList.delete n xs) = removeAll n (map fst xs)"
  by (induction xs) auto

lemma finish_fields:
  "map fst (sl_pending (fst (sleep_finish n sl))) = removeAll n (map fst (sl_pending sl))"
  "sl_listeners sl = map fst (sl_pending sl) \<Longrightarrow> sl_listeners (fst (sleep_finish n sl)) = removeAll n (sl_listeners sl)"
  "sl_aborted (fst (sleep_finish n sl)) = sl_aborted sl"
  by (auto simp: sleep_finish_def delete_keys map_of_eq_None_iff split: option.splits)

lemma finish_balance:
  assumes "sleeping n sl \<le> 1" "sleep_finish n sl = (sl', outs)"
  shows "count_list outs k + sleeping k sl' = sleeping k sl"
proof (cases "map_of (sl_pending sl) n")
  case (Some r)
  then have "n \<in> set (map fst (sl_pending sl))" by (force dest: map_of_SomeD)
  then have "count_list (map fst (sl_pending sl)) n \<noteq> 0" unfolding count_list_0_iff by simp
  with assms Some show ?thesis
    by (auto simp: sleep_finish_def sleeping_def delete_keys count_removeAll)
qed (use assms in \<open>simp add: sleep_finish_def\<close>)

lemma finish_le: "sleeping k (fst (sleep_finish n sl)) \<le> sleeping k sl"
  by (simp add: sleeping_def finish_fields count_removeAll)

lemma finish_all_fields:
  assumes "sl_listeners sl = map fst (sl_pending sl)"
  shows "sl_listeners (fst (finish_all ns sl)) = map fst (sl_pending (fst (finish_all ns sl))) \<and>
    set (sl_listeners (fst (finish_all ns sl))) = set (sl_listeners sl) - set ns \<and>
    sl_aborted (fst (finish_all ns sl)) = sl_aborted sl"
  using assms
proof (induction ns arbitrary: sl)
  case (Cons n ns)
  note f = finish_fields [where n = n and sl = sl]
  have "sl_listeners (fst (sleep_finish n sl)) = map fst (sl_pending (fst (sleep_finish n sl)))"
    using f(1) f(2) [OF Cons.prems] Cons.prems by simp
  note ih = Cons.IH [OF this]
  have "set (sl_listeners (fst (finish_all ns (fst (sleep_finish n sl))))) = set (sl_listeners sl) - set (n # ns)"
    unfolding conjunct1 [OF conjunct2 [OF ih]] f(2) [OF Cons.prems] by auto
  with ih f(3) show ?case by (simp add: Let_def split_beta)
qed simp

lemma finish_all_balance:
  assumes "\<And>j. sleeping j sl \<le> 1" "finish_all ns sl = (sl', outs)"
  shows "count_list outs k + sleeping k sl' = sleeping k sl"
  using assms
proof (induction ns arbitrary: sl outs)
  case (Cons n ns)
  obtain s1 o1 where one: "sleep_finish n sl = (s1, o1)" by (cases "sleep_finish n sl")
  obtain s2 o2 where rest: "finish_all ns s1 = (s2, o2)" by (cases "finish_all ns s1")
  have "sleeping j s1 \<le> 1" for j
    using finish_le [where k = j and n = n and sl = sl] Cons.prems(1) [of j] one by simp
  from Cons.IH [OF this] rest Cons.prems(2) one
  have "count_list o2 k + sleeping k s2 = sleeping k s1" "sl' = s2" "outs = o1 @ o2" by auto
  with finish_balance [OF Cons.prems(1) one, of k] show ?case by simp
qed simp

lemma sleep_inv: "sleeps_ok sl \<Longrightarrow> sleeps_ok (fst (sleep_step e sl))"
proof (cases e)
  case (Sl_start n r)
  assume "sleeps_ok sl"
  with Sl_start show ?thesis by (auto simp: abortableSleep_def sleeps_ok_def)
next
  case (Sl_timer n)
  assume "sleeps_ok sl"
  with Sl_timer finish_fields [where n = n and sl = sl] show ?thesis by (auto simp: sleeps_ok_def)
next
  case Sl_wake
  assume "sleeps_ok sl"
  with Sl_wake finish_fields [where n = "the (sl_waker sl)" and sl = sl] show ?thesis
    by (auto simp: sleeps_ok_def split: option.split)
next
  case Sl_abort
  assume "sleeps_ok sl"
  with Sl_abort finish_all_fields [of "sl\<lparr>sl_aborted := True\<rparr>" "sl_listeners sl"] show ?thesis
    by (auto simp: sleeps_ok_def)
qed

lemma sleep_balance:
  assumes "\<And>j. sleeping j sl \<le> 1" "sleep_step e sl = (sl', outs)"
  shows "count_list outs k + sleeping k sl' = sleeping k sl + count_list (sleep_started e) k"
proof (cases e)
  case (Sl_start n r)
  with assms(2) show ?thesis by (auto simp: abortableSleep_def sleeping_def split: if_splits)
next
  case (Sl_timer n)
  with assms finish_balance show ?thesis by simp
next
  case Sl_wake
  with assms finish_balance show ?thesis by (auto split: option.splits)
next
  case Sl_abort
  have same: "sleeping j (sl\<lparr>sl_aborted := True\<rparr>) = sleeping j sl" for j by (simp add: sleeping_def)
  with assms(1) have "sleeping j (sl\<lparr>sl_aborted := True\<rparr>) \<le> 1" for j by simp
  from finish_all_balance [OF this] assms(2) Sl_abort same show ?thesis by (auto split: if_splits)
qed

interpretation sleeping_calls: settling sleep_step sleeps_ok sleeping "\<lambda>n outs. count_list outs n" sleep_started
  by unfold_locales (simp_all add: sleep_inv sleep_balance)

section \<open>Properties\<close>

text \<open>C28: no sleep leaks its listener.  Whatever ends them and in whatever order, each sleep that was started
  resolves once or still waits, the signal holds exactly one listener for each that waits and none for
  the others, and after an abort nothing waits and nothing listens.\<close>

theorem sleep_releases_listener:
  assumes "distinct (concat (map sleep_started es))" "runs sleep_step es sleeps_new = (sl, outs)"
  shows "count_list outs n + count_list (sl_listeners sl) n = (if n \<in> set (concat (map sleep_started es)) then 1 else 0) \<and>
    sl_listeners sl = map fst (sl_pending sl) \<and> (if sl_aborted sl then sl_listeners sl = [] else True)"
proof -
  have ok: "sleeps_ok sleeps_new" by (simp add: sleeps_ok_def sleeps_new_def)
  have "sleeping j sleeps_new = 0" for j by (simp add: sleeping_def sleeps_new_def)
  from sleeping_calls.settles_once [OF ok this assms, of n] sleeping_calls.inv_runs [OF ok, of es] assms(2)
  show ?thesis by (auto simp: sleeps_ok_def sleeping_def)
qed

theorem sleep_releases_listener_witness:
  "let (sl, outs) = runs sleep_step [Sl_start 0 True, Sl_start 1 False, Sl_timer 1, Sl_abort, Sl_start 2 True] sleeps_new in
    count_list outs 1 + count_list (sl_listeners sl) 1 = 1 \<and> sl_listeners sl = map fst (sl_pending sl)"
proof -
  let ?es = "[Sl_start 0 True, Sl_start 1 False, Sl_timer 1, Sl_abort, Sl_start 2 True]"
  obtain sl outs where r: "runs sleep_step ?es sleeps_new = (sl, outs)" by (cases "runs sleep_step ?es sleeps_new")
  have "distinct (concat (map sleep_started ?es))" by simp
  from sleep_releases_listener [OF this r, of 1] show ?thesis unfolding r prod.case by (auto split: if_splits)
qed

end
