(* ===== verification/Loop_Meter.thy ===== *)
theory Loop_Meter
  imports Prelude
begin

text \<open>
  \<open>src/daemon/loop-meter.ts\<close>: the daemon counts the passes of its loops and reports what a pass costs.
  Numbers are rationals; the order of \<open>localeCompare\<close> is an argument.
\<close>

record cpu_usage =
  cpu_user :: rat
  cpu_system :: rat

record loop_meter =
  lm_counts :: "(string \<times> nat) list"
  lm_startedAtMs :: rat
  lm_startCpu :: cpu_usage

record loop_meter_snapshot =
  lp_uptime_seconds :: rat
  lp_cpu_user_ms :: rat
  lp_cpu_system_ms :: rat
  lp_cpu_percent_of_core :: rat
  lp_passes :: "(string \<times> nat) list"
  lp_cpu_microseconds_per_pass :: "rat option"

definition meter_new :: "rat \<Rightarrow> cpu_usage \<Rightarrow> loop_meter" where
  "meter_new now cpu = \<lparr>lm_counts = [], lm_startedAtMs = now, lm_startCpu = cpu\<rparr>"

definition countPass :: "string \<Rightarrow> loop_meter \<Rightarrow> loop_meter" where
  "countPass l m =
     m\<lparr>lm_counts := AList.update l ((case map_of (lm_counts m) l of None \<Rightarrow> 0 | Some n \<Rightarrow> n) + 1) (lm_counts m)\<rparr>"

definition meter_reset :: "rat \<Rightarrow> cpu_usage \<Rightarrow> loop_meter \<Rightarrow> loop_meter" where
  "meter_reset now cpu m = m\<lparr>lm_counts := [], lm_startedAtMs := now, lm_startCpu := cpu\<rparr>"

text \<open>\<open>Number(q.toFixed(k))\<close>: to the nearest, halves away from zero.\<close>

definition to_fixed :: "nat \<Rightarrow> rat \<Rightarrow> rat" where
  "to_fixed k q =
     (let r = of_int \<lfloor>\<bar>q\<bar> * 10 ^ k + 1 / 2\<rfloor> / 10 ^ k in if q < 0 then - r else r)"

definition total_passes :: "loop_meter \<Rightarrow> nat" where
  "total_passes m = sum_list (map snd (lm_counts m))"

definition meter_snapshot ::
  "((string \<times> nat) list \<Rightarrow> (string \<times> nat) list) \<Rightarrow> rat \<Rightarrow> cpu_usage \<Rightarrow> loop_meter \<Rightarrow> loop_meter_snapshot" where
  "meter_snapshot by_name now cpu m =
     (let uptime = max 0 ((now - lm_startedAtMs m) / 1000);
          user = cpu_user cpu - cpu_user (lm_startCpu m);
          system = cpu_system cpu - cpu_system (lm_startCpu m);
          total = user + system in
      \<lparr>lp_uptime_seconds = to_fixed 1 uptime, lp_cpu_user_ms = to_fixed 1 (user / 1000),
       lp_cpu_system_ms = to_fixed 1 (system / 1000),
       lp_cpu_percent_of_core = (if 0 < uptime then to_fixed 3 (total / (uptime * 1000000) * 100) else 0),
       lp_passes = by_name (lm_counts m),
       lp_cpu_microseconds_per_pass =
         (if 0 < total_passes m then Some (to_fixed 1 (total / of_nat (total_passes m))) else None)\<rparr>)"

section \<open>Lemmas\<close>

lemma countPass_total:
  assumes "distinct (map fst (lm_counts m))"
  shows "total_passes (countPass l m) = total_passes m + 1 \<and> distinct (map fst (lm_counts (countPass l m)))"
proof -
  have "sum_list (map snd (AList.update l ((case map_of xs l of None \<Rightarrow> 0 | Some n \<Rightarrow> n) + 1) xs)) = sum_list (map snd xs) + 1"
    for xs :: "(string \<times> nat) list"
    by (induction xs) (auto split: option.split)
  with assms show ?thesis by (simp add: total_passes_def countPass_def)
qed

lemma counted_passes:
  "distinct (map fst (lm_counts m)) \<Longrightarrow>
    total_passes (fold countPass ls m) = total_passes m + length ls \<and>
    map_of (lm_counts (fold countPass ls m)) l =
      (if l \<in> set ls then Some ((case map_of (lm_counts m) l of None \<Rightarrow> 0 | Some n \<Rightarrow> n) + count_list ls l) else map_of (lm_counts m) l)"
proof (induction ls arbitrary: m)
  case (Cons x ls)
  have m1: "lm_counts (countPass x m) = AList.update x ((case map_of (lm_counts m) x of None \<Rightarrow> 0 | Some n \<Rightarrow> n) + 1) (lm_counts m)"
    by (simp add: countPass_def id_def cong: option.case_cong)
  from countPass_total [OF Cons.prems, of x] Cons.IH [of "countPass x m"] show ?case
    by (auto simp: m1 split: option.split if_splits)
qed simp

text \<open>The report counts what happened: each loop with the number of its passes since the meter was made,
  and a cost per pass exactly when there was one.\<close>

theorem meter_counts_passes:
  "let m = fold countPass ls (meter_new start cpu0) in
    map_of (lp_passes (meter_snapshot id now cpu m)) l = (if l \<in> set ls then Some (count_list ls l) else None) \<and>
    (lp_cpu_microseconds_per_pass (meter_snapshot id now cpu m) = None \<longleftrightarrow> ls = [])"
  using counted_passes [of "meter_new start cpu0" ls l]
  by (simp add: meter_snapshot_def Let_def meter_new_def total_passes_def)

end
