(* ===== verification/Tui_Select.thy ===== *)
theory Tui_Select
  imports Config
begin

text \<open>
  \<open>src/tui/app.ts\<close>, the parts of the terminal interface without effects: moving a selection, the menus
  driven by keys, the window of agents on the overview, and the id a new lane gets.  A menu is a function
  of the keys that were pressed.
\<close>

section \<open>Moving a selection\<close>

definition moveSelection :: "int \<Rightarrow> int \<Rightarrow> int \<Rightarrow> exn + int" where
  "moveSelection index count delta =
     (if count \<le> 0 then Inl (PlainError ''Selection requires at least one choice'')
      else let n = index + delta + count in Inr (if n < 0 then - (- n mod count) else n mod count))"

datatype direction = Go_up | Go_down | Go_left | Go_right

text \<open>The loop that walks down a column; the guard on the number of columns is the caller's.\<close>

function column_end :: "int \<Rightarrow> int \<Rightarrow> int \<Rightarrow> int" where
  "column_end columns count candidate =
     (if 0 < columns \<and> candidate + columns < count then column_end columns count (candidate + columns) else candidate)"
  by pat_completeness auto

termination by (relation "measure (\<lambda>(columns, count, candidate). nat (count - candidate))") auto

declare column_end.simps [simp del]

definition moveGridSelection :: "int \<Rightarrow> int \<Rightarrow> int \<Rightarrow> direction \<Rightarrow> exn + int" where
  "moveGridSelection index count columns dir =
     (if count \<le> 0 \<or> columns \<le> 0 then Inl (PlainError ''Grid requires choices and columns'')
      else case dir of
        Go_left \<Rightarrow> moveSelection index count (-1)
      | Go_right \<Rightarrow> moveSelection index count 1
      | Go_up \<Rightarrow> Inr (if 0 \<le> index - columns then index - columns else column_end columns count index)
      | Go_down \<Rightarrow> Inr (if index + columns < count then index + columns else index mod columns))"

section \<open>Menus\<close>

datatype tui_key = Key_escape | Key_interrupt | Key_return | Key_arrow direction | Key_tab | Key_other

text \<open>How a menu ended: with the choice at an index, by going back, by an interrupt, by an exception of a
  move; or it waits for a key still.\<close>

datatype menu_end = Menu_chosen int | Menu_back | Menu_cancelled | Menu_failed exn | Menu_open

text \<open>The indices that were rendered, and the end.  \<open>allowBack\<close> is whether Escape leaves.\<close>

fun grid_menu :: "int \<Rightarrow> int \<Rightarrow> bool \<Rightarrow> tui_key list \<Rightarrow> int \<Rightarrow> int list \<times> menu_end" where
  "grid_menu count columns allowBack [] selected = ([], Menu_open)"
| "grid_menu count columns allowBack (k # ks) selected =
     (let go = (\<lambda>dir. case moveGridSelection selected count columns dir of
            Inl e \<Rightarrow> ([], Menu_failed e)
          | Inr j \<Rightarrow> (let (shown, r) = grid_menu count columns allowBack ks j in (j # shown, r))) in
      case k of
        Key_escape \<Rightarrow> if allowBack then ([], Menu_back) else grid_menu count columns allowBack ks selected
      | Key_interrupt \<Rightarrow> ([], Menu_cancelled)
      | Key_return \<Rightarrow> ([], Menu_chosen selected)
      | Key_arrow dir \<Rightarrow> go dir
      | Key_tab \<Rightarrow> go Go_right
      | Key_other \<Rightarrow> grid_menu count columns allowBack ks selected)"

definition selectGrid :: "int \<Rightarrow> int \<Rightarrow> int \<Rightarrow> bool \<Rightarrow> tui_key list \<Rightarrow> int list \<times> menu_end" where
  "selectGrid count initial columns allowBack ks =
     (if initial < 0 \<or> count \<le> initial then ([], Menu_failed (PlainError ''Grid has no initial choice''))
      else let (shown, r) = grid_menu count columns allowBack ks initial in (initial # shown, r))"

text \<open>The row of choices takes left, right and tab only, and Escape always leaves.\<close>

fun row_menu :: "int \<Rightarrow> tui_key list \<Rightarrow> int \<Rightarrow> int list \<times> menu_end" where
  "row_menu count [] selected = ([], Menu_open)"
| "row_menu count (k # ks) selected =
     (let go = (\<lambda>delta. case moveSelection selected count delta of
            Inl e \<Rightarrow> ([], Menu_failed e)
          | Inr j \<Rightarrow> (let (shown, r) = row_menu count ks j in (j # shown, r))) in
      case k of
        Key_escape \<Rightarrow> ([], Menu_back)
      | Key_interrupt \<Rightarrow> ([], Menu_cancelled)
      | Key_return \<Rightarrow> ([], Menu_chosen selected)
      | Key_arrow Go_left \<Rightarrow> go (-1)
      | Key_arrow Go_right \<Rightarrow> go 1
      | Key_tab \<Rightarrow> go 1
      | _ \<Rightarrow> row_menu count ks selected)"

definition selectHorizontal :: "int \<Rightarrow> int \<Rightarrow> tui_key list \<Rightarrow> int list \<times> menu_end" where
  "selectHorizontal count initial ks =
     (if initial < 0 \<or> count \<le> initial then ([], Menu_failed (PlainError ''Selection has no initial choice''))
      else let (shown, r) = row_menu count ks initial in (initial # shown, r))"

section \<open>The window of agents\<close>

text \<open>The first agent shown and how many, for a number of rows of the terminal.\<close>

definition max_visible :: "int \<Rightarrow> int" where
  "max_visible rows = max 1 ((rows - 17) div (if rows < 30 then 1 else 2))"

definition window_start :: "int \<Rightarrow> int \<Rightarrow> int \<Rightarrow> int" where
  "window_start rows agents selected =
     (if agents \<le> selected then max 0 (agents - max_visible rows)
      else max 0 (min selected (agents - 1) - max_visible rows + 1))"

definition window_size :: "int \<Rightarrow> int \<Rightarrow> int \<Rightarrow> int" where
  "window_size rows agents selected = min (max_visible rows) (agents - window_start rows agents selected)"

definition hidden_after :: "int \<Rightarrow> int \<Rightarrow> int \<Rightarrow> int" where
  "hidden_after rows agents selected = agents - (window_start rows agents selected + window_size rows agents selected)"

section \<open>The id of a lane\<close>

text \<open>The identity passed the pattern of identities, so it is ASCII.\<close>

definition is_upper :: "char \<Rightarrow> bool" where
  "is_upper c = (65 \<le> (of_char c :: nat) \<and> (of_char c :: nat) \<le> 90)"

definition lower_or_digit :: "char \<Rightarrow> bool" where
  "lower_or_digit c =
     (97 \<le> (of_char c :: nat) \<and> (of_char c :: nat) \<le> 122 \<or> 48 \<le> (of_char c :: nat) \<and> (of_char c :: nat) \<le> 57)"

definition to_lower :: "char \<Rightarrow> char" where
  "to_lower c = (if is_upper c then char_of ((of_char c :: nat) + 32) else c)"

fun split_camel :: "string \<Rightarrow> string" where
  "split_camel (a # b # s) =
     (if lower_or_digit a \<and> is_upper b then a # CHR ''-'' # b # split_camel s else a # split_camel (b # s))"
| "split_camel s = s"

fun squeeze :: "string \<Rightarrow> string" where
  "squeeze [] = []"
| "squeeze [c] = (if lower_or_digit c then [c] else ''-'')"
| "squeeze (c # d # s) =
     (if lower_or_digit c then c # squeeze (d # s)
      else if lower_or_digit d then CHR ''-'' # squeeze (d # s) else squeeze (d # s))"

definition trim_hyphens :: "string \<Rightarrow> string" where
  "trim_hyphens s = rev (dropWhile (\<lambda>c. c = CHR ''-'') (rev (dropWhile (\<lambda>c. c = CHR ''-'') s)))"

definition lane_base :: "string \<Rightarrow> string" where
  "lane_base identity = trim_hyphens (squeeze (map to_lower (split_camel identity)))"

definition numbered :: "string \<Rightarrow> nat \<Rightarrow> string" where
  "numbered base n = base @ ''-'' @ nat_digits n"

text \<open>The loop looks for a free number; that it ends is proved below.\<close>

partial_function (option) free_id :: "string list \<Rightarrow> string \<Rightarrow> string \<Rightarrow> nat \<Rightarrow> string option" where
  [code]: "free_id used base candidate suffix =
     (if candidate \<in> set used then free_id used base (numbered base suffix) (suffix + 1) else Some candidate)"

definition deriveLaneId :: "string \<Rightarrow> string list \<Rightarrow> string option" where
  "deriveLaneId identity occupied = free_id occupied (lane_base identity) (lane_base identity) 2"

section \<open>Agent types\<close>

definition agentTypeFor :: "string \<Rightarrow> string" where
  "agentTypeFor kind =
     (if kind = ''claude'' then ''ai-claude'' else if kind = ''codex'' then ''ai-codex'' else ''ai-antigravity'')"

definition runtimeForAgentType :: "string \<Rightarrow> string option" where
  "runtimeForAgentType t =
     (if t = ''ai-claude'' then Some ''claude'' else if t = ''ai-codex'' then Some ''codex''
      else if t = ''ai-antigravity'' then Some ''antigravity'' else None)"

section \<open>Lemmas\<close>

lemma moveSelection_range:
  "0 \<le> i \<Longrightarrow> i < n \<Longrightarrow> - 1 \<le> d \<Longrightarrow> moveSelection i n d = Inr ((i + d) mod n)"
  by (simp add: moveSelection_def Let_def)

lemma column_end_spec:
  assumes "0 < columns" "candidate < count"
  shows "candidate \<le> column_end columns count candidate \<and> column_end columns count candidate < count \<and>
    count \<le> column_end columns count candidate + columns \<and>
    column_end columns count candidate mod columns = candidate mod columns"
  using assms
proof (induction columns count candidate rule: column_end.induct)
  case (1 columns count candidate)
  then show ?case by (cases "candidate + columns < count") (auto simp: column_end.simps [of columns count candidate])
qed

lemma column_end_top:
  assumes "0 < columns" "0 \<le> i" "i < columns" "i < count" "j < count" "count \<le> j + columns" "j mod columns = i"
  shows "column_end columns count i = j"
proof -
  let ?e = "column_end columns count i"
  note e = column_end_spec [OF assms(1,4)]
  have "?e mod columns = j mod columns" using e assms by simp
  then have "columns dvd (?e - j)" by (simp add: mod_eq_dvd_iff)
  then obtain q where q: "?e - j = columns * q" by (elim dvdE)
  have "\<bar>?e - j\<bar> < columns" using e assms(5,6) by linarith
  with q assms(1) have "q = 0" by (simp add: abs_mult)
  with q show ?thesis by simp
qed

text \<open>Numerals are distinct.\<close>

lemma nat_digits_value: "fold (\<lambda>c v. 10 * v + (of_char c - 48)) (nat_digits n) 0 = (n :: nat)"
proof (induction n rule: nat_digits.induct)
  case (1 n)
  then show ?case
    by (cases "n < 10") (simp_all add: nat_digits.simps [of n] of_char_of)
qed

lemma nat_digits_inj: "nat_digits m = nat_digits n \<Longrightarrow> m = n"
  by (metis nat_digits_value)

lemma numbered_inj: "numbered base m = numbered base n \<longleftrightarrow> m = n"
  by (auto simp: numbered_def dest: nat_digits_inj)

lemma numbered_not_base: "numbered base n \<noteq> base"
  by (simp add: numbered_def)

text \<open>The numbers that are taken from k on are finitely many, so the loop finds a free one.\<close>

lemma free_id_found:
  assumes "\<And>i. i < m \<Longrightarrow> numbered base (k + i) \<in> set used" "numbered base (k + m) \<notin> set used"
  shows "free_id used base (numbered base k) (k + 1) = Some (numbered base (k + m))"
  using assms
proof (induction m arbitrary: k)
  case 0
  then show ?case by (subst free_id.simps) simp
next
  case (Suc m)
  have "numbered base k \<in> set used" using Suc.prems(1) [of 0] by simp
  moreover have "free_id used base (numbered base (k + 1)) (k + 1 + 1) = Some (numbered base (k + 1 + m))"
    using Suc.prems(1) [of "Suc i" for i] Suc.prems(2) by (intro Suc.IH) simp_all
  ultimately show ?case by (subst free_id.simps) simp
qed

lemma some_number_free: "\<exists>m. numbered base (2 + m) \<notin> set used"
proof (rule ccontr)
  assume "\<nexists>m. numbered base (2 + m) \<notin> set used"
  then have "range (\<lambda>m. numbered base (2 + m)) \<subseteq> set used" by auto
  moreover have "inj (\<lambda>m. numbered base (2 + m))" by (auto simp: inj_def numbered_inj)
  ultimately show False using finite_subset [OF _ finite_set] finite_imageD [of _ UNIV] infinite_UNIV_nat by blast
qed

lemma derive_taken:
  assumes "lane_base identity \<in> set used"
  shows "\<exists>n\<ge>2. deriveLaneId identity used = Some (numbered (lane_base identity) n) \<and>
    numbered (lane_base identity) n \<notin> set used \<and> list_all (\<lambda>k. numbered (lane_base identity) k \<in> set used) [2..<n]"
proof -
  let ?b = "lane_base identity"
  define m where "m = (LEAST m. numbered ?b (2 + m) \<notin> set used)"
  have m: "numbered ?b (2 + m) \<notin> set used" "\<And>i. i < m \<Longrightarrow> numbered ?b (2 + i) \<in> set used"
    using LeastI_ex [OF some_number_free] not_less_Least unfolding m_def by blast+
  have "deriveLaneId identity used = free_id used ?b (numbered ?b 2) (2 + 1)"
    unfolding deriveLaneId_def using assms by (subst free_id.simps) simp
  also have "\<dots> = Some (numbered ?b (2 + m))" using free_id_found m by blast
  finally have d: "deriveLaneId identity used = Some (numbered ?b (2 + m))" .
  have "numbered ?b k \<in> set used" if "k \<in> set [2..<2 + m]" for k
  proof -
    from that obtain i where "k = 2 + i" "i < m" using le_Suc_ex [of 2 k] by auto
    with m(2) [of i] show ?thesis by simp
  qed
  then have "list_all (\<lambda>k. numbered ?b k \<in> set used) [2..<2 + m]" unfolding list_all_iff by blast
  with d m(1) show ?thesis using le_add1 [of 2 m] by blast
qed

text \<open>An id made from an identity with a letter or a digit is a valid lane id.\<close>

lemma kebab_charI:
  assumes "lower_or_digit c"
  shows "kebab_char c"
proof -
  have "list_all (\<lambda>n. char_of n \<in> set ''abcdefghijklmnopqrstuvwxyz0123456789'') ([97..<123] @ [48..<58 :: nat])"
    by code_simp
  moreover have "(of_char c :: nat) \<in> set ([97..<123] @ [48..<58])"
    using assms unfolding lower_or_digit_def set_append set_upt Un_iff atLeastLessThan_iff by arith
  ultimately have "char_of (of_char c :: nat) \<in> set ''abcdefghijklmnopqrstuvwxyz0123456789''" unfolding list_all_iff by blast
  then show ?thesis unfolding kebab_char_def by (simp only: char_of_char)
qed

lemma squeeze_chars: "x \<in> set (squeeze s) \<Longrightarrow> lower_or_digit x \<or> x = CHR ''-''"
  by (induction s rule: squeeze.induct) (auto split: if_splits)

lemma squeeze_keeps: "x \<in> set s \<Longrightarrow> lower_or_digit x \<Longrightarrow> x \<in> set (squeeze s)"
  by (induction s rule: squeeze.induct) auto

lemma split_camel_keeps: "set s \<subseteq> set (split_camel s)"
  by (induction s rule: split_camel.induct) auto

lemma trim_hyphens_kebab:
  assumes "\<And>x. x \<in> set s \<Longrightarrow> lower_or_digit x \<or> x = CHR ''-''" "c \<in> set s" "lower_or_digit c"
  shows "kebab (trim_hyphens s)"
proof -
  let ?p = "\<lambda>c. c = CHR ''-''"
  let ?d = "dropWhile ?p s" and ?t = "trim_hyphens s"
  have hyphen: "\<not> lower_or_digit (CHR ''-'')" by (simp add: lower_or_digit_def)
  have "set (takeWhile ?p s) \<union> set ?d = set s" using arg_cong [OF takeWhile_dropWhile_id [of ?p s], of set] by (simp only: set_append)
  then have "c \<in> set (takeWhile ?p s) \<union> set ?d" using assms(2) by simp
  then have cd: "c \<in> set ?d" using assms(3) hyphen by (auto dest: set_takeWhileD)
  then have d1: "?d \<noteq> []" by (cases ?d) simp_all
  note d = d1 hd_dropWhile [OF d1]
  define u where "u = takeWhile ?p (rev ?d)"
  have dt: "?d = ?t @ rev u"
    using arg_cong [OF takeWhile_dropWhile_id [of ?p "rev ?d"], of rev] by (simp only: trim_hyphens_def u_def rev_append rev_rev_ident)
  have "c \<notin> set u" using assms(3) hyphen unfolding u_def by (auto dest: set_takeWhileD)
  then have "c \<in> set ?t" using cd arg_cong [OF dt, of set] by auto
  then obtain x xs where t: "?t = x # xs" by (cases ?t) auto
  then have "hd ?d = x" using dt by simp
  then have "\<not> ?p x" using d by simp
  moreover have "set ?t \<subseteq> set s" using dt set_dropWhileD [of _ ?p s] arg_cong [OF dt, of set] by auto
  ultimately show ?thesis using assms(1) t by (auto simp: kebab_def list_all_iff intro!: kebab_charI)
qed

definition alphanumeric :: "char \<Rightarrow> bool" where
  "alphanumeric c = (lower_or_digit c \<or> is_upper c)"

lemma to_lower_alphanumeric: "alphanumeric c \<Longrightarrow> lower_or_digit (to_lower c)"
  by (auto simp: alphanumeric_def to_lower_def lower_or_digit_def is_upper_def)

lemma lane_base_kebab:
  assumes "list_ex alphanumeric identity"
  shows "kebab (lane_base identity)"
proof -
  from assms obtain c where c: "c \<in> set identity" "alphanumeric c" by (auto simp: list_ex_iff)
  then have "to_lower c \<in> set (map to_lower (split_camel identity))" using split_camel_keeps by auto
  with to_lower_alphanumeric [OF c(2)] have "to_lower c \<in> set (squeeze (map to_lower (split_camel identity)))"
    by (rule squeeze_keeps [rotated -1])
  with to_lower_alphanumeric [OF c(2)] show ?thesis
    unfolding lane_base_def by (intro trim_hyphens_kebab) (auto dest: squeeze_chars)
qed

lemma nat_digits_digits: "x \<in> set (nat_digits n) \<Longrightarrow> lower_or_digit x"
proof (induction n rule: nat_digits.induct)
  case (1 n)
  then show ?case
    by (cases "n < 10") (auto simp: nat_digits.simps [of n] lower_or_digit_def of_char_of)
qed

lemma numbered_kebab: "kebab base \<Longrightarrow> kebab (numbered base n)"
  by (cases base) (auto simp: kebab_def numbered_def list_all_iff dest: nat_digits_digits kebab_charI)

lemma derived_some: "\<exists>i. deriveLaneId identity used = Some i"
proof (cases "lane_base identity \<in> set used")
  case True
  then show ?thesis using derive_taken by blast
next
  case False
  then show ?thesis unfolding deriveLaneId_def by (subst free_id.simps) simp
qed

section \<open>Properties\<close>

text \<open>C27: a new lane always gets an id, a free one, and one that the configuration accepts.  The search for a
  number ends for every set of ids in use; the id is the identity in the form of an id when that is free,
  and else the first free number after it.\<close>

theorem deriveLaneId_total:
  "\<exists>i. deriveLaneId identity used = Some i \<and> i \<notin> set used \<and>
    (if list_ex alphanumeric identity then kebab i else True) \<and>
    (if lane_base identity \<notin> set used then i = lane_base identity
     else \<exists>n. 2 \<le> n \<and> i = numbered (lane_base identity) n \<and>
       list_all (\<lambda>k. numbered (lane_base identity) k \<in> set used) [2..<n])"
proof (cases "lane_base identity \<in> set used")
  case True
  from derive_taken [OF True] True lane_base_kebab numbered_kebab show ?thesis by auto
next
  case False
  then show ?thesis unfolding deriveLaneId_def using lane_base_kebab by (subst free_id.simps) simp
qed

definition opposite :: "direction \<Rightarrow> direction" where
  "opposite d = (case d of Go_up \<Rightarrow> Go_down | Go_down \<Rightarrow> Go_up | Go_left \<Rightarrow> Go_right | Go_right \<Rightarrow> Go_left)"

text \<open>Every move over a grid stays on it and is undone by the opposite move, also around its edges and in
  an incomplete last row; up and down keep the column.\<close>

theorem grid_moves_invert:
  assumes "0 \<le> i" "i < count" "0 < columns"
  shows "\<exists>j. moveGridSelection i count columns d = Inr j \<and> 0 \<le> j \<and> j < count \<and>
    moveGridSelection j count columns (opposite d) = Inr i \<and>
    (if d = Go_up \<or> d = Go_down then j mod columns = i mod columns else True)"
proof -
  have wrap: "((i + e) mod count + - e) mod count = i" for e using assms by (simp add: mod_simps)
  have step: "moveSelection i count e = Inr ((i + e) mod count)" "0 \<le> (i + e) mod count" "(i + e) mod count < count"
    "moveSelection ((i + e) mod count) count (- e) = Inr i" if "e = 1 \<or> e = - 1" for e
    using that assms wrap [of e] moveSelection_range [of "(i + e) mod count" count "- e"]
    by (auto simp: moveSelection_range)
  show ?thesis
  proof (cases d)
    case Go_left
    with step [of "- 1"] assms show ?thesis by (auto simp: moveGridSelection_def opposite_def)
  next
    case Go_right
    with step [of 1] assms show ?thesis by (auto simp: moveGridSelection_def opposite_def)
  next
    case Go_up
    show ?thesis
    proof (cases "0 \<le> i - columns")
      case True
      with Go_up assms show ?thesis by (auto simp: moveGridSelection_def opposite_def mod_diff_left_eq)
    next
      case False
      let ?e = "column_end columns count i"
      from column_end_spec [OF assms(3,2)] False assms have "i \<le> ?e" "?e < count" "\<not> ?e + columns < count" "?e mod columns = i mod columns"
        "i mod columns = i" by auto
      with Go_up False assms show ?thesis by (auto simp: moveGridSelection_def opposite_def)
    qed
  next
    case Go_down
    show ?thesis
    proof (cases "i + columns < count")
      case True
      with Go_down assms show ?thesis by (auto simp: moveGridSelection_def opposite_def)
    next
      case False
      let ?t = "i mod columns"
      have t: "0 \<le> ?t" "?t < columns" "?t \<le> i" "\<not> columns \<le> ?t" using assms by (simp_all add: zmod_le_nonneg_dividend not_le)
      with False assms column_end_top [of columns ?t count i] have "column_end columns count ?t = i" by simp
      moreover have "\<not> 0 \<le> ?t - columns" using t by linarith
      ultimately show ?thesis using Go_down False t(1,3) assms by (simp add: moveGridSelection_def opposite_def)
    qed
  qed
qed

theorem grid_moves_invert_witness:
  "\<exists>j. moveGridSelection 4 7 2 Go_down = Inr j \<and> moveGridSelection j 7 2 Go_up = Inr 4"
  using grid_moves_invert [of 4 7 2 Go_down] by (auto simp: opposite_def)

lemma grid_move_range:
  "0 \<le> i \<Longrightarrow> i < count \<Longrightarrow> 0 < columns \<Longrightarrow> \<exists>j. moveGridSelection i count columns d = Inr j \<and> 0 \<le> j \<and> j < count"
  using column_end_spec [of columns i count] zmod_le_nonneg_dividend [of i columns]
  by (cases d) (auto simp: moveGridSelection_def moveSelection_range)

lemma grid_menu_shown:
  assumes "0 \<le> i" "i < count" "0 < columns" "grid_menu count columns esc ks i = (shown, r)"
  shows "list_all (\<lambda>j. 0 \<le> j \<and> j < count) shown \<and> (r = Menu_chosen n \<longrightarrow> last (i # shown) = n) \<and>
    (\<not> esc \<longrightarrow> r \<noteq> Menu_back) \<and> (\<forall>e. r \<noteq> Menu_failed e)"
  using assms
proof (induction ks arbitrary: i shown r)
  case (Cons key ks)
  have moved: ?case if g: "(case moveGridSelection i count columns d of Inl e \<Rightarrow> ([], Menu_failed e)
      | Inr j \<Rightarrow> (let (shown, r) = grid_menu count columns esc ks j in (j # shown, r))) = (shown, r)" for d
  proof -
    obtain j where j: "moveGridSelection i count columns d = Inr j" "0 \<le> j" "j < count"
      using grid_move_range Cons.prems(1-3) by blast
    obtain s' r' where m: "grid_menu count columns esc ks j = (s', r')" by (cases "grid_menu count columns esc ks j")
    from Cons.IH [OF j(2,3) Cons.prems(3) m] g j m show ?thesis by auto
  qed
  show ?case
  proof (cases key)
    case Key_escape
    with Cons show ?thesis by (cases esc) auto
  next
    case (Key_arrow d)
    with moved [of d] Cons.prems(4) show ?thesis by (simp add: Let_def)
  next
    case Key_tab
    with moved [of Go_right] Cons.prems(4) show ?thesis by (simp add: Let_def)
  next
    case Key_other
    with Cons.prems(4) have "grid_menu count columns esc ks i = (shown, r)" by simp
    from Cons.IH [OF Cons.prems(1-3) this] show ?thesis .
  qed (use Cons.prems in auto)
qed simp

text \<open>A menu returns what it showed.  Whatever keys are pressed, every index that is rendered is one of the
  choices, the choice that Return takes is the one rendered last, and the menu of the top screen, which
  Escape must not leave, is never left by it.\<close>

theorem menu_returns_shown:
  assumes "selectGrid count initial columns esc ks = (shown, r)" "0 \<le> initial" "initial < count" "0 < columns"
  shows "list_all (\<lambda>j. 0 \<le> j \<and> j < count) shown \<and> shown \<noteq> [] \<and>
    (case r of Menu_chosen n \<Rightarrow> last shown = n | Menu_back \<Rightarrow> esc | Menu_failed e \<Rightarrow> False | _ \<Rightarrow> True)"
proof -
  obtain s' r' where m: "grid_menu count columns esc ks initial = (s', r')" by (cases "grid_menu count columns esc ks initial")
  have "shown = initial # s'" "r = r'" using assms m by (simp_all add: selectGrid_def)
  then show ?thesis using grid_menu_shown [OF assms(2-4) m] assms(2,3) by (cases r) auto
qed

theorem menu_returns_shown_witness:
  "list_all (\<lambda>j. 0 \<le> j \<and> j < 5) [0, 2, 3 :: int]"
proof -
  have "selectGrid 5 0 2 False [Key_arrow Go_down, Key_escape, Key_tab, Key_return] = ([0, 2, 3], Menu_chosen 3)"
    by (simp add: selectGrid_def moveGridSelection_def moveSelection_def)
  from menu_returns_shown [OF this] show ?thesis by simp
qed

text \<open>The overview shows the agent that is selected, however many there are and however few rows the
  terminal has, and the agents above, in and below the window are all of them.\<close>

theorem selected_agent_visible:
  assumes "0 \<le> selected" "selected < agents"
  shows "0 \<le> window_start rows agents selected \<and> window_start rows agents selected \<le> selected \<and>
    selected < window_start rows agents selected + window_size rows agents selected \<and>
    0 \<le> hidden_after rows agents selected \<and>
    window_start rows agents selected + window_size rows agents selected + hidden_after rows agents selected = agents"
  using assms by (auto simp: window_start_def window_size_def hidden_after_def max_visible_def)

theorem selected_agent_visible_witness:
  "7 < window_start 20 9 7 + window_size 20 9 7"
  using selected_agent_visible [of 7 9 20] by simp

end
