(* ===== verification/Tui.thy ===== *)
theory Tui
  imports Tui_Select User_Service Command_Line_Props
begin

text \<open>
  \<open>src/tui/app.ts\<close>, the screens that change something: adding an agent, the agent's actions, its channels,
  the onboarding and the start of the daemon.  What the person at the terminal answers is an argument, and
  the result of a screen is a value, going back, an exception, or waiting for more answers.  The state
  and the services are those of the command line.  The text on the screen is not modelled.
\<close>

section \<open>Screens\<close>

datatype 'a screen = Screen 'a | Screen_back | Screen_error exn | Screen_waiting

type_synonym 'a tui = "cli_state \<Rightarrow> 'a screen \<times> cli_state"

definition sc_bind :: "'a screen \<Rightarrow> ('a \<Rightarrow> 'b screen) \<Rightarrow> 'b screen" where
  "sc_bind r f = (case r of Screen a \<Rightarrow> f a | Screen_back \<Rightarrow> Screen_back | Screen_error e \<Rightarrow> Screen_error e | Screen_waiting \<Rightarrow> Screen_waiting)"

definition tret :: "'a \<Rightarrow> 'a tui" where
  "tret a s = (Screen a, s)"

definition tbind :: "'a tui \<Rightarrow> ('a \<Rightarrow> 'b tui) \<Rightarrow> 'b tui" where
  "tbind m f s =
     (case m s of (Screen a, s') \<Rightarrow> f a s' | (Screen_back, s') \<Rightarrow> (Screen_back, s') | (Screen_error e, s') \<Rightarrow> (Screen_error e, s')
      | (Screen_waiting, s') \<Rightarrow> (Screen_waiting, s'))"

definition tlift :: "'a cli \<Rightarrow> 'a tui" where
  "tlift m s = (case m s of (Inl e, s') \<Rightarrow> (Screen_error e, s') | (Inr a, s') \<Rightarrow> (Screen a, s'))"

definition tview :: "(cli_state \<Rightarrow> 'a screen) \<Rightarrow> 'a tui" where
  "tview f s = (f s, s)"

definition tscreen :: "'a screen \<Rightarrow> 'a tui" where
  "tscreen r s = (r, s)"

text \<open>A menu is answered by a choice, Escape or Control-C; a question by the trimmed text of a line or by
  Escape, and an empty text is the fallback.\<close>

datatype 'a pick = Pick 'a | Pick_escape | Pick_interrupt

definition picked :: "'a pick \<Rightarrow> 'a screen" where
  "picked p = (case p of Pick a \<Rightarrow> Screen a | Pick_escape \<Rightarrow> Screen_back
     | Pick_interrupt \<Rightarrow> Screen_error (PlainError ''Selection cancelled''))"

definition asked :: "string option \<Rightarrow> string \<Rightarrow> string screen" where
  "asked answer fallback = (case answer of None \<Rightarrow> Screen_back | Some [] \<Rightarrow> Screen fallback | Some t \<Rightarrow> Screen t)"

definition is_yes :: "string \<Rightarrow> bool" where
  "is_yes t = (t = ''y'' \<or> t = ''Y'')"

section \<open>The identity of a new agent\<close>

record identity_attempt =
  ia_answer :: "string option"
  ia_keep :: "bool pick"

text \<open>One pass of the loop; \<open>None\<close> asks again.  A confirmed identity comes with its registered type.\<close>

definition identity_pass :: "cli_env \<Rightarrow> json list \<Rightarrow> cli_state \<Rightarrow> identity_attempt \<Rightarrow> (string \<times> string option) screen option" where
  "identity_pass env existing s a =
     (case ia_answer a of
        None \<Rightarrow> Some Screen_back
      | Some identity \<Rightarrow>
          if identity = [] \<or> \<not> cc_IDENTITY_RE (cl_contracts env) identity \<or>
             list_ex (\<lambda>l. jfield l ''identity'' = Some (JStr identity)) existing then None
          else case lookupAgentIdentity (cc_IDENTITY_RE (cl_contracts env)) identity (cl_lookup env identity) of
            Inl e \<Rightarrow> Some (Screen_error e)
          | Inr None \<Rightarrow> Some (Screen (identity, None))
          | Inr (Some reg) \<Rightarrow>
              if ri_deleted reg then None
              else (case fst (held_key env identity s) of
                Inl e \<Rightarrow> Some (Screen_error e)
              | Inr held \<Rightarrow>
                  if \<not> key_is_mine held reg then None
                  else (case set_nonempty (case ri_type reg of Some t \<Rightarrow> Some t | None \<Rightarrow> ki_agentType (the held)) of
                    None \<Rightarrow> Some (Screen (identity, None))
                  | Some t \<Rightarrow>
                      (case ia_keep a of
                         Pick True \<Rightarrow> Some (Screen (identity, Some t))
                       | Pick False \<Rightarrow> None
                       | Pick_escape \<Rightarrow> Some Screen_back
                       | Pick_interrupt \<Rightarrow> Some (Screen_error (PlainError ''Selection cancelled''))))))"

fun askAgentIdentity :: "cli_env \<Rightarrow> json list \<Rightarrow> cli_state \<Rightarrow> identity_attempt list \<Rightarrow> (string \<times> string option) screen" where
  "askAgentIdentity env existing s [] = Screen_waiting"
| "askAgentIdentity env existing s (a # as') =
     (case identity_pass env existing s a of None \<Rightarrow> askAgentIdentity env existing s as' | Some r \<Rightarrow> r)"

section \<open>A new lane\<close>

record lane_answers =
  la_identity :: "identity_attempt list"
  la_runtime :: "string pick"
  la_workspace :: "string option"
  la_profile :: "string pick"
  la_risk :: "string option"

definition createLane :: "cli_env \<Rightarrow> lane_answers \<Rightarrow> json list \<Rightarrow> cli_state \<Rightarrow> json screen" where
  "createLane env an existing s =
     sc_bind (askAgentIdentity env existing s (la_identity an)) (\<lambda>(identity, agentType).
     case deriveLaneId identity (map (\<lambda>l. str_of l ''id'') existing) of
       None \<Rightarrow> Screen_waiting
     | Some i \<Rightarrow>
         sc_bind (case Option.bind agentType runtimeForAgentType of Some kind \<Rightarrow> Screen kind | None \<Rightarrow> picked (la_runtime an)) (\<lambda>kind.
         sc_bind (asked (la_workspace an) (cl_cwd env)) (\<lambda>workspace.
         sc_bind (picked (la_profile an)) (\<lambda>profile.
         sc_bind (if profile \<noteq> ''unrestricted'' then Screen False
             else sc_bind (asked (la_risk an) ''N'') (\<lambda>t.
               if is_yes t then Screen True else Screen_error (PlainError ''Unrestricted runtime was not acknowledged''))) (\<lambda>risk.
           Screen (new_lane i identity (case agentType of Some t \<Rightarrow> t | None \<Rightarrow> agentTypeFor kind) kind None
             (cl_resolve env workspace) profile risk))))))"

section \<open>Edits of the configuration\<close>

datatype tui_edit =
    Edit_add json
  | Edit_toggle string
  | Edit_drop string
  | Edit_channel_add string json
  | Edit_channel_switch string string bool
  | Edit_channel_remove string string

definition with_lane_channels :: "string \<Rightarrow> (json list \<Rightarrow> json list) \<Rightarrow> json \<Rightarrow> json" where
  "with_lane_channels laneId f cfg =
     set_field ''lanes'' (JArr (alter_first (same_id laneId)
       (\<lambda>l. [set_field ''channels'' (JArr (f (arr_of l ''channels''))) l]) (arr_of cfg ''lanes''))) cfg"

fun apply_edit :: "tui_edit \<Rightarrow> json \<Rightarrow> json" where
  "apply_edit (Edit_add lane) cfg = set_field ''lanes'' (JArr (arr_of cfg ''lanes'' @ [lane])) cfg"
| "apply_edit (Edit_toggle i) cfg =
     set_field ''lanes'' (JArr (alter_first (same_id i)
       (\<lambda>l. [set_field ''enabled'' (JBool (\<not> js_truthy (jfield l ''enabled''))) l]) (arr_of cfg ''lanes''))) cfg"
| "apply_edit (Edit_drop i) cfg = set_field ''lanes'' (JArr (alter_first (same_id i) (\<lambda>l. []) (arr_of cfg ''lanes''))) cfg"
| "apply_edit (Edit_channel_add laneId ch) cfg = with_lane_channels laneId (\<lambda>chs. chs @ [ch]) cfg"
| "apply_edit (Edit_channel_switch laneId i on') cfg =
     with_lane_channels laneId (alter_first (same_id i) (\<lambda>c. [set_field ''enabled'' (JBool on') c])) cfg"
| "apply_edit (Edit_channel_remove laneId i) cfg =
     retire i (with_lane_channels laneId (alter_first (same_id i) (\<lambda>c. [])) cfg)"

text \<open>An action tells whether its screen is left.\<close>

definition save_and_reload :: "cli_env \<Rightarrow> bool \<Rightarrow> json \<Rightarrow> bool tui" where
  "save_and_reload env leave cfg =
     tbind (tlift (cli_save env cfg)) (\<lambda>saved. tbind (tlift (requestControl env ''config.reload'' (JObj []))) (\<lambda>r. tret leave))"

section \<open>Actions\<close>

definition tui_add :: "cli_env \<Rightarrow> lane_answers \<Rightarrow> bool tui" where
  "tui_add env an =
     tbind (tlift (cli_load env)) (\<lambda>cfg.
     case hub_of cfg of
       None \<Rightarrow> tlift (ethrow ''Hub must be configured before adding an agent'')
     | Some hub \<Rightarrow>
         tbind (tlift (elift (resolveHubEndpoints (cl_parse_url env) (str_of hub ''base_url'')
           (jstr (jfield hub ''rpc_ws'')) (jstr (jfield hub ''api_http''))))) (\<lambda>endpoints.
         tbind (tview (createLane env an (arr_of cfg ''lanes''))) (\<lambda>lane.
           save_and_reload env False (apply_edit (Edit_add lane) cfg))))"

definition tui_toggle :: "cli_env \<Rightarrow> string \<Rightarrow> bool tui" where
  "tui_toggle env i =
     tbind (tlift (cli_load env)) (\<lambda>cfg.
       if \<not> list_ex (same_id i) (arr_of cfg ''lanes'') then tret True else save_and_reload env False (apply_edit (Edit_toggle i) cfg))"

text \<open>The session is released before the configuration is saved.\<close>

definition tui_remove :: "cli_env \<Rightarrow> string \<Rightarrow> string option \<Rightarrow> bool tui" where
  "tui_remove env i answer =
     tbind (tlift (cli_load env)) (\<lambda>cfg.
       if \<not> list_ex (same_id i) (arr_of cfg ''lanes'') then tret True
       else tbind (tscreen (asked answer ''N'')) (\<lambda>t.
         if \<not> is_yes t then tret False
         else tbind (tlift (release_session env (lane_identity i cfg))) (\<lambda>_.
           save_and_reload env True (apply_edit (Edit_drop i) cfg))))"

definition tui_replay :: "cli_env \<Rightarrow> string \<Rightarrow> bool tui" where
  "tui_replay env i =
     tbind (tlift (requestControl env ''outbox.replay'' (JObj [(''lane_id'', JStr i)]))) (\<lambda>r. tret False)"

text \<open>The channels of a lane: the answers to the questions of an added channel, or the channel that was
  picked and the last question of its removal.\<close>

datatype channel_action =
    Channel_add "string option" "string option" "string option" "string option" "string option"
  | Channel_switch "string pick" bool
  | Channel_remove "string pick" "string option"

definition allowed_ids :: "cli_env \<Rightarrow> string \<Rightarrow> string list" where
  "allowed_ids env t = filter (\<lambda>x. x \<noteq> []) (map (cl_trim env) (split_on (CHR '','') t))"

definition discord_channel :: "string \<Rightarrow> string \<Rightarrow> string list \<Rightarrow> bool \<Rightarrow> json" where
  "discord_channel i account allowed mentionOnly =
     JObj [(''id'', JStr i), (''provider'', JStr ''discord''), (''enabled'', JBool True), (''account_ref'', JStr account),
       (''secret_ref'', JStr (''channel-'' @ i @ ''.token'')),
       (''options'', JObj ((if allowed = [] then [] else [(''allowed_channel_ids'', JArr (map JStr allowed))]) @
          [(''mention_only'', JBool mentionOnly)]))]"

definition channel_questions ::
  "cli_env \<Rightarrow> string \<Rightarrow> string option \<Rightarrow> string option \<Rightarrow> string option \<Rightarrow> string option \<Rightarrow> string option \<Rightarrow>
   (string \<times> string \<times> json) screen" where
  "channel_questions env laneId i account token allowed mention =
     sc_bind (asked i (''discord-'' @ laneId)) (\<lambda>i.
     sc_bind (asked account ''discord-bot'') (\<lambda>account.
     sc_bind (asked token []) (\<lambda>token.
     sc_bind (asked allowed []) (\<lambda>allowed.
     sc_bind (asked mention ''N'') (\<lambda>mention.
       Screen (i, token, discord_channel i account (allowed_ids env allowed) (is_yes mention)))))))"

definition tsecret :: "(secret_store \<Rightarrow> (exn + 'a) \<times> secret_store) \<Rightarrow> 'a tui" where
  "tsecret f = tlift (\<lambda>s. (fst (f (st_secrets s)), s\<lparr>st_secrets := snd (f (st_secrets s))\<rparr>))"

text \<open>A channel that is removed is retired; its token is deleted, if the answer is yes, before the
  configuration is saved.\<close>

definition picked_channel :: "json \<Rightarrow> string pick \<Rightarrow> (string \<times> json) tui" where
  "picked_channel lane p =
     tscreen (sc_bind (picked p) (\<lambda>i.
       case List.find (same_id i) (arr_of lane ''channels'') of
         None \<Rightarrow> Screen_error (PlainError (''Selected channel disappeared: '' @ i))
       | Some ch \<Rightarrow> Screen (i, ch)))"

definition add_channel_screen :: "cli_env \<Rightarrow> string \<Rightarrow> json \<Rightarrow> (string \<times> string \<times> json) screen \<Rightarrow> bool tui" where
  "add_channel_screen env laneId cfg answers =
     tbind (tscreen answers) (\<lambda>(i, token, ch).
     tbind (tsecret (secret_set (cl_secret_fault env) (''channel-'' @ i @ ''.token'') token)) (\<lambda>_.
       save_and_reload env False (apply_edit (Edit_channel_add laneId ch) cfg)))"

definition switch_channel_screen :: "cli_env \<Rightarrow> string \<Rightarrow> json \<Rightarrow> json \<Rightarrow> string pick \<Rightarrow> bool \<Rightarrow> bool tui" where
  "switch_channel_screen env laneId cfg lane p on' =
     tbind (picked_channel lane p) (\<lambda>(i, ch). save_and_reload env False (apply_edit (Edit_channel_switch laneId i on') cfg))"

definition remove_channel_screen :: "cli_env \<Rightarrow> string \<Rightarrow> json \<Rightarrow> json \<Rightarrow> string pick \<Rightarrow> string option \<Rightarrow> bool tui" where
  "remove_channel_screen env laneId cfg lane p answer =
     tbind (picked_channel lane p) (\<lambda>(i, ch).
     tbind (tscreen (asked answer ''N'')) (\<lambda>t.
     tbind (if is_yes t then tsecret (secret_remove (str_of ch ''secret_ref'')) else tret False) (\<lambda>_.
       save_and_reload env False (apply_edit (Edit_channel_remove laneId i) cfg))))"

definition channelsScreen :: "cli_env \<Rightarrow> string \<Rightarrow> channel_action pick \<Rightarrow> bool tui" where
  "channelsScreen env laneId action =
     tbind (tlift (cli_load env)) (\<lambda>cfg.
     case List.find (same_id laneId) (arr_of cfg ''lanes'') of
       None \<Rightarrow> tlift (ethrow (''Unknown agent: '' @ laneId))
     | Some lane \<Rightarrow>
         (case action of
            Pick_escape \<Rightarrow> tret True
          | Pick_interrupt \<Rightarrow> tlift (ethrow ''Selection cancelled'')
          | Pick (Channel_add i account token allowed mention) \<Rightarrow>
              add_channel_screen env laneId cfg (channel_questions env laneId i account token allowed mention)
          | Pick (Channel_switch p on') \<Rightarrow> switch_channel_screen env laneId cfg lane p on'
          | Pick (Channel_remove p answer) \<Rightarrow> remove_channel_screen env laneId cfg lane p answer))"

text \<open>What a screen offers.\<close>

definition agentActions :: "rat \<Rightarrow> bool \<Rightarrow> string list" where
  "agentActions deadLetter enabled =
     [''keys'', ''channels'', ''attach''] @ (if 0 < deadLetter then [''replay''] else []) @ [''toggle'', ''remove'', ''back'']"

definition overviewChoices :: "string list \<Rightarrow> string list" where
  "overviewChoices lanes = map (\<lambda>i. ''agent:'' @ i) lanes @ [''add'', ''refresh'', ''quit'']"

section \<open>Onboarding and the daemon\<close>

definition ensureOnboarding :: "cli_env \<Rightarrow> (string \<Rightarrow> exn + unit) \<Rightarrow> string \<Rightarrow> unit tui" where
  "ensureOnboarding env probe answer =
     tbind (tlift (cli_load env)) (\<lambda>cfg.
       if hub_of cfg \<noteq> None then tret ()
       else let url = (if answer = [] then ''http://127.0.0.1:3100'' else answer) in
         tbind (tlift (elift (probe url))) (\<lambda>_.
         tbind (tlift (cli_save env (set_field ''hub'' (JObj [(''base_url'', JStr url)]) cfg))) (\<lambda>saved. tret ())))"

text \<open>The wait for the daemon: each pass has the time its condition reads and the answer of the probe.\<close>

fun await_daemon :: "string \<Rightarrow> millis \<Rightarrow> (millis \<times> (exn + bool)) list \<Rightarrow> unit screen" where
  "await_daemon msg deadline [] = Screen_waiting"
| "await_daemon msg deadline ((now, probe) # passes) =
     (if \<not> now < deadline then Screen_error (PlainError msg)
      else case probe of
        Inl e \<Rightarrow> Screen_error e
      | Inr up \<Rightarrow> if up then Screen () else await_daemon msg deadline passes)"

text \<open>The first probe, then a service for a release and a detached process for a source checkout.\<close>

definition startDaemon ::
  "exn + bool \<Rightarrow> bool \<Rightarrow> exn + json \<Rightarrow> millis \<Rightarrow> (millis \<times> (exn + bool)) list \<Rightarrow> unit screen" where
  "startDaemon probe source installed now passes =
     (case probe of
        Inl e \<Rightarrow> Screen_error e
      | Inr True \<Rightarrow> Screen ()
      | Inr False \<Rightarrow>
          if source then await_daemon ''Daemon did not become ready within 8 seconds'' (now + 8000) passes
          else (case installed of
            Inl e \<Rightarrow> Screen_error e
          | Inr v \<Rightarrow> await_daemon ''User service did not become ready within 8 seconds'' (now + 8000) passes))"

section \<open>Lemmas on screens\<close>

datatype tui_action =
    Do_add lane_answers
  | Do_toggle string
  | Do_remove string "string option"
  | Do_replay string
  | Do_channels string "channel_action pick"

fun tui_perform :: "cli_env \<Rightarrow> tui_action \<Rightarrow> bool tui" where
  "tui_perform env (Do_add an) = tui_add env an"
| "tui_perform env (Do_toggle i) = tui_toggle env i"
| "tui_perform env (Do_remove i answer) = tui_remove env i answer"
| "tui_perform env (Do_replay i) = tui_replay env i"
| "tui_perform env (Do_channels laneId action) = channelsScreen env laneId action"

definition went_on :: "'a screen \<Rightarrow> bool" where
  "went_on r = (case r of Screen a \<Rightarrow> True | Screen_error e \<Rightarrow> True | _ \<Rightarrow> False)"

lemma went_on_simps [simp]:
  "went_on (Screen a)" "went_on (Screen_error e)" "\<not> went_on Screen_back" "\<not> went_on Screen_waiting"
  by (simp_all add: went_on_def)

lemma tbindE:
  assumes "tbind m f s = (r, s')"
  obtains a s1 where "m s = (Screen a, s1)" "f a s1 = (r, s')"
  | r0 where "m s = (r0, s')" "\<And>a. r0 \<noteq> Screen a" "went_on r \<longleftrightarrow> went_on r0" "\<And>a. r \<noteq> Screen a"
  using assms by (cases "m s"; cases "fst (m s)") (auto simp: tbind_def)

lemma tlift_went: "tlift m s = (r, s') \<Longrightarrow> went_on r"
  by (auto simp: tlift_def split: prod.splits sum.splits)

lemma tret_simps [simp]: "tret a s = (r, s') \<longleftrightarrow> r = Screen a \<and> s' = s" "tscreen q s = (r, s') \<longleftrightarrow> r = q \<and> s' = s"
  by (auto simp: tret_def tscreen_def)

lemma tlift_pure: "tlift m s = (Screen a, s') \<longleftrightarrow> m s = (Inr a, s')"
  by (auto simp: tlift_def split: prod.splits sum.splits)

text \<open>A screen that goes back or waits has changed nothing: the questions come first.\<close>

definition asks_first' :: "'a tui \<Rightarrow> bool" where
  "asks_first' m = (\<forall>s r s'. m s = (r, s') \<longrightarrow> \<not> went_on r \<longrightarrow> s' = s)"

definition goes_on :: "'a tui \<Rightarrow> bool" where
  "goes_on m = (\<forall>s r s'. m s = (r, s') \<longrightarrow> went_on r)"

definition only_looks :: "'a tui \<Rightarrow> bool" where
  "only_looks m = (\<forall>s. snd (m s) = s)"

lemma goes_on_intros:
  "goes_on (tlift c)" "goes_on (tret a)" "goes_on m \<Longrightarrow> (\<And>a. goes_on (f a)) \<Longrightarrow> goes_on (tbind m f)"
  by (fastforce simp: goes_on_def dest: tlift_went elim!: tbindE)+

lemma asks_first_goes: "goes_on m \<Longrightarrow> asks_first' m"
  by (auto simp: goes_on_def asks_first'_def)

lemma asks_first_bind: "only_looks m \<Longrightarrow> (\<And>a. asks_first' (f a)) \<Longrightarrow> asks_first' (tbind m f)"
proof (unfold asks_first'_def, intro allI impI)
  fix s r s'
  assume m: "only_looks m" and f: "\<And>a. \<forall>s r s'. f a s = (r, s') \<longrightarrow> \<not> went_on r \<longrightarrow> s' = s"
    and b: "tbind m f s = (r, s')" "\<not> went_on r"
  from b(1) show "s' = s"
  proof (cases rule: tbindE)
    case (1 a s1)
    with m f b(2) show ?thesis by (auto simp: only_looks_def) (metis snd_conv)
  next
    case (2 r0)
    from m have "snd (m s) = s" by (simp add: only_looks_def)
    with 2(1) show ?thesis by simp
  qed
qed

lemma only_looks_intros:
  "only_looks (tret a)" "only_looks (tscreen q)" "only_looks (tview g)" "only_looks (tlift (cli_load env))" "only_looks (tlift (ethrow msg))"
  "only_looks (tlift (elift x))"
  by (auto simp: only_looks_def tret_def tscreen_def tview_def tlift_def cli_load_def elift_def ethrow_def split: sum.split)

lemma only_looks_bind: "only_looks m \<Longrightarrow> (\<And>a. only_looks (f a)) \<Longrightarrow> only_looks (tbind m f)"
  unfolding only_looks_def by (auto simp: tbind_def split: prod.split screen.split) (metis snd_conv)+

lemma save_goes: "goes_on (save_and_reload env leave cfg)"
  by (auto simp: save_and_reload_def intro!: goes_on_intros)

lemma perform_asks_first: "asks_first' (tui_perform env action)"
proof (cases action)
  case (Do_add an)
  have some: "asks_first' (tbind (tlift (elift x)) (\<lambda>e. tbind (tview g) (\<lambda>lane. save_and_reload env leave (h lane))))" for x :: "exn + 'x" and g :: "cli_state \<Rightarrow> json screen" and h leave
    by (rule asks_first_bind, rule only_looks_intros, rule asks_first_bind, rule only_looks_intros, rule asks_first_goes, rule save_goes)
  show ?thesis unfolding Do_add tui_perform.simps tui_add_def
    by (rule asks_first_bind, rule only_looks_intros, split option.split)
      (auto intro: some asks_first_goes goes_on_intros simp del: apply_edit.simps)
next
  case (Do_channels laneId act)
  have "asks_first' (add_channel_screen env laneId cfg q)" for cfg q
    unfolding add_channel_screen_def tsecret_def split_beta
    by (rule asks_first_bind, rule only_looks_intros, rule asks_first_goes) (intro goes_on_intros save_goes)
  moreover have "asks_first' (switch_channel_screen env laneId cfg lane p on')" for cfg lane p on'
    unfolding switch_channel_screen_def picked_channel_def split_beta
    by (rule asks_first_bind, rule only_looks_intros, rule asks_first_goes, rule save_goes)
  moreover have "asks_first' (remove_channel_screen env laneId cfg lane p t)" for cfg lane p t
    unfolding remove_channel_screen_def picked_channel_def tsecret_def split_beta
    by (rule asks_first_bind, rule only_looks_intros, rule asks_first_bind, rule only_looks_intros, rule asks_first_goes)
      (auto intro!: goes_on_intros save_goes)
  ultimately show ?thesis unfolding Do_channels tui_perform.simps channelsScreen_def
    by (intro asks_first_bind only_looks_intros) (auto intro: asks_first_goes goes_on_intros split: option.split pick.split channel_action.split)
next
  case (Do_remove i answer)
  have "asks_first' (tbind (tscreen (asked answer ''N'')) (\<lambda>t.
      if \<not> is_yes t then tret False else tbind (tlift c) (\<lambda>_. save_and_reload env leave cfg)))" for c :: "unit cli" and cfg leave
    by (rule asks_first_bind, rule only_looks_intros, rule asks_first_goes) (auto intro!: goes_on_intros save_goes)
  then show ?thesis unfolding Do_remove tui_perform.simps tui_remove_def
    by (intro asks_first_bind only_looks_intros) (auto intro: asks_first_goes goes_on_intros simp del: apply_edit.simps)
qed (auto simp: tui_toggle_def tui_replay_def intro!: asks_first_bind only_looks_intros asks_first_goes goes_on_intros save_goes)

section \<open>Going back\<close>

text \<open>Going back changes nothing.  On every screen that changes something, Escape at any of its questions
  leaves the configuration, the secrets, the sessions and the daemon as they were; what is asked is asked
  before anything is done.\<close>

theorem tui_back_changes_nothing:
  assumes "tui_perform env action s = (Screen_back, s')"
  shows "s' = s"
  using perform_asks_first [of env action] assms by (auto simp: asks_first'_def)

section \<open>Edits and commands\<close>

text \<open>What the actions check before they edit.\<close>

fun edit_found :: "tui_edit \<Rightarrow> json \<Rightarrow> bool" where
  "edit_found (Edit_add lane) cfg = (\<exists>i. jfield lane ''id'' = Some (JStr i))"
| "edit_found (Edit_toggle i) cfg = list_ex (same_id i) (arr_of cfg ''lanes'')"
| "edit_found (Edit_drop i) cfg = list_ex (same_id i) (arr_of cfg ''lanes'')"
| "edit_found (Edit_channel_add laneId ch) cfg =
     (List.find (same_id laneId) (arr_of cfg ''lanes'') \<noteq> None \<and> (\<exists>i. jfield ch ''id'' = Some (JStr i)))"
| "edit_found (Edit_channel_switch laneId i on') cfg =
     (\<exists>lane. List.find (same_id laneId) (arr_of cfg ''lanes'') = Some lane \<and> list_ex (same_id i) (arr_of lane ''channels''))"
| "edit_found (Edit_channel_remove laneId i) cfg =
     (\<exists>lane. List.find (same_id laneId) (arr_of cfg ''lanes'') = Some lane \<and> list_ex (same_id i) (arr_of lane ''channels''))"

lemma alter_first_cong: "(\<And>x. List.find p xs = Some x \<Longrightarrow> f x = g x) \<Longrightarrow> alter_first p f xs = alter_first p g xs"
  by (induction xs) auto

lemma find_ex: "list_ex p xs \<longleftrightarrow> (\<exists>x. List.find p xs = Some x)"
  by (induction xs) auto

lemma with_lane_channels_found:
  assumes "List.find (same_id laneId) (arr_of cfg ''lanes'') = Some lane"
  shows "with_lane_channels laneId f cfg =
    set_field ''lanes'' (JArr (alter_first (same_id laneId) (\<lambda>l. [set_field ''channels'' (JArr (f (arr_of lane ''channels''))) lane])
      (arr_of cfg ''lanes''))) cfg"
  unfolding with_lane_channels_def by (rule arg_cong [where f = "\<lambda>x. set_field ''lanes'' (JArr x) cfg"], rule alter_first_cong) (simp add: assms)

lemma same_id_str: "same_id i v \<Longrightarrow> str_of v ''id'' = i"
  by (simp add: same_id_def str_of_def)

lemma added_lane_new:
  assumes "config_ok cc (apply_edit (Edit_add lane) cfg)" "is_record cfg"
  shows "\<not> list_ex (same_id (str_of lane ''id'')) (arr_of cfg ''lanes'')"
proof
  assume "list_ex (same_id (str_of lane ''id'')) (arr_of cfg ''lanes'')"
  then have "str_of lane ''id'' \<in> set (map (\<lambda>l. str_of l ''id'') (arr_of cfg ''lanes''))"
    by (auto simp: list_ex_iff dest!: same_id_str) (metis image_eqI)
  moreover have "distinct (map (\<lambda>l. str_of l ''id'') (arr_of cfg ''lanes'' @ [lane]))"
    using assms by (simp add: config_ok_def Let_def arr_of_set_field)
  ultimately show False by simp
qed

lemma added_channel_new:
  assumes "config_ok cc (apply_edit (Edit_channel_add laneId ch) cfg)" "is_record cfg"
    and "List.find (same_id laneId) (arr_of cfg ''lanes'') = Some lane" "is_record lane"
  shows "str_of ch ''id'' \<notin> set (channel_ids (arr_of cfg ''lanes'')) \<and> str_of ch ''id'' \<notin> set (retired_list (retired_ids cfg))"
proof -
  obtain pre post where lanes: "arr_of cfg ''lanes'' = pre @ lane # post" "same_id laneId lane" "\<forall>l\<in>set pre. \<not> same_id laneId l"
    using find_split [OF assms(3)] by blast
  let ?lane = "set_field ''channels'' (JArr (arr_of lane ''channels'' @ [ch])) lane"
  have e: "apply_edit (Edit_channel_add laneId ch) cfg = set_field ''lanes'' (JArr (pre @ ?lane # post)) cfg"
    by (simp add: with_lane_channels_found [OF assms(3)] lanes(1) alter_first_split [of "same_id laneId" lane, OF lanes(2,3)])
  have ids: "channel_ids [?lane] = channel_ids [lane] @ [str_of ch ''id'']"
    using assms(4) by (simp add: channel_ids_def arr_of_set_field)
  have split: "channel_ids (pre @ l # post) = channel_ids pre @ channel_ids [l] @ channel_ids post" for l
    using channel_ids_append [of pre "l # post"] channel_ids_append [of "[l]" post] by simp
  from assms(1) have "distinct (channel_ids (pre @ ?lane # post))"
    "set (channel_ids (pre @ ?lane # post)) \<inter> set (retired_list (retired_ids cfg)) = {}"
    unfolding e using assms(2) by (simp_all add: config_ok_def Let_def arr_of_set_field retired_ids_set_field)
  then show ?thesis unfolding lanes(1) split ids by auto
qed

lemma edit_is_command:
  assumes "is_record cfg" "edit_found e cfg" "config_ok cc (apply_edit e cfg)"
    and "\<And>lane. lane \<in> set (arr_of cfg ''lanes'') \<Longrightarrow> is_record lane"
  shows "cli_mutation cfg (apply_edit e cfg)"
proof (cases e)
  case (Edit_add lane)
  with added_lane_new assms have "push_lane (str_of lane ''id'') lane cfg = Inr (apply_edit e cfg)"
    by (simp add: push_lane_def)
  then show ?thesis by (rule cli_mutation.intros)
next
  case (Edit_toggle i)
  with assms(2) obtain l where l: "List.find (same_id i) (arr_of cfg ''lanes'') = Some l" by (auto simp: find_ex)
  have "change_lane (if js_truthy (jfield l ''enabled'') then ''disable'' else ''enable'') i cfg = Inr (apply_edit e cfg)"
    using assms(2) unfolding Edit_toggle by (auto simp: change_lane_def switch_item_def l intro!: arg_cong [where f = "\<lambda>x. set_field ''lanes'' (JArr x) cfg"] alter_first_cong)
  then show ?thesis by (rule cli_mutation.intros)
next
  case (Edit_drop i)
  with assms(2) have "change_lane ''remove'' i cfg = Inr (apply_edit e cfg)"
    by (auto simp: change_lane_def switch_item_def intro!: arg_cong [where f = "\<lambda>x. set_field ''lanes'' (JArr x) cfg"] alter_first_cong)
  then show ?thesis by (rule cli_mutation.intros)
next
  case (Edit_channel_add laneId ch)
  with assms(2) obtain lane where lane: "List.find (same_id laneId) (arr_of cfg ''lanes'') = Some lane" by auto
  then have "is_record lane" using assms(4) by (auto simp: find_Some_iff)
  from added_channel_new [OF _ assms(1) lane this] assms(3) unused_id
  have "add_channel laneId (str_of ch ''id'') ch cfg = Inr (apply_edit e cfg)"
    by (auto simp: Edit_channel_add add_channel_def lane with_lane_channels_found [OF lane])
  then show ?thesis by (rule cli_mutation.intros)
next
  case (Edit_channel_switch laneId i on')
  with assms(2) obtain lane where lane: "List.find (same_id laneId) (arr_of cfg ''lanes'') = Some lane" "list_ex (same_id i) (arr_of lane ''channels'')"
    by auto
  have "switch_item (if on' then ''enable'' else ''disable'') = (\<lambda>c. [set_field ''enabled'' (JBool on') c])"
    by (auto simp: switch_item_def)
  then have "change_channel (if on' then ''enable'' else ''disable'') laneId i cfg = Inr (apply_edit e cfg)"
    using lane by (simp add: Edit_channel_switch change_channel_def Let_def with_lane_channels_found [OF lane(1)])
  then show ?thesis by (rule cli_mutation.intros)
next
  case (Edit_channel_remove laneId i)
  with assms(2) obtain lane where lane: "List.find (same_id laneId) (arr_of cfg ''lanes'') = Some lane" "list_ex (same_id i) (arr_of lane ''channels'')"
    by auto
  have "switch_item ''remove'' = (\<lambda>c. [])" by (auto simp: switch_item_def)
  then have "change_channel ''remove'' laneId i cfg = Inr (apply_edit e cfg)"
    using lane by (simp add: Edit_channel_remove change_channel_def Let_def with_lane_channels_found [OF lane(1)])
  then show ?thesis by (rule cli_mutation.intros)
qed

section \<open>What the screens save\<close>

lemma cli_save_config:
  assumes "cli_save env cfg s = (r, s')"
  shows "cf_config (st_files s') = cf_config (st_files s) \<or>
    (\<exists>w. validateConfig (cl_contracts env) cfg = Inr w \<and> cf_config (st_files s') = Some (config_text (cl_print env) (next_revision w)))"
  using assms
  by (auto simp: cli_save_def config_save_def Let_def split: prod.splits sum.splits if_splits option.splits save_fault.splits)

lemma save_reload_config:
  assumes "save_and_reload env leave cfg s = (r, s')"
  shows "cf_config (st_files s') = cf_config (st_files s) \<or>
    (\<exists>w. validateConfig (cl_contracts env) cfg = Inr w \<and> cf_config (st_files s') = Some (config_text (cl_print env) (next_revision w)))"
proof -
  obtain r1 s1 where save: "cli_save env cfg s = (r1, s1)" by (cases "cli_save env cfg s")
  with assms have "st_files s' = st_files s1"
    by (auto simp: save_and_reload_def tbind_def tlift_def requestControl_def tret_def split: sum.splits)
  with cli_save_config [OF save] show ?thesis by simp
qed

lemma tlift_files:
  assumes "\<And>s. st_files (snd (c s)) = st_files s" "tlift c s = (r, s')"
  shows "st_files s' = st_files s"
  using assms(1) [of s] assms(2) by (auto simp: tlift_def split: prod.splits sum.splits)

definition keeps_files :: "'a tui \<Rightarrow> bool" where
  "keeps_files m = (\<forall>s. st_files (snd (m s)) = st_files s)"

lemma keeps_files_intros:
  "only_looks m \<Longrightarrow> keeps_files m" "keeps_files (tsecret f)" "keeps_files (tlift (release_session env i))"
  "keeps_files (tlift (requestControl env meth params))" "keeps_files (tret a)"
  by (auto simp: keeps_files_def only_looks_def tsecret_def tlift_def release_session_def requestControl_def tret_def Let_def
      split: prod.split sum.split)

text \<open>A screen saves an edit of what it loaded at its end, or nothing.\<close>

definition saves_edit :: "cli_env \<Rightarrow> json \<Rightarrow> bool tui \<Rightarrow> bool" where
  "saves_edit env cfg m =
     (\<forall>s r s'. m s = (r, s') \<longrightarrow>
        cf_config (st_files s') = cf_config (st_files s) \<or>
        (\<exists>e w. edit_found e cfg \<and> validateConfig (cl_contracts env) (apply_edit e cfg) = Inr w \<and>
           cf_config (st_files s') = Some (config_text (cl_print env) (next_revision w))))"

lemma saves_edit_bind:
  assumes "keeps_files m" "\<And>a s s1. m s = (Screen a, s1) \<Longrightarrow> saves_edit env cfg (f a)"
  shows "saves_edit env cfg (tbind m f)"
  unfolding saves_edit_def
proof (intro allI impI)
  fix s r s'
  assume "tbind m f s = (r, s')"
  then show "cf_config (st_files s') = cf_config (st_files s) \<or>
      (\<exists>e w. edit_found e cfg \<and> validateConfig (cl_contracts env) (apply_edit e cfg) = Inr w \<and>
         cf_config (st_files s') = Some (config_text (cl_print env) (next_revision w)))"
  proof (cases rule: tbindE)
    case (1 a s1)
    have "st_files s1 = st_files s" using assms(1) 1(1) unfolding keeps_files_def by (metis snd_conv)
    with assms(2) [OF 1(1), unfolded saves_edit_def, rule_format, OF 1(2)] show ?thesis by simp
  next
    case (2 r0)
    then have "st_files s' = st_files s" using assms(1) unfolding keeps_files_def by (metis snd_conv)
    then show ?thesis by simp
  qed
qed

lemma saves_edit_save: "edit_found e cfg \<Longrightarrow> saves_edit env cfg (save_and_reload env leave (apply_edit e cfg))"
  using save_reload_config by (fastforce simp: saves_edit_def)

lemma saves_edit_none: "keeps_files m \<Longrightarrow> saves_edit env cfg m"
  unfolding saves_edit_def keeps_files_def by (metis snd_conv)

lemma createLane_id: "createLane env an existing s = Screen lane \<Longrightarrow> \<exists>i. jfield lane ''id'' = Some (JStr i)"
  by (auto simp: createLane_def sc_bind_def new_lane_def split: screen.splits option.splits if_splits)

lemma picked_found: "picked_channel lane p s = (Screen (i, ch), s1) \<Longrightarrow> list_ex (same_id i) (arr_of lane ''channels'')"
  by (auto simp: picked_channel_def tscreen_def sc_bind_def find_ex split: screen.splits option.splits)

lemma questions_id: "channel_questions env laneId i account token allowed mention = Screen (j, t, ch) \<Longrightarrow> \<exists>i. jfield ch ''id'' = Some (JStr i)"
  by (auto simp: channel_questions_def sc_bind_def discord_channel_def split: screen.splits)

lemma keeps_pick: "keeps_files (tscreen q)" "keeps_files (tview g)" "keeps_files (picked_channel lane p)" "keeps_files (tlift (elift x))"
  by (auto simp: picked_channel_def intro!: keeps_files_intros only_looks_intros)

lemma channels_save:
  assumes lane: "List.find (same_id laneId) (arr_of cfg ''lanes'') = Some lane"
  shows "saves_edit env cfg (add_channel_screen env laneId cfg (channel_questions env laneId i account token allowed mention))"
    "saves_edit env cfg (switch_channel_screen env laneId cfg lane p on')"
    "saves_edit env cfg (remove_channel_screen env laneId cfg lane p t)"
proof -
  show "saves_edit env cfg (add_channel_screen env laneId cfg (channel_questions env laneId i account token allowed mention))"
    unfolding add_channel_screen_def
    by (rule saves_edit_bind, rule keeps_pick)
      (auto simp: lane intro!: saves_edit_bind saves_edit_save keeps_files_intros dest!: questions_id [OF sym] simp del: apply_edit.simps)
  show "saves_edit env cfg (switch_channel_screen env laneId cfg lane p on')"
    unfolding switch_channel_screen_def
    by (rule saves_edit_bind, rule keeps_pick)
      (auto simp: lane intro!: saves_edit_save dest!: picked_found simp del: apply_edit.simps)
  have "saves_edit env cfg (tbind (tscreen (asked t ''N'')) (\<lambda>t.
      tbind (if is_yes t then tsecret (secret_remove (str_of ch ''secret_ref'')) else tret False) (\<lambda>_.
        save_and_reload env leave (apply_edit (Edit_channel_remove laneId i) cfg))))"
    if "list_ex (same_id i) (arr_of lane ''channels'')" for i ch leave
    using that lane
    by (intro saves_edit_bind saves_edit_save keeps_pick) (auto intro!: keeps_files_intros)
  then show "saves_edit env cfg (remove_channel_screen env laneId cfg lane p t)"
    unfolding remove_channel_screen_def
    by (intro saves_edit_bind keeps_pick) (auto dest!: picked_found)
qed

lemma perform_saves:
  assumes "tui_perform env action s = (r, s')"
  shows "cf_config (st_files s') = cf_config (st_files s) \<or>
    (\<exists>cfg e w. fst (cli_load env s) = Inr cfg \<and> edit_found e cfg \<and>
       validateConfig (cl_contracts env) (apply_edit e cfg) = Inr w \<and>
       cf_config (st_files s') = Some (config_text (cl_print env) (next_revision w)))"
proof -
  have loaded: ?thesis if "tui_perform env action = tbind (tlift (cli_load env)) f" "\<And>cfg. saves_edit env cfg (f cfg)" for f
    using assms unfolding that(1)
  proof (cases rule: tbindE)
    case (1 cfg s1)
    then have "fst (cli_load env s) = Inr cfg" "s1 = s" by (auto simp: tlift_pure cli_load_def)
    with that(2) [of cfg] 1(2) show ?thesis unfolding saves_edit_def by blast
  next
    case (2 r0)
    then have "s' = s" by (auto simp: tlift_def cli_load_def split: sum.splits)
    then show ?thesis by simp
  qed
  have none: "saves_edit env cfg (tret leave)" "saves_edit env cfg (tlift (ethrow msg))" for cfg msg leave
    by (auto intro!: saves_edit_none keeps_files_intros only_looks_intros)
  show ?thesis
  proof (cases action)
    case (Do_add an)
    have "saves_edit env cfg (tbind (tlift (elift x)) (\<lambda>e. tbind (tview (createLane env an ls)) (\<lambda>lane.
        save_and_reload env leave (apply_edit (Edit_add lane) cfg))))" for cfg ls leave and x :: "exn + hub_endpoints"
      by (intro saves_edit_bind keeps_pick saves_edit_save) (auto simp: tview_def dest!: createLane_id)
    with none show ?thesis
      by (intro loaded) (auto simp: Do_add tui_add_def simp del: apply_edit.simps split: option.split)
  next
    case (Do_toggle i)
    with none show ?thesis
      by (intro loaded) (auto simp: tui_toggle_def intro!: saves_edit_save simp del: apply_edit.simps)
  next
    case (Do_remove i answer)
    have "saves_edit env cfg (tbind (tscreen (asked answer ''N'')) (\<lambda>t. if \<not> is_yes t then tret False
        else tbind (tlift (release_session env j)) (\<lambda>_. save_and_reload env leave (apply_edit (Edit_drop i) cfg))))"
      if "list_ex (same_id i) (arr_of cfg ''lanes'')" for cfg j leave
      using that none by (auto intro!: saves_edit_bind keeps_pick saves_edit_save keeps_files_intros simp del: apply_edit.simps)
    with none show ?thesis
      by (intro loaded) (auto simp: Do_remove tui_remove_def simp del: apply_edit.simps)
  next
    case (Do_replay i)
    with assms have "st_files s' = st_files s"
      by (auto simp: tui_replay_def tbind_def tlift_def requestControl_def tret_def split: sum.splits)
    then show ?thesis by simp
  next
    case (Do_channels laneId act)
    with none channels_save show ?thesis
      by (intro loaded) (auto simp: channelsScreen_def simp del: apply_edit.simps split: option.split pick.split channel_action.split)
  qed
qed

lemma loaded_ok: "fst (cli_load env s) = Inr cfg \<Longrightarrow> config_ok (cl_contracts env) cfg"
  by (auto simp: cli_load_def config_load_def validateConfig_Inr emptyConfig_ok split: option.splits)

text \<open>Whatever an action of a screen leaves in the configuration file is what was there, or the next
  revision of a change that a command of the command line makes to the same configuration.\<close>

lemma tui_saves_as_commands:
  assumes "tui_perform env action s = (r, s')"
  shows "cf_config (st_files s') = cf_config (st_files s) \<or>
    (\<exists>cfg w. fst (cli_load env s) = Inr cfg \<and> cli_mutation cfg w \<and> validateConfig (cl_contracts env) w = Inr w \<and>
       config_history (cl_contracts env) cfg (next_revision w) \<and>
       cf_config (st_files s') = Some (config_text (cl_print env) (next_revision w)))"
proof (cases "cf_config (st_files s') = cf_config (st_files s)")
  case False
  with perform_saves [OF assms] obtain cfg e w where load: "fst (cli_load env s) = Inr cfg"
    and e: "edit_found e cfg" "validateConfig (cl_contracts env) (apply_edit e cfg) = Inr w"
    and saved: "cf_config (st_files s') = Some (config_text (cl_print env) (next_revision w))" by blast
  have w: "w = apply_edit e cfg" using validated_record [OF e(2)] by simp
  have ok: "config_ok (cl_contracts env) (apply_edit e cfg)" using e(2) by (simp add: validateConfig_Inr)
  note cfg = loaded_ok [OF load]
  have "is_record lane" if "lane \<in> set (arr_of cfg ''lanes'')" for lane
    using cfg that by (auto simp: config_ok_def Let_def list_all_iff lane_ok_def)
  from edit_is_command [OF config_ok_record [OF cfg] e(1) ok this] have m: "cli_mutation cfg w" by (simp add: w)
  with e(2) load saved config_history.save [OF config_history.start m] show ?thesis by (auto simp: w)
qed simp

section \<open>Properties\<close>

lemma askAgentIdentity_chosen:
  assumes "askAgentIdentity env existing s as' = Screen (identity, t)"
  shows "\<exists>registered. lookupAgentIdentity (cc_IDENTITY_RE (cl_contracts env)) identity (cl_lookup env identity) = Inr registered \<and>
    \<not> list_ex (\<lambda>l. jfield l ''identity'' = Some (JStr identity)) existing \<and>
    (case registered of
       None \<Rightarrow> t = None
     | Some reg \<Rightarrow> \<not> ri_deleted reg \<and> (\<exists>k. fst (held_key env identity s) = Inr (Some k) \<and> key_is_mine (Some k) reg \<and>
         t = set_nonempty (case ri_type reg of Some u \<Rightarrow> Some u | None \<Rightarrow> ki_agentType k)))"
  using assms
proof (induction as')
  case (Cons a as')
  show ?case
  proof (cases "identity_pass env existing s a")
    case None
    with Cons show ?thesis by simp
  next
    case (Some r)
    with Cons.prems have "identity_pass env existing s a = Some (Screen (identity, t))" by simp
    then show ?thesis
      by (auto simp: identity_pass_def key_is_mine_def split: option.splits if_splits sum.splits pick.splits bool.splits)
  qed
qed simp

text \<open>An agent is added only under an identity that is this host's, with the type it is registered under.
  A lane that the screen creates has an identity that no other lane has and that the Hub does not know, or
  lists, not deleted, with the key this host holds; a type that was confirmed is the lane's type, and its
  runtime is the one of that type.\<close>

theorem tui_adds_own_identity:
  assumes "createLane env an existing s = Screen lane"
  shows "\<exists>identity registered t. jfield lane ''identity'' = Some (JStr identity) \<and>
    \<not> list_ex (\<lambda>l. jfield l ''identity'' = Some (JStr identity)) existing \<and>
    lookupAgentIdentity (cc_IDENTITY_RE (cl_contracts env)) identity (cl_lookup env identity) = Inr registered \<and>
    (case registered of
       None \<Rightarrow> t = None
     | Some reg \<Rightarrow> \<not> ri_deleted reg \<and> (\<exists>k. fst (held_key env identity s) = Inr (Some k) \<and> key_is_mine (Some k) reg \<and>
         t = set_nonempty (case ri_type reg of Some u \<Rightarrow> Some u | None \<Rightarrow> ki_agentType k))) \<and>
    (case t of
       None \<Rightarrow> True
     | Some u \<Rightarrow> jfield lane ''agent_type'' = Some (JStr u) \<and>
         (case runtimeForAgentType u of None \<Rightarrow> True | Some kind \<Rightarrow> lane_kind lane = kind \<and> agentTypeFor kind = u))"
proof -
  from assms obtain identity t where a: "askAgentIdentity env existing s (la_identity an) = Screen (identity, t)"
    by (auto simp: createLane_def sc_bind_def split: screen.splits)
  obtain i kind ty workspace profile risk where lane: "lane = new_lane i identity ty kind None workspace profile risk"
    and ty: "t = Some u \<Longrightarrow> ty = u" "Option.bind t runtimeForAgentType = Some k \<Longrightarrow> kind = k" for u k
    using assms a by (auto simp: createLane_def sc_bind_def split: screen.splits option.splits if_splits)
  have "jfield lane ''identity'' = Some (JStr identity)" "jfield lane ''agent_type'' = Some (JStr ty)" "lane_kind lane = kind"
    by (simp_all add: lane new_lane_def lane_kind_def str_of_def field_of_def)
  moreover have "agentTypeFor k = u" if "runtimeForAgentType u = Some k" for u k
    using that by (auto simp: runtimeForAgentType_def agentTypeFor_def split: if_splits)
  ultimately have "case t of None \<Rightarrow> True
     | Some u \<Rightarrow> jfield lane ''agent_type'' = Some (JStr u) \<and>
         (case runtimeForAgentType u of None \<Rightarrow> True | Some kind \<Rightarrow> lane_kind lane = kind \<and> agentTypeFor kind = u)"
    using ty by (cases t; cases "runtimeForAgentType (the t)") auto
  with askAgentIdentity_chosen [OF a] \<open>jfield lane ''identity'' = Some (JStr identity)\<close> show ?thesis by blast
qed

text \<open>Declining the risk ends the terminal interface.  The answer no to the question about an unrestricted
  runtime is an exception, not a way back, and the overview passes on every exception that is not the
  way back, so the program ends with it.\<close>

theorem declined_risk_is_exception:
  assumes "cli_load env s = (Inr cfg, s)" "hub_of cfg = Some hub"
    and "resolveHubEndpoints (cl_parse_url env) (str_of hub ''base_url'') (jstr (jfield hub ''rpc_ws'')) (jstr (jfield hub ''api_http'')) = Inr endpoints"
    and "askAgentIdentity env (arr_of cfg ''lanes'') s (la_identity an) = Screen (identity, None)"
    and "la_runtime an = Pick kind" "la_workspace an = Some w" "la_profile an = Pick ''unrestricted''"
    and "la_risk an = Some answer" "\<not> is_yes answer"
  shows "tui_perform env (Do_add an) s = (Screen_error (PlainError ''Unrestricted runtime was not acknowledged''), s)"
proof -
  obtain i where "deriveLaneId identity (map (\<lambda>l. str_of l ''id'') (arr_of cfg ''lanes'')) = Some i"
    using derived_some by blast
  moreover obtain w' where "asked (la_workspace an) (cl_cwd env) = Screen w'"
    by (cases w) (simp_all add: assms(6) asked_def)
  moreover obtain t where "asked (la_risk an) ''N'' = Screen t" "\<not> is_yes t"
    using assms(8,9) by (cases answer) (auto simp: asked_def is_yes_def)
  ultimately have "createLane env an (arr_of cfg ''lanes'') s = Screen_error (PlainError ''Unrestricted runtime was not acknowledged'')"
    using assms(4,5,7) by (simp add: createLane_def sc_bind_def picked_def)
  with assms(1-3) show ?thesis by (simp add: tui_add_def tbind_def tlift_def tview_def)
qed

text \<open>The token of a removed channel is deleted before the configuration is saved, so when the save fails
  the channel stays, enabled as it was, without its token.\<close>

theorem failed_removal_loses_token:
  assumes "cli_load env s = (Inr cfg, s)" "List.find (same_id laneId) (arr_of cfg ''lanes'') = Some lane"
    and "List.find (same_id i) (arr_of lane ''channels'') = Some ch" "secret_remove (str_of ch ''secret_ref'') (st_secrets s) = (Inr b, secrets)"
    and "cl_fault env = Some Fault_mkdir"
    and "tui_perform env (Do_channels laneId (Pick (Channel_remove (Pick i) (Some ''y'')))) s = (r, s')"
  shows "(\<exists>e. r = Screen_error e) \<and> st_files s' = st_files s \<and> secret_get (str_of ch ''secret_ref'') (st_secrets s') = Inr None"
proof -
  have "\<exists>e. cli_save env cfg' s1 = (Inl e, s1)" for cfg' s1
    using assms(5) by (auto simp: cli_save_def config_save_def Let_def split: sum.split)
  then obtain e where save: "cli_save env (apply_edit (Edit_channel_remove laneId i) cfg) (s\<lparr>st_secrets := secrets\<rparr>) = (Inl e, s\<lparr>st_secrets := secrets\<rparr>)"
    by blast
  have "(r, s') = (Screen_error e, s\<lparr>st_secrets := secrets\<rparr>)"
    using assms save
    by (simp add: channelsScreen_def remove_channel_screen_def picked_channel_def tbind_def tlift_def tscreen_def tsecret_def
        sc_bind_def picked_def asked_def is_yes_def save_and_reload_def)
  with secret_remove_get [OF assms(4)] show ?thesis by simp
qed

section \<open>Instances\<close>

definition new_agent :: "string pick \<Rightarrow> lane_answers" where
  "new_agent profile = \<lparr>la_identity = [\<lparr>ia_answer = Some ''a'', ia_keep = Pick_escape\<rparr>, \<lparr>ia_answer = Some ''b'', ia_keep = Pick_escape\<rparr>],
     la_runtime = Pick ''codex'', la_workspace = Some ''/w'', la_profile = profile, la_risk = Some ''n''\<rparr>"

abbreviation tui_env :: cli_env where
  "tui_env \<equiv> sample_cli_env (cli_config [cli_lane ''a'' [sample_cli_channel]])"

lemma tui_env_load: "cli_load tui_env sample_cli_state = (Inr (cli_config [cli_lane ''a'' [sample_cli_channel]]), sample_cli_state)"
  using cli_config_valid by (simp add: cli_load_def config_load_def sample_cli_env_def sample_cli_state_def)

theorem tui_back_changes_nothing_witness:
  "tui_perform tui_env (Do_add (new_agent Pick_escape)) sample_cli_state = (Screen_back, sample_cli_state)"
proof -
  have "fst (tui_perform tui_env (Do_add (new_agent Pick_escape)) sample_cli_state) = Screen_back" by code_simp
  then obtain s' where "tui_perform tui_env (Do_add (new_agent Pick_escape)) sample_cli_state = (Screen_back, s')"
    by (cases "tui_perform tui_env (Do_add (new_agent Pick_escape)) sample_cli_state") auto
  with tui_back_changes_nothing [OF this] show ?thesis by simp
qed

theorem tui_adds_own_identity_witness:
  "\<exists>lane. createLane tui_env (new_agent (Pick ''read-only'')) [cli_lane ''a'' []] sample_cli_state = Screen lane \<and>
     lane_kind lane = ''codex'' \<and> (\<exists>identity. jfield lane ''identity'' = Some (JStr identity) \<and> identity \<noteq> ''a'')"
proof -
  let ?ls = "[cli_lane ''a'' []]"
  have run: "createLane tui_env (new_agent (Pick ''read-only'')) ?ls sample_cli_state =
      Screen (new_lane ''b'' ''b'' ''ai-codex'' ''codex'' None ''/w'' ''read-only'' False)"
    and taken: "list_ex (\<lambda>l. jfield l ''identity'' = Some (JStr ''a'')) ?ls"
    by code_simp+
  from tui_adds_own_identity [OF run] taken run show ?thesis
    by (auto simp: new_lane_def lane_kind_def field_of_def str_of_def)
qed

theorem declined_risk_is_exception_witness:
  "tui_perform tui_env (Do_add (new_agent (Pick ''unrestricted''))) sample_cli_state =
     (Screen_error (PlainError ''Unrestricted runtime was not acknowledged''), sample_cli_state)"
proof -
  let ?an = "new_agent (Pick ''unrestricted'')"
  have hub: "hub_of (cli_config [cli_lane ''a'' [sample_cli_channel]]) = Some (JObj [(''base_url'', JStr ''https://hub'')])"
    by code_simp
  have "case resolveHubEndpoints (cl_parse_url tui_env) (str_of (JObj [(''base_url'', JStr ''https://hub'')]) ''base_url'')
      (jstr (jfield (JObj [(''base_url'', JStr ''https://hub'')]) ''rpc_ws'')) (jstr (jfield (JObj [(''base_url'', JStr ''https://hub'')]) ''api_http'')) of
      Inl e \<Rightarrow> False | Inr x \<Rightarrow> True"
    by code_simp
  then obtain endpoints where ep: "resolveHubEndpoints (cl_parse_url tui_env) (str_of (JObj [(''base_url'', JStr ''https://hub'')]) ''base_url'')
      (jstr (jfield (JObj [(''base_url'', JStr ''https://hub'')]) ''rpc_ws'')) (jstr (jfield (JObj [(''base_url'', JStr ''https://hub'')]) ''api_http'')) =
      Inr endpoints"
    by (auto split: sum.splits)
  have ask: "askAgentIdentity tui_env (arr_of (cli_config [cli_lane ''a'' [sample_cli_channel]]) ''lanes'') sample_cli_state
      (la_identity ?an) = Screen (''b'', None)"
    by code_simp
  have "la_runtime ?an = Pick ''codex''" "la_workspace ?an = Some ''/w''" "la_profile ?an = Pick ''unrestricted''" "la_risk ?an = Some ''n''"
    "\<not> is_yes ''n''"
    by (simp_all add: new_agent_def is_yes_def)
  from declined_risk_is_exception [OF tui_env_load hub ep ask this] show ?thesis .
qed

theorem failed_removal_loses_token_witness:
  "let env = tui_env\<lparr>cl_fault := Some Fault_mkdir\<rparr>;
       s = sample_cli_state\<lparr>st_secrets := snd (secret_set None ''channel-d.token'' ''t'' empty_secrets)\<rparr>;
       s' = snd (tui_perform env (Do_channels ''a'' (Pick (Channel_remove (Pick ''d'') (Some ''y'')))) s)
   in secret_get ''channel-d.token'' (st_secrets s) = Inr (Some ''t'') \<and> st_files s' = st_files s \<and>
     secret_get ''channel-d.token'' (st_secrets s') = Inr None"
proof -
  let ?env = "tui_env\<lparr>cl_fault := Some Fault_mkdir\<rparr>" and ?act = "Do_channels ''a'' (Pick (Channel_remove (Pick ''d'') (Some ''y'')))"
  let ?s = "sample_cli_state\<lparr>st_secrets := snd (secret_set None ''channel-d.token'' ''t'' empty_secrets)\<rparr>"
  let ?cfg = "cli_config [cli_lane ''a'' [sample_cli_channel]]"
  have load: "cli_load ?env ?s = (Inr ?cfg, ?s)"
    using cli_config_valid by (simp add: cli_load_def config_load_def sample_cli_env_def sample_cli_state_def)
  have found: "List.find (same_id ''a'') (arr_of ?cfg ''lanes'') = Some (cli_lane ''a'' [sample_cli_channel])"
    "List.find (same_id ''d'') (arr_of (cli_lane ''a'' [sample_cli_channel]) ''channels'') = Some sample_cli_channel"
    "str_of sample_cli_channel ''secret_ref'' = ''channel-d.token''"
    "secret_get ''channel-d.token'' (st_secrets ?s) = Inr (Some ''t'')"
    by code_simp+
  have "case fst (secret_remove ''channel-d.token'' (st_secrets ?s)) of Inl e \<Rightarrow> False | Inr b \<Rightarrow> True" by code_simp
  then obtain b secrets where rm: "secret_remove ''channel-d.token'' (st_secrets ?s) = (Inr b, secrets)"
    by (cases "secret_remove ''channel-d.token'' (st_secrets ?s)") (auto split: sum.splits)
  obtain r s' where run: "tui_perform ?env ?act ?s = (r, s')" by (cases "tui_perform ?env ?act ?s")
  have "secret_remove (str_of sample_cli_channel ''secret_ref'') (st_secrets ?s) = (Inr b, secrets)" using rm by (simp only: found(3))
  from failed_removal_loses_token [OF load found(1,2) this _ run] run found(3,4) show ?thesis by (simp add: Let_def)
qed

end
