(* ===== verification/Tui_Session.thy ===== *)
theory Tui_Session
  imports Tui
begin

text \<open>
  \<open>src/tui/app.ts\<close>, the loops: the dashboard, an agent's screen and its channels as a machine whose state
  is the screen shown, and the whole of \<open>runTui\<close>.  Each pass has its own answers of the services and
  its own choice of the person at the terminal.
\<close>

section \<open>Passes\<close>

datatype tui_place = At_overview | At_agent string | At_channels string

text \<open>What is chosen: an action, another screen, a page that only shows something, a terminal on the runtime
  (with the answer to how it is started, if it is asked, and the daemon's listing after the start), to
  draw the screen again, to go back (the menu entry or Escape), to quit, or Control-C.\<close>

datatype tui_choice =
    Choose tui_action
  | Open_agent string
  | Open_channels
  | Show_page
  | Attach_runtime "bool pick" "exn + json"
  | Refresh
  | Go_back
  | Quit
  | Interrupt

text \<open>An agent in the daemon's listing.\<close>

definition agent_of :: "string \<Rightarrow> json \<Rightarrow> json option" where
  "agent_of i v = (case v of JArr xs \<Rightarrow> List.find (\<lambda>a. jfield a ''lane_id'' = Some (JStr i)) xs | _ \<Rightarrow> None)"

definition status_str :: "json \<Rightarrow> string \<Rightarrow> string option" where
  "status_str agent k = jstr (Option.bind (jfield agent ''runtime_status'') (\<lambda>r. jfield r k))"

section \<open>Attaching\<close>

text \<open>Only a Claude runtime that is not running is started, as the answer says; \<open>None\<close> is going back.\<close>

definition start_session :: "cli_env \<Rightarrow> string \<Rightarrow> json \<Rightarrow> json \<Rightarrow> bool pick \<Rightarrow> exn + json \<Rightarrow> json option tui" where
  "start_session env i lane agent choice later =
     (if runtime_str lane ''kind'' \<noteq> Some ''claude'' \<or> set_nonempty (status_str agent ''tmuxSession'') \<noteq> None then tret (Some agent)
      else (case choice of
        Pick_escape \<Rightarrow> tret None
      | Pick_interrupt \<Rightarrow> tlift (ethrow ''Selection cancelled'')
      | Pick resume \<Rightarrow>
          tbind (tlift (requestControl env ''runtime.start'' (JObj [(''lane_id'', JStr i), (''resume'', JBool resume)]))) (\<lambda>_.
          tbind (tlift (\<lambda>s. (later, s\<lparr>st_calls := st_calls s @ [(''lane.list'', JObj [])]\<rparr>))) (\<lambda>v.
            tret (Some (case agent_of i v of Some a \<Rightarrow> a | None \<Rightarrow> agent))))))"

text \<open>A refusal is shown on the screen.\<close>

definition open_session :: "cli_env \<Rightarrow> string \<Rightarrow> json \<Rightarrow> json \<Rightarrow> unit tui" where
  "open_session env dir lane agent s =
     (let (r, sessions) = ensureAttachTarget (cl_attach_env env)
         \<lparr>ac_lane = lane, ac_runtimeDirectory = dir, ac_conversationId = status_str agent ''threadId'',
          ac_daemonSession = status_str agent ''tmuxSession''\<rparr> (st_sessions s);
        s' = s\<lparr>st_sessions := sessions\<rparr> in
      case r of
        Inl e \<Rightarrow> (Screen (), s')
      | Inr session \<Rightarrow>
          if ae_which (cl_attach_env env) ''tmux'' = None
          then (Screen_error (PlainError ''tmux is not available in the TUI environment''), s') else (Screen (), s'))"

definition attachAgentRuntime :: "cli_env \<Rightarrow> string \<Rightarrow> string \<Rightarrow> json \<Rightarrow> bool pick \<Rightarrow> exn + json \<Rightarrow> unit tui" where
  "attachAgentRuntime env dir i agent choice later =
     tbind (tlift (cli_load env)) (\<lambda>cfg.
     case List.find (same_id i) (arr_of cfg ''lanes'') of
       None \<Rightarrow> tret ()
     | Some lane \<Rightarrow>
         if \<not> js_truthy (jfield agent ''enabled'') then tret ()
         else tbind (start_session env i lane agent choice later) (\<lambda>started.
           case started of None \<Rightarrow> tret () | Some agent' \<Rightarrow> open_session env dir lane agent'))"

section \<open>One pass of a screen\<close>

text \<open>Going back from an action's questions stays on the screen.\<close>

definition staying :: "bool tui \<Rightarrow> bool tui" where
  "staying m s = (case m s of (Screen_back, s') \<Rightarrow> (Screen False, s') | r \<Rightarrow> r)"

definition dashboard_pass :: "cli_env \<Rightarrow> tui_choice \<Rightarrow> tui_place option tui" where
  "dashboard_pass env c =
     tbind (tlift (requestControl env ''lane.list'' (JObj []))) (\<lambda>agents.
     tbind (tlift (elift (cl_probe env))) (\<lambda>daemon.
     case c of
       Quit \<Rightarrow> tret None
     | Refresh \<Rightarrow> tret (Some At_overview)
     | Interrupt \<Rightarrow> tlift (ethrow ''Selection cancelled'')
     | Choose (Do_add an) \<Rightarrow> tbind (staying (tui_perform env (Do_add an))) (\<lambda>_. tret (Some At_overview))
     | Open_agent i \<Rightarrow> tret (Some (if agent_of i agents \<noteq> None then At_agent i else At_overview))
     | _ \<Rightarrow> tscreen Screen_waiting))"

fun agent_action :: "string \<Rightarrow> tui_action \<Rightarrow> bool" where
  "agent_action i (Do_toggle j) = (j = i)"
| "agent_action i (Do_remove j answer) = (j = i)"
| "agent_action i (Do_replay j) = (j = i)"
| "agent_action i (Do_add an) = False"
| "agent_action i (Do_channels j a) = False"

text \<open>An agent that the daemon no longer lists leaves the screen before anything is chosen.\<close>

definition agent_pass :: "string \<Rightarrow> cli_env \<Rightarrow> string \<Rightarrow> tui_choice \<Rightarrow> tui_place option tui" where
  "agent_pass dir env i c =
     tbind (tlift (requestControl env ''lane.list'' (JObj []))) (\<lambda>agents.
     case agent_of i agents of
       None \<Rightarrow> tret (Some At_overview)
     | Some agent \<Rightarrow> (case c of
       Go_back \<Rightarrow> tret (Some At_overview)
     | Interrupt \<Rightarrow> tlift (ethrow ''Selection cancelled'')
     | Show_page \<Rightarrow> tret (Some (At_agent i))
     | Attach_runtime choice later \<Rightarrow> tbind (attachAgentRuntime env dir i agent choice later) (\<lambda>_. tret (Some (At_agent i)))
     | Open_channels \<Rightarrow> tret (Some (At_channels i))
     | Choose a \<Rightarrow>
         if agent_action i a
         then tbind (staying (tui_perform env a)) (\<lambda>leave. tret (Some (if leave then At_overview else At_agent i)))
         else tscreen Screen_waiting
     | _ \<Rightarrow> tscreen Screen_waiting))"

definition channels_pass :: "cli_env \<Rightarrow> string \<Rightarrow> tui_choice \<Rightarrow> tui_place option tui" where
  "channels_pass env i c =
     (case (case c of
              Go_back \<Rightarrow> Some Pick_escape
            | Interrupt \<Rightarrow> Some Pick_interrupt
            | Choose (Do_channels j (Pick a)) \<Rightarrow> if j = i then Some (Pick a) else None
            | _ \<Rightarrow> None) of
        None \<Rightarrow> tscreen Screen_waiting
      | Some p \<Rightarrow>
          tbind (staying (tui_perform env (Do_channels i p))) (\<lambda>leave. tret (Some (if leave then At_agent i else At_channels i))))"

fun tui_pass :: "string \<Rightarrow> cli_env \<Rightarrow> tui_place \<Rightarrow> tui_choice \<Rightarrow> tui_place option tui" where
  "tui_pass dir env At_overview c = dashboard_pass env c"
| "tui_pass dir env (At_agent i) c = agent_pass dir env i c"
| "tui_pass dir env (At_channels i) c = channels_pass env i c"

fun dashboard_from :: "string \<Rightarrow> tui_place \<Rightarrow> (cli_env \<times> tui_choice) list \<Rightarrow> unit tui" where
  "dashboard_from dir place [] = tscreen Screen_waiting"
| "dashboard_from dir place ((env, c) # passes) =
     tbind (tui_pass dir env place c) (\<lambda>next'. case next' of None \<Rightarrow> tret () | Some place' \<Rightarrow> dashboard_from dir place' passes)"

definition dashboard :: "string \<Rightarrow> (cli_env \<times> tui_choice) list \<Rightarrow> unit tui" where
  "dashboard dir = dashboard_from dir At_overview"

definition runTui :: "bool \<Rightarrow> string \<Rightarrow> unit tui \<Rightarrow> unit screen \<Rightarrow> (cli_env \<times> tui_choice) list \<Rightarrow> unit tui" where
  "runTui interactive dir onboarding started passes =
     (if \<not> interactive then tlift (ethrow ''TUI requires an interactive terminal'')
      else tbind onboarding (\<lambda>_. tbind (tscreen started) (\<lambda>_. dashboard dir passes)))"

section \<open>One pass\<close>

lemma staying_state: "snd (staying m s) = snd (m s)"
  by (simp add: staying_def split: prod.split screen.split)

lemma control_files: "st_files (snd (tlift (requestControl env meth params) s)) = st_files s"
  by (simp add: tlift_def requestControl_def split: sum.split)

text \<open>A pass performs one action on the files it found, or leaves them.\<close>

definition acts_once :: "cli_env \<Rightarrow> 'a tui \<Rightarrow> bool" where
  "acts_once env m =
     (\<forall>s. st_files (snd (m s)) = st_files s \<or>
        (\<exists>a s1. st_files s1 = st_files s \<and> st_files (snd (m s)) = st_files (snd (tui_perform env a s1))))"

lemma acts_once_keeps: "keeps_files m \<Longrightarrow> acts_once env m"
  by (simp add: acts_once_def keeps_files_def)

lemma acts_once_bind:
  assumes "keeps_files m" "\<And>a. acts_once env (f a)"
  shows "acts_once env (tbind m f)"
  unfolding acts_once_def
proof
  fix s
  obtain r s1 where m: "m s = (r, s1)" by (cases "m s")
  with assms(1) have s1: "st_files s1 = st_files s" unfolding keeps_files_def by (metis snd_conv)
  show "st_files (snd (tbind m f s)) = st_files s \<or>
      (\<exists>a s1. st_files s1 = st_files s \<and> st_files (snd (tbind m f s)) = st_files (snd (tui_perform env a s1)))"
  proof (cases r)
    case (Screen x)
    with assms(2) [of x, unfolded acts_once_def, rule_format, of s1] m s1 show ?thesis by (simp add: tbind_def)
  qed (simp_all add: m s1 tbind_def)
qed

lemma acts_once_perform: "acts_once env (tbind (staying (tui_perform env a)) (\<lambda>leave. tret (f leave)))"
  unfolding acts_once_def
proof (intro allI disjI2 exI conjI)
  show "st_files (snd (tbind (staying (tui_perform env a)) (\<lambda>leave. tret (f leave)) s)) = st_files (snd (tui_perform env a s))" for s
    using staying_state [of "tui_perform env a" s] by (auto simp: tbind_def tret_def split: prod.split screen.split)
qed simp

lemma keeps_files_bind:
  assumes "keeps_files m" "\<And>a. keeps_files (f a)"
  shows "keeps_files (tbind m f)"
  unfolding keeps_files_def
proof
  fix s
  obtain r s1 where m: "m s = (r, s1)" by (cases "m s")
  with assms(1) have "st_files s1 = st_files s" unfolding keeps_files_def by (metis snd_conv)
  with m assms(2) show "st_files (snd (tbind m f s)) = st_files s"
    unfolding keeps_files_def by (cases r) (simp_all add: tbind_def)
qed

lemma keeps_files_looks: "keeps_files (tlift (cli_load env))" "keeps_files (tlift (ethrow msg))"
  by (auto intro: keeps_files_intros only_looks_intros)

lemmas keeps_files_all = keeps_files_bind keeps_files_looks keeps_files_intros(2-) keeps_pick

lemma attach_keeps: "keeps_files (attachAgentRuntime env dir i agent choice later)"
proof -
  have "keeps_files (open_session env dir lane a)" for lane a
    by (auto simp: keeps_files_def open_session_def Let_def split: prod.split sum.split)
  moreover have later: "keeps_files (tlift (\<lambda>s. (later, s\<lparr>st_calls := st_calls s @ c\<rparr>)))" for c
    by (simp add: keeps_files_def tlift_def split: sum.split)
  have "keeps_files (start_session env i lane agent choice later)" for lane
    unfolding start_session_def by (auto intro!: keeps_files_all later split: pick.split)
  ultimately show ?thesis
    unfolding attachAgentRuntime_def
    by (auto intro!: keeps_files_all split: option.split)
qed

lemma pass_acts_once: "acts_once env (tui_pass dir env place c)"
proof (cases place)
  case At_overview
  have "acts_once env (case a of Do_add an \<Rightarrow> tbind (staying (tui_perform env (Do_add an))) (\<lambda>_. tret (Some At_overview))
      | _ \<Rightarrow> tscreen Screen_waiting)" for a
    by (cases a) (auto intro: acts_once_perform acts_once_keeps keeps_pick simp del: tui_perform.simps)
  then show ?thesis unfolding At_overview tui_pass.simps dashboard_pass_def
    by (intro acts_once_bind keeps_files_intros keeps_pick)
      (auto intro!: acts_once_keeps keeps_pick keeps_files_intros only_looks_intros simp del: tui_perform.simps split: tui_choice.split)
next
  case (At_agent i)
  show ?thesis unfolding At_agent tui_pass.simps agent_pass_def
    by (intro acts_once_bind keeps_files_all)
      (auto intro!: acts_once_perform acts_once_keeps [OF keeps_files_all(1)] acts_once_keeps [OF keeps_files_all(2)]
        acts_once_keeps keeps_files_all attach_keeps simp del: tui_perform.simps split: option.split tui_choice.split)
next
  case (At_channels i)
  show ?thesis unfolding At_channels tui_pass.simps channels_pass_def
    by (auto intro!: acts_once_perform acts_once_keeps keeps_pick simp del: tui_perform.simps split: option.split)
qed

section \<open>A session\<close>

lemma history_trans: "config_history cc w u \<Longrightarrow> config_history cc v w \<Longrightarrow> config_history cc v u"
  by (induction rule: config_history.induct) (auto intro: config_history.save)

lemma loaded_config_ok: "config_load cc parse files = Inr v \<Longrightarrow> config_ok cc v"
  by (auto simp: config_load_def validateConfig_Inr emptyConfig_ok split: option.splits)

lemma revision_set_field: "k \<noteq> ''revision'' \<Longrightarrow> revision_of (set_field k x v) = revision_of v"
  by (simp add: revision_of_def jfield_set_field)

lemma mutation_revision: "cli_mutation v w \<Longrightarrow> revision_of w = revision_of v"
  by (cases rule: cli_mutation.cases)
    (auto simp: set_hub_def push_lane_def change_lane_def change_channel_def add_channel_def retire_def Let_def revision_set_field
      split: option.splits if_splits)

lemma pass_history:
  assumes env: "cl_contracts env = cc" "cl_parse env = parse" "cl_print env = print"
    and codec: "\<And>w. parse (config_text print w) = Some w"
    and load: "config_load cc parse (st_files s) = Inr v" and rev: "revision_of v < of_int max_safe_integer"
  obtains w where "config_history cc v w" "config_load cc parse (st_files (snd (tui_pass dir env place c s))) = Inr w"
    "revision_of w \<le> revision_of v + 1"
proof -
  from pass_acts_once [of env dir place c, unfolded acts_once_def, rule_format, of s] consider
    "st_files (snd (tui_pass dir env place c s)) = st_files s"
    | a s1 where "st_files s1 = st_files s" "st_files (snd (tui_pass dir env place c s)) = st_files (snd (tui_perform env a s1))"
    by blast
  then show thesis
  proof cases
    case 1
    with that [OF config_history.start] load show thesis by simp
  next
    case (2 a s1)
    obtain r s2 where run: "tui_perform env a s1 = (r, s2)" by (cases "tui_perform env a s1")
    show thesis
    proof (cases "cf_config (st_files s2) = cf_config (st_files s1)")
      case True
      with 2 run load that [OF config_history.start] show thesis by (simp add: config_load_def)
    next
      case False
      from tui_saves_as_commands [OF run] False 2(1) load env obtain w where w: "cli_mutation v w" "validateConfig cc w = Inr w"
        "config_history cc v (next_revision w)" "cf_config (st_files s2) = Some (config_text print (next_revision w))"
        by (auto simp: cli_load_def)
      have ok: "config_ok cc w" using w(2) by (simp add: validateConfig_Inr)
      from mutation_revision [OF w(1)] rev have "revision_of w < of_int max_safe_integer" by simp
      from next_revision_ok [OF ok this] have "config_load cc parse (st_files s2) = Inr (next_revision w)"
        using w(4) codec by (simp add: config_load_def validateConfig_Inr)
      moreover have "jnum (jfield w ''revision'') \<noteq> None"
        using ok by (auto simp: config_ok_def Let_def revision_ok_def split: option.splits)
      then have "revision_of (next_revision w) \<le> revision_of v + 1"
        using mutation_revision [OF w(1)] next_revision_fields(2) [OF config_ok_record [OF ok], of "''revision''"]
        by (auto simp: revision_of_def)
      ultimately show thesis using that [OF w(3)] 2(2) run by simp
    qed
  qed
qed

lemma session_history:
  assumes codec: "\<And>w. parse (config_text print w) = Some w"
  shows "list_all (\<lambda>(env, c). cl_contracts env = cc \<and> cl_parse env = parse \<and> cl_print env = print) passes \<Longrightarrow>
    config_load cc parse (st_files s) = Inr v \<Longrightarrow> revision_of v + of_nat (length passes) \<le> of_int max_safe_integer \<Longrightarrow>
    \<exists>w. config_history cc v w \<and> config_load cc parse (st_files (snd (dashboard_from dir place passes s))) = Inr w"
proof (induction passes arbitrary: place s v)
  case Nil
  then show ?case by (auto simp: tscreen_def intro: config_history.start)
next
  case (Cons p passes)
  obtain env c where p: "p = (env, c)" by (cases p)
  with Cons.prems(1) have env: "cl_contracts env = cc" "cl_parse env = parse" "cl_print env = print"
    and rest: "list_all (\<lambda>(env, c). cl_contracts env = cc \<and> cl_parse env = parse \<and> cl_print env = print) passes" by auto
  from Cons.prems(3) have "revision_of v < of_int max_safe_integer" by simp
  from pass_history [OF env codec Cons.prems(2) this, of dir place c] obtain w where w: "config_history cc v w"
    "config_load cc parse (st_files (snd (tui_pass dir env place c s))) = Inr w" "revision_of w \<le> revision_of v + 1" by blast
  obtain r s1 where run: "tui_pass dir env place c s = (r, s1)" by (cases "tui_pass dir env place c s")
  show ?case
  proof (cases "\<exists>place'. r = Screen (Some place')")
    case True
    then obtain place' where r: "r = Screen (Some place')" ..
    have "config_load cc parse (st_files s1) = Inr w" using w(2) run by simp
    moreover have "revision_of w + of_nat (length passes) \<le> of_int max_safe_integer" using w(3) Cons.prems(3) by simp
    ultimately obtain u where "config_history cc w u" "config_load cc parse (st_files (snd (dashboard_from dir place' passes s1))) = Inr u"
      using Cons.IH [OF rest] by blast
    with w(1) show ?thesis by (auto simp: p tbind_def run r intro: history_trans)
  next
    case False
    then have "snd (dashboard_from dir place (p # passes) s) = s1"
      by (auto simp: p tbind_def run tret_def split: screen.split option.split)
    with w(1,2) run show ?thesis by auto
  qed
qed

section \<open>Properties\<close>


section \<open>A codec and a session\<close>

text \<open>A plain text form of JSON values and its reader, for the instance: numbers in unary, every string and
  list with its length before it.\<close>

definition put_nat :: "nat \<Rightarrow> string" where
  "put_nat n = replicate n (CHR ''1'') @ [CHR ''0'']"

fun get_nat :: "string \<Rightarrow> (nat \<times> string) option" where
  "get_nat [] = None"
| "get_nat (c # cs) =
     (if c = CHR ''0'' then Some (0, cs) else map_option (\<lambda>(n, r). (Suc n, r)) (get_nat cs))"

definition put_str :: "string \<Rightarrow> string" where
  "put_str s = put_nat (length s) @ s"

definition get_str :: "string \<Rightarrow> (string \<times> string) option" where
  "get_str t = map_option (\<lambda>(n, r). (take n r, drop n r)) (get_nat t)"

definition put_int :: "int \<Rightarrow> string" where
  "put_int i = (if i < 0 then CHR ''-'' # put_nat (nat (- i)) else CHR ''+'' # put_nat (nat i))"

definition get_int :: "string \<Rightarrow> (int \<times> string) option" where
  "get_int t =
     (case t of [] \<Rightarrow> None
      | c # cs \<Rightarrow> map_option (\<lambda>(n, r). (if c = CHR ''-'' then - int n else int n, r)) (get_nat cs))"

lemma get_put_nat [simp]: "get_nat (put_nat n @ r) = Some (n, r)"
  by (induction n) (simp_all add: put_nat_def)

lemma get_put_str [simp]: "get_str (put_str s @ r) = Some (s, r)"
  by (simp add: get_str_def put_str_def)

lemma get_put_int [simp]: "get_int (put_int i @ r) = Some (i, r)"
  by (simp add: get_int_def put_int_def)

fun plain_print :: "json \<Rightarrow> string" where
  "plain_print JNull = ''n''"
| "plain_print (JBool b) = (if b then ''t'' else ''f'')"
| "plain_print (JNum q) = ''#'' @ put_int (fst (quotient_of q)) @ put_int (snd (quotient_of q))"
| "plain_print (JStr s) = ''s'' @ put_str s"
| "plain_print (JArr vs) = ''a'' @ put_nat (length vs) @ concat (map plain_print vs)"
| "plain_print (JObj fs) = ''o'' @ put_nat (length fs) @ concat (map (\<lambda>(k, v). put_str k @ plain_print v) fs)"

fun get_many :: "(string \<Rightarrow> ('a \<times> string) option) \<Rightarrow> nat \<Rightarrow> string \<Rightarrow> ('a list \<times> string) option" where
  "get_many g 0 t = Some ([], t)"
| "get_many g (Suc n) t =
     (case g t of None \<Rightarrow> None | Some (x, r) \<Rightarrow> map_option (\<lambda>(xs, r). (x # xs, r)) (get_many g n r))"

definition get_pair :: "(string \<Rightarrow> ('a \<times> string) option) \<Rightarrow> string \<Rightarrow> ((string \<times> 'a) \<times> string) option" where
  "get_pair g t = (case get_str t of None \<Rightarrow> None | Some (k, r) \<Rightarrow> map_option (\<lambda>(v, r). ((k, v), r)) (g r))"

fun plain_read :: "nat \<Rightarrow> string \<Rightarrow> (json \<times> string) option" where
  "plain_read 0 t = None"
| "plain_read (Suc fuel) t =
     (case t of
        [] \<Rightarrow> None
      | c # cs \<Rightarrow>
          if c = CHR ''n'' then Some (JNull, cs)
          else if c = CHR ''t'' then Some (JBool True, cs)
          else if c = CHR ''f'' then Some (JBool False, cs)
          else if c = CHR ''#'' then
            (case get_int cs of None \<Rightarrow> None
             | Some (a, r) \<Rightarrow> map_option (\<lambda>(b, r). (JNum (of_int a / of_int b), r)) (get_int r))
          else if c = CHR ''s'' then map_option (\<lambda>(s, r). (JStr s, r)) (get_str cs)
          else if c = CHR ''a'' then
            (case get_nat cs of None \<Rightarrow> None
             | Some (n, r) \<Rightarrow> map_option (\<lambda>(vs, r). (JArr vs, r)) (get_many (plain_read fuel) n r))
          else
            (case get_nat cs of None \<Rightarrow> None
             | Some (n, r) \<Rightarrow> map_option (\<lambda>(fs, r). (JObj fs, r)) (get_many (get_pair (plain_read fuel)) n r)))"

definition plain_parse :: "string \<Rightarrow> json option" where
  "plain_parse t = map_option fst (plain_read (length t) t)"

lemma get_many_put:
  "(\<And>x r. x \<in> set xs \<Longrightarrow> g (p x @ r) = Some (x, r)) \<Longrightarrow> get_many g (length xs) (concat (map p xs) @ r) = Some (xs, r)"
  by (induction xs) simp_all

lemma length_print_member: "x \<in> set xs \<Longrightarrow> length (p x) \<le> length (concat (map p xs))"
  by (induction xs) auto

lemma plain_read_print: "length (plain_print v) \<le> fuel \<Longrightarrow> plain_read fuel (plain_print v @ r) = Some (v, r)"
proof (induction v arbitrary: fuel r)
  case (JNum q)
  then obtain f where "fuel = Suc f" by (cases fuel) auto
  moreover have "of_int (fst (quotient_of q)) / of_int (snd (quotient_of q)) = q"
    using quotient_of_div [of q] by (metis prod.collapse)
  ultimately show ?case by simp
next
  case (JArr vs)
  then obtain f where f: "fuel = Suc f" by (cases fuel) auto
  have "plain_read f (plain_print x @ r) = Some (x, r)" if "x \<in> set vs" for x r
    using JArr.IH [OF that] JArr.prems length_print_member [OF that, of plain_print] by (auto simp: f)
  from get_many_put [OF this] show ?case by (simp add: f)
next
  case (JObj fs)
  then obtain f where f: "fuel = Suc f" by (cases fuel) auto
  have "get_pair (plain_read f) ((case x of (k, v) \<Rightarrow> put_str k @ plain_print v) @ r) = Some (x, r)" if "x \<in> set fs" for x r
  proof -
    obtain k v where x: "x = (k, v)" by (cases x)
    with JObj.prems length_print_member [OF that, of "\<lambda>(k, v). put_str k @ plain_print v"]
    have "plain_read f (plain_print v @ r) = Some (v, r)" using JObj.IH [OF that, of v f r] by (auto simp: f)
    then show ?thesis by (simp add: x get_pair_def)
  qed
  from get_many_put [OF this] show ?case by (simp add: f)
next
  case (JStr s)
  then obtain f where "fuel = Suc f" by (cases fuel) auto
  then show ?case by simp
qed (auto simp: Suc_le_eq gr0_conv_Suc)

lemma plain_parse_text: "plain_parse (config_text plain_print w) = Some w"
  using plain_read_print [of w "length (config_text plain_print w)" "[CHR 0x0A]"]
  by (simp add: plain_parse_def config_text_def)

definition plain_env :: cli_env where
  "plain_env = (sample_cli_env JNull)\<lparr>cl_parse := plain_parse, cl_print := plain_print,
     cl_control := (\<lambda>m p. Inr (JArr [JObj [(''lane_id'', JStr ''a'')]]))\<rparr>"

definition plain_passes :: "(cli_env \<times> tui_choice) list" where
  "plain_passes = map (Pair plain_env)
     [Open_agent ''a'', Open_channels, Choose (Do_channels ''a'' (Pick (Channel_remove (Pick ''d'') (Some ''y'')))), Go_back,
      Choose (Do_toggle ''a''), Choose (Do_remove ''a'' None), Go_back, Quit]"

definition plain_state :: cli_state where
  "plain_state = sample_cli_state\<lparr>st_files := \<lparr>cf_config = Some (config_text plain_print (cli_config [cli_lane ''a'' [sample_cli_channel]])),
     cf_tmp = None\<rparr>\<rparr>"


end
