(* ===== verification/Tui_Draw.thy ===== *)
theory Tui_Draw
  imports Tui_Select Observer
begin

text \<open>
  What \<open>src/tui/app.ts\<close> draws: the panels, the overview of the agents and the screen of one agent.  Text is
  UTF-16 code units and a screen is its rows; \<open>paint\<close> and the codes for dim and red text, which are the same
  as the observer's, are those of \<open>Observer\<close>.  The answer of the daemon is a \<open>dash_lane\<close> for each agent.
\<close>

section \<open>Widths\<close>

text \<open>\<open>ANSI_RE\<close>: what follows a sequence at the front, if there is one.  Its three classes exclude one another.\<close>

definition ansi_rest :: "pane \<Rightarrow> pane option" where
  "ansi_rest t =
     (if take 2 t = [0x1B, 0x5B]
      then (case dropWhile (\<lambda>u. 0x20 \<le> u \<and> u \<le> 0x2F) (dropWhile (\<lambda>u. 0x30 \<le> u \<and> u \<le> 0x3F) (drop 2 t)) of
          [] \<Rightarrow> None
        | f # r \<Rightarrow> if 0x40 \<le> f \<and> f \<le> 0x7E then Some r else None)
      else None)"

lemma ansi_rest_shorter: "ansi_rest t = Some r \<Longrightarrow> length r < length t"
proof -
  assume rest: "ansi_rest t = Some r"
  let ?d = "dropWhile (\<lambda>u. 0x30 \<le> u \<and> u \<le> 0x3F) (drop 2 t)"
  from rest obtain f where eq: "dropWhile (\<lambda>u. 0x20 \<le> u \<and> u \<le> 0x2F) ?d = f # r"
    by (auto simp: ansi_rest_def split: if_splits list.splits)
  have "Suc (length r) = length (dropWhile (\<lambda>u. 0x20 \<le> u \<and> u \<le> 0x2F) ?d)" by (simp add: eq)
  also have "\<dots> \<le> length ?d" by (rule length_dropWhile_le)
  also have "\<dots> \<le> length (drop 2 t)" by (rule length_dropWhile_le)
  finally show ?thesis by simp
qed

function strip_ansi :: "pane \<Rightarrow> pane" where
  "strip_ansi t =
     (case ansi_rest t of
        Some r \<Rightarrow> strip_ansi r
      | None \<Rightarrow> (case t of [] \<Rightarrow> [] | u # us \<Rightarrow> u # strip_ansi us))"
  by pat_completeness auto

termination by (relation "measure length") (auto dest: ansi_rest_shorter)

declare strip_ansi.simps [simp del]

definition visibleLength :: "pane \<Rightarrow> nat" where
  "visibleLength t = length (strip_ansi t)"

definition padVisible :: "pane \<Rightarrow> nat \<Rightarrow> pane" where
  "padVisible t width = t @ replicate (width - visibleLength t) 32"

definition clip :: "pane \<Rightarrow> nat \<Rightarrow> pane" where
  "clip t width =
     (if length t \<le> width then t else if width \<le> 1 then take width t else take (width - 1) t @ [0x2026])"

definition frameWidth :: "nat option \<Rightarrow> nat" where
  "frameWidth columns = max 40 (min 100 ((case columns of None \<Rightarrow> 82 | Some c \<Rightarrow> c) - 2))"

definition dashboardColumns :: "nat option \<Rightarrow> nat" where
  "dashboardColumns columns = (if 64 \<le> frameWidth columns then 2 else 1)"

section \<open>Pieces\<close>

definition GREEN :: pane where "GREEN = esc16 ''[92m''"
definition YELLOW :: pane where "YELLOW = esc16 ''[93m''"
definition CYAN :: pane where "CYAN = esc16 ''[96m''"
definition BOLD :: pane where "BOLD = esc16 ''[1m''"
definition SELECTED :: pane where "SELECTED = esc16 ''[1;97;48;5;24m''"

text \<open>The colours and the columns of a terminal.\<close>

record screen_env =
  se_colour :: bool
  se_columns :: "nat option"
  se_rows :: "nat option"

definition dot :: pane where "dot = [32, 0xB7, 32]"

definition heading :: "screen_env \<Rightarrow> pane \<Rightarrow> pane option \<Rightarrow> pane list" where
  "heading se title subtitle =
     [paint (se_colour se) BOLD_CYAN (0x25C6 # ascii16 '' AGENT MESH'') @ [32] @ paint (se_colour se) DIM ([0xB7, 32] @ title)] @
     (case subtitle of None \<Rightarrow> [] | Some s \<Rightarrow> if s = [] then [] else [paint (se_colour se) DIM s]) @
     [paint (se_colour se) DIM (replicate (frameWidth (se_columns se)) 0x2500), []]"

definition panel_line :: "screen_env \<Rightarrow> pane \<Rightarrow> pane" where
  "panel_line se line =
     paint (se_colour se) CYAN [0x2502] @ padVisible (32 # line) (frameWidth (se_columns se) - 2) @ paint (se_colour se) CYAN [0x2502]"

definition writePanel :: "screen_env \<Rightarrow> pane \<Rightarrow> pane list \<Rightarrow> pane list" where
  "writePanel se title lines =
     (let width = frameWidth (se_columns se) in
      [paint (se_colour se) CYAN ([0x256D, 0x2500, 32] @ title @ [32] @ replicate (max 1 (width - length title - 5)) 0x2500 @ [0x256E])] @
      map (panel_line se) lines @
      [paint (se_colour se) CYAN (0x2570 # replicate (width - 2) 0x2500 @ [0x256F])])"

record grid_choice =
  gc_icon :: pane
  gc_label :: pane
  gc_description :: pane

definition actionCell :: "screen_env \<Rightarrow> grid_choice \<Rightarrow> bool \<Rightarrow> nat \<Rightarrow> bool \<Rightarrow> pane" where
  "actionCell se action selected width description =
     (let content = (if description then ascii16 ''    '' @ gc_description action
            else (if selected then [32, 0x203A] else [32, 32]) @ [32, 32] @ gc_icon action @ [32] @ gc_label action);
          padded = padVisible (clip content width) width in
      if selected then paint (se_colour se) SELECTED padded
      else if description then paint (se_colour se) DIM padded else padded)"

definition selectableLine :: "screen_env \<Rightarrow> pane \<Rightarrow> bool \<Rightarrow> pane" where
  "selectableLine se content selected =
     (let width = frameWidth (se_columns se) - 4; padded = padVisible (clip content width) width in
      if selected then paint (se_colour se) SELECTED padded else padded)"

text \<open>The states are ASCII.\<close>

definition lower16 :: "pane \<Rightarrow> pane" where
  "lower16 t = map (\<lambda>u. if 65 \<le> u \<and> u \<le> 90 then u + 32 else u) t"

definition upper16 :: "pane \<Rightarrow> pane" where
  "upper16 t = map (\<lambda>u. if 97 \<le> u \<and> u \<le> 122 then u - 32 else u) t"

definition tui_stateColor :: "pane \<Rightarrow> pane" where
  "tui_stateColor st =
     (if lower16 st \<in> set (map ascii16 [''connected'', ''running'', ''ready'', ''idle'', ''active'', ''approved'']) then GREEN
      else if lower16 st \<in> set (map ascii16 [''failed'', ''error'', ''conflict'', ''revoked'', ''dead-letter'']) then RED
      else YELLOW)"

section \<open>The overview\<close>

record dash_hub =
  dh_state :: pane
  dh_keyStatus :: "pane option"
  dh_lastError :: "pane option"

record dash_lane =
  dl_lane_id :: pane
  dl_identity :: pane
  dl_enabled :: bool
  dl_runtime :: pane
  dl_hub :: "dash_hub option"
  dl_runtime_state :: pane
  dl_runtime_error :: "pane option"
  dl_prompt :: "pane option"
  dl_pending :: nat
  dl_retry :: nat
  dl_deadLetter :: nat
  dl_warning :: bool
  dl_channels :: "(pane \<times> pane) list"

definition num16 :: "nat \<Rightarrow> pane" where
  "num16 n = ascii16 (nat_digits n)"

definition overview_extra :: "grid_choice list" where
  "overview_extra =
     [\<lparr>gc_icon = ascii16 ''+'', gc_label = ascii16 ''Add Agent'', gc_description = ascii16 ''Register a new runtime''\<rparr>,
      \<lparr>gc_icon = [0x21BB], gc_label = ascii16 ''Refresh'', gc_description = ascii16 ''Reload live status''\<rparr>,
      \<lparr>gc_icon = [0xD7], gc_label = ascii16 ''Quit'', gc_description = ascii16 ''Leave Agent Mesh''\<rparr>]"

definition hub_text :: "dash_lane \<Rightarrow> pane" where
  "hub_text a = (case dl_hub a of None \<Rightarrow> ascii16 ''not-configured'' | Some h \<Rightarrow> dh_state h)"

definition key_text :: "dash_lane \<Rightarrow> pane" where
  "key_text a =
     (case dl_hub a of None \<Rightarrow> ascii16 ''unknown'' | Some h \<Rightarrow> (case dh_keyStatus h of None \<Rightarrow> ascii16 ''unknown'' | Some k \<Rightarrow> k))"

definition agent_row :: "screen_env \<Rightarrow> bool \<Rightarrow> dash_lane \<Rightarrow> pane" where
  "agent_row se selected a =
     (let c = se_colour se; hub = hub_text a; rt = dl_runtime_state a in
      if selected
      then selectableLine se ([0x203A, 32, 0x25CF, 32] @ dl_identity a @ [32, 32] @ upper16 (dl_runtime a) @ [32] @ dot @ ascii16 ''Hub '' @
        hub @ dot @ ascii16 ''Runtime '' @ rt) True
      else paint c (tui_stateColor rt) [0x25CF] @ [32] @ paint c BOLD (clip (dl_identity a) 24) @ [32, 32] @
        paint c DIM (upper16 (dl_runtime a)) @ [32] @ dot @ ascii16 ''Hub '' @ paint c (tui_stateColor hub) hub @ dot @ ascii16 ''Runtime '' @
        paint c (tui_stateColor rt) rt)"

definition agent_detail_row :: "screen_env \<Rightarrow> dash_lane \<Rightarrow> pane" where
  "agent_detail_row se a =
     ascii16 ''    Key '' @ key_text a @ dot @ ascii16 ''Channels '' @ num16 (length (dl_channels a)) @ dot @ ascii16 ''Outbox '' @
     paint (se_colour se) (if 0 < dl_deadLetter a then RED else if dl_warning a \<or> 0 < dl_retry a then YELLOW else GREEN)
       (num16 (dl_pending a) @ [47] @ num16 (dl_retry a) @ [47] @ num16 (dl_deadLetter a))"

definition screen_rows :: "screen_env \<Rightarrow> nat" where
  "screen_rows se = (case se_rows se of None \<Rightarrow> 30 | Some r \<Rightarrow> r)"

definition short_screen :: "screen_env \<Rightarrow> bool" where
  "short_screen se = (screen_rows se < 30)"

definition agent_rows :: "screen_env \<Rightarrow> nat \<Rightarrow> nat \<times> dash_lane \<Rightarrow> pane list" where
  "agent_rows se selected = (\<lambda>(i, a). agent_row se (i = selected) a # (if short_screen se then [] else [agent_detail_row se a]))"

text \<open>The window of agents is that of \<open>Tui_Select\<close>.\<close>

definition visible_agents :: "screen_env \<Rightarrow> dash_lane list \<Rightarrow> nat \<Rightarrow> (nat \<times> dash_lane) list" where
  "visible_agents se lanes selected =
     (let start = nat (window_start (int (screen_rows se)) (int (length lanes)) (int selected)) in
      take (nat (max_visible (int (screen_rows se)))) (drop start (zip [0..<length lanes] lanes)))"

definition agent_lines :: "screen_env \<Rightarrow> dash_lane list \<Rightarrow> nat \<Rightarrow> pane list" where
  "agent_lines se lanes selected =
     (if lanes = []
      then [paint (se_colour se) YELLOW [0x25CB] @ ascii16 '' No agents registered.'',
            paint (se_colour se) DIM (ascii16 ''  Select Add Agent to connect a runtime to the Mesh.'')]
      else
        (let start = nat (window_start (int (screen_rows se)) (int (length lanes)) (int selected));
             seen = visible_agents se lanes selected;
             hidden = length lanes - (start + length seen) in
         (if 0 < start then [paint (se_colour se) DIM ([32, 32, 0x2191, 32] @ num16 start @ ascii16 '' more agents'')] else []) @
         concat (map (agent_rows se selected) seen) @
         (if 0 < hidden then [paint (se_colour se) DIM ([32, 32, 0x2193, 32] @ num16 hidden @ ascii16 '' more agents'')] else [])))"

definition extra_lines :: "screen_env \<Rightarrow> nat \<Rightarrow> nat \<Rightarrow> pane list" where
  "extra_lines se agents selected =
     map (\<lambda>(i, ch). selectableLine se ((if i = selected then 0x203A else 32) # 32 # gc_icon ch @ [32] @ gc_label ch) (i = selected))
       (zip [agents..<agents + 3] overview_extra)"

text \<open>The daemon is its process id and the numbers of active drivers of its lanes.\<close>

definition host_line :: "screen_env \<Rightarrow> (nat \<times> nat list) option \<Rightarrow> nat \<Rightarrow> pane" where
  "host_line se daemon agents =
     (let c = se_colour se in
      paint c (if daemon = None then RED else GREEN) [0x25CF] @ [32] @
      paint c BOLD (ascii16 (if daemon = None then ''Daemon stopped'' else ''Daemon running'')) @ ascii16 ''   '' @
      paint c DIM (ascii16 ''PID '' @ (case daemon of None \<Rightarrow> [0x2014] | Some (pid, ds) \<Rightarrow> num16 pid) @ [32] @ dot @ [32] @
        ascii16 ''Agents '' @ num16 agents @ [32] @ dot @ [32] @ ascii16 ''Drivers '' @
        num16 (case daemon of None \<Rightarrow> 0 | Some (pid, ds) \<Rightarrow> sum_list ds)))"

definition renderDashboard :: "screen_env \<Rightarrow> dash_lane list \<Rightarrow> (nat \<times> nat list) option \<Rightarrow> nat \<Rightarrow> pane list" where
  "renderDashboard se lanes daemon selected =
     heading se (ascii16 ''Overview'') (Some (ascii16 ''Local control plane'' @ dot @ ascii16 ''live status'')) @
     writePanel se (ascii16 ''Host'') [host_line se daemon (length lanes)] @ [[]] @
     writePanel se (ascii16 ''Agents'' @ dot @ num16 (length lanes))
       (agent_lines se lanes selected @ [[]] @ extra_lines se (length lanes) selected) @
     [[], paint (se_colour se) DIM ([0x2191, 32, 0x2193] @ ascii16 ''  Select    Enter  Open    Quit  Leave    Ctrl+C  Force exit'')]"

section \<open>The screen of an agent\<close>

definition agent_action_cells :: "dash_lane \<Rightarrow> grid_choice list" where
  "agent_action_cells a =
     [\<lparr>gc_icon = [0x25C6], gc_label = ascii16 ''Identity Key'', gc_description = ascii16 ''Approval and fingerprint''\<rparr>,
      \<lparr>gc_icon = [35], gc_label = ascii16 ''Channels'', gc_description = ascii16 ''Manage channel drivers''\<rparr>,
      \<lparr>gc_icon = [0x2301], gc_label = ascii16 ''Attach Runtime'', gc_description = ascii16 ''Open the CLI session''\<rparr>] @
     (if 0 < dl_deadLetter a
      then [\<lparr>gc_icon = [0x21BA], gc_label = ascii16 ''Replay Dead Letters'',
              gc_description = ascii16 ''Requeue '' @ num16 (dl_deadLetter a) @ ascii16 '' quarantined event(s)''\<rparr>]
      else []) @
     [\<lparr>gc_icon = [if dl_enabled a then 0x25CB else 0x25CF], gc_label = ascii16 (if dl_enabled a then ''Disable Agent'' else ''Enable Agent''),
        gc_description = ascii16 (if dl_enabled a then ''Stop without deleting'' else ''Start this agent'')\<rparr>,
      \<lparr>gc_icon = [0x2212], gc_label = ascii16 ''Remove Agent'', gc_description = ascii16 ''Keep durable state and outbox''\<rparr>,
      \<lparr>gc_icon = [0x2190], gc_label = ascii16 ''Back'', gc_description = ascii16 ''Return to all agents''\<rparr>]"

definition comma16 :: "pane list \<Rightarrow> pane" where
  "comma16 ts = (case ts of [] \<Rightarrow> [] | t # us \<Rightarrow> t @ concat (map (\<lambda>u. [44, 32] @ u) us))"

text \<open>The error of the Hub is shown before that of the runtime; an empty text counts as none only when it is
  the one that was taken.\<close>

definition shown_error :: "dash_lane \<Rightarrow> pane option" where
  "shown_error a =
     (case Option.bind (dl_hub a) dh_lastError of Some e \<Rightarrow> (if e = [] then None else Some e)
      | None \<Rightarrow> (case dl_runtime_error a of Some e \<Rightarrow> (if e = [] then None else Some e) | None \<Rightarrow> None))"

definition status_lines :: "screen_env \<Rightarrow> dash_lane \<Rightarrow> pane list" where
  "status_lines se a =
     (let c = se_colour se; width = frameWidth (se_columns se); rt = dl_runtime_state a;
          hub = (if dl_enabled a then hub_text a else ascii16 ''not connected'');
          key = (if dl_enabled a then key_text a else ascii16 ''not checked'');
          colour = (\<lambda>st. if dl_enabled a then tui_stateColor st else DIM) in
      [ascii16 ''Status     '' @ paint c (if dl_enabled a then GREEN else YELLOW) (ascii16 (if dl_enabled a then ''Enabled'' else ''Disabled'')),
       ascii16 ''Hub        '' @ paint c (colour hub) hub,
       ascii16 ''Key        '' @ paint c (colour key) key,
       ascii16 ''Runtime    '' @ paint c (tui_stateColor rt) rt] @
      (case dl_prompt a of
         None \<Rightarrow> []
       | Some p \<Rightarrow>
           if rt = ascii16 ''awaiting-input'' \<and> p \<noteq> []
           then [ascii16 ''           '' @ paint c YELLOW (clip p (width - 14)),
                 paint c DIM (ascii16 ''           agent-mesh attach '' @ dl_lane_id a)]
           else []) @
      [ascii16 ''Channels   '' @ (if dl_channels a = [] then ascii16 ''none'' else comma16 (map (\<lambda>(i, st). i @ [58] @ st) (dl_channels a))),
       ascii16 ''Outbox     '' @ num16 (dl_pending a) @ ascii16 '' pending'' @ dot @ num16 (dl_retry a) @ ascii16 '' retry'' @ dot @
         paint c (if 0 < dl_deadLetter a then RED else DIM) (num16 (dl_deadLetter a) @ ascii16 '' dead-letter'')] @
      (case shown_error a of None \<Rightarrow> [] | Some e \<Rightarrow> [paint c RED ([33, 32] @ clip e (width - 6))]))"

definition spaced :: "pane list \<Rightarrow> pane" where
  "spaced ts = (case ts of [] \<Rightarrow> [] | t # us \<Rightarrow> t @ concat (map (\<lambda>u. [32, 32] @ u) us))"

text \<open>The rows of the grid of actions: each has one line, or two and a gap when the terminal is tall.\<close>

function action_rows :: "screen_env \<Rightarrow> nat \<Rightarrow> nat \<Rightarrow> (nat \<times> grid_choice) list \<Rightarrow> pane list" where
  "action_rows se selected width cells =
     (let columns = dashboardColumns (se_columns se); row = take columns cells; rest = drop columns cells;
          line = (\<lambda>description. spaced (map (\<lambda>(i, g). actionCell se g (i = selected) width description) row)) in
      if cells = [] then []
      else line False # (if short_screen se then [] else line True # (if rest = [] then [] else [[]])) @ action_rows se selected width rest)"
  by pat_completeness auto

termination by (relation "measure (\<lambda>(se, selected, width, cells). length cells)") (auto simp: dashboardColumns_def)

declare action_rows.simps [simp del]

definition renderAgentDetail :: "screen_env \<Rightarrow> dash_lane \<Rightarrow> nat \<Rightarrow> pane list" where
  "renderAgentDetail se a selected =
     (let cells = agent_action_cells a in
      heading se (ascii16 ''Agent'' @ dot @ dl_identity a) (Some (upper16 (dl_runtime a) @ ascii16 '' CLI runtime'')) @
      writePanel se (ascii16 ''Agent status'') (status_lines se a) @ [[]] @
      writePanel se (ascii16 ''Manage agent'')
        (action_rows se selected ((frameWidth (se_columns se) - 5) div dashboardColumns (se_columns se)) (zip [0..<length cells] cells)) @
      [[], paint (se_colour se) DIM ([0x2191, 32, 0x2193, 32, 0x2190, 32, 0x2192] @ ascii16 ''  Navigate    Enter  Select    Esc  Back'')])"

section \<open>Lemmas\<close>

text \<open>A text is clean when all its escapes belong to sequences: what is visible of it and of what follows it
  are then independent.\<close>

definition clean :: "pane \<Rightarrow> bool" where
  "clean t = (0x1B \<notin> set (strip_ansi t))"

lemma dropWhile_append_some: "dropWhile P a = x # xs \<Longrightarrow> dropWhile P (a @ b) = x # xs @ b"
  by (induction a) (auto split: if_splits)

lemma ansi_rest_append: "ansi_rest a = Some r \<Longrightarrow> ansi_rest (a @ b) = Some (r @ b)"
proof -
  assume rest: "ansi_rest a = Some r"
  let ?P = "\<lambda>u :: 16 word. 0x20 \<le> u \<and> u \<le> 0x2F" and ?Q = "\<lambda>u :: 16 word. 0x30 \<le> u \<and> u \<le> 0x3F"
  from rest obtain f where front: "take 2 a = [0x1B, 0x5B]" and eq: "dropWhile ?P (dropWhile ?Q (drop 2 a)) = f # r" and f: "0x40 \<le> f \<and> f \<le> 0x7E"
    by (auto simp: ansi_rest_def split: if_splits list.splits)
  from front have "length (take 2 a) = 2" by simp
  then have len: "2 \<le> length a" by simp
  from eq obtain x xs where inner: "dropWhile ?Q (drop 2 a) = x # xs" by (cases "dropWhile ?Q (drop 2 a)") auto
  with eq have "dropWhile ?P (x # xs) = f # r" by simp
  from dropWhile_append_some [OF this, of b] dropWhile_append_some [OF inner, of b] len
  have "dropWhile ?P (dropWhile ?Q (drop 2 (a @ b))) = f # r @ b" by simp
  moreover have "take 2 (a @ b) = [0x1B, 0x5B]" using front len by simp
  ultimately show ?thesis using f by (simp add: ansi_rest_def)
qed

lemma strip_nil [simp]: "strip_ansi [] = []"
  by (simp add: strip_ansi.simps ansi_rest_def)

lemma strip_append: "clean a \<Longrightarrow> strip_ansi (a @ b) = strip_ansi a @ strip_ansi b"
proof (induction a rule: strip_ansi.induct)
  case (1 t)
  show ?case
  proof (cases "ansi_rest t")
    case (Some r)
    with 1 show ?thesis by (simp add: clean_def strip_ansi.simps [of t] strip_ansi.simps [of "t @ b"] ansi_rest_append)
  next
    case None
    show ?thesis
    proof (cases t)
      case (Cons u us)
      from 1(3) None Cons have "u \<noteq> 0x1B" "clean us" by (simp_all add: clean_def strip_ansi.simps [of "u # us"])
      then have "ansi_rest (t @ b) = None" by (simp add: Cons ansi_rest_def)
      with 1(1) [OF None Cons \<open>clean us\<close>] None Cons show ?thesis by (simp add: strip_ansi.simps [of "u # us"] strip_ansi.simps [of "u # us @ b"])
    qed simp
  qed
qed

lemma strip_plain: "0x1B \<notin> set t \<Longrightarrow> strip_ansi t = t"
  by (induction t) (simp_all add: strip_ansi.simps ansi_rest_def)

lemma clean_plain: "0x1B \<notin> set t \<Longrightarrow> clean t"
  by (simp add: clean_def strip_plain)

lemma clean_append: "clean a \<Longrightarrow> clean b \<Longrightarrow> clean (a @ b)"
  by (auto simp: clean_def strip_append)

text \<open>The codes are sequences.\<close>

definition invisible :: "pane \<Rightarrow> bool" where
  "invisible code = (\<forall>b. strip_ansi (code @ b) = strip_ansi b)"

lemma strip_sequence: "ansi_rest t = Some r \<Longrightarrow> strip_ansi t = strip_ansi r"
  by (simp add: strip_ansi.simps [of t])

lemma invisible_codes [simp]:
  "invisible DIM" "invisible RED" "invisible GREEN" "invisible YELLOW" "invisible CYAN" "invisible BOLD" "invisible SELECTED"
  "invisible BOLD_CYAN" "invisible (esc16 ''[0m'')"
proof -
  have seq: "invisible (esc16 s)" if "\<And>b. ansi_rest (esc16 s @ b) = Some b" for s
    using that by (simp add: invisible_def strip_sequence)
  have join: "invisible c \<Longrightarrow> invisible d \<Longrightarrow> invisible (c @ d)" for c d by (simp add: invisible_def)
  show "invisible DIM" "invisible RED" "invisible GREEN" "invisible YELLOW" "invisible CYAN" "invisible BOLD" "invisible SELECTED"
    "invisible (esc16 ''[0m'')"
    unfolding DIM_def RED_def GREEN_def YELLOW_def CYAN_def BOLD_def SELECTED_def
    by (rule seq, simp add: ansi_rest_def esc16_def ascii16_def)+
  show "invisible BOLD_CYAN" unfolding BOLD_CYAN_def
    by (rule join; rule seq; simp add: ansi_rest_def esc16_def ascii16_def)
qed

lemma invisible_colour [simp]: "invisible (tui_stateColor st)"
  by (simp add: tui_stateColor_def)

lemma strip_paint:
  assumes "invisible code" "clean t"
  shows "strip_ansi (paint c code t) = strip_ansi t" "clean (paint c code t)"
proof -
  have "strip_ansi (code @ t @ esc16 ''[0m'' @ []) = strip_ansi t"
    using assms invisible_codes(9) [unfolded invisible_def, rule_format, of "[]"] strip_append [OF assms(2)] unfolding invisible_def by simp
  then show "strip_ansi (paint c code t) = strip_ansi t" by (simp add: paint_def)
  with assms(2) show "clean (paint c code t)" by (simp add: clean_def)
qed

lemma visible_append: "clean a \<Longrightarrow> visibleLength (a @ b) = visibleLength a + visibleLength b"
  by (simp add: visibleLength_def strip_append)

lemma visible_paint: "invisible code \<Longrightarrow> clean t \<Longrightarrow> visibleLength (paint c code t) = visibleLength t"
  by (simp add: visibleLength_def strip_paint)

lemma visible_plain: "0x1B \<notin> set t \<Longrightarrow> visibleLength t = length t"
  by (simp add: visibleLength_def strip_plain)

lemma visible_pad: "clean t \<Longrightarrow> visibleLength (padVisible t n) = max n (visibleLength t)" "clean t \<Longrightarrow> clean (padVisible t n)"
  by (simp_all add: padVisible_def visible_append visible_plain clean_append clean_plain)

lemma strip_Cons: "u \<noteq> 0x1B \<Longrightarrow> strip_ansi (u # t) = u # strip_ansi t"
  using strip_append [of "[u]" t] by (simp add: clean_plain strip_plain)

lemma clean_Cons_iff: "u \<noteq> 0x1B \<Longrightarrow> clean (u # t) = clean t"
  by (simp add: clean_def strip_Cons)

lemma visible_Cons: "u \<noteq> 0x1B \<Longrightarrow> visibleLength (u # t) = Suc (visibleLength t)"
  by (simp add: visibleLength_def strip_Cons)

lemma visible_panel_line:
  assumes "clean line"
  shows "visibleLength (panel_line se line) = max (frameWidth (se_columns se) - 2) (Suc (visibleLength line)) + 2"
proof -
  have bar: "clean (paint (se_colour se) CYAN [0x2502])" "visibleLength (paint (se_colour se) CYAN [0x2502]) = 1"
    by (simp_all add: strip_paint visible_paint clean_plain visible_plain)
  from assms have "clean (32 # line)" "visibleLength (32 # line) = Suc (visibleLength line)" by (simp_all add: clean_Cons_iff visible_Cons)
  with bar show ?thesis by (simp add: panel_line_def visible_append visible_pad)
qed

lemma frameWidth_bounds: "40 \<le> frameWidth c \<and> frameWidth c \<le> 100"
  by (simp add: frameWidth_def)

lemma length_clip: "length (clip t n) \<le> n"
  by (auto simp: clip_def)

lemma clip_plain: "0x1B \<notin> set t \<Longrightarrow> 0x1B \<notin> set (clip t n)"
  by (auto simp: clip_def dest: in_set_takeD)

text \<open>A line that can be selected has the same width whatever it says.\<close>

lemma selectableLine_width:
  assumes "0x1B \<notin> set content"
  shows "clean (selectableLine se content selected) \<and> visibleLength (selectableLine se content selected) = frameWidth (se_columns se) - 4"
proof -
  let ?w = "frameWidth (se_columns se) - 4"
  have "clean (clip content ?w)" "visibleLength (clip content ?w) \<le> ?w"
    using clip_plain [OF assms] length_clip [of content ?w] by (simp_all add: clean_plain visible_plain)
  then have "clean (padVisible (clip content ?w) ?w)" "visibleLength (padVisible (clip content ?w) ?w) = ?w" by (simp_all add: visible_pad)
  then show ?thesis by (simp add: selectableLine_def strip_paint visible_paint Let_def)
qed

lemma heading_length: "subtitle = Some s \<Longrightarrow> s \<noteq> [] \<Longrightarrow> length (heading se title subtitle) = 4"
  by (simp add: heading_def)

lemma writePanel_length: "length (writePanel se title lines) = length lines + 2"
  by (simp add: writePanel_def Let_def)

lemma dashboard_length: "length (renderDashboard se lanes daemon selected) = 16 + length (agent_lines se lanes selected)"
  by (simp add: renderDashboard_def heading_length writePanel_length extra_lines_def overview_extra_def ascii16_def)

lemma window_start_bounds:
  "0 < n \<Longrightarrow> 0 \<le> window_start rows n selected \<and> window_start rows n selected < n \<and> window_start rows n selected \<le> max 0 (n - max_visible rows)"
  by (auto simp: window_start_def max_visible_def)

lemma visible_agents_length:
  assumes "lanes \<noteq> []"
  shows "int (length (visible_agents se lanes selected)) = window_size (int (screen_rows se)) (int (length lanes)) (int selected)"
  using window_start_bounds [of "int (length lanes)" "int (screen_rows se)" "int selected"] assms
  by (auto simp: visible_agents_def window_size_def Let_def max_visible_def)

lemma agent_rows_length: "length (concat (map (agent_rows se selected) xs)) = (if short_screen se then 1 else 2) * length xs"
  by (induction xs) (auto simp: agent_rows_def)

lemma agent_lines_length:
  assumes "lanes \<noteq> []"
  shows "int (length (agent_lines se lanes selected)) =
    (if 0 < window_start (int (screen_rows se)) (int (length lanes)) (int selected) then 1 else 0) +
    (if short_screen se then 1 else 2) * window_size (int (screen_rows se)) (int (length lanes)) (int selected) +
    (if 0 < hidden_after (int (screen_rows se)) (int (length lanes)) (int selected) then 1 else 0)"
proof -
  let ?r = "int (screen_rows se)" and ?n = "int (length lanes)" and ?s = "int selected"
  note b = window_start_bounds [of ?n ?r ?s]
  note v = visible_agents_length [OF assms, of se selected]
  have hidden: "int (length lanes - (nat (window_start ?r ?n ?s) + length (visible_agents se lanes selected))) = max 0 (hidden_after ?r ?n ?s)"
  proof -
    from b assms obtain k where k: "window_start ?r ?n ?s = int k" by (metis length_greater_0_conv nonneg_int_cases of_nat_0_less_iff)
    show ?thesis unfolding hidden_after_def v [symmetric] k by simp
  qed
  have "hidden_after ?r ?n ?s \<ge> 0" by (simp add: hidden_after_def window_size_def)
  with hidden v assms show ?thesis by (auto simp: agent_lines_def Let_def agent_rows_length)
qed

lemma window_rows:
  assumes "18 \<le> screen_rows se"
  shows "(if short_screen se then 1 else 2) * window_size (int (screen_rows se)) n s \<le> int (screen_rows se) - 17"
proof -
  have "window_size (int (screen_rows se)) n s \<le> max_visible (int (screen_rows se))" by (simp add: window_size_def)
  moreover have "(if short_screen se then 1 else 2) * max_visible (int (screen_rows se)) \<le> int (screen_rows se) - 17"
    using assms by (auto simp: max_visible_def short_screen_def)
  ultimately show ?thesis by (auto split: if_splits)
qed

section \<open>Properties\<close>

text \<open>A panel is a box.  When its title fits and each of its lines does, colours not counted, all its rows are
  as wide as the frame; a line that does not fit makes its row wider by just what is too much.\<close>

theorem panel_is_box:
  assumes "0x1B \<notin> set title" "length title + 6 \<le> frameWidth (se_columns se)" "list_all clean lines"
  shows "map visibleLength (writePanel se title lines) =
    frameWidth (se_columns se) # map (\<lambda>l. max (frameWidth (se_columns se)) (visibleLength l + 3)) lines @ [frameWidth (se_columns se)]"
proof -
  let ?w = "frameWidth (se_columns se)"
  have w: "40 \<le> ?w" using frameWidth_bounds by blast
  have "map visibleLength (map (panel_line se) lines) = map (\<lambda>l. max ?w (visibleLength l + 3)) lines"
    using assms(3) w by (auto simp: visible_panel_line list_all_iff)
  moreover have "visibleLength (paint (se_colour se) CYAN ([0x256D, 0x2500, 32] @ title @ [32] @ replicate (max 1 (?w - length title - 5)) 0x2500 @ [0x256E])) = ?w"
    using assms(1,2) by (subst visible_paint; simp add: clean_plain visible_plain)
  moreover have "visibleLength (paint (se_colour se) CYAN (0x2570 # replicate (?w - 2) 0x2500 @ [0x256F])) = ?w"
    using w by (subst visible_paint; simp add: clean_plain visible_plain)
  ultimately show ?thesis by (simp add: writePanel_def Let_def)
qed


text \<open>The bound is met: on a terminal of eighteen to twenty-nine rows with enough agents, an agent selected in
  the middle makes the overview one row taller than the terminal, so its title scrolls away.\<close>

theorem dashboard_scrolls:
  assumes "18 \<le> screen_rows se" "screen_rows se < 30" "screen_rows se \<le> length lanes + 15" "selected + 17 = screen_rows se"
  shows "length (renderDashboard se lanes daemon selected) = screen_rows se + 1"
proof -
  from assms have ne: "lanes \<noteq> []" by auto
  have "max_visible (int (screen_rows se)) = int (screen_rows se) - 17" using assms by (simp add: max_visible_def)
  then have "window_start (int (screen_rows se)) (int (length lanes)) (int selected) = 1"
    "window_size (int (screen_rows se)) (int (length lanes)) (int selected) = int (screen_rows se) - 17"
    "0 < hidden_after (int (screen_rows se)) (int (length lanes)) (int selected)"
    using assms by (auto simp: window_start_def window_size_def hidden_after_def)
  with agent_lines_length [OF ne, of se selected] assms(2) show ?thesis by (simp add: dashboard_length short_screen_def)
qed

text \<open>The selection is always on the screen.  Whatever the size of the terminal and the number of agents, the
  row of the selected agent, or of the selected action below the agents, is drawn as the selected one.\<close>

theorem selection_is_drawn:
  assumes "selected < length lanes + 3"
  shows "panel_line se (if selected < length lanes then agent_row se True (lanes ! selected)
      else selectableLine se (0x203A # 32 # gc_icon (overview_extra ! (selected - length lanes)) @ [32] @
        gc_label (overview_extra ! (selected - length lanes))) True)
    \<in> set (renderDashboard se lanes daemon selected)"
proof (cases "selected < length lanes")
  case True
  then have ne: "lanes \<noteq> []" by auto
  let ?r = "int (screen_rows se)" and ?n = "int (length lanes)" and ?s = "int selected"
  have w: "0 \<le> window_start ?r ?n ?s" "window_start ?r ?n ?s \<le> ?s" "?s < window_start ?r ?n ?s + max_visible ?r"
    using True by (auto simp: window_start_def max_visible_def)
  have "(selected, lanes ! selected) \<in> set (visible_agents se lanes selected)"
  proof -
    let ?k = "nat (window_start ?r ?n ?s)"
    have "visible_agents se lanes selected ! (selected - ?k) = (selected, lanes ! selected)"
      "selected - ?k < length (visible_agents se lanes selected)"
      using w True by (auto simp: visible_agents_def Let_def nth_take nth_drop)
    then show ?thesis by (metis nth_mem)
  qed
  then have "agent_row se True (lanes ! selected) \<in> set (concat (map (agent_rows se selected) (visible_agents se lanes selected)))"
    by (force simp: agent_rows_def)
  then have "agent_row se True (lanes ! selected) \<in> set (agent_lines se lanes selected)" using ne by (simp add: agent_lines_def Let_def)
  with True show ?thesis by (simp add: renderDashboard_def writePanel_def Let_def)
next
  case False
  then obtain i where i: "selected = length lanes + i" "i < 3" using assms by (metis add_diff_inverse_nat add_less_cancel_left)
  have "(selected, overview_extra ! i) \<in> set (zip [length lanes..<length lanes + 3] overview_extra)"
    using i by (auto simp: in_set_zip overview_extra_def intro!: exI [where x = i])
  then have "selectableLine se (0x203A # 32 # gc_icon (overview_extra ! i) @ [32] @ gc_label (overview_extra ! i)) True
      \<in> set (extra_lines se (length lanes) selected)"
    by (force simp: extra_lines_def)
  with False i(1) show ?thesis by (simp add: renderDashboard_def writePanel_def Let_def)
qed

text \<open>The row of an agent that is not selected is not cut.  On a terminal of unknown width, which counts as
  eighty-two columns, the row of an Antigravity agent that waits for an answer and has no Hub is nine
  columns wider than its frame, where the selected one is not.\<close>

definition wide_agent :: dash_lane where
  "wide_agent =
     \<lparr>dl_lane_id = ascii16 ''a'', dl_identity = replicate 24 97, dl_enabled = True, dl_runtime = ascii16 ''antigravity'', dl_hub = None,
      dl_runtime_state = ascii16 ''awaiting-input'', dl_runtime_error = None, dl_prompt = None, dl_pending = 0, dl_retry = 0,
      dl_deadLetter = 0, dl_warning = False, dl_channels = []\<rparr>"

theorem unselected_row_leaves_frame:
  "visibleLength (panel_line \<lparr>se_colour = c, se_columns = None, se_rows = r\<rparr> (agent_row \<lparr>se_colour = c, se_columns = None, se_rows = r\<rparr> False wide_agent)) = 89 \<and>
   visibleLength (panel_line \<lparr>se_colour = c, se_columns = None, se_rows = r\<rparr> (agent_row \<lparr>se_colour = c, se_columns = None, se_rows = r\<rparr> True wide_agent)) = 80 \<and>
   frameWidth None = 80"
proof -
  let ?se = "\<lparr>se_colour = c, se_columns = None, se_rows = r\<rparr>"
  have w: "frameWidth None = 80" by (simp add: frameWidth_def)
  have plain: "0x1B \<notin> set (dl_identity wide_agent)" "0x1B \<notin> set (upper16 (dl_runtime wide_agent))" "0x1B \<notin> set (hub_text wide_agent)"
    "0x1B \<notin> set (dl_runtime_state wide_agent)" "0x1B \<notin> set dot"
    by (simp_all add: wide_agent_def upper16_def hub_text_def dot_def ascii16_def)
  have "clean (agent_row ?se False wide_agent) \<and> visibleLength (agent_row ?se False wide_agent) = 86"
  proof -
    have id: "clip (dl_identity wide_agent) 24 = dl_identity wide_agent" by (simp add: wide_agent_def clip_def)
    have lengths: "length (dl_identity wide_agent) = 24" "length (upper16 (dl_runtime wide_agent)) = 11" "length (hub_text wide_agent) = 14"
      "length (dl_runtime_state wide_agent) = 14"
      by (simp_all add: wide_agent_def upper16_def hub_text_def ascii16_def)
    show ?thesis
      using plain by (simp add: agent_row_def id Let_def dot_def ascii16_def clean_Cons_iff visible_Cons clean_append visible_append strip_paint
        visible_paint clean_plain visible_plain lengths)
  qed
  then have "visibleLength (panel_line ?se (agent_row ?se False wide_agent)) = 89" by (simp add: visible_panel_line w)
  moreover have "visibleLength (panel_line ?se (agent_row ?se True wide_agent)) = 80"
  proof -
    have "clean (agent_row ?se True wide_agent) \<and> visibleLength (agent_row ?se True wide_agent) = 76"
      using selectableLine_width [of _ ?se True] plain by (simp add: agent_row_def w Let_def ascii16_def)
    then show ?thesis by (simp add: visible_panel_line w)
  qed
  ultimately show ?thesis using w by simp
qed

section \<open>Instances\<close>

definition plain_screen :: "nat \<Rightarrow> screen_env" where
  "plain_screen rows = \<lparr>se_colour = False, se_columns = None, se_rows = Some rows\<rparr>"

lemma plain_screen_simps [simp]:
  "se_columns (plain_screen r) = None" "screen_rows (plain_screen r) = r" "frameWidth None = 80"
  by (simp_all add: plain_screen_def screen_rows_def frameWidth_def)

theorem panel_is_box_witness:
  "map visibleLength (writePanel (plain_screen 30) (ascii16 ''Host'') [ascii16 ''PID 7'', replicate 90 65]) = [80, 80, 93, 80]"
proof -
  have "0x1B \<notin> set (ascii16 ''Host'')" "length (ascii16 ''Host'') + 6 \<le> frameWidth (se_columns (plain_screen 30))"
    "list_all clean [ascii16 ''PID 7'', replicate 90 65]"
    by (simp_all add: ascii16_def clean_plain)
  from panel_is_box [OF this] show ?thesis by (simp add: visible_plain ascii16_def)
qed


theorem dashboard_scrolls_witness:
  "length (renderDashboard (plain_screen 24) (replicate 9 wide_agent) None 7) = 25"
  using dashboard_scrolls [of "plain_screen 24" "replicate 9 wide_agent" 7 None] by simp

theorem selection_is_drawn_witness:
  "panel_line (plain_screen 24) (agent_row (plain_screen 24) True wide_agent) \<in> set (renderDashboard (plain_screen 24) (replicate 9 wide_agent) None 7)"
  using selection_is_drawn [of 7 "replicate 9 wide_agent" "plain_screen 24" None] by simp

end
