(* ===== verification/Tui_Terminal.thy ===== *)
theory Tui_Terminal
  imports Tui Tui_Draw
begin

text \<open>
  The terminal in \<open>src/tui/app.ts\<close>: \<open>question\<close>, \<open>ask\<close> and \<open>askSecret\<close>, \<open>withProgress\<close>, and \<open>exitWhenInputEnds\<close>, the
  guard that ends the process when its terminal is gone.  What is typed, what \<open>stty\<close> does and which writes
  fail are arguments.  Text is UTF-16 code units.
\<close>

section \<open>Questions\<close>

text \<open>\<open>Ra_escape\<close> is the key Escape before the line was entered.\<close>

datatype reader_answer = Ra_line pane | Ra_escape | Ra_error exn | Ra_waiting

record terminal =
  tm_echo :: bool
  tm_keypress :: nat

text \<open>Without \<open>allowBack\<close> nothing listens for Escape.\<close>

definition question :: "bool \<Rightarrow> reader_answer \<Rightarrow> terminal \<Rightarrow> pane screen \<times> terminal" where
  "question allowBack answer tm =
     (case answer of
        Ra_line s \<Rightarrow> (Screen s, tm)
      | Ra_error e \<Rightarrow> (Screen_error e, tm)
      | Ra_escape \<Rightarrow> if allowBack then (Screen_back, tm) else (Screen_waiting, tm)
      | Ra_waiting \<Rightarrow> (Screen_waiting, if allowBack then tm\<lparr>tm_keypress := tm_keypress tm + 1\<rparr> else tm))"

definition map_screen :: "('a \<Rightarrow> 'b) \<Rightarrow> 'a screen \<Rightarrow> 'b screen" where
  "map_screen f r = sc_bind r (\<lambda>a. Screen (f a))"

definition ask_text :: "bool \<Rightarrow> pane option \<Rightarrow> reader_answer \<Rightarrow> terminal \<Rightarrow> pane screen \<times> terminal" where
  "ask_text allowBack fallback answer tm =
     (let (r, tm') = question allowBack answer tm in
      (map_screen (\<lambda>s. if trim16 s \<noteq> [] then trim16 s else case fallback of None \<Rightarrow> [] | Some f \<Rightarrow> f) r, tm'))"

text \<open>\<open>stty\<close> throws when it is not there, and otherwise may fail quietly.\<close>

definition set_echo :: "exn + bool \<Rightarrow> bool \<Rightarrow> terminal \<Rightarrow> (exn + unit) \<times> terminal" where
  "set_echo stty on tm =
     (case stty of Inl e \<Rightarrow> (Inl e, tm) | Inr worked \<Rightarrow> (Inr (), if worked then tm\<lparr>tm_echo := on\<rparr> else tm))"

definition askSecret ::
  "bool \<Rightarrow> exn + bool \<Rightarrow> exn + bool \<Rightarrow> bool \<Rightarrow> reader_answer \<Rightarrow> terminal \<Rightarrow> pane screen \<times> terminal"
where
  "askSecret windows off on allowBack answer tm =
     (let silent = (if windows then (Inr (), tm) else set_echo off False tm) in
      case silent of
        (Inl e, tm1) \<Rightarrow> (Screen_error e, tm1)
      | (Inr _, tm1) \<Rightarrow>
          (let (r, tm2) = question allowBack answer tm1 in
           if r = Screen_waiting then (r, tm2)
           else case (if windows then (Inr (), tm2) else set_echo on True tm2) of
             (Inl e, tm3) \<Rightarrow> (Screen_error e, tm3)
           | (Inr _, tm3) \<Rightarrow> (map_screen trim16 r, tm3)))"

section \<open>Progress\<close>

definition spinner :: pane where
  "spinner = [0x280B, 0x2819, 0x2839, 0x2838, 0x283C, 0x2834, 0x2826, 0x2827, 0x2807, 0x280F]"

definition clear_line :: pane where
  "clear_line = 13 # esc16 ''[2K''"

text \<open>What is written while the work runs for \<open>ticks\<close> ticks of the timer, and how the work ended.\<close>

definition withProgress :: "bool \<Rightarrow> pane \<Rightarrow> nat \<Rightarrow> exn + 'a \<Rightarrow> pane list \<times> (exn + 'a)" where
  "withProgress colour label ticks work =
     ([10] # map (\<lambda>i. clear_line @ paint colour CYAN [spinner ! (i mod length spinner)] @ [32] @ label) [0..<ticks] @ [clear_line], work)"

section \<open>The end of the input\<close>

datatype leave_effect = Lv_cooked | Lv_reset | Lv_message string | Lv_trace string string | Lv_exit nat

text \<open>Each step that talks to the terminal may throw; \<open>lv_raw\<close> is whether the input is a terminal in raw mode.\<close>

record leave_answers =
  lv_raw :: bool
  lv_cooked :: "exn + unit"
  lv_stdout :: "exn + unit"
  lv_stderr :: "exn + unit"
  lv_trace :: "string option"
  lv_write :: "exn + unit"

definition attempt :: "exn + unit \<Rightarrow> leave_effect \<Rightarrow> leave_effect list" where
  "attempt r x = (case r of Inl e \<Rightarrow> [] | Inr _ \<Rightarrow> [x])"

definition leave :: "leave_answers \<Rightarrow> string \<Rightarrow> leave_effect list" where
  "leave w event =
     (if lv_raw w then attempt (lv_cooked w) Lv_cooked else []) @ attempt (lv_stdout w) Lv_reset @
     attempt (lv_stderr w) (Lv_message (''agent-mesh: terminal input ended ('' @ event @ ''); nothing left to read.'')) @
     (case lv_trace w of None \<Rightarrow> [] | Some [] \<Rightarrow> [] | Some path \<Rightarrow> attempt (lv_write w) (Lv_trace path event)) @ [Lv_exit 2]"

text \<open>The process ends at the first of the events.\<close>

definition exitWhenInputEnds :: "(leave_answers \<times> string) list \<Rightarrow> leave_effect list" where
  "exitWhenInputEnds events =
     (case filter (\<lambda>(w, e). e \<in> {''end'', ''close'', ''error''}) events of [] \<Rightarrow> [] | (w, e) # rest \<Rightarrow> leave w e)"

section \<open>Lemmas\<close>

lemma leave_exits: "\<exists>pre. leave w event = pre @ [Lv_exit 2] \<and> (\<forall>n. Lv_exit n \<notin> set pre)"
  by (auto simp: leave_def attempt_def split: option.split list.split sum.split)

lemma exit_iff: "Lv_exit n \<in> set (exitWhenInputEnds evs) \<longleftrightarrow> n = 2 \<and> (\<exists>(w, e)\<in>set evs. e \<in> {''end'', ''close'', ''error''})"
proof (cases "filter (\<lambda>(w, e). e \<in> {''end'', ''close'', ''error''}) evs")
  case Nil
  then show ?thesis by (auto simp: exitWhenInputEnds_def filter_empty_conv)
next
  case (Cons a as)
  obtain w e where a: "a = (w, e)" by (cases a)
  have "a \<in> set (filter (\<lambda>(w, e). e \<in> {''end'', ''close'', ''error''}) evs)" by (simp only: Cons list.set_intros)
  then have "\<exists>(w, e)\<in>set evs. e \<in> {''end'', ''close'', ''error''}" by auto
  moreover have "exitWhenInputEnds evs = leave w e" unfolding exitWhenInputEnds_def Cons by (simp add: a)
  moreover obtain pre where "leave w e = pre @ [Lv_exit 2]" "\<forall>n. Lv_exit n \<notin> set pre" using leave_exits by blast
  ultimately show ?thesis by simp
qed

text \<open>Progress leaves a cleared line, however the work ended.\<close>

lemma progress_clears: "last (fst (withProgress colour label ticks work)) = clear_line \<and> snd (withProgress colour label ticks work) = work"
  by (simp add: withProgress_def)

section \<open>Properties\<close>

text \<open>A secret does not leave the terminal silent.  However the question ends, by an answer, by going back or
  by an exception, the terminal echoes again and nothing listens to its keys, when \<open>stty\<close> works; and while
  the question waits it does not echo.\<close>

theorem askSecret_restores_echo:
  assumes "askSecret False off (Inr True) allowBack answer tm = (r, tm')" "tm_echo tm"
  shows "tm_echo tm' = (r \<noteq> Screen_waiting \<or> off = Inr False) \<and>
    tm_keypress tm' = tm_keypress tm + (if r = Screen_waiting \<and> answer = Ra_waiting \<and> allowBack then 1 else 0)"
  using assms
  by (auto simp: askSecret_def question_def set_echo_def map_screen_def sc_bind_def Let_def
      split: sum.splits reader_answer.splits if_splits bool.splits)

theorem askSecret_restores_echo_witness:
  "tm_echo (snd (askSecret False (Inr True) (Inr True) True Ra_escape \<lparr>tm_echo = True, tm_keypress = 0\<rparr>))"
proof -
  obtain r tm where a: "askSecret False (Inr True) (Inr True) True Ra_escape \<lparr>tm_echo = True, tm_keypress = 0\<rparr> = (r, tm)"
    by (cases "askSecret False (Inr True) (Inr True) True Ra_escape \<lparr>tm_echo = True, tm_keypress = 0\<rparr>")
  then have "r = Screen_back" by (simp add: askSecret_def set_echo_def question_def map_screen_def sc_bind_def)
  with askSecret_restores_echo [OF a] a show ?thesis by simp
qed

end
