(* ===== verification/Daemon_Process.thy ===== *)
theory Daemon_Process
  imports Command_Line Daemon_Lanes Ring_Buffer
begin

text \<open>
  \<open>runDaemon\<close> of \<open>src/cli.ts\<close>: the process of \<open>daemon run\<close>.  It starts the host with the lanes of the command
  line or the daemon of the configuration, prints its status and waits for a signal; then it stops the
  daemon and returns to \<open>main\<close>, which sets the exit code.  A step is a signal, the end of the stop, or the
  return of \<open>main\<close>.
\<close>

section \<open>Start\<close>

datatype some_daemon = Run_host host_daemon | Run_mesh mesh_daemon

text \<open>The line of a diagnostic on standard error; the ring keeps it as well.\<close>

definition diagnostic_line :: "string \<Rightarrow> string option \<Rightarrow> string" where
  "diagnostic_line message err =
     ''[agent-meshd] '' @ message @ (case err of None \<Rightarrow> [] | Some m \<Rightarrow> '': '' @ m) @ [CHR 0x0A]"

definition daemon_diagnostic ::
  "(string \<Rightarrow> (bool \<times> string) option) \<Rightarrow> (diagnostic_record \<Rightarrow> nat) \<Rightarrow> string \<Rightarrow> string option \<Rightarrow> millis \<Rightarrow>
   diagnostic_ring \<Rightarrow> diagnostic_ring \<times> string"
where
  "daemon_diagnostic pu size_of message err now rg =
     (ring_diagnostic pu size_of ''daemon'' message err now rg, diagnostic_line message err)"

definition manual_lanes :: "parsed_options \<Rightarrow> string list" where
  "manual_lanes opts = values_of (po_values opts) ''--lane''"

definition process_start :: "daemon_world \<Rightarrow> parsed_options \<Rightarrow> control_file \<Rightarrow> exn + some_daemon" where
  "process_start w opts f =
     (if manual_lanes opts \<noteq> []
      then (case host_start (dw_host w) (manual_lanes opts) (host_new f) of
              (Inl e, h) \<Rightarrow> Inl e | (Inr _, h) \<Rightarrow> Inr (Run_host h))
      else (case daemon_start w (daemon_new f) of
              (Inl e, d) \<Rightarrow> Inl e | (Inr _, d) \<Rightarrow> Inr (Run_mesh d)))"

definition process_host :: "some_daemon \<Rightarrow> host_daemon" where
  "process_host dm = (case dm of Run_host h \<Rightarrow> h | Run_mesh d \<Rightarrow> md_host d)"

definition process_stop :: "daemon_world \<Rightarrow> some_daemon \<Rightarrow> (exn + unit) \<times> some_daemon" where
  "process_stop w dm =
     (case dm of
        Run_host h \<Rightarrow> map_prod id Run_host (host_stop (dw_host w) h)
      | Run_mesh d \<Rightarrow> map_prod id Run_mesh (daemon_stop w d))"

section \<open>Signals\<close>

datatype os_signal = SIGINT | SIGTERM

text \<open>A listener of \<open>once\<close> takes one signal; a signal without a listener ends the process.  \<open>pr_stop\<close> is the
  result of the stop while it is awaited.\<close>

record daemon_process =
  pr_daemon :: some_daemon
  pr_listeners :: "os_signal list"
  pr_stopping :: bool
  pr_stop :: "(exn + unit) option"
  pr_resolved :: bool
  pr_exitCode :: "int option"
  pr_killed :: "os_signal option"
  pr_stderr :: "string list"

definition daemon_process_new :: "some_daemon \<Rightarrow> daemon_process" where
  "daemon_process_new dm =
     \<lparr>pr_daemon = dm, pr_listeners = [SIGINT, SIGTERM], pr_stopping = False, pr_stop = None, pr_resolved = False,
      pr_exitCode = None, pr_killed = None, pr_stderr = []\<rparr>"

datatype process_event = Pe_signal os_signal | Pe_stopped | Pe_returned

definition process_signal :: "daemon_world \<Rightarrow> os_signal \<Rightarrow> daemon_process \<Rightarrow> daemon_process" where
  "process_signal w sig pr =
     (if sig \<notin> set (pr_listeners pr) then pr\<lparr>pr_killed := Some sig\<rparr>
      else
        (let pr1 = pr\<lparr>pr_listeners := removeAll sig (pr_listeners pr)\<rparr> in
         if pr_stopping pr then pr1
         else (let (r, dm) = process_stop w (pr_daemon pr) in pr1\<lparr>pr_stopping := True, pr_stop := Some r, pr_daemon := dm\<rparr>)))"

definition shutdown_failed :: "exn \<Rightarrow> string" where
  "shutdown_failed e = ''[agent-meshd] shutdown failed: '' @ exn_message e @ [CHR 0x0A]"

definition process_stopped :: "daemon_process \<Rightarrow> daemon_process" where
  "process_stopped pr =
     (case pr_stop pr of
        None \<Rightarrow> pr
      | Some r \<Rightarrow>
          (let pr1 = pr\<lparr>pr_stop := None, pr_resolved := True\<rparr> in
           case r of
             Inl e \<Rightarrow> pr1\<lparr>pr_stderr := pr_stderr pr @ [shutdown_failed e], pr_exitCode := Some 1\<rparr>
           | Inr u \<Rightarrow> pr1))"

text \<open>\<open>runDaemon\<close> has returned, so the command has, and what \<open>main\<close> gives is the exit code.\<close>

definition process_returned :: "daemon_process \<Rightarrow> daemon_process" where
  "process_returned pr = (if pr_resolved pr then pr\<lparr>pr_exitCode := Some (exit_code (Inr (Text_none, 0)))\<rparr> else pr)"

fun process_step :: "daemon_world \<Rightarrow> process_event \<Rightarrow> daemon_process \<Rightarrow> daemon_process" where
  "process_step w ev pr =
     (if pr_killed pr \<noteq> None then pr
      else case ev of
        Pe_signal sig \<Rightarrow> process_signal w sig pr
      | Pe_stopped \<Rightarrow> process_stopped pr
      | Pe_returned \<Rightarrow> process_returned pr)"

definition process_run :: "daemon_world \<Rightarrow> process_event list \<Rightarrow> daemon_process \<Rightarrow> daemon_process" where
  "process_run w evs pr = fold (process_step w) evs pr"

section \<open>Lemmas\<close>

text \<open>The daemon is stopped once, by the first signal.\<close>

lemma process_stops_once:
  "pr_stopping pr \<Longrightarrow> pr_daemon (process_run w evs pr) = pr_daemon pr \<and> pr_stopping (process_run w evs pr)"
proof (induction evs arbitrary: pr)
  case (Cons ev evs)
  then have "pr_stopping (process_step w ev pr) \<and> pr_daemon (process_step w ev pr) = pr_daemon pr"
    by (cases ev) (auto simp: process_signal_def process_stopped_def process_returned_def Let_def split: option.split sum.split)
  with Cons.IH [of "process_step w ev pr"] show ?case by (simp add: process_run_def del: process_step.simps)
qed (simp add: process_run_def)

section \<open>Properties\<close>

text \<open>C40: a failed shutdown exits as a clean one.  Whichever signal comes, when the stop of the daemon throws, the
  error is printed and the exit code is set to 1; then \<open>runDaemon\<close> returns, the command returns 0, and that
  becomes the exit code of the process.\<close>

theorem failed_shutdown_exits_zero:
  assumes "process_stop w dm = (Inl e, dm')"
  shows "let during = process_run w [Pe_signal sig, Pe_stopped] (daemon_process_new dm);
             over = process_run w [Pe_signal sig, Pe_stopped, Pe_returned] (daemon_process_new dm) in
    pr_exitCode during = Some 1 \<and> pr_exitCode over = Some 0 \<and> pr_stderr over = [shutdown_failed e] \<and> pr_killed over = None"
  using assms
  by (cases sig)
    (simp_all add: process_run_def daemon_process_new_def process_signal_def process_stopped_def process_returned_def exit_code_def Let_def)

definition broken_world :: daemon_world where
  "broken_world =
     \<lparr>dw_load = Inr JNull, dw_initialize = (\<lambda>i. Inr ()), dw_app_server = (\<lambda>i. Inr []),
      dw_host = \<lparr>hw_mkdir = Inr (), hw_listen = Inr (), hw_chmod = Inr (), hw_lane_start = (\<lambda>i. Inr ()),
        hw_unlink = Inl (PlainError ''EPERM''), hw_supported = []\<rparr>\<rparr>"

theorem failed_shutdown_exits_zero_witness:
  "pr_exitCode (process_run broken_world [Pe_signal SIGTERM, Pe_stopped, Pe_returned]
     (daemon_process_new (Run_host ((host_new Ctl_live)\<lparr>hd_started := True\<rparr>)))) = Some 0"
proof -
  have "process_stop broken_world (Run_host ((host_new Ctl_live)\<lparr>hd_started := True\<rparr>)) =
      (Inl (PlainError ''EPERM''), Run_host (host_new Ctl_live))"
    by (simp add: process_stop_def host_stop_def broken_world_def host_new_def Let_def)
  from failed_shutdown_exits_zero [OF this, of SIGTERM] show ?thesis by (simp add: Let_def)
qed

text \<open>The same signal twice does not wait.  The first of a kind begins the stop and the other kind is then taken
  and ignored, but the second of the same kind finds no listener and ends the process with the shutdown
  unfinished.\<close>

theorem second_signal_kills:
  "pr_killed (process_run w [Pe_signal sig, Pe_signal sig] (daemon_process_new dm)) = Some sig \<and>
   (sig \<noteq> other \<longrightarrow> pr_killed (process_run w [Pe_signal sig, Pe_signal other, Pe_stopped, Pe_returned] (daemon_process_new dm)) = None)"
  by (cases sig; cases other; cases "process_stop w dm")
    (auto simp: process_run_def daemon_process_new_def process_signal_def process_stopped_def process_returned_def Let_def split: sum.split)

theorem second_signal_kills_witness:
  "pr_killed (process_run broken_world [Pe_signal SIGINT, Pe_signal SIGTERM, Pe_stopped, Pe_returned]
     (daemon_process_new (Run_host (host_new Ctl_live)))) = None"
  using second_signal_kills [of broken_world SIGINT "Run_host (host_new Ctl_live)" SIGTERM] by simp

end
