(* ===== verification/Mutation_Tool.thy ===== *)
theory Mutation_Tool
  imports Errors Pane
begin

text \<open>
  \<open>scripts/mutate.ts\<close>: \<open>runMutation\<close> breaks one file of a repository, runs a command and puts the file back with
  \<open>git checkout\<close>.  Texts are UTF-16 code units.  A tree is the committed files, the files there are, and
  the names git ignores; what the command does to it is an argument.
\<close>

section \<open>Replacement\<close>

text \<open>\<open>String.replaceAll\<close> with a text for a pattern: in the replacement \<open>$$\<close> stands for a dollar, \<open>$&\<close> for the match,
  and a dollar with a back quote or a quote for the text before and after it.\<close>

fun substitution :: "pane \<Rightarrow> pane \<Rightarrow> pane \<Rightarrow> pane \<Rightarrow> pane" where
  "substitution before found after (d # c # r) =
     (if d \<noteq> 36 then d # substitution before found after (c # r)
      else if c = 36 then 36 # substitution before found after r
      else if c = 38 then found @ substitution before found after r
      else if c = 96 then before @ substitution before found after r
      else if c = 39 then after @ substitution before found after r
      else 36 # substitution before found after (c # r))"
| "substitution before found after r = r"

lemma matched_shorter: "p \<noteq> [] \<Longrightarrow> take (length p) t = p \<Longrightarrow> length (drop (length p) t) < length t"
  by (cases t; cases p) auto

function replace_all16 :: "pane \<Rightarrow> pane \<Rightarrow> pane \<Rightarrow> pane \<Rightarrow> pane" where
  "replace_all16 p rep before t =
     (if p \<noteq> [] \<and> take (length p) t = p
      then substitution before p (drop (length p) t) rep @ replace_all16 p rep (before @ p) (drop (length p) t)
      else (if p = [] then substitution before [] t rep else []) @
        (case t of [] \<Rightarrow> [] | u # us \<Rightarrow> u # replace_all16 p rep (before @ [u]) us))"
  by pat_completeness auto

termination
  by (relation "measure (\<lambda>(p, rep, before, t). length t)") (use matched_shorter in auto)

declare replace_all16.simps [simp del]

definition replaceAll :: "pane \<Rightarrow> pane \<Rightarrow> pane \<Rightarrow> pane" where
  "replaceAll t p rep = replace_all16 p rep [] t"

section \<open>The tree\<close>

record tree =
  tr_committed :: "(pane \<times> pane) list"
  tr_files :: "(pane \<times> pane) list"
  tr_ignored :: "pane list"

text \<open>The files that \<open>git status --porcelain\<close> names.\<close>

definition dirty_files :: "tree \<Rightarrow> pane list" where
  "dirty_files tr =
     filter (\<lambda>n. map_of (tr_files tr) n \<noteq> map_of (tr_committed tr) n \<and> (map_of (tr_committed tr) n = None \<longrightarrow> n \<notin> set (tr_ignored tr)))
       (remdups (map fst (tr_committed tr) @ map fst (tr_files tr)))"

definition dirty :: "(pane list \<Rightarrow> pane) \<Rightarrow> tree \<Rightarrow> pane" where
  "dirty report tr = (if dirty_files tr = [] then [] else report (dirty_files tr))"

definition set_file :: "pane \<Rightarrow> pane \<Rightarrow> tree \<Rightarrow> tree" where
  "set_file n t tr = tr\<lparr>tr_files := AList.update n t (tr_files tr)\<rparr>"

text \<open>\<open>git checkout -- file\<close> fails for a file that is not committed.\<close>

definition git_checkout :: "pane \<Rightarrow> tree \<Rightarrow> (exn + unit) \<times> tree" where
  "git_checkout n tr =
     (case map_of (tr_committed tr) n of
        None \<Rightarrow> (Inl (PlainError ''Failed with exit code 1''), tr)
      | Some t \<Rightarrow> (Inr (), set_file n t tr))"

section \<open>One mutation\<close>

record mutation =
  mu_file :: pane
  mu_find :: pane
  mu_replace :: pane
  mu_command :: "pane list"

record mutation_run =
  ru_exitCode :: int
  ru_output :: pane

datatype mutation_error = MutationRefused pane | Mutation_exn exn

text \<open>What the run meets: whether it is inside another, the exception for a file that is not there, \<open>String\<close> of an
  exception, how a write of the file ends (\<open>Inl\<close> with what is in the
  file then), and the command, which may throw when it cannot be started.\<close>

record mutation_world =
  mw_nested :: bool
  mw_report :: "pane list \<Rightarrow> pane"
  mw_missing :: exn
  mw_string :: "exn \<Rightarrow> pane"
  mw_write :: "(exn \<times> pane) option"
  mw_spawn :: "pane list \<Rightarrow> tree \<Rightarrow> (exn + (int option \<times> pane \<times> pane)) \<times> tree"

definition already_inside :: pane where
  "already_inside = ascii16 ''already inside a mutation; a nested run sees the outer edit as a dirty tree and refuses everything''"

definition refuse_dirty :: "pane \<Rightarrow> pane" where
  "refuse_dirty status = ascii16 ''refusing to mutate a dirty tree; commit or stash first:'' @ [10] @ status"

definition refuse_unmatched :: "pane \<Rightarrow> pane" where
  "refuse_unmatched file = ascii16 ''no match for the mutation in '' @ file @ ascii16 ''; nothing was changed''"

definition refuse_unrestored :: "pane \<Rightarrow> pane \<Rightarrow> pane" where
  "refuse_unrestored file status = ascii16 ''the tree is still dirty after restoring '' @ file @ [58, 10] @ status"

text \<open>The \<open>finally\<close> clause: what it throws takes the place of the result.\<close>

definition put_back ::
  "mutation_world \<Rightarrow> mutation \<Rightarrow> mutation_error + mutation_run \<Rightarrow> tree \<Rightarrow> (mutation_error + mutation_run) \<times> tree"
where
  "put_back w mu r tr =
     (case git_checkout (mu_file mu) tr of
        (Inl e, tr') \<Rightarrow> (Inl (Mutation_exn e), tr')
      | (Inr _, tr') \<Rightarrow>
          (let after = dirty (mw_report w) tr' in
           if after \<noteq> [] then (Inl (MutationRefused (refuse_unrestored (mu_file mu) after)), tr') else (r, tr')))"

definition spawn_command :: "mutation_world \<Rightarrow> mutation \<Rightarrow> tree \<Rightarrow> (mutation_error + mutation_run) \<times> tree" where
  "spawn_command w mu tr =
     (case mw_spawn w (mu_command mu) tr of
        (Inl e, tr') \<Rightarrow> (Inl (Mutation_exn e), tr')
      | (Inr (code, out, err), tr') \<Rightarrow>
          (Inr \<lparr>ru_exitCode = (case code of Some n \<Rightarrow> n | None \<Rightarrow> 1), ru_output = out @ err\<rparr>, tr'))"

definition runMutation :: "mutation_world \<Rightarrow> mutation \<Rightarrow> tree \<Rightarrow> (mutation_error + mutation_run) \<times> tree" where
  "runMutation w mu tr =
     (let before = dirty (mw_report w) tr in
      if mw_nested w then (Inl (MutationRefused already_inside), tr)
      else if before \<noteq> [] then (Inl (MutationRefused (refuse_dirty before)), tr)
      else case map_of (tr_files tr) (mu_file mu) of
        None \<Rightarrow> (Inl (Mutation_exn (mw_missing w)), tr)
      | Some original \<Rightarrow>
          if \<not> includes16 original (mu_find mu) then (Inl (MutationRefused (refuse_unmatched (mu_file mu))), tr)
          else case mw_write w of
            Some (e, left) \<Rightarrow> (Inl (Mutation_exn e), set_file (mu_file mu) left tr)
          | None \<Rightarrow>
              (let (r, tr1) = spawn_command w mu (set_file (mu_file mu) (replaceAll original (mu_find mu) (mu_replace mu)) tr) in
               put_back w mu r tr1))"

text \<open>The script: \<open>args\<close> are those after its name.  The result is the exit code and what is printed.\<close>

definition usage :: pane where
  "usage = ascii16 ''usage: bun scripts/mutate.ts <file> <find> <replace> -- <command...>'' @ [10]"

definition error_text :: "mutation_error \<Rightarrow> pane" where
  "error_text e = (case e of MutationRefused t \<Rightarrow> t | Mutation_exn x \<Rightarrow> ascii16 (exn_message x))"

definition mutate_main :: "mutation_world \<Rightarrow> pane list \<Rightarrow> tree \<Rightarrow> (int \<times> pane) \<times> tree" where
  "mutate_main w args tr =
     (let front = takeWhile (\<lambda>a. a \<noteq> [45, 45]) args; command = drop (Suc (length front)) args in
      case front of
        file # p # rep # others \<Rightarrow>
          if file = [] \<or> command = [] then ((2, usage), tr)
          else (case runMutation w \<lparr>mu_file = file, mu_find = p, mu_replace = rep, mu_command = command\<rparr> tr of
            (Inl e, tr') \<Rightarrow> ((2, error_text e @ [10]), tr')
          | (Inr run, tr') \<Rightarrow>
              ((0, ru_output run @ ascii16 ''mutated '' @ file @ ascii16 '': command exited '' @ ascii16 (js_int (ru_exitCode run)) @ [10]), tr'))
      | _ \<Rightarrow> ((2, usage), tr))"

section \<open>Lemmas\<close>

lemma not_dirty_iff:
  "dirty_files tr = [] \<longleftrightarrow>
     (\<forall>n. map_of (tr_files tr) n = map_of (tr_committed tr) n \<or> (map_of (tr_committed tr) n = None \<and> n \<in> set (tr_ignored tr)))"
proof -
  have "map_of xs n = None" if "n \<notin> fst ` set xs" for xs :: "(pane \<times> pane) list" and n using that by (simp add: map_of_eq_None_iff)
  then show ?thesis by (fastforce simp: dirty_files_def filter_empty_conv)
qed

lemma runMutation_Inr:
  assumes "runMutation w mu tr = (Inr run, tr')" "\<forall>ns. ns \<noteq> [] \<longrightarrow> mw_report w ns \<noteq> []"
  shows "dirty_files tr = [] \<and> dirty_files tr' = []"
  using assms by (auto simp: runMutation_def put_back_def dirty_def Let_def split: option.splits prod.splits sum.splits if_splits)

text \<open>The mutation is of the committed text, and a pattern that is not in it changes nothing.\<close>

lemma mutate_unmatched: "\<not> includes16 t p \<Longrightarrow> replace_all16 p rep before t = t"
proof (induction p rep before t rule: replace_all16.induct)
  case (1 p rep before t)
  then show ?case by (cases t) (auto simp: replace_all16.simps [of p rep before])
qed

section \<open>Properties\<close>

text \<open>A mutation that gives a result has been put back.  It was made in a clean tree and the tree is clean after it: unless
  the command made a commit, every file is what it was, apart from those git ignores.\<close>

theorem mutation_is_put_back:
  assumes "runMutation w mu tr = (Inr run, tr')" "\<forall>ns. ns \<noteq> [] \<longrightarrow> mw_report w ns \<noteq> []"
    "tr_committed tr' = tr_committed tr" "map_of (tr_committed tr) n \<noteq> None \<or> n \<notin> set (tr_ignored tr) \<union> set (tr_ignored tr')"
  shows "map_of (tr_files tr') n = map_of (tr_files tr) n"
  using runMutation_Inr [OF assms(1,2)] assms(3,4) unfolding not_dirty_iff by (metis UnI1 UnI2)

definition sample_tree :: tree where
  "sample_tree = \<lparr>tr_committed = [(ascii16 ''a.ts'', ascii16 ''guard'')], tr_files = [(ascii16 ''a.ts'', ascii16 ''guard'')], tr_ignored = []\<rparr>"

definition sample_mutation :: mutation where
  "sample_mutation = \<lparr>mu_file = ascii16 ''a.ts'', mu_find = ascii16 ''guard'', mu_replace = ascii16 ''x'', mu_command = [ascii16 ''test'']\<rparr>"

definition sample_mutation_world :: "(exn \<times> pane) option \<Rightarrow> mutation_world" where
  "sample_mutation_world written =
     \<lparr>mw_nested = False, mw_report = (\<lambda>ns. concat ns @ [77]), mw_missing = PlainError ''ENOENT'', mw_string = (\<lambda>e. ascii16 (exn_message e)), mw_write = written,
      mw_spawn = (\<lambda>c tr. (Inr (Some 1, ascii16 ''(fail)'', []), tr))\<rparr>"

lemmas mutation_sample_defs = sample_tree_def sample_mutation_def sample_mutation_world_def ascii16_def

theorem mutation_is_put_back_witness:
  "map_of (tr_files (snd (runMutation (sample_mutation_world None) sample_mutation sample_tree))) (ascii16 ''a.ts'') = Some (ascii16 ''guard'')"
proof -
  let ?r = "runMutation (sample_mutation_world None) sample_mutation sample_tree"
  have r: "?r = (Inr \<lparr>ru_exitCode = 1, ru_output = ascii16 ''(fail)''\<rparr>, snd ?r) \<and> tr_committed (snd ?r) = tr_committed sample_tree"
    by (simp add: mutation_sample_defs runMutation_def spawn_command_def put_back_def git_checkout_def set_file_def dirty_def dirty_files_def)
  from mutation_is_put_back [OF conjunct1 [OF r] _ conjunct2 [OF r], of "ascii16 ''a.ts''"] show ?thesis
    by (simp add: mutation_sample_defs)
qed

text \<open>A write that fails is not put back.  The write of the mutated file stands before the clause that restores it, so what a
  failed write has left stays, and every mutation after it is refused for the dirty tree.\<close>

theorem failed_write_stays:
  assumes "mw_write w = Some (e, left)" "\<not> mw_nested w" "dirty_files tr = []" "map_of (tr_files tr) (mu_file mu) = Some t"
    "map_of (tr_committed tr) (mu_file mu) = Some t" "includes16 t (mu_find mu)" "left \<noteq> t" "\<forall>ns. ns \<noteq> [] \<longrightarrow> mw_report w ns \<noteq> []"
  shows "\<exists>tr'. runMutation w mu tr = (Inl (Mutation_exn e), tr') \<and> map_of (tr_files tr') (mu_file mu) = Some left \<and>
    (\<forall>mu'. \<exists>status. runMutation w mu' tr' = (Inl (MutationRefused (refuse_dirty status)), tr'))"
proof -
  let ?tr = "set_file (mu_file mu) left tr"
  have "runMutation w mu tr = (Inl (Mutation_exn e), ?tr)" using assms by (simp add: runMutation_def dirty_def)
  moreover have "dirty_files ?tr \<noteq> []" unfolding not_dirty_iff using assms(5,7) by (auto simp: set_file_def update_conv)
  then have "runMutation w mu' ?tr = (Inl (MutationRefused (refuse_dirty (mw_report w (dirty_files ?tr)))), ?tr)" for mu'
    using assms(2,8) by (simp add: runMutation_def dirty_def Let_def)
  ultimately show ?thesis by (force simp: set_file_def update_conv)
qed

theorem failed_write_stays_witness:
  "\<exists>tr'. runMutation (sample_mutation_world (Some (PlainError ''ENOSPC'', []))) sample_mutation sample_tree =
      (Inl (Mutation_exn (PlainError ''ENOSPC'')), tr') \<and> map_of (tr_files tr') (ascii16 ''a.ts'') = Some []"
  using failed_write_stays [of "sample_mutation_world (Some (PlainError ''ENOSPC'', []))" "PlainError ''ENOSPC''" "[]" sample_tree sample_mutation
      "ascii16 ''guard''"]
  by (simp add: mutation_sample_defs dirty_files_def) blast

text \<open>A mutation can match and change nothing.  The replacement is a pattern of its own: with \<open>$&\<close>, which stands for
  what was found, the command runs against the committed text, whatever was found and wherever.\<close>

theorem dollar_ampersand_changes_nothing:
  assumes "p \<noteq> []"
  shows "replaceAll t p (ascii16 ''$&'') = t"
proof -
  have "replace_all16 p rep before t = t" if "rep = [36, 38]" for rep before
    using assms that
  proof (induction p rep before t rule: replace_all16.induct)
    case (1 p rep before t)
    show ?case
    proof (cases "take (length p) t = p")
      case True
      with 1(1,3,4) show ?thesis by (simp add: replace_all16.simps [of p "[36, 38]" before t]) (metis append_take_drop_id)
    next
      case False
      with 1(2,3,4) show ?thesis by (cases t) (auto simp: replace_all16.simps [of p "[36, 38]" before])
    qed
  qed
  then show ?thesis by (simp add: replaceAll_def ascii16_def)
qed

theorem dollar_ampersand_changes_nothing_witness: "replaceAll [97, 98, 97] [97] (ascii16 ''$&'') = [97, 98, 97]"
  by (rule dollar_ampersand_changes_nothing) simp

end
