(* ===== verification/Mutation_Check.thy ===== *)
theory Mutation_Check
  imports Mutation_Tool
begin

text \<open>
  \<open>scripts/mutation-check.ts\<close>: the run over the committed mutations, which says of each guard whether something
  fails without it, and \<open>--self-check\<close>, \<open>--collect\<close> and \<open>--list\<close>.  The set of \<open>scripts/mutations.ts\<close> is an
  argument, and so are the two commands the self-check uses; the outcome of a run is what it printed,
  as lines without the empty ones, and its exit code.
\<close>

section \<open>Entries and outcomes\<close>

record mutation_entry = mutation +
  me_defect :: pane
  me_slow :: bool
  me_evidence :: pane

datatype mutation_outcome = Caught | Not_caught | Refused | Inconclusive

definition outcome_text :: "mutation_outcome \<Rightarrow> pane" where
  "outcome_text r =
     ascii16 (case r of Caught \<Rightarrow> ''caught'' | Not_caught \<Rightarrow> ''NOT CAUGHT'' | Refused \<Rightarrow> ''REFUSED'' | Inconclusive \<Rightarrow> ''INCONCLUSIVE'')"

text \<open>\<open>padEnd(11)\<close>.\<close>

definition padded :: "pane \<Rightarrow> pane" where
  "padded t = t @ replicate (11 - length t) 32"

definition last_line :: "pane \<Rightarrow> pane" where
  "last_line t = last (split_lines (trim16 t))"

definition no_report :: "int \<Rightarrow> pane \<Rightarrow> pane \<Rightarrow> pane" where
  "no_report code evidence output =
     ascii16 (''exited '' @ js_int code @ '' without reporting (no '') @ [34] @ evidence @ [34] @ ascii16 ''): '' @ last_line output"

definition evaluate :: "mutation_world \<Rightarrow> mutation_entry \<Rightarrow> tree \<Rightarrow> (mutation_outcome \<times> pane) \<times> tree" where
  "evaluate w en tr =
     (case runMutation w (mutation.truncate en) tr of
        (Inl (MutationRefused t), tr') \<Rightarrow> ((Refused, t), tr')
      | (Inl (Mutation_exn e), tr') \<Rightarrow> ((Refused, mw_string w e), tr')
      | (Inr run, tr') \<Rightarrow>
          (if ru_exitCode run = 0 then ((Not_caught, me_defect en), tr')
           else if \<not> includes16 (ru_output run) (me_evidence en)
           then ((Inconclusive, no_report (ru_exitCode run) (me_evidence en) (ru_output run)), tr')
           else ((Caught, []), tr')))"

text \<open>What the run meets differs from entry to entry.\<close>

fun evaluate_all :: "(nat \<Rightarrow> mutation_world) \<Rightarrow> nat \<Rightarrow> mutation_entry list \<Rightarrow> tree \<Rightarrow> (mutation_outcome \<times> pane) list \<times> tree" where
  "evaluate_all w n [] tr = ([], tr)"
| "evaluate_all w n (en # es) tr =
     (let (r, tr1) = evaluate (w n) en tr; (rs, tr2) = evaluate_all w (Suc n) es tr1 in (r # rs, tr2))"

section \<open>The self-check\<close>

record self_entry = mutation_entry +
  se_mustFailAs :: mutation_outcome

definition SELF_CHECK :: "pane \<Rightarrow> pane list \<Rightarrow> self_entry list" where
  "SELF_CHECK scope scopeTest =
     [\<lparr>mu_file = scope, mu_find = ascii16 ''Every TypeScript file in this repository is inside the checked scope.'',
       mu_replace = ascii16 ''Every TypeScript file in this repository is within the checked scope.'', mu_command = scopeTest,
       me_defect = ascii16 ''TEMPORARY: an edit inside a comment, which no guard could object to.'', me_slow = False,
       me_evidence = ascii16 ''unused: this entry must not fail at all'', se_mustFailAs = Not_caught\<rparr>,
      \<lparr>mu_file = scope, mu_find = ascii16 ''a-string-this-file-does-not-contain'', mu_replace = ascii16 ''irrelevant'', mu_command = scopeTest,
       me_defect = ascii16 ''TEMPORARY: a pattern that is no longer present, as a rename would leave it.'', me_slow = False,
       me_evidence = ascii16 ''unused: this entry is refused before anything runs'', se_mustFailAs = Refused\<rparr>,
      \<lparr>mu_file = scope, mu_find = ascii16 ''expect(outside).toEqual([]);'',
       mu_replace = ascii16 ''expect(outside).toEqual(['' @ [34] @ ascii16 ''forced'' @ [34] @ ascii16 '']);'', mu_command = scopeTest,
       me_defect = ascii16 ''TEMPORARY: a run that fails without ever reporting.'', me_slow = False,
       me_evidence = ascii16 ''a-marker-no-run-prints'', se_mustFailAs = Inconclusive\<rparr>]"

definition self_line :: "self_entry \<Rightarrow> mutation_outcome \<times> pane \<Rightarrow> pane" where
  "self_line en r =
     (if fst r = se_mustFailAs en then padded (outcome_text (fst r)) @ [32] @ hd (split_lines (snd r))
      else ascii16 ''expected to fail as '' @ [34] @ outcome_text (se_mustFailAs en) @ [34] @ ascii16 '', got '' @
        [34] @ outcome_text (fst r) @ [34] @ ascii16 '': '' @ me_defect en)"

definition self_wrong :: "self_entry list \<Rightarrow> (mutation_outcome \<times> pane) list \<Rightarrow> nat" where
  "self_wrong ens rs = length (filter (\<lambda>(en, r). fst r \<noteq> se_mustFailAs en) (zip ens rs))"

definition self_check :: "(nat \<Rightarrow> mutation_world) \<Rightarrow> self_entry list \<Rightarrow> tree \<Rightarrow> (pane list \<times> int) \<times> tree" where
  "self_check w ens tr =
     (let (rs, tr') = evaluate_all w 0 (map mutation_entry.truncate ens) tr; wrong = self_wrong ens rs;
          count = ascii16 (js_int (int (length ens))) in
      ((map (\<lambda>(en, r). self_line en r) (zip ens rs) @
         [if wrong = 0 then ascii16 ''self-check: '' @ count @ [47] @ count @ ascii16 '' failed the way they must''
          else ascii16 (''self-check FAILED: '' @ js_int (int wrong) @ '' did not fail the way it must '') @ [0x2014] @
            ascii16 '' the reporting branch is untested''],
        if wrong = 0 then 0 else 1), tr'))"

section \<open>The selection\<close>

record check_options =
  co_nested :: bool
  co_selfCheck :: bool
  co_collect :: bool
  co_fast :: bool
  co_only :: "pane option"
  co_list :: bool

text \<open>The word after \<open>--only\<close>, which may be missing.\<close>

definition only_of :: "pane list \<Rightarrow> pane option" where
  "only_of args = (case dropWhile (\<lambda>a. a \<noteq> ascii16 ''--only'') args of flag # v # r \<Rightarrow> Some v | _ \<Rightarrow> None)"

definition check_options_of :: "bool \<Rightarrow> pane list \<Rightarrow> check_options" where
  "check_options_of nested args =
     \<lparr>co_nested = nested, co_selfCheck = (ascii16 ''--self-check'' \<in> set args), co_collect = (ascii16 ''--collect'' \<in> set args),
      co_fast = (ascii16 ''--fast'' \<in> set args), co_only = only_of args, co_list = (ascii16 ''--list'' \<in> set args)\<rparr>"

definition selected :: "check_options \<Rightarrow> mutation_entry list \<Rightarrow> mutation_entry list" where
  "selected co ens =
     filter (\<lambda>en. (co_fast co \<longrightarrow> \<not> me_slow en) \<and>
       (case co_only co of None \<Rightarrow> True | Some t \<Rightarrow> includes16 (mu_file en) t \<or> includes16 (me_evidence en) t)) ens"

section \<open>The run\<close>

fun join16 :: "pane \<Rightarrow> pane list \<Rightarrow> pane" where
  "join16 sep [] = []"
| "join16 sep [t] = t"
| "join16 sep (t # ts) = t @ sep @ join16 sep ts"

definition label_of :: "nat \<Rightarrow> nat \<Rightarrow> mutation_entry \<Rightarrow> pane" where
  "label_of index n en =
     ascii16 (js_int (int index + 1) @ ''/'' @ js_int (int n)) @ [32] @ mu_file en @ [32] @ join16 [32] (drop 1 (mu_command en))"

definition entry_line :: "pane \<Rightarrow> mutation_outcome \<times> pane \<Rightarrow> pane" where
  "entry_line label r =
     (if fst r = Caught then ascii16 ''caught      '' @ label
      else padded (outcome_text (fst r)) @ [32] @ label @ [10] @ ascii16 ''            '' @ snd r)"

definition entry_lines :: "mutation_entry list \<Rightarrow> (mutation_outcome \<times> pane) list \<Rightarrow> pane list" where
  "entry_lines ens rs =
     map (\<lambda>(i, en, r). entry_line (label_of i (length ens) en) r) (zip [0..<length ens] (zip ens rs))"

text \<open>The outcomes other than caught with their counts, in the order in which they came first.\<close>

definition remainder :: "mutation_outcome list \<Rightarrow> pane" where
  "remainder os =
     join16 (ascii16 '', '') (map (\<lambda>r. ascii16 (js_int (int (count_list os r))) @ [32] @ outcome_text r)
       (filter (\<lambda>r. r \<noteq> Caught) (rev (remdups (rev os)))))"

definition missed :: "mutation_outcome list \<Rightarrow> nat" where
  "missed os = length (filter (\<lambda>r. r \<noteq> Caught) os)"

definition total_line :: "bool \<Rightarrow> nat \<Rightarrow> mutation_outcome list \<Rightarrow> pane" where
  "total_line fast all os =
     ascii16 (js_int (int (length os) - int (missed os)) @ ''/'' @ js_int (int (length os)) @ '' caught'') @
     (if fast then [32, 0x2014] @ ascii16 ('' fast subset, of '' @ js_int (int all) @ '' in the set'') else []) @
     (if remainder os = [] then [] else [32, 40] @ remainder os @ [41])"

datatype check_text = To_stdout "pane list" | To_stderr pane

definition check_run :: "(nat \<Rightarrow> mutation_world) \<Rightarrow> check_options \<Rightarrow> mutation_entry list \<Rightarrow> tree \<Rightarrow> (check_text list \<times> int) \<times> tree" where
  "check_run w co ens tr =
     (let sel = selected co ens; (rs, tr') = evaluate_all w 0 sel tr in
      (([To_stdout (entry_lines sel rs @ [total_line (co_fast co) (length ens) (map fst rs)])],
        if missed (map fst rs) = 0 then 0 else 1), tr'))"

text \<open>\<open>--collect\<close> runs each entry and says what it printed; an exception ends the script.  \<open>interesting\<close> is the regular
  expression for the lines it shows.\<close>

fun collect :: "(pane \<Rightarrow> bool) \<Rightarrow> (nat \<Rightarrow> mutation_world) \<Rightarrow> nat \<Rightarrow> mutation_entry list \<Rightarrow> tree \<Rightarrow> (pane list \<times> int) \<times> tree" where
  "collect interesting w n [] tr = (([], 0), tr)"
| "collect interesting w n (en # es) tr =
     (case runMutation (w n) (mutation.truncate en) tr of
        (Inl e, tr') \<Rightarrow> (([], 1), tr')
      | (Inr run, tr') \<Rightarrow>
          (let ((lines, code), tr'') = collect interesting w (Suc n) es tr' in
           (((ascii16 ''--- '' @ join16 [32] (drop 1 (mu_command en)) @ ascii16 ('' (exit '' @ js_int (ru_exitCode run) @ '')'')) #
             map (\<lambda>l. replicate 4 32 @ trim16 l) (take 3 (filter interesting (split_lines (ru_output run)))) @ lines, code), tr'')))"

definition none_selected :: "(pane \<Rightarrow> pane) \<Rightarrow> check_options \<Rightarrow> mutation_entry list \<Rightarrow> pane" where
  "none_selected quote co ens =
     ascii16 ''no mutation selected'' @ (case co_only co of None \<Rightarrow> [] | Some t \<Rightarrow> ascii16 '' by '' @ quote t) @ [32, 0x2014] @
     ascii16 ('' of '' @ js_int (int (length ens)) @ '' in the set. Nothing ran, which is not the same as nothing wrong.'')"

text \<open>The script: \<open>quote\<close> is \<open>JSON.stringify\<close> of a text.\<close>

definition check_main ::
  "(pane \<Rightarrow> pane) \<Rightarrow> (pane \<Rightarrow> bool) \<Rightarrow> (nat \<Rightarrow> mutation_world) \<Rightarrow> check_options \<Rightarrow> self_entry list \<Rightarrow> mutation_entry list \<Rightarrow> tree \<Rightarrow>
   (check_text list \<times> int) \<times> tree"
where
  "check_main quote interesting w co selfs ens tr =
     (if co_nested co then (([To_stderr (ascii16 ''cannot run inside another mutation: nothing here would be measuring itself'')], 2), tr)
      else if co_selfCheck co then (let ((lines, code), tr') = self_check w selfs tr in (([To_stdout lines], code), tr'))
      else if co_collect co then (let ((lines, code), tr') = collect interesting w 0 ens tr in (([To_stdout lines], code), tr'))
      else
        (let sel = selected co ens;
             header = (if co_fast co
               then [To_stdout [ascii16 (''skipping '' @ js_int (int (length ens) - int (length sel)) @ '' mesh-backed mutation(s)'')]] else []) in
         if sel = [] then ((header @ [To_stderr (none_selected quote co ens)], 2), tr)
         else if co_list co
         then ((header @ [To_stdout (map (\<lambda>en. mu_file en @ [32, 0x2014, 32] @ me_evidence en) sel @
                 [ascii16 (js_int (int (length sel)) @ ''/'' @ js_int (int (length ens)) @ '' selected'')])], 0), tr)
         else (let ((texts, code), tr') = check_run w co ens tr in ((header @ texts, code), tr'))))"

section \<open>Lemmas\<close>

lemma evaluate_all_length [simp]: "length (fst (evaluate_all w n ens tr)) = length ens"
  by (induction w n ens tr rule: evaluate_all.induct) (auto simp: Let_def split: prod.splits)

lemma missed_iff: "missed os = 0 \<longleftrightarrow> (\<forall>r\<in>set os. r = Caught)"
  by (induction os) (auto simp: missed_def)

text \<open>A mutation is caught when its command failed and printed the evidence, and then it has been put back.\<close>

lemma evaluate_Caught:
  assumes "fst (fst (evaluate w en tr)) = Caught"
  obtains run tr' where "runMutation w (mutation.truncate en) tr = (Inr run, tr')" "ru_exitCode run \<noteq> 0"
    "includes16 (ru_output run) (me_evidence en)" "snd (evaluate w en tr) = tr'"
  using assms by (auto simp: evaluate_def split: prod.splits sum.splits mutation_error.splits if_splits)

lemma evaluate_all_caught:
  assumes "\<forall>r\<in>set (fst (evaluate_all w n ens tr)). fst r = Caught" "\<forall>n ns. ns \<noteq> [] \<longrightarrow> mw_report (w n) ns \<noteq> []" "i < length ens"
  shows "\<exists>tr1 run tr2. dirty_files tr1 = [] \<and> runMutation (w (n + i)) (mutation.truncate (ens ! i)) tr1 = (Inr run, tr2) \<and>
    dirty_files tr2 = [] \<and> ru_exitCode run \<noteq> 0 \<and> includes16 (ru_output run) (me_evidence (ens ! i))"
  using assms
proof (induction w n ens tr arbitrary: i rule: evaluate_all.induct)
  case (2 w n en es tr)
  obtain r tr1 where e: "evaluate (w n) en tr = (r, tr1)" by (cases "evaluate (w n) en tr")
  with 2(2) have c: "fst r = Caught" "\<forall>r\<in>set (fst (evaluate_all w (Suc n) es tr1)). fst r = Caught"
    by (auto simp: Let_def split: prod.splits)
  show ?case
  proof (cases i)
    case 0
    from c e have "fst (fst (evaluate (w n) en tr)) = Caught" by simp
    then obtain run tr2 where "runMutation (w n) (mutation.truncate en) tr = (Inr run, tr2)" "ru_exitCode run \<noteq> 0"
      "includes16 (ru_output run) (me_evidence en)" by (rule evaluate_Caught)
    with runMutation_Inr [OF this(1)] 2(3) 0 show ?thesis by auto
  next
    case (Suc j)
    with 2(1) [of "(r, tr1)" r tr1 j] e c 2(3,4) show ?thesis by simp
  qed
qed simp

section \<open>Properties\<close>

text \<open>A check that passes has seen each guard fail.  When the script exits with 0, and it did not only list, collect or
  check itself, something was selected, and each selected mutation was made in a clean tree, its
  command failed and printed the evidence, and the tree was clean again after it.\<close>

theorem passing_check_saw_every_guard:
  assumes "check_main quote interesting w co selfs ens tr = ((texts, 0), tr')"
    "\<not> co_selfCheck co" "\<not> co_collect co" "\<not> co_list co" "\<forall>n ns. ns \<noteq> [] \<longrightarrow> mw_report (w n) ns \<noteq> []"
  shows "selected co ens \<noteq> [] \<and> (\<forall>i<length (selected co ens). \<exists>tr1 run tr2. dirty_files tr1 = [] \<and>
    runMutation (w i) (mutation.truncate (selected co ens ! i)) tr1 = (Inr run, tr2) \<and> dirty_files tr2 = [] \<and>
    ru_exitCode run \<noteq> 0 \<and> includes16 (ru_output run) (me_evidence (selected co ens ! i)))"
proof -
  have "selected co ens \<noteq> [] \<and> (\<forall>r\<in>set (fst (evaluate_all w 0 (selected co ens) tr)). fst r = Caught)"
    using assms(1-4) by (auto simp: check_main_def check_run_def Let_def missed_iff split: prod.splits if_splits)
  with evaluate_all_caught [of w 0 "selected co ens" tr, OF _ assms(5)] show ?thesis by simp
qed

definition sample_entry :: mutation_entry where
  "sample_entry = mutation.extend sample_mutation \<lparr>me_defect = [], me_slow = False, me_evidence = ascii16 ''(fail)''\<rparr>"

definition check_sample_options :: check_options where
  "check_sample_options = check_options_of False [ascii16 ''--fast'']"

theorem passing_check_saw_every_guard_witness:
  "snd (fst (check_main id (\<lambda>l. True) (\<lambda>n. sample_mutation_world None) check_sample_options [] [sample_entry] sample_tree)) = 0 \<and>
   selected check_sample_options [sample_entry] \<noteq> []"
proof -
  let ?w = "\<lambda>n. sample_mutation_world None"
  let ?r = "check_main id (\<lambda>l. True) ?w check_sample_options [] [sample_entry] sample_tree"
  have c: "snd (fst ?r) = 0"
    by (simp add: check_main_def check_run_def check_sample_options_def check_options_of_def selected_def only_of_def sample_entry_def evaluate_def
        mutation_sample_defs mutation.defs runMutation_def spawn_command_def put_back_def git_checkout_def set_file_def dirty_def dirty_files_def missed_def)
  have "?r = ((fst (fst ?r), 0), snd ?r)" using c by (metis prod.collapse)
  from passing_check_saw_every_guard [OF this] c show ?thesis
    by (simp add: check_sample_options_def check_options_of_def sample_mutation_world_def ascii16_def)
qed

end
