(* ===== verification/Channel_Path.thy ===== *)
theory Channel_Path
  imports Discord Driver_Client Lane_Wire Channel_Handler
begin

text \<open>
  The way of a message from a channel driver to its lane and of the answer back: \<open>#handleMessage\<close> of
  \<open>src/channel-driver/discord.ts\<close>, the call of \<open>src/channel-driver/client.ts\<close>, the bytes on the socket, the frames of
  \<open>src/channel-rpc/lane-server.ts\<close> and the handler of \<open>src/lane/channel-handler.ts\<close>, composed.
\<close>

section \<open>One exchange\<close>

definition answers_to :: "nat \<Rightarrow> ls_out list \<Rightarrow> json list" where
  "answers_to c outs = List.map_filter (\<lambda>out. case out of WriteFrame k v \<Rightarrow> if k = c then Some v else None | _ \<Rightarrow> None) outs"

text \<open>The driver calls its lane with the request \<open>i\<close>; \<open>pieces\<close> is how the socket delivers the bytes of connection
  \<open>c\<close>.  The frames that the lane writes come back one by one.\<close>

definition channel_exchange ::
  "json_codec \<Rightarrow> (string \<Rightarrow> string) \<Rightarrow> handler_env \<Rightarrow> (string \<Rightarrow> string list) \<Rightarrow> nat \<Rightarrow> string \<Rightarrow> json \<Rightarrow>
   driver_client \<times> lane_server \<times> lane \<Rightarrow> (driver_client \<times> lane_server \<times> lane) \<times> driver_out list"
where
  "channel_exchange cd sm env pieces c i params s =
     (let (dv, sv, lan) = s; (dv1, outs) = driver_call cd i ''channel.message.received'' params dv in
      case outs of
        [Dv_write n bytes] \<Rightarrow>
          (let ((buf, sv1, lan1), los) = lane_datas cd sm (channel_handle env) c (pieces bytes) ([], sv, lan);
               (dv2, settled) = runs (driver_step cd) (map De_frame (answers_to c los)) dv1 in
           ((dv2, sv1, lan1), settled))
      | _ \<Rightarrow> ((dv1, sv, lan), outs))"

text \<open>The lane asks the driver of connection \<open>c\<close> to send; the driver's \<open>#handleLaneRequest\<close> does, and the bytes of its
  answer come back in pieces.\<close>

definition reply_exchange ::
  "json_codec \<Rightarrow> (string \<Rightarrow> string) \<Rightarrow> handler_env \<Rightarrow> (string \<Rightarrow> string list) \<Rightarrow> send_world \<Rightarrow> string \<Rightarrow> string \<Rightarrow> json \<Rightarrow>
   (driver_client \<times> lane_server \<times> lane) \<times> action_row list \<Rightarrow>
   ((driver_client \<times> lane_server \<times> lane) \<times> action_row list) \<times> ls_out list \<times> json list"
where
  "reply_exchange cd sm env pieces w i driver params s =
     (let ((dv, sv, lan), rows) = s; (sv1, asked) = requestDriver i driver ''channel.message.send'' params sv in
      case asked of
        [WriteFrame c frame] \<Rightarrow>
          (let (dv1, handles) = driver_frame frame dv in
           case handles of
             [Dv_handle j meth ps] \<Rightarrow>
               (let (r, rows', bodies) = handleLaneRequest w meth ps rows in
                case driver_handled cd j r dv1 of
                  [Dv_write n bytes] \<Rightarrow>
                    (let ((buf, sv2, lan2), outs) = lane_datas cd sm (channel_handle env) c (pieces bytes) ([], sv1, lan) in
                     (((dv1, sv2, lan2), rows'), outs, bodies))
                | _ \<Rightarrow> (((dv1, sv1, lan), rows'), [], bodies))
           | _ \<Rightarrow> (((dv1, sv1, lan), rows), [], []))
      | _ \<Rightarrow> (((dv, sv1, lan), rows), asked, []))"

section \<open>Lemmas\<close>

lemma answers_to_simps [simp]:
  "answers_to c [] = []" "answers_to c (WriteFrame c v # outs) = v # answers_to c outs" "answers_to c (EndSocket k # outs) = answers_to c outs"
  by (simp_all add: answers_to_def List.map_filter_simps)

lemma staged_no_inline: "\<not> containsInlineAttachmentData (JArr (map staged_json fs))"
  by (induction fs) (simp_all add: staged_json_def INLINE_ATTACHMENT_KEYS_def to_lower_def)

lemma message_params_fields:
  "jrec (Some (message_params cfg botId m fs)) = Some (message_params cfg botId m fs)"
  "jfield (message_params cfg botId m fs) ''driver_instance_id'' = Some (JStr (dc_channel cfg))"
  "jfield (message_params cfg botId m fs) ''attachments'' = Some (JArr (map staged_json fs))"
  by (simp_all add: message_params_def)

definition discord_account :: "discord_config \<Rightarrow> string option \<Rightarrow> string" where
  "discord_account cfg botId =
     (if dc_account_ref cfg \<noteq> [] then dc_account_ref cfg
      else case botId of Some b \<Rightarrow> if b \<noteq> [] then b else ''discord-bot'' | None \<Rightarrow> ''discord-bot'')"

lemma discord_message_parsed:
  assumes "discord_admits cfg botId m" "cr_driverInstanceId reg = dc_channel cfg"
  shows "\<exists>cm. parse_channel_message reg \<lparr>rq_id = i, rq_method = ''channel.message.received'', rq_params = Some (message_params cfg botId m fs)\<rparr> = Inr cm \<and>
    cm_dedupKey cm = channel_dedupKey (dc_channel cfg) (discord_account cfg botId) (dm_id m)"
  using assms
  by (auto simp: discord_admits_def parse_channel_message_def requiredString_def message_params_def discord_account_def split: option.split)

text \<open>The answer that the driver gets from a lane which processes its request.\<close>

definition seen_by_driver :: "exn + json \<Rightarrow> exn + json" where
  "seen_by_driver r = (case r of Inr v \<Rightarrow> Inr v | Inl e \<Rightarrow> Inl (PlainError (exn_message e)))"

lemma driver_frame_answer:
  assumes "i \<in> set (dv_pending dv)"
  shows "driver_frame (success i v) dv = (dv\<lparr>dv_pending := removeAll i (dv_pending dv)\<rparr>, [Dv_settle i (Inr v)])"
    "rpc_exn e \<Longrightarrow> driver_frame (failure (Some i) e) dv =
       (dv\<lparr>dv_pending := removeAll i (dv_pending dv)\<rparr>, [Dv_settle i (Inl (PlainError (exn_message e)))])"
  using assms
  by (auto simp: driver_frame_def success_def driver_settle_def lane_answer_def rpc_exn_def jopt_def split: exn.splits)

lemma lane_handles_request:
  assumes "conn_of sv c = Some d" "dc_registration d = Some reg" "i \<noteq> []"
    "cr_driverInstanceId reg = dc_channel cfg" "''message.receive'' \<in> set (cr_capabilities reg)"
    "channel_handle env reg \<lparr>rq_id = i, rq_method = ''channel.message.received'', rq_params = Some (message_params cfg botId m fs)\<rparr> lan = (r, lan')"
  shows "process_frame sm (channel_handle env) c (call_json i ''channel.message.received'' (message_params cfg botId m fs)) (sv, lan) =
    ((sv, lan'), case r of Inr v \<Rightarrow> [WriteFrame c (success i v)] | Inl e \<Rightarrow> error_outs c i e)"
proof -
  let ?rq = "\<lparr>rq_id = i, rq_method = ''channel.message.received'', rq_params = Some (message_params cfg botId m fs)\<rparr>"
  have call: "call_json i ''channel.message.received'' (message_params cfg botId m fs) = request_json ?rq"
    by (simp add: call_json_def request_json_def)
  have "parseJsonRpcRequest (request_json ?rq) = Inr ?rq" using assms(3) by (intro parseJsonRpcRequest_request_json) simp_all
  moreover have "\<not> is_response (request_json ?rq)" by (simp add: is_response_def request_json_def has_field_def)
  moreover have "assertRegisteredRequest sm reg ?rq = Inr ()"
    using assms(4,5) staged_no_inline by (simp add: assertRegisteredRequest_def message_params_fields method_capability_def)
  ultimately show ?thesis using assms(1,2,6) unfolding call by (simp add: process_frame_def split: sum.split)
qed

lemma exchange_result:
  assumes frame: "codec_law cd (call_json i ''channel.message.received'' (message_params cfg botId m fs))"
      "length (jc_print cd (call_json i ''channel.message.received'' (message_params cfg botId m fs))) \<le> MAX_FRAME_BYTES"
      "\<And>bytes. concat (pieces bytes) = bytes"
    and driver: "live_socket dv = Some n" "i \<noteq> []" "i \<notin> set (dv_pending dv)"
    and lane: "conn_of sv c = Some d" "dc_registration d = Some reg" "cr_driverInstanceId reg = dc_channel cfg"
      "''message.receive'' \<in> set (cr_capabilities reg)"
      "channel_handle env reg \<lparr>rq_id = i, rq_method = ''channel.message.received'', rq_params = Some (message_params cfg botId m fs)\<rparr> lan = (r, lan')"
  shows "channel_exchange cd sm env pieces c i (message_params cfg botId m fs) (dv, sv, lan) =
    ((dv, sv, lan'), [Dv_settle i (seen_by_driver r)])"
proof -
  let ?v = "call_json i ''channel.message.received'' (message_params cfg botId m fs)" and ?dv = "dv\<lparr>dv_pending := dv_pending dv @ [i]\<rparr>"
  have enc: "encodeFrame cd MAX_FRAME_BYTES ?v = Inr (jc_print cd ?v @ [LF])" using frame(2) by (simp add: encodeFrame_def)
  have call: "driver_call cd i ''channel.message.received'' (message_params cfg botId m fs) dv = (?dv, [Dv_write n (jc_print cd ?v @ [LF])])"
    using driver(1) enc by (simp add: driver_call_def)
  have "lane_datas cd sm (channel_handle env) c (pieces (jc_print cd ?v @ [LF])) ([], sv, lan) =
      (let (st', outs) = ls_run sm (channel_handle env) (map (Ev_frame c) [?v]) (sv, lan) in (([], st'), outs))"
    by (rule lane_datas_written [where frames = "[jc_print cd ?v @ [LF]]"]) (use frame enc in simp_all)
  then have data: "lane_datas cd sm (channel_handle env) c (pieces (jc_print cd ?v @ [LF])) ([], sv, lan) =
      (([], sv, lan'), case r of Inr v \<Rightarrow> [WriteFrame c (success i v)] | Inl e \<Rightarrow> error_outs c i e)"
    using lane_handles_request [OF lane(1,2) driver(2) lane(3-5)] by simp
  have keep: "?dv\<lparr>dv_pending := removeAll i (dv_pending ?dv)\<rparr> = dv" using driver(3) by simp
  have "runs (driver_step cd) (map De_frame (answers_to c (case r of Inr v \<Rightarrow> [WriteFrame c (success i v)] | Inl e \<Rightarrow> error_outs c i e))) ?dv =
      (dv, [Dv_settle i (seen_by_driver r)])"
  proof (cases r)
    case (Inl e)
    have "rpc_exn e" using lane(5) unfolding Inl by (rule channel_handle_rpc_errors)
    with driver_frame_answer(2) [of i ?dv e] keep show ?thesis by (simp add: Inl error_outs_def seen_by_driver_def)
  next
    case (Inr v)
    with driver_frame_answer(1) [of i ?dv v] keep show ?thesis by (simp add: seen_by_driver_def)
  qed
  with call data show ?thesis by (simp add: channel_exchange_def Let_def)
qed

text \<open>A send that succeeds posts every part, and answers for them from then on.\<close>

definition posted_parts :: "discord_send_params \<Rightarrow> string list \<Rightarrow> json list" where
  "posted_parts sp parts = map (\<lambda>(k, p). part_body sp k p) (zip [0..<length parts] parts)"

lemma post_parts_Inr:
  "post_parts post sp k ps final = (Inr x, bodies) \<Longrightarrow> bodies = map (\<lambda>(j, p). part_body sp j p) (zip [k..<k + length ps] ps)"
proof (induction ps arbitrary: k final bodies)
  case (Cons p ps)
  from Cons.prems obtain v bs where "post_parts post sp (Suc k) ps (Some v) = (Inr x, bs)" "bodies = part_body sp k p # bs"
    by (auto simp: Let_def split: sum.splits prod.splits)
  with Cons.IH [of "Suc k" "Some v" bs] show ?case by (simp add: upt_conv_Cons del: upt_Suc)
qed simp

lemma as_duplicate_idem [simp]: "as_duplicate (as_duplicate v) = as_duplicate v"
  by (cases v) (simp_all add: as_duplicate_def update_last)

lemma send_succeeds_once:
  assumes "send_params_of params = Some sp" "handleLaneRequest w ''channel.message.send'' params rows = (Inr v, rows', bodies)"
  shows "handleLaneRequest w' ''channel.message.send'' params rows' = (Inr (as_duplicate v), rows', []) \<and>
    (case stored_result (sp_action_id sp) rows of
       Some stored \<Rightarrow> v = as_duplicate stored \<and> bodies = []
     | None \<Rightarrow> bodies = posted_parts sp (map (sw_text_of w) (chunks (sw_units_of w (sp_text sp)))))"
proof (cases "stored_result (sp_action_id sp) rows")
  case (Some stored)
  from handle_stored [OF assms(1) Some, of w] assms(2) have "v = as_duplicate stored" "rows' = rows" "bodies = []" by auto
  with handle_stored [OF assms(1) Some, of w'] Some show ?thesis by simp
next
  case None
  let ?parts = "map (sw_text_of w) (chunks (sw_units_of w (sp_text sp)))"
  from None assms obtain final where post: "post_parts (sw_post w) sp 0 ?parts None = (Inr final, bodies)"
    and rows': "rows' = succeed_action (sw_done w) (sp_action_id sp) v (upsert_action (sw_now w) (sp_action_id sp) rows)"
    by (auto simp: handleLaneRequest_def Let_def split: prod.splits sum.splits)
  have "handleLaneRequest w' ''channel.message.send'' params rows' = (Inr (as_duplicate v), rows', [])"
    by (rule handle_stored [OF assms(1)]) (simp add: rows' stored_succeed find_action_upsert)
  with post_parts_Inr [OF post] None show ?thesis by (simp add: posted_parts_def)
qed

text \<open>The frame a driver answers with, and what the lane makes of it.\<close>

definition reply_frame :: "string \<Rightarrow> exn + json \<Rightarrow> json" where
  "reply_frame i r =
     (case r of
        Inr v \<Rightarrow> JObj [(''jsonrpc'', JStr ''2.0''), (''id'', JStr i), (''result'', v)]
      | Inl e \<Rightarrow> handler_failure i e)"

definition seen_by_lane :: "exn + json \<Rightarrow> exn + json" where
  "seen_by_lane r =
     (case r of
        Inr v \<Rightarrow> Inr v
      | Inl e \<Rightarrow> Inl (DriverRpcError \<lparr>de_code = of_int (CHANNEL_ERROR_CODES PROVIDER_FAILED), de_message = exn_message e,
          de_data = Some (JObj [(''code'', JStr ''CHANNEL_PROVIDER_FAILED''), (''retryable'', JBool True)])\<rparr>))"

lemma reply_frame_seen:
  "is_response (reply_frame i r)" "jstr (jfield (reply_frame i r) ''id'') = Some i" "response_value (reply_frame i r) = seen_by_lane r"
  by (cases r; simp add: reply_frame_def handler_failure_def is_response_def has_field_def response_value_def seen_by_lane_def)+

lemma reply_result:
  assumes frame: "codec_law cd (reply_frame i r)" "length (jc_print cd (reply_frame i r)) \<le> MAX_FRAME_BYTES" "\<And>bytes. concat (pieces bytes) = bytes"
    and driver: "dv_socket dv = Some n" "handleLaneRequest w ''channel.message.send'' params rows = (r, rows', bodies)"
    and lane: "map_of (ls_drivers sv) driver = Some c" "conn_of sv c = Some d" "dc_registration d = Some reg" "\<not> dc_destroyed d"
      "''message.send'' \<in> set (cr_capabilities reg)" "i \<notin> set (dc_pending d)" "jrec (Some params) = Some params"
  shows "reply_exchange cd sm env pieces w i driver params ((dv, sv, lan), rows) =
    (((dv, sv, lan), rows'), [Settle i (seen_by_lane r)], bodies)"
proof -
  let ?sv = "set_conn c (d\<lparr>dc_pending := dc_pending d @ [i]\<rparr>) sv"
  let ?fr = "JObj [(''jsonrpc'', JStr ''2.0''), (''id'', JStr i), (''method'', JStr ''channel.message.send''), (''params'', params)]"
  have ask: "requestDriver i driver ''channel.message.send'' params sv = (?sv, [WriteFrame c ?fr])"
    using lane by (simp add: requestDriver_def)
  have dv: "driver_frame ?fr dv = (dv, [Dv_handle i ''channel.message.send'' params])"
    using lane(7) by (simp add: driver_frame_def)
  have enc: "encodeFrame cd MAX_FRAME_BYTES (reply_frame i r) = Inr (jc_print cd (reply_frame i r) @ [LF])" using frame(2) by (simp add: encodeFrame_def)
  have handled: "driver_handled cd i r dv = [Dv_write n (jc_print cd (reply_frame i r) @ [LF])]"
    using driver(1) enc by (cases r) (simp_all add: driver_handled_def reply_frame_def)
  have back_again: "set_conn c (d\<lparr>dc_pending := removeAll i (dc_pending d @ [i])\<rparr>) ?sv = sv"
    using lane(2,6) by (simp add: set_conn_def conn_of_def update_last AList.update_triv)
  have "process_frame sm (channel_handle env) c (reply_frame i r) (?sv, lan) = ((sv, lan), [Settle i (seen_by_lane r)])"
    using back_again by (simp add: process_frame_def process_response_def reply_frame_seen Let_def)
  moreover have "lane_datas cd sm (channel_handle env) c (pieces (jc_print cd (reply_frame i r) @ [LF])) ([], ?sv, lan) =
      (let (st', outs) = ls_run sm (channel_handle env) (map (Ev_frame c) [reply_frame i r]) (?sv, lan) in (([], st'), outs))"
    by (rule lane_datas_written [where frames = "[jc_print cd (reply_frame i r) @ [LF]]"]) (use frame enc in simp_all)
  ultimately show ?thesis using ask dv driver(2) handled by (simp add: reply_exchange_def Let_def)
qed

section \<open>Properties\<close>


definition sample_discord_message :: discord_message where
  "sample_discord_message =
     \<lparr>dm_id = ''m1'', dm_channel_id = ''c'', dm_guild_id = None, dm_content = ''hi'', dm_timestamp = ''2026'', dm_author_id = ''u'',
      dm_author_username = None, dm_author_bot = False, dm_mentions = [], dm_attachments = []\<rparr>"

definition sample_discord_params :: json where
  "sample_discord_params = message_params (discord_config_of ''d'' ''a'' (JObj [])) None sample_discord_message []"

definition one_message_codec :: "json \<Rightarrow> json_codec" where
  "one_message_codec v = \<lparr>jc_text = Some, jc_parse = (\<lambda>t. Some v), jc_print = (\<lambda>v. ''json'')\<rparr>"

definition sample_server_registration :: channel_registration where
  "sample_server_registration = sample_registration\<lparr>cr_capabilities := [''message.receive'']\<rparr>"

definition sample_server :: lane_server where
  "sample_server =
     set_conn 7 \<lparr>dc_registration = Some sample_server_registration, dc_pending = [], dc_destroyed = False\<rparr> (lane_server_new ''l'' [])"


text \<open>A message that its lane would take later is lost.  A lane whose outbox is full answers that the request can be
  repeated after a minute; the driver's call gives the text of the error and nothing else,
  \<open>#handleMessage\<close> throws, and nothing has been recorded.  There is no other attempt in it.\<close>

theorem refused_message_is_dropped:
  assumes "codec_law cd (call_json i ''channel.message.received'' (message_params cfg botId m fs))"
      "length (jc_print cd (call_json i ''channel.message.received'' (message_params cfg botId m fs))) \<le> MAX_FRAME_BYTES"
      "\<And>bytes. concat (pieces bytes) = bytes"
    and "live_socket dv = Some n" "i \<noteq> []" "i \<notin> set (dv_pending dv)"
    and "conn_of sv c = Some d" "dc_registration d = Some reg" "cr_driverInstanceId reg = dc_channel cfg"
      "''message.receive'' \<in> set (cr_capabilities reg)" "discord_admits cfg botId m"
    and "channel_handle env reg \<lparr>rq_id = i, rq_method = ''channel.message.received'', rq_params = Some (message_params cfg botId m fs)\<rparr> lan =
      (Inl (handler_error (OutboxCapacityError msg)), lan)"
    and "download_all w 0 (dm_attachments m) [] = (Inr (), fs)"
  shows "channel_exchange cd sm env pieces c i (message_params cfg botId m fs) (dv, sv, lan) =
      ((dv, sv, lan), [Dv_settle i (Inl (PlainError msg))]) \<and>
    discord_message_step cfg botId w (Inl (PlainError msg)) m =
      (Inl (PlainError msg), Some (message_params cfg botId m fs), map sf_local_path fs)"
  using exchange_result [OF assms(1-10,12), of sm] assms(11,13)
  by (simp add: seen_by_driver_def discord_message_step_def channel_rpc_error_of_def)

text \<open>C5: an answer that is sent is posted, and not twice.  When the lane's request to send is answered with a result, the
  parts of the text were posted to the conversation in order or the action had succeeded before; the request
  settles with that result, whatever the socket makes of the bytes, and leaves nothing waiting; and the same action
  asked for again is answered as a duplicate, with the same result, and posts nothing.\<close>

theorem reply_reaches_provider:
  assumes "\<forall>r\<in>{v, as_duplicate v}. codec_law cd (reply_frame i (Inr r)) \<and> length (jc_print cd (reply_frame i (Inr r))) \<le> MAX_FRAME_BYTES"
      "\<And>bytes. concat (pieces bytes) = bytes"
    and "dv_socket dv = Some n" "send_params_of params = Some sp" "jrec (Some params) = Some params"
    and "map_of (ls_drivers sv) driver = Some c" "conn_of sv c = Some d" "dc_registration d = Some reg" "\<not> dc_destroyed d"
      "''message.send'' \<in> set (cr_capabilities reg)" "i \<notin> set (dc_pending d)"
    and "handleLaneRequest w ''channel.message.send'' params rows = (Inr v, rows', bodies)"
  shows "reply_exchange cd sm env pieces w i driver params ((dv, sv, lan), rows) = (((dv, sv, lan), rows'), [Settle i (Inr v)], bodies) \<and>
    reply_exchange cd sm env pieces w' i driver params ((dv, sv, lan), rows') =
      (((dv, sv, lan), rows'), [Settle i (Inr (as_duplicate v))], []) \<and>
    (case stored_result (sp_action_id sp) rows of
       Some stored \<Rightarrow> v = as_duplicate stored \<and> bodies = []
     | None \<Rightarrow> bodies = posted_parts sp (map (sw_text_of w) (chunks (sw_units_of w (sp_text sp)))))"
proof -
  note sends = reply_result [OF _ _ assms(2,3) _ assms(6-11,5), where lan = lan and sm = sm and env = env]
  have again: "handleLaneRequest w' ''channel.message.send'' params rows' = (Inr (as_duplicate v), rows', [])"
    using send_succeeds_once [OF assms(4,12)] by blast
  show ?thesis
    using sends [of cd "Inr v" w rows rows' bodies] sends [of cd "Inr (as_duplicate v)" w' rows' rows' "[]"] assms(1,12) again
      send_succeeds_once [OF assms(4,12), of w'] by (simp add: seen_by_lane_def)
qed

definition sample_reply :: json where
  "sample_reply = send_result (sample_send_world (Inr JNull)) (Some JNull)"

definition sample_reply_rows :: "action_row list" where
  "sample_reply_rows = fst (snd (handleLaneRequest (sample_send_world (Inr JNull)) ''channel.message.send'' sample_send []))"

text \<open>A codec for two frames.\<close>

definition two_message_codec :: "json \<Rightarrow> json \<Rightarrow> json_codec" where
  "two_message_codec u v =
     \<lparr>jc_text = Some, jc_parse = (\<lambda>t. if t = ''u'' then Some u else Some v), jc_print = (\<lambda>x. if x = u then ''u'' else ''v'')\<rparr>"

definition sample_driver_server :: lane_server where
  "sample_driver_server =
     (set_conn 7 \<lparr>dc_registration = Some (sample_registration\<lparr>cr_capabilities := [''message.send'']\<rparr>), dc_pending = [], dc_destroyed = False\<rparr>
       (lane_server_new ''l'' []))\<lparr>ls_drivers := [(''d'', 7)]\<rparr>"

theorem reply_reaches_provider_witness:
  "let cd = two_message_codec (reply_frame ''1'' (Inr sample_reply)) (reply_frame ''1'' (Inr (as_duplicate sample_reply)));
       dv = driver_client_new\<lparr>dv_socket := Some 3\<rparr> in
    reply_exchange cd (\<lambda>m. m) (sample_handler_env (Inr ())) (map (\<lambda>x. [x])) (sample_send_world (Inr JNull)) ''1'' ''d'' sample_send
      ((dv, sample_driver_server, sample_lane), sample_reply_rows) =
    (((dv, sample_driver_server, sample_lane), sample_reply_rows), [Settle ''1'' (Inr (as_duplicate sample_reply))], [])"
proof -
  let ?cd = "two_message_codec (reply_frame ''1'' (Inr sample_reply)) (reply_frame ''1'' (Inr (as_duplicate sample_reply)))"
  let ?w = "sample_send_world (Inr JNull)" and ?dv = "driver_client_new\<lparr>dv_socket := Some 3\<rparr>"
  let ?d = "\<lparr>dc_registration = Some (sample_registration\<lparr>cr_capabilities := [''message.send'']\<rparr>), dc_pending = [], dc_destroyed = False\<rparr>"
  let ?sp = "\<lparr>sp_action_id = ''a'', sp_channel = ''c'', sp_text = ''hi'', sp_reply_to = None\<rparr>"
  have codec: "\<forall>r\<in>{sample_reply, as_duplicate sample_reply}. codec_law ?cd (reply_frame ''1'' (Inr r)) \<and>
      length (jc_print ?cd (reply_frame ''1'' (Inr r))) \<le> MAX_FRAME_BYTES"
    by (auto simp: codec_law_def two_message_codec_def LF_def MAX_FRAME_BYTES_def)
  have pieces: "concat (map (\<lambda>x. [x]) bytes) = bytes" for bytes :: string by (induction bytes) simp_all
  have params: "send_params_of sample_send = Some ?sp" "jrec (Some sample_send) = Some sample_send"
    by (simp_all add: send_params_of_def sample_send_def)
  have lane: "map_of (ls_drivers sample_driver_server) ''d'' = Some 7" "conn_of sample_driver_server 7 = Some ?d" "\<not> dc_destroyed ?d"
      "''message.send'' \<in> set (cr_capabilities (sample_registration\<lparr>cr_capabilities := [''message.send'']\<rparr>))" "''1'' \<notin> set (dc_pending ?d)"
    by (simp_all add: sample_driver_server_def conn_of_def set_conn_def lane_server_new_def)
  have "\<exists>bodies. handleLaneRequest ?w ''channel.message.send'' sample_send [] = (Inr sample_reply, sample_reply_rows, bodies)"
    by (simp add: sample_reply_rows_def handleLaneRequest_def params stored_result_def find_action_def chunks_def sample_send_world_def sample_reply_def Let_def)
  then obtain bodies where sent: "handleLaneRequest ?w ''channel.message.send'' sample_send [] = (Inr sample_reply, sample_reply_rows, bodies)" by blast
  have socket: "dv_socket ?dv = Some 3" by simp
  from reply_reaches_provider [OF codec pieces socket params lane(1,2) _ lane(3-5) sent, of
      "\<lambda>m. m" "sample_handler_env (Inr ())" sample_lane ?w]
  show ?thesis by (simp add: Let_def)
qed

end
