(* ===== verification/Release_Scripts.thy ===== *)
theory Release_Scripts
  imports Errors "HOL-Library.Sublist"
begin

text \<open>
  \<open>scripts/set-version.ts\<close>, which writes the tag of a release into the manifest, and
  \<open>scripts/contract-surface.ts\<close>, which says whether a range of commits touched the code that the contract
  scenarios reach.  The file system, git and the quoting of JSON are arguments.
\<close>

section \<open>The version of a release\<close>

definition release_digit :: "char \<Rightarrow> bool" where
  "release_digit c = (48 \<le> (of_char c :: nat) \<and> of_char c \<le> (57 :: nat))"

definition suffix_char :: "char \<Rightarrow> bool" where
  "suffix_char c =
     (release_digit c \<or> 65 \<le> (of_char c :: nat) \<and> of_char c \<le> (90 :: nat) \<or> 97 \<le> (of_char c :: nat) \<and> of_char c \<le> (122 :: nat) \<or>
      c = CHR ''.'' \<or> c = CHR ''-'')"

text \<open>Digits and what follows them: \<open>\d+\<close> takes all there are, since what comes next is no digit.\<close>

definition leading_number :: "string \<Rightarrow> (string \<times> string) option" where
  "leading_number s = (if takeWhile release_digit s = [] then None else Some (takeWhile release_digit s, dropWhile release_digit s))"

definition dot_then :: "string \<Rightarrow> string option" where
  "dot_then s = (case s of c # r \<Rightarrow> if c = CHR ''.'' then Some r else None | [] \<Rightarrow> None)"

definition version_suffix :: "string \<Rightarrow> bool" where
  "version_suffix s = (s = [] \<or> (hd s = CHR ''-'' \<and> tl s \<noteq> [] \<and> list_all suffix_char (tl s)))"

definition is_version :: "string \<Rightarrow> bool" where
  "is_version s =
     (case leading_number s of None \<Rightarrow> False | Some (a, s1) \<Rightarrow>
     (case dot_then s1 of None \<Rightarrow> False | Some s2 \<Rightarrow>
     (case leading_number s2 of None \<Rightarrow> False | Some (b, s3) \<Rightarrow>
     (case dot_then s3 of None \<Rightarrow> False | Some s4 \<Rightarrow>
     (case leading_number s4 of None \<Rightarrow> False | Some (c, s5) \<Rightarrow> version_suffix s5)))))"

definition not_a_tag :: "(json option \<Rightarrow> string) \<Rightarrow> string \<Rightarrow> exn" where
  "not_a_tag quote ref =
     PlainError (quote (Some (JStr ref)) @ '' is not a release tag. Expected vMAJOR.MINOR.PATCH '' @ map char_of [0xE2 :: nat, 0x80, 0x94] @
       '' anything else names a version no release page carries.'')"

definition versionFromRef :: "(json option \<Rightarrow> string) \<Rightarrow> string \<Rightarrow> exn + string" where
  "versionFromRef quote ref =
     (case ref of
        [] \<Rightarrow> Inl (not_a_tag quote ref)
      | c # v \<Rightarrow> if c = CHR ''v'' \<and> is_version v then Inr v else Inl (not_a_tag quote ref))"

text \<open>The manifest is a JSON object and \<open>quote\<close> is \<open>JSON.stringify\<close>; \<open>disk\<close> is what the file holds after a write.\<close>

definition writeVersion :: "(json \<Rightarrow> json) \<Rightarrow> string \<Rightarrow> json \<Rightarrow> json" where
  "writeVersion disk version manifest =
     disk (case manifest of JObj fs \<Rightarrow> JObj (AList.update ''version'' (JStr version) fs) | v \<Rightarrow> v)"

definition readVersion :: "json \<Rightarrow> json option" where
  "readVersion manifest = jfield manifest ''version''"

definition version_holds :: "(json option \<Rightarrow> string) \<Rightarrow> string \<Rightarrow> json option \<Rightarrow> string \<Rightarrow> string" where
  "version_holds quote path written version =
     path @ '' holds '' @ quote written @ '' after writing '' @ quote (Some (JStr version))"

text \<open>The exit code, what is printed, and the manifest.\<close>

definition set_version :: "(json option \<Rightarrow> string) \<Rightarrow> (json \<Rightarrow> json) \<Rightarrow> string \<Rightarrow> string \<Rightarrow> json \<Rightarrow> int \<times> string \<times> json" where
  "set_version quote disk ref path manifest =
     (case versionFromRef quote ref of
        Inl e \<Rightarrow> (2, exn_message e, manifest)
      | Inr version \<Rightarrow>
          (let manifest' = writeVersion disk version manifest in
           if readVersion manifest' \<noteq> Some (JStr version)
           then (1, version_holds quote path (readVersion manifest') version, manifest')
           else (0, path @ '' version = '' @ version, manifest')))"

section \<open>The surface of the contract\<close>

definition in_surface :: "string \<Rightarrow> bool" where
  "in_surface p = (prefix ''packages/hub/src/'' p \<or> prefix ''packages/http/src/'' p)"

text \<open>\<open>packages/\<close>, a name, \<open>/test/\<close>.\<close>

definition package_test :: "string \<Rightarrow> bool" where
  "package_test p =
     (prefix ''packages/'' p \<and>
      (let r = drop 9 p; name = takeWhile (\<lambda>c. c \<noteq> CHR ''/'') r in
       name \<noteq> [] \<and> prefix ''/test/'' (drop (length name) r)))"

definition not_surface :: "string \<Rightarrow> bool" where
  "not_surface p = (prefix ''packages/http/src/ui/'' p \<or> suffix ''.test.ts'' p \<or> package_test p)"

definition touchesSurface :: "string list \<Rightarrow> string list" where
  "touchesSurface paths = filter (\<lambda>p. in_surface p \<and> \<not> not_surface p) paths"

text \<open>\<open>diff\<close> is what git gives for the range: the exit code with its error output or the changed files.\<close>

definition surface_main :: "string list \<Rightarrow> (string \<Rightarrow> string \<Rightarrow> string \<Rightarrow> string + string list) \<Rightarrow> int \<times> string list" where
  "surface_main args diff =
     (case args of
        checkout # from_ # to_ # rest \<Rightarrow>
          if checkout = [] \<or> from_ = [] \<or> to_ = [] then (2, [''usage: contract-surface.ts <checkout> <from> <to>''])
          else (case diff checkout from_ to_ of
            Inl err \<Rightarrow> (2, [''git diff failed: '' @ err])
          | Inr names \<Rightarrow>
              (let paths = filter (\<lambda>p. p \<noteq> []) names; hits = touchesSurface paths in
               (0, (''changed '' @ js_int (int (length paths)) @ '' '' @ map char_of [0xC2 :: nat, 0xB7] @ '' surface '' @
                  js_int (int (length hits))) # map (\<lambda>p. ''  '' @ p) hits)))
      | _ \<Rightarrow> (2, [''usage: contract-surface.ts <checkout> <from> <to>'']))"

section \<open>Lemmas\<close>

lemma is_version_iff:
  "is_version v \<longleftrightarrow>
     (\<exists>a b c s. v = a @ ''.'' @ b @ ''.'' @ c @ s \<and> a \<noteq> [] \<and> b \<noteq> [] \<and> c \<noteq> [] \<and>
       list_all release_digit a \<and> list_all release_digit b \<and> list_all release_digit c \<and> version_suffix s)" (is "_ = ?R")
proof
  have parts: "s = a @ r \<and> a \<noteq> [] \<and> list_all release_digit a" if "leading_number s = Some (a, r)" for s a r
    using that by (auto simp: leading_number_def list_all_iff dest: set_takeWhileD split: if_splits)
  have dot: "s = CHR ''.'' # r" if "dot_then s = Some r" for s r
    using that by (auto simp: dot_then_def split: list.splits if_splits)
  assume v: "is_version v"
  then obtain a s1 where 1: "leading_number v = Some (a, s1)" by (cases "leading_number v") (auto simp: is_version_def)
  with v obtain s2 where 2: "dot_then s1 = Some s2" by (cases "dot_then s1") (simp_all add: is_version_def)
  with v 1 obtain b s3 where 3: "leading_number s2 = Some (b, s3)" by (cases "leading_number s2") (auto simp: is_version_def)
  with v 1 2 obtain s4 where 4: "dot_then s3 = Some s4" by (cases "dot_then s3") (simp_all add: is_version_def)
  with v 1 2 3 obtain c s5 where 5: "leading_number s4 = Some (c, s5)" by (cases "leading_number s4") (auto simp: is_version_def)
  from v 1 2 3 4 5 have 6: "version_suffix s5" by (simp add: is_version_def)
  have "v = a @ ''.'' @ b @ ''.'' @ c @ s5" using parts [OF 1] parts [OF 3] parts [OF 5] dot [OF 2] dot [OF 4] by simp
  with parts [OF 1] parts [OF 3] parts [OF 5] 6 show ?R by blast
next
  assume ?R
  then obtain a b c s where v: "v = a @ ''.'' @ b @ ''.'' @ c @ s" and d: "a \<noteq> []" "b \<noteq> []" "c \<noteq> []"
    "list_all release_digit a" "list_all release_digit b" "list_all release_digit c" and s: "version_suffix s" by blast
  have front: "leading_number (a @ r) = Some (a, r)" if "a \<noteq> []" "list_all release_digit a" "r = [] \<or> \<not> release_digit (hd r)" for a r
  proof -
    from that(2) have "takeWhile release_digit a = a" "dropWhile release_digit a = []" by (simp_all add: takeWhile_eq_all_conv list_all_iff)
    with that show ?thesis by (cases r; cases a) (auto simp: leading_number_def list_all_iff takeWhile_append2 dropWhile_append2)
  qed
  have "\<not> release_digit (CHR ''.'')" "\<not> release_digit (CHR ''-'')" by (simp_all add: release_digit_def)
  moreover from s have "s = [] \<or> \<not> release_digit (hd s)" using calculation(2) by (auto simp: version_suffix_def)
  ultimately show "is_version v" using front d s by (simp add: v is_version_def dot_then_def)
qed

section \<open>Properties\<close>

text \<open>Only a release tag becomes a version.  The script exits with 0 exactly when the reference is a \<open>v\<close> and three
  numbers, with a suffix or without, and the manifest then holds that version; otherwise it exits with
  2 and has written nothing, or with 1 when the file does not hold what was written.\<close>

theorem set_version_exit:
  assumes "set_version quote disk ref path manifest = (code, text', manifest')"
  shows "(code = 0 \<longleftrightarrow> (\<exists>v. ref = CHR ''v'' # v \<and> is_version v \<and> readVersion manifest' = Some (JStr v))) \<and>
    (code = 2 \<longrightarrow> manifest' = manifest) \<and> code \<in> {0, 1, 2}"
  using assms
  by (auto simp: set_version_def versionFromRef_def Let_def split: list.splits sum.splits if_splits)

theorem set_version_exit_witness:
  "fst (set_version (\<lambda>v. []) id ''v0.2.0-rc.1'' ''package.json'' (JObj [(''version'', JStr ''0.1.0'')])) = 0 \<and>
   fst (set_version (\<lambda>v. []) id ''main'' ''package.json'' (JObj [])) = 2"
proof -
  obtain c t m where a: "set_version (\<lambda>v. []) id ''v0.2.0-rc.1'' ''package.json'' (JObj [(''version'', JStr ''0.1.0'')]) = (c, t, m)"
    by (metis surj_pair)
  have "is_version ''0.2.0-rc.1''"
    by (simp add: is_version_def leading_number_def dot_then_def version_suffix_def suffix_char_def release_digit_def)
  moreover have "readVersion m = Some (JStr ''0.2.0-rc.1'')"
    using a calculation by (auto simp: set_version_def versionFromRef_def Let_def writeVersion_def readVersion_def)
  ultimately have "c = 0" using set_version_exit [OF a] by simp
  with a show ?thesis by (simp add: set_version_def versionFromRef_def)
qed

end
