(* ===== verification/Spec2Isabelle.thy ===== *)
theory Spec2Isabelle
  imports Ndjson Ws_Upgrade Ids Registration Blob_Spool Outbox_Props Inbox Channel_Handler
    Lane_Server_Props Lane_Socket Lane_Wire Audit_Worker Worker_Loop Mesh_Client Driver_Client Lane_Hub
    Config_Store Supervisor Ring_Buffer Discord_Run Paths Key_Manager Host_Daemon Daemon_Lanes_Props
    Observer Codex_Server Antigravity_Stop Claude_Channel Claude_Supervisor Attach Bundle
    Command_Line_Props User_Service Sleep Loop_Meter Tui_Session
    Tui_Terminal Daemon_Process Mutation_Check Channel_Path
    Release_Scripts
begin

text \<open>
  The agent-mesh client connects the agents of a host to a Hub and to chat channels.  A lane is one
  agent identity: an outbox of audit events, an inbox of turns for the agent's runtime, a socket that
  channel drivers register on, and a connection to the Hub.  This development models the TypeScript
  under \<open>src/src/\<close>, and of \<open>src/scripts/\<close> the check that breaks the guards of the repository one by one, and
  those of a release.

  \<^bold>\<open>How the parts interact.\<close>  A channel driver (\<open>channel-driver/discord.ts\<close>, kept running by
  \<open>channel-driver/supervisor.ts\<close>) talks to its lane over a Unix socket with NDJSON frames
  (\<open>channel-driver/client.ts\<close> on its side, \<open>channel-rpc/\<close> on the lane's).  A message it hands over is
  recorded durably in the outbox and enqueued in the inbox before it is acknowledged
  (\<open>lane/channel-handler.ts\<close>, \<open>lane/lane-controller.ts\<close>).  The runtime worker claims the turns one at
  a time and sends the answer back over the channel or the mesh (\<open>runtime/worker.ts\<close>,
  \<open>daemon/agent-mesh-daemon.ts\<close>).  The audit worker uploads the outbox to the Hub
  (\<open>hub/audit-worker.ts\<close>) over the connection that \<open>hub/lane-hub-connection.ts\<close> opens and reopens
  with \<open>hub/mesh-client.ts\<close>, after the identity was provisioned (\<open>hub/provisioning.ts\<close>) with the key of
  \<open>identity/key-manager.ts\<close>.  The runtimes are Codex, over its app server
  (\<open>runtime/codex-app-server.ts\<close>), Antigravity, a program for each turn (\<open>runtime/antigravity.ts\<close>),
  and Claude, a session in tmux (\<open>runtime/claude-supervisor.ts\<close>) that takes its turns and replies
  through a channel server (\<open>runtime/claude-channel-mcp.ts\<close>).

  One daemon holds the lanes of a host (\<open>daemon/host-daemon.ts\<close>, \<open>daemon/agent-mesh-daemon.ts\<close>): it
  starts and reloads them from the configuration (\<open>config/store.ts\<close>) and answers requests on a control
  socket.  The command line (\<open>cli.ts\<close>) and the terminal interface (\<open>tui/app.ts\<close>) change the
  configuration, ask the daemon to reload, attach to sessions (\<open>runtime/attach.ts\<close>) and install the
  daemon as a user service (\<open>service/user-service.ts\<close>).  What goes wrong is kept, masked, in the ring
  of \<open>diagnostics/\<close> and collected in a bundle.

  \<^bold>\<open>Theories and sources.\<close>
  \<^item> \<open>Prelude\<close>, \<open>Bytes\<close>, \<open>Framing\<close>: JSON values, the SQL statements on lists of rows, results,
    byte strings, the shared facts on them and the collections \<open>result_simps\<close>, \<open>json_simps\<close>,
    \<open>sql_simps\<close>.  \<open>Interfaces\<close>: the contracts as locales (a frame codec, a decoder of a stream,
    a table of requests that settle once), interpreted on the model's definitions where they are
    provided.
  \<^item> \<open>Errors\<close> (\<open>constants.ts\<close>, the error classes), \<open>Json_Rpc\<close> (\<open>channel-rpc/json-rpc.ts\<close>),
    \<open>Ndjson\<close> (\<open>channel-rpc/ndjson.ts\<close>), \<open>Registration\<close> (\<open>channel-rpc/registration.ts\<close>),
    \<open>Lane_Server\<close> and \<open>Lane_Server_Props\<close> with \<open>Lane_Socket\<close> (its socket file) and \<open>Lane_Wire\<close> (the
    bytes of a connection), all of \<open>channel-rpc/lane-server.ts\<close>, \<open>Driver_Client\<close>
    (\<open>channel-driver/client.ts\<close>).
  \<^item> \<open>Ids\<close> (\<open>util/ids.ts\<close>), \<open>Blob_Spool\<close> (\<open>outbox/blob-spool.ts\<close>), \<open>Outbox\<close>, \<open>Outbox_Inv\<close> and
    \<open>Outbox_Props\<close> (\<open>outbox/lane-outbox.ts\<close>, \<open>outbox/types.ts\<close>).
  \<^item> \<open>Inbox\<close> (\<open>runtime/inbox.ts\<close>), \<open>Channel_Handler\<close> (\<open>lane/\<close>), \<open>Delivery\<close>, \<open>Delivery_Props\<close> and \<open>Worker_Loop\<close>
    (\<open>runtime/worker.ts\<close>, \<open>runtime/adapter.ts\<close>, the lane part of \<open>daemon/agent-mesh-daemon.ts\<close>).
  \<^item> \<open>Audit_Worker\<close> (\<open>hub/audit-worker.ts\<close>), \<open>Mesh_Client\<close> (\<open>hub/mesh-client.ts\<close>), \<open>Provisioning\<close>
    (\<open>hub/provisioning.ts\<close>), \<open>Lane_Hub\<close> (\<open>hub/lane-hub-connection.ts\<close>).
  \<^item> \<open>Ws_Frame\<close> and \<open>Ws_Upgrade\<close> (\<open>runtime/ws-unix-client.ts\<close>), \<open>Codex\<close>, \<open>Codex_Start\<close> and
    \<open>Codex_Server\<close> (\<open>runtime/codex-app-server.ts\<close>), \<open>Observer\<close> (\<open>runtime/observer.ts\<close>, \<open>runtime/factory.ts\<close>), \<open>Antigravity\<close>
    and \<open>Antigravity_Stop\<close> (\<open>runtime/antigravity.ts\<close>), \<open>Claude_Channel\<close> (\<open>runtime/claude-channel-mcp.ts\<close>), \<open>Pane\<close> and
    \<open>Claude_Supervisor\<close> (\<open>runtime/claude-supervisor.ts\<close>), \<open>Attach\<close> (\<open>runtime/attach.ts\<close>).
  \<^item> \<open>Config\<close> and \<open>Config_Store\<close> (\<open>config/store.ts\<close>, \<open>config/types.ts\<close>), \<open>Paths\<close> (\<open>config/paths.ts\<close>,
    \<open>config/locations.ts\<close>, \<open>hub/endpoints.ts\<close>), \<open>Secrets\<close> (\<open>config/secrets.ts\<close>), \<open>Key_Manager\<close>
    (\<open>identity/key-manager.ts\<close>).
  \<^item> \<open>Supervisor\<close> (\<open>channel-driver/supervisor.ts\<close>), \<open>Discord\<close>, \<open>Discord_Session\<close> (its gateway
    sockets) and \<open>Discord_Run\<close> (its loop and its process; \<open>channel-driver/discord.ts\<close>).  \<open>Channel_Path\<close> composes
    driver, socket and lane: a message on its way in and an answer on its way out.
  \<^item> \<open>Host_Daemon\<close> (\<open>daemon/host-daemon.ts\<close>), \<open>Daemon_Lanes\<close> and \<open>Daemon_Lanes_Props\<close> (start, stop and
    reload of \<open>daemon/agent-mesh-daemon.ts\<close>), \<open>Daemon_Control\<close> (the control requests of the same
    file), \<open>Loop_Meter\<close> (\<open>daemon/loop-meter.ts\<close>), \<open>Sleep\<close> (\<open>util/abortable-sleep.ts\<close>).
  \<^item> \<open>Redact\<close>, \<open>Ring_Buffer\<close> and \<open>Bundle\<close> (\<open>diagnostics/\<close>).
  \<^item> \<open>Effects\<close>: programs over a state that may throw.  \<open>Command_Line\<close>, \<open>Command_Line_Props\<close>
    and \<open>Daemon_Process\<close> (\<open>cli.ts\<close>), \<open>User_Service\<close> (\<open>service/user-service.ts\<close>), \<open>Tui_Select\<close> (menus, the window of agents,
    the id of a lane), \<open>Tui\<close> (the screens that change something), \<open>Tui_Session\<close> (the loops over
    the screens), \<open>Tui_Draw\<close> (what they draw) and \<open>Tui_Terminal\<close> (questions, secrets and the end of the
    input), all of \<open>tui/app.ts\<close>.
  \<^item> \<open>Mutation_Tool\<close> (\<open>scripts/mutate.ts\<close>), \<open>Mutation_Check\<close> (\<open>scripts/mutation-check.ts\<close>) and \<open>Release_Scripts\<close>
    (\<open>scripts/set-version.ts\<close>, \<open>scripts/contract-surface.ts\<close>).

  \<^bold>\<open>How state and operations correspond.\<close>  A class is a record, its methods are functions that take
  and return the record; an awaited call splits a method into steps, and a component that is driven
  by events (\<open>Lane_Server\<close>, \<open>Mesh_Client\<close>, \<open>Driver_Client\<close>, \<open>Supervisor\<close>, \<open>Codex\<close>, \<open>Antigravity\<close>,
  \<open>Claude_Channel\<close>, \<open>Worker_Loop\<close>, \<open>Codex_Start\<close>, \<open>Discord_Session\<close>, \<open>Discord_Run\<close>, \<open>Daemon_Process\<close>, \<open>Ws_Upgrade\<close>, \<open>Sleep\<close>) is a
  step function on an event type, so that its properties hold for every interleaving.  A SQLite table is the list of its
  rows; files are a map or the contents of the few that matter, with a fault at each step of a write.
  What a person chooses in the terminal interface is an argument.  Every throw is a value of \<open>exn\<close> in the left of a sum.  Strings are their UTF-8 bytes, but the
  text that \<open>Discord\<close> splits, the pane that \<open>Pane\<close> reads, the screens of \<open>Observer\<close>, \<open>Tui_Draw\<close> and \<open>Tui_Terminal\<close>,
  the error outputs that \<open>Antigravity_Stop\<close> and \<open>Codex_Server\<close> cut and the files of the mutation check are UTF-16 code units; times are integers in milliseconds.  What is
  not under \<open>src/\<close> (the JSON text codec, digests, keys, the file system's and the Hub's answers, the
  schemas of the contracts package) is an argument.

  \<^bold>\<open>What the lemmas show.\<close>  The outbox and the inbox keep their invariants under every operation, an
  event that was recorded is never lost and a key is recorded once; an acknowledged channel message is
  durable; turns are claimed in order and always decided, by a loop that does to a turn what \<open>runTurn\<close> says
  and that \<open>stop\<close> ends; every request over the RPC clients, to the
  Codex app server and from a Claude session settles exactly once; framing survives any chunking and
  round-trips, and a lane processes what its drivers wrote, however the bytes were cut; retries back off within their bounds; validation accepts exactly the well-formed inputs;
  the files of the spool, of the configuration and of the service are published whole or not at all;
  the daemon runs the enabled lanes of its configuration; keys survive a restart; a message a Discord driver hands over is in its lane when the call succeeds,
  and an answer is posted once; a runtime gets no
  more rights than the configuration acknowledges, and the supervisor types into a session only to
  answer its own gates; a session of the terminal interface is a sequence of commands, and no sequence
  of commands brings a removed channel id back; the panels keep their frames and the overview its
  height; a Discord driver that is stopped ends; no long token leaves through an error of Antigravity; a
  mutation check that passes has seen each guard fail and has put each file back.  A group of properties states where the code does less
  than it means to: each is proved of the code as it is.

  \<^bold>\<open>Bounds and fuel.\<close>  The recursions are structural or have a measure (the remaining input); the
  search for the id of a lane is a partial function that is proved to return.  The loops that wait (the
  Hub connection, the Discord session, the workers, the startup gates, the screens) are functions of the
  finite list of what happened in their passes, so no fuel is chosen; the gates are proved to end by
  their deadline.

  \<^bold>\<open>Not modelled.\<close>  Connecting and spawning, signals and timers are input and output; they appear as
  events or as the answers of the environment.  \<open>index.ts\<close> re-exports; the set of mutations is an argument
  of its check; the end-to-end script, the end-to-end scenarios and the tests are not part of the program.
\<close>

end
